(* ===== verification/Prelude.thy ===== *)
theory Prelude
  imports Complex_Main "HOL-Library.AList" "HOL-Library.Multiset"
begin

text \<open>
  Shared vocabulary of the development: reading a Go map with its zero value, the three
  interfaces several components share (an operation that keeps an invariant, a trail that keeps
  its newest entries, an ordering passed to Go's sort package), and the generic lemmas on lists
  and maps that the component theories use.

  A Go map that the code only reads and writes by key is a partial function; a map the code
  ranges over is an association list with distinct keys, whose order stands for the unspecified
  iteration order of Go, so that a statement about every such list holds for every order.
\<close>

named_theorems inv_intros \<open>preservation lemmas, one per operation\<close>
named_theorems model_simps \<open>characteristic equations of the modelled operations\<close>

section \<open>Maps with zero values\<close>

text \<open>\<open>m[k]\<close> in Go: the zero value \<open>z\<close> of the element type when the key is absent.\<close>

definition mget :: "'v \<Rightarrow> ('k \<Rightarrow> 'v option) \<Rightarrow> 'k \<Rightarrow> 'v" where
  "mget z m k = (case m k of None \<Rightarrow> z | Some v \<Rightarrow> v)"

lemma mget_upd [simp]: "mget z (m(k \<mapsto> v)) k' = (if k' = k then v else mget z m k')"
  by (simp add: mget_def)

lemma mget_del [simp]: "mget z (m(k := None)) k' = (if k' = k then z else mget z m k')"
  by (simp add: mget_def)

lemma mget_empty [simp]: "mget z (\<lambda>_. None) k = z"
  by (simp add: mget_def)

lemma mget_Some [simp]: "m k = Some v \<Longrightarrow> mget z m k = v"
  by (simp add: mget_def)

lemma mget_None [simp]: "m k = None \<Longrightarrow> mget z m k = z"
  by (simp add: mget_def)

lemma map_of_update_eq: "map_of (AList.update k v al) = (map_of al)(k \<mapsto> v)"
  by (rule ext) (simp add: update_conv)

lemma map_of_delete_eq: "map_of (AList.delete k al) = (map_of al)(k := None)"
  by (rule ext) (simp add: delete_conv)

lemma map_of_filter_snd:
  assumes "distinct (map fst al)"
  shows "map_of (filter (\<lambda>(k, v). P v) al) k =
    (case map_of al k of None \<Rightarrow> None | Some v \<Rightarrow> if P v then Some v else None)"
  using assms
proof (induction al)
  case (Cons a al)
  obtain k' v where a: "a = (k', v)" by (cases a)
  from Cons.prems a have "map_of al k' = None"
    by (simp add: map_of_eq_None_iff)
  with Cons a show ?case by auto
qed simp

lemma distinct_filter_keys:
  "distinct (map fst al) \<Longrightarrow> distinct (map fst (filter P al))"
  by (induction al) (auto simp: image_iff)

lemma filter_nil_map_of:
  assumes "distinct (map fst al)"
  shows "filter (\<lambda>(k, v). P v) al = [] \<longleftrightarrow> (\<forall>k v. map_of al k = Some v \<longrightarrow> \<not> P v)"
  using assms by (auto simp: filter_empty_conv map_of_eq_Some_iff)

section \<open>Operations that keep an invariant\<close>

text \<open>
  Every stateful component exports operations; a run of the component is a list of them. The
  interface is one preservation law, and what holds of every run is proved once.
\<close>

locale invariant_machine =
  fixes step :: "'op \<Rightarrow> 's \<Rightarrow> 's"
    and inv :: "'s \<Rightarrow> bool"
  assumes step_keeps: "inv s \<Longrightarrow> inv (step a s)"
begin

lemma run_keeps: "inv s \<Longrightarrow> inv (fold step as s)"
  by (induction as arbitrary: s) (auto intro: step_keeps)

lemma run_prefix_keeps: "inv s \<Longrightarrow> inv (fold step (take n as) s)"
  by (rule run_keeps)

end

section \<open>Observations with harmless side effects\<close>

text \<open>
  Asking a health gate or a quota ledger prunes or rolls what it holds, so an observation returns a
  new state. The contract is that an observation never changes the answer of another one; the
  client lemma is that asking about a whole list through the threaded state gives the answers of
  the state it started from.
\<close>

fun observe_all :: "('s \<Rightarrow> 'k \<Rightarrow> 'r \<times> 's) \<Rightarrow> 's \<Rightarrow> 'k list \<Rightarrow> 'r list \<times> 's" where
  "observe_all obs s [] = ([], s)"
| "observe_all obs s (k # ks) =
    (case obs s k of (r, s1) \<Rightarrow> case observe_all obs s1 ks of (rs, s2) \<Rightarrow> (r # rs, s2))"

locale stable_observer =
  fixes obs :: "'s \<Rightarrow> 'k \<Rightarrow> 'r \<times> 's"
    and inv :: "'s \<Rightarrow> bool"
  assumes obs_keeps: "inv s \<Longrightarrow> inv (snd (obs s k))"
    and obs_stable: "inv s \<Longrightarrow> fst (obs (snd (obs s k)) k') = fst (obs s k')"
begin

lemma observe_all_keeps: "inv s \<Longrightarrow> inv (snd (observe_all obs s ks))"
proof (induction ks arbitrary: s)
  case (Cons k ks)
  have "inv (snd (observe_all obs (snd (obs s k)) ks))"
    by (rule Cons.IH [OF obs_keeps [OF Cons.prems]])
  then show ?case by (auto split: prod.splits)
qed simp

lemma observe_all_answers: "inv s \<Longrightarrow> fst (observe_all obs s ks) = map (\<lambda>k. fst (obs s k)) ks"
proof (induction ks arbitrary: s)
  case (Cons k ks)
  have "fst (observe_all obs (snd (obs s k)) ks) = map (\<lambda>k'. fst (obs (snd (obs s k)) k')) ks"
    by (rule Cons.IH [OF obs_keeps [OF Cons.prems]])
  then show ?case using obs_stable [OF Cons.prems] by (auto split: prod.splits)
qed simp

lemma observe_all_stable:
  "inv s \<Longrightarrow> fst (obs (snd (observe_all obs s ks)) k) = fst (obs s k)"
proof (induction ks arbitrary: s)
  case (Cons k' ks)
  have "fst (obs (snd (observe_all obs (snd (obs s k')) ks)) k) = fst (obs (snd (obs s k')) k)"
    by (rule Cons.IH [OF obs_keeps [OF Cons.prems]])
  then show ?case using obs_stable [OF Cons.prems] by (auto split: prod.splits)
qed simp

end

section \<open>Trails that keep their newest entries\<close>

text \<open>
  Both the health event ring and the log panes of nom-web append and then cut the front off.
  The law is about one push; the run lemma says what a reader finds after any number of them.
\<close>

locale bounded_trail =
  fixes push :: "'a \<Rightarrow> 'a list \<Rightarrow> 'a list"
    and cap :: nat
  assumes push_law: "push x xs = drop (length xs + 1 - cap) (xs @ [x])"
begin

lemma push_length: "length xs \<le> cap \<Longrightarrow> length (push x xs) \<le> cap"
  by (simp add: push_law)

lemma run_newest: "fold push xs [] = drop (length xs - cap) xs"
proof (induction xs rule: rev_induct)
  case (snoc x xs)
  have "fold push (xs @ [x]) [] = push x (drop (length xs - cap) xs)"
    by (simp add: snoc)
  also have "\<dots> = drop (length (xs @ [x]) - cap) (xs @ [x])"
    by (cases "length xs < cap") (auto simp: push_law Suc_diff_le)
  finally show ?case .
qed simp

lemma run_length: "length (fold push xs []) \<le> cap"
  by (simp add: run_newest)

end

section \<open>Sorting with a Go less function\<close>

text \<open>
  \<open>sort.SliceStable\<close> and \<open>sort.Slice\<close> take a strict weak order. The stable sort is insertion
  of the elements from the back, each before the first element that is not smaller.
\<close>

fun ins_stable :: "('a \<Rightarrow> 'a \<Rightarrow> bool) \<Rightarrow> 'a \<Rightarrow> 'a list \<Rightarrow> 'a list" where
  "ins_stable lt x [] = [x]"
| "ins_stable lt x (y # ys) = (if lt y x then y # ins_stable lt x ys else x # y # ys)"

definition sort_stable :: "('a \<Rightarrow> 'a \<Rightarrow> bool) \<Rightarrow> 'a list \<Rightarrow> 'a list" where
  "sort_stable lt xs = foldr (ins_stable lt) xs []"

lemma sort_stable_simps [simp]:
  "sort_stable lt [] = []"
  "sort_stable lt (x # xs) = ins_stable lt x (sort_stable lt xs)"
  by (simp_all add: sort_stable_def)

lemma mset_ins_stable [simp]: "mset (ins_stable lt x ys) = add_mset x (mset ys)"
  by (induction ys) auto

lemma mset_sort_stable [simp]: "mset (sort_stable lt xs) = mset xs"
  by (induction xs) auto

lemma set_sort_stable [simp]: "set (sort_stable lt xs) = set xs"
  by (metis mset_sort_stable set_mset_mset)

lemma length_sort_stable [simp]: "length (sort_stable lt xs) = length xs"
  by (metis mset_sort_stable size_mset)

locale weak_order =
  fixes lt :: "'a \<Rightarrow> 'a \<Rightarrow> bool"
  assumes lt_asym: "lt x y \<Longrightarrow> \<not> lt y x"
    and lt_neg_trans: "\<not> lt x y \<Longrightarrow> \<not> lt y z \<Longrightarrow> \<not> lt x z"
begin

lemma lt_irrefl [simp]: "\<not> lt x x"
  using lt_asym by blast

lemma sorted_ins_stable:
  assumes "sorted_wrt (\<lambda>x y. \<not> lt y x) ys"
  shows "sorted_wrt (\<lambda>x y. \<not> lt y x) (ins_stable lt x ys)"
  using assms
proof (induction ys)
  case (Cons y ys)
  have set_ins: "set (ins_stable lt x ys) = insert x (set ys)"
    by (metis mset_ins_stable set_mset_add_mset_insert set_mset_mset)
  show ?case
  proof (cases "lt y x")
    case True
    with Cons set_ins show ?thesis by (auto dest: lt_asym)
  next
    case False
    with Cons.prems show ?thesis by (auto dest: lt_neg_trans)
  qed
qed simp

lemma sorted_sort_stable: "sorted_wrt (\<lambda>x y. \<not> lt y x) (sort_stable lt xs)"
  by (induction xs) (auto intro: sorted_ins_stable)

lemma ins_stable_filter:
  "filter (\<lambda>y. \<not> lt y z \<and> \<not> lt z y) (ins_stable lt x ys) =
    (if \<not> lt x z \<and> \<not> lt z x then x # filter (\<lambda>y. \<not> lt y z \<and> \<not> lt z y) ys
     else filter (\<lambda>y. \<not> lt y z \<and> \<not> lt z y) ys)"
proof (induction ys)
  case (Cons y ys)
  have "lt y x \<Longrightarrow> \<not> lt x z \<Longrightarrow> \<not> lt z x \<Longrightarrow> lt y z"
    using lt_neg_trans lt_asym by blast
  then show ?case using Cons by auto
qed simp

lemma sort_stable_filter:
  "filter (\<lambda>y. \<not> lt y z \<and> \<not> lt z y) (sort_stable lt xs) =
   filter (\<lambda>y. \<not> lt y z \<and> \<not> lt z y) xs"
  by (induction xs) (auto simp: ins_stable_filter)

end

section \<open>Generic list lemmas\<close>

lemma sum_list_map_filter_split:
  "sum_list (map f xs) = sum_list (map f (filter P xs)) + sum_list (map f (filter (\<lambda>x. \<not> P x) xs))"
  for f :: "'a \<Rightarrow> 'b::comm_monoid_add"
  by (induction xs) (auto simp: add_ac)

lemma in_map_filter: "y \<in> set (List.map_filter f xs) \<longleftrightarrow> (\<exists>x\<in>set xs. f x = Some y)"
  by (induction xs) (auto simp: List.map_filter_simps split: option.split)

lemma length_filter_update:
  "i < length xs \<Longrightarrow> length (filter P (xs[i := y])) + (if P (xs ! i) then 1 else 0) = length (filter P xs) + (if P y then 1 else 0)"
proof (induction xs arbitrary: i)
  case (Cons x xs)
  then show ?case by (cases i) auto
qed simp

lemma fold_filter_if: "fold (\<lambda>x acc. if P x then g x acc else acc) xs acc = fold g (filter P xs) acc"
  by (induction xs arbitrary: acc) auto

lemma sum_list_nonneg_map: "(\<And>x. x \<in> set xs \<Longrightarrow> (0::rat) \<le> f x) \<Longrightarrow> 0 \<le> sum_list (map f xs)"
  by (induction xs) auto

lemma member_le_sum_map:
  "x \<in> set xs \<Longrightarrow> (\<And>y. y \<in> set xs \<Longrightarrow> (0::rat) \<le> f y) \<Longrightarrow> f x \<le> sum_list (map f xs)"
proof (induction xs)
  case (Cons y ys)
  have "0 \<le> sum_list (map f ys)" using Cons.prems(2) by (intro sum_list_nonneg_map) auto
  moreover have "0 \<le> f y" using Cons.prems(2) by simp
  moreover have "x \<in> set ys \<Longrightarrow> f x \<le> sum_list (map f ys)" using Cons by simp
  ultimately show ?case using Cons.prems(1) by auto
qed simp

end
