(* ===== verification/GoStrings.thy ===== *)
theory GoStrings
  imports Prelude "HOL-Library.Sublist" "HOL-Library.Char_ord" "HOL-Library.List_Lexorder"
begin

text \<open>
  The part of Go's \<open>strings\<close>, \<open>strconv\<close> and \<open>path/filepath\<close> packages that the modelled
  components call. A Go string is a sequence of bytes and so is a \<open>string\<close> here, one \<open>char\<close> per
  byte. \<open>HasPrefix\<close>, \<open>HasSuffix\<close> and \<open>Contains\<close> are \<open>prefix\<close>, \<open>suffix\<close> and \<open>sublist\<close> of
  HOL-Library.Sublist. Case folding and white space are those of ASCII; the Unicode classes of
  the Go library beyond ASCII are not modelled.
\<close>

section \<open>Bytes\<close>

definition code :: "char \<Rightarrow> nat" where
  "code c = of_char c"

definition bytes :: "nat list \<Rightarrow> string" where
  "bytes ns = map char_of ns"

definition em_dash :: string where
  "em_dash = bytes [226, 128, 148]"

definition is_digit :: "char \<Rightarrow> bool" where
  "is_digit c \<longleftrightarrow> 48 \<le> code c \<and> code c \<le> 57"

definition digit_val :: "char \<Rightarrow> nat" where
  "digit_val c = code c - 48"

definition lower_char :: "char \<Rightarrow> char" where
  "lower_char c = (if 65 \<le> code c \<and> code c \<le> 90 then char_of (code c + 32) else c)"

definition upper_char :: "char \<Rightarrow> char" where
  "upper_char c = (if 97 \<le> code c \<and> code c \<le> 122 then char_of (code c - 32) else c)"

definition to_lower :: "string \<Rightarrow> string" where
  "to_lower s = map lower_char s"

definition to_upper :: "string \<Rightarrow> string" where
  "to_upper s = map upper_char s"

definition is_space :: "char \<Rightarrow> bool" where
  "is_space c \<longleftrightarrow> code c \<in> {9, 10, 11, 12, 13, 32}"

lemma code_char_of [simp]: "n < 256 \<Longrightarrow> code (char_of n) = n"
  by (simp add: code_def)

lemma code_inject: "code a = code b \<Longrightarrow> a = b"
  by (metis char_of_char code_def)

lemma lower_char_idem [simp]: "lower_char (lower_char c) = lower_char c"
  by (auto simp: lower_char_def)

lemma to_lower_idem [simp]: "to_lower (to_lower s) = to_lower s"
  by (simp add: to_lower_def)

section \<open>Trimming and cutting\<close>

definition trim_left_if :: "(char \<Rightarrow> bool) \<Rightarrow> string \<Rightarrow> string" where
  "trim_left_if p s = dropWhile p s"

definition trim_right_if :: "(char \<Rightarrow> bool) \<Rightarrow> string \<Rightarrow> string" where
  "trim_right_if p s = rev (dropWhile p (rev s))"

definition trim_space :: "string \<Rightarrow> string" where
  "trim_space s = trim_right_if is_space (trim_left_if is_space s)"

definition trim_prefix :: "string \<Rightarrow> string \<Rightarrow> string" where
  "trim_prefix p s = (if prefix p s then drop (length p) s else s)"

definition trim_suffix :: "string \<Rightarrow> string \<Rightarrow> string" where
  "trim_suffix p s = (if suffix p s then take (length s - length p) s else s)"

definition contains_any :: "string \<Rightarrow> string list \<Rightarrow> bool" where
  "contains_any s ws \<longleftrightarrow> list_ex (\<lambda>w. sublist w s) ws"

text \<open>\<open>strings.IndexByte\<close> and \<open>strings.LastIndexByte\<close>, with None for the Go result -1.\<close>

fun index_byte :: "char \<Rightarrow> string \<Rightarrow> nat option" where
  "index_byte c [] = None"
| "index_byte c (x # xs) = (if x = c then Some 0 else map_option Suc (index_byte c xs))"

fun last_index_byte :: "char \<Rightarrow> string \<Rightarrow> nat option" where
  "last_index_byte c [] = None"
| "last_index_byte c (x # xs) =
    (case last_index_byte c xs of Some i \<Rightarrow> Some (Suc i)
     | None \<Rightarrow> if x = c then Some 0 else None)"

text \<open>\<open>strings.Split\<close> at a one-byte separator: always at least one piece.\<close>

fun split_byte :: "char \<Rightarrow> string \<Rightarrow> string list" where
  "split_byte c [] = [[]]"
| "split_byte c (x # xs) =
    (if x = c then [] # split_byte c xs
     else (case split_byte c xs of [] \<Rightarrow> [[x]] | p # ps \<Rightarrow> (x # p) # ps))"

definition join_with :: "string \<Rightarrow> string list \<Rightarrow> string" where
  "join_with sep ps = (case ps of [] \<Rightarrow> [] | p # qs \<Rightarrow> p @ concat (map (\<lambda>q. sep @ q) qs))"

lemma split_byte_not_Nil [simp]: "split_byte c s \<noteq> []"
  by (induction s) (auto split: list.splits)

lemma split_byte_free: "c \<notin> set s \<Longrightarrow> split_byte c s = [s]"
  by (induction s) auto

lemma split_byte_sep: "split_byte c (a @ c # b) = split_byte c a @ split_byte c b"
proof (induction a)
  case (Cons x a)
  then show ?case by (cases "split_byte c a") auto
qed simp

lemma split_byte_pieces: "p \<in> set (split_byte c s) \<Longrightarrow> c \<notin> set p"
  by (induction s arbitrary: p) (auto split: list.splits if_splits)

lemma join_split_byte: "join_with [c] (split_byte c s) = s"
proof (induction s)
  case (Cons x xs)
  show ?case
  proof (cases "split_byte c xs")
    case (Cons p ps)
    with \<open>join_with [c] (split_byte c xs) = xs\<close> show ?thesis
      by (simp add: join_with_def)
  qed simp
qed (simp add: join_with_def)

lemma index_byte_Some:
  "index_byte c s = Some i \<Longrightarrow> i < length s \<and> s ! i = c \<and> c \<notin> set (take i s)"
  by (induction s arbitrary: i) (auto split: if_splits)

lemma last_index_byte_None: "last_index_byte c s = None \<longleftrightarrow> c \<notin> set s"
  by (induction s) (auto split: option.splits)

lemma last_index_byte_Some:
  "last_index_byte c s = Some i \<Longrightarrow> i < length s \<and> s ! i = c \<and> c \<notin> set (drop (Suc i) s)"
  by (induction s arbitrary: i)
    (auto split: option.splits if_splits simp: last_index_byte_None)

lemma trim_suffix_length: "length (trim_suffix p s) \<le> length s"
  by (simp add: trim_suffix_def)

lemma trim_suffix_append [simp]: "trim_suffix p (s @ p) = s"
  by (simp add: trim_suffix_def suffix_def)

lemma trim_prefix_append [simp]: "trim_prefix p (p @ s) = s"
  by (simp add: trim_prefix_def)

section \<open>Lines\<close>

definition newline :: char where
  "newline = char_of (10::nat)"

text \<open>\<open>bufio.Scanner\<close> over lines: the last one needs no newline, one carriage return is dropped.\<close>

definition raw_lines :: "string \<Rightarrow> string list" where
  "raw_lines s = (let ls = split_byte newline s in if last ls = [] then butlast ls else ls)"

definition drop_cr :: "string \<Rightarrow> string" where
  "drop_cr l = (if l \<noteq> [] \<and> code (last l) = 13 then butlast l else l)"

definition max_token :: nat where "max_token = 2 ^ 20"

section \<open>Numbers\<close>

text \<open>\<open>strconv.Itoa\<close>: decimal digits with a leading minus sign.\<close>

fun nat_digits :: "nat \<Rightarrow> string" where
  "nat_digits n = (if n < 10 then [char_of (48 + n)]
    else nat_digits (n div 10) @ [char_of (48 + n mod 10)])"

declare nat_digits.simps [simp del]

lemma nat_digits_not_Nil [simp]: "nat_digits n \<noteq> []"
  by (subst nat_digits.simps) simp

definition itoa :: "int \<Rightarrow> string" where
  "itoa i = (if i < 0 then ''-'' @ nat_digits (nat (- i)) else nat_digits (nat i))"

definition digits_val :: "string \<Rightarrow> nat" where
  "digits_val s = foldl (\<lambda>n c. 10 * n + digit_val c) 0 s"

lemma digits_val_nat_digits [simp]: "digits_val (nat_digits n) = n"
proof (induction n rule: nat_digits.induct)
  case (1 n)
  show ?case
  proof (cases "n < 10")
    case True
    then show ?thesis by (subst nat_digits.simps) (simp add: digits_val_def digit_val_def)
  next
    case False
    with 1 have "digits_val (nat_digits (n div 10)) = n div 10" by simp
    then have "digits_val (nat_digits (n div 10) @ [char_of (48 + n mod 10)]) =
        10 * (n div 10) + n mod 10"
      by (simp add: digits_val_def digit_val_def)
    with False show ?thesis by (subst nat_digits.simps) simp
  qed
qed

lemma nat_digits_digits: "c \<in> set (nat_digits n) \<Longrightarrow> is_digit c"
proof (induction n rule: nat_digits.induct)
  case (1 n)
  then show ?case
    by (subst (asm) nat_digits.simps) (auto simp: is_digit_def split: if_splits)
qed

lemma nat_digits_inj: "nat_digits m = nat_digits n \<Longrightarrow> m = n"
  by (metis digits_val_nat_digits)

text \<open>
  \<open>strconv.ParseFloat\<close> on decimal spellings: an optional sign, digits with at most one point,
  an optional exponent. The infinities, NaN and hexadecimal spellings are not modelled; the
  value is the exact rational number.
\<close>

definition scale10 :: "rat \<Rightarrow> int \<Rightarrow> rat" where
  "scale10 r e = (if 0 \<le> e then r * 10 ^ nat e else r / 10 ^ nat (- e))"

definition parse_sign :: "string \<Rightarrow> bool \<times> string" where
  "parse_sign s = (case s of [] \<Rightarrow> (False, s)
    | c # cs \<Rightarrow> if c = CHR ''-'' then (True, cs) else if c = CHR ''+'' then (False, cs) else (False, s))"

definition parse_exp :: "string \<Rightarrow> int option" where
  "parse_exp s = (case s of [] \<Rightarrow> Some 0
    | c # cs \<Rightarrow>
        if c = CHR ''e'' \<or> c = CHR ''E'' then
          (case parse_sign cs of (neg, ds) \<Rightarrow>
            if ds \<noteq> [] \<and> list_all is_digit ds
            then Some (if neg then - int (digits_val ds) else int (digits_val ds)) else None)
        else None)"

definition parse_float :: "string \<Rightarrow> rat option" where
  "parse_float s0 =
    (case parse_sign s0 of (neg, s) \<Rightarrow>
      let ip = takeWhile is_digit s; r1 = dropWhile is_digit s;
          (fp, r2) = (case r1 of [] \<Rightarrow> ([], [])
            | c # cs \<Rightarrow> if c = CHR ''.'' then (takeWhile is_digit cs, dropWhile is_digit cs)
                else ([], r1))
      in if ip = [] \<and> fp = [] then None
         else (case parse_exp r2 of None \<Rightarrow> None
           | Some e \<Rightarrow>
              let v = scale10 (rat_of_nat (digits_val (ip @ fp))) (e - int (length fp))
              in Some (if neg then - v else v)))"

section \<open>Paths\<close>

text \<open>\<open>filepath.Base\<close> and \<open>filepath.Ext\<close> on paths with no trailing slash.\<close>

definition path_base :: "string \<Rightarrow> string" where
  "path_base p = (if p = [] then ''.'' else
    (let q = trim_right_if (\<lambda>c. c = CHR ''/'') p in
     if q = [] then ''/'' else
       (case last_index_byte CHR ''/'' q of None \<Rightarrow> q | Some i \<Rightarrow> drop (Suc i) q)))"

end
