(* ===== verification/GoTime.thy ===== *)
theory GoTime
  imports GoStrings
begin

text \<open>
  The part of Go's \<open>time\<close> package the components use. An instant is a number of nanoseconds
  since the Unix epoch, a \<open>time.Duration\<close> a number of nanoseconds; \<open>time.Time{}\<close> is the start
  of year 1. The 64-bit saturation of \<open>Sub\<close> (292 years) is not modelled. Calendar fields are those
  of the proleptic Gregorian calendar, computed from the day number; \<open>time.LoadLocation\<close> reads a
  time-zone database that is not part of the program, so a zone is a parameter: the offset from UTC
  in force at an instant.
\<close>

type_synonym instant = int
type_synonym duration = int

definition nanosecond :: duration where "nanosecond = 1"
definition millisecond :: duration where "millisecond = 1000000"
definition second :: duration where "second = 1000000000"
definition minute :: duration where "minute = 60 * second"
definition hour :: duration where "hour = 60 * minute"
definition day :: duration where "day = 24 * hour"

lemmas duration_defs = millisecond_def second_def minute_def hour_def day_def

definition zero_time :: instant where
  "zero_time = - 62135596800 * second"

definition unix_time :: "int \<Rightarrow> instant" where
  "unix_time secs = secs * second"

definition to_unix :: "instant \<Rightarrow> int" where
  "to_unix t = t div second"

text \<open>\<open>Truncate\<close> rounds down to a multiple of the duration counted from the zero time.\<close>

definition truncate_time :: "duration \<Rightarrow> instant \<Rightarrow> instant" where
  "truncate_time d t = (if d \<le> 0 then t else t - (t - zero_time) mod d)"

lemma truncate_time_le: "truncate_time d t \<le> t"
  by (simp add: truncate_time_def)

lemma truncate_time_next: "0 < d \<Longrightarrow> t < truncate_time d t + d"
  by (simp add: truncate_time_def)

section \<open>The civil calendar\<close>

text \<open>Days since 1970-01-01 of an instant in UTC, and a date as (year, month, day).\<close>

definition utc_days :: "instant \<Rightarrow> int" where
  "utc_days t = t div day"

type_synonym civil = "int \<times> int \<times> int"

text \<open>
  As the \<open>time\<close> package does it: cut off 400-year cycles, then centuries, 4-year cycles and
  years, the last century and the last year of a cycle being a day longer. Years start in March.
\<close>

definition year_of_era :: "int \<Rightarrow> int \<times> int" where
  "year_of_era doe =
    (let n100 = min 3 (doe div 36524);
         d100 = doe - 36524 * n100;
         n4 = d100 div 1461;
         d4 = d100 mod 1461;
         n1 = min 3 (d4 div 365)
     in (100 * n100 + 4 * n4 + n1, d4 - 365 * n1))"

definition civil_of_days :: "int \<Rightarrow> civil" where
  "civil_of_days z =
    (let z1 = z + 719468;
         era = z1 div 146097;
         (yoe, doy) = year_of_era (z1 mod 146097);
         mp = (5 * doy + 2) div 153;
         d = doy - (153 * mp + 2) div 5 + 1;
         m = (if mp < 10 then mp + 3 else mp - 9);
         y = yoe + era * 400
     in (if m \<le> 2 then y + 1 else y, m, d))"

text \<open>\<open>time.Date\<close> normalises an out-of-range day of the month by plain day arithmetic.\<close>

definition days_of_civil :: "civil \<Rightarrow> int" where
  "days_of_civil ymd = (case ymd of (y0, m, d) \<Rightarrow>
     let y = (if m \<le> 2 then y0 - 1 else y0);
         era = y div 400;
         yoe = y mod 400;
         mp = (if 2 < m then m - 3 else m + 9);
         doy = (153 * mp + 2) div 5 + d - 1;
         doe = yoe * 365 + yoe div 4 - yoe div 100 + doy
     in era * 146097 + doe - 719468)"

definition civil_year :: "civil \<Rightarrow> int" where "civil_year c = fst c"
definition civil_month :: "civil \<Rightarrow> int" where "civil_month c = fst (snd c)"
definition civil_day :: "civil \<Rightarrow> int" where "civil_day c = snd (snd c)"

definition utc_date :: "instant \<Rightarrow> civil" where
  "utc_date t = civil_of_days (utc_days t)"

text \<open>The calendar date in a zone: the date of the instant moved by the zone's offset.\<close>

definition date_in :: "(instant \<Rightarrow> duration) \<Rightarrow> instant \<Rightarrow> civil" where
  "date_in off t = utc_date (t + off t)"

lemma year_of_era_bounds:
  assumes "0 \<le> doe" "doe < 146097" "year_of_era doe = (yoe, doy)"
  shows "0 \<le> yoe \<and> yoe < 400 \<and> 0 \<le> doy \<and> doy \<le> 365 \<and>
    yoe * 365 + yoe div 4 - yoe div 100 + doy = doe"
proof -
  define n100 where "n100 = min 3 (doe div 36524)"
  define d100 where "d100 = doe - 36524 * n100"
  define n4 where "n4 = d100 div 1461"
  define d4 where "d4 = d100 mod 1461"
  define n1 where "n1 = min 3 (d4 div 365)"
  have y: "yoe = 100 * n100 + 4 * n4 + n1" "doy = d4 - 365 * n1"
  proof -
    have "year_of_era doe = (100 * n100 + 4 * n4 + n1, d4 - 365 * n1)"
      unfolding year_of_era_def Let_def n1_def d4_def n4_def d100_def n100_def by (rule refl)
    with assms(3) show "yoe = 100 * n100 + 4 * n4 + n1" "doy = d4 - 365 * n1"
      by (metis prod.inject)+
  qed
  have n100: "0 \<le> n100" "n100 \<le> 3" using assms(1) by (auto simp: n100_def)
  have d100: "0 \<le> d100" "d100 \<le> 36524"
  proof -
    define q where "q = doe div 36524"
    have q: "0 \<le> doe - 36524 * q" "doe - 36524 * q < 36524"
      unfolding q_def by (simp_all add: minus_mult_div_eq_mod)
    have d: "d100 = doe - 36524 * min 3 q" by (simp add: d100_def n100_def q_def)
    show "0 \<le> d100" using q d by (cases "q \<le> 3") (auto simp: min_def)
    show "d100 \<le> 36524"
    proof (cases "q \<le> 3")
      case True
      then show ?thesis using q d by (auto simp: min_def)
    next
      case False
      then show ?thesis using assms(2) d by simp
    qed
  qed
  have n4: "0 \<le> n4" "n4 \<le> 24" "0 \<le> d4" "d4 \<le> 1460" "d100 = 1461 * n4 + d4"
    using d100 by (auto simp: n4_def d4_def)
  have n1: "0 \<le> n1" "n1 \<le> 3" "0 \<le> d4 - 365 * n1" "d4 - 365 * n1 \<le> 365"
    using n4 by (auto simp: n1_def min_def)
  have "yoe = n1 + (25 * n100 + n4) * 4" using y(1) by simp
  then have div4: "yoe div 4 = 25 * n100 + n4" using n1 by simp
  have "yoe = (4 * n4 + n1) + n100 * 100" using y(1) by simp
  moreover have "0 \<le> 4 * n4 + n1" "4 * n4 + n1 < 100" using n1 n4 by auto
  ultimately have div100: "yoe div 100 = n100" by simp
  show ?thesis using y n100 n4 n1 div4 div100 d100_def by linarith
qed

theorem days_of_civil_of_days: "days_of_civil (civil_of_days z) = z"
proof -
  define era where "era = (z + 719468) div 146097"
  define doe where "doe = (z + 719468) mod 146097"
  obtain yoe doy where yd: "year_of_era doe = (yoe, doy)" by (cases "year_of_era doe")
  define mp where "mp = (5 * doy + 2) div 153"
  have doe: "0 \<le> doe" "doe < 146097" by (simp_all add: doe_def)
  note b = year_of_era_bounds [OF doe yd]
  have mp: "0 \<le> mp" "mp \<le> 11" using b by (auto simp: mp_def)
  have era: "(yoe + era * 400) div 400 = era" "(yoe + era * 400) mod 400 = yoe" using b by auto
  have z: "era * 146097 + doe = z + 719468" by (simp add: era_def doe_def)
  have c: "civil_of_days z =
      (if mp < 10 then (yoe + era * 400, mp + 3, doy - (153 * mp + 2) div 5 + 1)
       else (yoe + era * 400 + 1, mp - 9, doy - (153 * mp + 2) div 5 + 1))"
    using mp by (simp add: civil_of_days_def Let_def yd flip: era_def doe_def mp_def)
  show ?thesis
    using b z era mp by (simp add: c days_of_civil_def Let_def)
qed

lemma civil_of_days_inj: "civil_of_days a = civil_of_days b \<longleftrightarrow> a = b"
  by (metis days_of_civil_of_days)

lemma utc_date_eq_iff: "utc_date s = utc_date t \<longleftrightarrow> utc_days s = utc_days t"
  by (simp add: utc_date_def civil_of_days_inj)

section \<open>Months\<close>

text \<open>Months numbered from March of year 0, and the day a month starts on.\<close>

definition month_index :: "civil \<Rightarrow> int" where
  "month_index c = (case c of (y, m, d) \<Rightarrow> 12 * (if m \<le> 2 then y - 1 else y) + (if 2 < m then m - 3 else m + 9))"

definition year_start :: "int \<Rightarrow> int" where
  "year_start y = 365 * y + y div 4 - y div 100 + y div 400"

definition month_start :: "int \<Rightarrow> int" where
  "month_start k = year_start (k div 12) + (153 * (k mod 12) + 2) div 5"

lemma year_start_eras:
  "(y div 400) * 146097 + (y mod 400) * 365 + (y mod 400) div 4 - (y mod 400) div 100 = year_start y"
proof -
  define e where "e = y div 400"
  define r where "r = y mod 400"
  have y: "y = r + e * 400" by (simp add: e_def r_def)
  have "y div 4 = r div 4 + e * 100" "y div 100 = r div 100 + e * 4" unfolding y by (simp_all add: algebra_simps)
  then show ?thesis by (simp add: year_start_def flip: e_def r_def) (simp add: y)
qed

lemma days_of_civil_month:
  assumes "1 \<le> m" "m \<le> 12"
  shows "days_of_civil (y, m, d) = month_start (month_index (y, m, d)) + d - 719469"
proof -
  define y1 where "y1 = (if m \<le> 2 then y - 1 else y)"
  define mp where "mp = (if 2 < m then m - 3 else m + 9)"
  have mp: "0 \<le> mp" "mp < 12" using assms by (auto simp: mp_def)
  have k: "month_index (y, m, d) = mp + 12 * y1" by (simp add: month_index_def y1_def mp_def)
  have "month_index (y, m, d) div 12 = y1" "month_index (y, m, d) mod 12 = mp"
    unfolding k using mp by auto
  then have "month_start (month_index (y, m, d)) = year_start y1 + (153 * mp + 2) div 5"
    by (simp add: month_start_def)
  moreover have "days_of_civil (y, m, d) = (y1 div 400) * 146097 + ((y1 mod 400) * 365 +
      (y1 mod 400) div 4 - (y1 mod 400) div 100 + ((153 * mp + 2) div 5 + d - 1)) - 719468"
    unfolding days_of_civil_def Let_def prod.case y1_def mp_def by (rule refl)
  ultimately show ?thesis using year_start_eras [of y1] by linarith
qed

lemma year_start_Suc: "year_start y + 365 \<le> year_start (y + 1)"
proof -
  have d: "(y + 1) div n = y div n + (if (y + 1) mod n = 0 then 1 else 0)" if "1 < n" for n :: int
  proof (cases "y mod n = n - 1")
    case True
    have "n * (y div n) + y mod n = y" by simp
    with True have y: "y + 1 = n * (y div n + 1) + 0" by (simp only: distrib_left)
    have n: "0 \<le> (0::int)" "0 < n" using that by simp_all
    have "(y + 1) div n = y div n + 1" "(y + 1) mod n = 0"
      by (rule int_div_pos_eq [OF y n], rule int_mod_pos_eq [OF y n])
    then show ?thesis by simp
  next
    case False
    have r: "0 \<le> y mod n" "y mod n < n" using that by simp_all
    have y: "y + 1 = n * (y div n) + (y mod n + 1)" by simp
    have "(y + 1) div n = y div n" by (rule int_div_pos_eq [OF y]) (use r False in auto)
    moreover have "(y + 1) mod n = y mod n + 1" by (rule int_mod_pos_eq [OF y]) (use r False in auto)
    ultimately show ?thesis using r by simp
  qed
  have "(4::int) dvd y + 1" if "100 dvd y + 1"
    by (rule dvd_trans [OF _ that]) simp
  then have m: "(y + 1) mod 4 = 0" if "(y + 1) mod 100 = 0"
    using that by (simp add: mod_eq_0_iff_dvd)
  have "(y + 1) div 100 - y div 100 \<le> (y + 1) div 4 - y div 4"
    unfolding d [of 4, simplified] d [of 100, simplified] using m by simp
  moreover have "y div 400 \<le> (y + 1) div 400" by (rule zdiv_mono1) simp_all
  ultimately show ?thesis unfolding year_start_def distrib_left by linarith
qed

lemma month_start_Suc: "month_start k + 28 \<le> month_start (k + 1)"
proof -
  define y where "y = k div 12"
  define i where "i = k mod 12"
  have k: "k = i + 12 * y" "0 \<le> i" "i < 12" by (simp_all add: y_def i_def)
  show ?thesis
  proof (cases "i = 11")
    case True
    then have "(k + 1) div 12 = y + 1" "(k + 1) mod 12 = 0" using k by auto
    with True year_start_Suc [of y] show ?thesis by (simp add: month_start_def flip: y_def i_def)
  next
    case False
    then have i: "0 \<le> i + 1" "i + 1 < 12" and k1: "k + 1 = 12 * y + (i + 1)" using k by auto
    have "(k + 1) div 12 = y" by (rule int_div_pos_eq [OF k1 i])
    moreover have "(k + 1) mod 12 = i + 1" by (rule int_mod_pos_eq [OF k1 i])
    ultimately have "(k + 1) div 12 = y" "(k + 1) mod 12 = i + 1" by simp_all
    then show ?thesis using k by (simp add: month_start_def flip: y_def i_def)
  qed
qed

lemma month_start_less: "j < k \<Longrightarrow> month_start j + 28 \<le> month_start k"
proof (induction rule: int_gr_induct)
  case base
  show ?case using month_start_Suc [of j] by simp
next
  case (step i)
  then show ?case using month_start_Suc [of i] by simp
qed

lemma civil_month_range: "civil_of_days z = (y, m, d) \<Longrightarrow> 1 \<le> m \<and> m \<le> 12"
proof -
  assume a: "civil_of_days z = (y, m, d)"
  obtain yoe doy where yd: "year_of_era ((z + 719468) mod 146097) = (yoe, doy)"
    by (cases "year_of_era ((z + 719468) mod 146097)")
  note b = year_of_era_bounds [OF _ _ yd]
  have "0 \<le> (5 * doy + 2) div 153" "(5 * doy + 2) div 153 \<le> 11" using b by auto
  with a show ?thesis by (auto simp: civil_of_days_def Let_def yd split: if_splits)
qed

lemma civil_of_days_same_day:
  assumes "civil_day (civil_of_days a) = civil_day (civil_of_days b)" "\<bar>a - b\<bar> < 28"
  shows "a = b"
proof -
  obtain y m d where a: "civil_of_days a = (y, m, d)" by (cases "civil_of_days a")
  obtain y' m' d' where b: "civil_of_days b = (y', m', d')" by (cases "civil_of_days b")
  have "a = month_start (month_index (y, m, d)) + d - 719469"
    using days_of_civil_of_days [of a] days_of_civil_month civil_month_range [OF a] a by simp
  moreover have "b = month_start (month_index (y', m', d')) + d' - 719469"
    using days_of_civil_of_days [of b] days_of_civil_month civil_month_range [OF b] b by simp
  moreover have "d = d'" using assms(1) a b by (simp add: civil_day_def)
  ultimately show ?thesis
    using assms(2) month_start_less [of "month_index (y, m, d)" "month_index (y', m', d')"]
      month_start_less [of "month_index (y', m', d')" "month_index (y, m, d)"]
    by (cases "month_index (y, m, d)" "month_index (y', m', d')" rule: linorder_cases) auto
qed

lemma days_of_civil_next: "days_of_civil (y, m, d + 1) = days_of_civil (y, m, d) + 1"
  by (simp add: days_of_civil_def Let_def)

section \<open>Formatting\<close>

definition pad2 :: "int \<Rightarrow> string" where
  "pad2 n = (if n < 10 then ''0'' @ itoa n else itoa n)"

definition pad4 :: "int \<Rightarrow> string" where
  "pad4 n = (if n < 10 then ''000'' @ itoa n else if n < 100 then ''00'' @ itoa n
    else if n < 1000 then ''0'' @ itoa n else itoa n)"

text \<open>Layout \<open>2006-01-02\<close>.\<close>

definition format_date :: "civil \<Rightarrow> string" where
  "format_date c = pad4 (civil_year c) @ ''-'' @ pad2 (civil_month c) @ ''-'' @ pad2 (civil_day c)"

end
