(* ===== verification/GoJson.thy ===== *)
theory GoJson
  imports GoStrings
begin

text \<open>
  The part of Go's \<open>encoding/json\<close> the components use: reading a document into a value. A lexer
  cuts the bytes into tokens (strings are unescaped, surrogate pairs joined, an unpaired surrogate
  becomes U+FFFD), a parser with an explicit stack of open brackets builds the value; both recurse
  on their input, so both are total. Numbers are exact rationals. Not modelled: the nesting limit of
  10000, the replacement of invalid UTF-8 inside strings, overflow of float64.
\<close>

section \<open>Values and tokens\<close>

datatype json = JNull | JBool bool | JNum rat | JStr string
  | JArr "json list" | JObj "(string \<times> json) list"

datatype tok = TLBrace | TRBrace | TLBrack | TRBrack | TColon | TComma
  | TNull | TBool bool | TNum rat | TStr string

section \<open>The lexer\<close>

definition utf8 :: "nat \<Rightarrow> string" where
  "utf8 n =
    (if n < 128 then bytes [n]
     else if n < 2048 then bytes [192 + n div 64, 128 + n mod 64]
     else if n < 65536 then bytes [224 + n div 4096, 128 + (n div 64) mod 64, 128 + n mod 64]
     else bytes [240 + n div 262144, 128 + (n div 4096) mod 64, 128 + (n div 64) mod 64, 128 + n mod 64])"

definition hex_val :: "char \<Rightarrow> nat option" where
  "hex_val c =
    (let n = code c in
     if 48 \<le> n \<and> n \<le> 57 then Some (n - 48)
     else if 97 \<le> n \<and> n \<le> 102 then Some (n - 87)
     else if 65 \<le> n \<and> n \<le> 70 then Some (n - 55) else None)"

text \<open>
  The lexer's mode: between tokens, inside a word, a number, a string (with the text so far
  reversed and a high surrogate that waits for its partner, 0 for none), after a backslash, or
  inside the four digits of a \<open>u\<close> escape.
\<close>

datatype lmode = LTop | LWord string | LNumb string | LStr string nat | LEsc string nat
  | LHex string nat nat nat

definition flush_hi :: "nat \<Rightarrow> string \<Rightarrow> string" where
  "flush_hi hi acc = (if hi = 0 then acc else rev (utf8 65533) @ acc)"

definition end_hex :: "string \<Rightarrow> nat \<Rightarrow> nat \<Rightarrow> lmode" where
  "end_hex acc hi v =
    (if hi \<noteq> 0 \<and> 56320 \<le> v \<and> v \<le> 57343
     then LStr (rev (utf8 (65536 + (hi - 55296) * 1024 + (v - 56320))) @ acc) 0
     else if 55296 \<le> v \<and> v \<le> 56319 then LStr (flush_hi hi acc) v
     else if 56320 \<le> v \<and> v \<le> 57343 then LStr (rev (utf8 65533) @ flush_hi hi acc) 0
     else LStr (rev (utf8 v) @ flush_hi hi acc) 0)"

definition lex_word :: "string \<Rightarrow> tok option" where
  "lex_word w = (if w = ''null'' then Some TNull else if w = ''true'' then Some (TBool True)
    else if w = ''false'' then Some (TBool False) else None)"

text \<open>JSON numbers: no leading zeros, no plus sign, digits on both sides of a point.\<close>

definition json_number :: "string \<Rightarrow> rat option" where
  "json_number s =
    (let t = (case s of [] \<Rightarrow> s | c # cs \<Rightarrow> if c = CHR ''-'' then cs else s);
         ip = takeWhile is_digit t; r = dropWhile is_digit t
     in if ip = [] \<or> (1 < length ip \<and> hd ip = CHR ''0'') then None
        else (case r of [] \<Rightarrow> parse_float s
          | c # cs \<Rightarrow> if c = CHR ''.'' \<and> takeWhile is_digit cs = [] then None else parse_float s))"

definition top_step :: "char \<Rightarrow> (tok list \<times> lmode) option" where
  "top_step c =
    (if code c \<in> {9, 10, 13, 32} then Some ([], LTop)
     else if c = CHR ''{'' then Some ([TLBrace], LTop)
     else if c = CHR ''}'' then Some ([TRBrace], LTop)
     else if c = CHR ''['' then Some ([TLBrack], LTop)
     else if c = CHR '']'' then Some ([TRBrack], LTop)
     else if c = CHR '':'' then Some ([TColon], LTop)
     else if c = CHR '','' then Some ([TComma], LTop)
     else if code c = 34 then Some ([], LStr [] 0)
     else if is_digit c \<or> c = CHR ''-'' then Some ([], LNumb [c])
     else if 97 \<le> code c \<and> code c \<le> 122 then Some ([], LWord [c])
     else None)"

definition after_token :: "tok option \<Rightarrow> char \<Rightarrow> (tok list \<times> lmode) option" where
  "after_token t c = (case t of None \<Rightarrow> None | Some tk \<Rightarrow>
    (case top_step c of None \<Rightarrow> None | Some (ts, m) \<Rightarrow> Some (tk # ts, m)))"

definition esc_step :: "string \<Rightarrow> nat \<Rightarrow> char \<Rightarrow> lmode option" where
  "esc_step acc hi c =
    (let put = (\<lambda>n. Some (LStr (char_of (n::nat) # flush_hi hi acc) 0)) in
     if code c = 34 \<or> code c = 92 \<or> c = CHR ''/'' then put (code c)
     else if c = CHR ''b'' then put 8 else if c = CHR ''f'' then put 12
     else if c = CHR ''n'' then put 10 else if c = CHR ''r'' then put 13
     else if c = CHR ''t'' then put 9
     else if c = CHR ''u'' then Some (LHex acc hi 0 0)
     else None)"

definition lex_step :: "lmode \<Rightarrow> char \<Rightarrow> (tok list \<times> lmode) option" where
  "lex_step m c = (case m of
      LTop \<Rightarrow> top_step c
    | LWord w \<Rightarrow> if 97 \<le> code c \<and> code c \<le> 122 then Some ([], LWord (c # w))
        else after_token (lex_word (rev w)) c
    | LNumb w \<Rightarrow> if is_digit c \<or> c \<in> {CHR ''+'', CHR ''-'', CHR ''.'', CHR ''e'', CHR ''E''}
        then Some ([], LNumb (c # w))
        else after_token (map_option TNum (json_number (rev w))) c
    | LStr acc hi \<Rightarrow> if code c = 34 then Some ([TStr (rev (flush_hi hi acc))], LTop)
        else if code c = 92 then Some ([], LEsc acc hi)
        else if code c < 32 then None
        else Some ([], LStr (c # flush_hi hi acc) 0)
    | LEsc acc hi \<Rightarrow> map_option (\<lambda>m. ([], m)) (esc_step acc hi c)
    | LHex acc hi v k \<Rightarrow> (case hex_val c of None \<Rightarrow> None
        | Some d \<Rightarrow> if k = 3 then Some ([], end_hex acc hi (16 * v + d))
            else Some ([], LHex acc hi (16 * v + d) (k + 1))))"

definition lex_end :: "lmode \<Rightarrow> tok list option" where
  "lex_end m = (case m of LTop \<Rightarrow> Some []
    | LWord w \<Rightarrow> map_option (\<lambda>t. [t]) (lex_word (rev w))
    | LNumb w \<Rightarrow> map_option (\<lambda>r. [TNum r]) (json_number (rev w))
    | _ \<Rightarrow> None)"

fun lex :: "lmode \<Rightarrow> string \<Rightarrow> tok list option" where
  "lex m [] = lex_end m"
| "lex m (c # cs) = (case lex_step m c of None \<Rightarrow> None
    | Some (ts, m1) \<Rightarrow> map_option ((@) ts) (lex m1 cs))"

section \<open>The parser\<close>

datatype frame = FArr "json list" | FObj "(string \<times> json) list" string

datatype pstate = WantValue | WantFirst | WantKeyOrEnd "(string \<times> json) list"
  | WantKey "(string \<times> json) list" | WantColon "(string \<times> json) list" string | Have json

fun parse_toks :: "frame list \<Rightarrow> pstate \<Rightarrow> tok list \<Rightarrow> json option" where
  "parse_toks stk (Have v) [] = (if stk = [] then Some v else None)"
| "parse_toks stk st [] = None"
| "parse_toks stk (Have v) (t # ts) = (case stk of [] \<Rightarrow> None
    | FArr xs # rest \<Rightarrow> (case t of
          TComma \<Rightarrow> parse_toks (FArr (v # xs) # rest) WantValue ts
        | TRBrack \<Rightarrow> parse_toks rest (Have (JArr (rev (v # xs)))) ts
        | _ \<Rightarrow> None)
    | FObj kvs k # rest \<Rightarrow> (case t of
          TComma \<Rightarrow> parse_toks rest (WantKey ((k, v) # kvs)) ts
        | TRBrace \<Rightarrow> parse_toks rest (Have (JObj (rev ((k, v) # kvs)))) ts
        | _ \<Rightarrow> None))"
| "parse_toks stk (WantKeyOrEnd kvs) (t # ts) = (case t of
      TStr k \<Rightarrow> parse_toks stk (WantColon kvs k) ts
    | TRBrace \<Rightarrow> parse_toks stk (Have (JObj [])) ts
    | _ \<Rightarrow> None)"
| "parse_toks stk (WantKey kvs) (t # ts) = (case t of
      TStr k \<Rightarrow> parse_toks stk (WantColon kvs k) ts | _ \<Rightarrow> None)"
| "parse_toks stk (WantColon kvs k) (t # ts) = (case t of
      TColon \<Rightarrow> parse_toks (FObj kvs k # stk) WantValue ts | _ \<Rightarrow> None)"
| "parse_toks stk WantFirst (t # ts) = (case t of
      TRBrack \<Rightarrow> (case stk of FArr xs # rest \<Rightarrow> parse_toks rest (Have (JArr [])) ts | _ \<Rightarrow> None)
    | TNull \<Rightarrow> parse_toks stk (Have JNull) ts
    | TBool b \<Rightarrow> parse_toks stk (Have (JBool b)) ts
    | TNum r \<Rightarrow> parse_toks stk (Have (JNum r)) ts
    | TStr s \<Rightarrow> parse_toks stk (Have (JStr s)) ts
    | TLBrack \<Rightarrow> parse_toks (FArr [] # stk) WantFirst ts
    | TLBrace \<Rightarrow> parse_toks stk (WantKeyOrEnd []) ts
    | _ \<Rightarrow> None)"
| "parse_toks stk WantValue (t # ts) = (case t of
      TNull \<Rightarrow> parse_toks stk (Have JNull) ts
    | TBool b \<Rightarrow> parse_toks stk (Have (JBool b)) ts
    | TNum r \<Rightarrow> parse_toks stk (Have (JNum r)) ts
    | TStr s \<Rightarrow> parse_toks stk (Have (JStr s)) ts
    | TLBrack \<Rightarrow> parse_toks (FArr [] # stk) WantFirst ts
    | TLBrace \<Rightarrow> parse_toks stk (WantKeyOrEnd []) ts
    | _ \<Rightarrow> None)"

definition json_value :: "string \<Rightarrow> json option" where
  "json_value s = (case lex LTop s of None \<Rightarrow> None | Some ts \<Rightarrow> parse_toks [] WantValue ts)"

section \<open>The parser inverts the token spelling of a value\<close>

fun toks_of :: "json \<Rightarrow> tok list" where
  "toks_of JNull = [TNull]"
| "toks_of (JBool b) = [TBool b]"
| "toks_of (JNum r) = [TNum r]"
| "toks_of (JStr s) = [TStr s]"
| "toks_of (JArr vs) = (case vs of [] \<Rightarrow> [TLBrack, TRBrack]
    | v # us \<Rightarrow> TLBrack # toks_of v @ concat (map (\<lambda>u. TComma # toks_of u) us) @ [TRBrack])"
| "toks_of (JObj kvs) = (case kvs of [] \<Rightarrow> [TLBrace, TRBrace]
    | (k, v) # ps \<Rightarrow> TLBrace # TStr k # TColon # toks_of v @
        concat (map (\<lambda>(k, u). TComma # TStr k # TColon # toks_of u) ps) @ [TRBrace])"

lemma parse_first: "ts \<noteq> [] \<Longrightarrow> hd ts \<noteq> TRBrack \<Longrightarrow>
    parse_toks stk WantFirst ts = parse_toks stk WantValue ts"
  by (cases ts) (auto split: tok.splits)

lemma toks_of_hd: "toks_of v \<noteq> [] \<and> hd (toks_of v) \<noteq> TRBrack"
  by (cases v) (auto split: list.splits prod.splits)

lemma parse_first_value:
  "parse_toks stk WantFirst (toks_of v @ rest) = parse_toks stk WantValue (toks_of v @ rest)"
  using toks_of_hd [of v] by (intro parse_first) (auto simp: hd_append)

lemma parse_array_rest:
  assumes "\<And>u stk rest. u \<in> set us \<Longrightarrow>
      parse_toks stk WantValue (toks_of u @ rest) = parse_toks stk (Have u) rest"
  shows "parse_toks (FArr xs # stk) (Have v)
      (concat (map (\<lambda>u. TComma # toks_of u) us) @ TRBrack # rest) =
    parse_toks stk (Have (JArr (rev xs @ v # us))) rest"
  using assms by (induction us arbitrary: xs v) auto

lemma parse_object_rest:
  assumes "\<And>k u stk rest. (k, u) \<in> set ps \<Longrightarrow>
      parse_toks stk WantValue (toks_of u @ rest) = parse_toks stk (Have u) rest"
  shows "parse_toks (FObj kvs k # stk) (Have v)
      (concat (map (\<lambda>(k, u). TComma # TStr k # TColon # toks_of u) ps) @ TRBrace # rest) =
    parse_toks stk (Have (JObj (rev kvs @ (k, v) # ps))) rest"
  using assms
proof (induction ps arbitrary: kvs k v)
  case (Cons p ps)
  obtain k' u where p: "p = (k', u)" by (cases p)
  have "parse_toks st WantValue (toks_of u @ r) = parse_toks st (Have u) r" for st r
    using Cons.prems [of k' u] p by simp
  moreover have "parse_toks (FObj ((k, v) # kvs) k' # stk) (Have u)
      (concat (map (\<lambda>(k, u). TComma # TStr k # TColon # toks_of u) ps) @ TRBrace # rest) =
    parse_toks stk (Have (JObj (rev ((k, v) # kvs) @ (k', u) # ps))) rest"
    by (rule Cons.IH) (use Cons.prems in auto)
  ultimately show ?case by (simp add: p)
qed simp

lemma parse_toks_of: "parse_toks stk WantValue (toks_of v @ rest) = parse_toks stk (Have v) rest"
proof (induction v arbitrary: stk rest)
  case (JArr vs)
  then show ?case
    by (cases vs) (auto simp: parse_first_value parse_array_rest)
next
  case (JObj kvs)
  have IH: "(k, u) \<in> set kvs \<Longrightarrow>
      parse_toks stk WantValue (toks_of u @ rest) = parse_toks stk (Have u) rest" for k u stk rest
    using JObj by auto
  show ?case
  proof (cases kvs)
    case (Cons p ps)
    obtain k u where p: "p = (k, u)" by (cases p)
    have "parse_toks (FObj [] k # stk) (Have u)
        (concat (map (\<lambda>(k, u). TComma # TStr k # TColon # toks_of u) ps) @ TRBrace # rest) =
      parse_toks stk (Have (JObj (rev [] @ (k, u) # ps))) rest"
      by (rule parse_object_rest) (use IH Cons p in auto)
    moreover have "parse_toks st WantValue (toks_of u @ r) = parse_toks st (Have u) r" for st r
      using IH [of k u] Cons p by simp
    ultimately show ?thesis by (simp add: Cons p)
  qed simp
qed simp_all

lemma parse_toks_complete: "parse_toks [] WantValue (toks_of v) = Some v"
  using parse_toks_of [of "[]" v "[]"] by simp

section \<open>Decoding into Go values\<close>

text \<open>
  \<open>json.Unmarshal\<close> visits the members of an object in order; a member goes to the field whose name
  it equals up to letter case, a null leaves the field alone, a value of another type is skipped and
  makes the whole call return an error although the other fields are filled.
\<close>

definition key_is :: "string \<Rightarrow> string \<Rightarrow> bool" where
  "key_is name k \<longleftrightarrow> to_lower k = to_lower name"

fun decode_string :: "json \<Rightarrow> string \<Rightarrow> string \<times> bool" where
  "decode_string (JStr s) old = (s, True)"
| "decode_string JNull old = (old, True)"
| "decode_string v old = (old, False)"

text \<open>\<open>strconv.FormatFloat(c, 'f', -1, 64)\<close>: no exponent, as many decimals as the value has, 17 at most.\<close>

fun frac_digits :: "nat \<Rightarrow> rat \<Rightarrow> string" where
  "frac_digits 0 r = []"
| "frac_digits (Suc n) r =
    (if r = 0 then [] else char_of (48 + nat \<lfloor>10 * r\<rfloor>) # frac_digits n (10 * r - of_int \<lfloor>10 * r\<rfloor>))"

definition format_float :: "rat \<Rightarrow> string" where
  "format_float r =
    (let a = \<bar>r\<bar>; ip = \<lfloor>a\<rfloor>; fr = a - of_int ip
     in (if r < 0 then ''-'' else []) @ nat_digits (nat ip) @
        (if fr = 0 then [] else ''.'' @ frac_digits 17 fr))"

lemma format_float_of_nat [simp]: "format_float (of_nat n) = nat_digits n"
  by (simp add: format_float_def)

end
