(* ===== verification/Vault.thy ===== *)
theory Vault
  imports Prelude GoStrings GoTime GoJson
begin

text \<open>
  The credential vault of the model router (internal/vault). The cipher is a parameter: \<open>gseal k n p a\<close>
  and \<open>gopen k n c a\<close> are AES-256-GCM under key k and nonce n with additional data a. Entropy comes as
  the bytes read, None for a failed read; a database call takes the error the driver returned, if
  any. The table is an association list under (provider, alias), its primary key.
\<close>

section \<open>Rows and states\<close>

definition untested :: string where "untested = ''untested''"
definition valid_key :: string where "valid_key = ''valid''"
definition invalid_key :: string where "invalid_key = ''invalid''"
definition validating :: string where "validating = ''validating''"

lemmas key_state_defs = untested_def valid_key_def invalid_key_def validating_def

definition known_state :: "string \<Rightarrow> bool" where
  "known_state s \<longleftrightarrow> s = untested \<or> s = valid_key \<or> s = invalid_key \<or> s = validating"

record key_status =
  ks_state :: string
  ks_checked :: instant
  ks_detail :: string

definition zero_status :: key_status where
  "zero_status = \<lparr>ks_state = [], ks_checked = zero_time, ks_detail = []\<rparr>"

record key_row =
  kr_nonce :: string
  kr_cipher :: string
  kr_status :: string
  kr_checked :: "instant option"
  kr_detail :: "string option"

record vault =
  vt_rows :: "((string \<times> string) \<times> key_row) list"
  vt_key :: string

type_synonym sealer = "string \<Rightarrow> string \<Rightarrow> string \<Rightarrow> string \<Rightarrow> string"
type_synonym opener = "string \<Rightarrow> string \<Rightarrow> string \<Rightarrow> string \<Rightarrow> string option"

definition open_vault :: "((string \<times> string) \<times> key_row) list option \<Rightarrow> string \<Rightarrow> string + vault" where
  "open_vault db key = (case db of None \<Rightarrow> Inl ''vault: nil database''
     | Some rows \<Rightarrow> if length key \<noteq> 32 then Inl (''vault: master key is '' @ itoa (int (length key)) @ '' bytes, want 32'')
        else Inr \<lparr>vt_rows = rows, vt_key = key\<rparr>)"

section \<open>Sealing\<close>

definition nonce_size :: nat where
  "nonce_size = 12"

definition provider_aad :: "string \<Rightarrow> string" where
  "provider_aad provider = ''modelrouter/provider_keys/'' @ provider"

definition seal_for_provider :: "sealer \<Rightarrow> string option \<Rightarrow> vault \<Rightarrow> string \<Rightarrow> string \<Rightarrow> string + string \<times> string" where
  "seal_for_provider gseal entropy v provider plain = (case entropy of
     None \<Rightarrow> Inl ''vault: read nonce entropy''
   | Some nonce \<Rightarrow> Inr (nonce, gseal (vt_key v) nonce plain (provider_aad provider)))"

definition open_for_provider :: "opener \<Rightarrow> vault \<Rightarrow> string \<Rightarrow> string \<Rightarrow> string \<Rightarrow> string + string" where
  "open_for_provider gopen v provider nonce cipher =
    (if length nonce \<noteq> nonce_size
     then Inl (''vault: nonce is '' @ itoa (int (length nonce)) @ '' bytes, want 12'')
     else (case gopen (vt_key v) nonce cipher (provider_aad provider) of
        None \<Rightarrow> Inl (''vault: decrypt key for '' @ provider) | Some plain \<Rightarrow> Inr plain))"

text \<open>The unbound variants of crypto.go: no additional data.\<close>

definition seal_raw :: "sealer \<Rightarrow> string option \<Rightarrow> string \<Rightarrow> string \<Rightarrow> string + string \<times> string" where
  "seal_raw gseal entropy key plain = (if length key \<notin> {16, 24, 32} then Inl ''aes cipher''
     else (case entropy of None \<Rightarrow> Inl ''read nonce entropy'' | Some nonce \<Rightarrow> Inr (nonce, gseal key nonce plain [])))"

definition open_raw :: "opener \<Rightarrow> string \<Rightarrow> string \<Rightarrow> string \<Rightarrow> string + string" where
  "open_raw gopen key nonce cipher = (if length key \<notin> {16, 24, 32} then Inl ''aes cipher''
     else if length nonce \<noteq> nonce_size then Inl (''nonce is '' @ itoa (int (length nonce)) @ '' bytes, want 12'')
     else (case gopen key nonce cipher [] of None \<Rightarrow> Inl ''decrypt'' | Some plain \<Rightarrow> Inr plain))"

section \<open>Operations\<close>

definition alias_or_default :: "string \<Rightarrow> string" where
  "alias_or_default alias = (if alias = [] then ''default'' else alias)"

definition vault_put :: "sealer \<Rightarrow> string option \<Rightarrow> string option \<Rightarrow> string \<Rightarrow> string \<Rightarrow> string \<Rightarrow> vault \<Rightarrow>
    string option \<times> vault" where
  "vault_put gseal entropy fault provider alias0 key v =
    (if provider = [] then (Some ''vault: empty provider ID'', v)
     else if key = [] then (Some ''vault: empty key'', v)
     else (let alias = alias_or_default alias0 in
       case seal_for_provider gseal entropy v provider key of
         Inl e \<Rightarrow> (Some e, v)
       | Inr (nonce, cipher) \<Rightarrow>
          (case fault of Some e \<Rightarrow> (Some (''vault: store key '' @ provider @ ''/'' @ alias @ '': '' @ e), v)
           | None \<Rightarrow> (None, v\<lparr>vt_rows := AList.update (provider, alias)
               \<lparr>kr_nonce = nonce, kr_cipher = cipher, kr_status = untested, kr_checked = None, kr_detail = None\<rparr>
               (vt_rows v)\<rparr>))))"

definition vault_get :: "opener \<Rightarrow> string option \<Rightarrow> string \<Rightarrow> string \<Rightarrow> vault \<Rightarrow> string + string option" where
  "vault_get gopen fault provider alias0 v =
    (let alias = alias_or_default alias0 in
     case fault of Some e \<Rightarrow> Inl (''vault: fetch key '' @ provider @ ''/'' @ alias @ '': '' @ e)
     | None \<Rightarrow> (case map_of (vt_rows v) (provider, alias) of None \<Rightarrow> Inr None
        | Some r \<Rightarrow> (case open_for_provider gopen v provider (kr_nonce r) (kr_cipher r) of
            Inl e \<Rightarrow> Inl e | Inr plain \<Rightarrow> Inr (Some plain))))"

record listed_key =
  lk_provider :: string
  lk_alias :: string
  lk_state :: string
  lk_checked :: instant
  lk_detail :: string

definition time_or_zero :: "instant option \<Rightarrow> instant" where
  "time_or_zero t = (case t of None \<Rightarrow> zero_time | Some x \<Rightarrow> x)"

definition text_or_empty :: "string option \<Rightarrow> string" where
  "text_or_empty t = (case t of None \<Rightarrow> [] | Some x \<Rightarrow> x)"

text \<open>The rows of one provider, ordered by alias.\<close>

definition provider_rows :: "string \<Rightarrow> vault \<Rightarrow> (string \<times> key_row) list" where
  "provider_rows provider v = sort_key fst (map (\<lambda>((p, a), r). (a, r)) (filter (\<lambda>((p, a), r). p = provider) (vt_rows v)))"

definition list_keys :: "string option \<Rightarrow> string \<Rightarrow> vault \<Rightarrow> string + listed_key list" where
  "list_keys fault provider v = (case fault of Some e \<Rightarrow> Inl (''vault: list keys for '' @ provider @ '': '' @ e)
     | None \<Rightarrow> Inr (map (\<lambda>(a, r). \<lparr>lk_provider = provider, lk_alias = a, lk_state = kr_status r,
          lk_checked = time_or_zero (kr_checked r), lk_detail = text_or_empty (kr_detail r)\<rparr>) (provider_rows provider v)))"

definition active_aliases :: "string option \<Rightarrow> string \<Rightarrow> vault \<Rightarrow> string + string list" where
  "active_aliases fault provider v = (case fault of Some e \<Rightarrow> Inl (''vault: active aliases for '' @ provider @ '': '' @ e)
     | None \<Rightarrow> Inr (map fst (filter (\<lambda>(a, r). kr_status r \<in> {untested, valid_key, validating}) (provider_rows provider v))))"

definition delete_key :: "string option \<Rightarrow> string \<Rightarrow> string \<Rightarrow> vault \<Rightarrow> string option \<times> vault" where
  "delete_key fault provider alias0 v = (let alias = alias_or_default alias0 in
     case fault of Some e \<Rightarrow> (Some (''vault: delete key '' @ provider @ ''/'' @ alias @ '': '' @ e), v)
     | None \<Rightarrow> (None, v\<lparr>vt_rows := AList.delete (provider, alias) (vt_rows v)\<rparr>))"

definition key_status_of :: "string option \<Rightarrow> string \<Rightarrow> string \<Rightarrow> vault \<Rightarrow> string + key_status" where
  "key_status_of fault provider alias0 v = (let alias = alias_or_default alias0 in
     case fault of Some e \<Rightarrow> Inl (''vault: fetch status for '' @ provider @ ''/'' @ alias @ '': '' @ e)
     | None \<Rightarrow> (case map_of (vt_rows v) (provider, alias) of
          None \<Rightarrow> Inl (''vault: no key stored for '' @ provider @ ''/'' @ alias)
        | Some r \<Rightarrow>
            if known_state (kr_status r)
            then Inr \<lparr>ks_state = kr_status r, ks_checked = time_or_zero (kr_checked r), ks_detail = text_or_empty (kr_detail r)\<rparr>
            else Inl (''vault: stored state for '' @ provider @ ''/'' @ alias @ '' is not a known state'')))"

definition set_status :: "string option \<Rightarrow> string \<Rightarrow> string \<Rightarrow> key_status \<Rightarrow> vault \<Rightarrow> string option \<times> vault" where
  "set_status fault provider alias0 st v =
    (if provider = [] then (Some ''vault: empty provider ID'', v)
     else (let alias = alias_or_default alias0 in
       if \<not> known_state (ks_state st) then (Some ''vault: unknown key state'', v)
       else (case fault of Some e \<Rightarrow> (Some (''vault: set status for '' @ provider @ ''/'' @ alias @ '': '' @ e), v)
         | None \<Rightarrow> (case map_of (vt_rows v) (provider, alias) of
              None \<Rightarrow> (Some (''vault: no key stored for '' @ provider @ ''/'' @ alias), v)
            | Some r \<Rightarrow> (None, v\<lparr>vt_rows := AList.update (provider, alias)
                (r\<lparr>kr_status := ks_state st,
                   kr_checked := (if ks_checked st = zero_time then None else Some (ks_checked st)),
                   kr_detail := (if ks_detail st = [] then None else Some (ks_detail st))\<rparr>) (vt_rows v)\<rparr>)))))"

section \<open>The master key\<close>

text \<open>\<open>hex.DecodeString\<close>: pairs of hexadecimal digits.\<close>

fun hex_decode :: "string \<Rightarrow> string option" where
  "hex_decode [] = Some []"
| "hex_decode [c] = None"
| "hex_decode (c # d # rest) = (case (hex_val c, hex_val d, hex_decode rest) of
     (Some hi, Some lo, Some r) \<Rightarrow> Some (char_of (16 * hi + lo) # r) | _ \<Rightarrow> None)"

datatype file_read = FileBytes string | FileMissing | FileError string

text \<open>
  The environment variable, the path, whether it is a directory, what reading the key file gives, the
  entropy, and the errors of creating the directory and writing. The second component is the file
  written, if any.
\<close>

definition master_key :: "string \<Rightarrow> string \<Rightarrow> bool \<Rightarrow> (string \<Rightarrow> file_read) \<Rightarrow> string option \<Rightarrow> string option \<Rightarrow> string option \<Rightarrow>
    (string + string) \<times> (string \<times> string) option" where
  "master_key env path0 is_dir rd entropy mkdir_err write_err =
    (if env \<noteq> [] then
       (case hex_decode env of
          None \<Rightarrow> (Inl ''vault: MODEL_ROUTER_MASTER_KEY is not valid hex'', None)
        | Some key \<Rightarrow> (if length key \<noteq> 32
            then Inl (''vault: MODEL_ROUTER_MASTER_KEY decodes to '' @ itoa (int (length key)) @ '' bytes, want 32'')
            else Inr key, None))
     else if path0 = [] then (Inl ''vault: no master key env var and no key file path'', None)
     else
       (let path = (if is_dir then path0 @ ''/master.key'' else path0) in
        case rd path of
          FileBytes key \<Rightarrow> (if length key \<noteq> 32
            then Inl (''vault: key file '' @ path @ '' holds '' @ itoa (int (length key)) @ '' bytes, want 32'') else Inr key, None)
        | FileError e \<Rightarrow> (Inl (''vault: read master key file '' @ path @ '': '' @ e), None)
        | FileMissing \<Rightarrow>
            (case entropy of None \<Rightarrow> (Inl ''vault: read master key entropy'', None)
             | Some key \<Rightarrow>
                if mkdir_err \<noteq> None then (Inl ''vault: create key directory'', None)
                else if write_err \<noteq> None then (Inl (''vault: write master key file '' @ path), None)
                else (Inr key, Some (path, key)))))"

section \<open>Rows and aliases\<close>

definition wf_vault :: "vault \<Rightarrow> bool" where
  "wf_vault v \<longleftrightarrow> distinct (map fst (vt_rows v)) \<and> (\<forall>k r. map_of (vt_rows v) k = Some r \<longrightarrow> known_state (kr_status r))"

lemma known_untested [simp]: "known_state untested"
  by (simp add: known_state_def)

lemma wf_update_row: "wf_vault v \<Longrightarrow> known_state (kr_status r) \<Longrightarrow> wf_vault (v\<lparr>vt_rows := AList.update k r (vt_rows v)\<rparr>)"
  by (auto simp: wf_vault_def distinct_update map_of_update_eq)

lemma wf_vault_put [inv_intros]: "wf_vault v \<Longrightarrow> wf_vault (snd (vault_put gseal entropy fault provider alias key v))"
  by (auto simp: vault_put_def Let_def intro: wf_update_row split: sum.splits option.splits)

lemma wf_delete_key [inv_intros]: "wf_vault v \<Longrightarrow> wf_vault (snd (delete_key fault provider alias v))"
  by (auto simp: delete_key_def Let_def wf_vault_def distinct_delete map_of_delete_eq simp del: map_of_eq_Some_iff
      split: option.splits if_splits)

lemma wf_set_status [inv_intros]: "wf_vault v \<Longrightarrow> wf_vault (snd (set_status fault provider alias st v))"
  by (auto simp: set_status_def Let_def intro: wf_update_row split: option.splits)

lemma mem_active_aliases:
  assumes "wf_vault v" "active_aliases None provider v = Inr as"
  shows "a \<in> set as \<longleftrightarrow> (\<exists>r. map_of (vt_rows v) (provider, a) = Some r \<and> kr_status r \<noteq> invalid_key)"
proof -
  have m: "map_of (vt_rows v) (provider, a) = Some r \<longleftrightarrow> ((provider, a), r) \<in> set (vt_rows v)" for r
    using assms(1) by (auto simp: wf_vault_def intro: map_of_SomeD)
  have "a \<in> set as \<longleftrightarrow> (\<exists>r. ((provider, a), r) \<in> set (vt_rows v) \<and> kr_status r \<in> {untested, valid_key, validating})"
    using assms(2) by (force simp: active_aliases_def provider_rows_def)
  moreover have "kr_status r \<in> {untested, valid_key, validating} \<longleftrightarrow> kr_status r \<noteq> invalid_key"
    if "((provider, a), r) \<in> set (vt_rows v)" for r
  proof -
    have "known_state (kr_status r)" using assms(1) that m by (auto simp: wf_vault_def)
    then show ?thesis by (auto simp: known_state_def key_state_defs)
  qed
  ultimately show ?thesis using m by auto
qed

section \<open>What the vault promises\<close>

lemma open_seal:
  assumes "\<And>k n p a. gopen k n (gseal k n p a) a = Some p" "length nonce = nonce_size"
  shows "open_for_provider gopen v provider nonce (gseal (vt_key v) nonce plain (provider_aad provider)) = Inr plain"
  using assms by (simp add: open_for_provider_def)

lemma vault_get_row:
  "map_of (vt_rows v) (provider, alias_or_default alias) = Some r \<Longrightarrow> vault_get gopen None provider alias v =
    map_sum id Some (open_for_provider gopen v provider (kr_nonce r) (kr_cipher r))"
  by (simp add: vault_get_def Let_def split: sum.splits)

lemma vault_get_same:
  "map_of (vt_rows v1) (provider, alias_or_default alias) = map_of (vt_rows v) (provider, alias_or_default alias) \<Longrightarrow>
    vt_key v1 = vt_key v \<Longrightarrow> vault_get gopen None provider alias v1 = vault_get gopen None provider alias v"
  by (cases "map_of (vt_rows v) (provider, alias_or_default alias)")
    (simp_all add: vault_get_def Let_def open_for_provider_def)

text \<open>
  C12: For an authenticated cipher, a key that was stored is read back, reading any other alias is
  unaffected, and the row copied under another provider cannot be opened.
\<close>

theorem put_then_get:
  assumes "\<And>k n p a. gopen k n (gseal k n p a) a = Some p"
    "\<And>k n p a a'. a' \<noteq> a \<Longrightarrow> gopen k n (gseal k n p a) a' = None"
    "vault_put gseal (Some nonce) None provider alias key v = (None, v1)" "length nonce = nonce_size"
  shows "vault_get gopen None provider alias v1 = Inr (Some key) \<and>
    (\<forall>p a. (p, alias_or_default a) \<noteq> (provider, alias_or_default alias) \<longrightarrow>
      vault_get gopen None p a v1 = vault_get gopen None p a v) \<and>
    (\<forall>r v2 thief. map_of (vt_rows v1) (provider, alias_or_default alias) = Some r \<longrightarrow> thief \<noteq> provider \<longrightarrow>
      vt_key v2 = vt_key v1 \<longrightarrow> map_of (vt_rows v2) (thief, alias_or_default alias) = Some r \<longrightarrow>
      vault_get gopen None thief alias v2 = Inl (''vault: decrypt key for '' @ thief))"
proof -
  define r0 where "r0 = \<lparr>kr_nonce = nonce, kr_cipher = gseal (vt_key v) nonce key (provider_aad provider),
      kr_status = untested, kr_checked = None, kr_detail = None\<rparr>"
  have v1: "v1 = v\<lparr>vt_rows := AList.update (provider, alias_or_default alias) r0 (vt_rows v)\<rparr>"
    using assms(3) by (auto simp: vault_put_def seal_for_provider_def Let_def r0_def split: if_splits)
  have row: "map_of (vt_rows v1) (provider, alias_or_default alias) = Some r0"
    and k1: "vt_key v1 = vt_key v" by (simp_all add: v1 map_of_update_eq)
  have "vault_get gopen None provider alias v1 = Inr (Some key)"
    using vault_get_row [OF row, of gopen] open_seal [of gopen gseal, OF assms(1,4), of v1 provider key] k1
    by (simp add: r0_def)
  moreover have "vault_get gopen None p a v1 = vault_get gopen None p a v"
    if "(p, alias_or_default a) \<noteq> (provider, alias_or_default alias)" for p a
    by (rule vault_get_same) (use that in \<open>auto simp: v1 map_of_update_eq\<close>)
  moreover have "vault_get gopen None thief alias v2 = Inl (''vault: decrypt key for '' @ thief)"
    if "thief \<noteq> provider" "vt_key v2 = vt_key v1" "map_of (vt_rows v2) (thief, alias_or_default alias) = Some r0"
    for thief v2
  proof -
    have "provider_aad thief \<noteq> provider_aad provider" using that(1) by (simp add: provider_aad_def)
    with that(2) k1 assms(2,4) show ?thesis
      by (simp add: vault_get_row [OF that(3)] open_for_provider_def r0_def)
  qed
  ultimately show ?thesis using row by auto
qed

text \<open>A cipher of the right shape: the length of the additional data, the data, the text.\<close>

definition tagged :: "string \<Rightarrow> string" where
  "tagged a = replicate (length a) CHR ''1'' @ CHR ''0'' # a"

definition plain_seal :: sealer where
  "plain_seal k n p a = tagged a @ p"

definition plain_open :: opener where
  "plain_open k n c a = (if prefix (tagged a) c then Some (drop (length (tagged a)) c) else None)"

lemma tagged_prefix: "prefix (tagged a') (tagged a @ p) \<Longrightarrow> a' = a"
proof -
  assume "prefix (tagged a') (tagged a @ p)"
  then obtain q where q: "tagged a @ p = tagged a' @ q" by (auto simp: prefix_def)
  have t: "takeWhile (\<lambda>c. c = CHR ''1'') (tagged x @ y) = replicate (length x) CHR ''1''" for x y
  proof -
    have "takeWhile (\<lambda>c. c = CHR ''1'') (replicate n CHR ''1'' @ CHR ''0'' # z) = replicate n CHR ''1''" for n z
      by (induction n) simp_all
    then show ?thesis by (simp add: tagged_def)
  qed
  have "length a = length a'" using arg_cong [OF q, of "takeWhile (\<lambda>c. c = CHR ''1'')"] unfolding t by simp
  with q show ?thesis by (simp add: tagged_def)
qed

theorem put_then_get_witness:
  "\<exists>v1. vault_put plain_seal (Some (replicate 12 CHR ''n'')) None ''groq'' [] ''sk-1'' \<lparr>vt_rows = [], vt_key = []\<rparr> = (None, v1) \<and>
     vault_get plain_open None ''groq'' [] v1 = Inr (Some ''sk-1'')"
proof -
  have o1: "plain_open k n (plain_seal k n p a) a = Some p" for k n p a
    by (simp add: plain_open_def plain_seal_def)
  have o2: "plain_open k n (plain_seal k n p a) a' = None" if "a' \<noteq> a" for k n p a a'
    using that tagged_prefix by (auto simp: plain_open_def plain_seal_def)
  obtain v1 where v1: "vault_put plain_seal (Some (replicate 12 CHR ''n'')) None ''groq'' [] ''sk-1''
      \<lparr>vt_rows = [], vt_key = []\<rparr> = (None, v1)"
    by (simp add: vault_put_def seal_for_provider_def Let_def)
  show ?thesis
    using put_then_get [of plain_open plain_seal, OF o1 o2 v1] v1 by (simp add: nonce_size_def)
qed

text \<open>
  The master key is always 32 bytes; a key is generated and written only when the key file does not
  exist, and an existing good key file is returned as it is.
\<close>

lemma master_key_is_never_replaced:
  assumes "master_key env path is_dir rd entropy mkdir_err write_err = (r, written)"
    "\<And>e. entropy = Some e \<Longrightarrow> length e = 32"
  shows "(\<forall>k. r = Inr k \<longrightarrow> length k = 32) \<and>
    (\<forall>file k. written = Some (file, k) \<longrightarrow> rd file = FileMissing \<and> r = Inr k \<and> env = []) \<and>
    (\<forall>file k. rd file = FileBytes k \<longrightarrow> length k = 32 \<longrightarrow> env = [] \<longrightarrow> path \<noteq> [] \<longrightarrow>
      file = (if is_dir then path @ ''/master.key'' else path) \<longrightarrow> r = Inr k \<and> written = None)"
  using assms
  by (auto simp: master_key_def Let_def split: if_splits option.splits file_read.splits)

end
