(* ===== verification/Health.thy ===== *)
theory Health
  imports GoTime
begin

text \<open>
  The endpoint health machine of the model router (internal/health/state.go and events.go): per
  scope a set of orthogonal states with an expiry, the escalation counters of the quota ladder, the
  ring of recent events and the persistence hook. The mutex makes every exported method atomic, so
  a method is a function from the machine to the machine and its results. The hook is a call-back
  of another component; what it is called with is the list \<open>sunk\<close>.
\<close>

section \<open>Data\<close>

record scope =
  sc_provider :: string
  sc_model :: string
  sc_key :: string

text \<open>\<open>State\<close> is an integer type; \<open>Success\<close> records the value -1 that names no state.\<close>

datatype hstate = RateLimit | Quota | Circuit | Terminal | OtherState int

datatype provenance = Heuristic | Authoritative

datatype event_kind = EvSet | EvClear | EvSuccess | EvOther string

definition billing_marker :: string where
  "billing_marker = ''billing''"

definition escalate_quota :: "duration list" where
  "escalate_quota = [2 * minute, 10 * minute, hour, 24 * hour]"

definition transient_rate_limit_ttl :: duration where
  "transient_rate_limit_ttl = 90 * second"

definition billing_ttl :: duration where
  "billing_ttl = 24 * hour"

record state_entry =
  expires_at :: instant
  entry_prov :: provenance
  entry_reason :: string

text \<open>
  The window day is a string of the form 2006-01-02 in the code and the calendar date it spells here.
\<close>

type_synonym escalation_key = "hstate \<times> civil"

record event =
  ev_time :: instant
  ev_scope :: scope
  ev_state :: hstate
  ev_reason :: string
  ev_prov :: provenance
  ev_kind :: event_kind

record machine =
  now :: instant
  states :: "scope \<Rightarrow> (hstate \<times> state_entry) list option"
  repeats :: "scope \<Rightarrow> (escalation_key \<Rightarrow> nat) option"
  events :: "event list"
  hooked :: bool
  sunk :: "event list"

definition new_machine :: machine where
  "new_machine = \<lparr>now = zero_time, states = (\<lambda>_. None), repeats = (\<lambda>_. None), events = [],
    hooked = False, sunk = []\<rparr>"

section \<open>Events\<close>

definition event_ring_size :: nat where
  "event_ring_size = 512"

definition push_event :: "event \<Rightarrow> event list \<Rightarrow> event list" where
  "push_event ev evs =
    (let evs1 = evs @ [ev] in
     if event_ring_size < length evs1 then drop (length evs1 - event_ring_size) evs1 else evs1)"

definition record_event ::
  "scope \<Rightarrow> hstate \<Rightarrow> string \<Rightarrow> provenance \<Rightarrow> event_kind \<Rightarrow> machine \<Rightarrow> machine" where
  "record_event sc st reason prov kind m =
    (let ev = \<lparr>ev_time = now m, ev_scope = sc, ev_state = st, ev_reason = reason,
               ev_prov = prov, ev_kind = kind\<rparr>
     in m\<lparr>events := push_event ev (events m),
          sunk := (if hooked m then sunk m @ [ev] else sunk m)\<rparr>)"

definition set_event_hook :: "bool \<Rightarrow> machine \<Rightarrow> machine" where
  "set_event_hook h m = m\<lparr>hooked := h\<rparr>"

definition recent_events :: "int \<Rightarrow> machine \<Rightarrow> event list" where
  "recent_events limit m =
    (let n = (if limit \<le> 0 \<or> int (length (events m)) < limit then length (events m) else nat limit)
     in take n (rev (events m)))"

section \<open>Setting and clearing states\<close>

definition escalate :: "scope \<Rightarrow> hstate \<Rightarrow> duration \<Rightarrow> machine \<Rightarrow> duration \<times> machine" where
  "escalate sc st base m =
    (let k = (st, utc_date (now m));
         reps = mget (\<lambda>_. 0) (repeats m) sc;
         n = reps k;
         m1 = m\<lparr>repeats := (repeats m)(sc \<mapsto> reps(k := n + 1))\<rparr>;
         ttl = (if length escalate_quota \<le> n then escalate_quota ! (length escalate_quota - 1)
                else if n = 0 then base else escalate_quota ! (n - 1))
     in (ttl, m1))"

definition effective_ttl ::
  "scope \<Rightarrow> hstate \<Rightarrow> duration \<Rightarrow> provenance \<Rightarrow> string \<Rightarrow> machine \<Rightarrow> duration \<times> machine" where
  "effective_ttl sc st ttl prov reason m =
    (let (ttl1, m1) = (if prov = Heuristic \<and> st = Quota then escalate sc st ttl m else (ttl, m));
         ttl2 = (if prov = Heuristic \<and> st = RateLimit \<and> sublist billing_marker reason
                 then billing_ttl else ttl1)
     in (ttl2, m1))"

definition set_state ::
  "scope \<Rightarrow> hstate \<Rightarrow> duration \<Rightarrow> provenance \<Rightarrow> string \<Rightarrow> machine \<Rightarrow> machine" where
  "set_state sc st ttl prov reason m =
    (let (ttl1, m1) = effective_ttl sc st ttl prov reason m;
         entry = \<lparr>expires_at = now m1 + ttl1, entry_prov = prov, entry_reason = reason\<rparr>;
         es = (case states m1 sc of None \<Rightarrow> [] | Some es \<Rightarrow> es);
         m2 = m1\<lparr>states := (states m1)(sc \<mapsto> AList.update st entry es)\<rparr>
     in record_event sc st reason prov EvSet m2)"

definition clear_state :: "scope \<Rightarrow> hstate \<Rightarrow> machine \<Rightarrow> machine" where
  "clear_state sc st m =
    (case states m sc of None \<Rightarrow> m
     | Some es \<Rightarrow>
       (case map_of es st of None \<Rightarrow> m
        | Some e \<Rightarrow>
          let es1 = AList.delete st es;
              m1 = m\<lparr>states := (states m)(sc := if es1 = [] then None else Some es1)\<rparr>
          in record_event sc st (entry_reason e) (entry_prov e) EvClear m1))"

definition success :: "scope \<Rightarrow> machine \<Rightarrow> machine" where
  "success sc m =
    record_event sc (OtherState (-1)) ''success'' Heuristic EvSuccess
      (m\<lparr>repeats := (repeats m)(sc := None)\<rparr>)"

section \<open>The gate\<close>

text \<open>One pass over a scope's entries: the expired ones are deleted, the earliest of the others is kept.\<close>

fun scan_entries ::
  "instant \<Rightarrow> (hstate \<times> state_entry) list \<Rightarrow> state_entry option
   \<Rightarrow> (hstate \<times> state_entry) list \<times> state_entry option" where
  "scan_entries t [] best = ([], best)"
| "scan_entries t ((st, e) # es) best =
    (if \<not> t < expires_at e then scan_entries t es best
     else
       let best1 = (case best of None \<Rightarrow> Some e
            | Some b \<Rightarrow> if expires_at e < expires_at b then Some e else Some b);
           (kept, r) = scan_entries t es best1
       in ((st, e) # kept, r))"

definition blocks :: "machine \<Rightarrow> scope \<Rightarrow> (bool \<times> string \<times> instant) \<times> machine" where
  "blocks m sc =
    (case states m sc of None \<Rightarrow> ((False, [], zero_time), m)
     | Some [] \<Rightarrow> ((False, [], zero_time), m)
     | Some (x # xs) \<Rightarrow>
       (let (kept, best) = scan_entries (now m) (x # xs) None;
            m1 = m\<lparr>states := (states m)(sc := if kept = [] then None else Some kept)\<rparr>
        in case best of None \<Rightarrow> ((False, [], zero_time), m1)
           | Some e \<Rightarrow> ((True, entry_reason e, expires_at e), m1)))"

definition prune :: "instant \<Rightarrow> (hstate \<times> state_entry) list \<Rightarrow> (hstate \<times> state_entry) list option" where
  "prune t es =
    (let live = filter (\<lambda>(st, e). t < expires_at e) es in if live = [] then None else Some live)"

definition tick :: "instant \<Rightarrow> machine \<Rightarrow> machine" where
  "tick t m = m\<lparr>now := t,
    states := (\<lambda>sc. case states m sc of None \<Rightarrow> None | Some es \<Rightarrow> prune t es)\<rparr>"

definition probe_eligible :: "machine \<Rightarrow> scope \<Rightarrow> hstate \<Rightarrow> bool" where
  "probe_eligible m sc st =
    (case states m sc of None \<Rightarrow> False
     | Some es \<Rightarrow> (case map_of es st of None \<Rightarrow> False
        | Some e \<Rightarrow> entry_prov e = Heuristic \<and> now m < expires_at e))"

fun all_blocked_loop :: "string \<Rightarrow> nat \<Rightarrow> machine \<Rightarrow> scope list \<Rightarrow> bool \<times> machine" where
  "all_blocked_loop mdl matched m [] = (0 < matched, m)"
| "all_blocked_loop mdl matched m (sc # scs) =
    (if sc_model sc \<noteq> mdl then all_blocked_loop mdl matched m scs
     else case blocks m sc of ((b, _, _), m1) \<Rightarrow>
       if \<not> b then (False, m1) else all_blocked_loop mdl (matched + 1) m1 scs)"

definition all_blocked :: "machine \<Rightarrow> scope list \<Rightarrow> string \<Rightarrow> bool \<times> machine" where
  "all_blocked m scopes mdl = all_blocked_loop mdl 0 m scopes"

section \<open>Well-formed machines\<close>

text \<open>No scope keeps an empty entry map, no state has two entries, the ring is within its bound.\<close>

definition wf_machine :: "machine \<Rightarrow> bool" where
  "wf_machine m \<longleftrightarrow>
    (\<forall>sc es. states m sc = Some es \<longrightarrow> es \<noteq> [] \<and> distinct (map fst es)) \<and>
    length (events m) \<le> event_ring_size"

text \<open>What a reader can observe of a scope: the entries that have not expired.\<close>

definition entries :: "machine \<Rightarrow> scope \<Rightarrow> (hstate \<times> state_entry) list" where
  "entries m sc = mget [] (states m) sc"

definition alive :: "instant \<Rightarrow> state_entry option \<Rightarrow> state_entry option" where
  "alive t r = (case r of None \<Rightarrow> None | Some e \<Rightarrow> if t < expires_at e then Some e else None)"

definition live :: "instant \<Rightarrow> (hstate \<times> state_entry) list \<Rightarrow> (hstate \<times> state_entry) list" where
  "live t es = filter (\<lambda>(st, e). t < expires_at e) es"

definition view :: "machine \<Rightarrow> scope \<Rightarrow> hstate \<Rightarrow> state_entry option" where
  "view m sc st = alive (now m) (map_of (entries m sc) st)"

lemma alive_simps [simp]:
  "alive t None = None"
  "alive t (Some e) = (if t < expires_at e then Some e else None)"
  by (simp_all add: alive_def)

lemma alive_Some_iff: "alive t r = Some e \<longleftrightarrow> r = Some e \<and> t < expires_at e"
  by (cases r) auto

lemma alive_alive: "s \<le> t \<Longrightarrow> alive t (alive s r) = alive t r"
  by (cases r) auto

lemma map_of_live: "distinct (map fst es) \<Longrightarrow> map_of (live t es) st = alive t (map_of es st)"
  unfolding live_def by (simp add: map_of_filter_snd alive_def)

lemma wf_entries: "wf_machine m \<Longrightarrow> distinct (map fst (entries m sc))"
  by (auto simp: wf_machine_def entries_def mget_def split: option.splits)

lemma prune_live: "prune t es = (if live t es = [] then None else Some (live t es))"
  by (simp add: prune_def live_def Let_def)

lemma mget_prune: "mget [] (f(sc := prune t es)) sc' = (if sc' = sc then live t es else mget [] f sc')"
  by (auto simp: mget_def prune_live)

lemma push_event_drop: "push_event ev evs = drop (length evs + 1 - event_ring_size) (evs @ [ev])"
  by (auto simp: push_event_def Let_def)

interpretation event_ring: bounded_trail push_event event_ring_size
  by unfold_locales (rule push_event_drop)

lemma record_event_sel [simp]:
  "now (record_event sc st r p k m) = now m"
  "states (record_event sc st r p k m) = states m"
  "repeats (record_event sc st r p k m) = repeats m"
  "hooked (record_event sc st r p k m) = hooked m"
  by (simp_all add: record_event_def Let_def)

lemma record_event_events:
  "events (record_event sc st r p k m) = push_event
    \<lparr>ev_time = now m, ev_scope = sc, ev_state = st, ev_reason = r, ev_prov = p, ev_kind = k\<rparr> (events m)"
  by (simp add: record_event_def Let_def)

lemma escalate_sel [simp]:
  "now (snd (escalate sc st b m)) = now m"
  "states (snd (escalate sc st b m)) = states m"
  "events (snd (escalate sc st b m)) = events m"
  by (simp_all add: escalate_def Let_def)

lemma effective_ttl_sel [simp]:
  "now (snd (effective_ttl sc st ttl p r m)) = now m"
  "states (snd (effective_ttl sc st ttl p r m)) = states m"
  "events (snd (effective_ttl sc st ttl p r m)) = events m"
  by (simp_all add: effective_ttl_def Let_def split_beta)

lemma set_state_states:
  "states (set_state sc st ttl p r m) = (states m)(sc \<mapsto> AList.update st
     \<lparr>expires_at = now m + fst (effective_ttl sc st ttl p r m), entry_prov = p, entry_reason = r\<rparr>
     (case states m sc of None \<Rightarrow> [] | Some es \<Rightarrow> es))"
  by (simp add: set_state_def Let_def split_beta)

lemma set_state_sel [simp]:
  "now (set_state sc st ttl p r m) = now m"
  "repeats (set_state sc st ttl p r m) = repeats (snd (effective_ttl sc st ttl p r m))"
  by (simp_all add: set_state_def Let_def split_beta)

lemma wf_record_event [simp]: "wf_machine m \<Longrightarrow> wf_machine (record_event sc st r p k m)"
  using event_ring.push_length [of "events m"]
  by (auto simp: wf_machine_def record_event_events)

lemma update_not_Nil [simp]: "AList.update k v al \<noteq> []"
  by (cases al) auto

lemma wf_set_state [inv_intros]:
  assumes "wf_machine m"
  shows "wf_machine (set_state sc st ttl p r m)"
proof -
  define m1 where "m1 = snd (effective_ttl sc st ttl p r m)"
  have m1: "states m1 = states m" "events m1 = events m"
    by (simp_all add: m1_def)
  have "distinct (map fst (case states m sc of None \<Rightarrow> [] | Some es \<Rightarrow> es))"
    using assms by (auto simp: wf_machine_def split: option.splits)
  then have "wf_machine (m1\<lparr>states := (states m1)(sc \<mapsto> AList.update st e
      (case states m1 sc of None \<Rightarrow> [] | Some es \<Rightarrow> es))\<rparr>)" for e
    using assms m1 by (auto simp: wf_machine_def distinct_update)
  then show ?thesis
    by (simp add: set_state_def Let_def split_beta flip: m1_def)
qed

lemma wf_clear_state [inv_intros]:
  assumes "wf_machine m"
  shows "wf_machine (clear_state sc st m)"
proof -
  have "wf_machine (m\<lparr>states := (states m)(sc := if AList.delete st es = [] then None
      else Some (AList.delete st es))\<rparr>)" if "states m sc = Some es" for es
    using assms that by (auto simp: wf_machine_def distinct_delete)
  then show ?thesis
    using assms by (auto simp: clear_state_def Let_def split: option.splits)
qed

lemma wf_success [inv_intros]: "wf_machine m \<Longrightarrow> wf_machine (success sc m)"
  unfolding success_def by (rule wf_record_event) (simp add: wf_machine_def)

lemma wf_tick [inv_intros]:
  assumes "wf_machine m"
  shows "wf_machine (tick t m)"
  using assms
  by (auto simp: wf_machine_def tick_def prune_def Let_def distinct_filter_keys
      split: option.splits if_splits)

lemma wf_new_machine: "wf_machine new_machine"
  by (simp add: wf_machine_def new_machine_def)

section \<open>What the gate answers\<close>

text \<open>An entry is earliest among entries when no other expires before it.\<close>

definition earliest_of :: "state_entry set \<Rightarrow> state_entry option \<Rightarrow> bool" where
  "earliest_of E r \<longleftrightarrow> (case r of None \<Rightarrow> E = {}
    | Some b \<Rightarrow> b \<in> E \<and> (\<forall>e \<in> E. expires_at b \<le> expires_at e))"

lemma scan_entries_kept: "fst (scan_entries t es best) = live t es"
  by (induction es arbitrary: best) (auto simp: live_def Let_def split_beta)

lemma scan_entries_best:
  "earliest_of (set_option best \<union> snd ` set (live t es)) (snd (scan_entries t es best))"
proof (induction es arbitrary: best)
  case Nil
  show ?case by (cases best) (auto simp: earliest_of_def live_def)
next
  case (Cons x es)
  obtain st e where x: "x = (st, e)" by (cases x)
  show ?case
  proof (cases "t < expires_at e")
    case False
    with Cons.IH [of best] show ?thesis by (simp add: x live_def)
  next
    case True
    define b where "b = (case best of None \<Rightarrow> e
       | Some b \<Rightarrow> if expires_at e < expires_at b then e else b)"
    have "earliest_of ({b} \<union> snd ` set (live t es)) (snd (scan_entries t es (Some b)))"
      using Cons.IH [of "Some b"] by simp
    moreover have "snd (scan_entries t (x # es) best) = snd (scan_entries t es (Some b))"
      using True by (auto simp: x b_def Let_def split_beta split: option.splits)
    moreover have "earliest_of ({b} \<union> E) r \<Longrightarrow>
        earliest_of (set_option best \<union> insert e E) r" for E r
      by (cases best) (force simp: earliest_of_def b_def split: option.splits if_splits)+
    ultimately show ?thesis using True by (simp add: x live_def)
  qed
qed

lemma scan_entries_live: "scan_entries t (live t es) best = scan_entries t es best"
  by (induction es arbitrary: best) (auto simp: live_def Let_def split_beta)

lemma view_live:
  assumes "wf_machine m"
  shows "snd ` set (live (now m) (entries m sc)) = {e. \<exists>st. view m sc st = Some e}"
proof -
  have "view m sc st = Some e \<longleftrightarrow> (st, e) \<in> set (entries m sc) \<and> now m < expires_at e" for st e
    using map_of_eq_Some_iff [OF wf_entries [OF assms], of sc st e]
    by (simp add: view_def alive_Some_iff)
  then show ?thesis by (force simp: live_def)
qed

definition gate_answer :: "state_entry option \<Rightarrow> bool \<times> string \<times> instant" where
  "gate_answer r = (case r of None \<Rightarrow> (False, [], zero_time)
    | Some e \<Rightarrow> (True, entry_reason e, expires_at e))"

lemma blocks_eq:
  assumes "wf_machine m"
  shows "blocks m sc =
    (gate_answer (snd (scan_entries (now m) (entries m sc) None)),
     m\<lparr>states := (states m)(sc := prune (now m) (entries m sc))\<rparr>)"
proof (cases "states m sc")
  case None
  then have "(states m)(sc := prune (now m) []) = states m"
    by (auto simp: prune_live live_def)
  with None show ?thesis by (simp add: blocks_def entries_def gate_answer_def)
next
  case (Some es)
  with assms have "es \<noteq> []" by (simp add: wf_machine_def)
  with Some show ?thesis
    by (cases es) (auto simp: blocks_def Let_def split_beta scan_entries_kept prune_live entries_def
        gate_answer_def simp del: scan_entries.simps split: option.splits)
qed

lemma blocks_sel [simp]:
  "now (snd (blocks m sc)) = now m"
  "repeats (snd (blocks m sc)) = repeats m"
  "events (snd (blocks m sc)) = events m"
  "sunk (snd (blocks m sc)) = sunk m"
  "hooked (snd (blocks m sc)) = hooked m"
  by (simp_all add: blocks_def Let_def split_beta split: option.splits list.splits)

lemma entries_blocks:
  "wf_machine m \<Longrightarrow> entries (snd (blocks m sc)) =
    (entries m)(sc := live (now m) (entries m sc))"
  by (auto simp: blocks_eq entries_def mget_prune fun_eq_iff)

lemma entries_tick: "entries (tick t m) sc = live t (entries m sc)"
  by (auto simp: entries_def tick_def mget_def prune_live live_def split: option.splits)

lemma entries_set_state:
  "entries (set_state sc st ttl p r m) = (entries m)(sc := AList.update st
     \<lparr>expires_at = now m + fst (effective_ttl sc st ttl p r m), entry_prov = p, entry_reason = r\<rparr>
     (entries m sc))"
  by (auto simp: entries_def set_state_states mget_def fun_eq_iff)

lemma entries_clear_state:
  "entries (clear_state sc st m) = (entries m)(sc := AList.delete st (entries m sc))"
proof -
  have "map_of es st = None \<Longrightarrow> AList.delete st es = es" for es :: "(hstate \<times> state_entry) list"
    by (simp add: delete_id map_of_eq_None_iff)
  then show ?thesis
    by (auto simp: entries_def clear_state_def Let_def mget_def fun_eq_iff split: option.splits)
qed

lemma wf_blocks [inv_intros]:
  assumes "wf_machine m"
  shows "wf_machine (snd (blocks m sc))"
  using assms wf_entries [OF assms, of sc]
  by (auto simp: wf_machine_def blocks_eq [OF assms] prune_live live_def distinct_filter_keys
      split: if_splits)

lemma view_blocks [simp]:
  assumes "wf_machine m"
  shows "view (snd (blocks m sc')) = view m"
  by (auto simp: view_def entries_blocks [OF assms] map_of_live [OF wf_entries [OF assms]] alive_alive
      fun_eq_iff)

lemma blocks_answer:
  assumes "wf_machine m"
  obtains r where "fst (blocks m sc) = gate_answer r"
    and "earliest_of {e. \<exists>st. view m sc st = Some e} r"
  using scan_entries_best [of None "now m" "entries m sc"] view_live [OF assms, of sc]
  by (auto simp: blocks_eq [OF assms])

lemma blocks_stable:
  assumes "wf_machine m"
  shows "fst (blocks (snd (blocks m sc)) sc') = fst (blocks m sc')"
proof -
  have "fst (blocks (snd (blocks m sc)) sc') =
      gate_answer (snd (scan_entries (now m) (entries m sc') None))"
    by (subst blocks_eq [OF wf_blocks [OF assms]]) (simp add: entries_blocks [OF assms] scan_entries_live)
  then show ?thesis by (simp add: blocks_eq [OF assms])
qed

interpretation health_gate: stable_observer blocks wf_machine
  by unfold_locales (auto intro: wf_blocks simp: blocks_stable)

end
