(* ===== verification/HealthSpec.thy ===== *)
theory HealthSpec
  imports Health
begin

text \<open>
  The contract of the health machine. Its operations as data, a run as a list of them; the abstract
  gate that only knows the unexpired entries and the escalation counts; the refinement of the
  machine to it; the quota ladder in closed form; the event trail.
\<close>

section \<open>Operations and runs\<close>

datatype health_op =
    OpSet scope hstate duration provenance string
  | OpClear scope hstate
  | OpSuccess scope
  | OpTick instant
  | OpBlocks scope
  | OpAllBlocked "scope list" string
  | OpHook bool

fun health_step :: "health_op \<Rightarrow> machine \<Rightarrow> machine" where
  "health_step (OpSet sc st ttl p r) m = set_state sc st ttl p r m"
| "health_step (OpClear sc st) m = clear_state sc st m"
| "health_step (OpSuccess sc) m = success sc m"
| "health_step (OpTick t) m = tick t m"
| "health_step (OpBlocks sc) m = snd (blocks m sc)"
| "health_step (OpAllBlocked scs mdl) m = snd (all_blocked m scs mdl)"
| "health_step (OpHook h) m = set_event_hook h m"

lemma all_blocked_loop_keeps:
  "wf_machine m \<Longrightarrow>
    wf_machine (snd (all_blocked_loop mdl n m scs)) \<and>
    view (snd (all_blocked_loop mdl n m scs)) = view m \<and>
    now (snd (all_blocked_loop mdl n m scs)) = now m \<and>
    repeats (snd (all_blocked_loop mdl n m scs)) = repeats m \<and>
    events (snd (all_blocked_loop mdl n m scs)) = events m \<and>
    sunk (snd (all_blocked_loop mdl n m scs)) = sunk m \<and>
    hooked (snd (all_blocked_loop mdl n m scs)) = hooked m"
proof (induction scs arbitrary: m n)
  case (Cons sc scs)
  have "snd (all_blocked_loop mdl n m (sc # scs)) =
    (if sc_model sc \<noteq> mdl then snd (all_blocked_loop mdl n m scs)
     else if \<not> fst (fst (blocks m sc)) then snd (blocks m sc)
     else snd (all_blocked_loop mdl (n + 1) (snd (blocks m sc)) scs))"
    by (simp add: split_beta)
  then show ?case
    using Cons.IH [OF Cons.prems, of n] Cons.IH [OF wf_blocks [OF Cons.prems], of "n + 1" sc]
      wf_blocks [OF Cons.prems] view_blocks [OF Cons.prems] by simp
qed simp

lemma wf_set_event_hook [inv_intros]: "wf_machine m \<Longrightarrow> wf_machine (set_event_hook h m)"
  by (simp add: wf_machine_def set_event_hook_def)

lemma wf_health_step: "wf_machine m \<Longrightarrow> wf_machine (health_step op m)"
  by (cases op) (auto intro: inv_intros simp: all_blocked_def all_blocked_loop_keeps)

interpretation health_runs: invariant_machine health_step wf_machine
  by unfold_locales (rule wf_health_step)

section \<open>The abstract gate\<close>

record gate =
  g_clock :: instant
  g_hits :: "scope \<Rightarrow> escalation_key \<Rightarrow> nat"
  g_active :: "scope \<Rightarrow> hstate \<Rightarrow> state_entry option"

definition hits :: "machine \<Rightarrow> scope \<Rightarrow> escalation_key \<Rightarrow> nat" where
  "hits m sc = mget (\<lambda>_. 0) (repeats m) sc"

definition abs_gate :: "machine \<Rightarrow> gate" where
  "abs_gate m = \<lparr>g_clock = now m, g_hits = hits m, g_active = view m\<rparr>"

text \<open>The quota ladder: the caller's time, then 2 minutes, 10 minutes, 1 hour, and 24 hours for good.\<close>

definition ladder :: "duration \<Rightarrow> nat \<Rightarrow> duration" where
  "ladder base n = (if n = 0 then base else if n = 1 then 2 * minute else if n = 2 then 10 * minute
    else if n = 3 then hour else 24 * hour)"

definition gate_ttl :: "hstate \<Rightarrow> duration \<Rightarrow> provenance \<Rightarrow> string \<Rightarrow> nat \<Rightarrow> duration" where
  "gate_ttl st ttl p r n =
    (if p = Heuristic \<and> st = Quota then ladder ttl n
     else if p = Heuristic \<and> st = RateLimit \<and> sublist ''billing'' r then 24 * hour else ttl)"

fun gate_step :: "health_op \<Rightarrow> gate \<Rightarrow> gate" where
  "gate_step (OpSet sc st ttl p r) g =
    (let k = (st, utc_date (g_clock g));
         ttl1 = gate_ttl st ttl p r (g_hits g sc k);
         e = \<lparr>expires_at = g_clock g + ttl1, entry_prov = p, entry_reason = r\<rparr>
     in g\<lparr>g_hits := (if p = Heuristic \<and> st = Quota
            then (g_hits g)(sc := (g_hits g sc)(k := g_hits g sc k + 1)) else g_hits g),
          g_active := (g_active g)(sc := (g_active g sc)(st := if 0 < ttl1 then Some e else None))\<rparr>)"
| "gate_step (OpClear sc st) g = g\<lparr>g_active := (g_active g)(sc := (g_active g sc)(st := None))\<rparr>"
| "gate_step (OpSuccess sc) g = g\<lparr>g_hits := (g_hits g)(sc := (\<lambda>_. 0))\<rparr>"
| "gate_step (OpTick t) g = g\<lparr>g_clock := t,
    g_active := (\<lambda>sc st. alive t (g_active g sc st))\<rparr>"
| "gate_step (OpBlocks sc) g = g"
| "gate_step (OpAllBlocked scs mdl) g = g"
| "gate_step (OpHook h) g = g"

text \<open>The clock of the process never runs backwards along a run.\<close>

fun clock_forward :: "instant \<Rightarrow> health_op list \<Rightarrow> bool" where
  "clock_forward t [] = True"
| "clock_forward t (OpTick t' # ops) = (t \<le> t' \<and> clock_forward t' ops)"
| "clock_forward t (op # ops) = clock_forward t ops"

section \<open>Each operation simulates the gate\<close>

lemma effective_ttl_ladder:
  "fst (effective_ttl sc st ttl p r m) = gate_ttl st ttl p r (hits m sc (st, utc_date (now m)))"
proof -
  define n where "n = hits m sc (st, utc_date (now m))"
  have "fst (escalate sc st ttl m) = ladder ttl n"
    by (cases "n \<in> {0, 1, 2, 3}")
      (auto simp: escalate_def ladder_def Let_def escalate_quota_def hits_def n_def)
  then show ?thesis
    by (auto simp: effective_ttl_def gate_ttl_def Let_def split_beta billing_marker_def billing_ttl_def n_def)
qed

lemma effective_ttl_repeats:
  "repeats (snd (effective_ttl sc st ttl p r m)) =
    (if p = Heuristic \<and> st = Quota
     then (repeats m)(sc \<mapsto> (hits m sc)((st, utc_date (now m)) := hits m sc (st, utc_date (now m)) + 1))
     else repeats m)"
  by (auto simp: effective_ttl_def escalate_def Let_def split_beta hits_def)

lemma hits_set_state:
  "hits (set_state sc st ttl p r m) =
    (if p = Heuristic \<and> st = Quota
     then (hits m)(sc := (hits m sc)((st, utc_date (now m)) := hits m sc (st, utc_date (now m)) + 1))
     else hits m)"
  by (auto simp: hits_def effective_ttl_repeats fun_eq_iff)

lemma view_set_state:
  "view (set_state sc st ttl p r m) =
    (let ttl1 = gate_ttl st ttl p r (hits m sc (st, utc_date (now m)));
         e = \<lparr>expires_at = now m + ttl1, entry_prov = p, entry_reason = r\<rparr>
     in (view m)(sc := (view m sc)(st := if 0 < ttl1 then Some e else None)))"
  by (auto simp: view_def entries_set_state effective_ttl_ladder Let_def map_of_update_eq fun_eq_iff)

lemma view_clear_state: "view (clear_state sc st m) = (view m)(sc := (view m sc)(st := None))"
proof -
  have "now (clear_state sc st m) = now m"
    by (simp add: clear_state_def Let_def split: option.splits)
  then show ?thesis
    by (auto simp: view_def entries_clear_state map_of_delete_eq fun_eq_iff)
qed

lemma view_tick:
  assumes "wf_machine m" "now m \<le> t"
  shows "view (tick t m) = (\<lambda>sc st. alive t (view m sc st))"
proof -
  have "now (tick t m) = t" by (simp add: tick_def)
  then show ?thesis
    using assms(2)
    by (simp add: view_def entries_tick map_of_live [OF wf_entries [OF assms(1)]] alive_alive fun_eq_iff)
qed

lemma entries_record_event [simp]: "entries (record_event sc st r p k m) = entries m"
  by (simp add: entries_def fun_eq_iff)

lemma view_record_event [simp]: "view (record_event sc st r p k m) = view m"
  by (simp add: view_def fun_eq_iff)

lemma abs_success:
  "view (success sc m) = view m"
  "hits (success sc m) = (hits m)(sc := (\<lambda>_. 0))"
  "now (success sc m) = now m"
  by (auto simp: success_def view_def entries_def hits_def fun_eq_iff)

lemma abs_set_event_hook:
  "view (set_event_hook h m) = view m"
  "hits (set_event_hook h m) = hits m"
  "now (set_event_hook h m) = now m"
  by (auto simp: set_event_hook_def view_def entries_def hits_def fun_eq_iff)

lemma hits_other:
  "hits (tick t m) = hits m"
  "hits (clear_state sc st m) = hits m"
  "hits (snd (blocks m sc)) = hits m"
  by (auto simp: hits_def tick_def clear_state_def Let_def split: option.splits)

lemma abs_gate_step:
  assumes "wf_machine m" "clock_forward (now m) (op # ops)"
  shows "abs_gate (health_step op m) = gate_step op (abs_gate m)"
proof (cases op)
  case (OpTick t)
  with assms have "now m \<le> t" by simp
  with OpTick assms(1) show ?thesis
    by (simp add: abs_gate_def view_tick hits_other) (simp add: tick_def)
next
  case (OpAllBlocked scs mdl)
  with assms(1) show ?thesis
    by (simp add: abs_gate_def all_blocked_def all_blocked_loop_keeps hits_def fun_eq_iff)
next
  case (OpClear sc st)
  then show ?thesis
    by (simp add: abs_gate_def hits_other view_clear_state)
      (simp add: clear_state_def Let_def split: option.splits)
qed (use assms(1) in \<open>auto simp: abs_gate_def hits_set_state view_set_state Let_def abs_success
    hits_other abs_set_event_hook\<close>)

lemma now_health_step:
  "now (health_step op m) = (case op of OpTick t \<Rightarrow> t | _ \<Rightarrow> now m)"
  if "wf_machine m"
  using that by (cases op) (auto simp: clear_state_def Let_def abs_success tick_def abs_set_event_hook
      all_blocked_def all_blocked_loop_keeps split: option.splits)

lemma clock_forward_step:
  "clock_forward t (op # ops) \<Longrightarrow> clock_forward (case op of OpTick t' \<Rightarrow> t' | _ \<Rightarrow> t) ops"
  by (cases op) auto

text \<open>
  C1: The health machine, with its pruned maps, event ring and repeat counters, refines an abstract gate
  of one optional deadline per scope and state: after any operations whose ticks never move the clock
  back, what the machine still blocks is what the abstract gate still blocks.
\<close>

theorem health_refines_gate:
  assumes "wf_machine m" "clock_forward (now m) ops"
  shows "abs_gate (fold health_step ops m) = fold gate_step ops (abs_gate m)"
  using assms
proof (induction ops arbitrary: m)
  case (Cons op ops)
  have "clock_forward (now (health_step op m)) ops"
    using clock_forward_step [OF Cons.prems(2)] now_health_step [OF Cons.prems(1)] by simp
  then show ?case
    using Cons.IH [OF wf_health_step [OF Cons.prems(1)]] abs_gate_step [OF Cons.prems] by simp
qed simp

text \<open>A run that sets, ticks past one of two states, asks and clears, seen through the gate.\<close>

definition sample_scope :: scope where
  "sample_scope = \<lparr>sc_provider = ''groq'', sc_model = ''kimi-k3'', sc_key = ''default''\<rparr>"

definition sample_ops :: "health_op list" where
  "sample_ops = [OpTick (unix_time 1000), OpSet sample_scope RateLimit (90 * second) Heuristic ''slow'',
    OpSet sample_scope Quota hour Authoritative ''spent'', OpTick (unix_time 1100),
    OpBlocks sample_scope, OpClear sample_scope Quota]"

theorem health_refines_gate_witness:
  "wf_machine new_machine \<and> clock_forward (now new_machine) sample_ops \<and>
   abs_gate (fold health_step sample_ops new_machine) = fold gate_step sample_ops (abs_gate new_machine)"
proof -
  have c: "clock_forward (now new_machine) sample_ops"
    by (simp add: sample_ops_def new_machine_def zero_time_def unix_time_def duration_defs)
  show ?thesis using health_refines_gate [OF wf_new_machine c] wf_new_machine c by blast
qed

section \<open>What the gate answers\<close>

text \<open>
  Blocks says yes exactly when the scope has an unexpired state, reports the reason and expiry of an
  earliest-expiring one, and its pruning changes neither what is blocked nor any later answer.
\<close>

lemma blocks_reports_earliest:
  assumes "wf_machine m" and "blocks m sc = ((b, why, until), m1)"
  shows "(b \<longleftrightarrow> (\<exists>st e. view m sc st = Some e)) \<and>
    (b \<longrightarrow> (\<exists>st e. view m sc st = Some e \<and> why = entry_reason e \<and> until = expires_at e \<and>
       (\<forall>st' e'. view m sc st' = Some e' \<longrightarrow> until \<le> expires_at e'))) \<and>
    view m1 = view m \<and> fst (blocks m1 sc') = fst (blocks m sc')"
proof -
  obtain r where r: "fst (blocks m sc) = gate_answer r"
    "earliest_of {e. \<exists>st. view m sc st = Some e} r"
    using blocks_answer [OF assms(1)] .
  have m1: "m1 = snd (blocks m sc)" using assms(2) by simp
  have "(b, why, until) = gate_answer r" using r(1) assms(2) by simp
  then show ?thesis
    using r(2) view_blocks [OF assms(1), of sc] blocks_stable [OF assms(1), of sc sc']
    unfolding m1 by (cases r) (auto simp: gate_answer_def earliest_of_def)
qed

definition sample_machine :: machine where
  "sample_machine = fold health_step (take 3 sample_ops) new_machine"

section \<open>The quota ladder over a history\<close>

text \<open>
  The hits of a scope on one UTC day: heuristic quota exhaustions recorded while the clock showed
  that day, counted from the scope's last success.
\<close>

fun quota_hits :: "scope \<Rightarrow> civil \<Rightarrow> instant \<Rightarrow> nat \<Rightarrow> health_op list \<Rightarrow> nat" where
  "quota_hits sc d t n [] = n"
| "quota_hits sc d t n (op # ops) = (case op of
      OpSet sc' st ttl p r \<Rightarrow> quota_hits sc d t
        (if sc' = sc \<and> st = Quota \<and> p = Heuristic \<and> utc_date t = d then n + 1 else n) ops
    | OpSuccess sc' \<Rightarrow> quota_hits sc d t (if sc' = sc then 0 else n) ops
    | OpTick t' \<Rightarrow> quota_hits sc d t' n ops
    | _ \<Rightarrow> quota_hits sc d t n ops)"

lemma hits_run:
  "wf_machine m \<Longrightarrow> hits (fold health_step ops m) sc (Quota, d) =
    quota_hits sc d (now m) (hits m sc (Quota, d)) ops"
proof (induction ops arbitrary: m)
  case (Cons op ops)
  note IH = Cons.IH [OF wf_health_step [OF Cons.prems], of op]
  show ?case
  proof (cases op)
    case (OpAllBlocked scs mdl)
    with IH Cons.prems show ?thesis
      by (simp add: all_blocked_def all_blocked_loop_keeps hits_def)
  qed (use IH in \<open>auto simp: hits_set_state abs_success hits_other abs_set_event_hook
      now_health_step [OF Cons.prems, of "OpTick _", simplified]
      now_health_step [OF Cons.prems, of "OpClear _ _", simplified]\<close>)
qed simp

text \<open>
  C2: After any history, a heuristic quota hit is held for the ladder step that the number of quota hits
  of the same day and scope since the last success gives: the caller's time first, then the rungs in
  order, then the last rung.
\<close>

theorem quota_cooldown_follows_ladder:
  fixes ops :: "health_op list" and sc :: scope
  defines "m \<equiv> fold health_step ops new_machine"
  defines "n \<equiv> quota_hits sc (utc_date (now m)) zero_time 0 ops"
  shows "view (set_state sc Quota base Heuristic why m) sc Quota =
    alive (now m) (Some \<lparr>expires_at = now m + ladder base n, entry_prov = Heuristic, entry_reason = why\<rparr>)"
proof -
  have "hits m sc (Quota, utc_date (now m)) = n"
    using hits_run [OF wf_new_machine, of ops sc "utc_date (now m)"]
    by (simp add: m_def n_def new_machine_def hits_def)
  then show ?thesis by (simp add: view_set_state gate_ttl_def Let_def)
qed

section \<open>The event trail\<close>

text \<open>The events an operation records, in the state it is applied in.\<close>

fun emitted :: "health_op \<Rightarrow> machine \<Rightarrow> event list" where
  "emitted (OpSet sc st ttl p r) m =
    [\<lparr>ev_time = now m, ev_scope = sc, ev_state = st, ev_reason = r, ev_prov = p, ev_kind = EvSet\<rparr>]"
| "emitted (OpClear sc st) m = (case map_of (entries m sc) st of None \<Rightarrow> []
    | Some e \<Rightarrow> [\<lparr>ev_time = now m, ev_scope = sc, ev_state = st, ev_reason = entry_reason e,
        ev_prov = entry_prov e, ev_kind = EvClear\<rparr>])"
| "emitted (OpSuccess sc) m = [\<lparr>ev_time = now m, ev_scope = sc, ev_state = OtherState (-1),
    ev_reason = ''success'', ev_prov = Heuristic, ev_kind = EvSuccess\<rparr>]"
| "emitted op m = []"

fun trail :: "machine \<Rightarrow> health_op list \<Rightarrow> event list" where
  "trail m [] = []"
| "trail m (op # ops) = emitted op m @ trail (health_step op m) ops"

lemma record_event_trail:
  "events (record_event sc st r p k m) = fold push_event
    [\<lparr>ev_time = now m, ev_scope = sc, ev_state = st, ev_reason = r, ev_prov = p, ev_kind = k\<rparr>] (events m)"
  "sunk (record_event sc st r p k m) = (if hooked m then sunk m @
    [\<lparr>ev_time = now m, ev_scope = sc, ev_state = st, ev_reason = r, ev_prov = p, ev_kind = k\<rparr>]
    else sunk m)"
  by (simp_all add: record_event_events) (simp add: record_event_def Let_def)

lemma effective_ttl_rest [simp]:
  "hooked (snd (effective_ttl sc st ttl p r m)) = hooked m"
  "sunk (snd (effective_ttl sc st ttl p r m)) = sunk m"
  by (auto simp: effective_ttl_def escalate_def Let_def split_beta)

lemma step_events:
  assumes "wf_machine m"
  shows "events (health_step op m) = fold push_event (emitted op m) (events m) \<and>
    (hooked m \<longrightarrow> sunk (health_step op m) = sunk m @ emitted op m)"
proof (cases op)
  case (OpClear sc st)
  then show ?thesis
    by (auto simp: clear_state_def Let_def entries_def mget_def record_event_trail split: option.splits)
next
  case (OpSet sc st ttl p r)
  then show ?thesis
    by (simp add: set_state_def Let_def split_beta record_event_trail)
next
  case (OpAllBlocked scs mdl)
  with assms show ?thesis by (simp add: all_blocked_def all_blocked_loop_keeps)
qed (auto simp: success_def record_event_trail tick_def set_event_hook_def)

lemma run_events: "wf_machine m \<Longrightarrow>
    events (fold health_step ops m) = fold push_event (trail m ops) (events m)"
proof (induction ops arbitrary: m)
  case (Cons op ops)
  then show ?case
    using step_events [OF Cons.prems, of op] wf_health_step [OF Cons.prems] by simp
qed simp

text \<open>
  Asking for the k most recent events, k at most the ring size, gives the last k events ever
  recorded, newest first, however often the ring was cut.
\<close>

lemma recent_events_newest_first:
  assumes "0 < k" "k \<le> 512"
  shows "recent_events (int k) (fold health_step ops new_machine) = take k (rev (trail new_machine ops))"
proof -
  define tr where "tr = trail new_machine ops"
  have "events (fold health_step ops new_machine) = fold push_event tr []"
    using run_events [OF wf_new_machine] by (simp add: tr_def new_machine_def)
  then have e: "events (fold health_step ops new_machine) = drop (length tr - 512) tr"
    by (simp add: event_ring.run_newest event_ring_size_def)
  show ?thesis
    using assms by (auto simp: recent_events_def e rev_drop min_def simp flip: tr_def)
qed

end
