(* ===== verification/Classify.thy ===== *)
theory Classify
  imports Health GoJson
begin

text \<open>
  The error classifier of the model router (internal/health/classify.go): the verdict on a failed
  provider response and the limits its body and headers disclose. JSON bodies are read by the
  decoder of \<open>GoJson\<close>; the two regular expressions are matchers that look for the leftmost match.
\<close>

section \<open>Verdicts\<close>

datatype class_kind = Retryable | KeyFatal | ModelFatal | OverloadQuota | RateLimitHit | UnknownRateLimit

record verdict =
  v_kind :: class_kind
  v_details :: string

record ceiling_hint =
  h_dim :: string
  h_val :: rat

text \<open>
  \<open>http.Header\<close> maps canonical names to lists of values; a nil map is None. \<open>Get\<close> reads the first value.
\<close>

type_synonym headers = "(string \<Rightarrow> string list option) option"

definition header_get :: "headers \<Rightarrow> string \<Rightarrow> string" where
  "header_get h name = (case h of None \<Rightarrow> [] | Some f \<Rightarrow>
    (case f name of Some (v # vs) \<Rightarrow> v | _ \<Rightarrow> []))"

section \<open>Constants\<close>

definition zai1113 :: string where "zai1113 = ''1113''"
definition zai1308 :: string where "zai1308 = ''1308''"
definition zai1310 :: string where "zai1310 = ''1310''"

definition gzip_magic :: string where
  "gzip_magic = bytes [31, 139]"

definition quota_keywords :: "string list" where
  "quota_keywords = [''quota'', bytes [233, 133, 141, 233, 162, 157]]"

definition lying_quota_providers :: "string \<Rightarrow> bool" where
  "lying_quota_providers p \<longleftrightarrow> p = ''agentrouter''"

section \<open>Matchers for the two regular expressions\<close>

definition strip_lit :: "string \<Rightarrow> string \<Rightarrow> string option" where
  "strip_lit p s = (if prefix p s then Some (drop (length p) s) else None)"

definition take_digits :: "string \<Rightarrow> (string \<times> string) option" where
  "take_digits s = (let d = takeWhile is_digit s in if d = [] then None else Some (d, dropWhile is_digit s))"

definition groq_here :: "string \<Rightarrow> string option" where
  "groq_here s =
    Option.bind (strip_lit ''Limit '' s) (\<lambda>s1.
    Option.bind (take_digits s1) (\<lambda>(lim, s2).
    Option.bind (strip_lit '', Used '' s2) (\<lambda>s3.
    Option.bind (take_digits s3) (\<lambda>(used, s4).
    Option.bind (strip_lit '', Requested '' s4) (\<lambda>s5.
    Option.bind (take_digits (trim_prefix ''~'' s5)) (\<lambda>_. Some lim))))))"

fun leftmost :: "(string \<Rightarrow> 'a option) \<Rightarrow> string \<Rightarrow> 'a option" where
  "leftmost f [] = f []"
| "leftmost f (c # cs) = (case f (c # cs) of Some r \<Rightarrow> Some r | None \<Rightarrow> leftmost f cs)"

definition groq_limit :: "string \<Rightarrow> string option" where
  "groq_limit body = leftmost groq_here body"

text \<open>A timestamp 2006-01-02T15:04:05 with a numeric zone, as the expression and RFC 3339 spell it.\<close>

definition digits_at :: "string \<Rightarrow> nat \<Rightarrow> nat \<Rightarrow> bool" where
  "digits_at s i n \<longleftrightarrow> list_all is_digit (take n (drop i s))"

definition num_at :: "string \<Rightarrow> nat \<Rightarrow> nat \<Rightarrow> int" where
  "num_at s i n = int (digits_val (take n (drop i s)))"

definition stamp_shape :: "string \<Rightarrow> bool" where
  "stamp_shape s \<longleftrightarrow> length s = 25 \<and> digits_at s 0 4 \<and> s ! 4 = CHR ''-'' \<and> digits_at s 5 2 \<and>
    s ! 7 = CHR ''-'' \<and> digits_at s 8 2 \<and> s ! 10 = CHR ''T'' \<and> digits_at s 11 2 \<and>
    s ! 13 = CHR '':'' \<and> digits_at s 14 2 \<and> s ! 16 = CHR '':'' \<and> digits_at s 17 2 \<and>
    (s ! 19 = CHR ''+'' \<or> s ! 19 = CHR ''-'') \<and> digits_at s 20 2 \<and> s ! 22 = CHR '':'' \<and> digits_at s 23 2"

definition zai_reset_here :: "string \<Rightarrow> string option" where
  "zai_reset_here s = Option.bind (strip_lit ''reset at '' s)
    (\<lambda>r. if stamp_shape (take 25 r) then Some (take 25 r) else None)"

definition zai_reset :: "string \<Rightarrow> string option" where
  "zai_reset body = leftmost zai_reset_here body"

definition days_in_month :: "int \<Rightarrow> int \<Rightarrow> int" where
  "days_in_month y m =
    (if m = 2 then (if y mod 4 = 0 \<and> (y mod 100 \<noteq> 0 \<or> y mod 400 = 0) then 29 else 28)
     else if m \<in> {4, 6, 9, 11} then 30 else 31)"

text \<open>\<open>time.Parse(time.RFC3339, s).Unix()\<close> on a string of that shape.\<close>

definition parse_rfc3339 :: "string \<Rightarrow> int option" where
  "parse_rfc3339 s =
    (let y = num_at s 0 4; mo = num_at s 5 2; d = num_at s 8 2;
         h = num_at s 11 2; mi = num_at s 14 2; sec = num_at s 17 2;
         zh = num_at s 20 2; zm = num_at s 23 2;
         off = (if s ! 19 = CHR ''-'' then - 1 else 1) * (zh * 3600 + zm * 60)
     in if \<not> (1 \<le> mo \<and> mo \<le> 12 \<and> 1 \<le> d \<and> d \<le> days_in_month y mo \<and>
              h < 24 \<and> mi < 60 \<and> sec < 60 \<and> zh \<le> 24 \<and> zm \<le> 60) then None
        else Some (days_of_civil (y, mo, d) * 86400 + h * 3600 + mi * 60 + sec - off))"

section \<open>Error envelopes\<close>

definition decode_members ::
  "(string \<Rightarrow> json \<Rightarrow> 'a \<Rightarrow> 'a \<times> bool) \<Rightarrow> json \<Rightarrow> 'a \<Rightarrow> 'a \<times> bool" where
  "decode_members f v a = (case v of JNull \<Rightarrow> (a, True)
    | JObj kvs \<Rightarrow> fold (\<lambda>(k, u) (b, ok). case f k u b of (b1, ok1) \<Rightarrow> (b1, ok \<and> ok1)) kvs (a, True)
    | _ \<Rightarrow> (a, False))"

text \<open>A field of type \<open>any\<close>: None is the nil interface.\<close>

definition decode_any :: "json \<Rightarrow> json option" where
  "decode_any v = (case v of JNull \<Rightarrow> None | _ \<Rightarrow> Some v)"

record error_body =
  eb_err_code :: "json option"
  eb_err_message :: string
  eb_err_type :: string
  eb_code :: "json option"
  eb_message :: string

definition zero_error_body :: error_body where
  "zero_error_body = \<lparr>eb_err_code = None, eb_err_message = [], eb_err_type = [], eb_code = None, eb_message = []\<rparr>"

definition error_body_inner :: "string \<Rightarrow> json \<Rightarrow> error_body \<Rightarrow> error_body \<times> bool" where
  "error_body_inner k v eb =
    (if key_is ''code'' k then (eb\<lparr>eb_err_code := decode_any v\<rparr>, True)
     else if key_is ''message'' k then
       (case decode_string v (eb_err_message eb) of (s, ok) \<Rightarrow> (eb\<lparr>eb_err_message := s\<rparr>, ok))
     else if key_is ''type'' k then
       (case decode_string v (eb_err_type eb) of (s, ok) \<Rightarrow> (eb\<lparr>eb_err_type := s\<rparr>, ok))
     else (eb, True))"

definition error_body_field :: "string \<Rightarrow> json \<Rightarrow> error_body \<Rightarrow> error_body \<times> bool" where
  "error_body_field k v eb =
    (if key_is ''error'' k then decode_members error_body_inner v eb
     else if key_is ''code'' k then (eb\<lparr>eb_code := decode_any v\<rparr>, True)
     else if key_is ''message'' k then
       (case decode_string v (eb_message eb) of (s, ok) \<Rightarrow> (eb\<lparr>eb_message := s\<rparr>, ok))
     else (eb, True))"

definition unmarshal_error_body :: "string \<Rightarrow> error_body \<times> bool" where
  "unmarshal_error_body body = (case json_value body of None \<Rightarrow> (zero_error_body, False)
    | Some v \<Rightarrow> decode_members error_body_field v zero_error_body)"

record gemini_detail =
  gd_type :: string
  gd_retry_delay :: string
  gd_quota_metric :: string
  gd_quota_id :: string
  gd_quota_value :: string

record gemini_error =
  ge_status :: string
  ge_message :: string
  ge_details :: "gemini_detail list"

definition zero_detail :: gemini_detail where
  "zero_detail = \<lparr>gd_type = [], gd_retry_delay = [], gd_quota_metric = [], gd_quota_id = [], gd_quota_value = []\<rparr>"

definition zero_gemini :: gemini_error where
  "zero_gemini = \<lparr>ge_status = [], ge_message = [], ge_details = []\<rparr>"

definition detail_field :: "string \<Rightarrow> json \<Rightarrow> gemini_detail \<Rightarrow> gemini_detail \<times> bool" where
  "detail_field k v d =
    (if key_is ''@type'' k then (case decode_string v (gd_type d) of (s, ok) \<Rightarrow> (d\<lparr>gd_type := s\<rparr>, ok))
     else if key_is ''retryDelay'' k then
       (case decode_string v (gd_retry_delay d) of (s, ok) \<Rightarrow> (d\<lparr>gd_retry_delay := s\<rparr>, ok))
     else if key_is ''quotaMetric'' k then
       (case decode_string v (gd_quota_metric d) of (s, ok) \<Rightarrow> (d\<lparr>gd_quota_metric := s\<rparr>, ok))
     else if key_is ''quotaId'' k then
       (case decode_string v (gd_quota_id d) of (s, ok) \<Rightarrow> (d\<lparr>gd_quota_id := s\<rparr>, ok))
     else if key_is ''quotaValue'' k then
       (case decode_string v (gd_quota_value d) of (s, ok) \<Rightarrow> (d\<lparr>gd_quota_value := s\<rparr>, ok))
     else (d, True))"

definition decode_details :: "json \<Rightarrow> gemini_detail list \<times> bool" where
  "decode_details v = (case v of JNull \<Rightarrow> ([], True)
    | JArr us \<Rightarrow> (let rs = map (\<lambda>u. decode_members detail_field u zero_detail) us
        in (map fst rs, list_all snd rs))
    | _ \<Rightarrow> ([], False))"

definition gemini_inner :: "string \<Rightarrow> json \<Rightarrow> gemini_error \<Rightarrow> gemini_error \<times> bool" where
  "gemini_inner k v ge =
    (if key_is ''status'' k then (case decode_string v (ge_status ge) of (s, ok) \<Rightarrow> (ge\<lparr>ge_status := s\<rparr>, ok))
     else if key_is ''message'' k then
       (case decode_string v (ge_message ge) of (s, ok) \<Rightarrow> (ge\<lparr>ge_message := s\<rparr>, ok))
     else if key_is ''details'' k then
       (case decode_details v of (ds, ok) \<Rightarrow> (ge\<lparr>ge_details := ds\<rparr>, ok))
     else (ge, True))"

definition gemini_field :: "string \<Rightarrow> json \<Rightarrow> gemini_error \<Rightarrow> gemini_error \<times> bool" where
  "gemini_field k v ge = (if key_is ''error'' k then decode_members gemini_inner v ge else (ge, True))"

definition unmarshal_gemini :: "string \<Rightarrow> gemini_error \<times> bool" where
  "unmarshal_gemini body = (case json_value body of None \<Rightarrow> (zero_gemini, False)
    | Some v \<Rightarrow> decode_members gemini_field v zero_gemini)"

section \<open>Helpers\<close>

fun code_string :: "json option list \<Rightarrow> string" where
  "code_string [] = []"
| "code_string (v # vs) = (case v of Some (JStr s) \<Rightarrow> s | Some (JNum r) \<Rightarrow> format_float r
    | _ \<Rightarrow> code_string vs)"

fun bytes_equal_from :: "string \<Rightarrow> string \<Rightarrow> bool" where
  "bytes_equal_from (a # as) (b # bs) = (if a \<noteq> b then False else bytes_equal_from as bs)"
| "bytes_equal_from _ _ = True"

definition bytes_equal :: "string \<Rightarrow> string \<Rightarrow> bool" where
  "bytes_equal a b = (if length a \<noteq> length b then False else bytes_equal_from a b)"

definition header_float :: "headers \<Rightarrow> string \<Rightarrow> rat" where
  "header_float h name =
    (let v = trim_space (header_get h name) in
     if v = [] then 0 else (case parse_float v of None \<Rightarrow> 0 | Some f \<Rightarrow> f))"

section \<open>Dispatch\<close>

definition dispatch429 :: "string \<Rightarrow> string \<Rightarrow> string \<Rightarrow> verdict" where
  "dispatch429 pid body low =
    (let eb = fst (unmarshal_error_body body);
         c = code_string [eb_err_code eb, eb_code eb];
         zai = (if pid = ''zai'' \<or> c = zai1113 \<or> c = zai1308 \<or> c = zai1310 then
                  (if c = zai1113 then Some \<lparr>v_kind = KeyFatal, v_details =
                     ''zai 1113: billing rejection '' @ billing_marker @ '' '' @ em_dash @
                     '' no free quota on this route, never retry''\<rparr>
                   else if c = zai1308 \<or> c = zai1310 then Some \<lparr>v_kind = OverloadQuota, v_details =
                     ''zai usage limit with stated reset (next_flush_time)''\<rparr>
                   else None)
                else None)
     in case zai of Some v \<Rightarrow> v | None \<Rightarrow>
       if groq_limit body \<noteq> None then
         \<lparr>v_kind = RateLimitHit, v_details = ''groq-style limit disclosure in body''\<rparr>
       else (case unmarshal_gemini body of (ge, ok) \<Rightarrow>
         if ok \<and> ge_status ge = ''RESOURCE_EXHAUSTED'' then
           \<lparr>v_kind = OverloadQuota, v_details = ''gemini quotaValue envelope''\<rparr>
         else if sublist ''overloaded'' low then
           \<lparr>v_kind = Retryable, v_details = ''capacity overload '' @ em_dash @
              '' fail over to another endpoint''\<rparr>
         else \<lparr>v_kind = UnknownRateLimit,
                v_details = ''unrecognised 429 dialect treated conservatively''\<rparr>))"

definition is_gzip :: "string \<Rightarrow> bool" where
  "is_gzip body \<longleftrightarrow> 2 \<le> length body \<and> bytes_equal (take 2 body) gzip_magic"

definition dispatch :: "string \<Rightarrow> int \<Rightarrow> string \<Rightarrow> headers \<Rightarrow> verdict" where
  "dispatch pid status body headers =
    (if is_gzip body then
       \<lparr>v_kind = UnknownRateLimit, v_details = ''opaque gzipped error body captured for inspection''\<rparr>
     else
       let low = to_lower body in
       if status = 429 then dispatch429 pid body low
       else if status = 401 then \<lparr>v_kind = KeyFatal, v_details = ''authentication rejected''\<rparr>
       else if status = 403 then
         (if lying_quota_providers pid \<and> contains_any low quota_keywords then
            \<lparr>v_kind = OverloadQuota, v_details = ''lying 403: quota exhausted reported as forbidden''\<rparr>
          else if contains_any low quota_keywords then
            \<lparr>v_kind = OverloadQuota, v_details = ''lying 403: quota exhausted reported as forbidden''\<rparr>
          else \<lparr>v_kind = KeyFatal, v_details = ''forbidden''\<rparr>)
       else if status = 404 then \<lparr>v_kind = ModelFatal,
         v_details = ''model not found '' @ em_dash @ '' retire the mapping''\<rparr>
       else if status = 408 then \<lparr>v_kind = Retryable, v_details = ''request timeout''\<rparr>
       else if status = 413 then \<lparr>v_kind = Retryable,
         v_details = ''payload too large: reduce request size or split''\<rparr>
       else if 500 \<le> status then \<lparr>v_kind = Retryable, v_details = ''upstream server error''\<rparr>
       else \<lparr>v_kind = UnknownRateLimit, v_details = ''unclassified status '' @ itoa status\<rparr>)"

section \<open>Learnable limits\<close>

definition header_hints :: "headers \<Rightarrow> ceiling_hint list" where
  "header_hints h =
    (if h = None then [] else
      (let v = header_float h ''X-Ratelimit-Limit-Requests'' in
         if 0 < v then [\<lparr>h_dim = ''rpd'', h_val = v\<rparr>] else []) @
      (let v = header_float h ''X-Ratelimit-Limit-Tokens'' in
         if 0 < v then [\<lparr>h_dim = ''tpm'', h_val = v\<rparr>] else []))"

definition groq_hints :: "string \<Rightarrow> ceiling_hint list" where
  "groq_hints body = (case groq_limit body of None \<Rightarrow> []
    | Some m \<Rightarrow> (case parse_float m of None \<Rightarrow> []
      | Some v \<Rightarrow>
        let dim = (if sublist ''per day'' body \<or> sublist ''RPD'' body then ''rpd''
          else if sublist ''requests per minute'' body \<or> sublist ''RPM'' body then ''rpm'' else ''tpm'')
        in [\<lparr>h_dim = dim, h_val = v\<rparr>]))"

definition detail_hints :: "gemini_detail \<Rightarrow> ceiling_hint list" where
  "detail_hints d =
    (if gd_quota_value d \<noteq> [] then
      (case parse_float (gd_quota_value d) of None \<Rightarrow> []
       | Some v \<Rightarrow> [\<lparr>h_dim = (if sublist ''token'' (to_lower (gd_quota_metric d)) then ''tpd'' else ''rpd''),
                    h_val = v\<rparr>])
     else [])"

definition gemini_hints :: "string \<Rightarrow> ceiling_hint list" where
  "gemini_hints body = (case unmarshal_gemini body of (ge, ok) \<Rightarrow>
    if ok then concat (map detail_hints (ge_details ge)) else [])"

definition zai_hints :: "string \<Rightarrow> ceiling_hint list" where
  "zai_hints body = (case zai_reset body of None \<Rightarrow> []
    | Some s \<Rightarrow> (case parse_rfc3339 s of None \<Rightarrow> []
      | Some t \<Rightarrow> [\<lparr>h_dim = ''reset_at'', h_val = of_int t\<rparr>]))"

definition parse_ceilings :: "string \<Rightarrow> string \<Rightarrow> headers \<Rightarrow> ceiling_hint list" where
  "parse_ceilings pid body headers =
    (let out = header_hints headers in
     if length body < 2 \<or> bytes_equal (take 2 body) gzip_magic then out
     else out @ groq_hints body @ gemini_hints body @ zai_hints body)"

end
