(* ===== verification/Ledger.thy ===== *)
theory Ledger
  imports Classify
begin

text \<open>
  The quota ledger of the model router (internal/ledger/ledger.go). Amounts are exact rationals,
  the Go program uses float64. A ceilings map and a cost map are ranged over, so they are
  association lists; spent amounts are only read and written by key. The clock is read at most
  twice in an operation, under one lock, and both readings are the instant \<open>t\<close> the operation
  takes; the zone database gives the Pacific offset \<open>off\<close> at an instant.
\<close>

section \<open>State\<close>

datatype window_kind =
    RollingHeaders
  | FixedPacificMidnight
  | UTCMidnightShared
  | ContinuousBucket
  | Session5h7d
  | CreditExpiry

definition dim_rpm :: string where "dim_rpm = ''rpm''"
definition dim_rpd :: string where "dim_rpd = ''rpd''"
definition dim_tpm :: string where "dim_tpm = ''tpm''"
definition dim_tpd :: string where "dim_tpd = ''tpd''"
definition dim_neurons_day :: string where "dim_neurons_day = ''neurons_day''"
definition dim_credits_month :: string where "dim_credits_month = ''credits_month''"
definition dim_concurrency :: string where "dim_concurrency = ''concurrency''"

lemmas dim_defs = dim_rpm_def dim_rpd_def dim_tpm_def dim_tpd_def dim_neurons_day_def
  dim_credits_month_def dim_concurrency_def

type_synonym amounts = "(string \<times> rat) list"

record lease =
  le_scope :: scope
  le_dims :: amounts
  le_created :: instant

text \<open>
  \<open>spent\<close> distinguishes the nil inner map (None) from an allocated one, whose absent keys read 0;
  an unset window start is the zero time and an unset kind the first one.
\<close>

record ledger =
  ceilings :: "scope \<Rightarrow> amounts"
  spent :: "scope \<Rightarrow> (string \<Rightarrow> rat) option"
  window_start :: "scope \<Rightarrow> instant"
  kinds :: "scope \<Rightarrow> window_kind"

definition new_ledger :: ledger where
  "new_ledger = \<lparr>ceilings = (\<lambda>_. []), spent = (\<lambda>_. None), window_start = (\<lambda>_. zero_time),
     kinds = (\<lambda>_. RollingHeaders)\<rparr>"

definition ceiling_of :: "ledger \<Rightarrow> scope \<Rightarrow> string \<Rightarrow> rat" where
  "ceiling_of l sc d = mget 0 (map_of (ceilings l sc)) d"

definition spent_of :: "ledger \<Rightarrow> scope \<Rightarrow> string \<Rightarrow> rat" where
  "spent_of l sc d = (case spent l sc of None \<Rightarrow> 0 | Some f \<Rightarrow> f d)"

section \<open>Windows\<close>

definition restart_window :: "instant \<Rightarrow> scope \<Rightarrow> ledger \<Rightarrow> ledger" where
  "restart_window t sc l = l\<lparr>spent := (spent l)(sc := Some (\<lambda>_. 0)),
     window_start := (window_start l)(sc := t)\<rparr>"

definition window_over :: "(instant \<Rightarrow> duration) \<Rightarrow> instant \<Rightarrow> window_kind \<Rightarrow> instant \<Rightarrow> bool" where
  "window_over off t kind start = (case kind of
      FixedPacificMidnight \<Rightarrow> civil_day (date_in off t) \<noteq> civil_day (date_in off start)
    | UTCMidnightShared \<Rightarrow> civil_day (utc_date t) \<noteq> civil_day (utc_date start)
    | Session5h7d \<Rightarrow> \<not> t < start + 5 * hour
    | RollingHeaders \<Rightarrow> \<not> t < truncate_time minute start + minute
    | ContinuousBucket \<Rightarrow> \<not> t < truncate_time minute start + minute
    | CreditExpiry \<Rightarrow> \<not> t < start + 24 * hour)"

definition roll_window :: "(instant \<Rightarrow> duration) \<Rightarrow> instant \<Rightarrow> scope \<Rightarrow> ledger \<Rightarrow> ledger" where
  "roll_window off t sc l =
    (let start = window_start l sc in
     if start = zero_time then l\<lparr>window_start := (window_start l)(sc := t)\<rparr>
     else if window_over off t (kinds l sc) start then restart_window t sc l
     else l)"

section \<open>Configuration\<close>

definition fill_cap :: "string \<times> rat \<Rightarrow> amounts \<Rightarrow> amounts" where
  "fill_cap dv caps = (case dv of (d, val) \<Rightarrow>
     if (case map_of caps d of None \<Rightarrow> True | Some existing \<Rightarrow> existing = 0)
     then AList.update d val caps else caps)"

definition configure_scope :: "instant \<Rightarrow> scope \<Rightarrow> window_kind \<Rightarrow> amounts \<Rightarrow> ledger \<Rightarrow> ledger" where
  "configure_scope t sc kind caps l =
    (let l1 = (if window_start l sc = zero_time then l\<lparr>window_start := (window_start l)(sc := t)\<rparr> else l)
     in l1\<lparr>kinds := (kinds l1)(sc := kind),
           ceilings := (ceilings l1)(sc := fold fill_cap caps (ceilings l1 sc))\<rparr>)"

section \<open>Reservations\<close>

text \<open>The first dimension of the cost, in iteration order, that has no room left.\<close>

fun first_over :: "ledger \<Rightarrow> scope \<Rightarrow> amounts \<Rightarrow> string option" where
  "first_over l sc [] = None"
| "first_over l sc ((d, units) # rest) =
    (if units \<le> 0 then first_over l sc rest
     else if ceiling_of l sc d = 0 then first_over l sc rest
     else if ceiling_of l sc d < spent_of l sc d + units then Some d
     else first_over l sc rest)"

definition add_units :: "string \<times> rat \<Rightarrow> (string \<Rightarrow> rat) \<Rightarrow> string \<Rightarrow> rat" where
  "add_units du f = (case du of (d, units) \<Rightarrow> f(d := f d + units))"

definition reserve ::
  "(instant \<Rightarrow> duration) \<Rightarrow> instant \<Rightarrow> scope \<Rightarrow> amounts \<Rightarrow> ledger \<Rightarrow> (string + lease) \<times> ledger" where
  "reserve off t sc cost l =
    (let l1 = roll_window off t sc l in
     case first_over l1 sc cost of Some d \<Rightarrow> (Inl d, l1)
     | None \<Rightarrow>
        let f = (case spent l1 sc of None \<Rightarrow> (\<lambda>_. 0) | Some f \<Rightarrow> f)
        in (Inr \<lparr>le_scope = sc, le_dims = cost, le_created = t\<rparr>,
            l1\<lparr>spent := (spent l1)(sc := Some (fold add_units cost f))\<rparr>))"

definition commit_lease :: "lease option \<Rightarrow> ledger \<Rightarrow> ledger" where
  "commit_lease le l = l"

definition sub_units :: "string \<times> rat \<Rightarrow> (string \<Rightarrow> rat) \<Rightarrow> string \<Rightarrow> rat" where
  "sub_units du f = (case du of (d, units) \<Rightarrow>
     if f d - units < 0 then f(d := 0) else f(d := f d - units))"

definition release_lease :: "lease option \<Rightarrow> ledger \<Rightarrow> ledger" where
  "release_lease le l = (case le of None \<Rightarrow> l | Some lease \<Rightarrow>
     (case spent l (le_scope lease) of None \<Rightarrow> l
      | Some f \<Rightarrow> l\<lparr>spent := (spent l)(le_scope lease := Some (fold sub_units (le_dims lease) f))\<rparr>))"

section \<open>Learning\<close>

definition learn_hint :: "instant \<Rightarrow> scope \<Rightarrow> ceiling_hint \<Rightarrow> ledger \<Rightarrow> ledger" where
  "learn_hint t sc h l =
    (if h_dim h = ''reset_at'' then restart_window t sc l
     else if (case map_of (ceilings l sc) (h_dim h) of None \<Rightarrow> True
              | Some existing \<Rightarrow> existing = 0 \<or> h_val h < existing)
     then l\<lparr>ceilings := (ceilings l)(sc := AList.update (h_dim h) (h_val h) (ceilings l sc))\<rparr>
     else l)"

definition learn_from_response :: "instant \<Rightarrow> scope \<Rightarrow> ceiling_hint list \<Rightarrow> ledger \<Rightarrow> ledger" where
  "learn_from_response t sc hs l = fold (learn_hint t sc) hs l"

section \<open>Questions\<close>

text \<open>
  \<open>time.Date\<close> in a zone: the offset looked up at the wall time read as UTC gives a first guess of
  the instant, and the offset in force there is the one used.
\<close>

definition local_midnight :: "(instant \<Rightarrow> duration) \<Rightarrow> civil \<Rightarrow> instant" where
  "local_midnight off ymd = (let wall = days_of_civil ymd * day in wall - off (wall - off wall))"

definition next_reset ::
  "(instant \<Rightarrow> duration) \<Rightarrow> instant \<Rightarrow> scope \<Rightarrow> ledger \<Rightarrow> (instant \<times> window_kind) \<times> ledger" where
  "next_reset off t sc l =
    (let l1 = roll_window off t sc l; kind = kinds l1 sc in
     ((case kind of
         FixedPacificMidnight \<Rightarrow> (case date_in off t of (y, m, dd) \<Rightarrow> local_midnight off (y, m, dd + 1))
       | UTCMidnightShared \<Rightarrow> (case utc_date t of (y, m, dd) \<Rightarrow> days_of_civil (y, m, dd + 1) * day)
       | Session5h7d \<Rightarrow>
           (let start = (if window_start l1 sc = zero_time then t else window_start l1 sc)
            in start + 5 * hour)
       | _ \<Rightarrow> truncate_time minute t + minute, kind), l1))"

definition worst_step :: "ledger \<Rightarrow> scope \<Rightarrow> string \<times> rat \<Rightarrow> rat \<times> bool \<Rightarrow> rat \<times> bool" where
  "worst_step l sc dc acc = (case dc of (d, cap) \<Rightarrow> case acc of (worst, seen) \<Rightarrow>
     if cap \<le> 0 then (worst, seen)
     else let frac = (cap - spent_of l sc d) / cap
          in (if frac < worst then frac else worst, True))"

definition headroom_ratio :: "(instant \<Rightarrow> duration) \<Rightarrow> instant \<Rightarrow> ledger \<Rightarrow> scope \<Rightarrow> rat \<times> ledger" where
  "headroom_ratio off t l sc =
    (let l1 = roll_window off t sc l in
     case fold (worst_step l1 sc) (ceilings l1 sc) (1, False) of (worst, seen) \<Rightarrow>
       (if \<not> seen then 1 else worst, l1))"

end
