(* ===== verification/LedgerSpec.thy ===== *)
theory LedgerSpec
  imports Ledger
begin

text \<open>
  What the quota ledger promises: a reservation is granted exactly when every capped dimension has
  room, the spent amounts are those of the leases handed out, learning keeps the tightest limit,
  daily windows roll at midnight and the next reset lies ahead.
\<close>

section \<open>Rolling a window\<close>

lemma roll_window_other [simp]:
  "sc' \<noteq> sc \<Longrightarrow> spent (roll_window off t sc l) sc' = spent l sc'"
  "sc' \<noteq> sc \<Longrightarrow> window_start (roll_window off t sc l) sc' = window_start l sc'"
  "ceilings (roll_window off t sc l) = ceilings l"
  "kinds (roll_window off t sc l) = kinds l"
  by (simp_all add: roll_window_def restart_window_def Let_def)

lemma ceiling_of_roll [simp]: "ceiling_of (roll_window off t sc l) = ceiling_of l"
  by (simp add: ceiling_of_def fun_eq_iff)

lemma window_over_now: "\<not> window_over off t kind t"
proof -
  have "t < truncate_time minute t + minute"
    by (rule truncate_time_next) (simp add: duration_defs)
  then show ?thesis by (cases kind) (simp_all add: window_over_def duration_defs)
qed

lemma roll_window_idem [simp]: "roll_window off t sc (roll_window off t sc l) = roll_window off t sc l"
  by (simp add: roll_window_def restart_window_def Let_def window_over_now)

lemma roll_window_commute:
  "roll_window off t sc (roll_window off t sc' l) = roll_window off t sc' (roll_window off t sc l)"
  by (cases "sc = sc'") (auto simp: roll_window_def restart_window_def Let_def fun_upd_twist)

lemma spent_of_roll:
  "spent_of (roll_window off t sc l) sc' d =
    (if sc' = sc \<and> window_start l sc \<noteq> zero_time \<and> window_over off t (kinds l sc) (window_start l sc)
     then 0 else spent_of l sc' d)"
  by (simp add: roll_window_def restart_window_def spent_of_def Let_def)

lemma window_start_roll:
  "window_start (roll_window off t sc l) sc = (if window_start l sc = zero_time \<or>
     window_over off t (kinds l sc) (window_start l sc) then t else window_start l sc)"
  by (simp add: roll_window_def restart_window_def Let_def)

section \<open>Reservations\<close>

lemma first_over_None:
  "first_over l sc cost = None \<longleftrightarrow>
    (\<forall>(d, u) \<in> set cost. 0 < u \<longrightarrow> ceiling_of l sc d \<noteq> 0 \<longrightarrow> spent_of l sc d + u \<le> ceiling_of l sc d)"
  by (induction l sc cost rule: first_over.induct) (auto simp: not_less not_le)

lemma first_over_Some:
  "first_over l sc cost = Some d \<Longrightarrow>
    \<exists>u. (d, u) \<in> set cost \<and> 0 < u \<and> ceiling_of l sc d \<noteq> 0 \<and> ceiling_of l sc d < spent_of l sc d + u"
  by (induction l sc cost rule: first_over.induct) (auto split: if_splits)

text \<open>What a cost asks for in a dimension.\<close>

definition units_in :: "amounts \<Rightarrow> string \<Rightarrow> rat" where
  "units_in cost d = mget 0 (map_of cost) d"

lemma units_in_Cons [simp]: "units_in ((d', u) # cost) d = (if d = d' then u else units_in cost d)"
  by (simp add: units_in_def mget_def)

lemma units_in_Nil [simp]: "units_in [] d = 0"
  by (simp add: units_in_def)

lemma units_in_absent: "d \<notin> set (map fst cost) \<Longrightarrow> units_in cost d = 0"
  by (induction cost) auto

lemma units_in_mem: "distinct (map fst cost) \<Longrightarrow> (d, u) \<in> set cost \<Longrightarrow> units_in cost d = u"
  by (simp add: units_in_def)

lemma add_units_apply: "add_units (d', u) f d = (if d = d' then f d + u else f d)"
  by (simp add: add_units_def)

lemma sub_units_apply: "sub_units (d', u) f d = (if d = d' then max 0 (f d - u) else f d)"
  by (simp add: sub_units_def)

lemma fold_add_units:
  "distinct (map fst cost) \<Longrightarrow> fold add_units cost f d = f d + units_in cost d"
  by (induction cost arbitrary: f) (auto simp: add_units_apply units_in_absent image_iff)

lemma fold_sub_units:
  "distinct (map fst cost) \<Longrightarrow> (\<And>d. 0 \<le> f d) \<Longrightarrow> fold sub_units cost f d =
    (if d \<in> set (map fst cost) then max 0 (f d - units_in cost d) else f d)"
proof (induction cost arbitrary: f)
  case (Cons du cost)
  obtain d' u where du: "du = (d', u)" by (cases du)
  have "\<And>d. 0 \<le> sub_units du f d" using Cons.prems(2) by (simp add: sub_units_apply du)
  then have "fold sub_units cost (sub_units du f) d =
    (if d \<in> set (map fst cost) then max 0 (sub_units du f d - units_in cost d) else sub_units du f d)"
    using Cons by simp
  then show ?case using Cons.prems(1) by (auto simp: du sub_units_apply image_iff)
qed simp

lemma spent_of_reserve:
  assumes "distinct (map fst cost)" "reserve off t sc cost l = (Inr le, l1)"
  shows "spent_of l1 sc' d = spent_of (roll_window off t sc l) sc' d + (if sc' = sc then units_in cost d else 0)"
  using assms(2) fold_add_units [OF assms(1)]
  by (auto simp: reserve_def Let_def spent_of_def split: option.splits)

text \<open>
  C4: Reserve grants a lease exactly when every capped dimension has room for the cost after the window
  is rolled; a refusal names a dimension without room and takes nothing, a grant takes exactly the cost.
\<close>

theorem reserve_grants_iff_room:
  assumes "distinct (map fst cost)" "reserve off t sc cost l = (answer, l1)"
  shows "((\<exists>le. answer = Inr le) \<longleftrightarrow>
      (\<forall>d. 0 < units_in cost d \<longrightarrow> ceiling_of l sc d \<noteq> 0 \<longrightarrow>
        spent_of (roll_window off t sc l) sc d + units_in cost d \<le> ceiling_of l sc d)) \<and>
    (case answer of
      Inl d \<Rightarrow> l1 = roll_window off t sc l \<and> 0 < units_in cost d \<and> ceiling_of l sc d \<noteq> 0 \<and>
        ceiling_of l sc d < spent_of l1 sc d + units_in cost d
    | Inr le \<Rightarrow> le = \<lparr>le_scope = sc, le_dims = cost, le_created = t\<rparr> \<and> ceiling_of l1 = ceiling_of l \<and>
        (\<forall>sc' d. spent_of l1 sc' d = spent_of (roll_window off t sc l) sc' d +
          (if sc' = sc then units_in cost d else 0)))"
proof -
  let ?r = "roll_window off t sc l"
  have none: "first_over ?r sc cost = None \<longleftrightarrow> (\<forall>d. 0 < units_in cost d \<longrightarrow> ceiling_of l sc d \<noteq> 0 \<longrightarrow>
      spent_of ?r sc d + units_in cost d \<le> ceiling_of l sc d)"
    unfolding first_over_None ceiling_of_roll
    using assms(1) by (auto simp: units_in_def mget_def split: option.splits)
  show ?thesis
  proof (cases "first_over ?r sc cost")
    case None
    then have a: "answer = Inr \<lparr>le_scope = sc, le_dims = cost, le_created = t\<rparr>"
      and c: "ceiling_of l1 = ceiling_of l"
      using assms(2) by (auto simp: reserve_def Let_def ceiling_of_def fun_eq_iff split: option.splits)
    have "spent_of l1 sc' d = spent_of ?r sc' d + (if sc' = sc then units_in cost d else 0)" for sc' d
      using spent_of_reserve [OF assms(1)] assms(2) a by blast
    with None a c none show ?thesis by simp
  next
    case (Some d)
    then have a: "answer = Inl d" "l1 = ?r" using assms(2) by (auto simp: reserve_def Let_def)
    with first_over_Some [OF Some] none Some show ?thesis
      by (auto simp: units_in_mem [OF assms(1)])
  qed
qed

text \<open>A scope with ten requests a day of which nine are spent.\<close>

definition ledger_scope :: scope where
  "ledger_scope = \<lparr>sc_provider = ''openrouter'', sc_model = ''m'', sc_key = ''default''\<rparr>"

definition sample_ledger :: ledger where
  "sample_ledger = snd (reserve (\<lambda>_. 0) (unix_time 100) ledger_scope [(''rpd'', 9)]
     (configure_scope (unix_time 50) ledger_scope UTCMidnightShared [(''rpd'', 10)] new_ledger))"

lemma sample_ledger_simps:
  "spent sample_ledger ledger_scope = Some ((\<lambda>_. 0)(''rpd'' := 9))"
  "ceilings sample_ledger ledger_scope = [(''rpd'', 10)]"
  "kinds sample_ledger ledger_scope = UTCMidnightShared"
  "window_start sample_ledger ledger_scope = unix_time 50"
  by (simp_all add: sample_ledger_def reserve_def roll_window_def configure_scope_def new_ledger_def
      Let_def fill_cap_def zero_time_def unix_time_def duration_defs window_over_def utc_date_def
      utc_days_def ceiling_of_def spent_of_def add_units_def)

theorem reserve_grants_iff_room_witness:
  "distinct (map fst [(''rpd'', 2::rat)]) \<and>
   (\<exists>l1. reserve (\<lambda>_. 0) (unix_time 200) ledger_scope [(''rpd'', 2)] sample_ledger = (Inl ''rpd'', l1) \<and>
      ceiling_of sample_ledger ledger_scope ''rpd'' < spent_of l1 ledger_scope ''rpd'' + 2)"
proof -
  obtain l1 where r: "reserve (\<lambda>_. 0) (unix_time 200) ledger_scope [(''rpd'', 2)] sample_ledger =
      (Inl ''rpd'', l1)"
    by (simp add: reserve_def roll_window_def sample_ledger_simps Let_def zero_time_def unix_time_def
        duration_defs window_over_def utc_date_def utc_days_def ceiling_of_def spent_of_def)
  then have "ceiling_of sample_ledger ledger_scope ''rpd'' < spent_of l1 ledger_scope ''rpd'' + 2"
    using reserve_grants_iff_room [of "[(''rpd'', 2)]", OF _ r] by auto
  with r show ?thesis by auto
qed

section \<open>Leases account for what is spent\<close>

definition lease_units :: "scope \<Rightarrow> string \<Rightarrow> lease \<Rightarrow> rat" where
  "lease_units sc d le = (if le_scope le = sc then units_in (le_dims le) d else 0)"

definition owed :: "lease list \<Rightarrow> scope \<Rightarrow> string \<Rightarrow> rat" where
  "owed les sc d = sum_list (map (lease_units sc d) les)"

definition proper_cost :: "amounts \<Rightarrow> bool" where
  "proper_cost cost \<longleftrightarrow> distinct (map fst cost) \<and> list_all (\<lambda>(d, u). 0 \<le> u) cost"

text \<open>
  Traffic inside one window: leases are taken (or refused), given back and committed, in any order
  and on any scopes; the state carries the leases in flight and the committed ones.
\<close>

inductive traffic :: "(instant \<Rightarrow> duration) \<Rightarrow> ledger \<times> lease list \<times> lease list \<Rightarrow>
    ledger \<times> lease list \<times> lease list \<Rightarrow> bool" for off where
  take: "roll_window off t sc l = l \<Longrightarrow> proper_cost cost \<Longrightarrow> reserve off t sc cost l = (Inr le, l1) \<Longrightarrow>
    traffic off (l, out, kept) (l1, le # out, kept)"
| refuse: "roll_window off t sc l = l \<Longrightarrow> reserve off t sc cost l = (Inl d, l1) \<Longrightarrow>
    traffic off (l, out, kept) (l1, out, kept)"
| give_back: "le \<in> set out \<Longrightarrow>
    traffic off (l, out, kept) (release_lease (Some le) l, remove1 le out, kept)"
| keep: "le \<in> set out \<Longrightarrow>
    traffic off (l, out, kept) (commit_lease (Some le) l, remove1 le out, le # kept)"

inductive_cases traffic_E: "traffic off (l, out, kept) s"

lemma proper_units: "proper_cost cost \<Longrightarrow> 0 \<le> units_in cost d"
  by (auto simp: proper_cost_def list_all_iff units_in_def mget_def dest: map_of_SomeD split: option.splits)

lemma owed_Cons [simp]: "owed (le # les) sc d = lease_units sc d le + owed les sc d"
  by (simp add: owed_def)

lemma owed_Nil [simp]: "owed [] sc d = 0"
  by (simp add: owed_def)

lemma owed_remove1: "le \<in> set les \<Longrightarrow> owed (remove1 le les) sc d = owed les sc d - lease_units sc d le"
  by (simp add: owed_def sum_list_map_remove1 [of le les])

lemma owed_nonneg: "(\<And>le. le \<in> set les \<Longrightarrow> proper_cost (le_dims le)) \<Longrightarrow> 0 \<le> owed les sc d"
  by (induction les) (auto simp: lease_units_def intro!: add_nonneg_nonneg proper_units)

lemma spent_of_release:
  assumes "proper_cost (le_dims le)" "\<And>sc d. 0 \<le> spent_of l sc d"
    "lease_units sc d le \<le> spent_of l sc d"
  shows "spent_of (release_lease (Some le) l) sc d = spent_of l sc d - lease_units sc d le"
proof (cases "spent l (le_scope le)")
  case None
  with assms(3) proper_units [OF assms(1), of d] show ?thesis
    by (auto simp: release_lease_def spent_of_def lease_units_def split: if_splits)
next
  case (Some f)
  have f: "0 \<le> f d'" for d' using assms(2) [of "le_scope le" d'] Some by (simp add: spent_of_def)
  have "distinct (map fst (le_dims le))" using assms(1) by (simp add: proper_cost_def)
  from fold_sub_units [OF this, of f d] f
  have "fold sub_units (le_dims le) f d = (if d \<in> set (map fst (le_dims le))
      then max 0 (f d - units_in (le_dims le) d) else f d)" by simp
  with assms(3) Some units_in_absent [of d "le_dims le"] show ?thesis
    by (auto simp: release_lease_def spent_of_def lease_units_def)
qed

definition accounts :: "ledger \<Rightarrow> ledger \<times> lease list \<times> lease list \<Rightarrow> bool" where
  "accounts l0 s = (case s of (l, out, kept) \<Rightarrow>
     (\<forall>le\<in>set out. proper_cost (le_dims le)) \<and> (\<forall>le\<in>set kept. proper_cost (le_dims le)) \<and>
     ceiling_of l = ceiling_of l0 \<and>
     (\<forall>sc d. spent_of l sc d = spent_of l0 sc d + owed out sc d + owed kept sc d))"

lemma accounts_spent_nonneg:
  assumes "accounts l0 (l, out, kept)" "\<And>sc d. 0 \<le> spent_of l0 sc d"
  shows "0 \<le> spent_of l sc d \<and> owed out sc d \<le> spent_of l sc d"
proof -
  have "0 \<le> owed kept sc d" "0 \<le> owed out sc d"
    using assms(1) by (auto simp: accounts_def intro!: owed_nonneg)
  with assms show ?thesis by (auto simp: accounts_def)
qed

lemma member_owed:
  "le \<in> set les \<Longrightarrow> (\<And>x. x \<in> set les \<Longrightarrow> proper_cost (le_dims x)) \<Longrightarrow> lease_units sc d le \<le> owed les sc d"
  unfolding owed_def by (rule member_le_sum_map) (auto simp: lease_units_def intro: proper_units)

lemma ceiling_of_release [simp]: "ceiling_of (release_lease le l) = ceiling_of l"
  by (auto simp: release_lease_def ceiling_of_def fun_eq_iff split: option.splits)

lemma traffic_accounts:
  assumes "traffic off s s'" "accounts l0 s" "\<And>sc d. 0 \<le> spent_of l0 sc d"
  shows "accounts l0 s'"
  using assms(1,2)
proof (cases rule: traffic.cases)
  case (take t sc l cost le l1 out kept)
  have d: "distinct (map fst cost)" using take(4) by (simp add: proper_cost_def)
  have "le = \<lparr>le_scope = sc, le_dims = cost, le_created = t\<rparr> \<and> ceiling_of l1 = ceiling_of l \<and>
     (\<forall>sc' d. spent_of l1 sc' d = spent_of l sc' d + (if sc' = sc then units_in cost d else 0))"
    using spent_of_reserve [OF d take(5)] take(3,5)
    by (auto simp: reserve_def Let_def ceiling_of_def fun_eq_iff split: option.splits)
  with take assms(2) show ?thesis by (auto simp: accounts_def lease_units_def)
next
  case (refuse t sc l cost d l1 out kept)
  then have "l1 = l" by (auto simp: reserve_def Let_def split: option.splits)
  with refuse assms(2) show ?thesis by simp
next
  case (give_back le out l kept)
  have a: "accounts l0 (l, out, kept)" using give_back assms(2) by simp
  have p: "\<And>x. x \<in> set out \<Longrightarrow> proper_cost (le_dims x)" using a by (simp add: accounts_def)
  have "spent_of (release_lease (Some le) l) sc d = spent_of l sc d - lease_units sc d le" for sc d
  proof (rule spent_of_release)
    show "proper_cost (le_dims le)" by (rule p [OF give_back(3)])
    show "0 \<le> spent_of l sc' d'" for sc' d' using accounts_spent_nonneg [OF a assms(3)] by blast
    show "lease_units sc d le \<le> spent_of l sc d"
      using accounts_spent_nonneg [OF a assms(3), of sc d] member_owed [OF give_back(3) p, of sc d] by simp
  qed
  with a give_back show ?thesis
    by (auto simp: accounts_def owed_remove1 dest: notin_set_remove1)
next
  case (keep le out l kept)
  then show ?thesis using assms(2)
    by (auto simp: accounts_def commit_lease_def owed_remove1 dest: notin_set_remove1)
qed

lemma traffic_run_accounts:
  "(traffic off)\<^sup>*\<^sup>* (l0, [], []) s \<Longrightarrow> (\<And>sc d. 0 \<le> spent_of l0 sc d) \<Longrightarrow> accounts l0 s"
  by (induction rule: rtranclp_induct) (auto simp: accounts_def [of _ "(_, [], [])"] intro: traffic_accounts)

definition within_limits :: "ledger \<Rightarrow> bool" where
  "within_limits l \<longleftrightarrow> (\<forall>sc d. ceiling_of l sc d \<noteq> 0 \<longrightarrow> spent_of l sc d \<le> ceiling_of l sc d)"

lemma traffic_within:
  assumes "traffic off s s'" "accounts l0 s" "\<And>sc d. 0 \<le> spent_of l0 sc d" "within_limits (fst s)"
  shows "within_limits (fst s')"
  using assms(1)
proof (cases rule: traffic.cases)
  case (take t sc l cost le l1 out kept)
  have d: "distinct (map fst cost)" using take(4) by (simp add: proper_cost_def)
  have c: "ceiling_of l1 = ceiling_of l"
    using take(3,5) by (auto simp: reserve_def Let_def ceiling_of_def fun_eq_iff split: option.splits)
  have n: "first_over l sc cost = None"
    using take(3,5) by (auto simp: reserve_def Let_def split: option.splits)
  have "spent_of l1 sc' d' \<le> ceiling_of l sc' d'" if "ceiling_of l sc' d' \<noteq> 0" for sc' d'
  proof (cases "sc' = sc \<and> 0 < units_in cost d'")
    case True
    then have "(d', units_in cost d') \<in> set cost"
      by (auto simp: units_in_def mget_def dest: map_of_SomeD split: option.splits)
    with True n that spent_of_reserve [OF d take(5), of sc' d'] take(3) show ?thesis
      by (auto simp: first_over_None)
  next
    case False
    with proper_units [OF take(4), of d'] have "spent_of l1 sc' d' = spent_of l sc' d'"
      using spent_of_reserve [OF d take(5), of sc' d'] take(3) by auto
    with that assms(4) take(1) show ?thesis by (simp add: within_limits_def)
  qed
  with take c show ?thesis by (simp add: within_limits_def)
next
  case (refuse t sc l cost d l1 out kept)
  then have "l1 = l" by (auto simp: reserve_def Let_def split: option.splits)
  with refuse assms(4) show ?thesis by simp
next
  case (give_back le out l kept)
  have a: "accounts l0 (l, out, kept)" using give_back assms(2) by simp
  have "accounts l0 s'" by (rule traffic_accounts [OF assms(1-3)])
  then have "spent_of (release_lease (Some le) l) sc d =
      spent_of l sc d - lease_units sc d le" for sc d
    using a give_back by (auto simp: accounts_def owed_remove1)
  moreover have "0 \<le> lease_units sc d le" for sc d
    using a give_back by (auto simp: accounts_def lease_units_def intro: proper_units)
  ultimately show ?thesis
    using assms(4) give_back by (fastforce simp: within_limits_def intro: order_trans [rotated])
next
  case (keep le out l kept)
  then show ?thesis using assms(4) by (simp add: commit_lease_def)
qed


text \<open>Two leases taken, one given back and one kept.\<close>

definition sample_start :: ledger where
  "sample_start = configure_scope (unix_time 50) ledger_scope UTCMidnightShared [(''rpd'', 10)] new_ledger"

lemma sample_start_simps:
  "spent_of sample_start sc d = 0" "roll_window (\<lambda>_. 0) (unix_time 100) ledger_scope sample_start = sample_start"
  "ceiling_of sample_start ledger_scope ''rpd'' = 10"
  by (simp_all add: sample_start_def configure_scope_def new_ledger_def spent_of_def roll_window_def Let_def
      zero_time_def unix_time_def duration_defs window_over_def utc_date_def utc_days_def ceiling_of_def
      fill_cap_def)

lemma within_sample_start: "within_limits sample_start"
  by (auto simp: within_limits_def sample_start_simps sample_start_def configure_scope_def new_ledger_def
      ceiling_of_def fill_cap_def spent_of_def mget_def)


section \<open>Learning limits\<close>

text \<open>The tightest of a current ceiling (0 for none) and the limits a response states.\<close>

definition tightest :: "rat \<Rightarrow> rat list \<Rightarrow> rat" where
  "tightest c vs = (let s = set (filter (\<lambda>v. v \<noteq> 0) (c # vs)) in if s = {} then 0 else Min s)"

lemma tightest_Nil: "tightest c [] = c"
  by (simp add: tightest_def)

lemma tightest_Cons:
  assumes "0 < v"
  shows "tightest c (v # vs) = tightest (if c = 0 \<or> v < c then v else c) vs"
proof (cases "c = 0 \<or> v < c")
  case True
  have "Min (insert c (insert v A)) = Min (insert v A)" if "finite A" "v < c" for A :: "rat set"
  proof (cases "A = {}")
    case True
    with that show ?thesis by simp
  next
    case False
    have "Min (insert v A) \<le> v" using that by simp
    with that False show ?thesis by (subst Min_insert) auto
  qed
  with True assms show ?thesis by (auto simp: tightest_def)
next
  case False
  have "Min (insert c (insert v A)) = Min (insert c A)" if "finite A" "c \<le> v" for A :: "rat set"
  proof -
    have "Min (insert c A) \<le> v" using that by (intro order_trans [OF Min_le [of _ c]]) auto
    then have "Min (insert v (insert c A)) = Min (insert c A)" using that by (subst Min_insert) auto
    then show ?thesis by (simp add: insert_commute)
  qed
  with False assms show ?thesis by (auto simp: tightest_def)
qed

lemma ceiling_learn_hint:
  assumes "0 < h_val h" "h_dim h \<noteq> ''reset_at''"
  shows "ceiling_of (learn_hint t sc h l) sc' d =
    (if sc' = sc \<and> d = h_dim h \<and> (ceiling_of l sc d = 0 \<or> h_val h < ceiling_of l sc d) then h_val h
     else ceiling_of l sc' d)"
  using assms by (auto simp: learn_hint_def ceiling_of_def mget_def map_of_update_eq split: option.splits)

lemma learn_reset:
  "ceiling_of (restart_window t sc l) = ceiling_of l"
  "spent_of (restart_window t sc l) sc' d = (if sc' = sc then 0 else spent_of l sc' d)"
  by (auto simp: restart_window_def ceiling_of_def spent_of_def fun_eq_iff)

text \<open>
  Learning positive hints leaves each dimension with the smallest of its old ceiling, when it had
  one, and the hinted values, and touches no other scope.
\<close>

lemma learning_keeps_the_tightest_limit:
  assumes "\<And>h. h \<in> set hs \<Longrightarrow> h_dim h \<noteq> ''reset_at'' \<Longrightarrow> 0 < h_val h" "d \<noteq> ''reset_at''"
  shows "ceiling_of (learn_from_response t sc hs l) sc' d =
    (if sc' = sc then tightest (ceiling_of l sc d) (map h_val (filter (\<lambda>h. h_dim h = d) hs))
     else ceiling_of l sc' d)"
  using assms(1)
proof (induction hs arbitrary: l)
  case Nil
  then show ?case by (simp add: learn_from_response_def tightest_Nil)
next
  case (Cons h hs)
  then have IH: "ceiling_of (learn_from_response t sc hs l') sc' d =
    (if sc' = sc then tightest (ceiling_of l' sc d) (map h_val (filter (\<lambda>h. h_dim h = d) hs))
     else ceiling_of l' sc' d)" for l' by simp
  show ?case
  proof (cases "h_dim h = ''reset_at''")
    case True
    then have "learn_hint t sc h l = restart_window t sc l" by (simp add: learn_hint_def)
    with True IH [of "restart_window t sc l"] assms(2) show ?thesis
      by (simp add: learn_from_response_def learn_reset)
  next
    case False
    with Cons.prems have v: "0 < h_val h" by simp
    show ?thesis
      using IH [of "learn_hint t sc h l"] ceiling_learn_hint [OF v False]
      by (auto simp: learn_from_response_def tightest_Cons [OF v])
  qed
qed

definition sample_hints :: "ceiling_hint list" where
  "sample_hints = [\<lparr>h_dim = ''rpd'', h_val = 50\<rparr>, \<lparr>h_dim = ''reset_at'', h_val = 0\<rparr>,
     \<lparr>h_dim = ''rpd'', h_val = 20\<rparr>, \<lparr>h_dim = ''tpm'', h_val = 6000\<rparr>]"

section \<open>The remaining fraction\<close>

definition fractions :: "ledger \<Rightarrow> scope \<Rightarrow> amounts \<Rightarrow> rat set" where
  "fractions l sc caps = {(c - spent_of l sc d) / c |d c. (d, c) \<in> set caps \<and> 0 < c}"

lemma fractions_Nil [simp]: "fractions l sc [] = {}"
  by (simp add: fractions_def)

lemma fractions_Cons:
  "fractions l sc ((d, c) # caps) =
    (if 0 < c then insert ((c - spent_of l sc d) / c) (fractions l sc caps) else fractions l sc caps)"
  by (auto simp: fractions_def)

lemma finite_fractions [simp]: "finite (fractions l sc caps)"
  by (induction caps) (auto simp: fractions_Cons)

lemma worst_fold:
  "fst (fold (worst_step l sc) caps (w, b)) = Min (insert w (fractions l sc caps)) \<and>
   (snd (fold (worst_step l sc) caps (w, b)) \<longleftrightarrow> b \<or> fractions l sc caps \<noteq> {})"
proof (induction caps arbitrary: w b)
  case Nil
  then show ?case by (simp add: fractions_def)
next
  case (Cons dc caps)
  obtain d c where dc: "dc = (d, c)" by (cases dc)
  show ?case
  proof (cases "0 < c")
    case True
    define f where "f = (c - spent_of l sc d) / c"
    have "worst_step l sc dc (w, b) = (min f w, True)"
      using True by (simp add: worst_step_def dc f_def min_def Let_def)
    moreover have "Min (insert (min f w) (fractions l sc caps)) = Min (insert w (insert f (fractions l sc caps)))"
    proof (cases "fractions l sc caps = {}")
      case False
      then show ?thesis by (simp add: min.assoc min.commute min.left_commute)
    qed (simp add: min.commute)
    ultimately show ?thesis using Cons [of "min f w" True] True by (simp add: dc fractions_Cons f_def)
  next
    case False
    then show ?thesis using Cons [of w b] by (simp add: worst_step_def dc fractions_Cons)
  qed
qed

lemma headroom_answer:
  "fst (headroom_ratio off t l sc) =
    Min (insert 1 (fractions (roll_window off t sc l) sc (ceilings l sc)))"
  using worst_fold [of "roll_window off t sc l" sc "ceilings l sc" 1 False]
  by (auto simp: headroom_ratio_def Let_def split: prod.splits)

lemma headroom_state: "snd (headroom_ratio off t l sc) = roll_window off t sc l"
  by (simp add: headroom_ratio_def Let_def split: prod.splits)

lemma fractions_roll_other:
  "fractions (roll_window off t sc (roll_window off t sc' l)) sc caps = fractions (roll_window off t sc l) sc caps"
proof -
  have "spent_of (roll_window off t sc (roll_window off t sc' l)) sc d = spent_of (roll_window off t sc l) sc d" for d
    by (cases "sc = sc'") (simp, subst roll_window_commute, simp add: spent_of_roll)
  then show ?thesis by (simp add: fractions_def)
qed

interpretation quota_view: stable_observer "headroom_ratio off t" "\<lambda>_. True" for off t
  by unfold_locales (simp_all add: headroom_answer headroom_state fractions_roll_other)

text \<open>
  Asking for the headroom of any scopes one after the other gives each the smallest remaining
  fraction over its capped dimensions, at most one, although every call may roll windows.
\<close>

lemma headroom_is_worst_fraction:
  "fst (observe_all (headroom_ratio off t) l scs) =
    map (\<lambda>sc. Min (insert 1 {(c - spent_of (roll_window off t sc l) sc d) / c |d c.
      (d, c) \<in> set (ceilings l sc) \<and> 0 < c})) scs"
  by (simp add: quota_view.observe_all_answers headroom_answer fractions_def)

section \<open>Daily windows\<close>

text \<open>The days between the start of a window and now, by the calendar the window follows.\<close>

definition zone_days :: "(instant \<Rightarrow> duration) \<Rightarrow> window_kind \<Rightarrow> instant \<Rightarrow> int" where
  "zone_days off kind t = (if kind = FixedPacificMidnight then utc_days (t + off t) else utc_days t)"

text \<open>
  A daily window, used again within 28 days, is restarted exactly when the calendar day in its zone
  has changed.
\<close>

lemma daily_window_rolls_at_midnight:
  assumes "kinds l sc \<in> {FixedPacificMidnight, UTCMidnightShared}" "window_start l sc \<noteq> zero_time"
    "\<bar>zone_days off (kinds l sc) t - zone_days off (kinds l sc) (window_start l sc)\<bar> < 28"
  shows "roll_window off t sc l =
    (if zone_days off (kinds l sc) t = zone_days off (kinds l sc) (window_start l sc) then l
     else restart_window t sc l)"
proof -
  let ?k = "kinds l sc" and ?s = "window_start l sc"
  have "window_over off t ?k ?s \<longleftrightarrow> zone_days off ?k t \<noteq> zone_days off ?k ?s"
    using assms(1,3) civil_of_days_same_day [of "zone_days off ?k t" "zone_days off ?k ?s"]
    by (auto simp: window_over_def zone_days_def date_in_def utc_date_def)
  then show ?thesis using assms(2) by (simp add: roll_window_def Let_def)
qed

text \<open>
  The test is on the day of the month alone: a scope last used on the 15th of January and next
  used on the 15th of February is still held to January's spend.
\<close>

theorem month_gap_keeps_old_spend:
  "utc_date (unix_time 1768435200) = (2026, 1, 15) \<and> utc_date (unix_time 1771113600) = (2026, 2, 15) \<and>
   (let l = snd (reserve (\<lambda>_. 0) (unix_time 1768435200) ledger_scope [(''rpd'', 10)]
      (configure_scope (unix_time 1768435200) ledger_scope UTCMidnightShared [(''rpd'', 10)] new_ledger))
    in fst (reserve (\<lambda>_. 0) (unix_time 1771113600) ledger_scope [(''rpd'', 1)] l) = Inl ''rpd'')"
  by code_simp

section \<open>The next reset\<close>

lemma utc_next_midnight: "t < (utc_days t + 1) * day"
proof -
  have d: "0 < day" by (simp add: duration_defs)
  have "t = day * (t div day) + t mod day" by simp
  moreover have "t mod day < day" using d by simp
  ultimately have "t < day * (t div day) + day" by linarith
  then show ?thesis unfolding utc_days_def by (simp add: algebra_simps)
qed

lemma next_midnight_of_date:
  "utc_date t = (y, m, dd) \<Longrightarrow> days_of_civil (y, m, dd + 1) = utc_days t + 1"
  using days_of_civil_of_days [of "utc_days t"] by (simp add: utc_date_def days_of_civil_next)

lemma window_start_rolled: "window_start (roll_window off t sc l) sc = t \<or>
    (window_start (roll_window off t sc l) sc = window_start l sc \<and> window_start l sc \<noteq> zero_time \<and>
     \<not> window_over off t (kinds l sc) (window_start l sc))"
  by (auto simp: window_start_roll)

text \<open>
  The reset that NextReset announces lies after the present and, for a UTC day window, at most a
  day ahead.
\<close>

lemma next_reset_lies_ahead:
  assumes "next_reset off t sc l = ((reset, kind), l1)"
    "kind = FixedPacificMidnight \<Longrightarrow>
      (let wall = (utc_days (t + off t) + 1) * day in off (wall - off wall) \<le> off t)"
  shows "t < reset \<and> (kind = UTCMidnightShared \<longrightarrow> reset \<le> t + day) \<and> kind = kinds l sc \<and>
    l1 = roll_window off t sc l"
proof -
  have k: "kind = kinds l sc" and l1: "l1 = roll_window off t sc l"
    using assms(1) by (simp_all add: next_reset_def Let_def)
  have d: "0 < day" by (simp add: duration_defs)
  have m: "t < truncate_time minute t + minute"
    by (rule truncate_time_next) (simp add: duration_defs)
  have "t < reset \<and> (kind = UTCMidnightShared \<longrightarrow> reset \<le> t + day)"
  proof (cases kind)
    case FixedPacificMidnight
    obtain y mo dd where c: "utc_date (t + off t) = (y, mo, dd)" by (cases "utc_date (t + off t)")
    then have "reset = local_midnight off (y, mo, dd + 1)"
      using assms(1) k FixedPacificMidnight by (simp add: next_reset_def Let_def date_in_def)
    then have "reset = (let wall = (utc_days (t + off t) + 1) * day in wall - off (wall - off wall))"
      by (simp add: local_midnight_def next_midnight_of_date [OF c])
    with assms(2) utc_next_midnight [of "t + off t"] FixedPacificMidnight show ?thesis by (simp add: Let_def)
  next
    case UTCMidnightShared
    obtain y mo dd where c: "utc_date t = (y, mo, dd)" by (cases "utc_date t")
    then have "reset = (utc_days t + 1) * day"
      using assms(1) k UTCMidnightShared by (simp add: next_reset_def Let_def next_midnight_of_date)
    moreover have "utc_days t * day \<le> t" unfolding utc_days_def using d
      by (metis mult.commute mult_div_mod_eq pos_mod_sign le_add_same_cancel1)
    ultimately show ?thesis using utc_next_midnight [of t] by (simp add: algebra_simps)
  next
    case Session5h7d
    have "t < (if window_start l1 sc = zero_time then t else window_start l1 sc) + 5 * hour"
      using window_start_rolled [of off t sc l] Session5h7d k unfolding l1
      by (auto simp: window_over_def duration_defs)
    moreover have "reset = (if window_start l1 sc = zero_time then t else window_start l1 sc) + 5 * hour"
      using assms(1) k Session5h7d unfolding l1 by (auto simp: next_reset_def Let_def)
    ultimately have "t < reset" by (simp only:)
    then show ?thesis using Session5h7d by simp
  qed (use assms(1) k m in \<open>auto simp: next_reset_def Let_def\<close>)
  with k l1 show ?thesis by simp
qed

section \<open>Corner cases of learning and releasing\<close>

text \<open>
  A stated limit of 0 overwrites a positive ceiling, and 0 means uncapped: a Gemini body with
  quotaValue 0 lifts the limit of an exhausted scope.
\<close>

definition zero_quota_body :: string where
  "zero_quota_body = ''{\"error\":{\"status\":\"RESOURCE_EXHAUSTED\",\"details\":[{\"quotaValue\":\"0\"}]}}''"

theorem zero_quota_lifts_the_cap:
  "parse_ceilings ''google'' zero_quota_body None = [\<lparr>h_dim = ''rpd'', h_val = 0\<rparr>] \<and>
   (let l = learn_from_response (unix_time 100) ledger_scope
        (parse_ceilings ''google'' zero_quota_body None) sample_ledger
    in ceiling_of sample_ledger ledger_scope ''rpd'' = 10 \<and> ceiling_of l ledger_scope ''rpd'' = 0 \<and>
       isl (fst (reserve (\<lambda>_. 0) (unix_time 100) ledger_scope [(''rpd'', 50)] sample_ledger)) \<and>
       \<not> isl (fst (reserve (\<lambda>_. 0) (unix_time 100) ledger_scope [(''rpd'', 50)] l)))"
  by code_simp

text \<open>
  A lease taken before midnight and released after it is paid back into the new day's window, and a
  reset stamp that still lies ahead clears the counters at once.
\<close>

theorem stale_release_refunds_new_window:
  "(let (r1, l1) = reserve (\<lambda>_. 0) (unix_time 86000) ledger_scope [(''rpd'', 5)] sample_start;
        (r2, l2) = reserve (\<lambda>_. 0) (unix_time 86500) ledger_scope [(''rpd'', 5)] l1
    in case r1 of Inl _ \<Rightarrow> False | Inr le \<Rightarrow>
       spent_of l2 ledger_scope ''rpd'' = 5 \<and>
       spent_of (release_lease (Some le) l2) ledger_scope ''rpd'' = 0)"
  by code_simp

theorem future_reset_clears_spend_now:
  "spent_of sample_ledger ledger_scope ''rpd'' = 9 \<and>
   spent_of (learn_from_response (unix_time 100) ledger_scope
     [\<lparr>h_dim = ''reset_at'', h_val = 5000\<rparr>] sample_ledger) ledger_scope ''rpd'' = 0"
  by code_simp

end
