(* ===== verification/Pool.thy ===== *)
theory Pool
  imports HealthSpec LedgerSpec
begin

text \<open>
  The endpoint pools of the model router (internal/pool): deficit round robin (drr.go), the
  Thompson-Beta score (score.go) and the staged selection over the health machine and the quota
  ledger (pool.go). Weights and credits are exact rationals, scores and samples are reals. A random
  source is a state and a function that draws from it: \<open>flt\<close> is \<open>rng.Float64\<close> and \<open>draw\<close> the Beta
  sample of two shape parameters.
\<close>

section \<open>Endpoints\<close>

record endpoint =
  ep_scope :: scope
  ep_weights :: "string \<Rightarrow> rat option"
  ep_family :: string
  ep_local :: string

definition zero_scope :: scope where
  "zero_scope = \<lparr>sc_provider = [], sc_model = [], sc_key = []\<rparr>"

definition zero_endpoint :: endpoint where
  "zero_endpoint = \<lparr>ep_scope = zero_scope, ep_weights = (\<lambda>_. None), ep_family = [], ep_local = []\<rparr>"

text \<open>The cap-share weight, written out three times in the code: rpm when positive, else 1.\<close>

definition weight_of :: "endpoint \<Rightarrow> rat" where
  "weight_of e = (case ep_weights e ''rpm'' of Some v \<Rightarrow> if 0 < v then v else 1 | None \<Rightarrow> 1)"

section \<open>Deficit round robin\<close>

record drr =
  queues :: "string \<Rightarrow> (scope \<times> rat) list"
  credits :: "scope \<Rightarrow> rat"

definition new_drr :: drr where
  "new_drr = \<lparr>queues = (\<lambda>_. []), credits = (\<lambda>_. 0)\<rparr>"

definition configure_drr :: "string \<Rightarrow> endpoint list \<Rightarrow> drr \<Rightarrow> drr" where
  "configure_drr family es d = d\<lparr>queues := (queues d)(family := map (\<lambda>e. (ep_scope e, weight_of e)) es)\<rparr>"

definition accrue :: "endpoint list \<Rightarrow> (scope \<Rightarrow> rat) \<Rightarrow> scope \<Rightarrow> rat" where
  "accrue es cr = fold (\<lambda>e c. c(ep_scope e := c (ep_scope e) + weight_of e)) es cr"

definition round_total :: "endpoint list \<Rightarrow> rat" where
  "round_total es = fold (\<lambda>e t. t + weight_of e) es 0"

definition best_balance :: "(scope \<Rightarrow> rat) \<Rightarrow> endpoint list \<Rightarrow> endpoint \<times> rat" where
  "best_balance cr es = fold (\<lambda>e (best, bal). if bal < cr (ep_scope e) then (e, cr (ep_scope e)) else (best, bal))
     es (zero_endpoint, - 1)"

definition drr_next :: "string \<Rightarrow> endpoint list \<Rightarrow> drr \<Rightarrow> endpoint option \<times> drr" where
  "drr_next family es d =
    (if es = [] then (None, d) else
      let cr = accrue es (credits d);
          total = round_total es;
          best = fst (best_balance cr es);
          left = cr (ep_scope best) - total
      in (Some best, d\<lparr>credits := cr(ep_scope best := (if left < 0 then 0 else left))\<rparr>))"

section \<open>Scores\<close>

record 'r score =
  alpha :: "scope \<Rightarrow> real"
  beta :: "scope \<Rightarrow> real"
  latency :: "scope \<Rightarrow> real"
  score_rng :: 'r

definition new_score :: "'r \<Rightarrow> 'r score" where
  "new_score r = \<lparr>alpha = (\<lambda>_. 0), beta = (\<lambda>_. 0), latency = (\<lambda>_. 0), score_rng = r\<rparr>"

text \<open>\<open>latency.Milliseconds()\<close> truncates towards zero; it is only read for positive latencies.\<close>

definition millis :: "duration \<Rightarrow> real" where
  "millis d = real_of_int (d div 1000000)"

definition report_score :: "scope \<Rightarrow> bool \<Rightarrow> duration \<Rightarrow> 'r score \<Rightarrow> 'r score" where
  "report_score sc ok lat s =
    (let s1 = (if alpha s sc = 0 \<and> beta s sc = 0
               then s\<lparr>alpha := (alpha s)(sc := 1), beta := (beta s)(sc := 1)\<rparr> else s)
     in if ok then
          (let s2 = s1\<lparr>alpha := (alpha s1)(sc := alpha s1 sc + 1)\<rparr>
           in if 0 < lat then s2\<lparr>latency := (latency s2)(sc :=
                  (if latency s2 sc = 0 then millis lat else 0.7 * latency s2 sc + 0.3 * millis lat))\<rparr>
              else s2)
        else
          (let s2 = s1\<lparr>beta := (beta s1)(sc := beta s1 sc + 1)\<rparr>
           in if alpha s2 sc < 0.5 then s2\<lparr>alpha := (alpha s2)(sc := 0.5)\<rparr> else s2))"

definition sample_score :: "(real \<Rightarrow> real \<Rightarrow> 'r \<Rightarrow> real \<times> 'r) \<Rightarrow> scope \<Rightarrow> 'r score \<Rightarrow> real \<times> 'r score" where
  "sample_score draw sc s =
    (let (a, b) = (if alpha s sc = 0 \<and> beta s sc = 0 then (1, 1) else (alpha s sc, beta s sc));
         (x, r) = draw a b (score_rng s)
     in (x, s\<lparr>score_rng := r\<rparr>))"

definition score_value :: "scope \<Rightarrow> 'r score \<Rightarrow> real" where
  "score_value sc s = (if alpha s sc + beta s sc = 0 then 0.5 else alpha s sc / (alpha s sc + beta s sc))"

fun challenge :: "(real \<Rightarrow> real \<Rightarrow> 'r \<Rightarrow> real \<times> 'r) \<Rightarrow> scope \<Rightarrow> endpoint list \<Rightarrow> real \<times> endpoint option \<Rightarrow>
    'r score \<Rightarrow> endpoint option \<times> 'r score" where
  "challenge draw chosen [] (best, found) s = (found, s)"
| "challenge draw chosen (e # es) (best, found) s =
    (if ep_scope e = chosen then challenge draw chosen es (best, found) s
     else (case sample_score draw (ep_scope e) s of (sm, s1) \<Rightarrow>
       challenge draw chosen es (if 0.65 < sm \<and> best < sm then (sm, Some e) else (best, found)) s1))"

definition adjust_order :: "(real \<Rightarrow> real \<Rightarrow> 'r \<Rightarrow> real \<times> 'r) \<Rightarrow> endpoint \<Rightarrow> endpoint list \<Rightarrow> 'r score \<Rightarrow>
    endpoint \<times> 'r score" where
  "adjust_order draw chosen eligible s =
    (case sample_score draw (ep_scope chosen) s of (x, s1) \<Rightarrow>
      if 0.45 \<le> x then (chosen, s1)
      else (case challenge draw (ep_scope chosen) eligible (x, None) s1 of (found, s2) \<Rightarrow>
        (case found of Some best \<Rightarrow> best | None \<Rightarrow> chosen, s2)))"

section \<open>Beta and gamma draws\<close>

text \<open>
  The sampler itself, on explicit lists of the uniform and the normal draws the source returns. The
  rejection loop consumes one normal draw per turn, so it recurses on that list; None means that
  the draws given do not suffice. \<open>math.Log 0\<close> is minus infinity, hence the case of a zero draw.
\<close>

type_synonym draws = "real list \<times> real list"

fun gamma_loop :: "real \<Rightarrow> real \<Rightarrow> real list \<Rightarrow> real list \<Rightarrow> (real \<times> draws) option" where
  "gamma_loop d c us [] = None"
| "gamma_loop d c us (x # ns) =
    (let v0 = 1 + c * x in
     if v0 \<le> 0 then gamma_loop d c us ns
     else (case us of [] \<Rightarrow> None
       | u # us1 \<Rightarrow>
          let v = v0 * v0 * v0 in
          if u < 1 - 0.0331 * x * x * x * x then Some (d * v, us1, ns)
          else if u < exp (- 0.5 * x * x) \<and> (u = 0 \<or> ln u < 0.5 * x * x + d * (1 - v + ln v))
          then Some (d * v, us1, ns)
          else gamma_loop d c us1 ns))"

function gamma_sample :: "real \<Rightarrow> draws \<Rightarrow> (real \<times> draws) option" where
  "gamma_sample shape r =
    (if shape < 1 then
       (case fst r of [] \<Rightarrow> None
        | u # us \<Rightarrow> (case gamma_sample (shape + 1) (us, snd r) of None \<Rightarrow> None
            | Some (g, r1) \<Rightarrow> Some (g * u powr (1 / shape), r1)))
     else (let d = shape - 1 / 3; c = 1 / sqrt (9 * d) in gamma_loop d c (fst r) (snd r)))"
  by pat_completeness auto
termination
proof (relation "measure (\<lambda>(shape, r). nat \<lceil>1 - shape\<rceil>)")
  fix shape :: real
  assume "shape < 1"
  have "\<lceil>1 - shape\<rceil> = \<lceil>(1 - (shape + 1)) + of_int 1\<rceil>" by simp
  also have "\<dots> = \<lceil>1 - (shape + 1)\<rceil> + 1" by (rule ceiling_add_of_int)
  finally have e: "\<lceil>1 - shape\<rceil> = \<lceil>1 - (shape + 1)\<rceil> + 1" .
  have "0 < \<lceil>1 - shape\<rceil>" using \<open>shape < 1\<close> by simp
  with e have "nat \<lceil>1 - (shape + 1)\<rceil> < nat \<lceil>1 - shape\<rceil>" by simp
  then show "((shape + 1, us, snd r), shape, r) \<in> measure (\<lambda>(shape, r). nat \<lceil>1 - shape\<rceil>)"
    for us :: "real list" and r :: draws by simp
qed simp

declare gamma_sample.simps [simp del]

definition beta_sample :: "real \<Rightarrow> real \<Rightarrow> draws \<Rightarrow> (real \<times> draws) option" where
  "beta_sample a b r = Option.bind (gamma_sample a r) (\<lambda>(x, r1).
     Option.bind (gamma_sample b r1) (\<lambda>(y, r2).
       Some (if x + y = 0 then 0.5 else x / (x + y), r2)))"

section \<open>The pool\<close>

record ('q, 'r) pool =
  members :: "string \<Rightarrow> endpoint list"
  p_drr :: drr
  p_score :: "'r score"
  p_machine :: machine
  p_led :: ledger
  in_flight :: "scope \<Rightarrow> int"
  probe_floor :: rat
  pool_rng :: 'q

record reason =
  r_family :: string
  r_chosen :: "endpoint option"
  r_why :: string
  r_vetoes :: "string list"

definition new_pool :: "machine \<Rightarrow> ledger \<Rightarrow> rat \<Rightarrow> 'q \<Rightarrow> 'r \<Rightarrow> ('q, 'r) pool" where
  "new_pool m l pf q r = \<lparr>members = (\<lambda>_. []), p_drr = new_drr, p_score = new_score r, p_machine = m,
     p_led = l, in_flight = (\<lambda>_. 0), probe_floor = pf, pool_rng = q\<rparr>"

definition set_members :: "string \<Rightarrow> endpoint list \<Rightarrow> ('q, 'r) pool \<Rightarrow> ('q, 'r) pool" where
  "set_members family es p = p\<lparr>members := (members p)(family := es), p_drr := configure_drr family es (p_drr p)\<rparr>"

definition members_of :: "string \<Rightarrow> ('q, 'r) pool \<Rightarrow> endpoint list" where
  "members_of family p = members p family"

text \<open>Stage 1: the gates. The health question prunes and the ledger question rolls, so both thread on.\<close>

record gates =
  g_eligible :: "endpoint list"
  g_vetoes :: "string list"
  g_all_blocked :: bool

fun gate_loop :: "(instant \<Rightarrow> duration) \<Rightarrow> instant \<Rightarrow> endpoint list \<Rightarrow> machine \<Rightarrow> ledger \<Rightarrow> gates \<Rightarrow>
    gates \<times> machine \<times> ledger" where
  "gate_loop off t [] m l g = (g, m, l)"
| "gate_loop off t (e # es) m l g =
    (let sc = ep_scope e; name = sc_provider sc @ ''/'' @ sc_model sc in
     case blocks m sc of ((b, why, until), m1) \<Rightarrow>
       if b then gate_loop off t es m1 l (g\<lparr>g_vetoes := g_vetoes g @ [name @ '': '' @ why]\<rparr>)
       else (case headroom_ratio off t l sc of (ratio, l1) \<Rightarrow>
         if ratio \<le> 0 then gate_loop off t es m1 l1 (g\<lparr>g_all_blocked := False,
             g_vetoes := g_vetoes g @ [name @ '': quota exhausted (ledger)'']\<rparr>)
         else gate_loop off t es m1 l1 (g\<lparr>g_all_blocked := False, g_eligible := g_eligible g @ [e]\<rparr>)))"

text \<open>The roulette wheel of \<open>sampleProportional\<close>.\<close>

fun wheel :: "rat \<Rightarrow> (endpoint \<times> rat) list \<Rightarrow> endpoint option" where
  "wheel r [] = None"
| "wheel r ((e, w) # ews) = (if r - w \<le> 0 then Some e else wheel (r - w) ews)"

definition sample_proportional ::
  "('q \<Rightarrow> rat \<times> 'q) \<Rightarrow> endpoint list \<Rightarrow> scope \<Rightarrow> 'q \<Rightarrow> endpoint \<times> 'q" where
  "sample_proportional flt eligible exclude q =
    (let cands = filter (\<lambda>e. ep_scope e \<noteq> exclude) eligible;
         weights = map weight_of cands
     in if cands = [] then
          (case find (\<lambda>e. ep_scope e = exclude) eligible of Some e \<Rightarrow> e | None \<Rightarrow> zero_endpoint, q)
        else
          let total = fold (\<lambda>w s. s + w) weights 0;
              (u, q1) = flt q
          in (case wheel (u * total) (zip cands weights) of Some e \<Rightarrow> e | None \<Rightarrow> last cands, q1))"

text \<open>Fail open: with nobody eligible the full set serves, whichever gate closed it.\<close>

definition fail_open :: "endpoint list \<Rightarrow> gates \<Rightarrow> endpoint list" where
  "fail_open ms g = (if g_eligible g = [] then (if g_all_blocked g then ms else ms) else g_eligible g)"

text \<open>Stage 3: a challenger may take over from a loaded primary.\<close>

definition bounded_p2c :: "('q \<Rightarrow> rat \<times> 'q) \<Rightarrow> endpoint list \<Rightarrow> (scope \<Rightarrow> int) \<Rightarrow> endpoint \<Rightarrow> 'q \<Rightarrow>
    endpoint \<times> 'q" where
  "bounded_p2c flt eligible cnt primary q =
    (if 1 < length eligible \<and> 0 < cnt (ep_scope primary) then
       (case sample_proportional flt eligible (ep_scope primary) q of (ch, q1) \<Rightarrow>
         (if ep_scope ch \<noteq> ep_scope primary \<and> cnt (ep_scope ch) < cnt (ep_scope primary)
          then ch else primary, q1))
     else (primary, q))"

definition pool_select :: "('q \<Rightarrow> rat \<times> 'q) \<Rightarrow> (real \<Rightarrow> real \<Rightarrow> 'r \<Rightarrow> real \<times> 'r) \<Rightarrow>
    (instant \<Rightarrow> duration) \<Rightarrow> instant \<Rightarrow> string \<Rightarrow> (scope \<Rightarrow> int) option \<Rightarrow> ('q, 'r) pool \<Rightarrow>
    (endpoint option \<times> reason) \<times> ('q, 'r) pool" where
  "pool_select flt draw off t family fl p =
    (let ms = members p family in
     if ms = [] then
       ((None, \<lparr>r_family = family, r_chosen = None, r_why = ''no endpoints in pool'', r_vetoes = []\<rparr>), p)
     else
       case gate_loop off t ms (p_machine p) (p_led p)
           \<lparr>g_eligible = [], g_vetoes = [], g_all_blocked = True\<rparr> of (g, m1, l1) \<Rightarrow>
       let eligible = fail_open ms g;
           cnt = (case fl of Some f \<Rightarrow> f | None \<Rightarrow> in_flight p)
       in case drr_next family eligible (p_drr p) of
         (None, d1) \<Rightarrow>
           ((None, \<lparr>r_family = family, r_chosen = None, r_why = ''DRR found no candidate'',
              r_vetoes = g_vetoes g\<rparr>), p\<lparr>p_machine := m1, p_led := l1, p_drr := d1\<rparr>)
       | (Some primary, d1) \<Rightarrow>
           (case bounded_p2c flt eligible cnt primary (pool_rng p) of (chosen, q1) \<Rightarrow>
            case adjust_order draw chosen eligible (p_score p) of (final, s1) \<Rightarrow>
              ((Some final, \<lparr>r_family = family, r_chosen = Some final,
                  r_why = (if ep_scope final \<noteq> ep_scope primary then ''gates+DRR+P2C'' else ''gates+DRR''),
                  r_vetoes = g_vetoes g\<rparr>),
               p\<lparr>p_machine := m1, p_led := l1, p_drr := d1, pool_rng := q1, p_score := s1,
                 in_flight := (in_flight p)(ep_scope final := in_flight p (ep_scope final) + 1)\<rparr>)))"

definition pool_release :: "scope \<Rightarrow> ('q, 'r) pool \<Rightarrow> ('q, 'r) pool" where
  "pool_release sc p = (if 0 < in_flight p sc
     then p\<lparr>in_flight := (in_flight p)(sc := in_flight p sc - 1)\<rparr> else p)"

definition report_outcome :: "scope \<Rightarrow> bool \<Rightarrow> duration \<Rightarrow> ('q, 'r) pool \<Rightarrow> ('q, 'r) pool" where
  "report_outcome sc ok lat p = p\<lparr>p_score := report_score sc ok lat (p_score p)\<rparr>"

text \<open>The failover order.\<close>

record scored =
  s_endpoint :: endpoint
  s_score :: real
  s_blocked :: bool

definition chain_less :: "scored \<Rightarrow> scored \<Rightarrow> bool" where
  "chain_less x y = (if s_blocked x \<noteq> s_blocked y then s_blocked y else s_score y < s_score x)"

fun score_members :: "'r score \<Rightarrow> endpoint list \<Rightarrow> machine \<Rightarrow> scored list \<times> machine" where
  "score_members s [] m = ([], m)"
| "score_members s (e # es) m =
    (case blocks m (ep_scope e) of ((b, why, until), m1) \<Rightarrow>
     case score_members s es m1 of (rest, m2) \<Rightarrow>
       (\<lparr>s_endpoint = e, s_score = score_value (ep_scope e) s, s_blocked = b\<rparr> # rest, m2))"

definition pool_chain :: "string \<Rightarrow> ('q, 'r) pool \<Rightarrow> endpoint list \<times> ('q, 'r) pool" where
  "pool_chain family p =
    (case score_members (p_score p) (members p family) (p_machine p) of (list, m1) \<Rightarrow>
      (map s_endpoint (sort_stable chain_less list), p\<lparr>p_machine := m1\<rparr>))"

end
