(* ===== verification/Discovery.thy ===== *)
theory Discovery
  imports Pool
begin

text \<open>
  The catalogue loop of the model router (internal/discovery/loop.go): mappings of model families to
  providers with reversible tombstones, the reconciliation with a provider's live list, and the
  rebuild of the pools. The mappings are a Go map that is ranged over, hence an association list
  under the keys family|provider. A provider's live list is a parameter of a poll.
\<close>

section \<open>Slugs\<close>

definition is_date_tail :: "string \<Rightarrow> bool" where
  "is_date_tail s \<longleftrightarrow> (length s = 4 \<or> length s = 6 \<or> length s = 8) \<and> list_all is_digit s"

definition strip_date :: "string \<Rightarrow> string" where
  "strip_date s = (case last_index_byte CHR ''-'' s of None \<Rightarrow> s
    | Some idx \<Rightarrow> if 0 < idx \<and> is_date_tail (drop (idx + 1) s) then take idx s else s)"

definition variant_suffixes :: "string list" where
  "variant_suffixes = ['':free'', '':cloud'', '':nitro'', '':floor'', '':exacto'', '':fastest'', '':cheapest'']"

definition normalise :: "string \<Rightarrow> string" where
  "normalise slug = (let s = strip_date slug in
     case find (\<lambda>v. suffix v s) variant_suffixes of None \<Rightarrow> s | Some v \<Rightarrow> trim_suffix v s)"

section \<open>State\<close>

record model_mapping =
  mm_family :: string
  mm_provider :: string
  mm_slug :: string
  mm_status :: string
  mm_tombstoned :: bool
  mm_reason :: string

text \<open>\<open>lp_sink\<close> is what the event function received, if one is wired.\<close>

record ('q, 'r) loop =
  lp_mappings :: "(string \<times> model_mapping) list"
  lp_pool :: "('q, 'r) pool"
  lp_wired :: bool
  lp_sink :: "(scope \<times> string) list"

definition mapping_key :: "string \<Rightarrow> string \<Rightarrow> string" where
  "mapping_key family provider = family @ ''|'' @ provider"

text \<open>A seed row: family, provider, slug, status.\<close>

type_synonym seed_row = "string \<times> string \<times> string \<times> string"

definition seed_mapping :: "seed_row \<Rightarrow> model_mapping" where
  "seed_mapping r = (case r of (family, provider, slug, status) \<Rightarrow>
     \<lparr>mm_family = family, mm_provider = provider, mm_slug = slug, mm_status = status,
      mm_tombstoned = False, mm_reason = []\<rparr>)"

definition put_mapping :: "model_mapping \<Rightarrow> (string \<times> model_mapping) list \<Rightarrow> (string \<times> model_mapping) list" where
  "put_mapping m al = AList.update (mapping_key (mm_family m) (mm_provider m)) m al"

definition new_loop :: "seed_row list \<Rightarrow> ('q, 'r) pool \<Rightarrow> bool \<Rightarrow> ('q, 'r) loop" where
  "new_loop rows p wired = \<lparr>lp_mappings = fold (\<lambda>r. put_mapping (seed_mapping r)) rows [],
     lp_pool = p, lp_wired = wired, lp_sink = []\<rparr>"

definition snapshot_less :: "model_mapping \<Rightarrow> model_mapping \<Rightarrow> bool" where
  "snapshot_less a b = (if mm_family a \<noteq> mm_family b then mm_family a < mm_family b
     else mm_provider a < mm_provider b)"

definition snapshot :: "('q, 'r) loop \<Rightarrow> model_mapping list" where
  "snapshot lp = sort_stable snapshot_less (map snd (lp_mappings lp))"

definition emit_event :: "model_mapping \<Rightarrow> string \<Rightarrow> ('q, 'r) loop \<Rightarrow> ('q, 'r) loop" where
  "emit_event m msg lp = (if lp_wired lp then lp\<lparr>lp_sink := lp_sink lp @
     [(\<lparr>sc_provider = mm_provider m, sc_model = mm_family m, sc_key = []\<rparr>, msg)]\<rparr> else lp)"

section \<open>Rebuilding the pools\<close>

definition routable :: "model_mapping \<Rightarrow> bool" where
  "routable m \<longleftrightarrow> \<not> mm_tombstoned m \<and>
     \<not> (mm_status m = ''no_host'' \<or> mm_status m = ''paid'' \<or> mm_status m = ''paid_gated'')"

definition aliases_of :: "(string \<Rightarrow> string list) option \<Rightarrow> string \<Rightarrow> string list" where
  "aliases_of af provider = (case af of None \<Rightarrow> [''default'']
    | Some f \<Rightarrow> (let got = f provider in if got \<noteq> [] then got else [''default'']))"

definition mapping_endpoint :: "model_mapping \<Rightarrow> string \<Rightarrow> endpoint" where
  "mapping_endpoint m alias = \<lparr>ep_scope = \<lparr>sc_provider = mm_provider m, sc_model = mm_family m, sc_key = alias\<rparr>,
     ep_weights = (\<lambda>_. None)(''rpm'' \<mapsto> 30), ep_family = mm_family m, ep_local = mm_slug m\<rparr>"

definition own_endpoints :: "(string \<Rightarrow> string list) option \<Rightarrow> string \<Rightarrow> model_mapping list \<Rightarrow> string \<Rightarrow> endpoint list" where
  "own_endpoints af provider ms family = concat (map (\<lambda>m.
     if routable m \<and> mm_provider m = provider \<and> mm_family m = family
     then map (mapping_endpoint m) (aliases_of af (mm_provider m)) else []) ms)"

definition merge_family :: "(string \<Rightarrow> string list) option \<Rightarrow> string \<Rightarrow> model_mapping list \<Rightarrow> string \<Rightarrow>
    ('q, 'r) pool \<Rightarrow> ('q, 'r) pool" where
  "merge_family af provider ms family p =
     set_members family (own_endpoints af provider ms family @
       filter (\<lambda>e. sc_provider (ep_scope e) \<noteq> provider) (members_of family p)) p"

definition apply_to_pools :: "(string \<Rightarrow> string list) option \<Rightarrow> string \<Rightarrow> ('q, 'r) loop \<Rightarrow> ('q, 'r) loop" where
  "apply_to_pools af provider lp =
    (let ms = map snd (lp_mappings lp)
     in lp\<lparr>lp_pool := fold (merge_family af provider ms) (remdups (map mm_family ms)) (lp_pool lp)\<rparr>)"

section \<open>Polling\<close>

text \<open>What a poll does with one mapping: the mapping afterwards, and the slugs added and removed.\<close>

definition absent_reason :: string where
  "absent_reason = ''absent from live /v1/models poll''"

definition reconcile :: "string set \<Rightarrow> string \<Rightarrow> model_mapping \<Rightarrow> model_mapping \<times> string list \<times> string list" where
  "reconcile listed provider m =
    (if mm_provider m \<noteq> provider then (m, [], [])
     else if mm_tombstoned m then
       (if normalise (mm_slug m) \<in> listed
        then (m\<lparr>mm_tombstoned := False, mm_reason := []\<rparr>, [mm_slug m], []) else (m, [], []))
     else if normalise (mm_slug m) \<notin> listed
       then (m\<lparr>mm_tombstoned := True, mm_reason := absent_reason\<rparr>, [], [mm_slug m])
     else (m, [], []))"

fun reconcile_all :: "string set \<Rightarrow> string \<Rightarrow> (string \<times> model_mapping) list \<Rightarrow> ('q, 'r) loop \<Rightarrow>
    (string \<times> model_mapping) list \<times> string list \<times> string list \<times> ('q, 'r) loop" where
  "reconcile_all listed provider [] lp = ([], [], [], lp)"
| "reconcile_all listed provider ((k, m) # rest) lp =
    (case reconcile listed provider m of (m1, a, r) \<Rightarrow>
      let lp1 = (if r \<noteq> [] then emit_event m1 (''catalogue: model removed from '' @ provider @ '' live list'') lp else lp)
      in case reconcile_all listed provider rest lp1 of (rest1, added, removed, lp2) \<Rightarrow>
        ((k, m1) # rest1, a @ added, r @ removed, lp2))"

text \<open>
  \<open>answer\<close> is None when the provider has no adapter, else the error or the list \<open>ListModels\<close> gives.
\<close>

definition poll_once :: "(string \<Rightarrow> string list) option \<Rightarrow> string \<Rightarrow> (string + string list) option \<Rightarrow> ('q, 'r) loop \<Rightarrow>
    (string + string list \<times> string list) \<times> ('q, 'r) loop" where
  "poll_once af provider answer lp =
    (case answer of None \<Rightarrow> (Inr ([], []), lp)
     | Some (Inl err) \<Rightarrow> (Inl err, lp)
     | Some (Inr ids) \<Rightarrow>
        (case reconcile_all (normalise ` set ids) provider (lp_mappings lp) lp of (ms, added, removed, lp1) \<Rightarrow>
          (Inr (added, removed), apply_to_pools af provider (lp1\<lparr>lp_mappings := ms\<rparr>))))"

text \<open>One tick of \<open>Run\<close>: every adapter in turn; a failed poll is reported and skipped.\<close>

definition poll_tick :: "(string \<Rightarrow> string list) option \<Rightarrow> (string \<times> (string + string list)) list \<Rightarrow> ('q, 'r) loop \<Rightarrow>
    ('q, 'r) loop" where
  "poll_tick af answers lp = fold (\<lambda>(provider, answer) lp.
     case poll_once af provider (Some answer) lp of
       (Inr _, lp1) \<Rightarrow> lp1
     | (Inl err, lp1) \<Rightarrow> emit_event \<lparr>mm_family = [], mm_provider = provider, mm_slug = [], mm_status = [],
          mm_tombstoned = False, mm_reason = []\<rparr> (''catalogue: poll failed for '' @ provider @ '' ('' @ err @ '')'') lp1)
     answers lp"

definition admit :: "(string \<Rightarrow> string list) option \<Rightarrow> model_mapping \<Rightarrow> ('q, 'r) loop \<Rightarrow> ('q, 'r) loop" where
  "admit af m lp =
    (let lp1 = lp\<lparr>lp_mappings := put_mapping m (lp_mappings lp)\<rparr>;
         lp2 = emit_event m (''catalogue: admitted '' @ mm_slug m @ '' on '' @ mm_provider m) lp1
     in apply_to_pools af (mm_provider m) lp2)"

definition retire :: "(string \<Rightarrow> string list) option \<Rightarrow> string \<Rightarrow> string \<Rightarrow> string \<Rightarrow> ('q, 'r) loop \<Rightarrow> ('q, 'r) loop" where
  "retire af family provider why lp =
    (let key = mapping_key family provider in
     case map_of (lp_mappings lp) key of None \<Rightarrow> lp
     | Some m \<Rightarrow>
        let m1 = m\<lparr>mm_tombstoned := True, mm_reason := why\<rparr>;
            lp1 = lp\<lparr>lp_mappings := AList.update key m1 (lp_mappings lp)\<rparr>;
            lp2 = emit_event m1 (''catalogue: retired '' @ mm_slug m1 @ '' ('' @ why @ '')'') lp1
        in apply_to_pools af provider lp2)"

end
