(* ===== verification/PoolSpec.thy ===== *)
theory PoolSpec
  imports Pool
begin

text \<open>
  What the pool promises: the round robin gives every endpoint its share of the capacity within a
  fixed debt, the selection never serves past a closed gate while one is open and never refuses
  a family with members, and the failover chain lists every member once, healthy ones first, by score.
\<close>

section \<open>One round of the round robin\<close>

definition weight_in :: "endpoint list \<Rightarrow> scope \<Rightarrow> rat" where
  "weight_in es sc = sum_list (map (\<lambda>e. if ep_scope e = sc then weight_of e else 0) es)"

lemma weight_of_pos [simp]: "0 < weight_of e"
  by (simp add: weight_of_def split: option.splits)

lemma weight_in_nonneg [simp]: "0 \<le> weight_in es sc"
  unfolding weight_in_def by (rule sum_list_nonneg_map) (simp add: less_imp_le)

lemma accrue_apply: "accrue es cr sc = cr sc + weight_in es sc"
proof (induction es arbitrary: cr)
  case (Cons e es)
  have "accrue (e # es) cr = accrue es (cr(ep_scope e := cr (ep_scope e) + weight_of e))"
    by (simp add: accrue_def)
  with Cons show ?case by (simp add: weight_in_def)
qed (simp add: accrue_def weight_in_def)

lemma round_total_fold: "fold (\<lambda>e t. t + weight_of e) es a = a + sum_list (map weight_of es)"
  by (induction es arbitrary: a) simp_all

lemma round_total_sum: "round_total es = sum_list (map weight_of es)"
  by (simp add: round_total_def round_total_fold)

lemma round_total_nonneg: "0 \<le> round_total es"
  unfolding round_total_sum by (rule sum_list_nonneg_map) (simp add: less_imp_le)

lemma sum_weight_in:
  assumes "finite A" "ep_scope ` set es \<subseteq> A"
  shows "(\<Sum>sc\<in>A. weight_in es sc) = round_total es"
  using assms(2)
proof (induction es)
  case (Cons e es)
  then have "(\<Sum>sc\<in>A. if ep_scope e = sc then weight_of e else 0) = weight_of e"
    using assms(1) by (simp add: sum.delta')
  with Cons show ?case by (simp add: weight_in_def round_total_sum sum.distrib)
qed (simp add: weight_in_def round_total_sum)

lemma best_balance_fold:
  fixes cr :: "scope \<Rightarrow> rat"
  shows "\<exists>best bal. fold (\<lambda>e (best, bal). if bal < cr (ep_scope e) then (e, cr (ep_scope e)) else (best, bal)) es (b0, bal0)
      = (best, bal) \<and> bal0 \<le> bal \<and> (\<forall>e\<in>set es. cr (ep_scope e) \<le> bal) \<and>
     (best = b0 \<and> bal = bal0 \<or> best \<in> set es \<and> bal = cr (ep_scope best) \<and> bal0 < bal)"
proof (induction es arbitrary: b0 bal0)
  case (Cons e es)
  show ?case
  proof (cases "bal0 < cr (ep_scope e)")
    case True
    from Cons [of e "cr (ep_scope e)"] obtain best bal where
      "fold (\<lambda>e (best, bal). if bal < cr (ep_scope e) then (e, cr (ep_scope e)) else (best, bal)) es
         (e, cr (ep_scope e)) = (best, bal)" "cr (ep_scope e) \<le> bal" "\<forall>e\<in>set es. cr (ep_scope e) \<le> bal"
      "best = e \<and> bal = cr (ep_scope e) \<or> best \<in> set es \<and> bal = cr (ep_scope best) \<and> cr (ep_scope e) < bal"
      by blast
    moreover have "bal0 < bal" using True \<open>cr (ep_scope e) \<le> bal\<close> by simp
    ultimately show ?thesis using True by (intro exI [of _ best] exI [of _ bal]) auto
  next
    case False
    from Cons [of b0 bal0] obtain best bal where
      "fold (\<lambda>e (best, bal). if bal < cr (ep_scope e) then (e, cr (ep_scope e)) else (best, bal)) es
         (b0, bal0) = (best, bal)" "bal0 \<le> bal" "\<forall>e\<in>set es. cr (ep_scope e) \<le> bal"
      "best = b0 \<and> bal = bal0 \<or> best \<in> set es \<and> bal = cr (ep_scope best) \<and> bal0 < bal"
      by blast
    with False show ?thesis by (intro exI [of _ best] exI [of _ bal]) auto
  qed
qed simp

lemma best_balance_winner:
  fixes cr :: "scope \<Rightarrow> rat"
  assumes "es \<noteq> []" "\<And>sc. 0 \<le> cr sc"
  shows "fst (best_balance cr es) \<in> set es \<and>
    (\<forall>e\<in>set es. cr (ep_scope e) \<le> cr (ep_scope (fst (best_balance cr es))))"
proof -
  obtain best bal where b: "best_balance cr es = (best, bal)" and m: "\<forall>e\<in>set es. cr (ep_scope e) \<le> bal"
    and c: "best = zero_endpoint \<and> bal = - 1 \<or> best \<in> set es \<and> bal = cr (ep_scope best) \<and> - 1 < bal"
    using best_balance_fold [of cr es zero_endpoint "- 1"] unfolding best_balance_def by blast
  obtain e where e: "e \<in> set es" using assms(1) by (cases es) auto
  have "0 \<le> bal" using m e assms(2) [of "ep_scope e"] by (blast intro: order_trans)
  with c m b show ?thesis by auto
qed

text \<open>The credits before the payment, the winner, and what the winner pays.\<close>

lemma drr_next_shape:
  assumes "es \<noteq> []" "\<And>sc. 0 \<le> credits d sc"
  obtains best d1 where "drr_next family es d = (Some best, d1)" "best \<in> set es"
    "\<And>e. e \<in> set es \<Longrightarrow> credits d (ep_scope e) + weight_in es (ep_scope e) \<le>
       credits d (ep_scope best) + weight_in es (ep_scope best)"
    "\<And>sc. credits d1 sc = (if sc = ep_scope best
       then max 0 (credits d sc + weight_in es sc - round_total es) else credits d sc + weight_in es sc)"
proof
  let ?cr = "accrue es (credits d)"
  let ?b = "fst (best_balance ?cr es)"
  let ?d1 = "d\<lparr>credits := ?cr(ep_scope ?b := (if ?cr (ep_scope ?b) - round_total es < 0 then 0
       else ?cr (ep_scope ?b) - round_total es))\<rparr>"
  have w: "?b \<in> set es \<and> (\<forall>e\<in>set es. ?cr (ep_scope e) \<le> ?cr (ep_scope ?b))"
    by (rule best_balance_winner [OF assms(1)]) (simp add: accrue_apply assms(2))
  then show "?b \<in> set es" by simp
  show "drr_next family es d = (Some ?b, ?d1)" using assms(1) by (simp add: drr_next_def Let_def)
  show "credits d (ep_scope e) + weight_in es (ep_scope e) \<le>
       credits d (ep_scope ?b) + weight_in es (ep_scope ?b)" if "e \<in> set es" for e
    using w that by (simp add: accrue_apply)
  show "credits ?d1 sc = (if sc = ep_scope ?b
       then max 0 (credits d sc + weight_in es sc - round_total es) else credits d sc + weight_in es sc)" for sc
    by (simp add: accrue_apply)
qed

lemma drr_next_nonneg:
  assumes "\<And>sc. 0 \<le> credits d sc"
  shows "0 \<le> credits (snd (drr_next family es d)) sc"
proof (cases "es = []")
  case False
  obtain best d1 where "drr_next family es d = (Some best, d1)"
    "\<And>sc. credits d1 sc = (if sc = ep_scope best
       then max 0 (credits d sc + weight_in es sc - round_total es) else credits d sc + weight_in es sc)"
    using drr_next_shape [OF False assms, of family] by metis
  then show ?thesis by (simp add: assms)
qed (simp add: drr_next_def assms)

section \<open>Share over many rounds\<close>

definition debt :: "endpoint list \<Rightarrow> drr \<Rightarrow> rat" where
  "debt es d = (\<Sum>sc\<in>ep_scope ` set es. credits d sc)"

definition settled :: "endpoint list \<Rightarrow> drr \<Rightarrow> bool" where
  "settled es d \<longleftrightarrow> (\<forall>sc. 0 \<le> credits d sc) \<and>
     debt es d \<le> of_nat (card (ep_scope ` set es) - 1) * round_total es"

lemma settled_next:
  assumes "settled es d" "es \<noteq> []"
  shows "settled es (snd (drr_next family es d))"
proof -
  let ?A = "ep_scope ` set es"
  let ?bal = "\<lambda>sc. credits d sc + weight_in es sc"
  have nn: "\<And>sc. 0 \<le> credits d sc" using assms(1) by (simp add: settled_def)
  obtain best d1 where n: "drr_next family es d = (Some best, d1)" and b: "best \<in> set es"
    and m: "\<And>e. e \<in> set es \<Longrightarrow> ?bal (ep_scope e) \<le> ?bal (ep_scope best)"
    and c: "\<And>sc. credits d1 sc = (if sc = ep_scope best then max 0 (?bal sc - round_total es) else ?bal sc)"
    using drr_next_shape [OF assms(2) nn, of family] by metis
  let ?s = "ep_scope best"
  have s: "?s \<in> ?A" using b by blast
  have others: "(\<Sum>sc\<in>?A - {?s}. ?bal sc) = debt es d + round_total es - ?bal ?s"
    using s sum_weight_in [of ?A es] by (simp add: sum_diff1 debt_def sum.distrib)
  have paid: "debt es d1 = max 0 (?bal ?s - round_total es) + (\<Sum>sc\<in>?A - {?s}. ?bal sc)"
    unfolding debt_def using s by (subst sum.remove [of _ ?s]) (auto simp: c intro!: sum.cong)
  have "debt es d1 \<le> of_nat (card ?A - 1) * round_total es"
  proof (cases "?bal ?s \<le> round_total es")
    case True
    have "(\<Sum>sc\<in>?A - {?s}. ?bal sc) \<le> of_nat (card (?A - {?s})) * ?bal ?s"
      by (rule sum_bounded_above) (use m in auto)
    also have "\<dots> \<le> of_nat (card ?A - 1) * round_total es"
      using s True by (simp add: mult_left_mono)
    finally show ?thesis using paid True by simp
  next
    case False
    with paid others assms(1) show ?thesis by (simp add: settled_def)
  qed
  then show ?thesis
    using n drr_next_nonneg [OF nn, of family es] by (simp add: settled_def)
qed

text \<open>Successive rounds over one eligible set: who was served, and the scheduler afterwards.\<close>

fun drr_rounds :: "nat \<Rightarrow> string \<Rightarrow> endpoint list \<Rightarrow> drr \<Rightarrow> endpoint option list \<times> drr" where
  "drr_rounds 0 family es d = ([], d)"
| "drr_rounds (Suc k) family es d =
    (case drr_next family es d of (r, d1) \<Rightarrow>
     case drr_rounds k family es d1 of (rs, d2) \<Rightarrow> (r # rs, d2))"

definition times_served :: "scope \<Rightarrow> endpoint option list \<Rightarrow> nat" where
  "times_served sc rs = length (filter (\<lambda>r. map_option ep_scope r = Some sc) rs)"

lemma rounds_keep:
  "settled es d \<Longrightarrow> es \<noteq> [] \<Longrightarrow>
    settled es (snd (drr_rounds k family es d)) \<and>
    credits d sc + of_nat k * weight_in es sc \<le> credits (snd (drr_rounds k family es d)) sc +
      round_total es * of_nat (times_served sc (fst (drr_rounds k family es d)))"
proof (induction k arbitrary: d)
  case 0
  then show ?case by (simp add: times_served_def)
next
  case (Suc k)
  have nn: "\<And>sc. 0 \<le> credits d sc" using Suc.prems by (simp add: settled_def)
  obtain best d1 where n: "drr_next family es d = (Some best, d1)"
    and c: "\<And>sc. credits d1 sc = (if sc = ep_scope best then max 0 (credits d sc + weight_in es sc - round_total es)
       else credits d sc + weight_in es sc)"
    using drr_next_shape [OF Suc.prems(2) nn, of family] by metis
  obtain rs d2 where r: "drr_rounds k family es d1 = (rs, d2)" by (cases "drr_rounds k family es d1")
  have "settled es d1" using settled_next [OF Suc.prems, of family] n by simp
  from Suc.IH [OF this Suc.prems(2)] r
  have IH: "settled es d2" "credits d1 sc + of_nat k * weight_in es sc \<le>
      credits d2 sc + round_total es * of_nat (times_served sc rs)" by simp_all
  have "times_served sc (Some best # rs) = (if ep_scope best = sc then 1 else 0) + times_served sc rs"
    by (simp add: times_served_def)
  moreover have "credits d sc + weight_in es sc \<le> credits d1 sc + (if ep_scope best = sc then round_total es else 0)"
    by (auto simp: c max_def)
  ultimately show ?case using IH by (auto simp: n r algebra_simps)
qed

text \<open>
  C6: Over any number of rounds with fixed members, the deficit round robin serves an endpoint at least
  its weight share of the rounds less the number of its competitors.
\<close>

theorem drr_serves_capacity_share:
  assumes "settled es d" "e \<in> set es"
  shows "of_nat k * weight_in es (ep_scope e) / round_total es - of_nat (card (ep_scope ` set es) - 1)
    \<le> rat_of_nat (times_served (ep_scope e) (fst (drr_rounds k family es d)))"
proof -
  let ?s = "ep_scope e" and ?d = "snd (drr_rounds k family es d)"
  have ne: "es \<noteq> []" using assms(2) by auto
  note r = rounds_keep [OF assms(1) ne, of k family ?s]
  have "0 < round_total es"
    unfolding round_total_sum using member_le_sum_map [of e es weight_of] weight_of_pos assms(2)
    by (meson less_imp_le order.strict_trans2)
  moreover have "credits ?d ?s \<le> debt es ?d"
    unfolding debt_def using r assms(2) by (intro member_le_sum) (auto simp: settled_def)
  moreover have "0 \<le> credits d ?s" using assms(1) by (simp add: settled_def)
  ultimately show ?thesis using r by (simp add: settled_def field_simps)
qed

text \<open>Thirty requests a minute against ten: at least 29 of 40 rounds go to the first.\<close>

definition ep_named :: "string \<Rightarrow> rat \<Rightarrow> endpoint" where
  "ep_named name rpm = \<lparr>ep_scope = \<lparr>sc_provider = name, sc_model = ''m'', sc_key = ''default''\<rparr>,
     ep_weights = (\<lambda>_. None)(''rpm'' \<mapsto> rpm), ep_family = ''f'', ep_local = ''m''\<rparr>"

definition sample_members :: "endpoint list" where
  "sample_members = [ep_named ''a'' 30, ep_named ''b'' 10]"

lemma settled_new: "settled es new_drr"
  by (simp add: settled_def debt_def new_drr_def round_total_nonneg)

theorem drr_serves_capacity_share_witness:
  "settled sample_members new_drr \<and> ep_named ''a'' 30 \<in> set sample_members \<and>
   29 \<le> rat_of_nat (times_served (ep_scope (ep_named ''a'' 30)) (fst (drr_rounds 40 ''f'' sample_members new_drr)))"
proof -
  have e: "ep_named ''a'' 30 \<in> set sample_members" by (simp add: sample_members_def)
  have "card (ep_scope ` set sample_members) = 2" by (simp add: sample_members_def ep_named_def)
  moreover have "weight_in sample_members (ep_scope (ep_named ''a'' 30)) = 30" "round_total sample_members = 40"
    by (simp_all add: weight_in_def round_total_def sample_members_def ep_named_def weight_of_def)
  ultimately show ?thesis
    using drr_serves_capacity_share [OF settled_new e, of 40 "''f''"] settled_new e by simp
qed

section \<open>The gates\<close>

definition blocked_at :: "machine \<Rightarrow> scope \<Rightarrow> bool" where
  "blocked_at m sc = fst (fst (blocks m sc))"

definition open_at :: "(instant \<Rightarrow> duration) \<Rightarrow> instant \<Rightarrow> machine \<Rightarrow> ledger \<Rightarrow> endpoint \<Rightarrow> bool" where
  "open_at off t m l e \<longleftrightarrow> \<not> blocked_at m (ep_scope e) \<and> 0 < fst (headroom_ratio off t l (ep_scope e))"

lemma gate_loop_result:
  "wf_machine m \<Longrightarrow> gate_loop off t es m l g = (g1, m1, l1) \<Longrightarrow>
    g_eligible g1 = g_eligible g @ filter (open_at off t m l) es \<and>
    g_all_blocked g1 = (g_all_blocked g \<and> list_all (\<lambda>e. blocked_at m (ep_scope e)) es) \<and>
    length (g_vetoes g1) = length (g_vetoes g) + length (filter (\<lambda>e. \<not> open_at off t m l e) es) \<and>
    wf_machine m1 \<and> (\<forall>sc. fst (blocks m1 sc) = fst (blocks m sc)) \<and>
    (\<forall>sc. fst (headroom_ratio off t l1 sc) = fst (headroom_ratio off t l sc))"
proof (induction es arbitrary: m l g)
  case (Cons e es)
  let ?sc = "ep_scope e"
  obtain b why until m2 where bl: "blocks m ?sc = ((b, why, until), m2)" by (metis surj_pair)
  obtain ratio l2 where hr: "headroom_ratio off t l ?sc = (ratio, l2)" by (metis surj_pair)
  have wf2: "wf_machine m2" using health_gate.obs_keeps [OF Cons.prems(1), of ?sc] bl by simp
  have st2: "fst (blocks m2 sc) = fst (blocks m sc)" for sc
    using health_gate.obs_stable [OF Cons.prems(1), of ?sc sc] bl by simp
  have hs: "fst (headroom_ratio off t l2 sc) = fst (headroom_ratio off t l sc)" for sc
    using quota_view.obs_stable [of off t l ?sc sc] hr by simp
  have b2: "blocked_at m2 = blocked_at m" by (simp add: blocked_at_def st2 fun_eq_iff)
  have o2: "open_at off t m2 l = open_at off t m l" "open_at off t m2 l2 = open_at off t m l"
    by (simp_all add: open_at_def b2 hs fun_eq_iff)
  have here: "blocked_at m ?sc = b" "open_at off t m l e \<longleftrightarrow> \<not> b \<and> 0 < ratio"
    by (simp_all add: open_at_def blocked_at_def bl hr)
  show ?case
  proof (cases "b \<or> ratio \<le> 0")
    case False
    then show ?thesis
      using Cons.IH [OF wf2] Cons.prems(2) by (auto simp: bl hr Let_def o2 b2 st2 hs here)
  next
    case True
    show ?thesis
    proof (cases b)
      case True
      then show ?thesis
        using Cons.IH [OF wf2] Cons.prems(2) by (auto simp: bl Let_def o2 b2 st2 hs here)
    next
      case False
      with True show ?thesis
        using Cons.IH [OF wf2] Cons.prems(2) by (auto simp: bl hr Let_def o2 b2 st2 hs here)
    qed
  qed
qed simp

lemma challenge_member:
  "fst (challenge draw sc es xf s) = Some e \<Longrightarrow> snd xf = Some e \<or> e \<in> set es"
proof (induction es arbitrary: xf s)
  case Nil
  then show ?case by (cases xf) simp
next
  case (Cons e' es)
  obtain x found where xf: "xf = (x, found)" by (cases xf)
  obtain sm s1 where sm: "sample_score draw (ep_scope e') s = (sm, s1)" by (metis surj_pair)
  show ?case
    using Cons.IH [of "(x, found)" s] Cons.prems
      Cons.IH [of "if 0.65 < sm \<and> x < sm then (sm, Some e') else (x, found)" s1]
    by (auto simp: xf sm split: if_splits)
qed

lemma adjust_order_member: "fst (adjust_order draw chosen es s) \<in> insert chosen (set es)"
proof -
  obtain x s1 where x: "sample_score draw (ep_scope chosen) s = (x, s1)" by (metis surj_pair)
  obtain f s2 where f: "challenge draw (ep_scope chosen) es (x, None) s1 = (f, s2)" by (metis surj_pair)
  have "fst (adjust_order draw chosen es s) = (if 0.45 \<le> x then chosen else
      case f of Some best \<Rightarrow> best | None \<Rightarrow> chosen)"
    by (simp add: adjust_order_def x f)
  moreover have "\<And>e. f = Some e \<Longrightarrow> e \<in> set es"
    using challenge_member [of draw "ep_scope chosen" es "(x, None)" s1] f by simp
  ultimately show ?thesis by (cases f) auto
qed

lemma wheel_member: "wheel r ews = Some e \<Longrightarrow> e \<in> fst ` set ews"
  by (induction r ews rule: wheel.induct) (auto split: if_splits)

lemma sample_proportional_member:
  assumes "primary \<in> set es"
  shows "fst (sample_proportional flt es (ep_scope primary) q) \<in> set es"
proof (cases "filter (\<lambda>e. ep_scope e \<noteq> ep_scope primary) es = []")
  case True
  have "find (\<lambda>e. ep_scope e = ep_scope primary) es \<noteq> None"
    using assms by (auto simp: find_None_iff)
  then obtain e where e: "find (\<lambda>e. ep_scope e = ep_scope primary) es = Some e" by auto
  then have "e \<in> set es" by (auto simp: find_Some_iff)
  with True e show ?thesis by (simp add: sample_proportional_def Let_def)
next
  case False
  let ?c = "filter (\<lambda>e. ep_scope e \<noteq> ep_scope primary) es"
  obtain u q1 where u: "flt q = (u, q1)" by (cases "flt q")
  obtain r where r: "fst (sample_proportional flt es (ep_scope primary) q) =
      (case wheel r (zip ?c (map weight_of ?c)) of Some e \<Rightarrow> e | None \<Rightarrow> last ?c)"
    using False by (simp add: sample_proportional_def Let_def u)
  show ?thesis
  proof (cases "wheel r (zip ?c (map weight_of ?c))")
    case None
    then show ?thesis using r last_in_set [OF False] by simp
  next
    case (Some e)
    then show ?thesis using r wheel_member [OF Some] by (auto dest: set_zip_leftD)
  qed
qed

lemma bounded_p2c_member:
  assumes "primary \<in> set es"
  shows "fst (bounded_p2c flt es cnt primary q) \<in> set es"
proof -
  obtain ch q1 where "sample_proportional flt es (ep_scope primary) q = (ch, q1)" by (metis surj_pair)
  with sample_proportional_member [OF assms, of flt q] assms show ?thesis by (simp add: bounded_p2c_def)
qed

definition wf_pool :: "('q, 'r) pool \<Rightarrow> bool" where
  "wf_pool p \<longleftrightarrow> wf_machine (p_machine p) \<and> (\<forall>sc. 0 \<le> credits (p_drr p) sc) \<and> (\<forall>sc. 0 \<le> in_flight p sc)"

text \<open>The endpoints a selection may use: the open ones, or everyone when no gate is open.\<close>

definition usable :: "(instant \<Rightarrow> duration) \<Rightarrow> instant \<Rightarrow> ('q, 'r) pool \<Rightarrow> string \<Rightarrow> endpoint list" where
  "usable off t p family = (let os = filter (open_at off t (p_machine p) (p_led p)) (members p family)
     in if os = [] then members p family else os)"

lemma usable_sub: "set (usable off t p family) \<subseteq> set (members p family)"
  by (auto simp: usable_def Let_def)

lemma pool_select_cases:
  assumes wf: "wf_pool p" and ne: "members p family \<noteq> []"
  obtains final p1 why vetoes where
    "pool_select flt draw off t family fl p = ((Some final, \<lparr>r_family = family, r_chosen = Some final,
        r_why = why, r_vetoes = vetoes\<rparr>), p1)"
    "final \<in> set (usable off t p family)" "wf_pool p1"
    "in_flight p1 = (in_flight p)(ep_scope final := in_flight p (ep_scope final) + 1)"
    "length vetoes = length (filter (\<lambda>e. \<not> open_at off t (p_machine p) (p_led p) e) (members p family))"
    "members p1 = members p"
proof -
  let ?ms = "members p family"
  obtain g m1 l1 where gl: "gate_loop off t ?ms (p_machine p) (p_led p)
      \<lparr>g_eligible = [], g_vetoes = [], g_all_blocked = True\<rparr> = (g, m1, l1)"
    by (metis surj_pair)
  have wm: "wf_machine (p_machine p)" and cr: "\<And>sc. 0 \<le> credits (p_drr p) sc"
    and fl0: "\<And>sc. 0 \<le> in_flight p sc"
    using wf by (auto simp: wf_pool_def)
  note gr = gate_loop_result [OF wm gl]
  define el where "el = fail_open ?ms g"
  have el: "el = usable off t p family" using gr by (simp add: el_def fail_open_def usable_def Let_def)
  have "el \<noteq> []" using ne by (simp add: el_def fail_open_def)
  from drr_next_shape [OF this cr, of family]
  obtain primary d1 where dn: "drr_next family el (p_drr p) = (Some primary, d1)" and pm: "primary \<in> set el"
    by metis
  have cr1: "\<And>sc. 0 \<le> credits d1 sc" using drr_next_nonneg [OF cr, of family el] dn by simp
  define cnt where "cnt = (case fl of Some f \<Rightarrow> f | None \<Rightarrow> in_flight p)"
  obtain chosen q1 where bp: "bounded_p2c flt el cnt primary (pool_rng p) = (chosen, q1)" by (metis surj_pair)
  have cm: "chosen \<in> set el" using bounded_p2c_member [OF pm, of flt cnt "pool_rng p"] bp by simp
  obtain final s1 where ao: "adjust_order draw chosen el (p_score p) = (final, s1)" by (metis surj_pair)
  have fm: "final \<in> set el" using adjust_order_member [of draw chosen el "p_score p"] ao cm by auto
  show thesis
  proof (rule that [of final])
    show "pool_select flt draw off t family fl p = ((Some final, \<lparr>r_family = family, r_chosen = Some final,
        r_why = (if ep_scope final \<noteq> ep_scope primary then ''gates+DRR+P2C'' else ''gates+DRR''),
        r_vetoes = g_vetoes g\<rparr>),
       p\<lparr>p_machine := m1, p_led := l1, p_drr := d1, pool_rng := q1,
         p_score := s1, in_flight := (in_flight p)(ep_scope final := in_flight p (ep_scope final) + 1)\<rparr>)"
      using ne dn bp ao by (simp add: pool_select_def gl Let_def flip: el_def cnt_def)
  qed (use fm el gr cr1 fl0 in \<open>auto simp: wf_pool_def\<close>)
qed

text \<open>
  C7: Select picks a member of the family, one that is neither blocked nor out of quota whenever there
  is such a member, counts it as one more request in flight and keeps the pool well-formed; it gives up
  only on an empty family.
\<close>

theorem select_respects_gates:
  assumes "wf_pool p" "pool_select flt draw off t family fl p = ((answer, why), p1)"
  shows "case answer of
      None \<Rightarrow> members p family = [] \<and> p1 = p
    | Some e \<Rightarrow> e \<in> set (members p family) \<and>
        ((\<exists>e'\<in>set (members p family). open_at off t (p_machine p) (p_led p) e') \<longrightarrow>
          open_at off t (p_machine p) (p_led p) e) \<and>
        in_flight p1 = (in_flight p)(ep_scope e := in_flight p (ep_scope e) + 1) \<and> wf_pool p1"
proof (cases "members p family = []")
  case True
  then show ?thesis using assms(2) by (auto simp: pool_select_def Let_def)
next
  case False
  show ?thesis
    by (rule pool_select_cases [OF assms(1) False, of flt draw off t fl])
      (use assms(2) in \<open>auto simp: usable_def Let_def filter_empty_conv split: if_splits\<close>)
qed

definition sample_pool :: "(unit, unit) pool" where
  "sample_pool = set_members ''f'' sample_members (new_pool
     (set_state (ep_scope (ep_named ''a'' 30)) RateLimit hour Authoritative ''slow'' new_machine) new_ledger 0 () ())"

lemma wf_new_pool: "wf_machine m \<Longrightarrow> wf_pool (new_pool m l pf q r)"
  by (simp add: wf_pool_def new_pool_def new_drr_def)

lemma wf_set_members: "wf_pool p \<Longrightarrow> wf_pool (set_members family es p)"
  by (simp add: wf_pool_def set_members_def configure_drr_def)

lemma wf_sample_pool: "wf_pool sample_pool"
  unfolding sample_pool_def
  by (intro wf_set_members wf_new_pool inv_intros wf_new_machine)

lemma sample_pool_gates:
  "\<not> open_at (\<lambda>_. 0) 0 (p_machine sample_pool) (p_led sample_pool) (ep_named ''a'' 30)"
  "open_at (\<lambda>_. 0) 0 (p_machine sample_pool) (p_led sample_pool) (ep_named ''b'' 10)"
  by code_simp+

theorem select_respects_gates_witness:
  "wf_pool sample_pool \<and> (\<exists>why p1. pool_select (\<lambda>q. (1 / 2, q)) (\<lambda>a b r. (1 / 2, r)) (\<lambda>_. 0) 0 ''f'' None sample_pool =
     ((Some (ep_named ''b'' 10), why), p1) \<and> in_flight p1 (ep_scope (ep_named ''b'' 10)) = 1)"
proof -
  obtain answer why p1 where s: "pool_select (\<lambda>q. (1 / 2, q)) (\<lambda>a b r. (1 / 2, r)) (\<lambda>_. 0) 0 ''f'' None sample_pool =
      ((answer, why), p1)" by (metis surj_pair)
  have m: "members sample_pool ''f'' = sample_members" "in_flight sample_pool = (\<lambda>_. 0)"
    by (simp_all add: sample_pool_def set_members_def new_pool_def)
  note r = select_respects_gates [OF wf_sample_pool s]
  have "answer = Some (ep_named ''b'' 10)"
  proof (cases answer)
    case None
    with r m show ?thesis by (simp add: sample_members_def)
  next
    case (Some e)
    with r m sample_pool_gates show ?thesis by (auto simp: sample_members_def)
  qed
  with r m s wf_sample_pool show ?thesis by auto
qed

section \<open>The failover chain\<close>

lemma chain_less_order: "chain_less x y \<Longrightarrow> \<not> chain_less y x"
  "\<not> chain_less x y \<Longrightarrow> \<not> chain_less y z \<Longrightarrow> \<not> chain_less x z"
  by (auto simp: chain_less_def split: if_splits)

interpretation chain_order: weak_order chain_less
  by unfold_locales (use chain_less_order in blast)+

definition scored_at :: "machine \<Rightarrow> 'r score \<Rightarrow> endpoint \<Rightarrow> scored" where
  "scored_at m s e = \<lparr>s_endpoint = e, s_score = score_value (ep_scope e) s, s_blocked = blocked_at m (ep_scope e)\<rparr>"

lemma score_members_map:
  "wf_machine m \<Longrightarrow> fst (score_members s es m) = map (scored_at m s) es \<and> wf_machine (snd (score_members s es m))"
proof (induction es arbitrary: m)
  case (Cons e es)
  obtain b why until m1 where bl: "blocks m (ep_scope e) = ((b, why, until), m1)" by (metis surj_pair)
  have wf1: "wf_machine m1" using health_gate.obs_keeps [OF Cons.prems, of "ep_scope e"] bl by simp
  have "fst (blocks m1 sc) = fst (blocks m sc)" for sc
    using health_gate.obs_stable [OF Cons.prems, of "ep_scope e" sc] bl by simp
  then have "scored_at m1 s = scored_at m s" by (simp add: scored_at_def blocked_at_def fun_eq_iff)
  with Cons.IH [OF wf1] show ?case
    by (auto simp: bl scored_at_def blocked_at_def split: prod.splits)
qed simp

definition ranks_before :: "machine \<Rightarrow> 'r score \<Rightarrow> endpoint \<Rightarrow> endpoint \<Rightarrow> bool" where
  "ranks_before m s x y \<longleftrightarrow> (\<not> blocked_at m (ep_scope x) \<and> blocked_at m (ep_scope y)) \<or>
     (blocked_at m (ep_scope x) = blocked_at m (ep_scope y) \<and>
      score_value (ep_scope y) s < score_value (ep_scope x) s)"

lemma chain_less_scored: "chain_less (scored_at m s x) (scored_at m s y) = ranks_before m s x y"
  by (auto simp: chain_less_def scored_at_def ranks_before_def)

lemma scored_endpoint [simp]: "s_endpoint (scored_at m s e) = e"
  by (simp add: scored_at_def)

text \<open>
  The failover chain is the members, each once, unblocked before blocked and higher score first,
  ties in the order of the pool.
\<close>

lemma chain_ranks_healthy_first:
  assumes "wf_machine (p_machine p)" "pool_chain family p = (es, p1)"
  shows "mset es = mset (members p family) \<and>
    sorted_wrt (\<lambda>x y. \<not> ranks_before (p_machine p) (p_score p) y x) es \<and>
    filter (\<lambda>e. \<not> ranks_before (p_machine p) (p_score p) e z \<and> \<not> ranks_before (p_machine p) (p_score p) z e) es =
    filter (\<lambda>e. \<not> ranks_before (p_machine p) (p_score p) e z \<and> \<not> ranks_before (p_machine p) (p_score p) z e)
      (members p family)"
proof -
  let ?f = "scored_at (p_machine p) (p_score p)"
  let ?xs = "sort_stable chain_less (map ?f (members p family))"
  have es: "es = map s_endpoint ?xs"
    using assms score_members_map [OF assms(1), of "p_score p" "members p family"]
    by (auto simp: pool_chain_def split: prod.splits)
  have img: "x = ?f (s_endpoint x)" if "x \<in> set ?xs" for x using that by auto
  have xs: "?xs = map ?f es" unfolding es map_map by (rule sym, rule map_idI) (use img in auto)
  have "mset es = image_mset s_endpoint (mset ?xs)" by (simp add: es)
  also have "\<dots> = mset (members p family)" by (simp add: image_mset.compositionality o_def)
  finally have m: "mset es = mset (members p family)" .
  have "sorted_wrt (\<lambda>x y. \<not> chain_less y x) (map ?f es)"
    unfolding xs [symmetric] by (rule chain_order.sorted_sort_stable)
  then have so: "sorted_wrt (\<lambda>x y. \<not> ranks_before (p_machine p) (p_score p) y x) es"
    by (simp add: sorted_wrt_map chain_less_scored)
  have "map s_endpoint (filter (\<lambda>y. \<not> chain_less y (?f z) \<and> \<not> chain_less (?f z) y) (map ?f es)) =
      map s_endpoint (filter (\<lambda>y. \<not> chain_less y (?f z) \<and> \<not> chain_less (?f z) y) (map ?f (members p family)))"
    unfolding xs [symmetric] chain_order.sort_stable_filter by (rule refl)
  then show ?thesis using m so by (simp add: filter_map o_def chain_less_scored)
qed

section \<open>Scores\<close>

text \<open>
  After any reports, the score of an endpoint is the mean of its Beta posterior under a uniform
  prior: one plus its successes over two plus its reports.
\<close>

lemma score_is_posterior_mean:
  fixes reports :: "(scope \<times> bool \<times> duration) list" and sc :: scope and r :: "'r"
  defines "s \<equiv> fold (\<lambda>(x, ok, lat). report_score x ok lat) reports (new_score r)"
    and "wins \<equiv> length (filter (\<lambda>(x, ok, lat). x = sc \<and> ok) reports)"
    and "losses \<equiv> length (filter (\<lambda>(x, ok, lat). x = sc \<and> \<not> ok) reports)"
  shows "score_value sc s = (1 + real wins) / (2 + real wins + real losses)"
proof -
  define ab where "ab = (\<lambda>s :: 'r score. if alpha s sc = 0 \<and> beta s sc = 0 then (1, 1) else (alpha s sc, beta s sc))"
  have step: "ab (fold (\<lambda>(x, ok, lat). report_score x ok lat) rs s0) =
      (fst (ab s0) + length (filter (\<lambda>(x, ok, lat). x = sc \<and> ok) rs),
       snd (ab s0) + length (filter (\<lambda>(x, ok, lat). x = sc \<and> \<not> ok) rs))"
    if "1 \<le> fst (ab s0)" "1 \<le> snd (ab s0)" for rs s0
    using that
  proof (induction rs arbitrary: s0)
    case (Cons r rs)
    obtain x ok lat where r: "r = (x, ok, lat)" by (metis surj_pair)
    have a: "ab (report_score x ok lat s0) =
        (fst (ab s0) + (if x = sc \<and> ok then 1 else 0), snd (ab s0) + (if x = sc \<and> \<not> ok then 1 else 0))"
      using Cons.prems by (auto simp: ab_def report_score_def Let_def split: if_splits)
    show ?case using Cons.IH [of "report_score x ok lat s0"] Cons.prems by (simp add: r a)
  qed simp
  have "ab s = (1 + real wins, 1 + real losses)"
    using step [of "new_score r" reports] by (simp add: s_def wins_def losses_def ab_def new_score_def)
  then show ?thesis
    by (auto simp: ab_def score_value_def split: if_splits)
qed

section \<open>The Beta draw\<close>

lemma gamma_loop_pos: "gamma_loop d c us ns = Some (g, r) \<Longrightarrow> 0 < d \<Longrightarrow> 0 < g"
  by (induction d c us ns rule: gamma_loop.induct)
    (auto simp: Let_def not_le split: if_splits list.splits)

lemma gamma_sample_nonneg: "gamma_sample shape r = Some (g, r1) \<Longrightarrow> 0 < shape \<Longrightarrow> 0 \<le> g"
proof (induction shape r arbitrary: g r1 rule: gamma_sample.induct)
  case (1 shape r)
  show ?case
  proof (cases "shape < 1")
    case True
    with "1.prems"(1) obtain u us g0 r0 where u: "fst r = u # us"
      and g0: "gamma_sample (shape + 1) (us, snd r) = Some (g0, r0)" and g: "g = g0 * u powr (1 / shape)"
      by (subst (asm) gamma_sample.simps) (auto split: list.splits option.splits)
    have "0 \<le> g0" by (rule "1.IH" [OF True u g0]) (use "1.prems"(2) in simp)
    then show ?thesis by (simp add: g)
  next
    case False
    with "1.prems" have "gamma_loop (shape - 1 / 3) (1 / sqrt (9 * (shape - 1 / 3))) (fst r) (snd r) = Some (g, r1)"
      by (subst (asm) gamma_sample.simps) (simp add: Let_def)
    from gamma_loop_pos [OF this] False show ?thesis by simp
  qed
qed

text \<open>
  Whatever the random source yields, a Beta sample that the two gamma loops deliver lies between 0
  and 1.
\<close>

lemma beta_sample_is_a_probability:
  assumes "0 < a" "0 < b" "beta_sample a b r = Some (x, r1)"
  shows "0 \<le> x \<and> x \<le> 1"
proof -
  obtain g r2 h r3 where g: "gamma_sample a r = Some (g, r2)" and h: "gamma_sample b r2 = Some (h, r3)"
    and x: "x = (if g + h = 0 then 0.5 else g / (g + h))"
    using assms(3) by (auto simp: beta_sample_def Let_def bind_eq_Some_conv)
  have "0 \<le> g" "0 \<le> h"
    using gamma_sample_nonneg [OF g assms(1)] gamma_sample_nonneg [OF h assms(2)] by simp_all
  then show ?thesis by (auto simp: x divide_le_eq)
qed

end
