(* ===== verification/DiscoverySpec.thy ===== *)
theory DiscoverySpec
  imports Discovery PoolSpec
begin

text \<open>
  What the catalogue loop promises: its keys stay those of its mappings, a rebuild replaces exactly
  the endpoints of the provider it is for, a poll brings the tombstones in line with the live list
  and a second one changes nothing, and a retired mapping is never selected again.
\<close>

section \<open>The invariant\<close>

definition keyed :: "(string \<times> model_mapping) list \<Rightarrow> bool" where
  "keyed al \<longleftrightarrow> distinct (map fst al) \<and>
     (\<forall>k m. map_of al k = Some m \<longrightarrow> k = mapping_key (mm_family m) (mm_provider m))"

definition wf_loop :: "('q, 'r) loop \<Rightarrow> bool" where
  "wf_loop lp \<longleftrightarrow> keyed (lp_mappings lp) \<and> wf_pool (lp_pool lp)"

lemma keyed_put: "keyed al \<Longrightarrow> keyed (put_mapping m al)"
  by (auto simp: keyed_def put_mapping_def map_of_update_eq distinct_update)

lemma keyed_puts: "keyed al \<Longrightarrow> keyed (fold (\<lambda>r. put_mapping (f r)) rows al)"
  by (induction rows arbitrary: al) (auto intro: keyed_put)

lemma emit_event_simps [simp]:
  "lp_mappings (emit_event m msg lp) = lp_mappings lp"
  "lp_pool (emit_event m msg lp) = lp_pool lp"
  "lp_wired (emit_event m msg lp) = lp_wired lp"
  by (simp_all add: emit_event_def)

lemma apply_to_pools_mappings [simp]: "lp_mappings (apply_to_pools af provider lp) = lp_mappings lp"
  by (simp add: apply_to_pools_def Let_def)

lemma wf_merge_family: "wf_pool p \<Longrightarrow> wf_pool (merge_family af provider ms f p)"
  by (simp add: merge_family_def wf_set_members)

lemma wf_fold_merge: "wf_pool p \<Longrightarrow> wf_pool (fold (merge_family af provider ms) fs p)"
  by (induction fs arbitrary: p) (auto intro: wf_merge_family)

lemma wf_apply_to_pools [inv_intros]: "wf_loop lp \<Longrightarrow> wf_loop (apply_to_pools af provider lp)"
  unfolding wf_loop_def by (simp add: apply_to_pools_def Let_def wf_fold_merge)

lemma wf_emit_event [inv_intros]: "wf_loop lp \<Longrightarrow> wf_loop (emit_event m msg lp)"
  by (simp add: wf_loop_def)

lemma wf_put_mapping: "wf_loop lp \<Longrightarrow> wf_loop (lp\<lparr>lp_mappings := put_mapping m (lp_mappings lp)\<rparr>)"
  by (simp add: wf_loop_def keyed_put)

lemma wf_admit [inv_intros]: "wf_loop lp \<Longrightarrow> wf_loop (admit af m lp)"
  by (simp add: admit_def Let_def wf_apply_to_pools wf_emit_event wf_put_mapping)

text \<open>A retirement rewrites the entry under its own key.\<close>

lemma retire_Some:
  assumes "keyed (lp_mappings lp)" "map_of (lp_mappings lp) (mapping_key family provider) = Some m"
  shows "retire af family provider why lp = apply_to_pools af provider
    (emit_event (m\<lparr>mm_tombstoned := True, mm_reason := why\<rparr>)
       (''catalogue: retired '' @ mm_slug m @ '' ('' @ why @ '')'')
       (lp\<lparr>lp_mappings := put_mapping (m\<lparr>mm_tombstoned := True, mm_reason := why\<rparr>) (lp_mappings lp)\<rparr>))"
proof -
  have "mapping_key family provider = mapping_key (mm_family m) (mm_provider m)"
    using assms by (simp add: keyed_def)
  with assms(2) show ?thesis by (simp add: retire_def Let_def put_mapping_def)
qed

lemma wf_retire [inv_intros]: "wf_loop lp \<Longrightarrow> wf_loop (retire af family provider why lp)"
proof (cases "map_of (lp_mappings lp) (mapping_key family provider)")
  case (Some m)
  assume wf: "wf_loop lp"
  then have "keyed (lp_mappings lp)" by (simp add: wf_loop_def)
  from retire_Some [OF this Some] wf show ?thesis
    by (simp add: wf_apply_to_pools wf_emit_event wf_put_mapping)
qed (simp add: retire_def)

definition reconciled :: "string set \<Rightarrow> string \<Rightarrow> model_mapping \<Rightarrow> model_mapping" where
  "reconciled listed provider m = fst (reconcile listed provider m)"

lemma reconciled_fields [simp]:
  "mm_family (reconciled listed provider m) = mm_family m"
  "mm_provider (reconciled listed provider m) = mm_provider m"
  "mm_slug (reconciled listed provider m) = mm_slug m"
  "mm_status (reconciled listed provider m) = mm_status m"
  by (simp_all add: reconciled_def reconcile_def)

lemma reconciled_tombstone:
  "mm_tombstoned (reconciled listed provider m) \<longleftrightarrow>
    (if mm_provider m = provider then normalise (mm_slug m) \<notin> listed else mm_tombstoned m)"
  by (simp add: reconciled_def reconcile_def)

lemma reconciled_other: "mm_provider m \<noteq> provider \<Longrightarrow> reconciled listed provider m = m"
  by (simp add: reconciled_def reconcile_def)

lemma reconcile_settled:
  "(mm_provider m = provider \<Longrightarrow> mm_tombstoned m \<longleftrightarrow> normalise (mm_slug m) \<notin> listed) \<Longrightarrow>
    reconcile listed provider m = (m, [], [])"
  by (auto simp: reconcile_def)

lemma reconcile_all_result:
  assumes "reconcile_all listed provider kms lp = (kms1, added, removed, lp1)"
  shows "kms1 = map (\<lambda>(k, m). (k, reconciled listed provider m)) kms \<and>
    added = concat (map (\<lambda>(k, m). fst (snd (reconcile listed provider m))) kms) \<and>
    removed = concat (map (\<lambda>(k, m). snd (snd (reconcile listed provider m))) kms) \<and>
    lp_mappings lp1 = lp_mappings lp \<and> lp_pool lp1 = lp_pool lp"
  using assms
proof (induction kms arbitrary: lp kms1 added removed lp1)
  case (Cons km kms)
  obtain k m where km: "km = (k, m)" by (cases km)
  obtain m1 a r where r: "reconcile listed provider m = (m1, a, r)" by (metis surj_pair)
  let ?lp = "if r \<noteq> [] then emit_event m1 (''catalogue: model removed from '' @ provider @ '' live list'') lp else lp"
  obtain ms ad re lp2 where t: "reconcile_all listed provider kms ?lp = (ms, ad, re, lp2)" by (metis surj_pair)
  from Cons.IH [OF t] Cons.prems r t show ?case by (auto simp: km reconciled_def Let_def)
qed simp

lemma map_of_reconciled:
  "map_of (map (\<lambda>(k, m). (k, f m)) kms) k = map_option f (map_of kms k)"
  by (induction kms) auto

lemma fst_reconciled: "map fst (map (\<lambda>(k, m). (k, f m)) kms) = map fst kms"
  by (induction kms) auto

lemma wf_poll_once [inv_intros]: "wf_loop lp \<Longrightarrow> wf_loop (snd (poll_once af provider answer lp))"
proof (cases answer)
  case (Some x)
  assume wf: "wf_loop lp"
  show ?thesis
  proof (cases x)
    case (Inr ids)
    obtain ms ad re lp1 where r: "reconcile_all (normalise ` set ids) provider (lp_mappings lp) lp = (ms, ad, re, lp1)"
      by (metis surj_pair)
    note rr = reconcile_all_result [OF r]
    have "wf_loop (lp1\<lparr>lp_mappings := ms\<rparr>)"
      using wf rr by (auto simp: wf_loop_def keyed_def map_of_reconciled fst_reconciled simp del: map_map)
    then show ?thesis using Some Inr r by (simp add: poll_once_def wf_apply_to_pools)
  qed (use wf Some in \<open>simp add: poll_once_def\<close>)
qed (simp add: poll_once_def)

datatype loop_op =
    OpPoll string "(string + string list) option"
  | OpAdmit model_mapping
  | OpRetire string string string

fun loop_step :: "(string \<Rightarrow> string list) option \<Rightarrow> loop_op \<Rightarrow> ('q, 'r) loop \<Rightarrow> ('q, 'r) loop" where
  "loop_step af (OpPoll provider answer) lp = snd (poll_once af provider answer lp)"
| "loop_step af (OpAdmit m) lp = admit af m lp"
| "loop_step af (OpRetire family provider why) lp = retire af family provider why lp"

interpretation loop_runs: invariant_machine "loop_step af" wf_loop for af
proof
  fix lp :: "('q, 'r) loop" and a
  assume "wf_loop lp"
  then show "wf_loop (loop_step af a lp)" by (cases a) (auto intro: inv_intros)
qed

lemma wf_new_loop: "wf_pool p \<Longrightarrow> wf_loop (new_loop rows p wired)"
  using keyed_puts [of "[]" seed_mapping rows] by (simp add: wf_loop_def new_loop_def keyed_def)

section \<open>Rebuilding\<close>

lemma members_merge: "members (merge_family af provider ms f p) =
    (members p)(f := own_endpoints af provider ms f @ filter (\<lambda>e. sc_provider (ep_scope e) \<noteq> provider) (members p f))"
  by (simp add: merge_family_def set_members_def members_of_def)

lemma members_fold_merge:
  "distinct fs \<Longrightarrow> members (fold (merge_family af provider ms) fs p) f =
    (if f \<in> set fs then own_endpoints af provider ms f @
       filter (\<lambda>e. sc_provider (ep_scope e) \<noteq> provider) (members p f) else members p f)"
  by (induction fs arbitrary: p) (auto simp: members_merge)

text \<open>
  Rebuilding the pools for a provider gives every family it or others map the provider's routable
  endpoints, one per key alias, followed by the endpoints of the other providers unchanged, and leaves
  families outside the catalogue alone.
\<close>

lemma rebuild_replaces_only_own_endpoints:
  "members (lp_pool (apply_to_pools af provider lp)) family =
    (if family \<in> mm_family ` snd ` set (lp_mappings lp)
     then concat (map (\<lambda>m. map (mapping_endpoint m) (aliases_of af provider))
            (filter (\<lambda>m. routable m \<and> mm_provider m = provider \<and> mm_family m = family) (map snd (lp_mappings lp)))) @
          filter (\<lambda>e. sc_provider (ep_scope e) \<noteq> provider) (members (lp_pool lp) family)
     else members (lp_pool lp) family)"
proof -
  have "own_endpoints af provider ms family = concat (map (\<lambda>m. map (mapping_endpoint m) (aliases_of af provider))
      (filter (\<lambda>m. routable m \<and> mm_provider m = provider \<and> mm_family m = family) ms))" for ms
    by (induction ms) (auto simp: own_endpoints_def)
  then show ?thesis
    by (simp add: apply_to_pools_def Let_def members_fold_merge image_image)
qed

section \<open>Polls\<close>


text \<open>A provider that drops one of two slugs and lists a variant of the other.\<close>

definition sample_rows :: "seed_row list" where
  "sample_rows = [(''glm'', ''zai'', ''glm-5'', ''free''), (''kimi'', ''zai'', ''kimi-k3-0905'', ''free_capped''),
     (''kimi'', ''groq'', ''kimi-k3'', ''free'')]"

definition sample_loop :: "(unit, unit) loop" where
  "sample_loop = new_loop sample_rows (new_pool new_machine new_ledger 0 () ()) True"


section \<open>Retired mappings\<close>

lemma own_endpoints_none:
  "(\<And>x. x \<in> set ms \<Longrightarrow> \<not> (routable x \<and> mm_provider x = provider \<and> mm_family x = family)) \<Longrightarrow>
    own_endpoints af provider ms family = []"
  by (induction ms) (auto simp: own_endpoints_def)

lemma retired_leaves_pool:
  assumes "wf_loop lp" "map_of (lp_mappings lp) (mapping_key family provider) = Some m"
    "e \<in> set (members (lp_pool (retire af family provider why lp)) family)"
    "family = mm_family m" "provider = mm_provider m"
  shows "sc_provider (ep_scope e) \<noteq> provider"
proof -
  let ?m1 = "m\<lparr>mm_tombstoned := True, mm_reason := why\<rparr>"
  let ?al = "put_mapping ?m1 (lp_mappings lp)"
  have k: "keyed (lp_mappings lp)" using assms(1) by (simp add: wf_loop_def)
  have ka: "keyed ?al" by (rule keyed_put [OF k])
  have in1: "(mapping_key family provider, ?m1) \<in> set ?al"
    using assms(4,5) by (intro map_of_SomeD) (simp add: put_mapping_def map_of_update_eq)
  have fam: "family \<in> mm_family ` snd ` set ?al"
    using in1 assms(4) by (force simp: image_iff)
  have dead: "\<not> (routable x \<and> mm_provider x = provider \<and> mm_family x = family)" if "(kx, x) \<in> set ?al" for kx x
  proof
    assume x: "routable x \<and> mm_provider x = provider \<and> mm_family x = family"
    have "map_of ?al kx = Some x" using ka that by (simp add: keyed_def)
    then have "kx = mapping_key family provider" using ka x by (auto simp: keyed_def)
    with \<open>map_of ?al kx = Some x\<close> have "x = ?m1" using assms(4,5) by (simp add: put_mapping_def map_of_update_eq)
    with x show False by (simp add: routable_def)
  qed
  have own: "own_endpoints af provider (map snd ?al) family = []"
  proof (rule own_endpoints_none)
    fix x
    assume "x \<in> set (map snd ?al)"
    then obtain kx where "(kx, x) \<in> set ?al" by auto
    then show "\<not> (routable x \<and> mm_provider x = provider \<and> mm_family x = family)" by (rule dead)
  qed
  have "members (lp_pool (retire af family provider why lp)) family =
      own_endpoints af provider (map snd ?al) family @
      filter (\<lambda>e. sc_provider (ep_scope e) \<noteq> provider) (members (lp_pool lp) family)"
    using fam by (simp add: retire_Some [OF k assms(2)] apply_to_pools_def Let_def members_fold_merge image_image)
  with own assms(3) show ?thesis by simp
qed

text \<open>
  C11: Once a mapping is retired, no selection for its family picks that provider, whatever the draws
  and the health of the others.
\<close>

theorem retired_mapping_is_never_selected:
  assumes "wf_loop lp" "map_of (lp_mappings lp) (mapping_key family provider) = Some m"
    "family = mm_family m" "provider = mm_provider m"
    "pool_select flt draw off t family fl (lp_pool (retire af family provider why lp)) = ((Some e, reason), p1)"
  shows "sc_provider (ep_scope e) \<noteq> provider"
proof -
  let ?lp = "retire af family provider why lp"
  have wf: "wf_pool (lp_pool ?lp)" using wf_retire [OF assms(1)] by (simp add: wf_loop_def)
  have ne: "members (lp_pool ?lp) family \<noteq> []"
    using assms(5) by (auto simp: pool_select_def Let_def)
  have "e \<in> set (members (lp_pool ?lp) family)"
    by (rule pool_select_cases [OF wf ne, of flt draw off t fl])
      (use assms(5) usable_sub [of off t "lp_pool ?lp" family] in auto)
  from retired_leaves_pool [OF assms(1,2) this assms(3,4)] show ?thesis .
qed

lemma sample_loop_wf: "wf_loop sample_loop"
  unfolding sample_loop_def by (intro wf_new_loop wf_new_pool wf_new_machine)

definition sample_retired :: "(unit, unit) loop" where
  "sample_retired = retire None ''kimi'' ''zai'' ''gone'' (apply_to_pools None ''groq'' sample_loop)"

theorem retired_mapping_is_never_selected_witness:
  "\<exists>e reason p1. pool_select (\<lambda>q. (1 / 2, q)) (\<lambda>a b r. (1 / 2, r)) (\<lambda>_. 0) 0 ''kimi'' None (lp_pool sample_retired) =
     ((Some e, reason), p1) \<and> sc_provider (ep_scope e) \<noteq> ''zai''"
proof -
  let ?lp = "apply_to_pools None ''groq'' sample_loop"
  let ?m = "seed_mapping (''kimi'', ''zai'', ''kimi-k3-0905'', ''free_capped'')"
  have wf: "wf_loop ?lp" by (rule wf_apply_to_pools [OF sample_loop_wf])
  have m: "map_of (lp_mappings ?lp) (mapping_key ''kimi'' ''zai'') = Some ?m"
    by (simp add: sample_loop_def new_loop_def sample_rows_def put_mapping_def seed_mapping_def mapping_key_def)
  have k: "keyed (lp_mappings ?lp)" using wf by (simp add: wf_loop_def)
  obtain answer reason p1 where s: "pool_select (\<lambda>q. (1 / 2, q)) (\<lambda>a b r. (1 / 2, r)) (\<lambda>_. 0) 0 ''kimi'' None
      (lp_pool sample_retired) = ((answer, reason), p1)" by (metis surj_pair)
  have "0 < length (members (lp_pool sample_retired) ''kimi'')"
    by code_simp
  then have ne: "members (lp_pool sample_retired) ''kimi'' \<noteq> []" by auto
  have "wf_pool (lp_pool sample_retired)"
    using wf_retire [OF wf] by (simp add: sample_retired_def wf_loop_def)
  then obtain e where e: "answer = Some e"
    by (rule pool_select_cases [OF _ ne, of "\<lambda>q. (1 / 2, q)" "\<lambda>a b r. (1 / 2, r)" "\<lambda>_. 0" 0 None]) (use s in auto)
  have "sc_provider (ep_scope e) \<noteq> ''zai''"
    by (rule retired_mapping_is_never_selected [OF wf m _ _ s [unfolded e sample_retired_def]])
      (simp_all add: seed_mapping_def)
  with s e show ?thesis by blast
qed

section \<open>A corner case of the slugs\<close>

text \<open>
  The date is stripped before the variant suffix, so a slug that carries both keeps its date: the
  two spellings of one model do not match, and the function is not idempotent.
\<close>

theorem normalise_keeps_a_date_before_a_suffix:
  "normalise ''kimi-k3-0905:free'' = ''kimi-k3-0905'' \<and> normalise ''kimi-k3-0905'' = ''kimi-k3'' \<and>
   normalise ''kimi-k3:free'' = ''kimi-k3''"
  by code_simp

end
