(* ===== verification/Sse.thy ===== *)
theory Sse
  imports Classify
begin

text \<open>
  Server-sent events of a provider stream (internal/upstream/sse.go): cutting the byte stream into
  frames and recognising the frames that carry content. The reader is a byte string with the error
  it ends in (None for end of file); the callback is a function on a caller's state.
\<close>

record sse_event =
  sse_data :: string
  sse_done :: bool

definition done_frame :: string where
  "done_frame = ''[DONE]''"

text \<open>The frame a line stands for, if it is a data line with something in it.\<close>

definition sse_line :: "string \<Rightarrow> sse_event option" where
  "sse_line line =
    (let trimmed = trim_right_if (\<lambda>c. c = char_of (13::nat) \<or> c = char_of (10::nat)) line in
     if prefix ''data:'' trimmed then
       (let data = trim_space (trim_prefix ''data:'' trimmed) in
        if data = [] then None
        else if data = done_frame then Some \<lparr>sse_data = data, sse_done = True\<rparr>
        else Some \<lparr>sse_data = data, sse_done = False\<rparr>)
     else None)"

text \<open>
  The read loop on the lines of the stream. The last piece is what follows the last newline; it is
  read together with the end. A terminal frame ends the loop with the callback's answer.
\<close>

fun parse_lines :: "(sse_event \<Rightarrow> 's \<Rightarrow> string option \<times> 's) \<Rightarrow> string option \<Rightarrow> string list \<Rightarrow> 's \<Rightarrow>
    string option \<times> 's" where
  "parse_lines emit fin [] s = (fin, s)"
| "parse_lines emit fin (line # rest) s =
    (case sse_line line of
      None \<Rightarrow> parse_lines emit fin rest s
    | Some ev \<Rightarrow> (case emit ev s of (err, s1) \<Rightarrow>
        if sse_done ev then (err, s1)
        else if err \<noteq> None then (err, s1)
        else parse_lines emit fin rest s1))"

definition parse_sse :: "(sse_event \<Rightarrow> 's \<Rightarrow> string option \<times> 's) \<Rightarrow> string option \<Rightarrow> string \<Rightarrow> 's \<Rightarrow>
    string option \<times> 's" where
  "parse_sse emit fin body s = parse_lines emit fin (split_byte newline body) s"

section \<open>Content of a chunk\<close>

record chunk_delta =
  cd_role :: string
  cd_content :: string
  cd_tool_calls :: "json option"

record choice =
  ch_delta :: chunk_delta
  ch_finish :: string

record chunk =
  ck_choices :: "choice list"
  ck_error :: "json option"

definition zero_choice :: choice where
  "zero_choice = \<lparr>ch_delta = \<lparr>cd_role = [], cd_content = [], cd_tool_calls = None\<rparr>, ch_finish = []\<rparr>"

definition zero_chunk :: chunk where
  "zero_chunk = \<lparr>ck_choices = [], ck_error = None\<rparr>"

definition delta_field :: "string \<Rightarrow> json \<Rightarrow> chunk_delta \<Rightarrow> chunk_delta \<times> bool" where
  "delta_field k v d =
    (if key_is ''role'' k then (case decode_string v (cd_role d) of (s, ok) \<Rightarrow> (d\<lparr>cd_role := s\<rparr>, ok))
     else if key_is ''content'' k then
       (case decode_string v (cd_content d) of (s, ok) \<Rightarrow> (d\<lparr>cd_content := s\<rparr>, ok))
     else if key_is ''tool_calls'' k then (d\<lparr>cd_tool_calls := decode_any v\<rparr>, True)
     else (d, True))"

definition choice_field :: "string \<Rightarrow> json \<Rightarrow> choice \<Rightarrow> choice \<times> bool" where
  "choice_field k v c =
    (if key_is ''delta'' k then
       (case decode_members delta_field v (ch_delta c) of (d, ok) \<Rightarrow> (c\<lparr>ch_delta := d\<rparr>, ok))
     else if key_is ''finish_reason'' k then
       (case decode_string v (ch_finish c) of (s, ok) \<Rightarrow> (c\<lparr>ch_finish := s\<rparr>, ok))
     else (c, True))"

definition decode_choices :: "json \<Rightarrow> choice list \<times> bool" where
  "decode_choices v = (case v of JNull \<Rightarrow> ([], True)
    | JArr us \<Rightarrow> (let rs = map (\<lambda>u. decode_members choice_field u zero_choice) us
        in (map fst rs, list_all snd rs))
    | _ \<Rightarrow> ([], False))"

definition chunk_field :: "string \<Rightarrow> json \<Rightarrow> chunk \<Rightarrow> chunk \<times> bool" where
  "chunk_field k v c =
    (if key_is ''choices'' k then (case decode_choices v of (cs, ok) \<Rightarrow> (c\<lparr>ck_choices := cs\<rparr>, ok))
     else if key_is ''error'' k then (c\<lparr>ck_error := decode_any v\<rparr>, True)
     else (c, True))"

definition unmarshal_chunk :: "string \<Rightarrow> chunk \<times> bool" where
  "unmarshal_chunk data = (case json_value (trim_space data) of None \<Rightarrow> (zero_chunk, False)
    | Some v \<Rightarrow> decode_members chunk_field v zero_chunk)"

definition content_of :: "string \<Rightarrow> string \<times> string \<times> bool" where
  "content_of data =
    (case unmarshal_chunk data of (c, ok) \<Rightarrow>
      if \<not> ok then ([], [], False)
      else (case ck_choices c of [] \<Rightarrow> ([], [], False)
        | ch # _ \<Rightarrow>
            if ch_finish ch \<noteq> [] \<and> ch_finish ch \<noteq> ''null'' then ([], ch_finish ch, False)
            else if cd_content (ch_delta ch) \<noteq> [] then (cd_content (ch_delta ch), [], True)
            else ([], [], False)))"

section \<open>What the parser emits\<close>

text \<open>The frames of a body up to and including the first terminal one.\<close>

fun upto_done :: "sse_event list \<Rightarrow> sse_event list" where
  "upto_done [] = []"
| "upto_done (ev # evs) = ev # (if sse_done ev then [] else upto_done evs)"

definition frames_of :: "string \<Rightarrow> sse_event list" where
  "frames_of body = upto_done (List.map_filter sse_line (split_byte newline body))"

definition collect :: "sse_event \<Rightarrow> sse_event list \<Rightarrow> string option \<times> sse_event list" where
  "collect ev evs = (None, evs @ [ev])"

lemma sse_line_data: "sse_line line = Some ev \<Longrightarrow>
    sse_data ev \<noteq> [] \<and> sse_done ev = (sse_data ev = done_frame) \<and> trim_space (sse_data ev) = sse_data ev"
proof -
  have "trim_space (trim_space s) = trim_space s" for s
  proof -
    have "\<not> is_space (hd (dropWhile is_space s))" if "dropWhile is_space s \<noteq> []" for s
      using hd_dropWhile that by blast
    define u where "u = dropWhile is_space s"
    define v where "v = rev (dropWhile is_space (rev u))"
    have v: "trim_space s = v" by (simp add: trim_space_def trim_left_if_def trim_right_if_def u_def v_def)
    have last: "dropWhile is_space (rev v) = rev v" by (simp add: v_def dropWhile_idem)
    have "dropWhile is_space v = v"
    proof (cases "v = []")
      case False
      obtain w where w: "u = v @ w"
        using takeWhile_dropWhile_id [of is_space "rev u"] unfolding v_def
        by (metis rev_append rev_rev_ident)
      have "u \<noteq> []" using w False by simp
      then have "\<not> is_space (hd u)" unfolding u_def by (rule hd_dropWhile)
      moreover have "hd u = hd v" using w False by simp
      ultimately show ?thesis using False by (cases v) auto
    qed simp
    then show ?thesis unfolding v
      by (simp add: trim_space_def trim_left_if_def trim_right_if_def last)
  qed
  moreover assume "sse_line line = Some ev"
  ultimately show ?thesis by (auto simp: sse_line_def Let_def split: if_splits) metis+
qed

lemma parse_lines_collect:
  "parse_lines collect fin ls evs =
    (if list_ex sse_done (List.map_filter sse_line ls) then None else fin,
     evs @ upto_done (List.map_filter sse_line ls))"
  by (induction ls arbitrary: evs)
    (auto simp: map_filter_simps collect_def split: option.splits)

text \<open>
  The stream parser emits the data frames of the body in order up to and including the first
  terminal one, never an empty frame, and reports the read error only when no terminal frame came.
\<close>

lemma parse_sse_emits_frames:
  "parse_sse collect fin body [] =
      (if list_ex sse_done (frames_of body) then None else fin, frames_of body) \<and>
   (\<forall>ev\<in>set (frames_of body). sse_data ev \<noteq> [] \<and> sse_done ev = (sse_data ev = ''[DONE]'')) \<and>
   list_all (\<lambda>ev. \<not> sse_done ev) (butlast (frames_of body))"
proof -
  have ex: "list_ex sse_done (upto_done evs) = list_ex sse_done evs" for evs by (induction evs) auto
  have sub: "set (upto_done evs) \<subseteq> set evs" for evs by (induction evs) auto
  have bl: "list_all (\<lambda>ev. \<not> sse_done ev) (butlast (upto_done evs))" for evs
    by (induction evs) auto
  have "sse_data ev \<noteq> [] \<and> sse_done ev = (sse_data ev = ''[DONE]'')" if "ev \<in> set (frames_of body)" for ev
    using that sub sse_line_data unfolding frames_of_def
    by (fastforce simp: List.map_filter_def done_frame_def)
  then show ?thesis using bl
    by (simp add: parse_sse_def parse_lines_collect frames_of_def ex)
qed

definition sample_body :: string where
  "sample_body = ''event: x'' @ [newline] @ ''data: {}'' @ [newline] @ ''data:'' @ [newline] @ ''data: [DONE]'' @ [newline] @ ''data: late''"

end
