(* ===== verification/Walk.thy ===== *)
theory Walk
  imports PoolSpec Sse
begin

text \<open>
  The streaming walk (internal/upstream/walk.go): one chat request through the failover chain of a
  family. Providers are a function from a scope and the instant of the call to what they do: when
  \<open>Start\<close> returns and with what, and at which instants the lines of the body arrive. The client is a
  callback on a state of its own. Go's select is resolved by time; when a timer and a line fall on
  the same instant the timer wins. The parser goroutine ends when the walk closes the body, so
  nothing is emitted after \<open>stream\<close> has returned.
\<close>

section \<open>Configuration and providers\<close>

record walk_config =
  per_attempt_hedge :: duration
  total_budget :: duration
  idle_timeout :: duration
  hard_ceiling :: duration

definition default_walk_config :: walk_config where
  "default_walk_config = \<lparr>per_attempt_hedge = 20 * second, total_budget = 45 * second,
     idle_timeout = 30 * second, hard_ceiling = 300 * second\<rparr>"

text \<open>The body of an accepted request: timed lines, then what is left and how the stream ends.\<close>

record body_stream =
  bs_lines :: "(instant \<times> string) list"
  bs_end :: instant
  bs_rest :: string
  bs_err :: "string option"

text \<open>A response; \<open>sr_error_body\<close> is what reading an error body gives.\<close>

record start_result =
  sr_status :: int
  sr_headers :: headers
  sr_error_body :: string
  sr_stream :: body_stream

record attempt =
  at_done :: instant
  at_result :: "start_result option"
  at_err :: "string option"

text \<open>\<open>None\<close> when the registry knows no adapter for the provider.\<close>

type_synonym providers = "endpoint \<Rightarrow> instant \<Rightarrow> attempt option"

section \<open>Classifying a failure\<close>

definition reset_from_hints :: "ceiling_hint list \<Rightarrow> instant" where
  "reset_from_hints hs = (case find (\<lambda>h. h_dim h = ''reset_at'' \<and> 0 < h_val h) hs of
     Some h \<Rightarrow> unix_time \<lfloor>h_val h\<rfloor> | None \<Rightarrow> zero_time)"

text \<open>\<open>time.Duration\<close> is an int64: multiplication wraps around.\<close>

definition wrap64 :: "int \<Rightarrow> int" where
  "wrap64 i = (i + 2 ^ 63) mod 2 ^ 64 - 2 ^ 63"

text \<open>\<open>Sscanf\<close> with \<open>%d\<close>: leading blanks, a sign, digits; what follows is ignored.\<close>

definition scan_int :: "string \<Rightarrow> int option" where
  "scan_int s =
    (case parse_sign (dropWhile is_space s) of (neg, r) \<Rightarrow>
      let ds = takeWhile is_digit r in
      if ds = [] then None
      else (let v = (if neg then - int (digits_val ds) else int (digits_val ds))
            in if - (2 ^ 63) \<le> v \<and> v < 2 ^ 63 then Some v else None))"

definition retry_after :: "headers \<Rightarrow> duration" where
  "retry_after h =
    (if h = None then 0
     else (let v = header_get h ''Retry-After'' in
       if v = [] then 0
       else (case scan_int v of Some secs \<Rightarrow> if 0 < secs then wrap64 (secs * second) else 0 | None \<Rightarrow> 0)))"

text \<open>What \<open>applyClassification\<close> sets: the state, its time, its provenance and its reason.\<close>

definition verdict_state :: "instant \<Rightarrow> verdict \<Rightarrow> ceiling_hint list \<Rightarrow> headers \<Rightarrow>
    hstate \<times> duration \<times> provenance \<times> string" where
  "verdict_state t v hs h = (case v_kind v of
      Retryable \<Rightarrow> (RateLimit, 90 * second, Heuristic, v_details v)
    | KeyFatal \<Rightarrow> (Terminal, 24 * hour, Heuristic, v_details v @ '' (key-fatal: mark key invalid)'')
    | ModelFatal \<Rightarrow> (Terminal, 24 * hour, Heuristic, v_details v @ '' (model-fatal: retire mapping)'')
    | OverloadQuota \<Rightarrow>
        (let reset = reset_from_hints hs; ttl = reset - t;
             ttl1 = (if ttl \<le> 0 then 10 * minute else ttl)
         in if reset = zero_time then (Quota, 10 * minute, Heuristic, v_details v)
            else (Quota, ttl1, Authoritative, v_details v))
    | RateLimitHit \<Rightarrow>
        (if 0 < retry_after h then (RateLimit, retry_after h, Authoritative, v_details v)
         else (RateLimit, 90 * second, Heuristic, v_details v))
    | UnknownRateLimit \<Rightarrow> (RateLimit, 90 * second, Heuristic, v_details v))"

definition set_health :: "scope \<Rightarrow> hstate \<times> duration \<times> provenance \<times> string \<Rightarrow> ('q, 'r) pool \<Rightarrow> ('q, 'r) pool" where
  "set_health sc x p = (case x of (st, ttl, prov, why) \<Rightarrow>
     p\<lparr>p_machine := set_state sc st ttl prov why (p_machine p)\<rparr>)"

definition apply_classification :: "instant \<Rightarrow> scope \<Rightarrow> int \<Rightarrow> string \<Rightarrow> headers \<Rightarrow> ('q, 'r) pool \<Rightarrow> ('q, 'r) pool" where
  "apply_classification t sc status body h p =
    (let v = dispatch (sc_provider sc) status body h;
         hints = parse_ceilings (sc_provider sc) body h;
         p1 = (if hints = [] then p else p\<lparr>p_led := learn_from_response t sc hints (p_led p)\<rparr>)
     in set_health sc (verdict_state t v hints h) p1)"

definition record_failure :: "instant \<Rightarrow> scope \<Rightarrow> start_result option \<Rightarrow> string option \<Rightarrow> ('q, 'r) pool \<Rightarrow> ('q, 'r) pool" where
  "record_failure t sc res err p =
    (let status = (case res of Some r \<Rightarrow> sr_status r | None \<Rightarrow> 0);
         h = (case res of Some r \<Rightarrow> sr_headers r | None \<Rightarrow> None);
         body = (case res of Some r \<Rightarrow> if err = None then take 65536 (sr_error_body r) else [] | None \<Rightarrow> [])
     in apply_classification t sc status body h (report_outcome sc False 0 p))"

definition record_stream_failure :: "scope \<Rightarrow> string \<Rightarrow> ('q, 'r) pool \<Rightarrow> ('q, 'r) pool" where
  "record_stream_failure sc err p =
    set_health sc (Circuit, 90 * second, Heuristic, ''pre-commit stream failure: '' @ err)
      (report_outcome sc False 0 p)"

section \<open>One stream\<close>

text \<open>
  The state of a stream: the client, what was sent to it in this walk, whether the response is
  committed, whether a terminal frame was seen, and when the idle timer fires.
\<close>

record 'e stream_state =
  ss_client :: 'e
  ss_log :: "(scope \<times> sse_event) list"
  ss_committed :: bool
  ss_terminal :: bool
  ss_watch :: instant

definition send :: "(sse_event \<Rightarrow> 'e \<Rightarrow> string option \<times> 'e) \<Rightarrow> scope \<Rightarrow> sse_event \<Rightarrow> 'e stream_state \<Rightarrow>
    string option \<times> 'e stream_state" where
  "send emit sc ev s = (case emit ev (ss_client s) of (err, c) \<Rightarrow>
     (err, s\<lparr>ss_client := c, ss_log := ss_log s @ [(sc, ev)]\<rparr>))"

definition bears_content :: "sse_event \<Rightarrow> bool" where
  "bears_content ev \<longleftrightarrow> \<not> sse_done ev \<and> (case content_of (sse_data ev) of (text, finish, ok) \<Rightarrow> ok \<and> text \<noteq> [])"

text \<open>The callback the parser runs for every frame, at the instant the frame arrives.\<close>

definition relay :: "walk_config \<Rightarrow> (sse_event \<Rightarrow> 'e \<Rightarrow> string option \<times> 'e) \<Rightarrow> scope \<Rightarrow> instant \<Rightarrow> instant \<Rightarrow>
    sse_event \<Rightarrow> 'e stream_state \<Rightarrow> string option \<times> 'e stream_state" where
  "relay cfg emit sc hard t ev s =
    (if hard \<le> t then (Some ''hard ceiling exceeded'', s)
     else if sse_done ev then send emit sc ev (s\<lparr>ss_terminal := True\<rparr>)
     else (case content_of (sse_data ev) of (text, finish, ok) \<Rightarrow>
       let s1 = (if finish \<noteq> [] then s\<lparr>ss_terminal := True\<rparr> else s) in
       if \<not> ok \<or> text = [] then send emit sc ev s1
       else send emit sc ev (s1\<lparr>ss_committed := True, ss_watch := t + idle_timeout cfg\<rparr>)))"

definition truncated :: string where
  "truncated = ''stream truncated: EOF without terminal frame''"

definition idle_fired :: string where
  "idle_fired = ''idle watchdog fired: no content''"

definition ctx_err :: string where
  "ctx_err = ''context deadline exceeded''"

text \<open>A parser that stopped: end of file without a terminal frame is an error.\<close>

definition parser_verdict :: "string option \<Rightarrow> 'e stream_state \<Rightarrow> string option" where
  "parser_verdict err s = (if err = None \<and> \<not> ss_terminal s then Some truncated else err)"

text \<open>
  The walk waits for the parser, the idle timer and the context, whichever is first. \<open>dl\<close> is the
  instant the attempt's context ends; the answer carries the instant the wait ended.
\<close>

fun stream_loop :: "walk_config \<Rightarrow> (sse_event \<Rightarrow> 'e \<Rightarrow> string option \<times> 'e) \<Rightarrow> scope \<Rightarrow> instant \<Rightarrow> instant \<Rightarrow>
    (instant \<times> string) list \<Rightarrow> instant \<times> string option \<Rightarrow> 'e stream_state \<Rightarrow>
    string option \<times> instant \<times> 'e stream_state" where
  "stream_loop cfg emit sc hard dl [] (t, fin) s =
    (if min (ss_watch s) dl \<le> t then
       (Some (if ss_watch s \<le> dl then idle_fired else ctx_err), min (ss_watch s) dl, s)
     else (parser_verdict fin s, t, s))"
| "stream_loop cfg emit sc hard dl ((t, line) # rest) fin s =
    (if min (ss_watch s) dl \<le> t then
       (Some (if ss_watch s \<le> dl then idle_fired else ctx_err), min (ss_watch s) dl, s)
     else (case sse_line line of
        None \<Rightarrow> stream_loop cfg emit sc hard dl rest fin s
      | Some ev \<Rightarrow> (case relay cfg emit sc hard t ev s of (err, s1) \<Rightarrow>
          if sse_done ev \<or> err \<noteq> None then (parser_verdict err s1, t, s1)
          else stream_loop cfg emit sc hard dl rest fin s1)))"

definition stream :: "walk_config \<Rightarrow> (sse_event \<Rightarrow> 'e \<Rightarrow> string option \<times> 'e) \<Rightarrow> scope \<Rightarrow> instant \<Rightarrow> instant \<Rightarrow>
    body_stream \<Rightarrow> 'e stream_state \<Rightarrow> string option \<times> instant \<times> 'e stream_state" where
  "stream cfg emit sc t0 dl b s =
    stream_loop cfg emit sc (t0 + hard_ceiling cfg) dl (bs_lines b @ [(bs_end b, bs_rest b)]) (bs_end b, bs_err b)
      (s\<lparr>ss_terminal := False, ss_watch := t0 + idle_timeout cfg\<rparr>)"

section \<open>The walk\<close>

record ('q, 'r, 'e) walk_state =
  w_pool :: "('q, 'r) pool"
  w_clock :: instant
  w_committed :: bool
  w_client :: 'e
  w_log :: "(scope \<times> sse_event) list"

datatype walk_result = Served | NoEndpoints string | AllFailed | ErrCommitted

definition walk_cost :: amounts where
  "walk_cost = [(''rpm'', 1), (''rpd'', 1)]"

text \<open>\<open>Start\<close> honours its context: it is back at the deadline at the latest, with the context's error.\<close>

definition start_within :: "instant \<Rightarrow> attempt \<Rightarrow> attempt" where
  "start_within dl a = (if dl \<le> at_done a then \<lparr>at_done = dl, at_result = None, at_err = Some ctx_err\<rparr> else a)"

definition accepted :: "attempt \<Rightarrow> start_result option" where
  "accepted a = (if at_err a \<noteq> None then None
     else (case at_result a of None \<Rightarrow> None
       | Some r \<Rightarrow> if sr_status r < 200 \<or> 300 \<le> sr_status r then None else Some r))"

text \<open>
  One hop of the loop: None to go on with the next endpoint, or the walk's result. \<open>cend\<close> is the
  instant the walk's own context ends.
\<close>

definition walk_hop :: "walk_config \<Rightarrow> (instant \<Rightarrow> duration) \<Rightarrow> providers \<Rightarrow> (sse_event \<Rightarrow> 'e \<Rightarrow> string option \<times> 'e) \<Rightarrow>
    instant \<Rightarrow> endpoint \<Rightarrow> ('q, 'r, 'e) walk_state \<Rightarrow> walk_result option \<times> ('q, 'r, 'e) walk_state" where
  "walk_hop cfg off prov emit cend ep w =
    (let sc = ep_scope ep; p = w_pool w in
     case reserve off (w_clock w) sc walk_cost (p_led p) of
       (Inl d, l1) \<Rightarrow> (None, w\<lparr>w_pool := p\<lparr>p_led := l1\<rparr>\<rparr>)
     | (Inr lease, l1) \<Rightarrow>
         let p1 = p\<lparr>p_led := l1\<rparr>; dl = min cend (w_clock w + per_attempt_hedge cfg);
             release = (\<lambda>p. p\<lparr>p_led := release_lease (Some lease) (p_led p)\<rparr>)
         in case prov ep (w_clock w) of
           None \<Rightarrow> (None, w\<lparr>w_pool := release p1\<rparr>)
         | Some a0 \<Rightarrow>
             let a = start_within dl a0; t = max (w_clock w) (at_done a) in
             case accepted a of
               None \<Rightarrow> (None, w\<lparr>w_pool := release (record_failure t sc (at_result a) (at_err a) p1), w_clock := t\<rparr>)
             | Some r \<Rightarrow>
                 (case stream cfg emit sc t dl (sr_stream r)
                     \<lparr>ss_client = w_client w, ss_log = w_log w, ss_committed = w_committed w,
                      ss_terminal = False, ss_watch = t\<rparr> of (err, t1, s) \<Rightarrow>
                   let w1 = w\<lparr>w_clock := max t t1, w_committed := ss_committed s, w_client := ss_client s, w_log := ss_log s\<rparr>
                   in case err of
                     None \<Rightarrow> (Some Served, w1\<lparr>w_pool := (report_outcome sc True 0 p1)
                                \<lparr>p_machine := success sc (p_machine (report_outcome sc True 0 p1))\<rparr>\<rparr>)
                   | Some e \<Rightarrow>
                       if ss_committed s then (Some ErrCommitted, w1\<lparr>w_pool := report_outcome sc False 0 p1\<rparr>)
                       else (None, w1\<lparr>w_pool := release (record_stream_failure sc e p1)\<rparr>)))"

fun walk_loop :: "walk_config \<Rightarrow> (instant \<Rightarrow> duration) \<Rightarrow> providers \<Rightarrow> (sse_event \<Rightarrow> 'e \<Rightarrow> string option \<times> 'e) \<Rightarrow>
    instant \<Rightarrow> endpoint list \<Rightarrow> ('q, 'r, 'e) walk_state \<Rightarrow> walk_result \<times> ('q, 'r, 'e) walk_state" where
  "walk_loop cfg off prov emit cend [] w = (if w_committed w then ErrCommitted else AllFailed, w)"
| "walk_loop cfg off prov emit cend (ep # eps) w =
    (if cend \<le> w_clock w then (if w_committed w then ErrCommitted else AllFailed, w)
     else (case walk_hop cfg off prov emit cend ep w of
        (Some res, w1) \<Rightarrow> (res, w1)
      | (None, w1) \<Rightarrow> walk_loop cfg off prov emit cend eps w1))"

text \<open>\<open>cancel\<close> is the instant the caller's context ends, if it does.\<close>

definition walk_run :: "walk_config \<Rightarrow> (instant \<Rightarrow> duration) \<Rightarrow> providers \<Rightarrow> (sse_event \<Rightarrow> 'e \<Rightarrow> string option \<times> 'e) \<Rightarrow>
    instant option \<Rightarrow> string \<Rightarrow> ('q, 'r, 'e) walk_state \<Rightarrow> walk_result \<times> ('q, 'r, 'e) walk_state" where
  "walk_run cfg off prov emit cancel family w0 =
    (let w = w0\<lparr>w_committed := False, w_log := []\<rparr>;
         budget = w_clock w + total_budget cfg;
         cend = (case cancel of Some c \<Rightarrow> min c budget | None \<Rightarrow> budget)
     in case pool_chain family (w_pool w) of (chain, p1) \<Rightarrow>
       let w1 = w\<lparr>w_pool := p1\<rparr> in
       if chain = [] then (NoEndpoints (''no endpoints for '' @ family), w1)
       else walk_loop cfg off prov emit cend chain w1)"

end
