(* ===== verification/WalkSpec.thy ===== *)
theory WalkSpec
  imports Walk
begin

text \<open>
  What the walk promises: no second provider is spliced into a half-delivered answer, success
  means a terminal frame was relayed, a walk ends within its budget, only the endpoint that served
  is charged, and an endpoint that failed is behind its health gate afterwards.
\<close>

section \<open>Streams\<close>

definition terminal_frame :: "sse_event \<Rightarrow> bool" where
  "terminal_frame ev \<longleftrightarrow> sse_done ev \<or> fst (snd (content_of (sse_data ev))) \<noteq> []"

lemma send_result:
  "ss_log (snd (send emit sc ev s)) = ss_log s @ [(sc, ev)]"
  "ss_committed (snd (send emit sc ev s)) = ss_committed s"
  "ss_terminal (snd (send emit sc ev s)) = ss_terminal s"
  "ss_watch (snd (send emit sc ev s)) = ss_watch s"
  by (simp_all add: send_def split: prod.splits)

lemma relay_result:
  "\<exists>evs. ss_log (snd (relay cfg emit sc hard t ev s)) = ss_log s @ map (Pair sc) evs \<and> set evs \<subseteq> {ev} \<and>
     (ss_committed (snd (relay cfg emit sc hard t ev s)) \<longleftrightarrow> ss_committed s \<or> (\<exists>e\<in>set evs. bears_content e)) \<and>
     (ss_terminal (snd (relay cfg emit sc hard t ev s)) \<longleftrightarrow> ss_terminal s \<or> (\<exists>e\<in>set evs. terminal_frame e))"
proof (cases "hard \<le> t")
  case True
  then show ?thesis by (intro exI [of _ "[]"]) (simp add: relay_def)
next
  case False
  then show ?thesis
    by (intro exI [of _ "[ev]"])
      (auto simp: relay_def send_result bears_content_def terminal_frame_def Let_def split: prod.splits)
qed

lemma stream_loop_result:
  assumes "stream_loop cfg emit sc hard dl lines fin s = (err, t1, s1)"
  shows "\<exists>evs. ss_log s1 = ss_log s @ map (Pair sc) evs \<and>
     (ss_committed s1 \<longleftrightarrow> ss_committed s \<or> (\<exists>e\<in>set evs. bears_content e)) \<and>
     (ss_terminal s1 \<longleftrightarrow> ss_terminal s \<or> (\<exists>e\<in>set evs. terminal_frame e)) \<and>
     (err = None \<longrightarrow> ss_terminal s1) \<and> t1 \<le> dl"
  using assms
proof (induction cfg emit sc hard dl lines fin s rule: stream_loop.induct)
  case (1 cfg emit sc hard dl t fin s)
  then show ?case by (intro exI [of _ "[]"]) (auto simp: parser_verdict_def split: if_splits)
next
  case (2 cfg emit sc hard dl t line rest fin s)
  show ?case
  proof (cases "min (ss_watch s) dl \<le> t")
    case True
    with 2(3) show ?thesis by (intro exI [of _ "[]"]) (auto split: if_splits)
  next
    case live: False
    show ?thesis
    proof (cases "sse_line line")
      case None
      with 2 live show ?thesis by simp
    next
      case (Some ev)
      obtain err2 s2 where r: "relay cfg emit sc hard t ev s = (err2, s2)" by (metis surj_pair)
      obtain evs where evs: "ss_log s2 = ss_log s @ map (Pair sc) evs"
        "ss_committed s2 \<longleftrightarrow> ss_committed s \<or> (\<exists>e\<in>set evs. bears_content e)"
        "ss_terminal s2 \<longleftrightarrow> ss_terminal s \<or> (\<exists>e\<in>set evs. terminal_frame e)"
        using relay_result [of cfg emit sc hard t ev s] r by auto
      show ?thesis
      proof (cases "sse_done ev \<or> err2 \<noteq> None")
        case True
        then have "err = parser_verdict err2 s2" "t1 = t" "s1 = s2" using 2(3) live Some r by auto
        with evs live show ?thesis by (intro exI [of _ evs]) (auto simp: parser_verdict_def split: if_splits)
      next
        case False
        then have "stream_loop cfg emit sc hard dl rest fin s2 = (err, t1, s1)" using 2(3) live Some r by auto
        from 2(2) [OF live Some r [symmetric] False this]
        obtain evs2 where "ss_log s1 = ss_log s2 @ map (Pair sc) evs2"
          "ss_committed s1 \<longleftrightarrow> ss_committed s2 \<or> (\<exists>e\<in>set evs2. bears_content e)"
          "ss_terminal s1 \<longleftrightarrow> ss_terminal s2 \<or> (\<exists>e\<in>set evs2. terminal_frame e)"
          "err = None \<longrightarrow> ss_terminal s1" "t1 \<le> dl" by blast
        with evs show ?thesis by (intro exI [of _ "evs @ evs2"]) (simp add: bex_Un disj_assoc)
      qed
    qed
  qed
qed

section \<open>One hop\<close>

lemma hop_result:
  assumes "walk_hop cfg off prov emit cend ep w = (r, w1)" "\<not> w_committed w" "w_clock w < cend"
  shows "\<exists>evs. w_log w1 = w_log w @ map (Pair (ep_scope ep)) evs \<and>
     (w_committed w1 \<longleftrightarrow> (\<exists>e\<in>set evs. bears_content e)) \<and>
     (case r of None \<Rightarrow> \<not> w_committed w1 | Some res \<Rightarrow>
        res = Served \<and> (\<exists>e\<in>set evs. terminal_frame e) \<or> res = ErrCommitted \<and> w_committed w1) \<and>
     w_clock w \<le> w_clock w1 \<and> w_clock w1 \<le> cend"
proof -
  let ?sc = "ep_scope ep"
  let ?dl = "min cend (w_clock w + per_attempt_hedge cfg)"
  show ?thesis
  proof (cases "fst (reserve off (w_clock w) ?sc walk_cost (p_led (w_pool w)))")
    case (Inl d)
    with assms show ?thesis
      by (intro exI [of _ "[]"]) (auto simp: walk_hop_def Let_def split: prod.splits)
  next
    case (Inr lease)
    then obtain l1 where l1: "reserve off (w_clock w) ?sc walk_cost (p_led (w_pool w)) = (Inr lease, l1)"
      by (metis prod.collapse)
    show ?thesis
    proof (cases "prov ep (w_clock w)")
      case None
      with assms l1 show ?thesis
        by (intro exI [of _ "[]"]) (auto simp: walk_hop_def Let_def)
    next
      case (Some a0)
      define a where "a = start_within ?dl a0"
      have ad: "at_done a \<le> cend" "at_err a = None \<Longrightarrow> at_done a < ?dl"
        by (auto simp: a_def start_within_def split: if_splits)
      show ?thesis
      proof (cases "accepted a")
        case None
        then have "r = None" "w_clock w1 = max (w_clock w) (at_done a)" "w_log w1 = w_log w"
          "w_committed w1 = w_committed w"
          using assms(1) l1 Some by (auto simp: walk_hop_def Let_def simp flip: a_def)
        with assms ad show ?thesis by (intro exI [of _ "[]"]) auto
      next
        case acc: (Some res)
        let ?t = "max (w_clock w) (at_done a)"
        let ?s0 = "\<lparr>ss_client = w_client w, ss_log = w_log w, ss_committed = w_committed w,
            ss_terminal = False, ss_watch = ?t\<rparr>"
        obtain err t1 s where st: "stream cfg emit ?sc ?t ?dl (sr_stream res) ?s0 = (err, t1, s)" by (metis surj_pair)
        obtain evs where e: "ss_log s = w_log w @ map (Pair ?sc) evs"
          "ss_committed s \<longleftrightarrow> (\<exists>e\<in>set evs. bears_content e)"
          "err = None \<longrightarrow> (\<exists>e\<in>set evs. terminal_frame e)" "t1 \<le> ?dl"
          using stream_loop_result [OF st [unfolded stream_def]] assms(2) by auto
        have w1: "w_log w1 = ss_log s" "w_committed w1 = ss_committed s" "w_clock w1 = max ?t t1"
          and r: "r = (case err of None \<Rightarrow> Some Served
             | Some e \<Rightarrow> if ss_committed s then Some ErrCommitted else None)"
          using assms(1) l1 Some acc st
          by (auto simp: walk_hop_def Let_def simp flip: a_def split: option.splits if_splits)
        show ?thesis
          using e w1 r ad assms by (intro exI [of _ evs]) (auto split: option.splits if_splits)
      qed
    qed
  qed
qed

section \<open>No splice\<close>

definition silent :: "(scope \<times> sse_event) list \<Rightarrow> bool" where
  "silent sent \<longleftrightarrow> (\<forall>(sc, ev)\<in>set sent. \<not> bears_content ev)"

lemma silent_append [simp]: "silent (xs @ ys) \<longleftrightarrow> silent xs \<and> silent ys"
  by (auto simp: silent_def)

lemma silent_map: "silent (map (Pair sc) evs) \<longleftrightarrow> (\<forall>e\<in>set evs. \<not> bears_content e)"
  by (auto simp: silent_def)

definition honest :: "walk_result \<Rightarrow> sse_event list \<Rightarrow> bool" where
  "honest res evs \<longleftrightarrow> (case res of
      Served \<Rightarrow> \<exists>ev\<in>set evs. terminal_frame ev
    | ErrCommitted \<Rightarrow> \<exists>ev\<in>set evs. bears_content ev
    | _ \<Rightarrow> \<forall>ev\<in>set evs. \<not> bears_content ev)"

lemma loop_result:
  assumes "walk_loop cfg off prov emit cend eps w = (res, w1)" "\<not> w_committed w"
  shows "\<exists>pre sc evs. w_log w1 = w_log w @ pre @ map (Pair sc) evs \<and> silent pre \<and> honest res evs \<and>
     (\<forall>m. res \<noteq> NoEndpoints m) \<and> w_clock w \<le> w_clock w1 \<and> w_clock w1 \<le> max (w_clock w) cend"
  using assms
proof (induction cfg off prov emit cend eps w rule: walk_loop.induct)
  case (1 cfg off prov emit cend w)
  then show ?case
    by (intro exI [of _ "[]"]) (auto simp: silent_def honest_def)
next
  case (2 cfg off prov emit cend ep eps w)
  show ?case
  proof (cases "cend \<le> w_clock w")
    case True
    with 2 show ?thesis by (intro exI [of _ "[]"]) (auto simp: silent_def honest_def)
  next
    case live: False
    obtain r w2 where h: "walk_hop cfg off prov emit cend ep w = (r, w2)" by (metis surj_pair)
    from hop_result [OF h "2.prems"(2)] live obtain evs where
      e: "w_log w2 = w_log w @ map (Pair (ep_scope ep)) evs"
      "w_committed w2 \<longleftrightarrow> (\<exists>e\<in>set evs. bears_content e)"
      "case r of None \<Rightarrow> \<not> w_committed w2 | Some res \<Rightarrow>
        res = Served \<and> (\<exists>e\<in>set evs. terminal_frame e) \<or> res = ErrCommitted \<and> w_committed w2"
      "w_clock w \<le> w_clock w2" "w_clock w2 \<le> cend" by auto
    show ?thesis
    proof (cases r)
      case None
      with "2.prems" live h have l: "walk_loop cfg off prov emit cend eps w2 = (res, w1)" by simp
      have nc: "\<not> w_committed w2" using e(3) None by simp
      from "2.IH" [OF live h [symmetric] None l nc]
      obtain pre sc evs2 where "w_log w1 = w_log w2 @ pre @ map (Pair sc) evs2" "silent pre" "honest res evs2"
        "\<forall>m. res \<noteq> NoEndpoints m" "w_clock w2 \<le> w_clock w1" "w_clock w1 \<le> max (w_clock w2) cend" by blast
      with e nc show ?thesis
        by (intro exI [of _ "map (Pair (ep_scope ep)) evs @ pre"] exI [of _ sc] exI [of _ evs2])
          (auto simp: silent_map)
    next
      case (Some res2)
      then have "res = res2" "w1 = w2" using "2.prems" live h by auto
      with Some e show ?thesis
        by (intro exI [of _ "[]"] exI [of _ "ep_scope ep"] exI [of _ evs])
          (auto simp: silent_def honest_def)
    qed
  qed
qed

lemma run_result:
  assumes "walk_run cfg off prov emit cancel family w0 = (res, w1)"
  shows "\<exists>pre sc evs. w_log w1 = pre @ map (Pair sc) evs \<and> silent pre \<and> honest res evs \<and>
    w_clock w0 \<le> w_clock w1 \<and>
    w_clock w1 \<le> max (w_clock w0) (case cancel of Some c \<Rightarrow> min c (w_clock w0 + total_budget cfg)
      | None \<Rightarrow> w_clock w0 + total_budget cfg)"
proof -
  let ?cend = "case cancel of Some c \<Rightarrow> min c (w_clock w0 + total_budget cfg)
      | None \<Rightarrow> w_clock w0 + total_budget cfg"
  let ?w = "w0\<lparr>w_committed := False, w_log := []\<rparr>"
  obtain chain p1 where c: "pool_chain family (w_pool w0) = (chain, p1)" by (metis surj_pair)
  show ?thesis
  proof (cases "chain = []")
    case True
    with assms c show ?thesis
      by (intro exI [of _ "[]"]) (auto simp: walk_run_def Let_def silent_def honest_def)
  next
    case False
    with assms c have "walk_loop cfg off prov emit ?cend chain (?w\<lparr>w_pool := p1\<rparr>) = (res, w1)"
      by (cases cancel) (simp_all add: walk_run_def Let_def)
    from loop_result [OF this] show ?thesis by auto
  qed
qed



section \<open>What a walk charges\<close>

definition nonneg :: "ledger \<Rightarrow> bool" where
  "nonneg l \<longleftrightarrow> (\<forall>sc d. 0 \<le> spent_of l sc d)"

text \<open>At most \<open>extra\<close> more is spent afterwards, in every scope and dimension.\<close>

definition spends :: "(scope \<Rightarrow> string \<Rightarrow> rat) \<Rightarrow> ledger \<Rightarrow> ledger \<Rightarrow> bool" where
  "spends extra l l1 \<longleftrightarrow> nonneg l1 \<and> (\<forall>sc d. spent_of l1 sc d \<le> spent_of l sc d + extra sc d)"

definition charge :: "scope \<Rightarrow> scope \<Rightarrow> string \<Rightarrow> rat" where
  "charge sc = (\<lambda>sc' d. if sc' = sc then units_in walk_cost d else 0)"

definition no_charge :: "scope \<Rightarrow> string \<Rightarrow> rat" where
  "no_charge = (\<lambda>sc d. 0)"

lemma walk_cost_proper: "proper_cost walk_cost" "distinct (map fst walk_cost)"
  by (simp_all add: proper_cost_def walk_cost_def)

lemma spends_trans:
  "spends no_charge l l1 \<Longrightarrow> spends x l1 l2 \<Longrightarrow> spends x l l2"
  by (fastforce simp: spends_def no_charge_def intro: order_trans add_right_mono)

lemma spends_refl: "nonneg l \<Longrightarrow> spends no_charge l l"
  by (simp add: spends_def no_charge_def)

lemma spends_roll: "nonneg l \<Longrightarrow> spends no_charge l (roll_window off t sc l)"
  by (simp add: spends_def no_charge_def nonneg_def spent_of_roll)

lemma spends_learn: "nonneg l \<Longrightarrow> spends no_charge l (learn_from_response t sc hs l)"
proof (induction hs arbitrary: l)
  case (Cons h hs)
  have s: "spends no_charge l (learn_hint t sc h l)"
    using Cons.prems
    by (simp add: spends_def no_charge_def nonneg_def learn_hint_def learn_reset) (simp add: spent_of_def)
  then have "nonneg (learn_hint t sc h l)" by (simp add: spends_def)
  from spends_trans [OF s Cons.IH [OF this]] show ?case by (simp add: learn_from_response_def)
qed (simp add: learn_from_response_def spends_refl)

lemma spent_of_release_max:
  assumes "proper_cost (le_dims le)" "nonneg l"
  shows "spent_of (release_lease (Some le) l) sc d = max 0 (spent_of l sc d - lease_units sc d le)"
proof (cases "spent l (le_scope le)")
  case None
  with assms proper_units [OF assms(1), of d] show ?thesis
    by (auto simp: release_lease_def spent_of_def lease_units_def nonneg_def split: option.splits)
next
  case (Some f)
  have f: "0 \<le> f d'" for d'
    using assms(2) Some by (auto simp: nonneg_def spent_of_def dest: spec [of _ "le_scope le"])
  have "distinct (map fst (le_dims le))" using assms(1) by (simp add: proper_cost_def)
  from fold_sub_units [OF this, of f d] f
  have "fold sub_units (le_dims le) f d = (if d \<in> set (map fst (le_dims le))
      then max 0 (f d - units_in (le_dims le) d) else f d)" by simp
  moreover have "0 \<le> spent_of l sc d" using assms(2) by (simp add: nonneg_def)
  ultimately show ?thesis using Some f units_in_absent [of d "le_dims le"]
    by (auto simp: release_lease_def spent_of_def lease_units_def)
qed

lemma spends_reserve:
  assumes "nonneg l" "reserve off t sc walk_cost l = (r, l1)"
  shows "case r of Inl d \<Rightarrow> spends no_charge l l1
    | Inr le \<Rightarrow> spends (charge sc) l l1 \<and> le_scope le = sc \<and> le_dims le = walk_cost"
proof (cases r)
  case (Inl d)
  then have "l1 = roll_window off t sc l" using assms(2) by (auto simp: reserve_def Let_def split: option.splits)
  with Inl spends_roll [OF assms(1)] show ?thesis by simp
next
  case (Inr le)
  have le: "le_scope le = sc" "le_dims le = walk_cost"
    using assms(2) Inr by (auto simp: reserve_def Let_def split: option.splits)
  have "spent_of l1 sc' d = spent_of (roll_window off t sc l) sc' d + charge sc sc' d" for sc' d
    using spent_of_reserve [OF walk_cost_proper(2) assms(2) [unfolded Inr]] by (simp add: charge_def)
  moreover have "0 \<le> charge sc sc' d" for sc' d by (simp add: charge_def proper_units walk_cost_proper)
  ultimately show ?thesis using Inr le spends_roll [OF assms(1), of off t sc]
    by (simp add: spends_def nonneg_def no_charge_def)
qed

lemma spends_give_back:
  assumes "spends (charge sc) l l1" "spends no_charge l1 l2" "le_scope le = sc" "le_dims le = walk_cost" "nonneg l"
  shows "spends no_charge l (release_lease (Some le) l2)"
proof -
  have "lease_units sc' d le = charge sc sc' d" for sc' d
    using assms(3,4) by (simp add: lease_units_def charge_def)
  then have "spent_of (release_lease (Some le) l2) sc' d = max 0 (spent_of l2 sc' d - charge sc sc' d)" for sc' d
    using assms(2,4) by (subst spent_of_release_max) (simp_all add: walk_cost_proper spends_def)
  moreover have "spent_of l2 sc' d \<le> spent_of l sc' d + charge sc sc' d" for sc' d
    using assms(1,2) by (fastforce simp: spends_def no_charge_def intro: order_trans)
  moreover have "0 \<le> spent_of l sc' d" for sc' d using assms(5) by (simp add: nonneg_def)
  ultimately show ?thesis by (simp add: spends_def no_charge_def nonneg_def algebra_simps)
qed

lemma led_simps [simp]:
  "p_led (report_outcome sc ok lat p) = p_led p"
  "p_led (set_health sc x p) = p_led p"
  "p_led (record_stream_failure sc e p) = p_led p"
  by (simp_all add: report_outcome_def set_health_def record_stream_failure_def split: prod.splits)

lemma record_failure_led: "\<exists>hs. p_led (record_failure t sc res err p) = learn_from_response t sc hs (p_led p)"
proof -
  have "learn_from_response t sc [] l = l" for l by (simp add: learn_from_response_def)
  then show ?thesis
    by (auto simp: record_failure_def apply_classification_def Let_def) metis+
qed

lemma hop_charges:
  assumes "walk_hop cfg off prov emit cend ep w = (r, w1)" "nonneg (p_led (w_pool w))"
  shows "spends (case r of None \<Rightarrow> no_charge | Some _ \<Rightarrow> charge (ep_scope ep)) (p_led (w_pool w)) (p_led (w_pool w1))"
proof -
  let ?sc = "ep_scope ep" and ?l = "p_led (w_pool w)"
  obtain x l1 where rs: "reserve off (w_clock w) ?sc walk_cost ?l = (x, l1)" by (metis surj_pair)
  note c = spends_reserve [OF assms(2) rs]
  show ?thesis
  proof (cases x)
    case (Inl d)
    with assms(1) rs c show ?thesis by (auto simp: walk_hop_def Let_def)
  next
    case (Inr le)
    with c have s: "spends (charge ?sc) ?l l1" and le: "le_scope le = ?sc" "le_dims le = walk_cost" by simp_all
    have n1: "nonneg l1" using s by (simp add: spends_def)
    have paid: "spends no_charge ?l (release_lease (Some le) l1)"
      by (rule spends_give_back [OF s spends_refl [OF n1] le assms(2)])
    have learned: "spends no_charge ?l (release_lease (Some le) (learn_from_response t ?sc hs l1))" for t hs
      by (rule spends_give_back [OF s spends_learn [OF n1] le assms(2)])
    show ?thesis
    proof (cases "prov ep (w_clock w)")
      case None
      with assms(1) rs Inr paid show ?thesis by (auto simp: walk_hop_def Let_def)
    next
      case (Some a0)
      define a where "a = start_within (min cend (w_clock w + per_attempt_hedge cfg)) a0"
      show ?thesis
      proof (cases "accepted a")
        case None
        let ?p1 = "w_pool w\<lparr>p_led := l1\<rparr>"
        have r: "r = None" and w1: "p_led (w_pool w1) = release_lease (Some le)
            (p_led (record_failure (max (w_clock w) (at_done a)) ?sc (at_result a) (at_err a) ?p1))"
          using assms(1) rs Inr Some None by (auto simp: walk_hop_def Let_def simp flip: a_def)
        obtain hs where "p_led (record_failure (max (w_clock w) (at_done a)) ?sc (at_result a) (at_err a) ?p1) =
            learn_from_response (max (w_clock w) (at_done a)) ?sc hs (p_led ?p1)"
          using record_failure_led by blast
        with r w1 learned show ?thesis by simp
      next
        case acc: (Some res)
        have "case r of None \<Rightarrow> p_led (w_pool w1) = release_lease (Some le) l1 | Some _ \<Rightarrow> p_led (w_pool w1) = l1"
          using assms(1) rs Inr Some acc
          by (auto simp: walk_hop_def Let_def simp flip: a_def split: option.splits if_splits prod.splits)
        with s paid show ?thesis by (auto split: option.splits)
      qed
    qed
  qed
qed

lemma loop_charges:
  assumes "walk_loop cfg off prov emit cend eps w = (res, w1)" "nonneg (p_led (w_pool w))"
  shows "\<exists>x. spends x (p_led (w_pool w)) (p_led (w_pool w1)) \<and>
    (x = no_charge \<or> res \<noteq> AllFailed \<and> (\<exists>ep\<in>set eps. x = charge (ep_scope ep)))"
  using assms
proof (induction cfg off prov emit cend eps w rule: walk_loop.induct)
  case (1 cfg off prov emit cend w)
  then show ?case by (auto intro: spends_refl)
next
  case (2 cfg off prov emit cend ep eps w)
  show ?case
  proof (cases "cend \<le> w_clock w")
    case True
    with 2 show ?thesis by (auto intro: spends_refl)
  next
    case live: False
    obtain r w2 where h: "walk_hop cfg off prov emit cend ep w = (r, w2)" by (metis surj_pair)
    note c = hop_charges [OF h "2.prems"(2)]
    show ?thesis
    proof (cases r)
      case None
      with "2.prems" live h have l: "walk_loop cfg off prov emit cend eps w2 = (res, w1)" by simp
      have s: "spends no_charge (p_led (w_pool w)) (p_led (w_pool w2))" using c None by simp
      then have n: "nonneg (p_led (w_pool w2))" by (simp add: spends_def)
      from "2.IH" [OF live h [symmetric] None l n] spends_trans [OF s]
      show ?thesis by fastforce
    next
      case (Some res2)
      moreover have "res2 \<noteq> AllFailed"
        using h Some by (auto simp: walk_hop_def Let_def split: sum.splits option.splits prod.splits if_splits)
      ultimately show ?thesis using "2.prems" live h c by auto
    qed
  qed
qed

lemma pool_chain_led: "p_led (snd (pool_chain family p)) = p_led p"
  by (simp add: pool_chain_def split: prod.splits)

lemma pool_chain_members: "wf_machine (p_machine p) \<Longrightarrow> set (fst (pool_chain family p)) = set (members p family)"
  using score_members_map [of "p_machine p" "p_score p" "members p family"]
  by (auto simp: pool_chain_def image_iff split: prod.splits)

text \<open>
  A walk leaves the ledger with no more spend than before, or with one request more for a single
  member of the family, and that only when it did not fail on all endpoints.
\<close>

lemma walk_charges_only_its_server:
  assumes "\<forall>sc d. 0 \<le> spent_of (p_led (w_pool w0)) sc d" "wf_machine (p_machine (w_pool w0))"
    "walk_run cfg off prov emit cancel family w0 = (res, w1)"
  shows "(\<forall>sc d. spent_of (p_led (w_pool w1)) sc d \<le> spent_of (p_led (w_pool w0)) sc d) \<or>
    res \<noteq> AllFailed \<and> (\<exists>ep\<in>set (members (w_pool w0) family). \<forall>sc d. spent_of (p_led (w_pool w1)) sc d \<le>
       spent_of (p_led (w_pool w0)) sc d +
       (if sc = ep_scope ep \<and> d \<in> {''rpm'', ''rpd''} then 1 else 0))"
proof -
  obtain chain p1 where c: "pool_chain family (w_pool w0) = (chain, p1)" by (metis surj_pair)
  have l: "p_led p1 = p_led (w_pool w0)" using pool_chain_led [of family "w_pool w0"] c by simp
  have m: "set chain = set (members (w_pool w0) family)"
    using pool_chain_members [OF assms(2), of family] c by simp
  have n: "nonneg (p_led p1)" using assms(1) l by (simp add: nonneg_def)
  show ?thesis
  proof (cases "chain = []")
    case True
    with assms(3) c l have "p_led (w_pool w1) = p_led (w_pool w0)" by (auto simp: walk_run_def Let_def)
    then show ?thesis by simp
  next
    case False
    let ?cend = "case cancel of Some c \<Rightarrow> min c (w_clock w0 + total_budget cfg)
        | None \<Rightarrow> w_clock w0 + total_budget cfg"
    let ?w = "w0\<lparr>w_committed := False, w_log := [], w_pool := p1\<rparr>"
    have "walk_loop cfg off prov emit ?cend chain ?w = (res, w1)"
      using assms(3) c False by (cases cancel) (simp_all add: walk_run_def Let_def)
    from loop_charges [OF this] n l m obtain x where x: "spends x (p_led (w_pool w0)) (p_led (w_pool w1))"
      "x = no_charge \<or> res \<noteq> AllFailed \<and> (\<exists>ep\<in>set (members (w_pool w0) family). x = charge (ep_scope ep))"
      by auto
    have "units_in walk_cost d = (if d \<in> {''rpm'', ''rpd''} then 1 else 0)" for d by (simp add: walk_cost_def)
    then have "charge sc = (\<lambda>sc' d. if sc' = sc \<and> d \<in> {''rpm'', ''rpd''} then 1 else 0)" for sc
      by (auto simp: charge_def fun_eq_iff)
    moreover have "\<forall>sc d. spent_of (p_led (w_pool w1)) sc d \<le> spent_of (p_led (w_pool w0)) sc d + x sc d"
      using x(1) by (simp add: spends_def)
    ultimately show ?thesis using x(2) by (auto simp only: no_charge_def add_0_right)
  qed
qed

text \<open>Two providers: the first is out of quota, the second streams an answer.\<close>

definition content_line :: "string \<Rightarrow> string" where
  "content_line text = ''data: {\"choices\":[{\"delta\":{\"content\":\"'' @ text @ ''\"}}]}''"

definition empty_stream :: body_stream where
  "empty_stream = \<lparr>bs_lines = [], bs_end = 0, bs_rest = [], bs_err = None\<rparr>"

definition streaming :: "(duration \<times> string) list \<Rightarrow> duration \<Rightarrow> instant \<Rightarrow> attempt" where
  "streaming ls fin t = \<lparr>at_done = t + second, at_result = Some \<lparr>sr_status = 200, sr_headers = None,
     sr_error_body = [], sr_stream = \<lparr>bs_lines = map (\<lambda>(d, l). (t + d, l)) ls, bs_end = t + fin, bs_rest = [],
       bs_err = None\<rparr>\<rparr>, at_err = None\<rparr>"

definition refusing :: "int \<Rightarrow> string \<Rightarrow> instant \<Rightarrow> attempt" where
  "refusing status body t = \<lparr>at_done = t + second, at_result = Some \<lparr>sr_status = status, sr_headers = None,
     sr_error_body = body, sr_stream = empty_stream\<rparr>, at_err = None\<rparr>"

definition record_client :: "sse_event \<Rightarrow> string list \<Rightarrow> string option \<times> string list" where
  "record_client ev c = (None, c @ [sse_data ev])"

definition walk_start :: "(unit, unit, string list) walk_state" where
  "walk_start = \<lparr>w_pool = set_members ''f'' sample_members (new_pool (tick (unix_time 1000) new_machine) new_ledger 0 () ()),
     w_clock = unix_time 1000, w_committed = False, w_client = [], w_log = []\<rparr>"

definition two_providers :: providers where
  "two_providers ep t = Some (if sc_provider (ep_scope ep) = ''a'' then refusing 503 ''busy'' t
     else streaming [(2 * second, content_line ''hi''), (3 * second, ''data: [DONE]'')] (4 * second) t)"

lemma nonneg_new_ledger: "0 \<le> spent_of new_ledger sc d"
  by (simp add: new_ledger_def spent_of_def)

section \<open>After a failure\<close>

lemma blocked_iff_view:
  assumes "wf_machine m"
  shows "blocked_at m sc \<longleftrightarrow> (\<exists>st e. view m sc st = Some e)"
proof -
  obtain r where "fst (blocks m sc) = gate_answer r" "earliest_of {e. \<exists>st. view m sc st = Some e} r"
    using blocks_answer [OF assms] .
  then show ?thesis by (cases r) (auto simp: blocked_at_def gate_answer_def earliest_of_def)
qed

lemma granted: "\<not> isl (fst x) \<Longrightarrow> \<exists>le l. x = (Inr le, l)"
  by (cases x; cases "fst x") auto

lemma ladder_pos: "0 < base \<Longrightarrow> 0 < ladder base n"
  by (simp add: ladder_def duration_defs)

lemma gate_ttl_pos: "0 < ttl \<Longrightarrow> 0 < gate_ttl st ttl prov why n"
  by (simp add: gate_ttl_def ladder_pos) (simp add: duration_defs)

lemma set_health_blocks:
  assumes "wf_machine (p_machine p)" "x = (st, ttl, prov, why)" "0 < ttl"
  shows "blocked_at (p_machine (set_health sc x p)) sc \<and> wf_machine (p_machine (set_health sc x p))"
proof -
  let ?m = "set_state sc st ttl prov why (p_machine p)"
  have m: "p_machine (set_health sc x p) = ?m" by (simp add: set_health_def assms(2))
  have wf: "wf_machine ?m" by (intro inv_intros assms(1))
  have "\<exists>e. view ?m sc st = Some e"
    using gate_ttl_pos [OF assms(3), of st prov why] by (simp add: view_set_state Let_def)
  then show ?thesis using m wf blocked_iff_view [OF wf, of sc] by auto
qed

lemma verdict_ttl_pos: "verdict_state t v hs h = (st, ttl, prov, why) \<Longrightarrow> 0 < ttl"
  by (auto simp: verdict_state_def Let_def duration_defs split: class_kind.splits if_splits)

lemma machine_simps [simp]:
  "p_machine (report_outcome sc ok lat p) = p_machine p"
  by (simp add: report_outcome_def)

text \<open>
  An endpoint that was tried and failed before any content is blocked in the health machine right
  after the hop.
\<close>

lemma failed_hop_closes_the_gate:
  assumes "wf_machine (p_machine (w_pool w))" "walk_hop cfg off prov emit cend ep w = (None, w1)"
    "prov ep (w_clock w) = Some a"
    "\<not> isl (fst (reserve off (w_clock w) (ep_scope ep) walk_cost (p_led (w_pool w))))"
  shows "blocked_at (p_machine (w_pool w1)) (ep_scope ep) \<and> wf_machine (p_machine (w_pool w1))"
proof -
  let ?sc = "ep_scope ep"
  obtain le l1 where rs: "reserve off (w_clock w) ?sc walk_cost (p_led (w_pool w)) = (Inr le, l1)"
    using granted [OF assms(4)] by blast
  define a1 where "a1 = start_within (min cend (w_clock w + per_attempt_hedge cfg)) a"
  let ?p1 = "w_pool w\<lparr>p_led := l1\<rparr>"
  show ?thesis
  proof (cases "accepted a1")
    case None
    let ?t = "max (w_clock w) (at_done a1)"
    have m: "p_machine (w_pool w1) = p_machine (record_failure ?t ?sc (at_result a1) (at_err a1) ?p1)"
      using assms(2,3) rs None by (auto simp: walk_hop_def Let_def simp flip: a1_def)
    obtain v hs h q where rf: "record_failure ?t ?sc (at_result a1) (at_err a1) ?p1 = set_health ?sc (verdict_state ?t v hs h) q"
      and q: "p_machine q = p_machine (w_pool w)"
      by (auto simp: record_failure_def apply_classification_def Let_def report_outcome_def)
    obtain st ttl pr why where vs: "verdict_state ?t v hs h = (st, ttl, pr, why)" by (metis surj_pair)
    show ?thesis
      using set_health_blocks [OF _ vs verdict_ttl_pos [OF vs], of q ?sc] assms(1) q m rf vs by simp
  next
    case (Some r)
    then obtain e where "p_machine (w_pool w1) = p_machine (record_stream_failure ?sc e ?p1)"
      using assms(2,3) rs
      by (auto simp: walk_hop_def Let_def simp flip: a1_def split: option.splits if_splits prod.splits)
    then show ?thesis
      using set_health_blocks [OF _ refl, of "report_outcome ?sc False 0 ?p1" "90 * second" ?sc Circuit Heuristic] assms(1)
      by (simp add: record_stream_failure_def duration_defs)
  qed
qed

section \<open>Constants that never act\<close>

text \<open>
  The attempt's context ends 20 seconds after the attempt began and also governs a committed
  stream, so with the default configuration neither the 30-second idle watchdog nor the 300-second
  ceiling ever decides anything, and a committed answer that takes longer is cut off.
\<close>

lemma relay_relax:
  assumes "t < h1" "t < h2"
  shows "fst (relay c1 emit sc h1 t ev s) = fst (relay c2 emit sc h2 t ev (s\<lparr>ss_watch := x\<rparr>)) \<and>
    ss_client (snd (relay c1 emit sc h1 t ev s)) = ss_client (snd (relay c2 emit sc h2 t ev (s\<lparr>ss_watch := x\<rparr>))) \<and>
    (\<exists>y. snd (relay c2 emit sc h2 t ev (s\<lparr>ss_watch := x\<rparr>)) = snd (relay c1 emit sc h1 t ev s)\<lparr>ss_watch := y\<rparr> \<and>
       (y = x \<or> y = t + idle_timeout c2)) \<and>
    (ss_watch (snd (relay c1 emit sc h1 t ev s)) = ss_watch s \<or>
     ss_watch (snd (relay c1 emit sc h1 t ev s)) = t + idle_timeout c1)"
proof -
  obtain tx fin ok where c: "content_of (sse_data ev) = (tx, fin, ok)" by (metis surj_pair)
  obtain c0 lg cm tm wt where s: "s = \<lparr>ss_client = c0, ss_log = lg, ss_committed = cm, ss_terminal = tm, ss_watch = wt\<rparr>"
    by (cases s)
  obtain e cl where m: "emit ev c0 = (e, cl)" by (metis surj_pair)
  show ?thesis
    using assms unfolding s
    by (cases "sse_done ev"; cases "\<not> ok \<or> tx = []"; cases "fin = []")
      (auto simp: relay_def send_def c m Let_def)
qed

lemma stream_loop_relax:
  assumes "stream_loop c1 emit sc h1 dl ls fin s = (err, t1, s1)"
    "dl \<le> h1" "dl \<le> h2" "dl < ss_watch s" "dl < x"
    "\<forall>(t, l)\<in>set ls. dl - idle_timeout c1 < t" "\<forall>(t, l)\<in>set ls. dl - idle_timeout c2 < t"
  shows "\<exists>y. stream_loop c2 emit sc h2 dl ls fin (s\<lparr>ss_watch := x\<rparr>) = (err, t1, s1\<lparr>ss_watch := y\<rparr>)"
  using assms
proof (induction ls arbitrary: s x)
  case Nil
  then show ?case by (cases fin) (auto simp: parser_verdict_def split: if_splits)
next
  case (Cons tl ls)
  obtain t l where tl: "tl = (t, l)" by (cases tl)
  show ?case
  proof (cases "dl \<le> t")
    case True
    with Cons.prems show ?thesis by (auto simp: tl min_def split: if_splits)
  next
    case False
    then have t: "t < h1" "t < h2" "\<not> min (ss_watch s) dl \<le> t" "\<not> min x dl \<le> t"
      using Cons.prems(2-5) by auto
    show ?thesis
    proof (cases "sse_line l")
      case None
      with Cons t show ?thesis by (simp add: tl)
    next
      case (Some ev)
      note rr = relay_relax [OF t(1,2), of c1 emit sc ev s c2 x]
      obtain e s2 where r1: "relay c1 emit sc h1 t ev s = (e, s2)" by (metis surj_pair)
      obtain y where r2: "relay c2 emit sc h2 t ev (s\<lparr>ss_watch := x\<rparr>) = (e, s2\<lparr>ss_watch := y\<rparr>)"
        and y: "y = x \<or> y = t + idle_timeout c2" and w: "ss_watch s2 = ss_watch s \<or> ss_watch s2 = t + idle_timeout c1"
        using rr r1 by (metis fst_conv prod.collapse snd_conv)
      show ?thesis
      proof (cases "sse_done ev \<or> e \<noteq> None")
        case True
        with Cons.prems(1) t Some r1 r2 show ?thesis by (auto simp: tl parser_verdict_def)
      next
        case False
        then have l1: "stream_loop c1 emit sc h1 dl ls fin s2 = (err, t1, s1)"
          using Cons.prems(1) t Some r1 by (auto simp: tl)
        have "dl < ss_watch s2" "dl < y" using y w Cons.prems(4-7) by (auto simp: tl)
        from Cons.IH [OF l1 Cons.prems(2,3) this] Cons.prems(6,7)
        obtain z where "stream_loop c2 emit sc h2 dl ls fin (s2\<lparr>ss_watch := y\<rparr>) = (err, t1, s1\<lparr>ss_watch := z\<rparr>)"
          by auto
        with False t Some r2 show ?thesis by (auto simp: tl)
      qed
    qed
  qed
qed

text \<open>Streams that start within the attempt and lines that arrive after it started.\<close>

theorem default_watchdogs_never_decide:
  assumes "t0 \<le> t" "dl \<le> t0 + per_attempt_hedge default_walk_config" "20 * second < idle" "20 * second \<le> ceil"
    "\<forall>(u, l)\<in>set (bs_lines b). t \<le> u" "t \<le> bs_end b"
    "stream default_walk_config emit sc t dl b s = (err, t1, s1)"
  shows "\<exists>y. stream (default_walk_config\<lparr>idle_timeout := idle, hard_ceiling := ceil\<rparr>) emit sc t dl b s =
    (err, t1, s1\<lparr>ss_watch := y\<rparr>)"
proof -
  let ?c2 = "default_walk_config\<lparr>idle_timeout := idle, hard_ceiling := ceil\<rparr>"
  have s: "0 < second" by (simp add: duration_defs)
  have dl: "dl \<le> t + 20 * second" using assms(1,2) by (simp add: default_walk_config_def)
  have "\<exists>y. stream_loop ?c2 emit sc (t + hard_ceiling ?c2) dl (bs_lines b @ [(bs_end b, bs_rest b)]) (bs_end b, bs_err b)
     (s\<lparr>ss_terminal := False, ss_watch := t + idle_timeout default_walk_config\<rparr>\<lparr>ss_watch := t + idle_timeout ?c2\<rparr>)
     = (err, t1, s1\<lparr>ss_watch := y\<rparr>)"
    by (rule stream_loop_relax [OF assms(7) [unfolded stream_def]])
      (use assms(3-6) dl s in \<open>auto simp: default_walk_config_def\<close>)
  then show ?thesis by (simp add: stream_def)
qed

theorem committed_stream_is_cut_at_the_hedge:
  "(case stream default_walk_config record_client sample_scope 0 (20 * second)
      \<lparr>bs_lines = [(second, content_line ''hi''), (25 * second, content_line ''there'')], bs_end = 26 * second,
       bs_rest = ''data: [DONE]'', bs_err = None\<rparr>
      \<lparr>ss_client = [], ss_log = [], ss_committed = False, ss_terminal = False, ss_watch = 0\<rparr> of
    (err, t, s) \<Rightarrow> err = Some ctx_err \<and> t = 20 * second \<and> ss_committed s \<and> length (ss_client s) = 1)"
  by code_simp

text \<open>
  No failure the walk records as a rate limit names billing, so the 24-hour billing tier of the
  health machine is never reached from here.
\<close>

lemma no_billing_itoa: "\<not> sublist ''billing'' (''unclassified status '' @ itoa i)"
proof
  assume "sublist ''billing'' (''unclassified status '' @ itoa i)"
  then have "CHR ''b'' \<in> set (''unclassified status '' @ itoa i)"
    using set_mono_sublist [of "''billing''"] by fastforce
  then have "CHR ''b'' \<in> set (nat_digits (nat (- i))) \<or> CHR ''b'' \<in> set (nat_digits (nat i))"
    by (auto simp: itoa_def split: if_splits)
  then show False by (auto dest!: nat_digits_digits simp: is_digit_def code_def)
qed

lemma dispatch_rate_details:
  assumes "v_kind (dispatch pid status body h) \<in> {Retryable, RateLimitHit, UnknownRateLimit}"
  shows "\<not> sublist billing_marker (v_details (dispatch pid status body h))"
proof -
  define bad where "bad v = (v_kind v \<in> {Retryable, RateLimitHit, UnknownRateLimit} \<and>
      sublist ''billing'' (v_details v))" for v :: verdict
  have kinds: "bad \<lparr>v_kind = KeyFatal, v_details = x\<rparr> = False"
    "bad \<lparr>v_kind = ModelFatal, v_details = x\<rparr> = False"
    "bad \<lparr>v_kind = OverloadQuota, v_details = x\<rparr> = False" for x
    by (simp_all add: bad_def)
  have "\<not> sublist ''billing'' ''opaque gzipped error body captured for inspection''"
    "\<not> sublist ''billing'' ''groq-style limit disclosure in body''"
    "\<not> sublist ''billing'' (''capacity overload '' @ em_dash @ '' fail over to another endpoint'')"
    "\<not> sublist ''billing'' ''unrecognised 429 dialect treated conservatively''"
    "\<not> sublist ''billing'' ''request timeout''"
    "\<not> sublist ''billing'' ''payload too large: reduce request size or split''"
    "\<not> sublist ''billing'' ''upstream server error''"
    by code_simp+
  then have texts:
    "bad \<lparr>v_kind = k, v_details = ''opaque gzipped error body captured for inspection''\<rparr> = False"
    "bad \<lparr>v_kind = k, v_details = ''groq-style limit disclosure in body''\<rparr> = False"
    "bad \<lparr>v_kind = k, v_details = ''capacity overload '' @ em_dash @ '' fail over to another endpoint''\<rparr> = False"
    "bad \<lparr>v_kind = k, v_details = ''unrecognised 429 dialect treated conservatively''\<rparr> = False"
    "bad \<lparr>v_kind = k, v_details = ''request timeout''\<rparr> = False"
    "bad \<lparr>v_kind = k, v_details = ''payload too large: reduce request size or split''\<rparr> = False"
    "bad \<lparr>v_kind = k, v_details = ''upstream server error''\<rparr> = False"
    "bad \<lparr>v_kind = k, v_details = ''unclassified status '' @ itoa i\<rparr> = False" for k i
    by (simp_all only: bad_def verdict.simps no_billing_itoa simp_thms)
  have "\<not> bad (dispatch429 pid body low)" for low
    unfolding dispatch429_def Let_def
    by (simp only: kinds texts simp_thms option.case if_True if_False split: if_split option.split prod.split)
  then have "\<not> bad (dispatch pid status body h)"
    unfolding dispatch_def Let_def
    by (simp only: kinds texts simp_thms split: if_split)
  with assms show ?thesis by (simp add: bad_def billing_marker_def)
qed

theorem billing_tier_unreachable:
  assumes "verdict_state t (dispatch pid status body h) hs h = (RateLimit, ttl, prov, why)"
  shows "\<not> sublist billing_marker why"
  using assms dispatch_rate_details [of pid status body h]
  by (auto simp: verdict_state_def Let_def split: class_kind.splits if_splits)

text \<open>A Retry-After of 18446744074 seconds wraps around to less than a third of a second.\<close>

theorem huge_retry_after_wraps:
  "retry_after (Some ((\<lambda>_. None)(''Retry-After'' \<mapsto> [''18446744074'']))) = 290448384"
  by (simp add: retry_after_def header_get_def scan_int_def parse_sign_def is_space_def is_digit_def
      code_def digits_val_def digit_val_def wrap64_def duration_defs Let_def)

section \<open>What the client received\<close>

definition deliver :: "(sse_event \<Rightarrow> 'e \<Rightarrow> string option \<times> 'e) \<Rightarrow> (scope \<times> sse_event) list \<Rightarrow> 'e \<Rightarrow> 'e" where
  "deliver emit sent c = fold (\<lambda>(sc, ev) c. snd (emit ev c)) sent c"

lemma deliver_simps [simp]:
  "deliver emit [] c = c"
  "deliver emit (xs @ ys) c = deliver emit ys (deliver emit xs c)"
  "deliver emit [(sc, ev)] c = snd (emit ev c)"
  by (simp_all add: deliver_def)

lemma relay_delivers:
  "\<exists>d. ss_log (snd (relay cfg emit sc hard t ev s)) = ss_log s @ d \<and>
    ss_client (snd (relay cfg emit sc hard t ev s)) = deliver emit d (ss_client s)"
proof (cases "hard \<le> t")
  case True
  then show ?thesis by (simp add: relay_def)
next
  case False
  then show ?thesis
    by (intro exI [of _ "[(sc, ev)]"]) (auto simp: relay_def send_def Let_def split: prod.splits)
qed

lemma stream_loop_delivers:
  "stream_loop cfg emit sc hard dl lines fin s = (err, t1, s1) \<Longrightarrow>
    \<exists>d. ss_log s1 = ss_log s @ d \<and> ss_client s1 = deliver emit d (ss_client s)"
proof (induction lines arbitrary: s)
  case Nil
  then show ?case by (cases fin) (auto split: if_splits)
next
  case (Cons tl lines)
  obtain t line where tl: "tl = (t, line)" by (cases tl)
  show ?case
  proof (cases "min (ss_watch s) dl \<le> t \<or> sse_line line = None")
    case True
    then show ?thesis using Cons by (auto simp: tl split: if_splits)
  next
    case False
    then obtain ev where ev: "sse_line line = Some ev" by auto
    obtain e s2 where r: "relay cfg emit sc hard t ev s = (e, s2)" by (metis surj_pair)
    obtain d where d: "ss_log s2 = ss_log s @ d" "ss_client s2 = deliver emit d (ss_client s)"
      using relay_delivers [of cfg emit sc hard t ev s] r by auto
    show ?thesis
    proof (cases "sse_done ev \<or> e \<noteq> None")
      case True
      then have "s1 = s2" using Cons.prems False ev r by (auto simp: tl)
      then show ?thesis using d by blast
    next
      case go: False
      then have "stream_loop cfg emit sc hard dl lines fin s2 = (err, t1, s1)"
        using Cons.prems False ev r by (auto simp: tl)
      from Cons.IH [OF this] obtain d2 where "ss_log s1 = ss_log s2 @ d2" "ss_client s1 = deliver emit d2 (ss_client s2)"
        by blast
      with d show ?thesis by (intro exI [of _ "d @ d2"]) simp
    qed
  qed
qed

lemma hop_delivers:
  "walk_hop cfg off prov emit cend ep w = (r, w1) \<Longrightarrow>
    \<exists>d. w_log w1 = w_log w @ d \<and> w_client w1 = deliver emit d (w_client w)"
proof -
  assume h: "walk_hop cfg off prov emit cend ep w = (r, w1)"
  let ?sc = "ep_scope ep"
  let ?dl = "min cend (w_clock w + per_attempt_hedge cfg)"
  obtain x l1 where rs: "reserve off (w_clock w) ?sc walk_cost (p_led (w_pool w)) = (x, l1)" by (metis surj_pair)
  show ?thesis
  proof (cases "isl x \<or> prov ep (w_clock w) = None")
    case True
    with h rs have "w_log w1 = w_log w \<and> w_client w1 = w_client w"
      by (auto simp: walk_hop_def Let_def isl_def split: sum.splits)
    then show ?thesis by (intro exI [of _ "[]"]) simp
  next
    case False
    then obtain le a0 where x: "x = Inr le" and a0: "prov ep (w_clock w) = Some a0" by (cases x) auto
    define a where "a = start_within ?dl a0"
    show ?thesis
    proof (cases "accepted a")
      case None
      with h rs x a0 have "w_log w1 = w_log w \<and> w_client w1 = w_client w"
        by (auto simp: walk_hop_def Let_def simp flip: a_def)
      then show ?thesis by (intro exI [of _ "[]"]) simp
    next
      case (Some res)
      let ?t = "max (w_clock w) (at_done a)"
      let ?s0 = "\<lparr>ss_client = w_client w, ss_log = w_log w, ss_committed = w_committed w,
          ss_terminal = False, ss_watch = ?t\<rparr>"
      obtain err t1 s where st: "stream cfg emit ?sc ?t ?dl (sr_stream res) ?s0 = (err, t1, s)" by (metis surj_pair)
      have "w_log w1 = ss_log s \<and> w_client w1 = ss_client s"
        using h rs x a0 Some st
        by (auto simp: walk_hop_def Let_def simp flip: a_def split: option.splits if_splits)
      with stream_loop_delivers [OF st [unfolded stream_def]] show ?thesis by auto
    qed
  qed
qed

lemma loop_delivers:
  "walk_loop cfg off prov emit cend eps w = (res, w1) \<Longrightarrow>
    \<exists>d. w_log w1 = w_log w @ d \<and> w_client w1 = deliver emit d (w_client w)"
proof (induction eps arbitrary: w)
  case (Cons ep eps)
  show ?case
  proof (cases "cend \<le> w_clock w")
    case False
    obtain r w2 where h: "walk_hop cfg off prov emit cend ep w = (r, w2)" by (metis surj_pair)
    obtain d where d: "w_log w2 = w_log w @ d" "w_client w2 = deliver emit d (w_client w)"
      using hop_delivers [OF h] by blast
    show ?thesis
    proof (cases r)
      case None
      with Cons.prems False h have "walk_loop cfg off prov emit cend eps w2 = (res, w1)" by simp
      from Cons.IH [OF this] d show ?thesis by (metis append_assoc deliver_simps(2))
    qed (use Cons.prems False h d in auto)
  qed (use Cons.prems in auto)
qed auto

lemma run_delivers:
  assumes "walk_run cfg off prov emit cancel family w0 = (res, w1)"
  shows "w_client w1 = deliver emit (w_log w1) (w_client w0)"
proof -
  obtain chain p1 where c: "pool_chain family (w_pool w0) = (chain, p1)" by (metis surj_pair)
  let ?cend = "case cancel of Some c \<Rightarrow> min c (w_clock w0 + total_budget cfg)
      | None \<Rightarrow> w_clock w0 + total_budget cfg"
  let ?w = "w0\<lparr>w_committed := False, w_log := [], w_pool := p1\<rparr>"
  show ?thesis
  proof (cases "chain = []")
    case True
    with assms c show ?thesis by (auto simp: walk_run_def Let_def)
  next
    case False
    with assms c have "walk_loop cfg off prov emit ?cend chain ?w = (res, w1)"
      by (cases cancel) (simp_all add: walk_run_def Let_def)
    from loop_delivers [OF this] show ?thesis by auto
  qed
qed

end
