(* ===== verification/RouterMain.thy ===== *)
theory RouterMain
  imports Vault DiscoverySpec WalkSpec
begin

text \<open>
  The wiring of the model router (cmd/router/main.go): which providers get an adapter, how a key is
  found, how the pools and the ledger are filled from the seed, and what saving or deleting a key
  does. Probes of a provider (ListModels) come as the error they ended in, if any; the environment
  is a function. The database does not fail here; the failures are those of \<open>Vault\<close>.
\<close>

section \<open>The seed\<close>

record seed_provider =
  sp_id :: string
  sp_base_url :: string
  sp_windows :: "string list"
  sp_caps :: "(string \<times> rat) list"
  sp_env_key :: string

record seed_doc =
  sd_providers :: "seed_provider list"
  sd_models :: "seed_row list"

definition routable_status :: "string \<Rightarrow> bool" where
  "routable_status s \<longleftrightarrow> s = ''free'' \<or> s = ''free_capped'' \<or> s = ''trial''"

definition provider_by_id :: "seed_doc \<Rightarrow> string \<Rightarrow> seed_provider option" where
  "provider_by_id sd i = find (\<lambda>p. sp_id p = i) (sd_providers sd)"

definition window_kind_for :: "seed_provider \<Rightarrow> window_kind" where
  "window_kind_for p = (case sp_windows p of [] \<Rightarrow> RollingHeaders
    | k # _ \<Rightarrow>
        if k = ''rolling_headers'' then RollingHeaders
        else if k = ''fixed_pacific_midnight'' then FixedPacificMidnight
        else if k = ''utc_midnight_shared'' then UTCMidnightShared
        else if k = ''continuous_bucket'' then ContinuousBucket
        else if k = ''session_5h_7d'' then Session5h7d
        else if k = ''credit_expiry'' then CreditExpiry
        else RollingHeaders)"

text \<open>The dimension a cap of a kind is written to.\<close>

definition cap_dim :: "string \<Rightarrow> string option" where
  "cap_dim k =
    (if k = ''rpm'' then Some dim_rpm else if k = ''rpd'' then Some dim_rpd
     else if k = ''tpm'' then Some dim_tpm else if k = ''tpd'' then Some dim_tpd
     else if k = ''neurons_day'' then Some dim_neurons_day
     else if k = ''credits_month'' then Some dim_credits_month
     else if k = ''concurrency'' then Some dim_concurrency
     else if k = ''rpd_unfunded'' then Some dim_rpd
     else if k = ''rpd_funded'' then Some ''rpd_funded''
     else if k = ''credit_threshold_usd'' then Some ''credit_threshold_usd''
     else None)"

definition cap_map_for :: "seed_provider \<Rightarrow> amounts" where
  "cap_map_for p = fold (\<lambda>(k, v) out. case cap_dim k of None \<Rightarrow> out | Some d \<Rightarrow> AList.update d v out) (sp_caps p) []"

definition has_adapter :: "seed_doc \<Rightarrow> string \<Rightarrow> bool" where
  "has_adapter sd i \<longleftrightarrow> list_ex (\<lambda>p. sp_id p = i \<and> sp_base_url p \<noteq> []) (sd_providers sd)"

section \<open>Keys\<close>

text \<open>The active aliases, or the placeholder when the vault has none or fails.\<close>

definition usable_aliases :: "string \<Rightarrow> vault \<Rightarrow> string list" where
  "usable_aliases provider v = (case active_aliases None provider v of
     Inl _ \<Rightarrow> [''default''] | Inr as \<Rightarrow> if as = [] then [''default''] else as)"

fun first_key :: "opener \<Rightarrow> string \<Rightarrow> vault \<Rightarrow> string list \<Rightarrow> string" where
  "first_key gopen provider v [] = []"
| "first_key gopen provider v (i # is) = (case vault_get gopen None provider i v of
     Inr (Some k) \<Rightarrow> if k \<noteq> [] then k else first_key gopen provider v is
   | _ \<Rightarrow> first_key gopen provider v is)"

definition key_fn :: "opener \<Rightarrow> string \<Rightarrow> vault \<Rightarrow> string \<Rightarrow> string" where
  "key_fn gopen provider v alias =
    first_key gopen provider v (if alias = [] then usable_aliases provider v else [alias])"

definition aliases_for :: "vault \<Rightarrow> string \<Rightarrow> string list" where
  "aliases_for v provider = (case active_aliases None provider v of Inr as \<Rightarrow> as | Inl _ \<Rightarrow> [])"

section \<open>Filling the pools\<close>

definition row_endpoint :: "seed_row \<Rightarrow> string \<Rightarrow> endpoint" where
  "row_endpoint r alias = (case r of (family, provider, slug, status) \<Rightarrow>
     \<lparr>ep_scope = \<lparr>sc_provider = provider, sc_model = family, sc_key = alias\<rparr>,
      ep_weights = (\<lambda>_. None)(''rpm'' \<mapsto> 30), ep_family = family, ep_local = slug\<rparr>)"

definition sync_row :: "seed_doc \<Rightarrow> string list \<Rightarrow> string \<Rightarrow> seed_row \<Rightarrow> ('q, 'r) pool \<Rightarrow> ('q, 'r) pool" where
  "sync_row sd aliases provider r p = (case r of (family, prov, slug, status) \<Rightarrow>
     if prov \<noteq> provider then p
     else if \<not> routable_status status then p
     else if \<not> has_adapter sd prov then p
     else set_members family
       (filter (\<lambda>e. sc_provider (ep_scope e) \<noteq> provider) (members_of family p) @ map (row_endpoint r) aliases) p)"

definition sync_provider_keys :: "seed_doc \<Rightarrow> vault \<Rightarrow> string \<Rightarrow> ('q, 'r) pool \<Rightarrow> ('q, 'r) pool" where
  "sync_provider_keys sd v provider p = fold (sync_row sd (usable_aliases provider v) provider) (sd_models sd) p"

definition seed_pools :: "seed_doc \<Rightarrow> vault \<Rightarrow> ('q, 'r) pool \<Rightarrow> ('q, 'r) pool" where
  "seed_pools sd v p = fst (fold (\<lambda>(family, prov, slug, status) (p, seeded).
     if \<not> routable_status status \<or> \<not> has_adapter sd prov \<or> prov \<in> set seeded then (p, seeded)
     else (sync_provider_keys sd v prov p, prov # seeded)) (sd_models sd) (p, []))"

definition configure_scopes :: "instant \<Rightarrow> seed_doc \<Rightarrow> vault \<Rightarrow> ledger \<Rightarrow> ledger" where
  "configure_scopes t sd v l = fold (\<lambda>(family, prov, slug, status) l.
     if \<not> routable_status status then l
     else (case provider_by_id sd prov of None \<Rightarrow> l
       | Some sp \<Rightarrow> fold (\<lambda>alias. configure_scope t \<lparr>sc_provider = prov, sc_model = family, sc_key = alias\<rparr>
            (window_kind_for sp) (cap_map_for sp)) (usable_aliases prov v) l)) (sd_models sd) l"

definition family_list :: "seed_doc \<Rightarrow> ('q, 'r) loop \<Rightarrow> string list" where
  "family_list sd lp =
    (let step = (\<lambda>f (seen, out). if f \<in> set seen then (seen, out) else (f # seen, out @ [f]));
         fams1 = map fst (filter (\<lambda>(f, p, s, st). routable_status st) (sd_models sd));
         fams2 = map mm_family (snapshot lp)
     in snd (fold step (fams1 @ fams2) ([], [])))"

section \<open>Onboarding\<close>

definition probe_status :: "string \<Rightarrow> string option \<Rightarrow> key_status" where
  "probe_status pre probe = (case probe of
     Some e \<Rightarrow> \<lparr>ks_state = invalid_key, ks_checked = zero_time, ks_detail = pre @ e\<rparr>
   | None \<Rightarrow> \<lparr>ks_state = valid_key, ks_checked = zero_time, ks_detail = []\<rparr>)"

definition env_bootstrap_one :: "sealer \<Rightarrow> opener \<Rightarrow> (string \<Rightarrow> string option) \<Rightarrow> (string \<Rightarrow> string) \<Rightarrow>
    (string \<Rightarrow> string option) \<Rightarrow> seed_doc \<Rightarrow> seed_provider \<Rightarrow> vault \<Rightarrow> vault" where
  "env_bootstrap_one gseal gopen entropy env probe sd sp v =
    (let i = sp_id sp in
     if sp_env_key sp = [] then v
     else if \<not> has_adapter sd i then v
     else (case vault_get gopen None i ''env'' v of
        Inr (Some _) \<Rightarrow> v
      | _ \<Rightarrow>
          if env (sp_env_key sp) = [] then v
          else (case vault_put gseal (entropy i) None i ''env'' (env (sp_env_key sp)) v of
             (Some _, v1) \<Rightarrow> v1
           | (None, v1) \<Rightarrow> snd (set_status None i ''env'' (probe_status ''env bootstrap validation failed: '' (probe i)) v1))))"

definition env_bootstrap :: "sealer \<Rightarrow> opener \<Rightarrow> (string \<Rightarrow> string option) \<Rightarrow> (string \<Rightarrow> string) \<Rightarrow>
    (string \<Rightarrow> string option) \<Rightarrow> seed_doc \<Rightarrow> vault \<Rightarrow> vault" where
  "env_bootstrap gseal gopen entropy env probe sd v =
    fold (env_bootstrap_one gseal gopen entropy env probe sd) (sd_providers sd) v"

record ('q, 'r) router =
  rt_vault :: vault
  rt_pool :: "('q, 'r) pool"

definition save_key :: "sealer \<Rightarrow> string option \<Rightarrow> string option \<Rightarrow> seed_doc \<Rightarrow> string \<Rightarrow> string \<Rightarrow> string \<Rightarrow>
    ('q, 'r) router \<Rightarrow> string option \<times> ('q, 'r) router" where
  "save_key gseal entropy probe sd provider alias key rt =
    (case vault_put gseal entropy None provider alias key (rt_vault rt) of
       (Some e, v) \<Rightarrow> (Some e, rt\<lparr>rt_vault := v\<rparr>)
     | (None, v) \<Rightarrow>
         let v1 = (if has_adapter sd provider
                   then snd (set_status None provider alias (probe_status ''validation failed: '' probe) v) else v)
         in (None, rt\<lparr>rt_vault := v1, rt_pool := sync_provider_keys sd v1 provider (rt_pool rt)\<rparr>))"

definition drop_key :: "string option \<Rightarrow> seed_doc \<Rightarrow> string \<Rightarrow> string \<Rightarrow> ('q, 'r) router \<Rightarrow> string option \<times> ('q, 'r) router" where
  "drop_key fault sd provider alias rt =
    (case delete_key fault provider alias (rt_vault rt) of
       (Some e, v) \<Rightarrow> (Some e, rt\<lparr>rt_vault := v\<rparr>)
     | (None, v) \<Rightarrow> (None, rt\<lparr>rt_vault := v, rt_pool := sync_provider_keys sd v provider (rt_pool rt)\<rparr>))"

section \<open>Synchronising a provider\<close>

lemma find_SomeD: "find P xs = Some x \<Longrightarrow> P x \<and> x \<in> set xs"
  by (induction xs) (auto split: if_splits)

lemma members_set_members: "members (set_members f es p) = (members p)(f := es)"
  by (simp add: set_members_def)

lemma sync_row_members:
  "members (sync_row sd as provider r p) f =
    (case r of (family, prov, slug, status) \<Rightarrow>
      if f = family \<and> prov = provider \<and> routable_status status \<and> has_adapter sd prov
      then filter (\<lambda>e. sc_provider (ep_scope e) \<noteq> provider) (members p f) @ map (row_endpoint r) as
      else members p f)"
  by (auto simp: sync_row_def members_set_members members_of_def split: prod.splits)

text \<open>The last row of a provider in a family is the one whose endpoints stay.\<close>

definition serving_row :: "seed_doc \<Rightarrow> string \<Rightarrow> string \<Rightarrow> seed_row option" where
  "serving_row sd provider f = find (\<lambda>(family, prov, slug, status).
     family = f \<and> prov = provider \<and> routable_status status \<and> has_adapter sd prov) (rev (sd_models sd))"

lemma row_endpoint_scope:
  "ep_scope (row_endpoint (family, prov, slug, status) a) = \<lparr>sc_provider = prov, sc_model = family, sc_key = a\<rparr>"
  by (simp add: row_endpoint_def)

lemma sync_rows_members:
  "members (fold (sync_row sd as provider) rows p) f =
    (case find (\<lambda>(family, prov, slug, status).
        family = f \<and> prov = provider \<and> routable_status status \<and> has_adapter sd prov) (rev rows) of
       None \<Rightarrow> members p f
     | Some r \<Rightarrow> filter (\<lambda>e. sc_provider (ep_scope e) \<noteq> provider) (members p f) @ map (row_endpoint r) as)"
proof (induction rows rule: rev_induct)
  case (snoc r rows)
  obtain family prov slug status where r: "r = (family, prov, slug, status)" by (metis surj_pair)
  have mine: "filter (\<lambda>e. sc_provider (ep_scope e) \<noteq> provider) (map (row_endpoint r') as) = []"
    if fnd: "find (\<lambda>(family, prov, slug, status). family = f \<and> prov = provider \<and> routable_status status \<and>
      has_adapter sd prov) (rev rows) = Some r'" for r'
  proof -
    have "case r' of (family, prov, slug, status) \<Rightarrow> family = f \<and> prov = provider \<and>
        routable_status status \<and> has_adapter sd prov"
      using find_SomeD [OF fnd] by blast
    then show ?thesis by (cases r') (auto simp: row_endpoint_def filter_empty_conv)
  qed
  show ?case
    using snoc mine by (auto simp: sync_row_members r split: option.splits)
qed simp

text \<open>
  Synchronising a provider's keys leaves each family with the other providers' endpoints and, for
  the families it serves, one endpoint per usable alias, never a duplicate of an older one.
\<close>

lemma sync_replaces_a_provider:
  "members (sync_provider_keys sd v provider p) family =
    (case serving_row sd provider family of
       None \<Rightarrow> members p family
     | Some r \<Rightarrow> filter (\<lambda>e. sc_provider (ep_scope e) \<noteq> provider) (members p family) @
         map (row_endpoint r) (usable_aliases provider v))"
  by (simp add: sync_provider_keys_def serving_row_def sync_rows_members)

section \<open>Keys and traffic\<close>

lemma usable_aliases_mem:
  assumes "wf_vault v" "a \<in> set (usable_aliases provider v)"
  shows "(\<exists>r. map_of (vt_rows v) (provider, a) = Some r \<and> kr_status r \<noteq> invalid_key) \<or>
    a = ''default'' \<and> (\<forall>b r. map_of (vt_rows v) (provider, b) = Some r \<longrightarrow> kr_status r = invalid_key)"
proof -
  obtain as where as: "active_aliases None provider v = Inr as" by (simp add: active_aliases_def)
  note m = mem_active_aliases [OF assms(1) as]
  show ?thesis
  proof (cases "as = []")
    case True
    then have "a = ''default''" using assms(2) as by (simp add: usable_aliases_def)
    moreover have "kr_status r = invalid_key" if "map_of (vt_rows v) (provider, b) = Some r" for b r
      using m [of b] that True by auto
    ultimately show ?thesis by blast
  next
    case False
    then have "a \<in> set as" using assms(2) as by (simp add: usable_aliases_def)
    with m show ?thesis by blast
  qed
qed

lemma serving_row_fields:
  "serving_row sd provider family = Some r \<Longrightarrow> \<exists>slug status. r = (family, provider, slug, status)"
proof -
  assume "serving_row sd provider family = Some r"
  from find_SomeD [OF this [unfolded serving_row_def]] show ?thesis by (cases r) auto
qed

lemma synced_scope:
  assumes "serving_row sd provider family = Some r"
    "e \<in> set (members (sync_provider_keys sd v provider p) family)" "sc_provider (ep_scope e) = provider"
  shows "sc_key (ep_scope e) \<in> set (usable_aliases provider v) \<and> e = row_endpoint r (sc_key (ep_scope e))"
proof -
  obtain slug status where r: "r = (family, provider, slug, status)" using serving_row_fields [OF assms(1)] by blast
  have "members (sync_provider_keys sd v provider p) family =
      filter (\<lambda>e. sc_provider (ep_scope e) \<noteq> provider) (members p family) @ map (row_endpoint r) (usable_aliases provider v)"
    using assms(1) by (simp add: sync_provider_keys_def serving_row_def sync_rows_members)
  with assms(2,3) obtain a where a: "a \<in> set (usable_aliases provider v)" "e = row_endpoint r a" by auto
  moreover have "sc_key (ep_scope (row_endpoint r a)) = a" by (simp add: r row_endpoint_def)
  ultimately show ?thesis by simp
qed

text \<open>
  After a key is deleted on the dashboard, no endpoint of the provider in any served family uses
  its alias.
\<close>

lemma deleted_key_leaves_rotation:
  assumes "wf_vault (rt_vault rt)" "drop_key None sd provider alias rt = (None, rt1)"
    "serving_row sd provider family = Some r" "alias \<noteq> ''default''" "alias \<noteq> []"
    "e \<in> set (members (rt_pool rt1) family)" "sc_provider (ep_scope e) = provider"
  shows "sc_key (ep_scope e) \<noteq> alias"
proof -
  define v where "v = snd (delete_key None provider alias (rt_vault rt))"
  have wf: "wf_vault v" unfolding v_def by (rule wf_delete_key [OF assms(1)])
  have rt1: "rt_pool rt1 = sync_provider_keys sd v provider (rt_pool rt)"
    using assms(2) by (auto simp: drop_key_def delete_key_def Let_def v_def)
  have "sc_key (ep_scope e) \<in> set (usable_aliases provider v)"
    using synced_scope [OF assms(3) _ assms(7)] assms(6) unfolding rt1 by blast
  from usable_aliases_mem [OF wf this] show ?thesis
    using assms(4,5) by (auto simp: v_def delete_key_def Let_def alias_or_default_def map_of_delete_eq simp del: map_of_eq_Some_iff)
qed

definition sample_seed :: seed_doc where
  "sample_seed = \<lparr>sd_providers = [\<lparr>sp_id = ''groq'', sp_base_url = ''https://api.groq.com'',
       sp_windows = [''rolling_headers''], sp_caps = [(''rpm'', 30), (''rpd'', 1000)], sp_env_key = ''GROQ_API_KEY''\<rparr>],
     sd_models = [(''kimi'', ''groq'', ''kimi-k3'', ''free'')]\<rparr>"

definition sample_router :: "(unit, unit) router" where
  "sample_router = \<lparr>rt_vault = \<lparr>vt_rows =
     [((''groq'', ''spare''), \<lparr>kr_nonce = [], kr_cipher = [], kr_status = valid_key, kr_checked = None, kr_detail = None\<rparr>),
      ((''groq'', ''main''), \<lparr>kr_nonce = [], kr_cipher = [], kr_status = untested, kr_checked = None, kr_detail = None\<rparr>)],
      vt_key = []\<rparr>, rt_pool = new_pool new_machine new_ledger 0 () ()\<rparr>"

lemma sample_serving: "serving_row sample_seed ''groq'' ''kimi'' = Some (''kimi'', ''groq'', ''kimi-k3'', ''free'')"
  by (simp add: serving_row_def sample_seed_def routable_status_def has_adapter_def)

lemma wf_sample_vault: "wf_vault (rt_vault sample_router)"
  by (auto simp: sample_router_def wf_vault_def known_state_def)

section \<open>Boot\<close>

definition routed :: "seed_doc \<Rightarrow> vault \<Rightarrow> string \<Rightarrow> ('q, 'r) pool \<Rightarrow> bool" where
  "routed sd v provider p \<longleftrightarrow> (\<forall>family r. serving_row sd provider family = Some r \<longrightarrow>
     row_endpoint r ` set (usable_aliases provider v) \<subseteq> set (members p family))"

lemma sync_members_eq:
  "members (sync_provider_keys sd v provider p) family =
    (case serving_row sd provider family of None \<Rightarrow> members p family
     | Some r \<Rightarrow> filter (\<lambda>e. sc_provider (ep_scope e) \<noteq> provider) (members p family) @
         map (row_endpoint r) (usable_aliases provider v))"
  by (simp add: sync_provider_keys_def serving_row_def sync_rows_members)

lemma sync_routed: "routed sd v provider (sync_provider_keys sd v provider p)"
  by (auto simp: routed_def sync_members_eq)

lemma sync_keeps_routed:
  assumes "routed sd v other p"
  shows "routed sd v other (sync_provider_keys sd v provider p)"
proof (cases "other = provider")
  case False
  have "e \<in> set (members (sync_provider_keys sd v provider p) family)"
    if sr: "serving_row sd other family = Some r" and ae: "a \<in> set (usable_aliases other v)" "e = row_endpoint r a"
    for family r a e
  proof -
    obtain slug status where "r = (family, other, slug, status)" using serving_row_fields [OF sr] by blast
    then have "sc_provider (ep_scope e) \<noteq> provider" using ae(2) False by (simp add: row_endpoint_def)
    moreover have "e \<in> set (members p family)" using assms sr ae unfolding routed_def by blast
    ultimately show ?thesis by (auto simp: sync_members_eq split: option.splits)
  qed
  then show ?thesis by (auto simp: routed_def)
qed (simp add: sync_routed)

text \<open>
  Booting puts every routable seed row of a provider with an adapter into rotation: its family has
  an endpoint for each usable key alias.
\<close>

lemma boot_routes_every_provider:
  "(family, provider, slug, status) \<in> set (sd_models sd) \<and> routable_status status \<and> has_adapter sd provider \<longrightarrow>
    (\<exists>r. serving_row sd provider family = Some r \<and>
       row_endpoint r ` set (usable_aliases provider v) \<subseteq> set (members (seed_pools sd v p) family))"
proof
  assume a: "(family, provider, slug, status) \<in> set (sd_models sd) \<and> routable_status status \<and> has_adapter sd provider"
  let ?step = "\<lambda>(family, prov, slug, status) (p, seeded).
     if \<not> routable_status status \<or> \<not> has_adapter sd prov \<or> prov \<in> set seeded then (p, seeded)
     else (sync_provider_keys sd v prov p, prov # seeded)"
  have run: "(\<forall>prov\<in>set (snd (fold ?step rows (p, seeded))). routed sd v prov (fst (fold ?step rows (p, seeded)))) \<and>
      set seeded \<subseteq> set (snd (fold ?step rows (p, seeded))) \<and>
      (\<forall>(f, prov, sl, st)\<in>set rows. routable_status st \<longrightarrow> has_adapter sd prov \<longrightarrow> prov \<in> set (snd (fold ?step rows (p, seeded))))"
    if "\<forall>prov\<in>set seeded. routed sd v prov p" for rows p seeded
    using that
  proof (induction rows arbitrary: p seeded)
    case (Cons r rows)
    obtain f prov sl st where r: "r = (f, prov, sl, st)" by (metis surj_pair)
    show ?case
    proof (cases "\<not> routable_status st \<or> \<not> has_adapter sd prov \<or> prov \<in> set seeded")
      case True
      then show ?thesis using Cons.IH [OF Cons.prems] by (auto simp: r)
    next
      case False
      have "\<forall>q\<in>set (prov # seeded). routed sd v q (sync_provider_keys sd v prov p)"
        using Cons.prems by (auto intro: sync_routed sync_keeps_routed)
      from Cons.IH [OF this] False show ?thesis by (auto simp: r)
    qed
  qed simp
  have "routed sd v provider (seed_pools sd v p)"
    using run [of "[]" p "sd_models sd"] a by (fastforce simp: seed_pools_def)
  moreover have "serving_row sd provider family \<noteq> None"
    using a by (auto simp: serving_row_def find_None_iff)
  ultimately show "\<exists>r. serving_row sd provider family = Some r \<and>
       row_endpoint r ` set (usable_aliases provider v) \<subseteq> set (members (seed_pools sd v p) family)"
    by (auto simp: routed_def)
qed

section \<open>Saving a key\<close>

lemma saved_row:
  assumes "save_key gseal entropy probe sd provider alias key rt = (None, rt1)" "has_adapter sd provider"
  shows "\<exists>r. map_of (vt_rows (rt_vault rt1)) (provider, alias_or_default alias) = Some r \<and>
      kr_status r = (if probe = None then valid_key else invalid_key) \<and> provider \<noteq> [] \<and>
      rt_pool rt1 = sync_provider_keys sd (rt_vault rt1) provider (rt_pool rt)"
proof -
  obtain v where p: "vault_put gseal entropy None provider alias key (rt_vault rt) = (None, v)"
    using assms(1) by (auto simp: save_key_def split: prod.splits option.splits)
  then obtain r0 where r0: "vt_rows v = AList.update (provider, alias_or_default alias) r0 (vt_rows (rt_vault rt))"
    and ne: "provider \<noteq> []"
    by (auto simp: vault_put_def Let_def split: if_splits sum.splits)
  have v1: "rt_vault rt1 = snd (set_status None provider alias (probe_status ''validation failed: '' probe) v)"
    and pl: "rt_pool rt1 = sync_provider_keys sd (rt_vault rt1) provider (rt_pool rt)"
    using assms p by (auto simp: save_key_def Let_def)
  have m: "map_of (vt_rows v) (provider, alias_or_default alias) = Some r0"
    by (simp add: r0 map_of_update_eq del: map_of_eq_Some_iff)
  have k: "known_state (ks_state (probe_status pre probe))" for pre
    by (cases probe) (simp_all add: probe_status_def known_state_def)
  show ?thesis
    unfolding v1 using ne m k pl v1
    by (cases probe) (auto simp: set_status_def Let_def map_of_update_eq probe_status_def simp del: map_of_eq_Some_iff)
qed

text \<open>
  A key saved on the dashboard takes traffic exactly when the probe of the provider's model list
  succeeded.
\<close>

lemma saved_key_routes_iff_probe_passes:
  assumes "save_key gseal entropy probe sd provider alias key rt = (None, rt1)" "has_adapter sd provider"
    "wf_vault (rt_vault rt)" "serving_row sd provider family = Some r"
    "alias \<noteq> []" "alias \<noteq> ''default''"
  shows "row_endpoint r alias \<in> set (members (rt_pool rt1) family) \<longleftrightarrow> probe = None"
proof -
  obtain row where row: "map_of (vt_rows (rt_vault rt1)) (provider, alias) = Some row"
    "kr_status row = (if probe = None then valid_key else invalid_key)"
    and pl: "rt_pool rt1 = sync_provider_keys sd (rt_vault rt1) provider (rt_pool rt)"
    using saved_row [OF assms(1,2)] assms(5) by (auto simp: alias_or_default_def)
  have wf: "wf_vault (rt_vault rt1)"
    using assms(1,2,3)
    by (auto simp: save_key_def Let_def split: prod.splits option.splits)
      (metis snd_conv wf_set_status wf_vault_put)
  obtain slug status where r: "r = (family, provider, slug, status)" using serving_row_fields [OF assms(4)] by blast
  have "row_endpoint r alias \<in> set (members (rt_pool rt1) family) \<longleftrightarrow> alias \<in> set (usable_aliases provider (rt_vault rt1))"
    unfolding pl by (auto simp: sync_members_eq assms(4) r row_endpoint_def)
  also have "\<dots> \<longleftrightarrow> probe = None"
  proof
    assume "alias \<in> set (usable_aliases provider (rt_vault rt1))"
    from usable_aliases_mem [OF wf this] row assms(6) show "probe = None"
      by (auto simp: key_state_defs split: if_splits simp del: map_of_eq_Some_iff)
  next
    assume "probe = None"
    obtain as where as: "active_aliases None provider (rt_vault rt1) = Inr as" by (simp add: active_aliases_def)
    have "alias \<in> set as"
      using mem_active_aliases [OF wf as] row \<open>probe = None\<close>
      by (auto simp: key_state_defs simp del: map_of_eq_Some_iff)
    then show "alias \<in> set (usable_aliases provider (rt_vault rt1))" using as by (auto simp: usable_aliases_def)
  qed
  finally show ?thesis .
qed

section \<open>Where the wiring loses or revives a mapping\<close>

text \<open>
  Synchronising a provider works from the seed and not from the catalogue, so saving a key puts a
  retired mapping back into the pool.
\<close>

theorem sync_revives_retired_mapping:
  "(let lp0 = apply_to_pools None ''groq'' (new_loop (sd_models sample_seed) (rt_pool sample_router) False);
        lp1 = retire None ''kimi'' ''groq'' ''gone'' lp0
    in length (members (lp_pool lp0) ''kimi'') = 1 \<and> length (members (lp_pool lp1) ''kimi'') = 0 \<and>
       length (members (sync_provider_keys sample_seed (rt_vault sample_router) ''groq'' (lp_pool lp1)) ''kimi'') = 2)"
  by code_simp

text \<open>
  Two slugs of one provider in one family, as the seed has for several families: only the last is served.
\<close>

theorem later_slug_displaces_earlier:
  "(let sd = sample_seed\<lparr>sd_models := [(''kimi'', ''groq'', ''kimi-k3'', ''free''), (''kimi'', ''groq'', ''kimi-k3-fast'', ''free'')]\<rparr>
    in map ep_local (members (seed_pools sd \<lparr>vt_rows = [], vt_key = []\<rparr> (rt_pool sample_router)) ''kimi'') = [''kimi-k3-fast''])"
  by code_simp

text \<open>Both kinds of daily cap write one dimension, so the iteration order of the map decides.\<close>

theorem cap_map_depends_on_order:
  "(let p = (\<lambda>caps. \<lparr>sp_id = ''p'', sp_base_url = [], sp_windows = [], sp_caps = caps, sp_env_key = []\<rparr>)
    in map_of (cap_map_for (p [(''rpd'', 1000), (''rpd_unfunded'', 50)])) ''rpd'' = Some 50 \<and>
       map_of (cap_map_for (p [(''rpd_unfunded'', 50), (''rpd'', 1000)])) ''rpd'' = Some 1000)"
  by code_simp

end
