(* ===== verification/Facade.thy ===== *)
theory Facade
  imports WalkSpec
begin

text \<open>
  The OpenAI-compatible surface of the model router (internal/facade/handlers.go). A response
  collects its status, its headers and what was written; a JSON answer stays a JSON value. A write
  may fail: the response carries how many more writes succeed, if there is a limit.
\<close>

section \<open>Responses\<close>

datatype written = Text string | Encoded json | DataFrame json

record response =
  rs_status :: "int option"
  rs_headers :: "(string \<times> string) list"
  rs_body :: "written list"
  rs_room :: "nat option"

definition new_response :: response where
  "new_response = \<lparr>rs_status = None, rs_headers = [], rs_body = [], rs_room = None\<rparr>"

definition set_header :: "string \<Rightarrow> string \<Rightarrow> response \<Rightarrow> response" where
  "set_header k v w = (if rs_status w = None then w\<lparr>rs_headers := AList.update k v (rs_headers w)\<rparr> else w)"

text \<open>Only the first \<open>WriteHeader\<close> counts, and a write without one sends 200.\<close>

definition write_header :: "int \<Rightarrow> response \<Rightarrow> response" where
  "write_header st w = (case rs_status w of None \<Rightarrow> w\<lparr>rs_status := Some st\<rparr> | Some _ \<Rightarrow> w)"

definition write_out :: "written \<Rightarrow> response \<Rightarrow> string option \<times> response" where
  "write_out b w =
    (let w1 = write_header 200 w in
     case rs_room w1 of
       None \<Rightarrow> (None, w1\<lparr>rs_body := rs_body w1 @ [b]\<rparr>)
     | Some n \<Rightarrow> if n = 0 then (Some ''write failed'', w1)
         else (None, w1\<lparr>rs_body := rs_body w1 @ [b], rs_room := Some (n - 1)\<rparr>))"

definition error_json :: "string \<Rightarrow> string \<Rightarrow> string \<Rightarrow> json" where
  "error_json msg typ cd = JObj [(''error'', JObj [(''code'', JStr cd), (''message'', JStr msg), (''type'', JStr typ)])]"

definition write_err :: "int \<Rightarrow> string \<Rightarrow> string \<Rightarrow> response \<Rightarrow> response" where
  "write_err st cd msg w = snd (write_out (Encoded (error_json msg cd cd))
     (write_header st (set_header ''Content-Type'' ''application/json'' w)))"

section \<open>Authentication\<close>

definition auth :: "string \<Rightarrow> headers \<Rightarrow> (response \<Rightarrow> response) \<Rightarrow> response \<Rightarrow> response" where
  "auth token h handler w =
    (if header_get h ''Authorization'' \<noteq> ''Bearer '' @ token
     then snd (write_out (Encoded (error_json ''invalid bearer token'' ''auth_error'' ''invalid_api_key''))
            (write_header 401 (set_header ''Content-Type'' ''application/json'' w)))
     else handler w)"

definition healthz :: "string \<Rightarrow> response \<Rightarrow> response" where
  "healthz meth w =
    (if meth \<noteq> ''GET'' \<and> meth \<noteq> ''HEAD''
     then snd (write_out (Text ''method not allowed'') (write_header 405 (set_header ''Allow'' ''GET, HEAD'' w)))
     else snd (write_out (Text ''ok'') w))"

section \<open>Requests\<close>

record chat_request =
  cr_model :: string
  cr_messages :: "json list"
  cr_stream :: bool

definition zero_request :: chat_request where
  "zero_request = \<lparr>cr_model = [], cr_messages = [], cr_stream = False\<rparr>"

text \<open>A slice of string-keyed maps: objects, or null for a nil map.\<close>

definition decode_messages :: "json \<Rightarrow> json list \<Rightarrow> json list \<times> bool" where
  "decode_messages v old = (case v of JNull \<Rightarrow> ([], True)
    | JArr us \<Rightarrow> (map (\<lambda>u. case u of JObj kvs \<Rightarrow> JObj kvs | _ \<Rightarrow> JNull) us,
        list_all (\<lambda>u. case u of JObj _ \<Rightarrow> True | JNull \<Rightarrow> True | _ \<Rightarrow> False) us)
    | _ \<Rightarrow> (old, False))"

definition request_field :: "string \<Rightarrow> json \<Rightarrow> chat_request \<Rightarrow> chat_request \<times> bool" where
  "request_field k v r =
    (if key_is ''model'' k then (case decode_string v (cr_model r) of (s, ok) \<Rightarrow> (r\<lparr>cr_model := s\<rparr>, ok))
     else if key_is ''messages'' k then
       (case decode_messages v (cr_messages r) of (ms, ok) \<Rightarrow> (r\<lparr>cr_messages := ms\<rparr>, ok))
     else if key_is ''stream'' k then
       (case v of JBool b \<Rightarrow> (r\<lparr>cr_stream := b\<rparr>, True) | JNull \<Rightarrow> (r, True) | _ \<Rightarrow> (r, False))
     else (r, True))"

text \<open>\<open>Decode\<close> on the first JSON value of the body, None when there is none.\<close>

definition decode_request :: "json option \<Rightarrow> chat_request option" where
  "decode_request body = (case body of None \<Rightarrow> None
    | Some v \<Rightarrow> (case decode_members request_field v zero_request of (r, ok) \<Rightarrow> if ok then Some r else None))"

section \<open>Finish reasons\<close>

definition map_finish :: "string \<Rightarrow> string" where
  "map_finish fin =
    (if fin = ''stop'' \<or> fin = ''length'' \<or> fin = ''tool_calls'' \<or> fin = ''content_filter'' \<or> fin = ''function_call'' then fin
     else if fin = ''error'' \<or> fin = ''malformed_function_call'' \<or> fin = ''aborted'' \<or> fin = ''max_output_tokens'' \<or>
             fin = ''end_turn'' \<or> fin = ''stop_sequence'' \<or> fin = ''eos'' \<or> fin = ''complete'' \<or> fin = ''finish'' then
       (if fin = ''max_output_tokens'' then ''length'' else ''stop'')
     else ''stop'')"

definition legal_finish :: "string set" where
  "legal_finish = {''stop'', ''length'', ''tool_calls'', ''content_filter'', ''function_call''}"

section \<open>Failures\<close>

definition all_failed_text :: string where
  "all_failed_text = ''all endpoints failed before any content was delivered''"

definition committed_text :: string where
  "committed_text = ''stream failed after content was committed''"

definition walk_error :: "walk_result \<Rightarrow> string option" where
  "walk_error res = (case res of Served \<Rightarrow> None | NoEndpoints m \<Rightarrow> Some m
    | AllFailed \<Rightarrow> Some all_failed_text | ErrCommitted \<Rightarrow> Some committed_text)"

definition handle_error :: "string \<Rightarrow> response \<Rightarrow> response" where
  "handle_error err w =
    (let (st, cd) = (if sublist ''no endpoints'' err then (404, ''model_not_found'') else (502, ''upstream_error''))
     in snd (write_out (Encoded (error_json err cd cd))
          (write_header st (set_header ''Content-Type'' ''application/json'' w))))"

text \<open>One in-band frame: the keys of a Go map are written in order.\<close>

definition end_frame :: "string \<Rightarrow> written" where
  "end_frame err = DataFrame (JObj [(''choices'', JArr [JObj [(''delta'', JObj []),
     (''finish_reason'', JStr ''content_filter''), (''index'', JNum 0)]]), (''router_error'', JStr err)])"

definition done_text :: string where
  "done_text = ''data: [DONE]'' @ [newline, newline]"

definition write_all :: "written list \<Rightarrow> response \<Rightarrow> response" where
  "write_all bs w = fold (\<lambda>b w. snd (write_out b w)) bs w"

definition handle_stream_error :: "string \<Rightarrow> bool \<Rightarrow> response \<Rightarrow> response" where
  "handle_stream_error err committed w =
    (if \<not> committed then handle_error err w
     else write_all [end_frame err, Text done_text] (write_header 200 w))"

section \<open>Chat\<close>

definition frame_text :: "sse_event \<Rightarrow> string" where
  "frame_text ev = ''data: '' @ sse_data ev @ [newline, newline]"

text \<open>The callback of a streaming client; the flag says that the header went out.\<close>

definition stream_emit :: "sse_event \<Rightarrow> bool \<times> response \<Rightarrow> string option \<times> bool \<times> response" where
  "stream_emit ev c = (case c of (committed, w) \<Rightarrow>
     case write_out (Text (frame_text ev)) (if committed then w else write_header 200 w) of (err, w1) \<Rightarrow> (err, True, w1))"

text \<open>The callback of a client that waits: the text so far and the finish reason.\<close>

definition buffer_emit :: "sse_event \<Rightarrow> string \<times> string \<Rightarrow> string option \<times> string \<times> string" where
  "buffer_emit ev c = (case c of (text, finish) \<Rightarrow>
     case content_of (sse_data ev) of (tx, fin, ok) \<Rightarrow>
       (None, if ok then (text @ tx, finish) else if fin \<noteq> [] then (text, map_finish fin) else (text, finish)))"

definition completion_json :: "string \<Rightarrow> int \<Rightarrow> string \<Rightarrow> string \<Rightarrow> string \<Rightarrow> json" where
  "completion_json stamp unix model text finish = JObj [
     (''choices'', JArr [JObj [(''finish_reason'', JStr finish), (''index'', JNum 0),
        (''message'', JObj [(''content'', JStr text), (''role'', JStr ''assistant'')])]]),
     (''created'', JNum (of_int unix)), (''id'', JStr (''router-'' @ stamp)), (''model'', JStr model),
     (''object'', JStr ''chat.completion'')]"

definition stream_headers :: "response \<Rightarrow> response" where
  "stream_headers w = set_header ''Connection'' ''keep-alive'' (set_header ''X-Accel-Buffering'' ''no''
     (set_header ''Cache-Control'' ''no-cache'' (set_header ''Content-Type'' ''text/event-stream'' w)))"

text \<open>
  The handler. The walk runs from a state whose client part is replaced by the handler's own; the
  state afterwards keeps the pool and the clock. \<open>stamp\<close> formats the instant for the completion's id.
\<close>

definition with_client :: "'c \<Rightarrow> ('q, 'r, 'e) walk_state \<Rightarrow> ('q, 'r, 'c) walk_state" where
  "with_client c w = \<lparr>w_pool = w_pool w, w_clock = w_clock w, w_committed = w_committed w, w_client = c, w_log = w_log w\<rparr>"

definition handle_chat :: "walk_config \<Rightarrow> (instant \<Rightarrow> duration) \<Rightarrow> providers \<Rightarrow> instant option \<Rightarrow> (instant \<Rightarrow> string) \<Rightarrow>
    json option \<Rightarrow> ('q, 'r, unit) walk_state \<Rightarrow> response \<Rightarrow> response \<times> ('q, 'r, unit) walk_state" where
  "handle_chat cfg off prov cancel stamp body ws w =
    (case decode_request body of
       None \<Rightarrow> (write_err 400 ''invalid_json'' ''malformed request'' w, ws)
     | Some req \<Rightarrow>
        if cr_model req = [] \<or> cr_messages req = []
        then (write_err 400 ''invalid_request'' ''model and messages are required'' w, ws)
        else if cr_stream req then
          (case walk_run cfg off prov stream_emit cancel (cr_model req) (with_client (False, stream_headers w) ws) of
             (res, ws1) \<Rightarrow> (case w_client ws1 of (committed, w1) \<Rightarrow>
               (case walk_error res of None \<Rightarrow> w1 | Some e \<Rightarrow> handle_stream_error e committed w1, with_client () ws1)))
        else
          (case walk_run cfg off prov buffer_emit cancel (cr_model req) (with_client ([], ''stop'') ws) of
             (res, ws1) \<Rightarrow> (case w_client ws1 of (text, finish) \<Rightarrow>
               (case walk_error res of
                  Some e \<Rightarrow> handle_error e w
                | None \<Rightarrow> snd (write_out (Encoded (completion_json (stamp (w_clock ws1)) (to_unix (w_clock ws1)) (cr_model req) text finish))
                    (set_header ''Content-Type'' ''application/json'' w)), with_client () ws1))))"

definition models_json :: "string list \<Rightarrow> json" where
  "models_json families = JObj [(''data'', JArr (map (\<lambda>f.
     JObj [(''id'', JStr f), (''object'', JStr ''model''), (''owned_by'', JStr ''model-router'')]) families)),
     (''object'', JStr ''list'')]"

definition handle_models :: "string list \<Rightarrow> response \<Rightarrow> response" where
  "handle_models families w = snd (write_out (Encoded (models_json families))
     (set_header ''Content-Type'' ''application/json'' w))"

section \<open>What a client sees\<close>

lemma map_finish_legal: "map_finish fin \<in> legal_finish"
  by (simp add: map_finish_def legal_finish_def)

text \<open>An open response: nothing sent, writes succeed.\<close>

definition fresh_response :: "response \<Rightarrow> bool" where
  "fresh_response w \<longleftrightarrow> rs_status w = None \<and> rs_body w = [] \<and> rs_room w = None"

lemma fresh_set_header [simp]: "fresh_response (set_header k v w) = fresh_response w"
  by (simp add: fresh_response_def set_header_def)

lemma deliver_stream:
  assumes "fresh_response w"
  shows "deliver stream_emit sent (False, w) =
    (sent \<noteq> [], if sent = [] then w else w\<lparr>rs_status := Some 200, rs_body := map (\<lambda>(sc, ev). Text (frame_text ev)) sent\<rparr>)"
proof (induction sent rule: rev_induct)
  case (snoc x sent)
  obtain sc ev where x: "x = (sc, ev)" by (cases x)
  show ?case
    using snoc assms
    by (auto simp: x stream_emit_def write_out_def write_header_def fresh_response_def Let_def)
qed simp

lemma deliver_buffer:
  "deliver buffer_emit sent (text, finish) =
    (text @ concat (map (\<lambda>(sc, ev). case content_of (sse_data ev) of (tx, fin, ok) \<Rightarrow> if ok then tx else []) sent),
     snd (deliver buffer_emit sent (text, finish))) \<and>
   (finish \<in> legal_finish \<longrightarrow> snd (deliver buffer_emit sent (text, finish)) \<in> legal_finish)"
proof (induction sent rule: rev_induct)
  case (snoc x sent)
  obtain sc ev where x: "x = (sc, ev)" by (cases x)
  obtain t0 f0 where d: "deliver buffer_emit sent (text, finish) = (t0, f0)" by (metis surj_pair)
  show ?case
    using snoc d by (auto simp: x buffer_emit_def map_finish_legal split: prod.splits)
qed simp

definition relayed :: "(scope \<times> sse_event) list \<Rightarrow> written list" where
  "relayed sent = map (\<lambda>(sc, ev). Text (frame_text ev)) sent"

lemma some_code [simp]: "\<exists>cd. error_json e c c = error_json e cd cd"
  by (rule exI) (rule refl)

text \<open>
  A streaming answer is either the relayed frames alone after success, or an error status with no
  frames, or, once frames were sent, those frames followed by one frame with a legal finish reason and
  the terminal frame.
\<close>

lemma streaming_answer_ends_legally:
  assumes "decode_request body = Some req" "cr_model req \<noteq> []" "cr_messages req \<noteq> []" "cr_stream req"
    "fresh_response w"
    "walk_run cfg off prov stream_emit cancel (cr_model req) (with_client (False, stream_headers w) ws) = (res, ws1)"
  shows "(let out = fst (handle_chat cfg off prov cancel stamp body ws w); sent = w_log ws1 in
    case walk_error res of
      None \<Rightarrow> rs_body out = relayed sent \<and> (sent \<noteq> [] \<longrightarrow> rs_status out = Some 200)
    | Some e \<Rightarrow>
        if sent = [] then rs_status out = Some (if sublist ''no endpoints'' e then 404 else 502) \<and>
          (\<exists>cd. rs_body out = [Encoded (error_json e cd cd)])
        else rs_status out = Some 200 \<and> rs_body out = relayed sent @ [end_frame e, Text done_text])"
proof -
  have f: "fresh_response (stream_headers w)" using assms(5) by (simp add: stream_headers_def)
  have c: "w_client ws1 = (w_log ws1 \<noteq> [], if w_log ws1 = [] then stream_headers w
      else (stream_headers w)\<lparr>rs_status := Some 200, rs_body := relayed (w_log ws1)\<rparr>)"
    using run_delivers [OF assms(6)] deliver_stream [OF f, of "w_log ws1"]
    by (simp add: with_client_def relayed_def)
  have out: "fst (handle_chat cfg off prov cancel stamp body ws w) = (case walk_error res of
       None \<Rightarrow> snd (w_client ws1) | Some e \<Rightarrow> handle_stream_error e (fst (w_client ws1)) (snd (w_client ws1)))"
    using assms(1-4,6) by (cases "w_client ws1"; cases "walk_error res") (simp_all add: handle_chat_def)
  show ?thesis
  proof (cases "walk_error res")
    case None
    with out c f show ?thesis by (simp add: fresh_response_def relayed_def)
  next
    case (Some e)
    with out c f show ?thesis
      by (simp add: Let_def handle_stream_error_def handle_error_def write_all_def write_out_def write_header_def
          fresh_response_def set_header_def)
  qed
qed

text \<open>A request for a family nobody serves.\<close>

definition ask :: "bool \<Rightarrow> json" where
  "ask b = JObj [(''model'', JStr ''nope''), (''messages'', JArr [JObj []]), (''stream'', JBool b)]"

definition asked :: "bool \<Rightarrow> chat_request" where
  "asked b = \<lparr>cr_model = ''nope'', cr_messages = [JObj []], cr_stream = b\<rparr>"

lemma asked_fields [simp]: "cr_model (asked b) = ''nope''" "cr_messages (asked b) = [JObj []]" "cr_stream (asked b) = b"
  by (simp_all add: asked_def)

lemma decode_ask: "decode_request (Some (ask b)) = Some (asked b)"
  by (simp add: asked_def decode_request_def ask_def decode_members_def request_field_def key_is_def to_lower_def lower_char_def
      code_def decode_messages_def zero_request_def)

definition idle_walk :: "(unit, unit, unit) walk_state" where
  "idle_walk = with_client () walk_start"

lemma nobody_serves:
  "walk_run cfg off prov emit cancel (cr_model (asked b)) (with_client c idle_walk) =
    (NoEndpoints ''no endpoints for nope'', (with_client c idle_walk)\<lparr>w_committed := False, w_log := []\<rparr>)"
proof -
  have "members (w_pool walk_start) ''nope'' = []"
    by (simp add: walk_start_def set_members_def new_pool_def)
  then have "pool_chain ''nope'' (w_pool (with_client c idle_walk)) = ([], w_pool walk_start)"
    by (simp add: pool_chain_def idle_walk_def with_client_def)
  then show ?thesis by (simp add: walk_run_def Let_def idle_walk_def with_client_def)
qed

lemma fresh_new: "fresh_response new_response"
  by (simp add: fresh_response_def new_response_def)

text \<open>
  A client that does not stream gets one completion whose content is the concatenation of the
  content frames the walk delivered and whose finish reason is a legal one, or an error status when the
  walk failed.
\<close>

lemma waiting_answer_is_the_concatenation:
  assumes "decode_request body = Some req" "cr_model req \<noteq> []" "cr_messages req \<noteq> []" "\<not> cr_stream req"
    "fresh_response w"
    "walk_run cfg off prov buffer_emit cancel (cr_model req) (with_client ([], ''stop'') ws) = (res, ws1)"
  shows "(let out = fst (handle_chat cfg off prov cancel stamp body ws w) in
    case walk_error res of
      None \<Rightarrow> (\<exists>finish\<in>legal_finish. rs_status out = Some 200 \<and> rs_body out = [Encoded (completion_json
          (stamp (w_clock ws1)) (to_unix (w_clock ws1)) (cr_model req)
          (concat (map (\<lambda>(sc, ev). case content_of (sse_data ev) of (tx, fin, ok) \<Rightarrow> if ok then tx else []) (w_log ws1))) finish)])
    | Some e \<Rightarrow> rs_status out = Some (if sublist ''no endpoints'' e then 404 else 502) \<and>
          (\<exists>cd. rs_body out = [Encoded (error_json e cd cd)]))"
proof -
  obtain body_text finish where c: "w_client ws1 = (body_text, finish)" by (metis surj_pair)
  have d: "deliver buffer_emit (w_log ws1) ([], ''stop'') = (body_text, finish)"
    using run_delivers [OF assms(6)] c by (simp add: with_client_def)
  have t: "body_text = concat (map (\<lambda>(sc, ev). case content_of (sse_data ev) of (tx, fin, ok) \<Rightarrow> if ok then tx else []) (w_log ws1))"
    and fl: "finish \<in> legal_finish"
    using deliver_buffer [of "w_log ws1" "[]" "''stop''"] d by (simp_all add: legal_finish_def)
  have out: "fst (handle_chat cfg off prov cancel stamp body ws w) = (case walk_error res of
       Some e \<Rightarrow> handle_error e w
     | None \<Rightarrow> snd (write_out (Encoded (completion_json (stamp (w_clock ws1)) (to_unix (w_clock ws1)) (cr_model req) body_text finish))
          (set_header ''Content-Type'' ''application/json'' w)))"
    using assms(1-4,6) c by (cases "walk_error res") (simp_all add: handle_chat_def)
  show ?thesis
  proof (cases "walk_error res")
    case None
    with out fl assms(5) show ?thesis
      by (auto simp: t [symmetric] write_out_def write_header_def set_header_def fresh_response_def)
  next
    case (Some e)
    with out assms(5) show ?thesis
      by (auto simp: Let_def handle_error_def write_out_def write_header_def fresh_response_def set_header_def)
  qed
qed

text \<open>The handler runs only when the bearer token matches; otherwise the answer is 401.\<close>

lemma handler_runs_only_with_the_token:
  "auth token h handler w =
    (if header_get h ''Authorization'' = ''Bearer '' @ token then handler w else auth token h id w) \<and>
   (header_get h ''Authorization'' \<noteq> ''Bearer '' @ token \<and> fresh_response w \<longrightarrow>
     rs_status (auth token h handler w) = Some 401 \<and>
     rs_body (auth token h handler w) = [Encoded (error_json ''invalid bearer token'' ''auth_error'' ''invalid_api_key'')])"
  by (simp add: auth_def write_out_def write_header_def fresh_response_def set_header_def Let_def)

end
