(* ===== verification/ClassifySpec.thy ===== *)
theory ClassifySpec
  imports Classify
begin

text \<open>
  What the classifier promises: which responses condemn a credential or a model, that a limit a
  provider discloses in its message is read back at its value, and that a stated reset time is
  read back to the second.
\<close>

section \<open>Which responses condemn\<close>

text \<open>
  C3: A failed response condemns the key exactly on a 401, on a 403 that does not speak of quota, or on
  a 429 that carries the billing code 1113, and never on an opaque gzipped body.
\<close>

theorem dispatch_condemns:
  "v_kind (dispatch pid status body h) = KeyFatal \<longleftrightarrow>
    \<not> is_gzip body \<and>
    (status = 401 \<or>
     (status = 403 \<and> \<not> contains_any (to_lower body) quota_keywords) \<or>
     (status = 429 \<and> (let eb = fst (unmarshal_error_body body) in
        code_string [eb_err_code eb, eb_code eb] = ''1113'')))"
  by (auto simp: dispatch_def dispatch429_def Let_def zai1113_def zai1308_def zai1310_def
      split: prod.splits)

section \<open>Numbers read back\<close>

lemma is_digit_sign: "is_digit c \<Longrightarrow> c \<noteq> CHR ''-'' \<and> c \<noteq> CHR ''+'' \<and> c \<noteq> CHR ''.''"
  by (auto simp: is_digit_def code_def)

lemma takeWhile_all: "(\<And>c. c \<in> set xs \<Longrightarrow> P c) \<Longrightarrow> takeWhile P xs = xs"
  by (induction xs) auto

lemma parse_float_digits:
  assumes "ds \<noteq> []" "\<And>c. c \<in> set ds \<Longrightarrow> is_digit c"
  shows "parse_float ds = Some (rat_of_nat (digits_val ds))"
proof -
  have s: "parse_sign ds = (False, ds)"
    using assms by (cases ds) (auto simp: parse_sign_def dest: is_digit_sign)
  have t: "takeWhile is_digit ds = ds" "dropWhile is_digit ds = []"
    using assms(2) by (auto simp: takeWhile_all)
  show ?thesis using assms(1) by (simp add: parse_float_def s t parse_exp_def scale10_def)
qed

lemma parse_float_nat_digits [simp]: "parse_float (nat_digits n) = Some (rat_of_nat n)"
  using parse_float_digits [of "nat_digits n"] by (simp add: nat_digits_digits)

lemma take_digits_nat:
  assumes "s \<noteq> [] \<Longrightarrow> \<not> is_digit (hd s)"
  shows "take_digits (nat_digits n @ s) = Some (nat_digits n, s)"
proof -
  have t: "takeWhile is_digit (nat_digits n @ s) = nat_digits n @ takeWhile is_digit s"
    "dropWhile is_digit (nat_digits n @ s) = dropWhile is_digit s"
    by (auto simp: nat_digits_digits takeWhile_append2 dropWhile_append2)
  have "takeWhile is_digit s = []" "dropWhile is_digit s = s"
    using assms by (cases s; auto)+
  with t show ?thesis by (simp add: take_digits_def)
qed

lemma take_digits_more: "\<exists>d r. take_digits (nat_digits n @ s) = Some (d, r)"
  by (simp add: take_digits_def) (auto simp: takeWhile_eq_Nil_iff nat_digits_digits hd_append)

lemma leftmost_skip:
  assumes "\<And>c s. c \<in> set pre \<Longrightarrow> f (c # s) = None"
  shows "leftmost f (pre @ s) = leftmost f s"
  using assms by (induction pre) auto

lemma leftmost_here: "s \<noteq> [] \<Longrightarrow> f s = Some r \<Longrightarrow> leftmost f s = Some r"
  by (cases s) auto

section \<open>The disclosed limit\<close>

definition disclosure :: "nat \<Rightarrow> nat \<Rightarrow> string \<Rightarrow> nat \<Rightarrow> string" where
  "disclosure cap used tilde req = ''Limit '' @ nat_digits cap @ '', Used '' @ nat_digits used @
     '', Requested '' @ tilde @ nat_digits req"

lemma nat_digits_no_tilde: "\<not> prefix ''~'' (nat_digits n @ s)"
proof
  assume "prefix ''~'' (nat_digits n @ s)"
  then have "CHR ''~'' \<in> set (nat_digits n)"
    by (cases "nat_digits n") (auto simp: prefix_def)
  from nat_digits_digits [OF this] show False by (simp add: is_digit_def code_def)
qed

lemma groq_here_disclosure:
  assumes "tilde \<in> {[], ''~''}"
  shows "groq_here (disclosure cap used tilde req @ post) = Some (nat_digits cap)"
proof -
  have t: "trim_prefix ''~'' (tilde @ nat_digits req @ post) = nat_digits req @ post"
    using assms nat_digits_no_tilde by (auto simp: trim_prefix_def)
  obtain d r where d: "take_digits (nat_digits req @ post) = Some (d, r)"
    using take_digits_more by blast
  have s1: "strip_lit ''Limit '' (''Limit '' @ x) = Some x" for x by (simp add: strip_lit_def)
  have s2: "strip_lit '', Used '' ('', Used '' @ x) = Some x" for x by (simp add: strip_lit_def)
  have s3: "strip_lit '', Requested '' ('', Requested '' @ x) = Some x" for x
    by (simp add: strip_lit_def)
  have n: "\<not> is_digit (hd ('', '' @ x))" for x by (simp add: is_digit_def code_def)
  have d1: "take_digits (nat_digits k @ '', Used '' @ x) = Some (nat_digits k, '', Used '' @ x)" for k x
    by (rule take_digits_nat) (simp add: is_digit_def code_def)
  have d2: "take_digits (nat_digits k @ '', Requested '' @ x) = Some (nat_digits k, '', Requested '' @ x)"
    for k x by (rule take_digits_nat) (simp add: is_digit_def code_def)
  show ?thesis
    unfolding groq_here_def disclosure_def append_assoc s1 s2 s3 d1 d2 bind.bind_lunit prod.case t d
    by simp
qed

lemma groq_here_other: "c \<noteq> CHR ''L'' \<Longrightarrow> groq_here (c # s) = None"
  by (simp add: groq_here_def strip_lit_def)

lemma groq_limit_disclosure:
  assumes "tilde \<in> {[], ''~''}" "CHR ''L'' \<notin> set pre"
  shows "groq_limit (pre @ disclosure cap used tilde req @ post) = Some (nat_digits cap)"
proof -
  have "groq_limit (pre @ disclosure cap used tilde req @ post) =
      leftmost groq_here (disclosure cap used tilde req @ post)"
    unfolding groq_limit_def using assms(2) by (intro leftmost_skip groq_here_other) auto
  also have "\<dots> = Some (nat_digits cap)"
    by (rule leftmost_here) (use groq_here_disclosure [OF assms(1)] in \<open>auto simp: disclosure_def\<close>)
  finally show ?thesis .
qed

definition disclosed_dim :: "string \<Rightarrow> string" where
  "disclosed_dim body = (if sublist ''per day'' body \<or> sublist ''RPD'' body then ''rpd''
     else if sublist ''requests per minute'' body \<or> sublist ''RPM'' body then ''rpm'' else ''tpm'')"

lemma not_gzip_parse: "\<not> is_gzip body \<Longrightarrow> 2 \<le> length body \<Longrightarrow>
    parse_ceilings pid body h = header_hints h @ groq_hints body @ gemini_hints body @ zai_hints body"
  by (auto simp: parse_ceilings_def is_gzip_def Let_def)

text \<open>
  A body that discloses a limit in Groq's wording, with or without the tilde and with any text
  around it, yields a ceiling hint with exactly that limit for the disclosed dimension, and a 429 with
  it is classified as a limit or quota rejection.
\<close>

lemma groq_disclosure_roundtrip:
  fixes pre post tilde :: string and cap used req :: nat
  defines "body \<equiv> pre @ disclosure cap used tilde req @ post"
  assumes "tilde \<in> {[], ''~''}" "CHR ''L'' \<notin> set pre" "\<not> is_gzip body"
  shows "\<lparr>h_dim = disclosed_dim body, h_val = of_nat cap\<rparr> \<in> set (parse_ceilings pid body h) \<and>
    v_kind (dispatch pid 429 body h) \<in> {KeyFatal, OverloadQuota, RateLimitHit}"
proof -
  have g: "groq_limit body = Some (nat_digits cap)"
    unfolding body_def by (rule groq_limit_disclosure [OF assms(2,3)])
  have "2 \<le> length body" by (simp add: body_def disclosure_def)
  then show ?thesis
    using assms(4)
    by (simp add: not_gzip_parse groq_hints_def g disclosed_dim_def dispatch_def dispatch429_def Let_def)
qed

text \<open>The message of the corpus: rate limit reached, the limit and use, a tilde before the request.\<close>

definition sample_notice :: string where
  "sample_notice = disclosure 12000 11926 ''~'' 12903"

lemma sample_notice_plain: "\<not> is_gzip sample_notice"
  by (simp add: sample_notice_def disclosure_def is_gzip_def gzip_magic_def bytes_def
      bytes_equal_def char_of_def)

section \<open>The stated reset\<close>

text \<open>A local time of day with its zone, spelled as RFC 3339 wants it.\<close>

record stamp =
  st_date :: civil
  st_hour :: int
  st_min :: int
  st_sec :: int
  st_west :: bool
  st_zh :: int
  st_zm :: int

definition valid_stamp :: "stamp \<Rightarrow> bool" where
  "valid_stamp s \<longleftrightarrow> (case st_date s of (y, m, d) \<Rightarrow>
     0 \<le> y \<and> y < 10000 \<and> 1 \<le> m \<and> m \<le> 12 \<and> 1 \<le> d \<and> d \<le> days_in_month y m) \<and>
   0 \<le> st_hour s \<and> st_hour s < 24 \<and> 0 \<le> st_min s \<and> st_min s < 60 \<and> 0 \<le> st_sec s \<and> st_sec s < 60 \<and>
   0 \<le> st_zh s \<and> st_zh s < 24 \<and> 0 \<le> st_zm s \<and> st_zm s < 60"

definition show_stamp :: "stamp \<Rightarrow> string" where
  "show_stamp s = format_date (st_date s) @ ''T'' @ pad2 (st_hour s) @ '':'' @ pad2 (st_min s) @
     '':'' @ pad2 (st_sec s) @ (if st_west s then ''-'' else ''+'') @ pad2 (st_zh s) @ '':'' @ pad2 (st_zm s)"

definition stamp_unix :: "stamp \<Rightarrow> int" where
  "stamp_unix s = days_of_civil (st_date s) * 86400 + st_hour s * 3600 + st_min s * 60 + st_sec s -
     (if st_west s then - 1 else 1) * (st_zh s * 3600 + st_zm s * 60)"

lemma nat_digits_small: "n < 10 \<Longrightarrow> nat_digits n = [char_of (48 + n)]"
  by (subst nat_digits.simps) simp

lemma nat_digits_step: "10 \<le> n \<Longrightarrow> nat_digits n = nat_digits (n div 10) @ [char_of (48 + n mod 10)]"
  by (subst nat_digits.simps) simp

lemma digit_char [simp]: "n < 10 \<Longrightarrow> is_digit (char_of (48 + n))" "n < 10 \<Longrightarrow> digit_val (char_of (48 + n)) = n"
  by (simp_all add: is_digit_def digit_val_def)

definition two :: "nat \<Rightarrow> string" where
  "two n = [char_of (48 + n div 10), char_of (48 + n mod 10)]"

lemma zero_char: "char_of (48::nat) = CHR ''0''"
  by (rule code_inject) (simp add: code_def)

lemma pad2_two: "0 \<le> i \<Longrightarrow> i < 100 \<Longrightarrow> pad2 i = two (nat i)"
  by (auto simp: pad2_def itoa_def two_def nat_digits_small nat_digits_step zero_char)

lemma nat_digits_two: "10 \<le> n \<Longrightarrow> n < 100 \<Longrightarrow> nat_digits n = two n"
  using nat_digits_step [of n] by (simp add: nat_digits_small two_def)

lemma nat_digits_three:
  "100 \<le> n \<Longrightarrow> n < 1000 \<Longrightarrow> nat_digits n = two (n div 10) @ [char_of (48 + n mod 10)]"
  using nat_digits_step [of n] nat_digits_two [of "n div 10"] by simp

lemma nat_digits_four:
  "1000 \<le> n \<Longrightarrow> n < 10000 \<Longrightarrow>
    nat_digits n = two (n div 100) @ [char_of (48 + n div 10 mod 10), char_of (48 + n mod 10)]"
  using nat_digits_step [of n] nat_digits_three [of "n div 10"] by (simp flip: div_mult2_eq)

lemma pad4_two:
  assumes "0 \<le> i" "i < 10000"
  shows "pad4 i = two (nat i div 100) @ two (nat i mod 100)"
proof -
  define n where "n = nat i"
  have n: "n < 10000" "i = int n" using assms by (auto simp: n_def)
  have "n mod 100 = 10 * (n div 10 mod 10) + n mod 10" using mod_mult2_eq [of n 10 10] by simp
  then have q: "two (n mod 100) = [char_of (48 + n div 10 mod 10), char_of (48 + n mod 10)]"
    by (simp add: two_def)
  have r: "two (n div 10) = [char_of (48 + n div 100), char_of (48 + n div 10 mod 10)]"
    by (simp add: two_def flip: div_mult2_eq)
  have z: "m < 10 \<Longrightarrow> two m = [CHR ''0'', char_of (48 + m)]" for m by (simp add: two_def zero_char)
  consider "n < 10" | "10 \<le> n" "n < 100" | "100 \<le> n" "n < 1000" | "1000 \<le> n" by linarith
  then show ?thesis
  proof cases
    case 1
    then show ?thesis by (simp add: n pad4_def itoa_def nat_digits_small z zero_char)
  next
    case 2
    then show ?thesis by (simp add: n pad4_def itoa_def nat_digits_two z zero_char)
  next
    case 3
    then have "n div 100 < 10" by simp
    then show ?thesis using 3 by (simp add: n pad4_def itoa_def nat_digits_three z r q)
  next
    case 4
    then show ?thesis using n(1) by (simp add: n(2) pad4_def itoa_def nat_digits_four q)
  qed
qed

lemma two_digits: "n < 100 \<Longrightarrow> list_all is_digit (two n)" "n < 100 \<Longrightarrow> digits_val (two n) = n"
  "length (two n) = 2"
  by (auto simp: two_def digits_val_def)

lemma digits_val_four: "a < 100 \<Longrightarrow> b < 100 \<Longrightarrow> digits_val (two a @ two b) = 100 * a + b"
  using two_digits(2) [of a] two_digits(2) [of b] by (simp add: digits_val_def two_def)

definition stamp_of :: "nat \<Rightarrow> nat \<Rightarrow> nat \<Rightarrow> nat \<Rightarrow> nat \<Rightarrow> nat \<Rightarrow> nat \<Rightarrow> char \<Rightarrow> nat \<Rightarrow> nat \<Rightarrow> string" where
  "stamp_of a b mo d h mi se z zh zm = two a @ two b @ ''-'' @ two mo @ ''-'' @ two d @ ''T'' @
     two h @ '':'' @ two mi @ '':'' @ two se @ [z] @ two zh @ '':'' @ two zm"

lemma show_stamp_of:
  assumes "valid_stamp s" "st_date s = (y, m, d)"
  shows "show_stamp s = stamp_of (nat y div 100) (nat y mod 100) (nat m) (nat d) (nat (st_hour s))
     (nat (st_min s)) (nat (st_sec s)) (if st_west s then CHR ''-'' else CHR ''+'') (nat (st_zh s)) (nat (st_zm s))"
proof -
  have "days_in_month y m < 100" by (simp add: days_in_month_def)
  with assms have "0 \<le> d" "d < 100" by (auto simp: valid_stamp_def)
  with assms show ?thesis
    by (simp add: valid_stamp_def show_stamp_def stamp_of_def format_date_def civil_year_def
        civil_month_def civil_day_def pad2_two pad4_two)
qed

lemma stamp_shape_of:
  assumes "a < 100" "b < 100" "mo < 100" "d < 100" "h < 100" "mi < 100" "se < 100" "zh < 100" "zm < 100"
    "z = CHR ''+'' \<or> z = CHR ''-''"
  shows "stamp_shape (stamp_of a b mo d h mi se z zh zm)"
  using assms by (auto simp: stamp_shape_def stamp_of_def digits_at_def two_def)

lemma num_at_of:
  "num_at (stamp_of a b mo d h mi se z zh zm) 0 4 = int (digits_val (two a @ two b))"
  "num_at (stamp_of a b mo d h mi se z zh zm) 5 2 = int (digits_val (two mo))"
  "num_at (stamp_of a b mo d h mi se z zh zm) 8 2 = int (digits_val (two d))"
  "num_at (stamp_of a b mo d h mi se z zh zm) 11 2 = int (digits_val (two h))"
  "num_at (stamp_of a b mo d h mi se z zh zm) 14 2 = int (digits_val (two mi))"
  "num_at (stamp_of a b mo d h mi se z zh zm) 17 2 = int (digits_val (two se))"
  "num_at (stamp_of a b mo d h mi se z zh zm) 20 2 = int (digits_val (two zh))"
  "num_at (stamp_of a b mo d h mi se z zh zm) 23 2 = int (digits_val (two zm))"
  "stamp_of a b mo d h mi se z zh zm ! 19 = z"
  by (simp_all add: num_at_def stamp_of_def two_def)

lemma stamp_read_back:
  assumes v: "valid_stamp s"
  shows "length (show_stamp s) = 25 \<and> stamp_shape (show_stamp s) \<and>
    parse_rfc3339 (show_stamp s) = Some (stamp_unix s)"
proof -
  obtain y m d where ymd: "st_date s = (y, m, d)" by (cases "st_date s")
  have "days_in_month y m < 100" by (simp add: days_in_month_def)
  with v ymd have y: "0 \<le> y" "y < 10000" "1 \<le> m" "m \<le> 12" "1 \<le> d" "d \<le> days_in_month y m" "d < 100"
    by (auto simp: valid_stamp_def)
  have h: "0 \<le> st_hour s" "st_hour s < 24" "0 \<le> st_min s" "st_min s < 60" "0 \<le> st_sec s"
    "st_sec s < 60" "0 \<le> st_zh s" "st_zh s < 24" "0 \<le> st_zm s" "st_zm s < 60"
    using v by (auto simp: valid_stamp_def)
  have yy: "100 * (nat y div 100) + nat y mod 100 = nat y" by simp
  have lt: "nat y div 100 < 100" "nat y mod 100 < 100" using y by auto
  note e = show_stamp_of [OF v ymd]
  have shape: "stamp_shape (show_stamp s)"
    unfolding e by (rule stamp_shape_of) (use lt y h in auto)
  have "parse_rfc3339 (show_stamp s) = Some (stamp_unix s)"
    unfolding parse_rfc3339_def Let_def e num_at_of
    using y h lt yy by (simp add: two_digits digits_val_four stamp_unix_def ymd)
  with shape show ?thesis by (simp add: stamp_shape_def)
qed

lemma zai_here_other: "c \<noteq> CHR ''r'' \<Longrightarrow> zai_reset_here (c # s) = None"
  by (simp add: zai_reset_here_def strip_lit_def)

text \<open>
  A reset time printed in RFC 3339 form inside a body is read back as a reset_at hint with the Unix
  time it denotes, zone offset included.
\<close>

lemma stated_reset_roundtrip:
  fixes pre post :: string and s :: stamp
  defines "body \<equiv> pre @ ''reset at '' @ show_stamp s @ post"
  assumes "valid_stamp s" "CHR ''r'' \<notin> set pre" "\<not> is_gzip body"
  shows "\<lparr>h_dim = ''reset_at'', h_val = of_int (stamp_unix s)\<rparr> \<in> set (parse_ceilings pid body h)"
proof -
  note r = stamp_read_back [OF assms(2)]
  have "zai_reset body = leftmost zai_reset_here (''reset at '' @ show_stamp s @ post)"
    unfolding zai_reset_def body_def using assms(3) by (intro leftmost_skip zai_here_other) auto
  also have "\<dots> = Some (show_stamp s)"
    by (rule leftmost_here) (use r in \<open>auto simp: zai_reset_here_def strip_lit_def\<close>)
  finally have z: "zai_reset body = Some (show_stamp s)" .
  have "2 \<le> length body" by (simp add: body_def)
  with assms(4) z r show ?thesis by (simp add: not_gzip_parse zai_hints_def)
qed

definition sample_stamp :: stamp where
  "sample_stamp = \<lparr>st_date = (2026, 7, 31), st_hour = 0, st_min = 30, st_sec = 5, st_west = False,
     st_zh = 8, st_zm = 0\<rparr>"

end
