(* ===== verification/NomState.thy ===== *)
theory NomState
  imports Sse "HOL-Library.Word"
begin

text \<open>
  pkgs/nom-web/parser.go and snapshot.go: the picture nom-web keeps of a running build. Nix writes
  one JSON object per line; an activity starts, sends results and stops, and the state counts what
  is in flight per activity type and per derivation. Counters are 64-bit words. An activity is put
  into the map once its start event is handled, where the code fills the shared pointer in place;
  map iteration order is the order of the association list. The clock reading is an argument, and
  so are no other effects: the mutex only makes each call atomic.
\<close>

section \<open>Names of activity and result types\<close>

type_synonym activity_type = int
type_synonym activity_id = "64 word"
type_synonym counter = "64 word"

definition act_copy_path :: activity_type where "act_copy_path = 100"
definition act_file_transfer :: activity_type where "act_file_transfer = 101"
definition act_copy_paths :: activity_type where "act_copy_paths = 103"
definition act_builds :: activity_type where "act_builds = 104"
definition act_build :: activity_type where "act_build = 105"
definition act_optimise_store :: activity_type where "act_optimise_store = 106"
definition act_verify_paths :: activity_type where "act_verify_paths = 107"
definition act_substitute :: activity_type where "act_substitute = 108"
definition act_query_path_info :: activity_type where "act_query_path_info = 109"
definition act_post_build_hook :: activity_type where "act_post_build_hook = 110"

definition res_file_linked :: int where "res_file_linked = 100"
definition res_build_log_line :: int where "res_build_log_line = 101"
definition res_untrusted_path :: int where "res_untrusted_path = 102"
definition res_corrupted_path :: int where "res_corrupted_path = 103"
definition res_set_phase :: int where "res_set_phase = 104"
definition res_progress :: int where "res_progress = 105"
definition res_set_expected :: int where "res_set_expected = 106"
definition res_post_build_log_line :: int where "res_post_build_log_line = 107"
definition res_fetch_status :: int where "res_fetch_status = 108"

lemmas act_defs = act_copy_path_def act_file_transfer_def act_copy_paths_def act_builds_def act_build_def
  act_optimise_store_def act_verify_paths_def act_substitute_def act_query_path_info_def
  act_post_build_hook_def

lemmas res_defs = res_file_linked_def res_build_log_line_def res_untrusted_path_def
  res_corrupted_path_def res_set_phase_def res_progress_def res_set_expected_def
  res_post_build_log_line_def res_fetch_status_def

section \<open>Decoding one line\<close>

record raw_event =
  ev_action :: string
  ev_id :: activity_id
  ev_level :: int
  ev_parent :: activity_id
  ev_text :: string
  ev_type :: int
  ev_fields :: "json list"
  ev_msg :: string

definition zero_event :: raw_event where
  "zero_event = \<lparr>ev_action = [], ev_id = 0, ev_level = 0, ev_parent = 0, ev_text = [], ev_type = 0,
     ev_fields = [], ev_msg = []\<rparr>"

text \<open>
  Integer fields reject a fraction or a value out of range; the literal form of a number is not kept,
  so that \<open>1.0\<close>, which Go rejects for an integer, counts as 1.
\<close>

definition decode_int :: "int \<Rightarrow> int \<Rightarrow> json \<Rightarrow> int \<Rightarrow> int \<times> bool" where
  "decode_int lo hi v old = (case v of JNull \<Rightarrow> (old, True)
    | JNum r \<Rightarrow> if r = of_int \<lfloor>r\<rfloor> \<and> lo \<le> \<lfloor>r\<rfloor> \<and> \<lfloor>r\<rfloor> \<le> hi then (\<lfloor>r\<rfloor>, True) else (old, False)
    | _ \<Rightarrow> (old, False))"

definition decode_id :: "json \<Rightarrow> activity_id \<Rightarrow> activity_id \<times> bool" where
  "decode_id v old = (case decode_int 0 (2 ^ 64 - 1) v (uint old) of (n, ok) \<Rightarrow> (word_of_int n, ok))"

definition decode_list :: "json \<Rightarrow> json list \<Rightarrow> json list \<times> bool" where
  "decode_list v old = (case v of JNull \<Rightarrow> ([], True) | JArr us \<Rightarrow> (us, True) | _ \<Rightarrow> (old, False))"

definition event_field :: "string \<Rightarrow> json \<Rightarrow> raw_event \<Rightarrow> raw_event \<times> bool" where
  "event_field k v e =
    (if key_is ''action'' k then (case decode_string v (ev_action e) of (s, ok) \<Rightarrow> (e\<lparr>ev_action := s\<rparr>, ok))
     else if key_is ''id'' k then (case decode_id v (ev_id e) of (n, ok) \<Rightarrow> (e\<lparr>ev_id := n\<rparr>, ok))
     else if key_is ''level'' k then
       (case decode_int (- (2 ^ 63)) (2 ^ 63 - 1) v (ev_level e) of (n, ok) \<Rightarrow> (e\<lparr>ev_level := n\<rparr>, ok))
     else if key_is ''parent'' k then (case decode_id v (ev_parent e) of (n, ok) \<Rightarrow> (e\<lparr>ev_parent := n\<rparr>, ok))
     else if key_is ''text'' k then (case decode_string v (ev_text e) of (s, ok) \<Rightarrow> (e\<lparr>ev_text := s\<rparr>, ok))
     else if key_is ''type'' k then
       (case decode_int (- (2 ^ 63)) (2 ^ 63 - 1) v (ev_type e) of (n, ok) \<Rightarrow> (e\<lparr>ev_type := n\<rparr>, ok))
     else if key_is ''fields'' k then (case decode_list v (ev_fields e) of (us, ok) \<Rightarrow> (e\<lparr>ev_fields := us\<rparr>, ok))
     else if key_is ''msg'' k then (case decode_string v (ev_msg e) of (s, ok) \<Rightarrow> (e\<lparr>ev_msg := s\<rparr>, ok))
     else (e, True))"

text \<open>\<open>json.Unmarshal\<close> of a line, with None for the error that makes the reader skip it.\<close>

definition unmarshal_event :: "string \<Rightarrow> raw_event option" where
  "unmarshal_event s = (case json_value s of None \<Rightarrow> None
    | Some v \<Rightarrow> (case decode_members event_field v zero_event of (e, ok) \<Rightarrow> if ok then Some e else None))"

definition field_str :: "json list \<Rightarrow> nat \<Rightarrow> string option" where
  "field_str f i = (if length f \<le> i then None else case f ! i of JStr s \<Rightarrow> Some s | _ \<Rightarrow> None)"

text \<open>The conversion of a float to uint64 cuts the fraction off; beyond 2^64 Go leaves the result open.\<close>

definition field_uint :: "json list \<Rightarrow> nat \<Rightarrow> counter option" where
  "field_uint f i = (if length f \<le> i then None
    else case f ! i of JNum r \<Rightarrow> if r < 0 then None else Some (word_of_int \<lfloor>r\<rfloor>) | _ \<Rightarrow> None)"

section \<open>Store paths\<close>

definition store_path_base :: "string \<Rightarrow> string" where
  "store_path_base p = (case last_index_byte CHR ''/'' p of None \<Rightarrow> p | Some i \<Rightarrow> drop (Suc i) p)"

definition store_path_to_name :: "string \<Rightarrow> string" where
  "store_path_to_name p = (let base = store_path_base p
    in case index_byte CHR ''-'' base of None \<Rightarrow> [] | Some i \<Rightarrow> drop (Suc i) base)"

definition drv_name :: "string \<Rightarrow> string" where
  "drv_name p = trim_suffix ''.drv'' (store_path_to_name p)"

section \<open>The state\<close>

record activity =
  ac_id :: activity_id
  ac_typ :: activity_type
  ac_parent :: activity_id
  ac_text :: string
  ac_name :: string
  ac_node :: int
  ac_machine :: string
  ac_phase :: string
  ac_last_line :: string
  ac_done :: counter
  ac_expected :: counter
  ac_running :: counter
  ac_failed :: counter
  ac_expected_by_type :: "(activity_type \<times> counter) list"
  ac_started_at :: instant

record type_agg =
  ta_done :: counter
  ta_expected :: counter
  ta_failed :: counter
  ta_active :: "activity_id list"

definition new_type_agg :: type_agg where
  "new_type_agg = \<lparr>ta_done = 0, ta_expected = 0, ta_failed = 0, ta_active = []\<rparr>"

record drv_track =
  tr_building :: int
  tr_transferring :: int
  tr_done :: bool

definition new_track :: drv_track where
  "new_track = \<lparr>tr_building = 0, tr_transferring = 0, tr_done = False\<rparr>"

datatype drv_state = DrvPlanned | DrvRunning | DrvDone | DrvTransferring

fun drv_byte :: "drv_state \<Rightarrow> nat" where
  "drv_byte DrvPlanned = 0"
| "drv_byte DrvRunning = 1"
| "drv_byte DrvDone = 2"
| "drv_byte DrvTransferring = 3"

definition track_state :: "drv_track \<Rightarrow> drv_state" where
  "track_state t =
    (if 0 < tr_building t then DrvRunning
     else if 0 < tr_transferring t then DrvTransferring
     else if tr_done t then DrvDone
     else DrvPlanned)"

text \<open>The states are ordered by the byte they are rendered as.\<close>

instantiation drv_state :: linorder
begin

definition less_eq_drv_state :: "drv_state \<Rightarrow> drv_state \<Rightarrow> bool" where
  "less_eq_drv_state a b \<longleftrightarrow> drv_byte a \<le> drv_byte b"

definition less_drv_state :: "drv_state \<Rightarrow> drv_state \<Rightarrow> bool" where
  "less_drv_state a b \<longleftrightarrow> drv_byte a < drv_byte b"

instance
proof
  fix a b c :: drv_state
  show "(a < b) = (a \<le> b \<and> \<not> b \<le> a)" by (auto simp: less_eq_drv_state_def less_drv_state_def)
  show "a \<le> a" by (simp add: less_eq_drv_state_def)
  show "a \<le> c" if "a \<le> b" "b \<le> c" using that by (simp add: less_eq_drv_state_def)
  show "a = b" if "a \<le> b" "b \<le> a"
    using that by (cases a; cases b) (simp_all add: less_eq_drv_state_def)
  show "a \<le> b \<or> b \<le> a" by (auto simp: less_eq_drv_state_def)
qed

end

text \<open>A pane of log lines with its capacity.\<close>

definition ring_push :: "nat \<Rightarrow> string \<Rightarrow> string list \<Rightarrow> string list" where
  "ring_push cap s buf = (let b = buf @ [s] in if cap < length b then drop (length b - cap) b else b)"

interpretation pane: bounded_trail "ring_push cap" cap for cap
  by unfold_locales (simp add: ring_push_def Let_def)

definition recent_cap :: nat where "recent_cap = 200"
definition warning_cap :: nat where "warning_cap = 100"

record nom_state =
  ns_title :: string
  ns_activities :: "(activity_id \<times> activity) list"
  ns_by_type :: "activity_type \<Rightarrow> type_agg option"
  ns_files_linked :: counter
  ns_bytes_linked :: counter
  ns_corrupted :: counter
  ns_untrusted :: counter
  ns_recent :: "string list"
  ns_warnings :: "string list"
  ns_drvs :: "string list"
  ns_drv_index :: "string \<Rightarrow> int option"
  ns_name_index :: "string \<Rightarrow> int option"
  ns_track :: "drv_track list"
  ns_in_planned :: bool
  ns_start_time :: instant
  ns_last_event :: instant
  ns_events :: counter

definition new_nom_state :: "instant \<Rightarrow> nom_state" where
  "new_nom_state tm = \<lparr>ns_title = [], ns_activities = [], ns_by_type = (\<lambda>_. None), ns_files_linked = 0,
     ns_bytes_linked = 0, ns_corrupted = 0, ns_untrusted = 0, ns_recent = [], ns_warnings = [], ns_drvs = [],
     ns_drv_index = (\<lambda>_. None), ns_name_index = (\<lambda>_. None), ns_track = [], ns_in_planned = False,
     ns_start_time = tm, ns_last_event = tm, ns_events = 0\<rparr>"

definition note_drv :: "string \<Rightarrow> nom_state \<Rightarrow> int \<times> nom_state" where
  "note_drv drv s = (case ns_drv_index s drv of Some i \<Rightarrow> (i, s)
    | None \<Rightarrow>
        (let i = int (length (ns_drvs s));
             s1 = s\<lparr>ns_drv_index := (ns_drv_index s)(drv \<mapsto> i), ns_drvs := ns_drvs s @ [drv],
                    ns_track := ns_track s @ [new_track]\<rparr>;
             name = drv_name drv
         in (i, if name = [] then s1
                else (case ns_name_index s1 name of
                    Some _ \<Rightarrow> s1\<lparr>ns_name_index := (ns_name_index s1)(name \<mapsto> - 1)\<rparr>
                  | None \<Rightarrow> s1\<lparr>ns_name_index := (ns_name_index s1)(name \<mapsto> i)\<rparr>))))"

definition map_track :: "int \<Rightarrow> (drv_track \<Rightarrow> drv_track) \<Rightarrow> nom_state \<Rightarrow> nom_state" where
  "map_track i f s = s\<lparr>ns_track := (ns_track s)[nat i := f (ns_track s ! nat i)]\<rparr>"

definition attach_transfer :: "activity \<Rightarrow> string \<Rightarrow> nom_state \<Rightarrow> activity \<times> nom_state" where
  "attach_transfer a path s =
    (if \<not> prefix ''/nix/store/'' path then (a, s)
     else let name = store_path_to_name path
       in if name = [] then (a, s)
          else (case ns_name_index s name of None \<Rightarrow> (a, s)
            | Some i \<Rightarrow> if i < 0 then (a, s)
                else (a\<lparr>ac_node := i\<rparr>, map_track i (\<lambda>t. t\<lparr>tr_transferring := tr_transferring t + 1\<rparr>) s)))"

definition agg :: "activity_type \<Rightarrow> nom_state \<Rightarrow> type_agg" where
  "agg t s = mget new_type_agg (ns_by_type s) t"

definition map_agg :: "activity_type \<Rightarrow> (type_agg \<Rightarrow> type_agg) \<Rightarrow> nom_state \<Rightarrow> nom_state" where
  "map_agg t f s = s\<lparr>ns_by_type := (ns_by_type s)(t \<mapsto> f (agg t s))\<rparr>"

definition set_activity :: "activity_id \<Rightarrow> activity \<Rightarrow> nom_state \<Rightarrow> nom_state" where
  "set_activity k a s = s\<lparr>ns_activities := AList.update k a (ns_activities s)\<rparr>"

definition activity_of :: "activity_id \<Rightarrow> nom_state \<Rightarrow> activity option" where
  "activity_of k s = map_of (ns_activities s) k"

section \<open>Applying an event\<close>

definition new_activity :: "raw_event \<Rightarrow> instant \<Rightarrow> activity" where
  "new_activity ev tm = \<lparr>ac_id = ev_id ev, ac_typ = ev_type ev, ac_parent = ev_parent ev, ac_text = ev_text ev, ac_name = [],
     ac_node = - 1, ac_machine = [], ac_phase = [], ac_last_line = [], ac_done = 0, ac_expected = 0,
     ac_running = 0, ac_failed = 0, ac_expected_by_type = [], ac_started_at = tm\<rparr>"

definition name_from :: "(string \<Rightarrow> string) \<Rightarrow> raw_event \<Rightarrow> activity \<Rightarrow> activity" where
  "name_from f ev a = (case field_str (ev_fields ev) 0 of None \<Rightarrow> a | Some p \<Rightarrow> a\<lparr>ac_name := f p\<rparr>)"

definition machine_from :: "raw_event \<Rightarrow> activity \<Rightarrow> activity" where
  "machine_from ev a = (case field_str (ev_fields ev) 1 of None \<Rightarrow> a | Some m \<Rightarrow> a\<lparr>ac_machine := m\<rparr>)"

text \<open>The part of a start event that depends on the type of the activity.\<close>

definition start_details :: "raw_event \<Rightarrow> activity \<Rightarrow> nom_state \<Rightarrow> activity \<times> nom_state" where
  "start_details ev a s =
    (if ev_type ev = act_build then
       (case field_str (ev_fields ev) 0 of None \<Rightarrow> (machine_from ev a, s)
        | Some path \<Rightarrow> (case note_drv (store_path_base path) s of (i, s1) \<Rightarrow>
            (machine_from ev (a\<lparr>ac_name := drv_name path, ac_node := i\<rparr>),
             map_track i (\<lambda>t. t\<lparr>tr_building := tr_building t + 1\<rparr>) s1)))
     else if ev_type ev = act_substitute then
       (case field_str (ev_fields ev) 0 of None \<Rightarrow> (machine_from ev a, s)
        | Some path \<Rightarrow> (case attach_transfer (a\<lparr>ac_name := store_path_to_name path\<rparr>) path s of (a1, s1) \<Rightarrow>
            (machine_from ev a1, s1)))
     else if ev_type ev = act_copy_path then
       (case field_str (ev_fields ev) 0 of None \<Rightarrow> (a, s) | Some path \<Rightarrow> attach_transfer a path s)
     else if ev_type ev = act_post_build_hook then (name_from drv_name ev a, s)
     else if ev_type ev = act_query_path_info then (machine_from ev (name_from store_path_to_name ev a), s)
     else (a, s))"

definition start_activity :: "raw_event \<Rightarrow> instant \<Rightarrow> nom_state \<Rightarrow> nom_state" where
  "start_activity ev tm s =
    (let s1 = map_agg (ev_type ev) (\<lambda>g. g\<lparr>ta_active := List.insert (ev_id ev) (ta_active g)\<rparr>) s
     in case start_details ev (new_activity ev tm) s1 of (a, s2) \<Rightarrow> set_activity (ev_id ev) a s2)"

text \<open>What a stopping activity gives back: its node's counter, then its share of the totals.\<close>

definition leave_node :: "activity \<Rightarrow> drv_track \<Rightarrow> drv_track" where
  "leave_node a t =
    (if ac_typ a = act_build
     then (if 0 < tr_building t then t\<lparr>tr_building := tr_building t - 1\<rparr> else t)\<lparr>tr_done := True\<rparr>
     else (if 0 < tr_transferring t then t\<lparr>tr_transferring := tr_transferring t - 1\<rparr> else t))"

definition drop_expected :: "activity_type \<times> counter \<Rightarrow> nom_state \<Rightarrow> nom_state" where
  "drop_expected e s = (case e of (t, n) \<Rightarrow> map_agg t (\<lambda>g. g\<lparr>ta_expected := ta_expected g - n\<rparr>) s)"

definition stop_activity :: "activity_id \<Rightarrow> nom_state \<Rightarrow> nom_state" where
  "stop_activity k s = (case activity_of k s of None \<Rightarrow> s
    | Some a \<Rightarrow>
        (let s1 = (if 0 \<le> ac_node a \<and> ac_node a < int (length (ns_track s))
                   then map_track (ac_node a) (leave_node a) s else s);
             s2 = map_agg (ac_typ a) (\<lambda>g. g\<lparr>ta_done := ta_done g + ac_done a, ta_failed := ta_failed g + ac_failed a\<rparr>) s1;
             s3 = fold drop_expected (ac_expected_by_type a) s2;
             s4 = map_agg (ac_typ a) (\<lambda>g. g\<lparr>ta_active := removeAll k (ta_active g)\<rparr>) s3
         in s4\<lparr>ns_activities := AList.delete k (ns_activities s4)\<rparr>))"

definition trim_newline :: "string \<Rightarrow> string" where
  "trim_newline = trim_right_if (\<lambda>c. code c = 13 \<or> code c = 10)"

definition log_line :: "raw_event \<Rightarrow> nom_state \<Rightarrow> nom_state" where
  "log_line ev s = (case field_str (ev_fields ev) 0 of None \<Rightarrow> s
    | Some l \<Rightarrow>
        (let line = trim_newline l;
             s1 = (case activity_of (ev_id ev) s of None \<Rightarrow> s
                   | Some a \<Rightarrow> set_activity (ev_id ev) (a\<lparr>ac_last_line := line\<rparr>) s);
             pre = (case activity_of (ev_id ev) s of None \<Rightarrow> ''unnamed''
                   | Some a \<Rightarrow> if ac_name a \<noteq> [] then ac_name a else ''unnamed'')
         in s1\<lparr>ns_recent := ring_push recent_cap
               (pre @ (if ev_type ev = res_post_build_log_line then '' (post)'' else []) @ ''> '' @ line)
               (ns_recent s1)\<rparr>))"

definition uint_or_zero :: "json list \<Rightarrow> nat \<Rightarrow> counter" where
  "uint_or_zero f i = (case field_uint f i of None \<Rightarrow> 0 | Some n \<Rightarrow> n)"

definition expected_of :: "activity \<Rightarrow> activity_type \<Rightarrow> counter" where
  "expected_of a t = mget 0 (map_of (ac_expected_by_type a)) t"

definition type_of_counter :: "counter \<Rightarrow> activity_type" where
  "type_of_counter n = sint n"

definition set_expected :: "raw_event \<Rightarrow> activity \<Rightarrow> nom_state \<Rightarrow> nom_state" where
  "set_expected ev a s = (case (field_uint (ev_fields ev) 0, field_uint (ev_fields ev) 1) of
      (Some et, Some n) \<Rightarrow>
        (let t = type_of_counter et
         in set_activity (ev_id ev) (a\<lparr>ac_expected_by_type := AList.update t n (ac_expected_by_type a)\<rparr>)
              (map_agg t (\<lambda>g. g\<lparr>ta_expected := ta_expected g - expected_of a t + n\<rparr>) s))
    | _ \<Rightarrow> s)"

definition apply_result :: "raw_event \<Rightarrow> nom_state \<Rightarrow> nom_state" where
  "apply_result ev s =
    (let rt = ev_type ev; f = ev_fields ev; k = ev_id ev; act = activity_of k s
     in if rt = res_file_linked then
          s\<lparr>ns_files_linked := ns_files_linked s + 1, ns_bytes_linked := ns_bytes_linked s + uint_or_zero f 0\<rparr>
        else if rt = res_build_log_line \<or> rt = res_post_build_log_line then log_line ev s
        else if rt = res_untrusted_path then s\<lparr>ns_untrusted := ns_untrusted s + 1\<rparr>
        else if rt = res_corrupted_path then s\<lparr>ns_corrupted := ns_corrupted s + 1\<rparr>
        else (case act of None \<Rightarrow> s
          | Some a \<Rightarrow>
              if rt = res_set_phase then
                (case field_str f 0 of None \<Rightarrow> s | Some ph \<Rightarrow> set_activity k (a\<lparr>ac_phase := ph\<rparr>) s)
              else if rt = res_progress then
                set_activity k (a\<lparr>ac_done := uint_or_zero f 0, ac_expected := uint_or_zero f 1,
                  ac_running := uint_or_zero f 2, ac_failed := uint_or_zero f 3\<rparr>) s
              else if rt = res_set_expected then set_expected ev a s
              else if rt = res_fetch_status then
                (case field_str f 0 of None \<Rightarrow> s | Some l \<Rightarrow> set_activity k (a\<lparr>ac_last_line := l\<rparr>) s)
              else s))"

text \<open>
  The run header \<open>=== jupiter-ci (\S+): (.+) ===\<close>. The first group has no blank in it, so it is the
  run of non-blanks up to the colon before the first blank; the second is as long as possible on its line.
\<close>

definition re_blank :: "char \<Rightarrow> bool" where
  "re_blank c \<longleftrightarrow> code c \<in> {9, 10, 12, 13, 32}"

definition header_open :: string where "header_open = ''=== jupiter-ci ''"
definition header_close :: string where "header_close = '' ===''"

fun before_last :: "string \<Rightarrow> string \<Rightarrow> string option" where
  "before_last sub [] = None"
| "before_last sub (c # cs) = (case before_last sub cs of Some p \<Rightarrow> Some (c # p)
    | None \<Rightarrow> if prefix sub (c # cs) then Some [] else None)"

definition header_here :: "string \<Rightarrow> (string \<times> string) option" where
  "header_here s =
    (if \<not> prefix header_open s then None
     else let r = drop (length header_open) s; w = takeWhile (\<lambda>c. \<not> re_blank c) r; r1 = drop (length w) r
       in if length w < 2 \<or> last w \<noteq> CHR '':'' \<or> \<not> prefix '' '' r1 then None
          else (case before_last header_close (takeWhile (\<lambda>c. code c \<noteq> 10) (drop 1 r1)) of
              None \<Rightarrow> None
            | Some title \<Rightarrow> if title = [] then None else Some (butlast w, title)))"

fun run_header :: "string \<Rightarrow> (string \<times> string) option" where
  "run_header [] = None"
| "run_header (c # cs) = (case header_here (c # cs) of Some m \<Rightarrow> Some m | None \<Rightarrow> run_header cs)"

definition apply_msg :: "raw_event \<Rightarrow> nom_state \<Rightarrow> nom_state" where
  "apply_msg ev s =
    (let m = ev_msg ev;
         s1 = (case run_header m of None \<Rightarrow> s
               | Some (who, title) \<Rightarrow> s\<lparr>ns_title := ''jupiter-ci '' @ who @ '': '' @ title\<rparr>);
         s2 = (if ev_level ev \<le> 1 \<and> m \<noteq> [] then s1\<lparr>ns_warnings := ring_push warning_cap m (ns_warnings s1)\<rparr> else s1)
     in if suffix ''derivations will be built:'' m then s2\<lparr>ns_in_planned := True\<rparr>
        else if ns_in_planned s2 then
          (let path = trim_space m
           in if prefix ''/nix/store/'' path \<and> suffix ''.drv'' path
              then snd (note_drv (store_path_base path) s2)
              else s2\<lparr>ns_in_planned := False\<rparr>)
        else s2)"

definition apply_event :: "raw_event \<Rightarrow> instant \<Rightarrow> nom_state \<Rightarrow> nom_state" where
  "apply_event ev tm s =
    (let s1 = s\<lparr>ns_events := ns_events s + 1, ns_last_event := tm\<rparr>
     in if ev_action ev = ''start'' then start_activity ev tm s1
        else if ev_action ev = ''stop'' then stop_activity (ev_id ev) s1
        else if ev_action ev = ''result'' then apply_result ev s1
        else if ev_action ev = ''msg'' then apply_msg ev s1
        else s1)"

end
