(* ===== verification/NomSpec.thy ===== *)
theory NomSpec
  imports NomState
begin

text \<open>
  What holds of nom-web's state however the build log goes, as long as no activity is started under
  an id that is still active: the per-derivation counters count the activities in flight, the
  per-type totals add up what those activities expect, and every index is in range.
\<close>

section \<open>Sums over association lists\<close>

definition total_of :: "('v \<Rightarrow> 'b) \<Rightarrow> ('k \<times> 'v) list \<Rightarrow> 'b::comm_monoid_add" where
  "total_of f al = sum_list (map (\<lambda>(k, v). f v) al)"

definition held :: "('v \<Rightarrow> 'b::zero) \<Rightarrow> ('k \<times> 'v) list \<Rightarrow> 'k \<Rightarrow> 'b" where
  "held f al k = (case map_of al k of None \<Rightarrow> 0 | Some v \<Rightarrow> f v)"

lemma total_simps [simp]: "total_of f [] = 0" "total_of f ((k, v) # al) = f v + total_of f al"
  by (simp_all add: total_of_def)

lemma total_update:
  fixes f :: "'v \<Rightarrow> 'b::ab_group_add"
  shows "total_of f (AList.update k v al) = total_of f al - held f al k + f v"
  by (induction al) (auto simp: held_def)

lemma total_delete:
  fixes f :: "'v \<Rightarrow> 'b::ab_group_add"
  assumes "distinct (map fst al)"
  shows "total_of f (AList.delete k al) = total_of f al - held f al k"
  using assms
proof (induction al)
  case (Cons e al)
  obtain k' v' where e: "e = (k', v')" by (cases e)
  show ?case
  proof (cases "k' = k")
    case True
    with e Cons.prems have "AList.delete k al = al" by (auto simp: delete_id)
    with e True show ?thesis by (simp add: held_def)
  next
    case False
    with e Cons show ?thesis by (simp add: held_def)
  qed
qed (simp add: held_def)

lemma total_cong: "(\<And>k v. (k, v) \<in> set al \<Longrightarrow> f v = g v) \<Longrightarrow> total_of f al = total_of g al"
  unfolding total_of_def by (rule arg_cong [where f = sum_list], rule map_cong) auto

lemma total_nonneg: "(\<And>v. 0 \<le> f v) \<Longrightarrow> 0 \<le> total_of f al" for f :: "'v \<Rightarrow> int"
  by (induction al) auto

lemma total_pos_iff:
  fixes f :: "'v \<Rightarrow> int"
  assumes "\<And>v. 0 \<le> f v"
  shows "0 < total_of f al \<longleftrightarrow> (\<exists>k v. (k, v) \<in> set al \<and> 0 < f v)"
proof (induction al)
  case (Cons e al)
  obtain k v where e: "e = (k, v)" by (cases e)
  have "0 < f v + total_of f al \<longleftrightarrow> 0 < f v \<or> 0 < total_of f al"
    using total_nonneg [of f al, OF assms] assms [of v] by linarith
  with Cons e show ?case by auto
qed simp

lemma total_zero: "(\<And>k v. (k, v) \<in> set al \<Longrightarrow> f v = 0) \<Longrightarrow> total_of f al = 0"
  using total_cong [of al f "\<lambda>_. 0"] by (simp add: total_of_def split_def)

section \<open>The pieces of the state each operation touches\<close>

lemma agg_map_agg [simp]: "agg t (map_agg t' f s) = (if t = t' then f (agg t s) else agg t s)"
  by (simp add: agg_def map_agg_def)

lemma agg_others [simp]:
  "agg t (map_track i f s) = agg t s" "agg t (set_activity k a s) = agg t s"
  "agg t (s\<lparr>ns_activities := x1\<rparr>) = agg t s" "agg t (s\<lparr>ns_recent := x2\<rparr>) = agg t s"
  "agg t (s\<lparr>ns_events := x3\<rparr>) = agg t s" "agg t (s\<lparr>ns_last_event := x4\<rparr>) = agg t s"
  "agg t (s\<lparr>ns_title := x5\<rparr>) = agg t s" "agg t (s\<lparr>ns_warnings := x2\<rparr>) = agg t s"
  "agg t (s\<lparr>ns_in_planned := b\<rparr>) = agg t s" "agg t (s\<lparr>ns_files_linked := x3\<rparr>) = agg t s"
  "agg t (s\<lparr>ns_bytes_linked := x3\<rparr>) = agg t s" "agg t (s\<lparr>ns_untrusted := x3\<rparr>) = agg t s"
  "agg t (s\<lparr>ns_corrupted := x3\<rparr>) = agg t s"
  by (simp_all add: agg_def map_track_def set_activity_def)

lemma map_agg_fields [simp]:
  "ns_activities (map_agg t f s) = ns_activities s" "ns_drvs (map_agg t f s) = ns_drvs s"
  "ns_track (map_agg t f s) = ns_track s" "ns_drv_index (map_agg t f s) = ns_drv_index s"
  "ns_name_index (map_agg t f s) = ns_name_index s" "ns_recent (map_agg t f s) = ns_recent s"
  "ns_warnings (map_agg t f s) = ns_warnings s"
  by (simp_all add: map_agg_def)

lemma map_track_fields [simp]:
  "ns_activities (map_track i f s) = ns_activities s" "ns_drvs (map_track i f s) = ns_drvs s"
  "ns_track (map_track i f s) = (ns_track s)[nat i := f (ns_track s ! nat i)]"
  "ns_drv_index (map_track i f s) = ns_drv_index s" "ns_name_index (map_track i f s) = ns_name_index s"
  "ns_recent (map_track i f s) = ns_recent s" "ns_warnings (map_track i f s) = ns_warnings s"
  by (simp_all add: map_track_def)

lemma set_activity_fields [simp]:
  "ns_activities (set_activity k a s) = AList.update k a (ns_activities s)"
  "ns_drvs (set_activity k a s) = ns_drvs s" "ns_track (set_activity k a s) = ns_track s"
  "ns_drv_index (set_activity k a s) = ns_drv_index s" "ns_name_index (set_activity k a s) = ns_name_index s"
  "ns_recent (set_activity k a s) = ns_recent s" "ns_warnings (set_activity k a s) = ns_warnings s"
  by (simp_all add: set_activity_def)

section \<open>The invariants\<close>

definition builds_at :: "int \<Rightarrow> activity \<Rightarrow> int" where
  "builds_at i a = of_bool (ac_typ a = act_build \<and> ac_node a = i)"

definition transfers_at :: "int \<Rightarrow> activity \<Rightarrow> int" where
  "transfers_at i a = of_bool (ac_typ a \<noteq> act_build \<and> ac_node a = i)"

text \<open>Derivations are registered once, and a name leads to the only derivation that has it.\<close>

definition named :: "string list \<Rightarrow> string \<Rightarrow> int option \<Rightarrow> bool" where
  "named drvs n r = (case r of
      None \<Rightarrow> n \<notin> drv_name ` set drvs
    | Some i \<Rightarrow> (i = - 1 \<and> 2 \<le> length (filter (\<lambda>d. drv_name d = n) drvs)) \<or>
        (0 \<le> i \<and> i < int (length drvs) \<and> filter (\<lambda>d. drv_name d = n) drvs = [drvs ! nat i]))"

definition wf_tree :: "nom_state \<Rightarrow> bool" where
  "wf_tree s \<longleftrightarrow> distinct (ns_drvs s) \<and> length (ns_track s) = length (ns_drvs s) \<and>
    (\<forall>d i. ns_drv_index s d = Some i \<longleftrightarrow> 0 \<le> i \<and> i < int (length (ns_drvs s)) \<and> ns_drvs s ! nat i = d) \<and>
    (\<forall>n. n \<noteq> [] \<longrightarrow> named (ns_drvs s) n (ns_name_index s n))"

definition wf_nodes :: "nom_state \<Rightarrow> bool" where
  "wf_nodes s \<longleftrightarrow> distinct (map fst (ns_activities s)) \<and>
    (\<forall>(k, a)\<in>set (ns_activities s). - 1 \<le> ac_node a \<and> ac_node a < int (length (ns_drvs s))) \<and>
    (\<forall>i < length (ns_drvs s). tr_building (ns_track s ! i) = total_of (builds_at (int i)) (ns_activities s) \<and>
       tr_transferring (ns_track s ! i) = total_of (transfers_at (int i)) (ns_activities s))"

definition wf_totals :: "nom_state \<Rightarrow> bool" where
  "wf_totals s \<longleftrightarrow> (\<forall>(k, a)\<in>set (ns_activities s). distinct (map fst (ac_expected_by_type a))) \<and>
    (\<forall>t. set (ta_active (agg t s)) = {k. \<exists>a. activity_of k s = Some a \<and> ac_typ a = t} \<and>
       distinct (ta_active (agg t s)) \<and>
       ta_expected (agg t s) = total_of (\<lambda>a. expected_of a t) (ns_activities s))"

definition wf_panes :: "nom_state \<Rightarrow> bool" where
  "wf_panes s \<longleftrightarrow> length (ns_recent s) \<le> recent_cap \<and> length (ns_warnings s) \<le> warning_cap"

text \<open>A run of the reader in which no start event reuses an active id.\<close>

inductive nom_step :: "nom_state \<Rightarrow> nom_state \<Rightarrow> bool" where
  start: "ev_action ev = ''start'' \<Longrightarrow> activity_of (ev_id ev) s = None \<Longrightarrow> nom_step s (apply_event ev tm s)"
| other: "ev_action ev \<noteq> ''start'' \<Longrightarrow> nom_step s (apply_event ev tm s)"

inductive_cases nom_stepE: "nom_step s s'"

section \<open>Derivations and names\<close>

lemma note_drv_result:
  assumes "note_drv drv s = (i, s1)" "wf_tree s"
  shows "wf_tree s1 \<and> 0 \<le> i \<and> i < int (length (ns_drvs s1)) \<and> ns_drvs s1 ! nat i = drv \<and>
    ns_activities s1 = ns_activities s \<and> ns_by_type s1 = ns_by_type s \<and> ns_recent s1 = ns_recent s \<and>
    ns_warnings s1 = ns_warnings s \<and>
    (s1 = s \<or> ns_drvs s1 = ns_drvs s @ [drv] \<and> ns_track s1 = ns_track s @ [new_track])"
proof (cases "ns_drv_index s drv")
  case None
  let ?n = "length (ns_drvs s)" and ?nm = "drv_name drv"
  have fresh: "drv \<notin> set (ns_drvs s)"
  proof
    assume "drv \<in> set (ns_drvs s)"
    then obtain j where "j < ?n" "ns_drvs s ! j = drv" by (auto simp: in_set_conv_nth)
    then have "ns_drv_index s drv = Some (int j)" using assms(2) by (simp add: wf_tree_def)
    with None show False by simp
  qed
  have i: "i = int ?n" and drvs: "ns_drvs s1 = ns_drvs s @ [drv]" and trk: "ns_track s1 = ns_track s @ [new_track]"
    and ix: "ns_drv_index s1 = (ns_drv_index s)(drv \<mapsto> int ?n)"
    and nx: "ns_name_index s1 = (if ?nm = [] then ns_name_index s else (ns_name_index s)
        (?nm \<mapsto> (case ns_name_index s ?nm of None \<Rightarrow> int ?n | Some _ \<Rightarrow> - 1)))"
    and rest: "ns_activities s1 = ns_activities s" "ns_by_type s1 = ns_by_type s" "ns_recent s1 = ns_recent s"
      "ns_warnings s1 = ns_warnings s"
    using assms(1) None by (auto simp: note_drv_def Let_def split: if_splits option.splits)
  have index: "ns_drv_index s1 d = Some j \<longleftrightarrow> 0 \<le> j \<and> j < int (length (ns_drvs s1)) \<and> ns_drvs s1 ! nat j = d" for d j
  proof (cases "d = drv")
    case True
    with fresh show ?thesis by (auto simp: ix drvs nth_append in_set_conv_nth)
  next
    case False
    have "ns_drv_index s d = Some j \<longleftrightarrow> 0 \<le> j \<and> j < int ?n \<and> ns_drvs s ! nat j = d"
      using assms(2) by (simp add: wf_tree_def)
    with False show ?thesis by (auto simp: ix drvs nth_append)
  qed
  have names: "named (ns_drvs s1) n (ns_name_index s1 n)" if n: "n \<noteq> []" for n
  proof -
    have old: "named (ns_drvs s) n (ns_name_index s n)" using assms(2) n by (simp add: wf_tree_def)
    show ?thesis
    proof (cases "n = ?nm")
      case True
      with old n show ?thesis
        by (cases "ns_name_index s n") (auto simp: nx drvs named_def filter_empty_conv image_iff)
    next
      case False
      then have "ns_name_index s1 n = ns_name_index s n" by (simp add: nx)
      with old False show ?thesis
        by (cases "ns_name_index s n") (auto simp: named_def drvs nth_append)
    qed
  qed
  have "wf_tree s1"
    unfolding wf_tree_def using assms(2) fresh index names by (simp add: wf_tree_def drvs trk)
  with i drvs trk rest show ?thesis by simp
qed (use assms in \<open>auto simp: note_drv_def wf_tree_def\<close>)

lemma wf_tree_others [simp]:
  "wf_tree (map_agg t f s) = wf_tree s" "wf_tree (set_activity k a s) = wf_tree s"
  "wf_tree (map_track i g s) = wf_tree s"
  "wf_tree (s\<lparr>ns_activities := x1\<rparr>) = wf_tree s" "wf_tree (s\<lparr>ns_recent := x2\<rparr>) = wf_tree s"
  "wf_tree (s\<lparr>ns_events := x3\<rparr>) = wf_tree s" "wf_tree (s\<lparr>ns_last_event := x4\<rparr>) = wf_tree s"
  "wf_tree (s\<lparr>ns_title := x5\<rparr>) = wf_tree s" "wf_tree (s\<lparr>ns_warnings := x2\<rparr>) = wf_tree s"
  "wf_tree (s\<lparr>ns_in_planned := b\<rparr>) = wf_tree s" "wf_tree (s\<lparr>ns_files_linked := x3\<rparr>) = wf_tree s"
  "wf_tree (s\<lparr>ns_bytes_linked := x3\<rparr>) = wf_tree s" "wf_tree (s\<lparr>ns_untrusted := x3\<rparr>) = wf_tree s"
  "wf_tree (s\<lparr>ns_corrupted := x3\<rparr>) = wf_tree s"
  by (simp_all add: wf_tree_def)

lemma tree_length: "wf_tree s \<Longrightarrow> length (ns_track s) = length (ns_drvs s)"
  by (simp add: wf_tree_def)

lemma named_node:
  assumes "wf_tree s" "ns_name_index s n = Some i" "n \<noteq> []" "0 \<le> i"
  shows "i < int (length (ns_drvs s))"
proof -
  have "named (ns_drvs s) n (Some i)" using assms by (simp add: wf_tree_def flip: assms(2))
  with assms(4) show ?thesis by (simp add: named_def)
qed

section \<open>Nodes and the activities on them\<close>

lemma wf_nodes_others [simp]:
  "wf_nodes (map_agg t f s) = wf_nodes s" "wf_nodes (s\<lparr>ns_recent := x2\<rparr>) = wf_nodes s"
  "wf_nodes (s\<lparr>ns_events := x3\<rparr>) = wf_nodes s" "wf_nodes (s\<lparr>ns_last_event := x4\<rparr>) = wf_nodes s"
  "wf_nodes (s\<lparr>ns_title := x5\<rparr>) = wf_nodes s" "wf_nodes (s\<lparr>ns_warnings := x2\<rparr>) = wf_nodes s"
  "wf_nodes (s\<lparr>ns_in_planned := b\<rparr>) = wf_nodes s" "wf_nodes (s\<lparr>ns_files_linked := x3\<rparr>) = wf_nodes s"
  "wf_nodes (s\<lparr>ns_bytes_linked := x3\<rparr>) = wf_nodes s" "wf_nodes (s\<lparr>ns_untrusted := x3\<rparr>) = wf_nodes s"
  "wf_nodes (s\<lparr>ns_corrupted := x3\<rparr>) = wf_nodes s"
  by (simp_all add: wf_nodes_def)

lemma wf_nodesD:
  assumes "wf_nodes s"
  shows "distinct (map fst (ns_activities s))"
    and "activity_of k s = Some a \<Longrightarrow> - 1 \<le> ac_node a \<and> ac_node a < int (length (ns_drvs s))"
    and "i < length (ns_drvs s) \<Longrightarrow> tr_building (ns_track s ! i) = total_of (builds_at (int i)) (ns_activities s)"
    and "i < length (ns_drvs s) \<Longrightarrow> tr_transferring (ns_track s ! i) = total_of (transfers_at (int i)) (ns_activities s)"
  using assms by (auto simp: wf_nodes_def activity_of_def dest!: map_of_SomeD)

lemma held_activity: "held f (ns_activities s) k = (case activity_of k s of None \<Rightarrow> 0 | Some a \<Rightarrow> f a)"
  by (simp add: held_def activity_of_def)

lemma wf_nodes_note:
  assumes "note_drv drv s = (i, s1)" "wf_tree s" "wf_nodes s"
  shows "wf_nodes s1"
proof -
  note r = note_drv_result [OF assms(1,2)]
  show ?thesis
  proof (cases "s1 = s")
    case False
    with r have drvs: "ns_drvs s1 = ns_drvs s @ [drv]" and trk: "ns_track s1 = ns_track s @ [new_track]"
      and acts: "ns_activities s1 = ns_activities s" by auto
    have "total_of (builds_at (int (length (ns_drvs s)))) (ns_activities s) = 0"
         "total_of (transfers_at (int (length (ns_drvs s)))) (ns_activities s) = 0"
      using assms(3) by (auto intro!: total_zero simp: wf_nodes_def builds_at_def transfers_at_def)
    with assms(3) tree_length [OF assms(2)] show ?thesis
      by (auto simp: wf_nodes_def drvs trk acts nth_append new_track_def less_Suc_eq)
  qed (use assms(3) in simp)
qed

text \<open>An activity joins a node, keeps it, or leaves it.\<close>

definition enter_node :: "activity \<Rightarrow> drv_track \<Rightarrow> drv_track" where
  "enter_node a t = (if ac_typ a = act_build then t\<lparr>tr_building := tr_building t + 1\<rparr>
     else t\<lparr>tr_transferring := tr_transferring t + 1\<rparr>)"

lemma enter_node_build: "ac_typ a = act_build \<Longrightarrow> enter_node a = (\<lambda>t. t\<lparr>tr_building := tr_building t + 1\<rparr>)"
  by (rule ext) (simp add: enter_node_def)

lemma enter_node_transfer:
  "ac_typ a \<noteq> act_build \<Longrightarrow> enter_node a = (\<lambda>t. t\<lparr>tr_transferring := tr_transferring t + 1\<rparr>)"
  by (rule ext) (simp add: enter_node_def)

lemma members_update: "(k', a') \<in> set (AList.update k a al) \<Longrightarrow> (k', a') \<in> set al \<or> (k', a') = (k, a)"
  by (induction al) (auto split: if_splits)

lemma members_delete: "x \<in> set (AList.delete k al) \<Longrightarrow> x \<in> set al"
  by (auto simp: AList.delete_eq)

lemma wf_nodes_enter:
  assumes "wf_nodes s" "length (ns_track s) = length (ns_drvs s)" "activity_of k s = None"
    "0 \<le> ac_node a" "ac_node a < int (length (ns_drvs s))"
  shows "wf_nodes (set_activity k a (map_track (ac_node a) (enter_node a) s))"
proof -
  have "nat (ac_node a) < length (ns_track s)" using assms by simp
  then show ?thesis
    using assms wf_nodesD [OF assms(1)]
    by (auto simp: wf_nodes_def total_update held_activity builds_at_def transfers_at_def enter_node_def
        nth_list_update distinct_update dest: members_update)
qed

lemma wf_nodes_plain:
  assumes "wf_nodes s" "activity_of k s = None" "ac_node a = - 1"
  shows "wf_nodes (set_activity k a s)"
  using assms wf_nodesD [OF assms(1)]
  by (auto simp: wf_nodes_def total_update held_activity builds_at_def transfers_at_def
      distinct_update dest!: members_update)

lemma wf_nodes_replace:
  assumes "wf_nodes s" "activity_of k s = Some a0" "ac_typ a = ac_typ a0" "ac_node a = ac_node a0"
  shows "wf_nodes (set_activity k a s)"
  using assms wf_nodesD(1,3,4) [OF assms(1)] wf_nodesD(2) [OF assms(1,2)]
  by (auto simp: wf_nodes_def total_update held_activity builds_at_def transfers_at_def
      distinct_update dest!: members_update)

lemma node_counts_self:
  assumes "activity_of k s = Some a" "wf_nodes s" "ac_node a = int i" "i < length (ns_drvs s)"
  shows "if ac_typ a = act_build then 0 < tr_building (ns_track s ! i) else 0 < tr_transferring (ns_track s ! i)"
proof -
  have m: "(k, a) \<in> set (ns_activities s)" using assms(1) by (auto simp: activity_of_def dest: map_of_SomeD)
  have "0 < total_of (builds_at (int i)) (ns_activities s)" if "ac_typ a = act_build"
    by (subst total_pos_iff) (use m that assms(3) in \<open>auto simp: builds_at_def\<close>)
  moreover have "0 < total_of (transfers_at (int i)) (ns_activities s)" if "ac_typ a \<noteq> act_build"
    by (subst total_pos_iff) (use m that assms(3) in \<open>auto simp: transfers_at_def\<close>)
  ultimately show ?thesis using wf_nodesD(3,4) [OF assms(2,4)] by simp
qed

lemma wf_nodes_leave:
  assumes "wf_nodes s" "length (ns_track s) = length (ns_drvs s)" "activity_of k s = Some a"
    "s1 = (if 0 \<le> ac_node a \<and> ac_node a < int (length (ns_track s)) then map_track (ac_node a) (leave_node a) s else s)"
    "ns_activities s2 = AList.delete k (ns_activities s)" "ns_drvs s2 = ns_drvs s" "ns_track s2 = ns_track s1"
  shows "wf_nodes s2"
proof -
  have tot: "total_of f (AList.delete k (ns_activities s)) = total_of f (ns_activities s) - f a" for f :: "activity \<Rightarrow> int"
    using total_delete [OF wf_nodesD(1) [OF assms(1)], of f k] assms(3) by (simp add: held_activity)
  have "tr_building (ns_track s1 ! i) = tr_building (ns_track s ! i) - builds_at (int i) a \<and>
      tr_transferring (ns_track s1 ! i) = tr_transferring (ns_track s ! i) - transfers_at (int i) a"
    if i: "i < length (ns_drvs s)" for i
  proof (cases "ac_node a = int i")
    case True
    then show ?thesis
      using node_counts_self [OF assms(3,1) True i] i assms(2)
      by (auto simp: assms(4) leave_node_def builds_at_def transfers_at_def)
  next
    case False
    then show ?thesis by (auto simp: assms(4) builds_at_def transfers_at_def nth_list_update)
  qed
  with assms(1) tot show ?thesis
    by (auto simp: wf_nodes_def assms(5-7) distinct_delete dest!: members_delete)
qed

section \<open>Totals per type\<close>

lemma wf_totals_others [simp]:
  "wf_totals (map_track i f s) = wf_totals s" "wf_totals (s\<lparr>ns_recent := x2\<rparr>) = wf_totals s"
  "wf_totals (s\<lparr>ns_events := x3\<rparr>) = wf_totals s" "wf_totals (s\<lparr>ns_last_event := x4\<rparr>) = wf_totals s"
  "wf_totals (s\<lparr>ns_title := x5\<rparr>) = wf_totals s" "wf_totals (s\<lparr>ns_warnings := x2\<rparr>) = wf_totals s"
  "wf_totals (s\<lparr>ns_in_planned := b\<rparr>) = wf_totals s" "wf_totals (s\<lparr>ns_files_linked := x3\<rparr>) = wf_totals s"
  "wf_totals (s\<lparr>ns_bytes_linked := x3\<rparr>) = wf_totals s" "wf_totals (s\<lparr>ns_untrusted := x3\<rparr>) = wf_totals s"
  "wf_totals (s\<lparr>ns_corrupted := x3\<rparr>) = wf_totals s"
  by (simp_all add: wf_totals_def activity_of_def)

lemma activity_of_set [simp]: "activity_of k' (set_activity k a s) = (if k' = k then Some a else activity_of k' s)"
  by (simp add: activity_of_def update_conv)

lemma wf_totals_cong:
  "ns_activities s1 = ns_activities s \<Longrightarrow> ns_by_type s1 = ns_by_type s \<Longrightarrow> wf_totals s1 = wf_totals s"
  by (simp add: wf_totals_def activity_of_def agg_def)

lemma wf_totalsD:
  assumes "wf_totals s"
  shows "activity_of k s = Some a \<Longrightarrow> distinct (map fst (ac_expected_by_type a))"
    and "set (ta_active (agg t s)) = {k. \<exists>a. activity_of k s = Some a \<and> ac_typ a = t}"
    and "distinct (ta_active (agg t s))"
    and "ta_expected (agg t s) = total_of (\<lambda>a. expected_of a t) (ns_activities s)"
  using assms by (auto simp: wf_totals_def activity_of_def dest!: map_of_SomeD)

lemma expected_of_new [simp]: "ac_expected_by_type a = [] \<Longrightarrow> expected_of a t = 0"
  by (simp add: expected_of_def)

lemma wf_totals_start:
  assumes "wf_totals s" "activity_of k s = None" "ac_typ a = t" "ac_expected_by_type a = []"
  shows "wf_totals (set_activity k a (map_agg t (\<lambda>g. g\<lparr>ta_active := List.insert k (ta_active g)\<rparr>) s))"
  using assms wf_totalsD(2-4) [OF assms(1)]
  by (auto simp: wf_totals_def total_update held_activity activity_of_def update_conv dest!: members_update)

lemma wf_totals_replace:
  assumes "wf_totals s" "activity_of k s = Some a0" "ac_typ a = ac_typ a0"
    "ac_expected_by_type a = ac_expected_by_type a0"
  shows "wf_totals (set_activity k a s)"
proof -
  have e: "expected_of a = expected_of a0" using assms(4) by (auto simp: expected_of_def)
  have d: "distinct (map fst (ac_expected_by_type a))" using wf_totalsD(1) [OF assms(1,2)] assms(4) by simp
  have act: "(\<exists>b. activity_of k' (set_activity k a s) = Some b \<and> ac_typ b = t) \<longleftrightarrow>
      (\<exists>b. activity_of k' s = Some b \<and> ac_typ b = t)" for k' t
    using assms(2,3) by auto
  show ?thesis
    using assms(1,2) d
    by (auto simp: wf_totals_def act total_update held_activity e dest!: members_update simp del: activity_of_set)
qed

lemma wf_totals_expected:
  assumes "wf_totals s" "activity_of k s = Some a0"
    "a = a0\<lparr>ac_expected_by_type := AList.update t n (ac_expected_by_type a0)\<rparr>"
  shows "wf_totals (set_activity k a (map_agg t (\<lambda>g. g\<lparr>ta_expected := ta_expected g - expected_of a0 t + n\<rparr>) s))"
proof -
  have e: "expected_of a t' = (if t' = t then n else expected_of a0 t')" for t'
    by (simp add: assms(3) expected_of_def map_of_update_eq)
  have d: "distinct (map fst (ac_expected_by_type a))"
    using wf_totalsD(1) [OF assms(1,2)] by (simp add: assms(3) distinct_update)
  have act: "(\<exists>b. activity_of k' (set_activity k a s) = Some b \<and> ac_typ b = t) \<longleftrightarrow>
      (\<exists>b. activity_of k' s = Some b \<and> ac_typ b = t)" for k' t
    using assms(2,3) by auto
  have act1: "activity_of k' (set_activity k a (map_agg t f s)) = activity_of k' (set_activity k a s)" for k' f
    by (simp add: activity_of_def)
  show ?thesis
    using assms(1,2) d
    by (auto simp: wf_totals_def act act1 total_update held_activity e dest!: members_update simp del: activity_of_set)
qed

lemma fold_drop_expected:
  assumes "distinct (map fst al)"
  shows "agg t (fold drop_expected al s) = (agg t s)\<lparr>ta_expected := ta_expected (agg t s) - mget 0 (map_of al) t\<rparr> \<and>
    ns_activities (fold drop_expected al s) = ns_activities s \<and> ns_drvs (fold drop_expected al s) = ns_drvs s \<and>
    ns_track (fold drop_expected al s) = ns_track s \<and> wf_tree (fold drop_expected al s) = wf_tree s \<and>
    ns_recent (fold drop_expected al s) = ns_recent s \<and> ns_warnings (fold drop_expected al s) = ns_warnings s"
  using assms
proof (induction al arbitrary: s)
  case (Cons e al)
  obtain t' n where e: "e = (t', n)" by (cases e)
  have "map_of al t' = None" using Cons.prems e by (simp add: map_of_eq_None_iff)
  with Cons e show ?case by (auto simp: drop_expected_def mget_def)
qed simp

lemma stop_activity_parts:
  assumes "activity_of k s = Some a" "wf_totals s"
  defines "s1 \<equiv> (if 0 \<le> ac_node a \<and> ac_node a < int (length (ns_track s)) then map_track (ac_node a) (leave_node a) s else s)"
  shows "ns_activities (stop_activity k s) = AList.delete k (ns_activities s)"
    and "ns_drvs (stop_activity k s) = ns_drvs s" and "ns_track (stop_activity k s) = ns_track s1"
    and "wf_tree (stop_activity k s) = wf_tree s"
    and "ns_recent (stop_activity k s) = ns_recent s" and "ns_warnings (stop_activity k s) = ns_warnings s"
    and "ta_active (agg t (stop_activity k s)) =
      (if t = ac_typ a then removeAll k (ta_active (agg t s)) else ta_active (agg t s))"
    and "ta_expected (agg t (stop_activity k s)) = ta_expected (agg t s) - expected_of a t"
proof -
  note d = fold_drop_expected [OF wf_totalsD(1) [OF assms(2,1)]]
  have s1: "agg t' s1 = agg t' s" "wf_tree s1 = wf_tree s" "ns_activities s1 = ns_activities s"
    "ns_drvs s1 = ns_drvs s" "ns_recent s1 = ns_recent s" "ns_warnings s1 = ns_warnings s" for t'
    by (simp_all add: s1_def)
  have st: "stop_activity k s =
      (let s2 = map_agg (ac_typ a) (\<lambda>g. g\<lparr>ta_done := ta_done g + ac_done a, ta_failed := ta_failed g + ac_failed a\<rparr>) s1;
           s3 = fold drop_expected (ac_expected_by_type a) s2;
           s4 = map_agg (ac_typ a) (\<lambda>g. g\<lparr>ta_active := removeAll k (ta_active g)\<rparr>) s3
       in s4\<lparr>ns_activities := AList.delete k (ns_activities s4)\<rparr>)"
    using assms(1) by (simp add: stop_activity_def s1_def)
  show "ns_activities (stop_activity k s) = AList.delete k (ns_activities s)"
    and "ns_drvs (stop_activity k s) = ns_drvs s" and "ns_track (stop_activity k s) = ns_track s1"
    and "wf_tree (stop_activity k s) = wf_tree s"
    and "ns_recent (stop_activity k s) = ns_recent s" and "ns_warnings (stop_activity k s) = ns_warnings s"
    and "ta_active (agg t (stop_activity k s)) =
      (if t = ac_typ a then removeAll k (ta_active (agg t s)) else ta_active (agg t s))"
    and "ta_expected (agg t (stop_activity k s)) = ta_expected (agg t s) - expected_of a t"
    by (simp_all add: st Let_def d s1 expected_of_def)
qed

lemma wf_totals_stop:
  assumes "wf_totals s" "wf_nodes s"
  shows "wf_totals (stop_activity k s)"
proof (cases "activity_of k s")
  case None
  with assms show ?thesis by (simp add: stop_activity_def)
next
  case (Some a)
  note p = stop_activity_parts [OF Some assms(1)]
  have act: "activity_of k' (stop_activity k s) = (if k' = k then None else activity_of k' s)" for k'
    by (simp add: activity_of_def p delete_conv)
  have tot: "total_of f (AList.delete k (ns_activities s)) = total_of f (ns_activities s) - f a" for f :: "activity \<Rightarrow> counter"
    using total_delete [OF wf_nodesD(1) [OF assms(2)], of f k] Some by (simp add: held_activity)
  show ?thesis
    using assms(1) Some
    by (auto simp: wf_totals_def act p tot distinct_removeAll dest!: members_delete)
qed

section \<open>Every step keeps the invariants\<close>

text \<open>What the type-specific part of a start event may do.\<close>

lemma attach_transfer_result:
  assumes "attach_transfer a path s = (a1, s1)"
  shows "(a1 = a \<and> s1 = s) \<or>
    (\<exists>i n. ns_name_index s n = Some i \<and> n \<noteq> [] \<and> 0 \<le> i \<and> a1 = a\<lparr>ac_node := i\<rparr> \<and>
      s1 = map_track i (\<lambda>t. t\<lparr>tr_transferring := tr_transferring t + 1\<rparr>) s)"
proof (cases "\<not> prefix ''/nix/store/'' path \<or> store_path_to_name path = []")
  case True
  then have "attach_transfer a path s = (a, s)"
    by (cases "prefix ''/nix/store/'' path") (simp_all add: attach_transfer_def)
  with assms show ?thesis by simp
next
  case False
  then have store: "prefix ''/nix/store/'' path" "store_path_to_name path \<noteq> []" by simp_all
  show ?thesis
  proof (cases "ns_name_index s (store_path_to_name path)")
    case (Some i)
    show ?thesis
    proof (cases "i < 0")
      case False
      with assms store Some have "a1 = a\<lparr>ac_node := i\<rparr>"
        "s1 = map_track i (\<lambda>t. t\<lparr>tr_transferring := tr_transferring t + 1\<rparr>) s"
        by (simp_all add: attach_transfer_def Let_def)
      with store Some False show ?thesis by (intro disjI2 exI [of _ i] exI [of _ "store_path_to_name path"]) simp
    qed (use assms store Some in \<open>simp add: attach_transfer_def\<close>)
  qed (use assms store in \<open>simp add: attach_transfer_def\<close>)
qed

lemma machine_from_fields [simp]:
  "ac_typ (machine_from ev a) = ac_typ a" "ac_node (machine_from ev a) = ac_node a"
  "ac_expected_by_type (machine_from ev a) = ac_expected_by_type a"
  by (simp_all add: machine_from_def split: option.split)

lemma name_from_fields [simp]:
  "ac_typ (name_from f ev a) = ac_typ a" "ac_node (name_from f ev a) = ac_node a"
  "ac_expected_by_type (name_from f ev a) = ac_expected_by_type a"
  by (simp_all add: name_from_def split: option.split)

lemma start_details_result:
  assumes "start_details ev a0 s = (a, s1)" "ac_typ a0 = ev_type ev" "ac_node a0 = - 1"
  shows "ac_typ a = ev_type ev \<and> ac_expected_by_type a = ac_expected_by_type a0 \<and>
    ((ac_node a = - 1 \<and> s1 = s) \<or>
     (\<exists>p s'. note_drv p s = (ac_node a, s') \<and> s1 = map_track (ac_node a) (enter_node a) s') \<or>
     (\<exists>n. ns_name_index s n = Some (ac_node a) \<and> n \<noteq> [] \<and> 0 \<le> ac_node a \<and>
        s1 = map_track (ac_node a) (enter_node a) s))"
proof -
  have build: ?thesis if b: "ev_type ev = act_build"
  proof (cases "field_str (ev_fields ev) 0")
    case (Some path)
    obtain i s' where nd: "note_drv (store_path_base path) s = (i, s')" by force
    with assms(1,2) b Some have a: "a = machine_from ev (a0\<lparr>ac_name := drv_name path, ac_node := i\<rparr>)"
      and s1: "s1 = map_track i (enter_node a) s'"
      by (auto simp: start_details_def enter_node_build)
    have "note_drv (store_path_base path) s = (ac_node a, s') \<and> s1 = map_track (ac_node a) (enter_node a) s'"
      using nd s1 a by simp
    then show ?thesis using a assms(2) by auto
  qed (use b assms in \<open>auto simp: start_details_def\<close>)
  have moved: ?thesis
    if "attach_transfer b path s = (a1, s1)" "a = machine_from ev a1 \<or> a = a1" "ev_type ev \<noteq> act_build"
      "ac_typ b = ac_typ a0" "ac_node b = ac_node a0" "ac_expected_by_type b = ac_expected_by_type a0" for b path a1
    using attach_transfer_result [OF that(1)] that(2-) assms(2,3)
    by (auto simp: enter_node_transfer)
  show ?thesis
  proof (cases "ev_type ev = act_build")
    case False
    then show ?thesis
      using assms(1) moved assms(2,3)
      by (auto simp: start_details_def split: option.splits prod.splits if_splits)
  qed (rule build)
qed

definition nom_inv :: "nom_state \<Rightarrow> bool" where
  "nom_inv s \<longleftrightarrow> wf_tree s \<and> wf_nodes s \<and> wf_totals s \<and> wf_panes s"

lemma nom_inv_new: "nom_inv (new_nom_state tm)"
  by (simp add: nom_inv_def wf_tree_def wf_nodes_def wf_totals_def wf_panes_def new_nom_state_def named_def
      agg_def new_type_agg_def activity_of_def)

lemma start_keeps:
  assumes "nom_inv s" "activity_of (ev_id ev) s = None"
  shows "nom_inv (start_activity ev tm s)"
proof -
  let ?k = "ev_id ev" and ?f = "\<lambda>g. g\<lparr>ta_active := List.insert (ev_id ev) (ta_active g)\<rparr>"
  obtain a s1 where d: "start_details ev (new_activity ev tm) (map_agg (ev_type ev) ?f s) = (a, s1)" by force
  have st: "start_activity ev tm s = set_activity ?k a s1" by (simp add: start_activity_def d)
  note r = start_details_result [OF d]
  have a: "ac_typ a = ev_type ev" "ac_expected_by_type a = []"
    using r by (auto simp: new_activity_def)
  let ?s0 = "map_agg (ev_type ev) ?f s"
  have t0: "wf_tree ?s0" "wf_nodes ?s0" and pn: "wf_panes s" and k0: "activity_of ?k ?s0 = None"
    using assms by (simp_all add: nom_inv_def activity_of_def)
  have tot: "wf_totals (set_activity ?k a ?s0)"
    using assms a by (intro wf_totals_start) (auto simp: nom_inv_def)
  consider (free) "ac_node a = - 1" "s1 = ?s0"
    | (noted) p s' where "note_drv p ?s0 = (ac_node a, s')" "s1 = map_track (ac_node a) (enter_node a) s'"
    | (known) n where "ns_name_index ?s0 n = Some (ac_node a)" "n \<noteq> []" "0 \<le> ac_node a"
        "s1 = map_track (ac_node a) (enter_node a) ?s0"
    using r by (auto simp: new_activity_def)
  then show ?thesis
  proof cases
    case free
    with t0 k0 tot pn show ?thesis by (simp add: st nom_inv_def wf_nodes_plain wf_panes_def)
  next
    case noted
    note nd = note_drv_result [OF noted(1) t0(1)]
    have "activity_of ?k s' = None" using nd k0 by (simp add: activity_of_def)
    moreover have "wf_totals (set_activity ?k a s1) = wf_totals (set_activity ?k a ?s0)"
      using nd by (intro wf_totals_cong) (auto simp: noted(2) set_activity_def map_track_def)
    ultimately show ?thesis
      using nd wf_nodes_enter [OF wf_nodes_note [OF noted(1) t0] tree_length, of ?k a] tot pn
      by (simp add: st nom_inv_def noted(2) wf_panes_def)
  next
    case known
    have "wf_totals (set_activity ?k a s1) = wf_totals (set_activity ?k a ?s0)"
      by (intro wf_totals_cong) (auto simp: known(4) set_activity_def map_track_def)
    then show ?thesis
      using known named_node [OF t0(1) known(1-3)] wf_nodes_enter [OF t0(2) tree_length [OF t0(1)] k0, of a] t0 tot pn
      by (simp add: st nom_inv_def wf_panes_def)
  qed
qed

lemma stop_keeps: "nom_inv s \<Longrightarrow> nom_inv (stop_activity k s)"
proof (cases "activity_of k s")
  case (Some a)
  assume inv: "nom_inv s"
  then have wf: "wf_tree s" "wf_nodes s" "wf_totals s" by (simp_all add: nom_inv_def)
  note p = stop_activity_parts [OF Some wf(3)]
  have "wf_nodes (stop_activity k s)"
    by (rule wf_nodes_leave [OF wf(2) tree_length [OF wf(1)] Some refl p(1-3)])
  with inv Some show ?thesis by (simp add: nom_inv_def wf_totals_stop p wf_panes_def)
qed (simp add: stop_activity_def)

lemma replace_keeps:
  assumes "nom_inv s" "activity_of k s = Some a0" "ac_typ a = ac_typ a0" "ac_node a = ac_node a0"
    "ac_expected_by_type a = ac_expected_by_type a0"
  shows "nom_inv (set_activity k a s)"
  using assms wf_nodes_replace [of s k a0 a] wf_totals_replace [of s k a0 a] by (simp add: nom_inv_def wf_panes_def)

lemma inv_others [simp]:
  "nom_inv (s\<lparr>ns_events := x3\<rparr>) = nom_inv s" "nom_inv (s\<lparr>ns_last_event := x4\<rparr>) = nom_inv s"
  "nom_inv (s\<lparr>ns_title := x5\<rparr>) = nom_inv s" "nom_inv (s\<lparr>ns_in_planned := b\<rparr>) = nom_inv s"
  "nom_inv (s\<lparr>ns_files_linked := x3\<rparr>) = nom_inv s" "nom_inv (s\<lparr>ns_bytes_linked := x3\<rparr>) = nom_inv s"
  "nom_inv (s\<lparr>ns_untrusted := x3\<rparr>) = nom_inv s" "nom_inv (s\<lparr>ns_corrupted := x3\<rparr>) = nom_inv s"
  by (simp_all add: nom_inv_def wf_panes_def)

lemma push_keeps:
  "nom_inv s \<Longrightarrow> nom_inv (s\<lparr>ns_recent := ring_push recent_cap x (ns_recent s)\<rparr>)"
  "nom_inv s \<Longrightarrow> nom_inv (s\<lparr>ns_warnings := ring_push warning_cap x (ns_warnings s)\<rparr>)"
  by (simp_all add: nom_inv_def wf_panes_def pane.push_length)

lemma log_line_keeps:
  assumes "nom_inv s"
  shows "nom_inv (log_line ev s)"
proof -
  have "nom_inv (case activity_of (ev_id ev) s of None \<Rightarrow> s
      | Some a \<Rightarrow> set_activity (ev_id ev) (a\<lparr>ac_last_line := line\<rparr>) s)" for line
    using assms by (auto intro: replace_keeps split: option.split)
  then show ?thesis using assms
    by (cases "field_str (ev_fields ev) 0") (simp_all only: log_line_def Let_def option.case push_keeps)
qed

lemma set_expected_keeps:
  assumes "nom_inv s" "activity_of (ev_id ev) s = Some a"
  shows "nom_inv (set_expected ev a s)"
proof -
  let ?a = "\<lambda>t n. a\<lparr>ac_expected_by_type := AList.update t n (ac_expected_by_type a)\<rparr>"
  let ?s = "\<lambda>t n. map_agg t (\<lambda>g. g\<lparr>ta_expected := ta_expected g - expected_of a t + n\<rparr>) s"
  have "nom_inv (set_activity (ev_id ev) (?a t n) (?s t n))" for t n
  proof -
    have "wf_totals (set_activity (ev_id ev) (?a t n) (?s t n))"
      using assms by (intro wf_totals_expected [OF _ _ refl]) (simp_all add: nom_inv_def)
    moreover have "wf_nodes (set_activity (ev_id ev) (?a t n) (?s t n))"
      using assms by (intro wf_nodes_replace [of _ _ a]) (simp_all add: nom_inv_def activity_of_def)
    ultimately show ?thesis using assms(1) by (simp add: nom_inv_def wf_panes_def)
  qed
  then show ?thesis using assms(1) by (simp add: set_expected_def Let_def split: option.split)
qed

lemma result_keeps:
  assumes "nom_inv s"
  shows "nom_inv (apply_result ev s)"
proof (cases "activity_of (ev_id ev) s")
  case None
  with assms show ?thesis by (simp add: apply_result_def Let_def log_line_keeps)
next
  case (Some a)
  have "nom_inv (set_activity (ev_id ev) b s)"
    if "ac_typ b = ac_typ a" "ac_node b = ac_node a" "ac_expected_by_type b = ac_expected_by_type a" for b
    using assms Some that by (rule replace_keeps)
  with assms Some show ?thesis
    by (simp add: apply_result_def Let_def log_line_keeps set_expected_keeps split: option.split)
qed

lemma note_keeps: "nom_inv s \<Longrightarrow> nom_inv (snd (note_drv d s))"
proof -
  assume inv: "nom_inv s"
  obtain i s1 where nd: "note_drv d s = (i, s1)" by force
  have t: "wf_tree s" "wf_nodes s" using inv by (simp_all add: nom_inv_def)
  note r = note_drv_result [OF nd t(1)]
  have "wf_totals s1 = wf_totals s" using r by (intro wf_totals_cong) simp_all
  with inv r wf_nodes_note [OF nd t] show ?thesis by (simp add: nd nom_inv_def wf_panes_def)
qed

lemma msg_keeps: "nom_inv s \<Longrightarrow> nom_inv (apply_msg ev s)"
proof -
  assume inv: "nom_inv s"
  define s1 where "s1 = (case run_header (ev_msg ev) of None \<Rightarrow> s
    | Some (who, title) \<Rightarrow> s\<lparr>ns_title := ''jupiter-ci '' @ who @ '': '' @ title\<rparr>)"
  define s2 where "s2 = (if ev_level ev \<le> 1 \<and> ev_msg ev \<noteq> []
    then s1\<lparr>ns_warnings := ring_push warning_cap (ev_msg ev) (ns_warnings s1)\<rparr> else s1)"
  have "nom_inv s1" using inv by (auto simp: s1_def split: option.split)
  then have "nom_inv s2" by (simp add: s2_def push_keeps)
  then show ?thesis
    unfolding apply_msg_def Let_def s1_def [symmetric] s2_def [symmetric] by (simp add: note_keeps)
qed

lemma step_keeps_inv: "nom_step s s' \<Longrightarrow> nom_inv s \<Longrightarrow> nom_inv s'"
proof (induction rule: nom_step.induct)
  case (start ev s tm)
  have "nom_inv (start_activity ev tm (s\<lparr>ns_events := ns_events s + 1, ns_last_event := tm\<rparr>))"
    by (rule start_keeps) (use start in \<open>simp_all add: activity_of_def\<close>)
  with start show ?case by (simp add: apply_event_def Let_def)
next
  case (other ev s tm)
  then show ?case by (simp add: apply_event_def Let_def stop_keeps result_keeps msg_keeps)
qed

lemma run_inv: "nom_step\<^sup>*\<^sup>* s s' \<Longrightarrow> nom_inv s \<Longrightarrow> nom_inv s'"
  by (induction rule: rtranclp_induct) (auto intro: step_keeps_inv)

text \<open>A log in which a build of one derivation starts and another one stops.\<close>

definition build_event :: "activity_id \<Rightarrow> string \<Rightarrow> raw_event" where
  "build_event k path = zero_event\<lparr>ev_action := ''start'', ev_id := k, ev_type := act_build, ev_fields := [JStr path]\<rparr>"

definition stop_event :: "activity_id \<Rightarrow> raw_event" where
  "stop_event k = zero_event\<lparr>ev_action := ''stop'', ev_id := k\<rparr>"

definition sample_nom :: nom_state where
  "sample_nom = apply_event (build_event 7 ''/nix/store/abc-hello.drv'') 5 (new_nom_state 0)"

lemma sample_nom_reached: "nom_step\<^sup>*\<^sup>* (new_nom_state 0) sample_nom"
  unfolding sample_nom_def
  by (rule r_into_rtranclp, rule nom_step.start) (simp_all add: build_event_def activity_of_def new_nom_state_def)

lemma sample_nom_fields:
  "ns_drvs sample_nom = [''abc-hello.drv'']"
  "map (\<lambda>(k, a). (k, ac_typ a, ac_node a)) (ns_activities sample_nom) = [(7, 105, 0)]"
  by code_simp+

lemma sample_activity: "\<exists>k a. activity_of k sample_nom = Some a \<and> ac_typ a = act_build \<and> ac_node a = int 0"
  using sample_nom_fields(2) by (auto simp: map_eq_Cons_conv activity_of_def act_build_def)

text \<open>
  C13: From a fresh state, over any events whose start events use an id that is not active, a derivation
  is shown as running exactly when some live build activity is attached to it, and as transferring
  exactly when it has live activities but no live build.
\<close>

theorem node_counters_match_activities:
  assumes "nom_step\<^sup>*\<^sup>* (new_nom_state tm) s" "i < length (ns_drvs s)"
  shows "length (ns_track s) = length (ns_drvs s) \<and>
    (track_state (ns_track s ! i) = DrvRunning \<longleftrightarrow>
      (\<exists>k a. activity_of k s = Some a \<and> ac_typ a = act_build \<and> ac_node a = int i)) \<and>
    (track_state (ns_track s ! i) = DrvTransferring \<longleftrightarrow>
      (\<exists>k a. activity_of k s = Some a \<and> ac_node a = int i) \<and>
      (\<forall>k a. activity_of k s = Some a \<longrightarrow> ac_node a = int i \<longrightarrow> ac_typ a \<noteq> act_build))"
proof -
  have inv: "wf_tree s" "wf_nodes s" using run_inv [OF assms(1) nom_inv_new] by (simp_all add: nom_inv_def)
  have mem: "activity_of k s = Some a \<longleftrightarrow> (k, a) \<in> set (ns_activities s)" for k a
    using wf_nodesD(1) [OF inv(2)] by (simp add: activity_of_def)
  have b: "0 < tr_building (ns_track s ! i) \<longleftrightarrow> (\<exists>k a. (k, a) \<in> set (ns_activities s) \<and> ac_typ a = act_build \<and> ac_node a = int i)"
    unfolding wf_nodesD(3) [OF inv(2) assms(2)]
    by (subst total_pos_iff) (auto simp: builds_at_def)
  have t: "0 < tr_transferring (ns_track s ! i) \<longleftrightarrow> (\<exists>k a. (k, a) \<in> set (ns_activities s) \<and> ac_typ a \<noteq> act_build \<and> ac_node a = int i)"
    unfolding wf_nodesD(4) [OF inv(2) assms(2)]
    by (subst total_pos_iff) (auto simp: transfers_at_def)
  show ?thesis
    unfolding mem track_state_def b t using tree_length [OF inv(1)] by auto
qed

theorem node_counters_match_activities_witness:
  "length (ns_drvs sample_nom) = 1 \<and> track_state (ns_track sample_nom ! 0) = DrvRunning"
  using node_counters_match_activities [OF sample_nom_reached, of 0] sample_activity
  by (simp add: sample_nom_fields)

text \<open>
  Over the same runs, the expected total of every activity type is the sum, in 64-bit arithmetic,
  of what the live activities have announced for it, the active set of a type holds exactly its live
  activities, and both log panes stay within their capacity.
\<close>

lemma totals_add_up:
  assumes "nom_step\<^sup>*\<^sup>* (new_nom_state tm) s"
  shows "ta_expected (agg t s) = total_of (\<lambda>a. expected_of a t) (ns_activities s) \<and>
    set (ta_active (agg t s)) = {k. \<exists>a. activity_of k s = Some a \<and> ac_typ a = t} \<and>
    distinct (ta_active (agg t s)) \<and>
    length (ns_recent s) \<le> 200 \<and> length (ns_warnings s) \<le> 100"
  using run_inv [OF assms nom_inv_new] wf_totalsD(2-4) [of s t]
  by (auto simp: nom_inv_def wf_panes_def recent_cap_def warning_cap_def)

text \<open>
  A start event whose id is still active replaces the activity and nothing takes back what the first
  one counted: its derivation is shown as running for good.
\<close>

theorem reused_id_leaks_a_builder:
  "(let s = fold (\<lambda>ev. apply_event ev 5) [build_event 7 ''/nix/store/abc-hello.drv'',
        build_event 7 ''/nix/store/abc-bye.drv'', stop_event 7] (new_nom_state 0)
    in ns_activities s = [] \<and> map track_state (ns_track s) = [DrvRunning, DrvDone])"
  by code_simp

end
