(* ===== verification/NomTree.thy ===== *)
theory NomTree
  imports NomSpec "HOL-Library.List_Lexorder" "HOL-Library.Char_ord"
begin

text \<open>
  pkgs/nom-web/deps.go: the dependency forest of a run. The edge list of the run names every
  derivation; the forest keeps those the run touches and relates each to the nearest ones below it,
  found by a memoised depth-first walk whose memo also guards against cycles. The walk has fuel for
  every derivation that occurs as an input, which is proved to be enough for every graph.
\<close>

section \<open>The edge list\<close>

type_synonym dep_graph = "(string \<times> string list) list"

definition inputs_of :: "dep_graph \<Rightarrow> string \<Rightarrow> string list" where
  "inputs_of g d = mget [] (map_of g) d"

definition add_edge :: "string \<Rightarrow> dep_graph \<Rightarrow> dep_graph" where
  "add_edge line g = (case index_byte CHR '' '' line of None \<Rightarrow> g
    | Some i \<Rightarrow> if i = 0 \<or> length line \<le> i + 1 then g
        else (let input = take i line; dependent = drop (Suc i) line
          in AList.update dependent (inputs_of g dependent @ [input]) g))"

text \<open>None for a file that cannot be opened or has a line that does not fit the scanner's buffer.\<close>

definition load_dep_graph :: "string option \<Rightarrow> dep_graph option" where
  "load_dep_graph file = (case file of None \<Rightarrow> None
    | Some s \<Rightarrow> if list_ex (\<lambda>l. max_token \<le> length l) (raw_lines s) then None
        else Some (fold (\<lambda>l. add_edge (drop_cr l)) (raw_lines s) []))"

section \<open>The nearest derivations of the run\<close>

type_synonym memo = "string \<Rightarrow> string list option"

definition add_new :: "string \<Rightarrow> string list \<Rightarrow> string list" where
  "add_new d out = (if d \<in> set out then out else out @ [d])"

fun nearest_in :: "nat \<Rightarrow> dep_graph \<Rightarrow> (string \<Rightarrow> bool) \<Rightarrow> string \<Rightarrow> memo \<Rightarrow> (string list \<times> memo) option"
  and inputs_loop :: "nat \<Rightarrow> dep_graph \<Rightarrow> (string \<Rightarrow> bool) \<Rightarrow> string list \<Rightarrow> string list \<Rightarrow> memo \<Rightarrow>
    (string list \<times> memo) option" where
  "nearest_in 0 g planned node memo = None"
| "nearest_in (Suc n) g planned node memo = (case memo node of Some v \<Rightarrow> Some (v, memo)
    | None \<Rightarrow> (case inputs_loop n g planned (inputs_of g node) [] (memo(node \<mapsto> [])) of
        None \<Rightarrow> None
      | Some (out, memo1) \<Rightarrow> Some (out, memo1(node \<mapsto> out))))"
| "inputs_loop n g planned [] out memo = Some (out, memo)"
| "inputs_loop n g planned (i # is) out memo =
    (if planned i then inputs_loop n g planned is (add_new i out) memo
     else (case nearest_in n g planned i memo of
        None \<Rightarrow> None
      | Some (ds, memo1) \<Rightarrow> inputs_loop n g planned is (fold add_new ds out) memo1))"

section \<open>The forest\<close>

record tree_node =
  tn_name :: string
  tn_drv :: string
  tn_children :: "nat list"

record tree =
  tr_nodes :: "tree_node list"
  tr_roots :: "nat list"

definition index_of :: "string list \<Rightarrow> string \<Rightarrow> nat option" where
  "index_of drvs = map_of (rev (zip drvs [0..<length drvs]))"

definition graph_fuel :: "dep_graph \<Rightarrow> nat" where
  "graph_fuel g = length (concat (map snd g)) + 2"

definition planned_in :: "string list \<Rightarrow> string \<Rightarrow> bool" where
  "planned_in drvs d \<longleftrightarrow> index_of drvs d \<noteq> None"

definition child_indices :: "string list \<Rightarrow> nat \<Rightarrow> string list \<Rightarrow> nat list" where
  "child_indices drvs i ds = filter (\<lambda>j. j \<noteq> i) (List.map_filter (index_of drvs) ds)"

fun child_lists :: "string list \<Rightarrow> dep_graph \<Rightarrow> (nat \<times> string) list \<Rightarrow> memo \<Rightarrow> nat list list option" where
  "child_lists drvs g [] memo = Some []"
| "child_lists drvs g ((i, d) # rest) memo =
    (case nearest_in (graph_fuel g) g (planned_in drvs) d memo of
       None \<Rightarrow> None
     | Some (ds, memo1) \<Rightarrow> map_option (Cons (child_indices drvs i ds)) (child_lists drvs g rest memo1))"

definition bare_node :: "string \<Rightarrow> tree_node" where
  "bare_node d = \<lparr>tn_name = drv_name d, tn_drv = d, tn_children = []\<rparr>"

definition root_less :: "tree_node list \<Rightarrow> nat \<Rightarrow> nat \<Rightarrow> bool" where
  "root_less nodes a b \<longleftrightarrow> tn_name (nodes ! a) < tn_name (nodes ! b)"

definition build_tree :: "string list \<Rightarrow> dep_graph option \<Rightarrow> tree option" where
  "build_tree drvs graph = (case graph of
      None \<Rightarrow> Some \<lparr>tr_nodes = map bare_node drvs, tr_roots = [0..<length drvs]\<rparr>
    | Some g \<Rightarrow> (case child_lists drvs g (zip [0..<length drvs] drvs) (\<lambda>_. None) of
          None \<Rightarrow> None
        | Some css \<Rightarrow>
            (let nodes = map2 (\<lambda>d cs. (bare_node d)\<lparr>tn_children := cs\<rparr>) drvs css;
                 roots = filter (\<lambda>j. j \<notin> set (concat css)) [0..<length drvs]
             in Some \<lparr>tr_nodes = nodes, tr_roots = sort_stable (root_less nodes) roots\<rparr>)))"

interpretation root_order: weak_order "root_less nodes" for nodes
  by unfold_locales (auto simp: root_less_def not_less)

section \<open>Enough fuel\<close>

definition all_inputs :: "dep_graph \<Rightarrow> string set" where
  "all_inputs g = set (concat (map snd g))"

definition unseen :: "string set \<Rightarrow> memo \<Rightarrow> nat" where
  "unseen A memo = card {x\<in>A. memo x = None}"

lemma inputs_in_all: "set (inputs_of g d) \<subseteq> all_inputs g"
  by (cases "map_of g d") (force simp: inputs_of_def all_inputs_def dest: map_of_SomeD)+

lemma finite_all_inputs [simp]: "finite (all_inputs g)"
  by (simp add: all_inputs_def)

lemma unseen_mono: "dom m \<subseteq> dom m' \<Longrightarrow> finite A \<Longrightarrow> unseen A m' \<le> unseen A m"
  unfolding unseen_def by (rule card_mono) (auto simp: dom_def)

lemma walk_extends_memo:
  "nearest_in n g planned node memo = Some (out, memo1) \<Longrightarrow> dom memo \<subseteq> dom memo1"
  "inputs_loop n g planned is acc memo = Some (out, memo1) \<Longrightarrow> dom memo \<subseteq> dom memo1"
proof (induction n g planned node memo and n g planned "is" acc memo arbitrary: out memo1 and out memo1
    rule: nearest_in_inputs_loop.induct)
  case (2 n g planned node memo)
  then show ?case by (fastforce split: option.splits)
next
  case (4 n g planned i "is" acc memo)
  show ?case
  proof (cases "planned i")
    case False
    with "4.prems" obtain ds memo2 where h: "nearest_in n g planned i memo = Some (ds, memo2)"
      "inputs_loop n g planned is (fold add_new ds acc) memo2 = Some (out, memo1)"
      by (auto split: option.splits)
    with False "4.IH"(2) [OF False h(1)] "4.IH"(3) [OF False h(1) refl h(2)] show ?thesis by blast
  qed (use 4 in simp)
qed simp_all

lemma walk_has_fuel:
  "unseen (insert node (all_inputs g)) memo < n \<Longrightarrow> nearest_in n g planned node memo \<noteq> None"
  "unseen (all_inputs g) memo < n \<Longrightarrow> set is \<subseteq> all_inputs g \<Longrightarrow> inputs_loop n g planned is acc memo \<noteq> None"
proof (induction n g planned node memo and n g planned "is" acc memo rule: nearest_in_inputs_loop.induct)
  case (2 n g planned node memo)
  show ?case
  proof (cases "memo node")
    case None
    let ?A = "insert node (all_inputs g)"
    have "{x\<in>?A. memo x = None} = insert node {x\<in>?A. (memo(node \<mapsto> [])) x = None}" using None by auto
    then have "unseen ?A memo = Suc (unseen ?A (memo(node \<mapsto> [])))"
      unfolding unseen_def by (simp only:) (subst card_insert_disjoint, auto)
    moreover have "unseen (all_inputs g) (memo(node \<mapsto> [])) \<le> unseen ?A (memo(node \<mapsto> []))"
      unfolding unseen_def by (rule card_mono) auto
    ultimately have "unseen (all_inputs g) (memo(node \<mapsto> [])) < n" using "2.prems" by linarith
    from "2.IH" [OF None this inputs_in_all]
    obtain a b where h: "inputs_loop n g planned (inputs_of g node) [] (memo(node \<mapsto> [])) = Some (a, b)"
      by (auto simp: fun_upd_def)
    show ?thesis by (simp only: nearest_in.simps None h option.case prod.case) simp
  qed simp
next
  case (4 n g planned i "is" acc memo)
  show ?case
  proof (cases "planned i")
    case False
    have ins: "insert i (all_inputs g) = all_inputs g" using "4.prems"(2) by auto
    have "nearest_in n g planned i memo \<noteq> None" using "4.IH"(2) [OF False] "4.prems"(1) ins by simp
    then obtain ds memo1 where h: "nearest_in n g planned i memo = Some (ds, memo1)" by auto
    have "unseen (all_inputs g) memo1 < n"
      using "4.prems"(1) unseen_mono [OF walk_extends_memo(1) [OF h] finite_all_inputs] by (rule le_less_trans [rotated])
    with "4.IH"(3) [OF False h refl] "4.prems"(2) h False show ?thesis by simp
  qed (use 4 in simp)
qed simp_all

lemma graph_fuel_enough: "unseen (insert node (all_inputs g)) memo < graph_fuel g"
proof -
  have "unseen (insert node (all_inputs g)) memo \<le> card (insert node (all_inputs g))"
    unfolding unseen_def by (rule card_mono) auto
  also have "\<dots> \<le> Suc (card (all_inputs g))" by (simp add: card_insert_le_m1)
  also have "card (all_inputs g) \<le> length (concat (map snd g))"
    unfolding all_inputs_def by (rule card_length)
  finally show ?thesis by (simp add: graph_fuel_def)
qed

lemma nearest_total: "\<exists>out memo1. nearest_in (graph_fuel g) g planned node memo = Some (out, memo1)"
  using walk_has_fuel(1) [OF graph_fuel_enough] by (metis not_None_eq surj_pair)

lemma child_lists_total: "\<exists>css. child_lists drvs g ids memo = Some css \<and> length css = length ids"
proof (induction ids arbitrary: memo)
  case (Cons e ids)
  obtain i d where e: "e = (i, d)" by (cases e)
  obtain out memo1 where h: "nearest_in (graph_fuel g) g (planned_in drvs) d memo = Some (out, memo1)"
    using nearest_total by blast
  from Cons.IH [of memo1] obtain css where "child_lists drvs g ids memo1 = Some css" "length css = length ids" by blast
  with h show ?case by (simp add: e)
qed simp

section \<open>What the walk finds\<close>

inductive nearest_dep :: "dep_graph \<Rightarrow> (string \<Rightarrow> bool) \<Rightarrow> string \<Rightarrow> string \<Rightarrow> bool" for g planned where
  direct: "c \<in> set (inputs_of g d) \<Longrightarrow> planned c \<Longrightarrow> nearest_dep g planned d c"
| through: "u \<in> set (inputs_of g d) \<Longrightarrow> \<not> planned u \<Longrightarrow> nearest_dep g planned u c \<Longrightarrow> nearest_dep g planned d c"

inductive_simps nearest_dep_unfold: "nearest_dep g planned d c"

lemma nearest_dep_iff:
  "Collect (nearest_dep g planned d) =
    {c. \<exists>i\<in>set (inputs_of g d). if planned i then c = i else nearest_dep g planned i c}"
  by (rule Collect_cong, subst nearest_dep_unfold) (auto split: if_splits)

definition needs :: "dep_graph \<Rightarrow> (string \<times> string) set" where
  "needs g = {(i, d). i \<in> set (inputs_of g d)}"

lemma set_fold_add_new [simp]: "set (fold add_new ds out) = set ds \<union> set out"
  by (induction ds arbitrary: out) (auto simp: add_new_def)

lemma distinct_fold_add_new [simp]: "distinct out \<Longrightarrow> distinct (fold add_new ds out)"
  by (induction ds arbitrary: out) (auto simp: add_new_def)

definition memo_ok :: "dep_graph \<Rightarrow> (string \<Rightarrow> bool) \<Rightarrow> string set \<Rightarrow> memo \<Rightarrow> bool" where
  "memo_ok g planned S memo \<longleftrightarrow> (\<forall>x v. memo x = Some v \<longrightarrow>
     distinct v \<and> (x \<notin> S \<longrightarrow> set v = Collect (nearest_dep g planned x)))"

lemma walk_finds_nearest:
  "nearest_in n g planned node memo = Some (out, memo1) \<Longrightarrow> acyclic (needs g) \<Longrightarrow> memo_ok g planned S memo \<Longrightarrow>
    (\<And>s. s \<in> S \<Longrightarrow> (node, s) \<in> (needs g)\<^sup>+) \<Longrightarrow>
    memo_ok g planned S memo1 \<and> distinct out \<and> set out = Collect (nearest_dep g planned node)"
  "inputs_loop n g planned is acc memo = Some (out, memo1) \<Longrightarrow> acyclic (needs g) \<Longrightarrow> memo_ok g planned S memo \<Longrightarrow>
    distinct acc \<Longrightarrow> (\<And>s i. s \<in> S \<Longrightarrow> i \<in> set is \<Longrightarrow> (i, s) \<in> (needs g)\<^sup>+) \<Longrightarrow>
    memo_ok g planned S memo1 \<and> distinct out \<and>
    set out = set acc \<union> {c. \<exists>i\<in>set is. if planned i then c = i else nearest_dep g planned i c}"
proof (induction n g planned node memo and n g planned "is" acc memo arbitrary: out memo1 S and out memo1 S
    rule: nearest_in_inputs_loop.induct)
  case (2 n g planned node memo)
  have fresh: "node \<notin> S" using "2.prems"(2,4) by (auto simp: acyclic_def)
  show ?case
  proof (cases "memo node")
    case (Some v)
    with "2.prems" fresh show ?thesis by (auto simp: memo_ok_def)
  next
    case None
    with "2.prems"(1) obtain memo2 where h: "inputs_loop n g planned (inputs_of g node) [] (memo(node \<mapsto> [])) = Some (out, memo2)"
      and m1: "memo1 = memo2(node \<mapsto> out)" by (auto split: option.splits)
    have ok: "memo_ok g planned (insert node S) (memo(node \<mapsto> []))" using "2.prems"(3) by (auto simp: memo_ok_def)
    have anc: "(i, s) \<in> (needs g)\<^sup>+" if "s \<in> insert node S" "i \<in> set (inputs_of g node)" for s i
    proof -
      have e: "(i, node) \<in> needs g" using that(2) by (simp add: needs_def)
      show ?thesis using that(1) e "2.prems"(4) by (auto intro: trancl_into_trancl2)
    qed
    have "memo_ok g planned (insert node S) memo2 \<and> distinct out \<and> set out =
        set [] \<union> {c. \<exists>i\<in>set (inputs_of g node). if planned i then c = i else nearest_dep g planned i c}"
      by (rule "2.IH" [OF None h "2.prems"(2) ok _ anc]) simp_all
    then have r: "memo_ok g planned (insert node S) memo2" "distinct out"
      "set out = {c. \<exists>i\<in>set (inputs_of g node). if planned i then c = i else nearest_dep g planned i c}" by auto
    have "set out = Collect (nearest_dep g planned node)"
      unfolding r(3) nearest_dep_iff ..
    with r show ?thesis by (auto simp: m1 memo_ok_def)
  qed
next
  case (4 n g planned i "is" acc memo)
  show ?case
  proof (cases "planned i")
    case True
    have "distinct (add_new i acc)" "set (add_new i acc) = insert i (set acc)"
      using "4.prems"(4) by (auto simp: add_new_def)
    with True "4.prems" "4.IH"(1) [OF True, of out memo1 S] show ?thesis by auto
  next
    case False
    with "4.prems"(1) obtain ds memo2 where h: "nearest_in n g planned i memo = Some (ds, memo2)"
      "inputs_loop n g planned is (fold add_new ds acc) memo2 = Some (out, memo1)"
      by (auto split: option.splits)
    have a: "memo_ok g planned S memo2" "set ds = Collect (nearest_dep g planned i)"
      using "4.IH"(2) [OF False h(1) "4.prems"(2,3)] "4.prems"(5) by auto
    have "distinct (fold add_new ds acc)" using "4.prems"(4) by simp
    with "4.IH"(3) [OF False h(1) refl h(2) "4.prems"(2) a(1)] "4.prems"(5) a(2) False show ?thesis by auto
  qed
qed auto

section \<open>What the forest shows\<close>

lemma index_of_range: "index_of drvs d = Some j \<Longrightarrow> j < length drvs"
  by (auto simp: index_of_def in_set_zip dest!: map_of_SomeD)

lemma index_of_Some:
  assumes "distinct drvs"
  shows "index_of drvs d = Some j \<longleftrightarrow> j < length drvs \<and> drvs ! j = d"
proof -
  have dz: "distinct (map fst (zip drvs [0..<length drvs]))" using assms by simp
  then have "index_of drvs = map_of (zip drvs [0..<length drvs])"
    unfolding index_of_def by (subst map_of_inject_set) (simp_all add: rev_map [symmetric] del: map_fst_zip)
  with dz show ?thesis
    by (auto simp: map_of_eq_Some_iff in_set_zip)
qed

lemma nearest_dep_needs: "nearest_dep g planned d c \<Longrightarrow> (c, d) \<in> (needs g)\<^sup>+ \<and> planned c"
proof (induction rule: nearest_dep.induct)
  case (direct c d)
  then show ?case by (auto simp: needs_def)
next
  case (through u d c)
  then have "(u, d) \<in> needs g" by (simp add: needs_def)
  with through.IH show ?case by (auto intro: trancl_into_trancl)
qed

lemma child_indices_nearest:
  assumes "distinct drvs" "acyclic (needs g)" "distinct ds" "i < length drvs"
    "set ds = Collect (nearest_dep g (planned_in drvs) (drvs ! i))"
  shows "distinct (child_indices drvs i ds) \<and>
    set (child_indices drvs i ds) = {j. j < length drvs \<and> nearest_dep g (planned_in drvs) (drvs ! i) (drvs ! j)}"
proof -
  have "distinct (List.map_filter (index_of drvs) ds)"
    using assms(3)
    by (induction ds) (auto simp: map_filter_simps index_of_Some [OF assms(1)] in_map_filter split: option.split)
  moreover have "j \<noteq> i" if "nearest_dep g (planned_in drvs) (drvs ! i) (drvs ! j)" for j
    using nearest_dep_needs [OF that] assms(2) by (auto simp: acyclic_def)
  ultimately show ?thesis
    using assms(4) by (auto simp: child_indices_def in_map_filter assms(5) index_of_Some [OF assms(1)])
qed

lemma child_lists_nearest:
  assumes "child_lists drvs g ids memo = Some css" "memo_ok g (planned_in drvs) {} memo" "acyclic (needs g)"
    "distinct drvs" "\<forall>(i, d)\<in>set ids. i < length drvs \<and> drvs ! i = d"
  shows "length css = length ids \<and> (\<forall>n < length ids. distinct (css ! n) \<and>
    set (css ! n) = {j. j < length drvs \<and> nearest_dep g (planned_in drvs) (snd (ids ! n)) (drvs ! j)})"
  using assms
proof (induction ids arbitrary: memo css)
  case (Cons e ids)
  obtain i d where e: "e = (i, d)" by (cases e)
  with Cons.prems(1) obtain ds memo1 rest where
    h: "nearest_in (graph_fuel g) g (planned_in drvs) d memo = Some (ds, memo1)"
      "child_lists drvs g ids memo1 = Some rest" and css: "css = child_indices drvs i ds # rest"
    by (auto split: option.splits)
  have w: "memo_ok g (planned_in drvs) {} memo1 \<and> distinct ds \<and> set ds = Collect (nearest_dep g (planned_in drvs) d)"
    by (rule walk_finds_nearest(1) [OF h(1) Cons.prems(3,2)]) simp
  have i: "i < length drvs" "drvs ! i = d" using Cons.prems(5) e by auto
  have first: "distinct (child_indices drvs i ds) \<and>
    set (child_indices drvs i ds) = {j. j < length drvs \<and> nearest_dep g (planned_in drvs) d (drvs ! j)}"
    using child_indices_nearest [OF Cons.prems(4,3) _ i(1), of ds] w i(2) by simp
  have "length rest = length ids \<and> (\<forall>n < length ids. distinct (rest ! n) \<and>
      set (rest ! n) = {j. j < length drvs \<and> nearest_dep g (planned_in drvs) (snd (ids ! n)) (drvs ! j)})"
    by (rule Cons.IH [OF h(2)]) (use w Cons.prems in auto)
  with first show ?case by (auto simp: css e nth_Cons split: nat.split)
qed simp

text \<open>
  C14: On an acyclic edge list, the memoised walk gives each derivation as children each once, exactly
  the derivations of the run that it reaches through derivations outside the run; the roots are the
  nodes that are no one's child, sorted by name.
\<close>

theorem tree_edges_are_nearest_dependencies:
  assumes "acyclic (needs g)" "distinct drvs"
  shows "\<exists>t. build_tree drvs (Some g) = Some t \<and> map tn_drv (tr_nodes t) = drvs \<and>
    (\<forall>i < length drvs. distinct (tn_children (tr_nodes t ! i)) \<and>
       set (tn_children (tr_nodes t ! i)) =
         {j. j < length drvs \<and> nearest_dep g (\<lambda>d. d \<in> set drvs) (drvs ! i) (drvs ! j)}) \<and>
    set (tr_roots t) = {j. j < length drvs \<and> (\<forall>i < length drvs. j \<notin> set (tn_children (tr_nodes t ! i)))} \<and>
    sorted (map (\<lambda>j. tn_name (tr_nodes t ! j)) (tr_roots t))"
proof -
  let ?ids = "zip [0..<length drvs] drvs"
  obtain css where css: "child_lists drvs g ?ids (\<lambda>_. None) = Some css" "length css = length ?ids"
    using child_lists_total by blast
  have pl: "planned_in drvs = (\<lambda>d. d \<in> set drvs)"
    by (rule ext) (auto simp: planned_in_def index_of_Some [OF assms(2)] in_set_conv_nth)
  have ids: "\<forall>(i, d)\<in>set ?ids. i < length drvs \<and> drvs ! i = d" by (auto simp: in_set_zip)
  have c: "distinct (css ! n) \<and> set (css ! n) = {j. j < length drvs \<and> nearest_dep g (\<lambda>d. d \<in> set drvs) (drvs ! n) (drvs ! j)}"
    if "n < length drvs" for n
    using child_lists_nearest [OF css(1) _ assms ids] that by (simp add: memo_ok_def pl)
  define nodes where "nodes = map2 (\<lambda>d cs. (bare_node d)\<lparr>tn_children := cs\<rparr>) drvs css"
  have n: "nodes ! i = (bare_node (drvs ! i))\<lparr>tn_children := css ! i\<rparr>" if "i < length drvs" for i
    using that css(2) by (simp add: nodes_def)
  let ?roots = "filter (\<lambda>j. j \<notin> set (concat css)) [0..<length drvs]"
  have b: "build_tree drvs (Some g) = Some \<lparr>tr_nodes = nodes, tr_roots = sort_stable (root_less nodes) ?roots\<rparr>"
    by (simp add: build_tree_def css(1) nodes_def Let_def)
  have "map tn_drv nodes = drvs"
    using css(2) by (intro nth_equalityI) (simp_all add: n bare_node_def nodes_def)
  moreover have "set ?roots = {j. j < length drvs \<and> (\<forall>i < length drvs. j \<notin> set (tn_children (nodes ! i)))}"
  proof -
    have "j \<in> set (concat css) \<longleftrightarrow> (\<exists>i < length drvs. j \<in> set (css ! i))" for j
      unfolding set_concat set_conv_nth [of css] using css(2) by auto
    then show ?thesis by (auto simp: n)
  qed
  moreover have "sorted (map (\<lambda>j. tn_name (nodes ! j)) (sort_stable (root_less nodes) ?roots))"
    using root_order.sorted_sort_stable [of nodes ?roots]
    by (simp add: sorted_wrt_map root_less_def not_less)
  ultimately show ?thesis using c n b by auto
qed

text \<open>
  Three derivations: the first needs the third through one that is not part of the run, the second
  stands alone.
\<close>

definition sample_graph :: dep_graph where
  "sample_graph = [(''a-app.drv'', [''b-lib.drv'']), (''b-lib.drv'', [''c-base.drv''])]"

definition sample_drvs :: "string list" where
  "sample_drvs = [''a-app.drv'', ''d-doc.drv'', ''c-base.drv'']"

lemma sample_acyclic: "acyclic (needs sample_graph)"
proof -
  have "needs sample_graph \<subseteq> measure (\<lambda>d. if d = ''a-app.drv'' then 2 else if d = ''b-lib.drv'' then 1 else 0)"
    by (auto simp: needs_def inputs_of_def sample_graph_def mget_def split: if_splits)
  then have "wf (needs sample_graph)" by (rule wf_subset [OF wf_measure])
  then show ?thesis by (rule wf_acyclic)
qed

theorem tree_edges_are_nearest_dependencies_witness:
  "nearest_dep sample_graph (\<lambda>d. d \<in> set sample_drvs) ''a-app.drv'' ''c-base.drv'' \<and>
   (\<exists>t. build_tree sample_drvs (Some sample_graph) = Some t \<and> 2 \<in> set (tn_children (tr_nodes t ! 0)) \<and>
      set (tr_roots t) = {0, 1})"
proof -
  have "distinct sample_drvs" by (simp add: sample_drvs_def)
  from tree_edges_are_nearest_dependencies [OF sample_acyclic this]
  obtain t where t: "build_tree sample_drvs (Some sample_graph) = Some t"
    "\<forall>i < length sample_drvs. distinct (tn_children (tr_nodes t ! i)) \<and> set (tn_children (tr_nodes t ! i)) =
       {j. j < length sample_drvs \<and> nearest_dep sample_graph (\<lambda>d. d \<in> set sample_drvs) (sample_drvs ! i) (sample_drvs ! j)}"
    by blast
  have len: "length sample_drvs = 3" by (simp add: sample_drvs_def)
  have r: "map_option tr_roots (build_tree sample_drvs (Some sample_graph)) = Some [0, 1]" by code_simp
  have "nearest_dep sample_graph (\<lambda>d. d \<in> set sample_drvs) ''b-lib.drv'' ''c-base.drv''"
    by (rule nearest_dep.direct) (simp_all add: inputs_of_def sample_graph_def sample_drvs_def)
  then have n: "nearest_dep sample_graph (\<lambda>d. d \<in> set sample_drvs) ''a-app.drv'' ''c-base.drv''"
    by (rule nearest_dep.through [rotated 2]) (simp_all add: inputs_of_def sample_graph_def sample_drvs_def)
  then have "2 \<in> set (tn_children (tr_nodes t ! 0))" using t(2) len by (simp add: sample_drvs_def)
  with t r n show ?thesis by auto
qed

lemma child_lists_range:
  "child_lists drvs g ids memo = Some css \<Longrightarrow> list_all (list_all (\<lambda>j. j < length drvs)) css"
proof (induction ids arbitrary: memo css)
  case (Cons e ids)
  obtain i d where e: "e = (i, d)" by (cases e)
  have "list_all (\<lambda>j. j < length drvs) (child_indices drvs i ds)" for ds
    by (auto simp: child_indices_def list_all_iff in_map_filter dest: index_of_range)
  with Cons e show ?case by (auto split: option.splits)
qed simp

lemma tree_is_built:
  "\<exists>t. build_tree drvs graph = Some t \<and> length (tr_nodes t) = length drvs \<and>
    list_all (\<lambda>n. list_all (\<lambda>j. j < length drvs) (tn_children n)) (tr_nodes t) \<and>
    list_all (\<lambda>j. j < length drvs) (tr_roots t)"
proof (cases graph)
  case None
  then show ?thesis by (simp add: build_tree_def bare_node_def list_all_length)
next
  case (Some g)
  obtain css where css: "child_lists drvs g (zip [0..<length drvs] drvs) (\<lambda>_. None) = Some css" "length css = length drvs"
    using child_lists_total [of drvs g "zip [0..<length drvs] drvs" "\<lambda>_. None"] by auto
  with child_lists_range [OF css(1)] show ?thesis
    by (auto simp: Some build_tree_def Let_def list_all_iff set_zip)
qed

text \<open>
  The forest is built for every derivation list and every edge list, cyclic ones included: the walk
  of the fuel given always finishes, with one node per derivation and every edge and root an index of a
  node.
\<close>

lemma tree_is_built_for_every_graph:
  "\<exists>t. build_tree drvs graph = Some t \<and> length (tr_nodes t) = length drvs \<and>
    list_all (\<lambda>n. list_all (\<lambda>j. j < length drvs) (tn_children n)) (tr_nodes t) \<and>
    list_all (\<lambda>j. j < length drvs) (tr_roots t)"
  by (rule tree_is_built)

end
