(* ===== verification/Base64.thy ===== *)
theory Base64
  imports GoStrings
begin

text \<open>
  \<open>base64.StdEncoding\<close>: the encoder, the decoder with its padding rules, and the round trip.
\<close>

section \<open>Encoding and decoding\<close>

text \<open>\<open>base64.StdEncoding\<close> over bytes.\<close>

definition b64_digit :: "nat \<Rightarrow> char" where
  "b64_digit n = char_of (if n < 26 then 65 + n else if n < 52 then 71 + n else if n < 62 then n - 4
     else if n = 62 then 43 else 47)"

fun b64_encode :: "nat list \<Rightarrow> string" where
  "b64_encode [] = []"
| "b64_encode [a] = [b64_digit (a div 4), b64_digit (a mod 4 * 16), CHR ''='', CHR ''='']"
| "b64_encode [a, b] = [b64_digit (a div 4), b64_digit (a mod 4 * 16 + b div 16), b64_digit (b mod 16 * 4), CHR ''='']"
| "b64_encode (a # b # c # r) =
    b64_digit (a div 4) # b64_digit (a mod 4 * 16 + b div 16) # b64_digit (b mod 16 * 4 + c div 64) #
    b64_digit (c mod 64) # b64_encode r"

definition b64_val :: "char \<Rightarrow> nat option" where
  "b64_val c = (let n = code c in
     if 65 \<le> n \<and> n \<le> 90 then Some (n - 65) else if 97 \<le> n \<and> n \<le> 122 then Some (n - 71)
     else if 48 \<le> n \<and> n \<le> 57 then Some (n + 4) else if n = 43 then Some 62 else if n = 47 then Some 63 else None)"

text \<open>Groups of four digits; one or two padding characters end the text. The unused bits of the last digit do not matter.\<close>

fun b64_groups :: "string \<Rightarrow> nat list option" where
  "b64_groups [] = Some []"
| "b64_groups (a # b # c # d # r) = (case (b64_val a, b64_val b) of
      (Some x, Some y) \<Rightarrow> (case (b64_val c, b64_val d) of
          (Some z, Some w) \<Rightarrow> map_option (\<lambda>bs. (x * 4 + y div 16) # (y mod 16 * 16 + z div 4) # (z mod 4 * 64 + w) # bs) (b64_groups r)
        | (Some z, None) \<Rightarrow> if d = CHR ''='' \<and> r = [] then Some [x * 4 + y div 16, y mod 16 * 16 + z div 4] else None
        | (None, _) \<Rightarrow> if c = CHR ''='' \<and> d = CHR ''='' \<and> r = [] then Some [x * 4 + y div 16] else None)
    | _ \<Rightarrow> None)"
| "b64_groups _ = None"

text \<open>Line breaks are skipped.\<close>

definition b64_decode :: "string \<Rightarrow> nat list option" where
  "b64_decode s = b64_groups (filter (\<lambda>c. code c \<noteq> 10 \<and> code c \<noteq> 13) s)"

section \<open>The round trip\<close>

lemma b64_digit_code: "n < 64 \<Longrightarrow> code (b64_digit n) =
    (if n < 26 then 65 + n else if n < 52 then 71 + n else if n < 62 then n - 4 else if n = 62 then 43 else 47)"
  by (simp add: b64_digit_def code_def)

lemma b64_val_digit [simp]: "n < 64 \<Longrightarrow> b64_val (b64_digit n) = Some n"
  by (auto simp: b64_val_def b64_digit_code Let_def)

lemma b64_val_pad [simp]: "b64_val CHR ''='' = None"
  by code_simp

lemma b64_digit_not_break [simp]: "n < 64 \<Longrightarrow> code (b64_digit n) \<noteq> 10 \<and> code (b64_digit n) \<noteq> 13"
  by (auto simp: b64_digit_code)

lemma b64_digit_not_pad [simp]: "n < 64 \<Longrightarrow> b64_digit n \<noteq> CHR ''='' \<and> CHR ''='' \<noteq> b64_digit n"
  using b64_val_digit [of n] b64_val_pad by (metis option.distinct(1))

text \<open>The four digits of a group are below 64 and give its bytes back.\<close>

lemma b64_bounds [simp]:
  fixes a b c :: nat
  shows "a < 256 \<Longrightarrow> a div 4 < 64" "a mod 4 * 16 < 64" "b < 256 \<Longrightarrow> a mod 4 * 16 + b div 16 < 64"
    "b mod 16 * 4 < 64" "c < 256 \<Longrightarrow> b mod 16 * 4 + c div 64 < 64" "c mod 64 < 64"
proof -
  show "a mod 4 * 16 < 64" using mod_less_divisor [of 4 a] by simp
  show "b < 256 \<Longrightarrow> a mod 4 * 16 + b div 16 < 64"
    using mod_less_divisor [of 4 a] div_less_iff_less_mult [of 16 b 16] by simp
  show "b mod 16 * 4 < 64" using mod_less_divisor [of 16 b] by simp
  show "c < 256 \<Longrightarrow> b mod 16 * 4 + c div 64 < 64"
    using mod_less_divisor [of 16 b] div_less_iff_less_mult [of 64 c 4] by simp
qed auto

lemma b64_joins [simp]:
  fixes b c :: nat
  shows "b < 256 \<Longrightarrow> b div 16 div 16 = 0" "b < 256 \<Longrightarrow> b div 16 mod 16 = b div 16"
    "c < 256 \<Longrightarrow> c div 64 div 4 = 0" "c < 256 \<Longrightarrow> c div 64 mod 4 = c div 64"
  by (simp_all add: div_less_iff_less_mult)

lemma b64_encode_chars: "list_all (\<lambda>b. b < 256) bs \<Longrightarrow> c \<in> set (b64_encode bs) \<Longrightarrow> code c \<noteq> 10 \<and> code c \<noteq> 13"
  by (induction bs rule: b64_encode.induct) (auto simp: code_def [of "CHR ''=''"])

lemma b64_groups_encode: "list_all (\<lambda>b. b < 256) bs \<Longrightarrow> b64_groups (b64_encode bs) = Some bs"
  by (induction bs rule: b64_encode.induct) simp_all

lemma b64_decode_encode: "list_all (\<lambda>b. b < 256) bs \<Longrightarrow> b64_decode (b64_encode bs) = Some bs"
proof -
  assume b: "list_all (\<lambda>b. b < 256) bs"
  then have "filter (\<lambda>c. code c \<noteq> 10 \<and> code c \<noteq> 13) (b64_encode bs) = b64_encode bs"
    by (intro filter_True ballI) (rule b64_encode_chars)
  with b show ?thesis by (simp add: b64_decode_def b64_groups_encode)
qed

section \<open>The URL alphabet without padding\<close>

definition to_url :: "char \<Rightarrow> char" where
  "to_url c = (if c = CHR ''+'' then CHR ''-'' else if c = CHR ''/'' then CHR ''_'' else c)"

text \<open>\<open>base64.RawURLEncoding\<close>, as the issuer of a token applies it.\<close>

definition b64_url_encode :: "nat list \<Rightarrow> string" where
  "b64_url_encode bs = map to_url (filter (\<lambda>c. c \<noteq> CHR ''='') (b64_encode bs))"

definition from_url :: "char \<Rightarrow> char" where
  "from_url c = (if c = CHR ''-'' then CHR ''+'' else if c = CHR ''_'' then CHR ''/'' else c)"

definition pad_to_four :: "string \<Rightarrow> string" where
  "pad_to_four s = (if length s mod 4 = 0 then s else s @ replicate (4 - length s mod 4) CHR ''='')"

lemma b64_digit_url [simp]: "n < 64 \<Longrightarrow> from_url (to_url (b64_digit n)) = b64_digit n"
proof -
  assume n: "n < 64"
  have "b64_digit n \<noteq> CHR ''-''" "b64_digit n \<noteq> CHR ''_''"
    using b64_val_digit [OF n] by (auto simp: b64_val_def code_def)
  then show ?thesis by (simp add: from_url_def to_url_def)
qed

lemma b64_url_from: "list_all (\<lambda>b. b < 256) bs \<Longrightarrow> map from_url (b64_url_encode bs) = filter (\<lambda>c. c \<noteq> CHR ''='') (b64_encode bs)"
  by (induction bs rule: b64_encode.induct) (simp_all add: b64_url_encode_def)

lemma b64_repad: "list_all (\<lambda>b. b < 256) bs \<Longrightarrow> pad_to_four (filter (\<lambda>c. c \<noteq> CHR ''='') (b64_encode bs)) = b64_encode bs"
proof (induction bs rule: b64_encode.induct)
  case (4 a b c r)
  then have "pad_to_four (filter (\<lambda>c. c \<noteq> CHR ''='') (b64_encode r)) = b64_encode r" by simp
  with 4 show ?case by (simp add: pad_to_four_def split: if_splits)
qed (simp_all add: pad_to_four_def numeral_2_eq_2)

end
