(* ===== verification/NomServer.thy ===== *)
theory NomServer
  imports NomTree Base64
begin

text \<open>
  pkgs/nom-web/snapshot.go, session.go and main.go: rendering the state, one session per log file
  with its subscribers, the loop that reads a growing file, the cached dependency forest, and the
  names a client may ask for. Files, links and the clock are arguments. A session is changed by one
  goroutine at a time under its locks; building the forest happens outside the lock and is split into
  the step before and the step after it.
\<close>

section \<open>Snapshots\<close>

record summary_item =
  si_label :: string
  si_done :: counter
  si_expected :: counter
  si_running :: counter
  si_failed :: counter
  si_bytes :: bool

record active_item =
  ai_kind :: string
  ai_name :: string
  ai_machine :: string
  ai_phase :: string
  ai_last_line :: string
  ai_done :: counter
  ai_expected :: counter
  ai_elapsed_ms :: int

record snapshot_view =
  sv_title :: string
  sv_elapsed_ms :: int
  sv_finished :: bool
  sv_events :: counter
  sv_summary :: "summary_item list"
  sv_active :: "active_item list"
  sv_recent :: "string list"
  sv_warnings :: "string list"
  sv_corrupted :: counter
  sv_untrusted :: counter
  sv_tree_size :: nat
  sv_drv_states :: string

definition kind_name :: "activity_type \<Rightarrow> string option" where
  "kind_name t =
    (if t = act_build then Some ''build'' else if t = act_substitute then Some ''fetch''
     else if t = act_post_build_hook then Some ''post-build'' else if t = act_query_path_info then Some ''query''
     else if t = act_copy_path then Some ''copy'' else if t = act_file_transfer then Some ''download'' else None)"

definition add_live :: "nom_state \<Rightarrow> activity_id \<Rightarrow> counter \<times> counter \<times> counter \<times> counter \<Rightarrow>
    counter \<times> counter \<times> counter \<times> counter" where
  "add_live s k c = (case activity_of k s of None \<Rightarrow> c
    | Some a \<Rightarrow> (case c of (d, e, r, f) \<Rightarrow>
        (d + ac_done a, e + ac_expected a, r + ac_running a, f + ac_failed a)))"

definition aggregate :: "activity_type \<Rightarrow> nom_state \<Rightarrow> counter \<times> counter \<times> counter \<times> counter" where
  "aggregate t s = (case ns_by_type s t of None \<Rightarrow> (0, 0, 0, 0)
    | Some g \<Rightarrow>
        (case fold (add_live s) (ta_active g) (ta_done g, ta_done g, 0, ta_failed g) of (d, e, r, f) \<Rightarrow>
           (d, if e < ta_expected g then ta_expected g else e, r, f)))"

definition summarise :: "string \<Rightarrow> activity_type \<Rightarrow> bool \<Rightarrow> nom_state \<Rightarrow> summary_item" where
  "summarise label t b s = (case aggregate t s of (d, e, r, f) \<Rightarrow>
     \<lparr>si_label = label, si_done = d, si_expected = e, si_running = r, si_failed = f, si_bytes = b\<rparr>)"

text \<open>Whole milliseconds, cut towards zero.\<close>

definition elapsed_ms :: "instant \<Rightarrow> instant \<Rightarrow> int" where
  "elapsed_ms tm since = (if since \<le> tm then (tm - since) div millisecond else - ((since - tm) div millisecond))"

definition show_activity :: "instant \<Rightarrow> activity \<Rightarrow> active_item option" where
  "show_activity tm a = (case kind_name (ac_typ a) of None \<Rightarrow> None
    | Some kind \<Rightarrow>
        (let name = (if ac_name a = [] then ac_text a else ac_name a)
         in if name = [] then None
            else Some \<lparr>ai_kind = kind, ai_name = name, ai_machine = ac_machine a, ai_phase = ac_phase a,
              ai_last_line = ac_last_line a, ai_done = ac_done a, ai_expected = ac_expected a,
              ai_elapsed_ms = elapsed_ms tm (ac_started_at a)\<rparr>))"

definition longest_first :: "active_item \<Rightarrow> active_item \<Rightarrow> bool" where
  "longest_first a b \<longleftrightarrow> ai_elapsed_ms b < ai_elapsed_ms a"

interpretation active_order: weak_order longest_first
  by unfold_locales (auto simp: longest_first_def)

definition max_active :: nat where "max_active = 40"

definition encode_drv_states :: "nom_state \<Rightarrow> string" where
  "encode_drv_states s = b64_encode (map (\<lambda>t. drv_byte (track_state t)) (ns_track s))"

definition view_state :: "bool \<Rightarrow> instant \<Rightarrow> nom_state \<Rightarrow> snapshot_view" where
  "view_state finished tm s = \<lparr>sv_title = ns_title s, sv_elapsed_ms = elapsed_ms tm (ns_start_time s),
     sv_finished = finished, sv_events = ns_events s,
     sv_summary = [summarise ''built'' act_builds False s, summarise ''copied'' act_copy_paths False s,
       summarise ''downloaded'' act_file_transfer True s, summarise ''optimised'' act_optimise_store False s,
       summarise ''verified'' act_verify_paths False s],
     sv_active = take max_active (sort_stable longest_first
       (List.map_filter (\<lambda>(k, a). show_activity tm a) (ns_activities s))),
     sv_recent = ns_recent s, sv_warnings = ns_warnings s, sv_corrupted = ns_corrupted s,
     sv_untrusted = ns_untrusted s, sv_tree_size = length (ns_drvs s), sv_drv_states = encode_drv_states s\<rparr>"

section \<open>Sessions\<close>

text \<open>A subscriber's channel holds at most one snapshot; the forest is cached with the size it was built for.\<close>

record session =
  se_path :: string
  se_state :: nom_state
  se_deps :: "dep_graph option"
  se_tree :: "(tree \<times> nat) option"
  se_subs :: "(nat \<times> snapshot_view option) list"
  se_done :: bool

definition new_session :: "string \<Rightarrow> instant \<Rightarrow> session" where
  "new_session path tm = \<lparr>se_path = path, se_state = new_nom_state tm, se_deps = None, se_tree = None,
     se_subs = [], se_done = False\<rparr>"

definition path_dir :: "string \<Rightarrow> string" where
  "path_dir p = (case last_index_byte CHR ''/'' p of None \<Rightarrow> ''.''
    | Some i \<Rightarrow> if i = 0 then ''/'' else take i p)"

definition deps_path :: "(string \<Rightarrow> string option) \<Rightarrow> string \<Rightarrow> string" where
  "deps_path readlink path =
    (let base0 = path_base path;
         base = (if base0 = ''current.jsonl'' then (case readlink path of Some target \<Rightarrow> path_base target | None \<Rightarrow> base0)
                 else base0);
         run = trim_suffix ''.jsonl'' (trim_prefix ''nom-'' base)
     in if run = base then [] else path_dir path @ ''/deps-'' @ run @ ''.txt'')"

definition load_deps :: "(string \<Rightarrow> string option) \<Rightarrow> (string \<Rightarrow> string option) \<Rightarrow> session \<Rightarrow> session" where
  "load_deps readlink files se =
    (if se_deps se \<noteq> None then se
     else let p = deps_path readlink (se_path se)
       in if p = [] then se
          else (case load_dep_graph (files p) of None \<Rightarrow> se
            | Some g \<Rightarrow> se\<lparr>se_deps := Some g, se_tree := None\<rparr>))"

definition subscribe :: "nat \<Rightarrow> instant \<Rightarrow> session \<Rightarrow> session" where
  "subscribe ch tm se = se\<lparr>se_subs := AList.update ch (Some (view_state (se_done se) tm (se_state se))) (se_subs se)\<rparr>"

definition unsubscribe :: "nat \<Rightarrow> session \<Rightarrow> session" where
  "unsubscribe ch se = se\<lparr>se_subs := AList.delete ch (se_subs se)\<rparr>"

text \<open>A full channel is drained first, so every subscriber is left with the newest snapshot.\<close>

definition broadcast :: "instant \<Rightarrow> session \<Rightarrow> session" where
  "broadcast tm se = se\<lparr>se_subs := map (\<lambda>(ch, _). (ch, Some (view_state (se_done se) tm (se_state se)))) (se_subs se)\<rparr>"

definition receive :: "nat \<Rightarrow> session \<Rightarrow> snapshot_view option \<times> session" where
  "receive ch se = (case map_of (se_subs se) ch of Some (Some v) \<Rightarrow>
      (Some v, se\<lparr>se_subs := AList.update ch None (se_subs se)\<rparr>)
    | _ \<Rightarrow> (None, se))"

text \<open>The forest: the cached one when it fits, otherwise what to build it from; then storing it.\<close>

definition tree_begin :: "session \<Rightarrow> (tree \<times> bool) + (string list \<times> dep_graph option)" where
  "tree_begin se = (case se_tree se of
      Some (t, n) \<Rightarrow> if n = length (ns_drvs (se_state se)) then Inl (t, se_deps se \<noteq> None)
        else Inr (ns_drvs (se_state se), se_deps se)
    | None \<Rightarrow> Inr (ns_drvs (se_state se), se_deps se))"

definition tree_finish :: "string list \<Rightarrow> dep_graph option \<Rightarrow> session \<Rightarrow> (tree option \<times> bool) \<times> session" where
  "tree_finish drvs g se = (case build_tree drvs g of
      None \<Rightarrow> ((None, g \<noteq> None), se)
    | Some t \<Rightarrow> ((Some t, g \<noteq> None), se\<lparr>se_tree := Some (t, length drvs)\<rparr>))"

definition tree_snapshot :: "session \<Rightarrow> (tree option \<times> bool) \<times> session" where
  "tree_snapshot se = (case tree_begin se of
      Inl (t, has) \<Rightarrow> ((Some t, has), se)
    | Inr (drvs, g) \<Rightarrow> tree_finish drvs g se)"

section \<open>Reading a growing file\<close>

text \<open>
  What \<open>ReadString\<close> returned: a chunk that ends a line, or what there was before the end of the file.
\<close>

datatype read = ReadLine string | ReadShort string

record reader =
  rd_session :: session
  rd_pending :: string
  rd_idle :: nat
  rd_last :: instant
  rd_ended :: bool

definition line_event :: "string \<Rightarrow> raw_event option" where
  "line_event l = (if prefix ''@nix '' l then unmarshal_event (drop 5 l) else None)"

definition apply_line :: "string \<Rightarrow> instant \<Rightarrow> session \<Rightarrow> session" where
  "apply_line l tm se = (case line_event l of None \<Rightarrow> se
    | Some ev \<Rightarrow> se\<lparr>se_state := apply_event ev tm (se_state se)\<rparr>)"

definition read_step :: "bool \<Rightarrow> instant \<Rightarrow> read \<Rightarrow> reader \<Rightarrow> reader" where
  "read_step alive_now tm r rd =
    (if rd_ended rd then rd
     else (case r of
        ReadLine chunk \<Rightarrow>
          (let se = apply_line (rd_pending rd @ chunk) tm (rd_session rd);
               due = 150 * millisecond < tm - rd_last rd
           in rd\<lparr>rd_session := (if due then broadcast tm se else se), rd_pending := [], rd_idle := 0,
                 rd_last := (if due then tm else rd_last rd)\<rparr>)
      | ReadShort chunk \<Rightarrow>
          (let rd1 = rd\<lparr>rd_pending := rd_pending rd @ chunk\<rparr>
           in if alive_now then rd1
              else if 5 \<le> Suc (rd_idle rd1)
                then rd1\<lparr>rd_idle := Suc (rd_idle rd1), rd_ended := True,
                     rd_session := broadcast tm ((rd_session rd1)\<lparr>se_done := True\<rparr>)\<rparr>
                else rd1\<lparr>rd_idle := Suc (rd_idle rd1)\<rparr>)))"

definition start_reader :: "bool \<Rightarrow> instant \<Rightarrow> session \<Rightarrow> reader" where
  "start_reader opens tm se =
    (if opens then \<lparr>rd_session = se, rd_pending = [], rd_idle = 0, rd_last = zero_time, rd_ended = False\<rparr>
     else \<lparr>rd_session = broadcast tm (se\<lparr>se_done := True\<rparr>), rd_pending = [], rd_idle = 0, rd_last = zero_time,
       rd_ended = True\<rparr>)"

definition run_reader :: "(bool \<times> instant \<times> read) list \<Rightarrow> reader \<Rightarrow> reader" where
  "run_reader rs rd = fold (\<lambda>(alive_now, tm, r). read_step alive_now tm r) rs rd"

section \<open>Names and the manager\<close>

definition slug_char :: "char \<Rightarrow> bool" where
  "slug_char c \<longleftrightarrow> (97 \<le> code c \<and> code c \<le> 122) \<or> is_digit c \<or> c = CHR ''-''"

text \<open>The pattern \<open>^(nom-[0-9]+(-[a-z0-9-]+)?\.jsonl|current\.jsonl)$\<close>.\<close>

definition log_name_ok :: "string \<Rightarrow> bool" where
  "log_name_ok name \<longleftrightarrow> name = ''current.jsonl'' \<or>
    (prefix ''nom-'' name \<and>
     (let r = drop 4 name; r1 = dropWhile is_digit r
      in takeWhile is_digit r \<noteq> [] \<and>
         (r1 = ''.jsonl'' \<or>
          (r1 \<noteq> [] \<and> hd r1 = CHR ''-'' \<and> takeWhile slug_char (tl r1) \<noteq> [] \<and> dropWhile slug_char (tl r1) = ''.jsonl''))))"

definition resolve_current :: "(string \<Rightarrow> string option) \<Rightarrow> string \<Rightarrow> string" where
  "resolve_current readlink dir = (case readlink (dir @ ''/current.jsonl'') of None \<Rightarrow> [] | Some target \<Rightarrow> path_base target)"

definition is_live :: "(string \<Rightarrow> string option) \<Rightarrow> string \<Rightarrow> string \<Rightarrow> bool" where
  "is_live readlink dir path \<longleftrightarrow> path_base path = resolve_current readlink dir"

type_synonym manager = "(string \<times> session) list"

definition get_or_start :: "(string \<Rightarrow> string option) \<Rightarrow> (string \<Rightarrow> string option) \<Rightarrow> string \<Rightarrow> instant \<Rightarrow> string \<Rightarrow>
    manager \<Rightarrow> session \<times> manager" where
  "get_or_start readlink files dir tm name m = (case map_of m name of Some se \<Rightarrow> (se, m)
    | None \<Rightarrow> (let se = load_deps readlink files (new_session (dir @ ''/'' @ name) tm) in (se, AList.update name se m)))"

record dir_entry =
  de_name :: string
  de_is_dir :: bool
  de_stat :: "(int \<times> instant) option"

record log_entry =
  le_name :: string
  le_size :: int
  le_mod_time :: instant
  le_live :: bool

definition newest_first :: "log_entry \<Rightarrow> log_entry \<Rightarrow> bool" where
  "newest_first a b \<longleftrightarrow> le_mod_time b < le_mod_time a"

interpretation log_order: weak_order newest_first
  by unfold_locales (auto simp: newest_first_def)

definition list_logs :: "string \<Rightarrow> dir_entry list \<Rightarrow> log_entry list" where
  "list_logs current es =
    (let present = map de_name es;
         entry = (\<lambda>e. if de_is_dir e \<or> \<not> log_name_ok (de_name e) then None
           else if de_name e = ''current.jsonl'' \<and> current \<in> set present then None
           else (case de_stat e of None \<Rightarrow> None
             | Some (sz, mt) \<Rightarrow> Some \<lparr>le_name = de_name e, le_size = sz, le_mod_time = mt, le_live = (de_name e = current)\<rparr>))
     in sort_stable newest_first (List.map_filter entry es))"

text \<open>The two per-log handlers: a bad name is refused before any file is touched.\<close>

definition tree_request :: "(string \<Rightarrow> string option) \<Rightarrow> (string \<Rightarrow> string option) \<Rightarrow> string \<Rightarrow> instant \<Rightarrow> string \<Rightarrow>
    manager \<Rightarrow> (tree option \<times> bool) option \<times> manager" where
  "tree_request readlink files dir tm name m =
    (if \<not> log_name_ok name then (None, m)
     else (case get_or_start readlink files dir tm name m of (se, m1) \<Rightarrow>
       (case tree_snapshot (load_deps readlink files se) of (answer, se1) \<Rightarrow>
          (Some answer, AList.update name se1 m1))))"

definition stream_request :: "(string \<Rightarrow> string option) \<Rightarrow> (string \<Rightarrow> string option) \<Rightarrow> string \<Rightarrow> nat \<Rightarrow> instant \<Rightarrow> string \<Rightarrow>
    manager \<Rightarrow> bool \<times> manager" where
  "stream_request readlink files dir ch tm name m =
    (if \<not> log_name_ok name then (False, m)
     else (case get_or_start readlink files dir tm name m of (se, m1) \<Rightarrow>
       (True, AList.update name (subscribe ch tm se) m1)))"

section \<open>The cache is transparent\<close>

text \<open>Whatever happens to a session, one step at a time.\<close>

datatype session_op = Events "(raw_event \<times> instant) list" | LoadDeps "string \<Rightarrow> string option" "string \<Rightarrow> string option"
  | AskTree | Join nat instant | Leave nat | Push instant | Take nat

fun session_step :: "session_op \<Rightarrow> session \<Rightarrow> session" where
  "session_step (Events evs) se = se\<lparr>se_state := fold (\<lambda>(ev, tm). apply_event ev tm) evs (se_state se)\<rparr>"
| "session_step (LoadDeps readlink files) se = load_deps readlink files se"
| "session_step AskTree se = snd (tree_snapshot se)"
| "session_step (Join ch tm) se = subscribe ch tm se"
| "session_step (Leave ch) se = unsubscribe ch se"
| "session_step (Push tm) se = broadcast tm se"
| "session_step (Take ch) se = snd (receive ch se)"

definition cache_ok :: "session \<Rightarrow> bool" where
  "cache_ok se \<longleftrightarrow> (case se_tree se of None \<Rightarrow> True
    | Some (t, n) \<Rightarrow> n \<le> length (ns_drvs (se_state se)) \<and>
        build_tree (take n (ns_drvs (se_state se))) (se_deps se) = Some t)"

lemma note_drv_drvs: "\<exists>more. ns_drvs (snd (note_drv d s)) = ns_drvs s @ more"
  by (auto simp: note_drv_def Let_def split: option.split)

lemma drvs_others [simp]:
  "ns_drvs (s\<lparr>ns_recent := x2\<rparr>) = ns_drvs s" "ns_drvs (s\<lparr>ns_activities := x1\<rparr>) = ns_drvs s"
  by simp_all

lemma start_activity_drvs: "\<exists>more. ns_drvs (start_activity ev tm s) = ns_drvs s @ more"
proof -
  let ?s = "map_agg (ev_type ev) (\<lambda>g. g\<lparr>ta_active := List.insert (ev_id ev) (ta_active g)\<rparr>) s"
  obtain a s1 where d: "start_details ev (new_activity ev tm) ?s = (a, s1)" by force
  have "(ac_node a = - 1 \<and> s1 = ?s) \<or>
     (\<exists>p s'. note_drv p ?s = (ac_node a, s') \<and> s1 = map_track (ac_node a) (enter_node a) s') \<or>
     s1 = map_track (ac_node a) (enter_node a) ?s"
    using start_details_result [OF d] by (auto simp: new_activity_def)
  then have "\<exists>more. ns_drvs s1 = ns_drvs s @ more"
  proof (elim disjE exE conjE)
    fix p s' assume "note_drv p ?s = (ac_node a, s')" "s1 = map_track (ac_node a) (enter_node a) s'"
    then show ?thesis using note_drv_drvs [of p ?s] by simp
  qed simp_all
  then show ?thesis by (simp add: start_activity_def d)
qed

lemma fold_drop_drvs: "ns_drvs (fold drop_expected al s) = ns_drvs s"
  by (induction al arbitrary: s) (auto simp: drop_expected_def)

lemma stop_activity_drvs: "ns_drvs (stop_activity k s) = ns_drvs s"
  by (simp add: stop_activity_def Let_def fold_drop_drvs split: option.split)

lemma set_expected_drvs: "ns_drvs (set_expected ev a s) = ns_drvs s"
  by (simp add: set_expected_def Let_def split: option.split)

lemma log_line_drvs: "ns_drvs (log_line ev s) = ns_drvs s"
  by (simp add: log_line_def Let_def split: option.split)

lemma apply_result_drvs: "ns_drvs (apply_result ev s) = ns_drvs s"
  by (simp add: apply_result_def Let_def set_expected_drvs log_line_drvs split: option.split)

lemma apply_msg_drvs: "\<exists>more. ns_drvs (apply_msg ev s) = ns_drvs s @ more"
proof -
  define s1 where "s1 = (case run_header (ev_msg ev) of None \<Rightarrow> s
    | Some (who, title) \<Rightarrow> s\<lparr>ns_title := ''jupiter-ci '' @ who @ '': '' @ title\<rparr>)"
  define s2 where "s2 = (if ev_level ev \<le> 1 \<and> ev_msg ev \<noteq> []
    then s1\<lparr>ns_warnings := ring_push warning_cap (ev_msg ev) (ns_warnings s1)\<rparr> else s1)"
  have "ns_drvs s2 = ns_drvs s" by (auto simp: s2_def s1_def split: option.split)
  moreover obtain more where "ns_drvs (snd (note_drv (store_path_base (trim_space (ev_msg ev))) s2)) = ns_drvs s2 @ more"
    using note_drv_drvs by blast
  ultimately show ?thesis
    unfolding apply_msg_def Let_def s1_def [symmetric] s2_def [symmetric] by simp
qed

lemma apply_event_drvs: "\<exists>more. ns_drvs (apply_event ev tm s) = ns_drvs s @ more"
proof -
  let ?s = "s\<lparr>ns_events := ns_events s + 1, ns_last_event := tm\<rparr>"
  show ?thesis
    using start_activity_drvs [of ev tm ?s] apply_msg_drvs [of ev ?s]
    by (simp add: apply_event_def Let_def stop_activity_drvs apply_result_drvs)
qed

lemma events_drvs: "\<exists>more. ns_drvs (fold (\<lambda>(ev, tm). apply_event ev tm) evs s) = ns_drvs s @ more"
proof (induction evs arbitrary: s)
  case (Cons e evs)
  obtain ev tm where e: "e = (ev, tm)" by (cases e)
  obtain m1 where "ns_drvs (apply_event ev tm s) = ns_drvs s @ m1" using apply_event_drvs by blast
  moreover obtain m2 where "ns_drvs (fold (\<lambda>(ev, tm). apply_event ev tm) evs (apply_event ev tm s)) =
      ns_drvs (apply_event ev tm s) @ m2" using Cons by blast
  ultimately show ?case by (simp add: e)
qed simp

lemma cache_ok_subs [simp]: "cache_ok (se\<lparr>se_subs := x\<rparr>) = cache_ok se"
  by (cases "se_tree se") (auto simp: cache_ok_def)

lemma tree_finish_keeps:
  assumes "drvs = ns_drvs (se_state se)" "g = se_deps se" "cache_ok se"
  shows "cache_ok (snd (tree_finish drvs g se))"
  using assms by (auto simp: tree_finish_def cache_ok_def split: option.split)

lemma session_step_keeps: "cache_ok se \<Longrightarrow> cache_ok (session_step op se)"
proof (cases op)
  case (Events evs)
  assume c: "cache_ok se"
  obtain more where "ns_drvs (fold (\<lambda>(ev, tm). apply_event ev tm) evs (se_state se)) = ns_drvs (se_state se) @ more"
    using events_drvs by blast
  with c Events show ?thesis by (auto simp: cache_ok_def split: option.splits)
next
  case (LoadDeps readlink files)
  assume c: "cache_ok se"
  have "load_deps readlink files se = se \<or> se_tree (load_deps readlink files se) = None"
    by (simp add: load_deps_def Let_def split: option.split)
  then show ?thesis
  proof
    assume "load_deps readlink files se = se"
    then show ?thesis unfolding LoadDeps session_step.simps using c by simp
  next
    assume "se_tree (load_deps readlink files se) = None"
    then show ?thesis by (simp add: LoadDeps cache_ok_def)
  qed
next
  case AskTree
  assume c: "cache_ok se"
  then show ?thesis
    by (auto simp: AskTree tree_snapshot_def tree_begin_def split: option.split sum.split intro: tree_finish_keeps)
next
  case (Take ch)
  assume "cache_ok se"
  then show ?thesis by (simp add: Take receive_def split: option.split)
qed (simp_all add: subscribe_def unsubscribe_def broadcast_def)

interpretation session_runs: invariant_machine session_step cache_ok
  by unfold_locales (rule session_step_keeps)

text \<open>
  C15: Whatever events, loads and completed tree requests came before, a tree request answers with the
  forest that building from scratch would give for the derivations and edge list of the moment.
\<close>

theorem cached_forest_is_current:
  defines "run \<equiv> \<lambda>ops path tm. fold session_step ops (new_session path tm)"
  shows "fst (tree_snapshot (run ops path tm)) =
    (build_tree (ns_drvs (se_state (run ops path tm))) (se_deps (run ops path tm)), se_deps (run ops path tm) \<noteq> None)"
proof -
  have "cache_ok (run ops path tm)"
    unfolding run_def by (rule session_runs.run_keeps) (simp add: cache_ok_def new_session_def)
  moreover have "\<exists>t. build_tree drvs g = Some t" for drvs g
    using tree_is_built [of drvs g] by blast
  ultimately show ?thesis
    by (auto simp: tree_snapshot_def tree_begin_def tree_finish_def cache_ok_def split: option.splits sum.splits prod.splits)
qed

text \<open>
  Building happens outside the lock. When the edge list is loaded in between, the flat forest built
  without it is stored last and is served from then on as if it had edges.
\<close>

definition race_graph :: dep_graph where
  "race_graph = [(''a-app.drv'', [''c-base.drv''])]"

definition race_drvs :: "string list" where
  "race_drvs = [''a-app.drv'', ''c-base.drv'']"

definition race_files :: "string \<Rightarrow> string option" where
  "race_files p = (if p = ''/l/deps-1.txt'' then Some ''c-base.drv a-app.drv'' else None)"

definition race_session :: session where
  "race_session = (new_session ''/l/nom-1.jsonl'' 0)\<lparr>se_state := (new_nom_state 0)\<lparr>ns_drvs := race_drvs\<rparr>\<rparr>"

lemma race_loads: "load_deps (\<lambda>_. None) race_files race_session = race_session\<lparr>se_deps := Some race_graph, se_tree := None\<rparr>"
proof -
  have "deps_path (\<lambda>_. None) ''/l/nom-1.jsonl'' = ''/l/deps-1.txt''" by code_simp
  moreover have "raw_lines ''c-base.drv a-app.drv'' = [''c-base.drv a-app.drv'']"
    "add_edge (drop_cr ''c-base.drv a-app.drv'') [] = race_graph" by code_simp+
  ultimately show ?thesis
    by (simp add: load_deps_def race_session_def new_session_def race_files_def load_dep_graph_def max_token_def)
qed

theorem flat_forest_survives_the_edge_list:
  "(let se1 = load_deps (\<lambda>_. None) race_files race_session
    in case tree_begin race_session of
         Inl _ \<Rightarrow> False
       | Inr (drvs, g) \<Rightarrow>
           (case tree_snapshot (snd (tree_finish drvs g se1)) of ((t, has), _) \<Rightarrow>
              has \<and> map_option tr_roots t = Some [0, 1]) \<and>
           map_option tr_roots (build_tree drvs (se_deps se1)) = Some [0])"
proof -
  have r: "map_option tr_roots (build_tree race_drvs (Some race_graph)) = Some [0]" by code_simp
  have b: "tree_begin race_session = Inr (race_drvs, None)"
    by (simp add: tree_begin_def race_session_def new_session_def)
  have f: "build_tree race_drvs None = Some \<lparr>tr_nodes = map bare_node race_drvs, tr_roots = [0, 1]\<rparr>"
    by (simp add: build_tree_def race_drvs_def upt_rec)
  have d: "ns_drvs (se_state race_session) = race_drvs" by (simp add: race_session_def)
  have t: "tree_snapshot (race_session\<lparr>se_deps := Some race_graph, se_tree := Some (x, length race_drvs)\<rparr>) =
      ((Some x, True), race_session\<lparr>se_deps := Some race_graph, se_tree := Some (x, length race_drvs)\<rparr>)" for x
    by (simp add: tree_snapshot_def tree_begin_def d)
  show ?thesis
    using r by (simp add: race_loads b tree_finish_def f t Let_def)
qed

section \<open>Lines and reads\<close>

lemma split_byte_append:
  "split_byte c (xs @ ys) = butlast (split_byte c xs) @ (last (split_byte c xs) @ hd (split_byte c ys)) # tl (split_byte c ys)"
proof (induction xs)
  case (Cons x xs)
  show ?case
  proof (cases "x = c")
    case False
    obtain p ps where p: "split_byte c xs = p # ps" by (cases "split_byte c xs") auto
    with Cons False show ?thesis by (cases ps) auto
  qed (use Cons in simp)
qed simp

definition complete_lines :: "string \<Rightarrow> string list" where
  "complete_lines s = map (\<lambda>l. l @ [newline]) (butlast (split_byte newline s))"

fun read_text :: "read \<Rightarrow> string" where
  "read_text (ReadLine c) = c"
| "read_text (ReadShort c) = c"

text \<open>What \<open>ReadString\<close> promises: the delimiter ends the chunk, or does not occur in it.\<close>

fun well_read :: "read \<Rightarrow> bool" where
  "well_read (ReadLine c) \<longleftrightarrow> c \<noteq> [] \<and> last c = newline \<and> newline \<notin> set (butlast c)"
| "well_read (ReadShort c) \<longleftrightarrow> newline \<notin> set c"

lemma lines_snoc:
  "newline \<notin> set b \<Longrightarrow> complete_lines (s @ b @ [newline]) = complete_lines s @ [last (split_byte newline s) @ b @ [newline]] \<and>
    last (split_byte newline (s @ b @ [newline])) = []"
  "newline \<notin> set b \<Longrightarrow> complete_lines (s @ b) = complete_lines s \<and>
    last (split_byte newline (s @ b)) = last (split_byte newline s) @ b"
proof -
  assume b: "newline \<notin> set b"
  have "split_byte newline (b @ [newline]) = [b, []]"
    using b by (induction b) auto
  then show "complete_lines (s @ b @ [newline]) = complete_lines s @ [last (split_byte newline s) @ b @ [newline]] \<and>
    last (split_byte newline (s @ b @ [newline])) = []"
    by (simp add: complete_lines_def split_byte_append butlast_append)
  show "complete_lines (s @ b) = complete_lines s \<and>
    last (split_byte newline (s @ b)) = last (split_byte newline s) @ b"
    by (simp add: complete_lines_def split_byte_append split_byte_free [OF b] butlast_append)
qed

lemma broadcast_state [simp]: "se_state (broadcast tm se) = se_state se"
  by (simp add: broadcast_def)

lemma apply_line_state: "se_state (apply_line l tm se) =
    (case line_event l of None \<Rightarrow> se_state se | Some ev \<Rightarrow> apply_event ev tm (se_state se))"
  by (simp add: apply_line_def split: option.split)

lemma run_reader_snoc: "run_reader (rs @ [(a, tm, r)]) rd = read_step a tm r (run_reader rs rd)"
  by (simp add: run_reader_def)

lemma read_step_ended: "\<not> rd_ended (read_step a tm r rd) \<Longrightarrow> \<not> rd_ended rd"
  by (auto simp: read_step_def)

lemma reader_result:
  assumes "\<not> rd_ended (run_reader rs (start_reader True t0 se))" "list_all (\<lambda>(a, tm, r). well_read r) rs"
  shows "rd_pending (run_reader rs (start_reader True t0 se)) =
      last (split_byte newline (concat (map (\<lambda>(a, tm, r). read_text r) rs))) \<and>
    (\<exists>evs. map fst evs = List.map_filter line_event (complete_lines (concat (map (\<lambda>(a, tm, r). read_text r) rs))) \<and>
      se_state (rd_session (run_reader rs (start_reader True t0 se))) =
        fold (\<lambda>(ev, tm). apply_event ev tm) evs (se_state se))"
  using assms
proof (induction rs rule: rev_induct)
  case Nil
  then show ?case by (simp add: run_reader_def start_reader_def complete_lines_def map_filter_simps)
next
  case (snoc x rs)
  obtain a tm r where x: "x = (a, tm, r)" by (cases x)
  let ?rd = "run_reader rs (start_reader True t0 se)" and ?s = "concat (map (\<lambda>(a, tm, r). read_text r) rs)"
  have alive: "\<not> rd_ended ?rd" using snoc.prems(1) by (auto simp: x run_reader_snoc dest: read_step_ended)
  with snoc obtain evs where p: "rd_pending ?rd = last (split_byte newline ?s)"
    and e: "map fst evs = List.map_filter line_event (complete_lines ?s)"
      "se_state (rd_session ?rd) = fold (\<lambda>(ev, tm). apply_event ev tm) evs (se_state se)" by auto
  show ?case
  proof (cases r)
    case (ReadLine c)
    have w: "c \<noteq> []" "last c = newline" "newline \<notin> set (butlast c)"
      using snoc.prems(2) by (simp_all add: x ReadLine)
    then obtain b where c: "c = b @ [newline]" "newline \<notin> set b" by (metis append_butlast_last_id)
    let ?l = "rd_pending ?rd @ b @ [newline]"
    have st: "se_state (rd_session (read_step a tm r ?rd)) = se_state (apply_line ?l tm (rd_session ?rd))"
      "rd_pending (read_step a tm r ?rd) = []"
      using alive by (simp_all add: read_step_def ReadLine c Let_def)
    have lines: "complete_lines (?s @ c) = complete_lines ?s @ [?l]" "last (split_byte newline (?s @ c)) = []"
      using lines_snoc(1) [OF c(2), of ?s] by (simp_all add: c p)
    show ?thesis
    proof (cases "line_event ?l")
      case None
      with e st lines show ?thesis
        by (auto simp: x run_reader_snoc ReadLine apply_line_state map_filter_def)
    next
      case (Some ev)
      have "map fst (evs @ [(ev, tm)]) = List.map_filter line_event (complete_lines (?s @ c))"
        using e Some lines by (simp add: map_filter_def)
      moreover have "se_state (rd_session (read_step a tm r ?rd)) =
          fold (\<lambda>(ev, tm). apply_event ev tm) (evs @ [(ev, tm)]) (se_state se)"
        using e st Some by (simp add: apply_line_state)
      moreover have cat: "concat (map (\<lambda>(a, tm, r). read_text r) (rs @ [x])) = ?s @ c" by (simp add: x ReadLine)
      moreover have run: "run_reader (rs @ [x]) (start_reader True t0 se) = read_step a tm r ?rd"
        by (simp add: x run_reader_snoc)
      ultimately show ?thesis
        unfolding cat run using st(2) lines(2) by (intro conjI exI [of _ "evs @ [(ev, tm)]"]) simp_all
    qed
  next
    case (ReadShort c)
    have c: "newline \<notin> set c" using snoc.prems(2) by (simp add: x ReadShort)
    have "se_state (rd_session (read_step a tm r ?rd)) = se_state (rd_session ?rd)"
      "rd_pending (read_step a tm r ?rd) = rd_pending ?rd @ c"
      using alive by (simp_all add: read_step_def ReadShort Let_def)
    with e p lines_snoc(2) [OF c, of ?s] show ?thesis by (auto simp: x run_reader_snoc ReadShort)
  qed
qed

text \<open>
  C16: However the reader's polls cut the growing file into chunks, the state it has while it runs is
  that of applying the events of the complete lines read so far, in order; an unfinished line has no
  effect.
\<close>

theorem partial_reads_parse_whole_lines:
  assumes "\<not> rd_ended (run_reader rs (start_reader True t0 se))" "list_all (\<lambda>(a, tm, r). well_read r) rs"
  shows "\<exists>evs. map fst evs = List.map_filter line_event (complete_lines (concat (map (\<lambda>(a, tm, r). read_text r) rs))) \<and>
    se_state (rd_session (run_reader rs (start_reader True t0 se))) =
      fold (\<lambda>(ev, tm). apply_event ev tm) evs (se_state se)"
  using reader_result [OF assms] by blast

definition sample_reads :: "(bool \<times> instant \<times> read) list" where
  "sample_reads = [(True, 5, ReadShort ''@nix {\"acti''), (False, 6, ReadShort ''on\":''),
     (False, 7, ReadLine (''\"stop\"}'' @ [newline])), (True, 8, ReadShort ''@nix'')]"

lemma sample_reads_facts:
  "list_all (\<lambda>(a, tm, r). well_read r) sample_reads"
  "\<not> rd_ended (run_reader sample_reads (start_reader True 0 se))"
  "map ev_action (List.map_filter line_event (complete_lines (concat (map (\<lambda>(a, tm, r). read_text r) sample_reads)))) = [''stop'']"
proof -
  show "list_all (\<lambda>(a, tm, r). well_read r) sample_reads" by code_simp
  show "\<not> rd_ended (run_reader sample_reads (start_reader True 0 se))"
    by (simp add: sample_reads_def run_reader_def start_reader_def read_step_def Let_def)
  show "map ev_action (List.map_filter line_event (complete_lines (concat (map (\<lambda>(a, tm, r). read_text r) sample_reads)))) = [''stop'']"
    by code_simp
qed

theorem partial_reads_parse_whole_lines_witness:
  "\<exists>ev tm. ev_action ev = ''stop'' \<and>
    se_state (rd_session (run_reader sample_reads (start_reader True 0 (new_session ''/l/nom-1.jsonl'' 0)))) =
      apply_event ev tm (new_nom_state 0)"
proof -
  obtain evs where e: "map fst evs = List.map_filter line_event (complete_lines (concat (map (\<lambda>(a, tm, r). read_text r) sample_reads)))"
    "se_state (rd_session (run_reader sample_reads (start_reader True 0 (new_session ''/l/nom-1.jsonl'' 0)))) =
      fold (\<lambda>(ev, tm). apply_event ev tm) evs (se_state (new_session ''/l/nom-1.jsonl'' 0))"
    using partial_reads_parse_whole_lines [OF sample_reads_facts(2,1)] by blast
  have "map (ev_action \<circ> fst) evs = [''stop'']" using sample_reads_facts(3) by (simp flip: e(1))
  then obtain ev tm where "evs = [(ev, tm)]" "ev_action ev = ''stop''" by (auto simp: map_eq_Cons_conv)
  with e(2) show ?thesis by (auto simp: new_session_def)
qed

section \<open>Names stay in the log directory\<close>

definition plain_name :: "string \<Rightarrow> bool" where
  "plain_name x \<longleftrightarrow> x \<noteq> [] \<and> CHR ''/'' \<notin> set x"

lemma last_index_last: "c \<notin> set ys \<Longrightarrow> last_index_byte c (xs @ c # ys) = Some (length xs)"
proof -
  assume "c \<notin> set ys"
  then have "last_index_byte c ys = None" by (simp add: last_index_byte_None)
  then show ?thesis by (induction xs) simp_all
qed

lemma trim_right_keep: "s \<noteq> [] \<Longrightarrow> \<not> p (last s) \<Longrightarrow> trim_right_if p s = s"
  by (cases s rule: rev_cases) (auto simp: trim_right_if_def)

lemma path_base_join:
  assumes "plain_name name"
  shows "path_base (dir @ CHR ''/'' # name) = name"
proof -
  have "last name \<noteq> CHR ''/''" using assms last_in_set [of name] by (metis plain_name_def)
  then have "trim_right_if (\<lambda>c. c = CHR ''/'') (dir @ CHR ''/'' # name) = dir @ CHR ''/'' # name"
    using assms by (intro trim_right_keep) (simp_all add: plain_name_def)
  then show ?thesis
    using assms last_index_last [of "CHR ''/''" name dir] by (simp add: path_base_def plain_name_def)
qed

lemma path_base_plain: "path_base p = ''/'' \<or> plain_name (path_base p)"
proof -
  define q where "q = trim_right_if (\<lambda>c. c = CHR ''/'') p"
  have q: "q = [] \<or> last q \<noteq> CHR ''/''"
  proof -
    have r: "dropWhile (\<lambda>c. c = CHR ''/'') (rev p) = rev q" by (simp add: q_def trim_right_if_def)
    show ?thesis
    proof (cases "q = []")
      case False
      then have "hd (rev q) \<noteq> CHR ''/''" using hd_dropWhile [of "\<lambda>c. c = CHR ''/''" "rev p"] r by simp
      with False show ?thesis by (simp add: hd_rev)
    qed simp
  qed
  show ?thesis
  proof (cases "p = [] \<or> q = []")
    case True
    then show ?thesis by (auto simp: path_base_def plain_name_def q_def [symmetric])
  next
    case False
    show ?thesis
    proof (cases "last_index_byte CHR ''/'' q")
      case None
      then have "path_base p = q" using False by (simp add: path_base_def q_def [symmetric])
      with None False show ?thesis by (simp add: plain_name_def last_index_byte_None)
    next
      case (Some i)
      note i = last_index_byte_Some [OF Some]
      have "Suc i < length q"
      proof (rule ccontr)
        assume "\<not> Suc i < length q"
        then have "i = length q - 1" using i by linarith
        with i q False show False by (simp add: last_conv_nth)
      qed
      with False Some i show ?thesis by (simp add: path_base_def plain_name_def q_def [symmetric])
    qed
  qed
qed

lemma path_dir_join: "dir \<noteq> [] \<Longrightarrow> plain_name name \<Longrightarrow> path_dir (dir @ CHR ''/'' # name) = dir"
  using last_index_last [of "CHR ''/''" name dir] by (simp add: path_dir_def plain_name_def)

lemma set_trim: "set (trim_prefix p s) \<subseteq> set s" "set (trim_suffix p s) \<subseteq> set s"
  by (auto simp: trim_prefix_def trim_suffix_def dest: in_set_dropD in_set_takeD)

lemma deps_path_inside:
  assumes "dir \<noteq> []" "plain_name name"
  shows "deps_path readlink (dir @ ''/'' @ name) = [] \<or>
    (\<exists>x. plain_name x \<and> deps_path readlink (dir @ ''/'' @ name) = dir @ ''/'' @ x)"
proof -
  define base where "base = (if name = ''current.jsonl'' then (case readlink (dir @ ''/'' @ name) of
      Some target \<Rightarrow> path_base target | None \<Rightarrow> name) else name)"
  define run where "run = trim_suffix ''.jsonl'' (trim_prefix ''nom-'' base)"
  have d: "deps_path readlink (dir @ ''/'' @ name) = (if run = base then [] else dir @ ''/deps-'' @ run @ ''.txt'')"
    by (simp add: deps_path_def path_base_join [OF assms(2)] path_dir_join [OF assms] Let_def base_def run_def)
  have "base = ''/'' \<or> plain_name base"
    using assms(2) path_base_plain by (auto simp: base_def split: option.split)
  then show ?thesis
  proof
    assume b: "base = ''/''"
    have "run = base" unfolding run_def b by code_simp
    then show ?thesis using d by simp
  next
    assume "plain_name base"
    then have "CHR ''/'' \<notin> set run" using set_trim by (fastforce simp: plain_name_def run_def)
    then have "plain_name (''deps-'' @ run @ ''.txt'')" by (simp add: plain_name_def)
    then show ?thesis using d by (auto intro!: exI [of _ "''deps-'' @ run @ ''.txt''"])
  qed
qed

lemma log_name_plain: "log_name_ok name \<Longrightarrow> plain_name name"
proof -
  assume ok: "log_name_ok name"
  have digits: "CHR ''/'' \<notin> set (takeWhile is_digit r)" for r
    using set_takeWhileD [of "CHR ''/''" is_digit r] by (auto simp: is_digit_def code_def)
  have slugs: "CHR ''/'' \<notin> set (takeWhile slug_char r)" for r
    using set_takeWhileD [of "CHR ''/''" slug_char r] by (auto simp: slug_char_def is_digit_def code_def)
  show ?thesis
  proof (cases "name = ''current.jsonl''")
    case False
    define r where "r = drop 4 name"
    have name: "name = ''nom-'' @ takeWhile is_digit r @ dropWhile is_digit r"
      using ok False by (auto simp: log_name_ok_def r_def prefix_def)
    have "dropWhile is_digit r = ''.jsonl'' \<or>
        (\<exists>t. dropWhile is_digit r = CHR ''-'' # t \<and> dropWhile slug_char t = ''.jsonl'')"
      using ok False by (auto simp: log_name_ok_def r_def [symmetric] Let_def neq_Nil_conv)
    then have "CHR ''/'' \<notin> set (dropWhile is_digit r)"
    proof
      assume "\<exists>t. dropWhile is_digit r = CHR ''-'' # t \<and> dropWhile slug_char t = ''.jsonl''"
      then obtain t where t: "dropWhile is_digit r = CHR ''-'' # t" "dropWhile slug_char t = ''.jsonl''" by blast
      have "set t = set (takeWhile slug_char t) \<union> set ''.jsonl''" by (metis set_append t(2) takeWhile_dropWhile_id)
      with t(1) slugs [of t] show ?thesis by simp
    qed simp
    moreover have "set name = set ''nom-'' \<union> set (takeWhile is_digit r) \<union> set (dropWhile is_digit r)"
      by (metis name set_append sup_assoc)
    ultimately show ?thesis using digits [of r] name by (auto simp: plain_name_def)
  qed (simp add: plain_name_def)
qed

lemma load_deps_path [simp]: "se_path (load_deps readlink files se) = se_path se"
  by (simp add: load_deps_def Let_def split: option.split)

lemma tree_snapshot_path [simp]: "se_path (snd (tree_snapshot se)) = se_path se"
  by (auto simp: tree_snapshot_def tree_begin_def tree_finish_def split: option.split sum.split)

lemma load_deps_inside:
  assumes "dir \<noteq> []" "plain_name name" "se_path se = dir @ ''/'' @ name"
    "\<And>x. plain_name x \<Longrightarrow> files1 (dir @ ''/'' @ x) = files2 (dir @ ''/'' @ x)"
  shows "load_deps readlink files1 se = load_deps readlink files2 se"
proof -
  have "deps_path readlink (se_path se) = [] \<or>
      files1 (deps_path readlink (se_path se)) = files2 (deps_path readlink (se_path se))"
    using deps_path_inside [OF assms(1,2), of readlink] assms(3,4) by auto
  then show ?thesis by (auto simp: load_deps_def Let_def)
qed

lemma get_or_start_new:
  "map_of m name = None \<Longrightarrow> get_or_start readlink files dir tm name m =
    (load_deps readlink files (new_session (dir @ ''/'' @ name) tm),
     AList.update name (load_deps readlink files (new_session (dir @ ''/'' @ name) tm)) m)"
  unfolding get_or_start_def by (simp only: option.case Let_def)

lemma get_or_start_old: "map_of m name = Some se \<Longrightarrow> get_or_start readlink files dir tm name m = (se, m)"
  by (simp add: get_or_start_def)

lemma new_session_path [simp]: "se_path (new_session p tm) = p"
  by (simp add: new_session_def)

text \<open>
  A tree request depends on files only through names that lie directly in the log directory: two
  file systems that agree there give the same answer, whatever name the client sent; sessions are only
  kept for accepted names, at their path in the directory.
\<close>

lemma requests_stay_in_the_log_directory:
  assumes "dir \<noteq> []" "\<And>x. plain_name x \<Longrightarrow> files1 (dir @ ''/'' @ x) = files2 (dir @ ''/'' @ x)"
    "\<forall>(n, se)\<in>set m. log_name_ok n \<and> se_path se = dir @ ''/'' @ n"
  shows "tree_request readlink files1 dir tm name m = tree_request readlink files2 dir tm name m \<and>
    (\<forall>(n, se)\<in>set (snd (tree_request readlink files1 dir tm name m)). log_name_ok n \<and> se_path se = dir @ ''/'' @ n)"
proof (cases "log_name_ok name")
  case True
  note pl = log_name_plain [OF True]
  have eq: "load_deps readlink files1 se = load_deps readlink files2 se" if "se_path se = dir @ ''/'' @ name" for se
    using assms(2) by (intro load_deps_inside [OF assms(1) pl that]) simp
  define g1 where "g1 = get_or_start readlink files1 dir tm name m"
  have path: "se_path (fst g1) = dir @ ''/'' @ name"
    using assms(3)
    by (cases "map_of m name") (auto simp: g1_def get_or_start_new get_or_start_old dest!: map_of_SomeD)
  have same: "get_or_start readlink files2 dir tm name m = g1"
    by (cases "map_of m name") (simp_all add: g1_def get_or_start_new get_or_start_old eq)
  have kept: "\<forall>(n, se)\<in>set (snd g1). log_name_ok n \<and> se_path se = dir @ ''/'' @ n"
    using assms(3) True
    by (cases "map_of m name")
      (auto simp: g1_def get_or_start_new get_or_start_old dest!: members_update)
  obtain se m1 where g: "g1 = (se, m1)" by (cases g1)
  obtain answer se1 where t: "tree_snapshot (load_deps readlink files1 se) = (answer, se1)"
    by (cases "tree_snapshot (load_deps readlink files1 se)")
  have "se_path se1 = dir @ ''/'' @ name"
    using tree_snapshot_path [of "load_deps readlink files1 se"] t path g by simp
  with kept True g have "\<forall>(n, x)\<in>set (AList.update name se1 m1). log_name_ok n \<and> se_path x = dir @ ''/'' @ n"
    by (auto dest: members_update)
  with True same g path t eq [of se] show ?thesis by (simp add: tree_request_def flip: g1_def)
qed (use assms(3) in \<open>simp add: tree_request_def\<close>)

end
