(* ===== verification/Roster.thy ===== *)
theory Roster
  imports Sse "HOL-Library.List_Lexorder" "HOL-Library.Char_ord"
begin

text \<open>
  pkgs/roster-writer/roster.go: reading the shift calendar, the roster table, the contract published
  for the next shift, and the changes between two fetches. Hours are rationals where the code has
  floats; a Go map that is ranged over is an association list, so that results stated for it hold
  for every iteration order; regular expressions are written out.
\<close>

section \<open>The calendar file\<close>

definition carriage :: char where "carriage = char_of (13 :: nat)"
definition tab :: char where "tab = char_of (9 :: nat)"

definition fold_blank :: "char \<Rightarrow> bool" where
  "fold_blank c \<longleftrightarrow> c = CHR '' '' \<or> c = tab"

fun unfold_crlf :: "string \<Rightarrow> string" where
  "unfold_crlf (a # b # c # r) =
    (if a = carriage \<and> b = newline \<and> fold_blank c then unfold_crlf r else a # unfold_crlf (b # c # r))"
| "unfold_crlf s = s"

fun unfold_lf :: "string \<Rightarrow> string" where
  "unfold_lf (b # c # r) = (if b = newline \<and> fold_blank c then unfold_lf r else b # unfold_lf (c # r))"
| "unfold_lf s = s"

definition unfold_ics :: "string \<Rightarrow> string" where
  "unfold_ics s = unfold_lf (unfold_crlf s)"

text \<open>Splitting at \<open>\r?\n\<close>.\<close>

fun split_lines :: "string \<Rightarrow> string \<Rightarrow> string list" where
  "split_lines acc [] = [acc]"
| "split_lines acc (a # r) =
    (if a = newline then acc # split_lines [] r
     else if a = carriage \<and> r \<noteq> [] \<and> hd r = newline then acc # split_lines [] (tl r)
     else split_lines (acc @ [a]) r)"

type_synonym vevent = "string \<Rightarrow> string option"

definition prop_of :: "vevent \<Rightarrow> string \<Rightarrow> string" where
  "prop_of ev k = mget [] ev k"

definition scan_line :: "string \<Rightarrow> vevent option \<times> vevent list \<Rightarrow> vevent option \<times> vevent list" where
  "scan_line l st = (case st of (cur, out) \<Rightarrow>
    if l = ''BEGIN:VEVENT'' then (Some (\<lambda>_. None), out)
    else if l = ''END:VEVENT'' then
      (None, case cur of Some ev \<Rightarrow> if prop_of ev ''DTSTART'' \<noteq> [] then out @ [ev] else out | None \<Rightarrow> out)
    else (case cur of None \<Rightarrow> (None, out)
      | Some ev \<Rightarrow> (case index_byte CHR '':'' l of None \<Rightarrow> (cur, out)
          | Some i \<Rightarrow>
              (let key0 = take i l;
                   key = (case index_byte CHR '';'' key0 of None \<Rightarrow> key0 | Some j \<Rightarrow> take j key0)
               in (Some (ev(key \<mapsto> drop (Suc i) l)), out)))))"

definition scan_events :: "string \<Rightarrow> vevent list" where
  "scan_events ics = snd (fold scan_line (split_lines [] (unfold_ics ics)) (None, []))"

section \<open>Dates\<close>

text \<open>\<open>time.Date\<close> in UTC, with parts out of range carried over.\<close>

definition go_date :: "int \<Rightarrow> int \<Rightarrow> int \<Rightarrow> int \<Rightarrow> int \<Rightarrow> int \<Rightarrow> instant" where
  "go_date y mo d h mi s =
    (let m0 = mo - 1; y1 = y + m0 div 12; m1 = m0 mod 12 + 1
     in (days_of_civil (y1, m1, 1) + d - 1) * day + h * hour + mi * minute + s * second)"

definition digits_here :: "nat \<Rightarrow> string \<Rightarrow> bool" where
  "digits_here n s \<longleftrightarrow> n \<le> length s \<and> list_all is_digit (take n s)"

definition num_in :: "nat \<Rightarrow> nat \<Rightarrow> string \<Rightarrow> int" where
  "num_in i n s = int (digits_val (take n (drop i s)))"

definition parse_date_utc :: "string \<Rightarrow> instant option" where
  "parse_date_utc s =
    (if \<not> digits_here 8 s then None
     else if length s \<ge> 9 \<and> s ! 8 = CHR ''T'' \<and> digits_here 6 (drop 9 s)
       then Some (go_date (num_in 0 4 s) (num_in 4 2 s) (num_in 6 2 s) (num_in 9 2 s) (num_in 11 2 s) (num_in 13 2 s))
     else Some (go_date (num_in 0 4 s) (num_in 4 2 s) (num_in 6 2 s) 0 0 0))"

definition bris_offset :: duration where "bris_offset = 10 * hour"

definition hour_minute :: "instant \<Rightarrow> string" where
  "hour_minute t = pad2 (t mod day div hour) @ '':'' @ pad2 (t mod hour div minute)"

definition iso_millis :: "instant \<Rightarrow> string" where
  "iso_millis t = format_date (utc_date t) @ ''T'' @ hour_minute t @ '':'' @ pad2 (t mod minute div second) @
    ''.'' @ (let ms = t mod second div millisecond in if ms < 100 then ''0'' @ pad2 ms else itoa ms) @ ''Z''"

definition bris_parts :: "instant \<Rightarrow> string \<times> string" where
  "bris_parts t = (format_date (utc_date (t + bris_offset)), hour_minute (t + bris_offset))"

section \<open>Events\<close>

record ics_event =
  ie_date :: string
  ie_start :: instant
  ie_end :: "instant option"
  ie_start_local :: string
  ie_end_local :: string
  ie_summary :: string
  ie_location :: string

text \<open>The two characters backslash and n stand for a line break inside a value.\<close>

fun unescape_breaks :: "string \<Rightarrow> string" where
  "unescape_breaks (a # b # r) =
    (if code a = 92 \<and> b = CHR ''n'' then newline # unescape_breaks r else a # unescape_breaks (b # r))"
| "unescape_breaks s = s"

definition event_base :: "vevent \<Rightarrow> ics_event option" where
  "event_base ev = (case parse_date_utc (prop_of ev ''DTSTART'') of None \<Rightarrow> None
    | Some su \<Rightarrow>
        (let eu = (if prop_of ev ''DTEND'' = [] then None else parse_date_utc (prop_of ev ''DTEND'')); d = prop_of ev ''DESCRIPTION''
         in Some \<lparr>ie_date = fst (bris_parts su), ie_start = su, ie_end = eu, ie_start_local = snd (bris_parts su),
              ie_end_local = (case eu of None \<Rightarrow> [] | Some t \<Rightarrow> snd (bris_parts t)),
              ie_summary = prop_of ev ''SUMMARY'',
              ie_location = (if d = [] then [] else trim_space (takeWhile (\<lambda>c. c \<noteq> newline) (unescape_breaks d)))\<rparr>))"

definition all_events :: "string \<Rightarrow> ics_event list" where
  "all_events ics = List.map_filter event_base (scan_events ics)"

definition parse_all :: "string \<Rightarrow> (string \<times> ics_event) list" where
  "parse_all ics = fold (\<lambda>e. AList.update (ie_date e) e) (all_events ics) []"

section \<open>The roster table\<close>

datatype category = Shift | UnpaidLeave | PaidLeave | Other

definition classify_summary :: "string \<Rightarrow> category" where
  "classify_summary summary =
    (let s = to_lower summary
     in if sublist ''shift'' s then Shift
        else if contains_any s [''without pay'', ''unpaid'', ''lwop''] then UnpaidLeave
        else if contains_any s [''leave'', ''annual'', ''sick'', ''personal'', ''carer'', ''holiday'', ''rostered day'',
          ''rdo'', ''bereavement'', ''long service''] then PaidLeave
        else Other)"

definition cut_int :: "rat \<Rightarrow> int" where
  "cut_int f = (if f < 0 then - \<lfloor>- f\<rfloor> else \<lfloor>f\<rfloor>)"

definition sign_of :: "rat \<Rightarrow> rat" where
  "sign_of f = (if f < 0 then - 1 else 1)"

definition round2 :: "rat \<Rightarrow> rat" where
  "round2 f = of_int (cut_int (f * 100 + sign_of f * (1 / 2))) / 100"

definition round1 :: "rat \<Rightarrow> rat" where
  "round1 f = of_int (cut_int (f * 10 + sign_of f * (1 / 2))) / 10"

definition hours_of :: "duration \<Rightarrow> rat" where
  "hours_of d = of_int d / of_int hour"

text \<open>The pattern \<open>\[(\d{1,3}):(\d{2})\]\<close>, leftmost.\<close>

definition bracket_here :: "string \<Rightarrow> (int \<times> int) option" where
  "bracket_here s = (case s of [] \<Rightarrow> None
    | c # r \<Rightarrow>
        (let ds = takeWhile is_digit r; r1 = dropWhile is_digit r
         in if c = CHR ''['' \<and> ds \<noteq> [] \<and> length ds \<le> 3 \<and> 4 \<le> length r1 \<and> r1 ! 0 = CHR '':'' \<and>
               digits_here 2 (drop 1 r1) \<and> r1 ! 3 = CHR '']''
            then Some (int (digits_val ds), num_in 1 2 r1) else None))"

fun bracket_anywhere :: "string \<Rightarrow> (int \<times> int) option" where
  "bracket_anywhere [] = None"
| "bracket_anywhere (c # r) = (case bracket_here (c # r) of Some m \<Rightarrow> Some m | None \<Rightarrow> bracket_anywhere r)"

definition bracket_hours :: "string \<Rightarrow> rat option" where
  "bracket_hours summary = map_option (\<lambda>(h, m). round2 (of_int h + of_int m / 60)) (bracket_anywhere summary)"

record roster_row =
  rr_event :: ics_event
  rr_category :: category
  rr_hours :: rat
  rr_paid_hours :: rat
  rr_is_future :: bool
  rr_is_next :: bool

definition row_of :: "ics_event \<Rightarrow> roster_row" where
  "row_of e =
    (let cat = classify_summary (ie_summary e);
         spent = (case ie_end e of None \<Rightarrow> 0 | Some t \<Rightarrow> round2 (hours_of (t - ie_start e)));
         hours = (case bracket_hours (ie_summary e) of Some h \<Rightarrow> h | None \<Rightarrow> spent)
     in \<lparr>rr_event = e, rr_category = cat, rr_hours = hours,
         rr_paid_hours = (if cat = Shift \<or> cat = PaidLeave then hours else 0), rr_is_future = False, rr_is_next = False\<rparr>)"

definition add_row :: "ics_event \<Rightarrow> (string \<times> roster_row) list \<Rightarrow> (string \<times> roster_row) list" where
  "add_row e out = (case map_of out (ie_date e) of
      Some r \<Rightarrow> if rr_category r = Shift \<or> rr_category (row_of e) \<noteq> Shift then out
        else AList.update (ie_date e) (row_of e) out
    | None \<Rightarrow> AList.update (ie_date e) (row_of e) out)"

definition parse_roster :: "string \<Rightarrow> (string \<times> roster_row) list" where
  "parse_roster ics = fold add_row (all_events ics) []"

definition starts_before :: "roster_row \<Rightarrow> roster_row \<Rightarrow> bool" where
  "starts_before a b \<longleftrightarrow> ie_start (rr_event a) < ie_start (rr_event b)"

fun mark_rows :: "instant \<Rightarrow> bool \<Rightarrow> roster_row list \<Rightarrow> roster_row list" where
  "mark_rows tm marked [] = []"
| "mark_rows tm marked (r # rs) =
    (let fut = tm < ie_start (rr_event r); nxt = (fut \<and> rr_category r = Shift \<and> \<not> marked)
     in r\<lparr>rr_is_future := fut, rr_is_next := nxt \<or> rr_is_next r\<rparr> # mark_rows tm (marked \<or> nxt) rs)"

definition sorted_rows :: "(string \<times> roster_row) list \<Rightarrow> instant \<Rightarrow> roster_row list" where
  "sorted_rows m tm = mark_rows tm False (sort_stable starts_before (map snd m))"

section \<open>The contract for the next shift\<close>

record upcoming_entry =
  ue_date :: string
  ue_day :: string
  ue_start :: string
  ue_end :: string
  ue_location :: string

record contract =
  co_state :: string
  co_shift_date :: string
  co_day :: string
  co_start_local :: string
  co_end_local :: string
  co_location :: string
  co_duration_hours :: "rat option"
  co_starts_in_hours :: "rat option"
  co_end_iso :: string
  co_week_count :: nat
  co_week_hours :: rat
  co_upcoming :: "upcoming_entry list"

definition day_names :: "string list" where
  "day_names = [''Sun'', ''Mon'', ''Tue'', ''Wed'', ''Thu'', ''Fri'', ''Sat'']"

text \<open>
  \<open>time.Parse\<close> of a date with four digits for the year, and the day of the week; the Unix epoch was a
  Thursday.
\<close>

definition parse_day :: "string \<Rightarrow> int option" where
  "parse_day s =
    (if length s = 10 \<and> digits_here 4 s \<and> s ! 4 = CHR ''-'' \<and> digits_here 2 (drop 5 s) \<and> s ! 7 = CHR ''-'' \<and>
        digits_here 2 (drop 8 s)
     then (let y = num_in 0 4 s; m = num_in 5 2 s; d = num_in 8 2 s
           in if 1 \<le> m \<and> m \<le> 12 \<and> 1 \<le> d \<and> d \<le> days_in_month y m then Some (days_of_civil (y, m, d)) else None)
     else None)"

definition day_name :: "string \<Rightarrow> string" where
  "day_name date = (case parse_day date of None \<Rightarrow> [] | Some z \<Rightarrow> day_names ! nat ((z + 4) mod 7))"

definition upcoming_of :: "roster_row \<Rightarrow> upcoming_entry" where
  "upcoming_of r = \<lparr>ue_date = ie_date (rr_event r), ue_day = day_name (ie_date (rr_event r)),
     ue_start = ie_start_local (rr_event r), ue_end = ie_end_local (rr_event r), ue_location = ie_location (rr_event r)\<rparr>"

definition no_contract :: contract where
  "no_contract = \<lparr>co_state = ''unknown'', co_shift_date = [], co_day = [], co_start_local = [], co_end_local = [],
     co_location = [], co_duration_hours = None, co_starts_in_hours = None, co_end_iso = [], co_week_count = 0,
     co_week_hours = 0, co_upcoming = []\<rparr>"

definition compute_contract :: "roster_row list \<Rightarrow> instant \<Rightarrow> contract" where
  "compute_contract rows tm =
    (let future = filter (\<lambda>r. rr_is_future r \<and> rr_category r = Shift) rows
     in case future of [] \<Rightarrow> no_contract
        | r # _ \<Rightarrow>
            (let e = rr_event r; week = filter (\<lambda>x. ie_start (rr_event x) < tm + 7 * 24 * hour) future
             in \<lparr>co_state = iso_millis (ie_start e), co_shift_date = ie_date e, co_day = day_name (ie_date e),
                 co_start_local = ie_start_local e, co_end_local = ie_end_local e, co_location = ie_location e,
                 co_duration_hours = Some (rr_hours r),
                 co_starts_in_hours = Some (round1 (hours_of (ie_start e - tm))),
                 co_end_iso = (case ie_end e of None \<Rightarrow> [] | Some t \<Rightarrow> iso_millis t),
                 co_week_count = length week, co_week_hours = round2 (sum_list (map rr_paid_hours week)),
                 co_upcoming = map upcoming_of (take 5 future)\<rparr>))"

section \<open>Changes between two fetches\<close>

datatype change_type = Cancelled | Added | TimeChanged

record change =
  ch_date :: string
  ch_type :: change_type
  ch_old_start :: string
  ch_new_start :: string
  ch_days_notice :: int
  ch_within_window :: bool
  ch_location :: string

definition change_at :: "instant \<Rightarrow> string \<Rightarrow> ics_event option \<Rightarrow> ics_event option \<Rightarrow> change option" where
  "change_at tm date p c =
    (case (case (p, c) of
        (Some e, None) \<Rightarrow> Some (Cancelled, e)
      | (None, Some e) \<Rightarrow> Some (Added, e)
      | (Some e, Some e') \<Rightarrow> if ie_start e \<noteq> ie_start e' \<or> ie_end e \<noteq> ie_end e' then Some (TimeChanged, e') else None
      | (None, None) \<Rightarrow> None) of
       None \<Rightarrow> None
     | Some (typ, ref) \<Rightarrow>
         if \<not> tm < ie_start ref then None
         else (let notice = (ie_start ref - tm) div day; soon = notice < 7
               in if typ = Added \<and> \<not> soon then None
                  else Some \<lparr>ch_date = date, ch_type = typ,
                    ch_old_start = (case p of None \<Rightarrow> [] | Some e \<Rightarrow> ie_start_local e),
                    ch_new_start = (case c of None \<Rightarrow> [] | Some e \<Rightarrow> ie_start_local e),
                    ch_days_notice = notice, ch_within_window = soon, ch_location = ie_location ref\<rparr>))"

fun type_rank :: "change_type \<Rightarrow> nat" where
  "type_rank Added = 0"
| "type_rank Cancelled = 1"
| "type_rank TimeChanged = 2"

definition change_less :: "change \<Rightarrow> change \<Rightarrow> bool" where
  "change_less a b \<longleftrightarrow> (if ch_date a \<noteq> ch_date b then ch_date a < ch_date b
     else type_rank (ch_type a) < type_rank (ch_type b))"

definition detect_changes :: "string \<Rightarrow> string \<Rightarrow> instant \<Rightarrow> change list" where
  "detect_changes prev_raw curr_raw tm =
    (let prev = parse_all prev_raw; curr = parse_all curr_raw
     in if prev_raw = [] \<or> prev = [] then []
        else sort_stable change_less (List.map_filter
          (\<lambda>d. change_at tm d (map_of prev d) (map_of curr d)) (remdups (map fst prev @ map fst curr))))"

end
