(* ===== verification/RosterSpec.thy ===== *)
theory RosterSpec
  imports Roster
begin

text \<open>
  pkgs/roster-writer: what the roster table and the contract show, and main.go with the transaction
  that replaces the table. A run of the transaction is its list of statements with the position of
  the one that fails, if any; the feed, the digest and the broker are arguments.
\<close>

section \<open>One row per date\<close>

definition is_shift :: "ics_event \<Rightarrow> bool" where
  "is_shift e \<longleftrightarrow> classify_summary (ie_summary e) = Shift"

definition chosen_event :: "ics_event list \<Rightarrow> ics_event option" where
  "chosen_event es = (case find is_shift es of Some e \<Rightarrow> Some e
    | None \<Rightarrow> (case es of [] \<Rightarrow> None | e # _ \<Rightarrow> Some e))"

lemma row_of_fields [simp]:
  "rr_event (row_of e) = e" "rr_category (row_of e) = classify_summary (ie_summary e)"
  by (simp_all add: row_of_def Let_def)

lemma find_snoc: "find P (xs @ [x]) = (case find P xs of Some y \<Rightarrow> Some y | None \<Rightarrow> if P x then Some x else None)"
  by (induction xs) auto

lemma chosen_snoc:
  "chosen_event (es @ [e]) = (case chosen_event es of None \<Rightarrow> Some e
    | Some c \<Rightarrow> if is_shift c \<or> \<not> is_shift e then Some c else Some e)"
proof (cases "find is_shift es")
  case None
  then have n: "\<not> is_shift x" if "x \<in> set es" for x using that by (simp add: find_None_iff)
  show ?thesis
  proof (cases es)
    case (Cons a as)
    with None n show ?thesis by (simp add: chosen_event_def find_snoc)
  qed (simp add: chosen_event_def)
next
  case (Some c)
  then have "is_shift c" by (auto simp: find_Some_iff)
  with Some show ?thesis by (simp add: chosen_event_def find_snoc)
qed

lemma add_rows_choose:
  "map_of (fold add_row es []) d = map_option row_of (chosen_event (filter (\<lambda>e. ie_date e = d) es))"
proof (induction es rule: rev_induct)
  case (snoc e es)
  show ?case
  proof (cases "ie_date e = d")
    case True
    show ?thesis
    proof (cases "chosen_event (filter (\<lambda>e. ie_date e = d) es)")
      case None
      with snoc True show ?thesis by (simp add: chosen_snoc add_row_def update_conv)
    next
      case (Some c)
      with snoc True have "map_of (fold add_row es []) (ie_date e) = Some (row_of c)" by simp
      with Some True snoc show ?thesis by (simp add: chosen_snoc add_row_def update_conv is_shift_def)
    qed
  next
    case False
    have "map_of (add_row e al) d = map_of al d" for al
      using False by (simp add: add_row_def update_conv split: option.split)
    with snoc False show ?thesis by simp
  qed
qed (simp add: chosen_event_def)

text \<open>
  C17: The roster table has for each date the row of the first shift event of that date in the feed, or
  of the first event when there is no shift, and no row for a date without events.
\<close>

theorem roster_keeps_the_first_shift_of_a_day:
  "map_of (parse_roster ics) d =
    (let es = filter (\<lambda>e. ie_date e = d) (all_events ics)
     in case find (\<lambda>e. classify_summary (ie_summary e) = Shift) es of
          Some e \<Rightarrow> Some (row_of e)
        | None \<Rightarrow> (case es of [] \<Rightarrow> None | e # _ \<Rightarrow> Some (row_of e)))"
  unfolding parse_roster_def add_rows_choose chosen_event_def is_shift_def Let_def
  by (simp split: option.split list.split)

section \<open>The contract\<close>

interpretation row_order: weak_order starts_before
  by unfold_locales (auto simp: starts_before_def)

definition future_shift :: "instant \<Rightarrow> roster_row \<Rightarrow> bool" where
  "future_shift tm r \<longleftrightarrow> tm < ie_start (rr_event r) \<and> rr_category r = Shift"

definition row_facts :: "roster_row \<Rightarrow> ics_event \<times> category \<times> rat \<times> rat" where
  "row_facts r = (rr_event r, rr_category r, rr_hours r, rr_paid_hours r)"

lemma mark_rows_facts:
  "map row_facts (filter (\<lambda>r. rr_is_future r \<and> rr_category r = Shift) (mark_rows tm b rs)) =
   map row_facts (filter (future_shift tm) rs)"
  by (induction rs arbitrary: b) (auto simp: Let_def row_facts_def future_shift_def)

lemma filter_sorted_rows: "sorted_wrt R xs \<Longrightarrow> sorted_wrt R (filter P xs)"
  by (induction xs) auto

lemma mset_filter_sort: "mset (filter P (sort_stable lt xs)) = mset (filter P xs)"
  by (simp add: mset_filter)

text \<open>The contract depends on the rows only through these facts.\<close>

definition contract_of :: "(ics_event \<times> category \<times> rat \<times> rat) list \<Rightarrow> instant \<Rightarrow> contract" where
  "contract_of fs tm = (case fs of [] \<Rightarrow> no_contract
    | (e, _, h, _) # _ \<Rightarrow>
        (let week = filter (\<lambda>(x, _). ie_start x < tm + 7 * 24 * hour) fs
         in \<lparr>co_state = iso_millis (ie_start e), co_shift_date = ie_date e, co_day = day_name (ie_date e),
             co_start_local = ie_start_local e, co_end_local = ie_end_local e, co_location = ie_location e,
             co_duration_hours = Some h,
             co_starts_in_hours = Some (round1 (hours_of (ie_start e - tm))),
             co_end_iso = (case ie_end e of None \<Rightarrow> [] | Some t \<Rightarrow> iso_millis t),
             co_week_count = length week, co_week_hours = round2 (sum_list (map (\<lambda>(_, _, _, p). p) week)),
             co_upcoming = map (\<lambda>(x, _). \<lparr>ue_date = ie_date x, ue_day = day_name (ie_date x),
               ue_start = ie_start_local x, ue_end = ie_end_local x, ue_location = ie_location x\<rparr>) (take 5 fs)\<rparr>))"

lemma compute_contract_facts:
  "compute_contract rows tm =
    contract_of (map row_facts (filter (\<lambda>r. rr_is_future r \<and> rr_category r = Shift) rows)) tm"
proof -
  define fs where "fs = filter (\<lambda>r. rr_is_future r \<and> rr_category r = Shift) rows"
  have f: "filter (\<lambda>(x, _). ie_start x < tm + 7 * 24 * hour) (map row_facts l) =
      map row_facts (filter (\<lambda>x. ie_start (rr_event x) < tm + 7 * 24 * hour) l)" for l
    by (induction l) (auto simp: row_facts_def)
  have p: "(\<lambda>(_, _, _, p). p) \<circ> row_facts = rr_paid_hours" by (rule ext) (simp add: row_facts_def)
  have u: "map (\<lambda>(x, _). \<lparr>ue_date = ie_date x, ue_day = day_name (ie_date x),
      ue_start = ie_start_local x, ue_end = ie_end_local x, ue_location = ie_location x\<rparr>) (take 5 (map row_facts l)) =
      map upcoming_of (take 5 l)" for l
    by (simp add: take_map row_facts_def upcoming_of_def comp_def)
  show ?thesis
  proof (cases fs)
    case Nil
    then show ?thesis by (simp add: compute_contract_def contract_of_def fs_def [symmetric] Let_def)
  next
    case (Cons r rs)
    have "map row_facts fs = (rr_event r, rr_category r, rr_hours r, rr_paid_hours r) # map row_facts rs"
      by (simp add: Cons row_facts_def)
    then have "contract_of (map row_facts fs) tm = compute_contract rows tm"
      using f [of fs] p u [of fs] unfolding contract_of_def compute_contract_def fs_def [symmetric] Let_def
      by (simp add: Cons)
    then show ?thesis by (simp add: fs_def)
  qed
qed

text \<open>
  The contract names an earliest shift that starts after now, counts exactly the future shifts of
  the next seven days and lists at most five; without a future shift it is the unknown contract.
\<close>

lemma contract_names_the_next_shift:
  fixes rows :: "(string \<times> roster_row) list" and tm :: instant
  defines "future \<equiv> filter (future_shift tm) (map snd rows)"
    and "c \<equiv> compute_contract (sorted_rows rows tm) tm"
  shows "if future = [] then c = no_contract
    else co_week_count c = length (filter (\<lambda>r. ie_start (rr_event r) < tm + 7 * 24 * hour) future) \<and>
      length (co_upcoming c) = min 5 (length future) \<and>
      (\<exists>r\<in>set future. list_all (\<lambda>r'. ie_start (rr_event r) \<le> ie_start (rr_event r')) future \<and>
         co_state c = iso_millis (ie_start (rr_event r)) \<and> co_shift_date c = ie_date (rr_event r) \<and>
         co_duration_hours c = Some (rr_hours r) \<and> co_location c = ie_location (rr_event r))"
proof -
  define fs where "fs = filter (future_shift tm) (sort_stable starts_before (map snd rows))"
  have c: "c = contract_of (map row_facts fs) tm"
    unfolding c_def compute_contract_facts sorted_rows_def mark_rows_facts fs_def ..
  have m: "mset fs = mset future" by (simp add: fs_def future_def mset_filter_sort)
  have len: "length fs = length future" using m by (metis size_mset)
  have lenf: "length (filter P fs) = length (filter P future)" for P
    using m by (metis mset_filter size_mset)
  show ?thesis
  proof (cases fs)
    case Nil
    with len c show ?thesis by (simp add: contract_of_def)
  next
    case (Cons r rs)
    have srt: "sorted_wrt (\<lambda>x y. \<not> starts_before y x) fs"
      unfolding fs_def by (intro filter_sorted_rows row_order.sorted_sort_stable)
    have "ie_start (rr_event r) \<le> ie_start (rr_event r')" if "r' \<in> set future" for r'
    proof -
      have "r' \<in> set fs" using that m by (metis set_mset_mset)
      with srt Cons show ?thesis by (auto simp: starts_before_def not_less)
    qed
    moreover have "r \<in> set future" using m Cons by (metis list.set_intros(1) set_mset_mset)
    moreover have "filter (\<lambda>(x, _). ie_start x < tm + 7 * 24 * hour) (map row_facts fs) =
        map row_facts (filter (\<lambda>r. ie_start (rr_event r) < tm + 7 * 24 * hour) fs)"
      by (simp add: filter_map comp_def row_facts_def)
    moreover have "future \<noteq> []" using len Cons by auto
    ultimately show ?thesis
      using lenf [of "\<lambda>r. ie_start (rr_event r) < tm + 7 * 24 * hour"] len Cons
      by (auto simp: c contract_of_def row_facts_def Let_def list_all_iff)
  qed
qed

section \<open>A pass\<close>

record table_row =
  tb_date :: string
  tb_start :: instant
  tb_end :: "instant option"
  tb_is_next :: bool
  tb_ingested_at :: instant
  tb_location :: string

record log_row =
  lg_date :: string
  lg_detected_at :: instant
  lg_old_start :: string
  lg_new_start :: string

record feed_row =
  fd_raw :: string
  fd_hash :: string
  fd_fetched_at :: instant
  fd_changes :: nat

record roster_db =
  db_roster :: "table_row list"
  db_history :: "(string \<times> instant) list"
  db_log :: "log_row list"
  db_feed :: "feed_row option"

type_synonym statement = "roster_db \<Rightarrow> roster_db"

definition clear_roster :: statement where
  "clear_roster db = db\<lparr>db_roster := []\<rparr>"

definition insert_row :: "instant \<Rightarrow> roster_row \<Rightarrow> statement" where
  "insert_row tm r db = db\<lparr>db_roster := db_roster db @ [\<lparr>tb_date = ie_date (rr_event r), tb_start = ie_start (rr_event r),
     tb_end = ie_end (rr_event r), tb_is_next = rr_is_next r, tb_ingested_at = tm, tb_location = ie_location (rr_event r)\<rparr>]\<rparr>"

definition insert_history :: "roster_row \<Rightarrow> statement" where
  "insert_history r db = (let k = (ie_date (rr_event r), ie_start (rr_event r))
     in if k \<in> set (db_history db) then db else db\<lparr>db_history := db_history db @ [k]\<rparr>)"

definition insert_change :: "instant \<Rightarrow> change \<Rightarrow> statement" where
  "insert_change tm c db = db\<lparr>db_log := db_log db @ [\<lparr>lg_date = ch_date c, lg_detected_at = tm,
     lg_old_start = ch_old_start c, lg_new_start = ch_new_start c\<rparr>]\<rparr>"

definition store_feed :: "(string \<Rightarrow> string) \<Rightarrow> string \<Rightarrow> instant \<Rightarrow> nat \<Rightarrow> statement" where
  "store_feed digest raw tm n db = db\<lparr>db_feed := Some \<lparr>fd_raw = raw, fd_hash = digest raw, fd_fetched_at = tm, fd_changes = n\<rparr>\<rparr>"

definition row_statements :: "instant \<Rightarrow> roster_row \<Rightarrow> statement list" where
  "row_statements tm r = insert_row tm r # (if rr_category r = Shift then [insert_history r] else [])"

definition roster_statements :: "(string \<Rightarrow> string) \<Rightarrow> string \<Rightarrow> roster_row list \<Rightarrow> change list \<Rightarrow> instant \<Rightarrow> statement list" where
  "roster_statements digest raw rows changes tm =
    clear_roster # concat (map (row_statements tm) rows) @ map (insert_change tm) changes @
    [store_feed digest raw tm (length changes)]"

text \<open>
  The transaction: with \<open>Some n\<close> the call with that number fails, 0 being \<open>Begin\<close> and the last one
  \<open>Commit\<close>; the deferred rollback then leaves the tables as they were.
\<close>

definition write_roster :: "nat option \<Rightarrow> statement list \<Rightarrow> roster_db \<Rightarrow> bool \<times> roster_db" where
  "write_roster fail stmts db = (case fail of
      Some n \<Rightarrow> if n < length stmts + 2 then (False, db) else (True, fold (\<lambda>st. st) stmts db)
    | None \<Rightarrow> (True, fold (\<lambda>st. st) stmts db))"

definition read_feed_state :: "roster_db \<Rightarrow> string" where
  "read_feed_state db = (case db_feed db of None \<Rightarrow> [] | Some f \<Rightarrow> fd_raw f)"

datatype pass_result = FetchFailed | FeedStateFailed | WriteFailed | PublishFailed | PassOk contract

text \<open>The answer of the feed's server: its status and body, or nothing on a failed request; at most 2 MiB are read.\<close>

definition fetch_ics :: "(nat \<times> string) option \<Rightarrow> string option" where
  "fetch_ics resp = (case resp of None \<Rightarrow> None
    | Some (status, body) \<Rightarrow> if status \<noteq> 200 then None else Some (take (2 * 1024 * 1024) body))"

definition pass_once :: "(string \<Rightarrow> string) \<Rightarrow> (nat \<times> string) option \<Rightarrow> bool \<Rightarrow> nat option \<Rightarrow> bool \<Rightarrow> instant \<Rightarrow> roster_db \<Rightarrow>
    pass_result \<times> roster_db" where
  "pass_once digest resp feed_ok fail published tm db = (case fetch_ics resp of
      None \<Rightarrow> (FetchFailed, db)
    | Some raw \<Rightarrow>
        (let rows = sorted_rows (parse_roster raw) tm; c = compute_contract rows tm
         in if \<not> feed_ok then (FeedStateFailed, db)
            else (case write_roster fail (roster_statements digest raw rows (detect_changes (read_feed_state db) raw tm) tm) db of
                (ok, db1) \<Rightarrow> if \<not> ok then (WriteFailed, db1)
                  else if \<not> published then (PublishFailed, db1) else (PassOk c, db1))))"

lemma change_at_same [simp]: "change_at tm d p p = None"
  by (cases p) (simp_all add: change_at_def)

lemma same_feed_no_changes: "detect_changes raw raw tm = []"
proof -
  have "List.map_filter (\<lambda>d. None) xs = ([] :: change list)" for xs :: "string list" by (induction xs) simp_all
  then show ?thesis by (simp add: detect_changes_def Let_def)
qed

definition run_stmts :: "statement list \<Rightarrow> statement" where
  "run_stmts ss db = fold (\<lambda>st. st) ss db"

lemma run_stmts_simps [simp]:
  "run_stmts [] db = db" "run_stmts (s # ss) db = run_stmts ss (s db)" "run_stmts (ss @ ss') db = run_stmts ss' (run_stmts ss db)"
  by (simp_all add: run_stmts_def)

lemma row_statements_effect:
  "run_stmts (row_statements tm r) db =
    (let db1 = insert_row tm r db in if rr_category r = Shift then insert_history r db1 else db1)"
  by (simp add: row_statements_def Let_def)

lemma rows_effect:
  "map tb_date (db_roster (run_stmts (concat (map (row_statements tm) rows)) db)) =
     map tb_date (db_roster db) @ map (\<lambda>r. ie_date (rr_event r)) rows"
  "db_log (run_stmts (concat (map (row_statements tm) rows)) db) = db_log db"
  "db_feed (run_stmts (concat (map (row_statements tm) rows)) db) = db_feed db"
  by (induction rows arbitrary: db) (simp_all add: row_statements_effect insert_row_def insert_history_def Let_def)

definition shift_keys :: "roster_row list \<Rightarrow> (string \<times> instant) set" where
  "shift_keys rows = (\<lambda>r. (ie_date (rr_event r), ie_start (rr_event r))) ` {r \<in> set rows. rr_category r = Shift}"

lemma shift_keys_Cons [simp]:
  "shift_keys (r # rs) =
    (if rr_category r = Shift then insert (ie_date (rr_event r), ie_start (rr_event r)) (shift_keys rs) else shift_keys rs)"
  by (auto simp: shift_keys_def)

lemma shift_keys_Nil [simp]: "shift_keys [] = {}"
  by (simp add: shift_keys_def)

lemma rows_history_set:
  "set (db_history (run_stmts (concat (map (row_statements tm) rows)) db)) = set (db_history db) \<union> shift_keys rows"
  by (induction rows arbitrary: db)
    (auto simp: row_statements_effect insert_row_def insert_history_def Let_def)

lemma rows_history_same:
  "shift_keys rows \<subseteq> set (db_history db) \<Longrightarrow>
   db_history (run_stmts (concat (map (row_statements tm) rows)) db) = db_history db"
  by (induction rows arbitrary: db)
    (simp_all add: row_statements_effect insert_row_def insert_history_def Let_def split: if_splits)

lemma changes_effect:
  "run_stmts (map (insert_change tm) cs) db = db\<lparr>db_log := db_log db @ map (\<lambda>c. \<lparr>lg_date = ch_date c, lg_detected_at = tm,
     lg_old_start = ch_old_start c, lg_new_start = ch_new_start c\<rparr>) cs\<rparr>"
  by (induction cs arbitrary: db) (simp_all add: insert_change_def)

lemma mark_rows_keeps:
  "map (\<lambda>r. ie_date (rr_event r)) (mark_rows tm b rs) = map (\<lambda>r. ie_date (rr_event r)) rs"
  "shift_keys (mark_rows tm b rs) = shift_keys rs"
proof -
  show "map (\<lambda>r. ie_date (rr_event r)) (mark_rows tm b rs) = map (\<lambda>r. ie_date (rr_event r)) rs"
    by (induction rs arbitrary: b) (simp_all add: Let_def)
  show "shift_keys (mark_rows tm b rs) = shift_keys rs"
    by (induction rs arbitrary: b) (simp_all add: Let_def)
qed

lemma sorted_rows_keys: "shift_keys (sorted_rows m tm) = shift_keys (map snd m)"
  by (simp add: sorted_rows_def mark_rows_keeps) (simp add: shift_keys_def)

definition dated :: "(string \<times> roster_row) list \<Rightarrow> bool" where
  "dated m \<longleftrightarrow> distinct (map fst m) \<and> (\<forall>(d, r)\<in>set m. ie_date (rr_event r) = d)"

lemma dated_update: "dated m \<Longrightarrow> ie_date (rr_event r) = d \<Longrightarrow> dated (AList.update d r m)"
proof -
  assume k: "dated m" and r: "ie_date (rr_event r) = d"
  have "set (AList.update d r m) \<subseteq> insert (d, r) (set m)" by (induction m) auto
  with k r show ?thesis unfolding dated_def by (blast intro: distinct_update)
qed

lemma dated_add_row: "dated m \<Longrightarrow> dated (add_row e m)"
  by (simp add: add_row_def dated_update split: option.split)

lemma dated_parse: "dated (parse_roster raw)"
proof -
  have "dated (fold add_row es m)" if "dated m" for es m
    using that by (induction es arbitrary: m) (simp_all add: dated_add_row)
  from this [of "[]"] show ?thesis by (simp add: parse_roster_def dated_def [of "[]"])
qed

lemma dated_dates: "dated m \<Longrightarrow> map (\<lambda>r. ie_date (rr_event r)) (map snd m) = map fst m"
  by (auto simp: dated_def)

lemma sorted_rows_dates:
  "mset (map (\<lambda>r. ie_date (rr_event r)) (sorted_rows (parse_roster raw) tm)) = mset (map fst (parse_roster raw))"
  unfolding sorted_rows_def mark_rows_keeps(1)
  by (simp only: mset_map mset_sort_stable flip: dated_dates [OF dated_parse])


text \<open>What a whole transaction that reaches its commit does to the tables.\<close>

lemma transaction_effect:
  fixes m :: "(string \<times> roster_row) list" and db :: roster_db and cs :: "change list" and tm :: instant and raw :: string
    and digest :: "string \<Rightarrow> string"
  defines "db1 \<equiv> run_stmts (roster_statements digest raw (sorted_rows m tm) cs tm) db"
  shows "map tb_date (db_roster db1) = map (\<lambda>r. ie_date (rr_event r)) (sorted_rows m tm)"
    "length (db_log db1) = length (db_log db) + length cs" "cs = [] \<Longrightarrow> db_log db1 = db_log db"
    "db_feed db1 = Some \<lparr>fd_raw = raw, fd_hash = digest raw, fd_fetched_at = tm, fd_changes = length cs\<rparr>"
    "set (db_history db1) = set (db_history db) \<union> shift_keys (map snd m)"
    "shift_keys (map snd m) \<subseteq> set (db_history db) \<Longrightarrow> db_history db1 = db_history db"
  unfolding db1_def roster_statements_def
  by (simp_all add: changes_effect store_feed_def rows_effect rows_history_set rows_history_same sorted_rows_keys
      clear_roster_def)

lemma write_roster_result:
  "write_roster fail stmts db = (if case fail of None \<Rightarrow> True | Some n \<Rightarrow> length stmts + 2 \<le> n
    then (True, run_stmts stmts db) else (False, db))"
  by (auto simp: write_roster_def run_stmts_def split: option.split)

text \<open>The results of a pass that changed nothing, and the transaction of every other one.\<close>

definition early_result :: "pass_result \<Rightarrow> bool" where
  "early_result r \<longleftrightarrow> r = FetchFailed \<or> r = FeedStateFailed \<or> r = WriteFailed"

lemma pass_cases:
  "case pass_once digest resp feed_ok fail published tm db of (r, db1) \<Rightarrow>
    if early_result r then db1 = db
    else \<exists>raw. fetch_ics resp = Some raw \<and> db1 = run_stmts (roster_statements digest raw
      (sorted_rows (parse_roster raw) tm) (detect_changes (read_feed_state db) raw tm) tm) db"
  by (cases "fetch_ics resp")
    (simp_all add: pass_once_def early_result_def write_roster_result Let_def)


end
