(* ===== verification/FileTree.thy ===== *)
theory FileTree
  imports GoStrings GoTime
begin

text \<open>
  What the packages of pkgs/arcade-webapp use of \<open>path/filepath\<close> and of directory trees. A tree is what
  \<open>filepath.WalkDir\<close> would find at one moment: files with their metadata and contents, other entries,
  entries whose metadata cannot be read, and directories that cannot be listed. A walk is the list of
  the calls of its function, in their order; a root that cannot be reached is an error at once.
\<close>

section \<open>Paths\<close>

definition last_elem :: "string \<Rightarrow> string" where
  "last_elem p = (case last_index_byte CHR ''/'' p of None \<Rightarrow> p | Some i \<Rightarrow> drop (Suc i) p)"

text \<open>\<open>filepath.Ext\<close>, and \<open>filepath.Dir\<close> of a clean relative path.\<close>

definition path_ext :: "string \<Rightarrow> string" where
  "path_ext p = (case last_index_byte CHR ''.'' (last_elem p) of None \<Rightarrow> [] | Some i \<Rightarrow> drop i (last_elem p))"

definition rel_dir :: "string \<Rightarrow> string" where
  "rel_dir p = (case last_index_byte CHR ''/'' p of None \<Rightarrow> ''.'' | Some i \<Rightarrow> take i p)"

definition strip_ext :: "string \<Rightarrow> string" where
  "strip_ext p = trim_suffix (path_ext p) p"

definition equal_fold :: "string \<Rightarrow> string \<Rightarrow> bool" where
  "equal_fold a b \<longleftrightarrow> to_lower a = to_lower b"

definition join_rel :: "string \<Rightarrow> string \<Rightarrow> string" where
  "join_rel rel n = (if rel = ''.'' then n else rel @ ''/'' @ n)"

text \<open>
  An absolute path as the list of its elements after \<open>filepath.Clean\<close>, and \<open>filepath.Rel\<close> with an
  absolute base: an error for a relative target.
\<close>

definition clean_step :: "string \<Rightarrow> string list \<Rightarrow> string list" where
  "clean_step e acc = (if e = [] \<or> e = ''.'' then acc else if e = ''..'' then butlast acc else acc @ [e])"

definition clean_abs :: "string \<Rightarrow> string list" where
  "clean_abs p = fold clean_step (split_byte CHR ''/'' p) []"

definition is_abs :: "string \<Rightarrow> bool" where
  "is_abs p \<longleftrightarrow> prefix ''/'' p"

fun rel_elems :: "string list \<Rightarrow> string list \<Rightarrow> string list" where
  "rel_elems (b # bs) (t # ts) = (if b = t then rel_elems bs ts else replicate (Suc (length bs)) ''..'' @ t # ts)"
| "rel_elems bs ts = replicate (length bs) ''..'' @ ts"

definition path_rel :: "string \<Rightarrow> string \<Rightarrow> string option" where
  "path_rel base target =
    (if \<not> is_abs target then None
     else Some (let es = rel_elems (clean_abs base) (clean_abs target) in if es = [] then ''.'' else join_with ''/'' es))"

section \<open>Trimmed strings and joined pieces\<close>

lemma trim_space_id: "s \<noteq> [] \<Longrightarrow> \<not> is_space (hd s) \<Longrightarrow> \<not> is_space (last s) \<Longrightarrow> trim_space s = s"
proof -
  have d: "dropWhile P xs = xs" if "xs \<noteq> []" "\<not> P (hd xs)" for P and xs :: string using that by (cases xs) auto
  assume "s \<noteq> []" "\<not> is_space (hd s)" "\<not> is_space (last s)"
  then have "dropWhile is_space s = s" "dropWhile is_space (rev s) = rev s" by (simp_all add: d hd_rev)
  then show ?thesis by (simp add: trim_space_def trim_left_if_def trim_right_if_def)
qed

lemma trim_right_length: "length (trim_right_if P s) \<le> length s"
  by (simp add: trim_right_if_def) (metis length_dropWhile_le length_rev)

lemma trim_space_ends:
  assumes "trim_space s = s" "s \<noteq> []"
  shows "\<not> is_space (hd s) \<and> \<not> is_space (last s)"
proof -
  have "length s \<le> length (dropWhile is_space s)"
    using assms(1) trim_right_length [of is_space "dropWhile is_space s"]
    by (simp add: trim_space_def trim_left_if_def)
  moreover have "length (dropWhile is_space (tl s)) \<le> length (tl s)" by (rule length_dropWhile_le)
  ultimately have hd: "\<not> is_space (hd s)" using assms(2) by (cases s) auto
  then have d: "dropWhile is_space s = s" using assms(2) by (cases s) auto
  have r: "rev (dropWhile is_space (rev s)) = s"
    using assms(1) d by (simp add: trim_space_def trim_left_if_def trim_right_if_def)
  have "\<not> is_space (last s)"
  proof
    assume "is_space (last s)"
    then have "dropWhile is_space (rev s) = dropWhile is_space (rev (butlast s))"
      using assms(2) by (cases s rule: rev_cases) auto
    then have "length s \<le> length (butlast s)"
      using r length_dropWhile_le [of is_space "rev (butlast s)"] by (metis length_rev)
    then show False using assms(2) by (cases s rule: rev_cases) auto
  qed
  with hd show ?thesis by simp
qed

lemma trim_space_Nil [simp]: "trim_space [] = []"
  by (simp add: trim_space_def trim_left_if_def trim_right_if_def)

lemma trim_space_cases: "trim_space s = [] \<or> \<not> is_space (hd (trim_space s)) \<and> \<not> is_space (last (trim_space s))"
proof -
  define d where "d = dropWhile is_space s"
  have t: "trim_space s = rev (dropWhile is_space (rev d))"
    by (simp add: trim_space_def trim_left_if_def trim_right_if_def d_def)
  show ?thesis
  proof (cases "dropWhile is_space (rev d)")
    case (Cons c cs)
    then have l: "\<not> is_space c" by (metis dropWhile_eq_Cons_conv)
    obtain ws where ws: "rev d = ws @ c # cs"
      using Cons by (metis takeWhile_dropWhile_id)
    then have "d = rev cs @ c # rev ws" by (metis append.assoc append_Cons append_Nil rev.simps(2) rev_append rev_rev_ident)
    then have "hd d = hd (rev cs @ [c])" by (cases "rev cs") auto
    moreover have "d \<noteq> []" using \<open>d = rev cs @ c # rev ws\<close> by simp
    then have "\<not> is_space (hd d)" unfolding d_def by (metis hd_dropWhile dropWhile_eq_Nil_conv)
    ultimately show ?thesis using l t Cons by simp
  qed (simp add: t)
qed

lemma trim_space_idem [simp]: "trim_space (trim_space s) = trim_space s"
  using trim_space_cases [of s] by (cases "trim_space s = []") (simp_all add: trim_space_id)

lemma split_join:
  assumes "ps \<noteq> []" "\<And>p. p \<in> set ps \<Longrightarrow> c \<notin> set p"
  shows "split_byte c (join_with [c] ps) = ps"
proof -
  have join: "join_with [c] (p # q # qs) = p @ c # join_with [c] (q # qs)" for p q qs
    by (simp add: join_with_def)
  show ?thesis
    using assms
  proof (induction ps rule: induct_list012)
    case (2 p)
    then show ?case by (simp add: join_with_def split_byte_free)
  next
    case (3 p q qs)
    have "split_byte c (join_with [c] (p # q # qs)) = p # split_byte c (join_with [c] (q # qs))"
      using "3.prems" by (simp add: join split_byte_sep split_byte_free)
    also have "\<dots> = p # q # qs" using "3.IH"(2) "3.prems" by simp
    finally show ?case .
  qed simp
qed

lemma set_join: "set (join_with sep ps) \<subseteq> set sep \<union> (\<Union>p\<in>set ps. set p)"
  by (cases ps) (auto simp: join_with_def)

lemma raw_lines_written:
  assumes "\<And>l. l \<in> set ls \<Longrightarrow> newline \<notin> set l"
  shows "raw_lines (concat (map (\<lambda>l. l @ [newline]) ls)) = ls"
proof -
  have "concat (map (\<lambda>l. l @ [newline]) ls) = join_with [newline] (ls @ [[]])"
    by (induction ls rule: induct_list012) (simp_all add: join_with_def)
  moreover have "split_byte newline (join_with [newline] (ls @ [[]])) = ls @ [[]]"
    by (rule split_join) (use assms in auto)
  ultimately show ?thesis by (simp add: raw_lines_def Let_def)
qed

section \<open>Trees\<close>

record file_info =
  fi_size :: nat
  fi_mtime :: instant
  fi_mode :: nat
  fi_data :: string

datatype walk_error = NotExist | Unreadable

datatype fs_node = FsFile file_info
  | FsSpecial nat
  | FsGone walk_error
  | FsDir "(string \<times> fs_node) list"
  | FsClosed walk_error

datatype visit = VDir string
  | VFile string string file_info
  | VSpecial string string nat
  | VGone string string walk_error
  | VFail string walk_error

fun walk :: "string \<Rightarrow> string \<Rightarrow> fs_node \<Rightarrow> visit list"
  and walk_all :: "string \<Rightarrow> (string \<times> fs_node) list \<Rightarrow> visit list" where
  "walk rel n (FsFile i) = [VFile rel n i]"
| "walk rel n (FsSpecial s) = [VSpecial rel n s]"
| "walk rel n (FsGone e) = [VGone rel n e]"
| "walk rel n (FsClosed e) = [VDir rel, VFail rel e]"
| "walk rel n (FsDir ch) = VDir rel # walk_all rel ch"
| "walk_all rel [] = []"
| "walk_all rel ((n, c) # ch) = walk (join_rel rel n) n c @ walk_all rel ch"

definition walk_root :: "string \<Rightarrow> fs_node option \<Rightarrow> visit list" where
  "walk_root dir t = (case t of None \<Rightarrow> [VFail ''.'' NotExist] | Some node \<Rightarrow> walk ''.'' (path_base dir) node)"

text \<open>The name of a visited entry that is not a directory.\<close>

fun leaf_name :: "visit \<Rightarrow> string option" where
  "leaf_name (VFile rel n i) = Some n"
| "leaf_name (VSpecial rel n s) = Some n"
| "leaf_name (VGone rel n e) = Some n"
| "leaf_name v = None"

lemma join_rel_not_dot: "n \<noteq> [] \<Longrightarrow> n \<noteq> ''.'' \<Longrightarrow> join_rel rel n \<noteq> ''.''"
  by (auto simp: join_rel_def append_eq_Cons_conv)

end
