(* ===== verification/ArcadeStore.thy ===== *)
theory ArcadeStore
  imports FileTree
begin

text \<open>
  internal/store/store.go of pkgs/arcade-webapp: the tables of its SQLite database and the statements run
  on them. A table is a list of rows in the order of insertion; a statement is what SQLite documents for
  it, with the foreign keys of the schema (an insert below a missing system fails, a deleted row takes
  its children along). A method that runs several statements does so in one transaction, so None stands
  for an error and leaves the tables as they were. Time stamps are instants: the fixed-width layout of
  the code sorts them the same way. Reads of single columns are the record's fields.
\<close>

section \<open>Tables\<close>

datatype source = SourceCatalogue | SourceExo

record system_row =
  sr_key :: string
  sr_collection :: string
  sr_bucket :: string
  sr_core :: string
  sr_emulator :: string
  sr_sky :: string
  sr_torrent :: string
  sr_extensions :: string
  sr_order :: int
  sr_source :: source

datatype verify_state = VUnknown | VVerified | VUnmatched

record game =
  gm_id :: nat
  gm_system :: string
  gm_rel :: string
  gm_size :: nat
  gm_first :: instant
  gm_last :: instant
  gm_hidden :: bool
  gm_state :: verify_state
  gm_desc_flag :: bool
  gm_cover_flag :: bool
  gm_crc :: "string option"
  gm_sha :: "string option"
  gm_description :: string
  gm_release :: string
  gm_developer :: string
  gm_publisher :: string
  gm_genre :: string
  gm_rating :: string
  gm_title :: string

record game_row =
  gr_rel :: string
  gr_size :: nat
  gr_title :: string

record dat_info =
  di_system :: string
  di_filename :: string
  di_name :: string
  di_version :: string
  di_date :: string
  di_roms :: nat
  di_size :: nat
  di_mtime :: instant

record dat_version =
  dv_system :: string
  dv_commit :: string
  dv_sha :: string
  dv_roms :: nat
  dv_name :: string
  dv_version :: string
  dv_date :: string
  dv_fetched :: instant

record verify_result =
  vr_system :: string
  vr_run :: nat
  vr_finished :: instant
  vr_dat_games :: nat
  vr_found :: nat
  vr_missing :: nat
  vr_unmatched :: nat
  vr_duplicate :: nat
  vr_other :: nat
  vr_extra :: nat
  vr_artifacts :: nat
  vr_promoted :: nat
  vr_unchecked :: bool
  vr_report :: string

datatype run_status = Running | RunOk | RunError

record run =
  rn_id :: nat
  rn_kind :: string
  rn_started :: instant
  rn_finished :: "instant option"
  rn_status :: run_status
  rn_detail :: string

record staging_row =
  sg_system :: string
  sg_files :: nat
  sg_bytes :: nat
  sg_in_flight :: bool

record inventory_row =
  iv_system :: string
  iv_count :: int
  iv_size :: int
  iv_generated :: string

record collection =
  cl_id :: nat
  cl_name :: string
  cl_short :: string
  cl_summary :: string
  cl_created :: instant
  cl_updated :: instant

record member =
  mb_collection :: nat
  mb_game :: nat
  mb_added :: instant
  mb_position :: nat

record store =
  st_systems :: "system_row list"
  st_games :: "game list"
  st_next_game :: nat
  st_dat :: "dat_info list"
  st_versions :: "dat_version list"
  st_coverage :: "(string \<times> nat) list"
  st_inventory :: "inventory_row list"
  st_verify :: "verify_result list"
  st_unmatched :: "(nat \<times> string \<times> string) list"
  st_staging :: "staging_row list"
  st_runs :: "run list"
  st_next_run :: nat
  st_collections :: "collection list"
  st_next_collection :: nat
  st_members :: "member list"
  st_meta :: "(string \<times> string) list"

definition empty_store :: store where
  "empty_store = \<lparr>st_systems = [], st_games = [], st_next_game = 1, st_dat = [], st_versions = [], st_coverage = [],
     st_inventory = [], st_verify = [], st_unmatched = [], st_staging = [], st_runs = [], st_next_run = 1,
     st_collections = [], st_next_collection = 1, st_members = [], st_meta = []\<rparr>"

definition update_where :: "('a \<Rightarrow> bool) \<Rightarrow> ('a \<Rightarrow> 'a) \<Rightarrow> 'a list \<Rightarrow> 'a list" where
  "update_where P f xs = map (\<lambda>x. if P x then f x else x) xs"

text \<open>\<open>INSERT ... ON CONFLICT(key) DO UPDATE\<close> that replaces the row.\<close>

definition upsert :: "('a \<Rightarrow> 'k) \<Rightarrow> 'a \<Rightarrow> 'a list \<Rightarrow> 'a list" where
  "upsert key x xs = (if list_ex (\<lambda>y. key y = key x) xs then update_where (\<lambda>y. key y = key x) (\<lambda>_. x) xs else xs @ [x])"

definition known_system :: "string \<Rightarrow> store \<Rightarrow> bool" where
  "known_system k st \<longleftrightarrow> list_ex (\<lambda>s. sr_key s = k) (st_systems st)"

section \<open>Systems\<close>

definition buckets :: "string list" where
  "buckets = [''cartridge'', ''optical'', ''modern'', ''exo'']"

record roots =
  rt_cartridge :: string
  rt_optical :: string
  rt_modern :: string

definition bucket_root :: "roots \<Rightarrow> string \<Rightarrow> string" where
  "bucket_root rt b = (if b = ''optical'' then rt_optical rt else if b = ''modern'' then rt_modern rt else rt_cartridge rt)"

definition delete_games :: "(game \<Rightarrow> bool) \<Rightarrow> store \<Rightarrow> store" where
  "delete_games P st = (let gone = map gm_id (filter P (st_games st))
     in st\<lparr>st_games := filter (\<lambda>g. \<not> P g) (st_games st),
          st_members := filter (\<lambda>m. mb_game m \<notin> set gone) (st_members st)\<rparr>)"

definition delete_systems :: "(system_row \<Rightarrow> bool) \<Rightarrow> store \<Rightarrow> store" where
  "delete_systems P st =
    (let gone = map sr_key (filter P (st_systems st));
         st1 = delete_games (\<lambda>g. gm_system g \<in> set gone) st
     in st1\<lparr>st_systems := filter (\<lambda>s. \<not> P s) (st_systems st1),
          st_dat := filter (\<lambda>d. di_system d \<notin> set gone) (st_dat st1),
          st_coverage := filter (\<lambda>c. fst c \<notin> set gone) (st_coverage st1),
          st_inventory := filter (\<lambda>i. iv_system i \<notin> set gone) (st_inventory st1),
          st_verify := filter (\<lambda>v. vr_system v \<notin> set gone) (st_verify st1),
          st_unmatched := filter (\<lambda>u. fst (snd u) \<notin> set gone) (st_unmatched st1),
          st_staging := filter (\<lambda>t. sg_system t \<notin> set gone) (st_staging st1)\<rparr>)"

definition upsert_system :: "system_row \<Rightarrow> store \<Rightarrow> store option" where
  "upsert_system r st = (if sr_bucket r \<in> set buckets then Some (st\<lparr>st_systems := upsert sr_key r (st_systems st)\<rparr>) else None)"

fun upsert_rows :: "system_row list \<Rightarrow> store \<Rightarrow> store option" where
  "upsert_rows [] st = Some st"
| "upsert_rows (r # rs) st = (case upsert_system r st of None \<Rightarrow> None | Some st1 \<Rightarrow> upsert_rows rs st1)"

definition upsert_systems :: "system_row list \<Rightarrow> store \<Rightarrow> store option" where
  "upsert_systems rows st = (case upsert_rows rows st of None \<Rightarrow> None
    | Some st1 \<Rightarrow> Some (delete_systems (\<lambda>s. sr_source s \<noteq> SourceExo \<and> sr_key s \<notin> set (map sr_key rows)) st1))"

definition upsert_exo_system :: "system_row \<Rightarrow> store \<Rightarrow> store option" where
  "upsert_exo_system r st = upsert_system (r\<lparr>sr_source := SourceExo\<rparr>) st"

definition system_of :: "string \<Rightarrow> store \<Rightarrow> system_row option" where
  "system_of k st = find (\<lambda>s. sr_key s = k) (st_systems st)"

definition system_less :: "system_row \<Rightarrow> system_row \<Rightarrow> bool" where
  "system_less a b \<longleftrightarrow> sr_order a < sr_order b \<or> sr_order a = sr_order b \<and> sr_key a < sr_key b"

definition systems :: "store \<Rightarrow> system_row list" where
  "systems st = sort_stable system_less (st_systems st)"

section \<open>Games\<close>

definition is_game :: "string \<Rightarrow> string \<Rightarrow> game \<Rightarrow> bool" where
  "is_game key rel g \<longleftrightarrow> gm_system g = key \<and> gm_rel g = rel"

definition new_game :: "nat \<Rightarrow> string \<Rightarrow> game_row \<Rightarrow> instant \<Rightarrow> game" where
  "new_game i key r ts = \<lparr>gm_id = i, gm_system = key, gm_rel = gr_rel r, gm_size = gr_size r, gm_first = ts, gm_last = ts,
     gm_hidden = False, gm_state = VUnknown, gm_desc_flag = False, gm_cover_flag = False, gm_crc = None, gm_sha = None,
     gm_description = [], gm_release = [], gm_developer = [], gm_publisher = [], gm_genre = [], gm_rating = [],
     gm_title = gr_title r\<rparr>"

definition touch_game :: "game_row \<Rightarrow> instant \<Rightarrow> game \<Rightarrow> game" where
  "touch_game r ts g = g\<lparr>gm_size := gr_size r, gm_last := ts,
     gm_title := (if gr_title r \<noteq> [] then gr_title r else gm_title g)\<rparr>"

definition upsert_game :: "string \<Rightarrow> instant \<Rightarrow> game_row \<Rightarrow> store \<Rightarrow> store" where
  "upsert_game key ts r st =
    (if list_ex (is_game key (gr_rel r)) (st_games st)
     then st\<lparr>st_games := update_where (is_game key (gr_rel r)) (touch_game r ts) (st_games st)\<rparr>
     else st\<lparr>st_games := st_games st @ [new_game (st_next_game st) key r ts], st_next_game := Suc (st_next_game st)\<rparr>)"

definition replace_system_games :: "string \<Rightarrow> game_row list \<Rightarrow> instant \<Rightarrow> store \<Rightarrow> store option" where
  "replace_system_games key rows ts st =
    (if rows \<noteq> [] \<and> \<not> known_system key st then None
     else Some (delete_games (\<lambda>g. gm_system g = key \<and> gm_last g < ts) (fold (upsert_game key ts) rows st)))"

definition map_games :: "(game \<Rightarrow> bool) \<Rightarrow> (game \<Rightarrow> game) \<Rightarrow> store \<Rightarrow> store" where
  "map_games P f st = st\<lparr>st_games := update_where P f (st_games st)\<rparr>"

definition set_system_verify_states :: "string \<Rightarrow> string list \<Rightarrow> store \<Rightarrow> store" where
  "set_system_verify_states key rels st =
    fold (\<lambda>rel. map_games (is_game key rel) (\<lambda>g. g\<lparr>gm_state := VVerified\<rparr>)) rels
      (map_games (\<lambda>g. gm_system g = key) (\<lambda>g. g\<lparr>gm_state := VUnmatched\<rparr>) st)"

definition set_system_cover_flags :: "string \<Rightarrow> string list \<Rightarrow> store \<Rightarrow> store" where
  "set_system_cover_flags key rels st =
    fold (\<lambda>rel. map_games (is_game key rel) (\<lambda>g. g\<lparr>gm_cover_flag := True\<rparr>)) rels
      (map_games (\<lambda>g. gm_system g = key) (\<lambda>g. g\<lparr>gm_cover_flag := False\<rparr>) st)"

record scrape_flag =
  sf_rel :: string
  sf_desc :: bool
  sf_cover :: bool

definition set_system_scrape_flags :: "string \<Rightarrow> scrape_flag list \<Rightarrow> store \<Rightarrow> store" where
  "set_system_scrape_flags key fs st =
    fold (\<lambda>f. map_games (is_game key (sf_rel f)) (\<lambda>g. g\<lparr>gm_desc_flag := sf_desc f, gm_cover_flag := sf_cover f\<rparr>)) fs
      (map_games (\<lambda>g. gm_system g = key) (\<lambda>g. g\<lparr>gm_desc_flag := False, gm_cover_flag := False\<rparr>) st)"

record checksum =
  ck_rel :: string
  ck_crc :: string
  ck_sha :: string

definition set_game_checksums :: "string \<Rightarrow> checksum list \<Rightarrow> store \<Rightarrow> store" where
  "set_game_checksums key cks st =
    fold (\<lambda>c. map_games (is_game key (ck_rel c))
      (\<lambda>g. g\<lparr>gm_crc := (if ck_crc c \<noteq> [] then Some (ck_crc c) else gm_crc g),
             gm_sha := (if ck_sha c \<noteq> [] then Some (ck_sha c) else gm_sha g)\<rparr>)) cks st"

record game_meta =
  gt_rel :: string
  gt_description :: string
  gt_release :: string
  gt_developer :: string
  gt_publisher :: string
  gt_genre :: string
  gt_rating :: string

definition keep_if_empty :: "string \<Rightarrow> string \<Rightarrow> string" where
  "keep_if_empty new old = (if new \<noteq> [] then new else old)"

definition set_game_meta :: "string \<Rightarrow> game_meta list \<Rightarrow> store \<Rightarrow> store" where
  "set_game_meta key ms st =
    fold (\<lambda>m. map_games (is_game key (gt_rel m))
      (\<lambda>g. g\<lparr>gm_description := keep_if_empty (gt_description m) (gm_description g),
             gm_release := keep_if_empty (gt_release m) (gm_release g),
             gm_developer := keep_if_empty (gt_developer m) (gm_developer g),
             gm_publisher := keep_if_empty (gt_publisher m) (gm_publisher g),
             gm_genre := keep_if_empty (gt_genre m) (gm_genre g),
             gm_rating := keep_if_empty (gt_rating m) (gm_rating g)\<rparr>)) ms st"

definition set_game_hidden :: "string \<Rightarrow> string \<Rightarrow> bool \<Rightarrow> store \<Rightarrow> store" where
  "set_game_hidden key rel h st = map_games (is_game key rel) (\<lambda>g. g\<lparr>gm_hidden := h\<rparr>) st"

definition set_system_hidden_all :: "string \<Rightarrow> bool \<Rightarrow> store \<Rightarrow> nat \<times> store" where
  "set_system_hidden_all key h st =
    (let P = (\<lambda>g. gm_system g = key \<and> gm_hidden g \<noteq> h)
     in (length (filter P (st_games st)), map_games P (\<lambda>g. g\<lparr>gm_hidden := h\<rparr>) st))"

definition rel_less :: "game \<Rightarrow> game \<Rightarrow> bool" where
  "rel_less a b \<longleftrightarrow> gm_rel a < gm_rel b"

definition games_missing_sha1 :: "string \<Rightarrow> store \<Rightarrow> string list" where
  "games_missing_sha1 key st =
    map gm_rel (sort_stable rel_less (filter (\<lambda>g. gm_system g = key \<and> gm_sha g = None) (st_games st)))"

definition system_games_with_meta :: "string \<Rightarrow> store \<Rightarrow> game list" where
  "system_games_with_meta key st =
    sort_stable rel_less (filter (\<lambda>g. gm_system g = key \<and> \<not> gm_hidden g) (st_games st))"

definition get_game :: "string \<Rightarrow> nat \<Rightarrow> store \<Rightarrow> (game \<times> system_row) option" where
  "get_game key i st = (case find (\<lambda>g. gm_system g = key \<and> gm_id g = i) (st_games st) of None \<Rightarrow> None
    | Some g \<Rightarrow> (case system_of (gm_system g) st of None \<Rightarrow> None | Some s \<Rightarrow> Some (g, s)))"

section \<open>The other tables\<close>

definition set_dat_info :: "dat_info \<Rightarrow> store \<Rightarrow> store option" where
  "set_dat_info d st = (if known_system (di_system d) st then Some (st\<lparr>st_dat := upsert di_system d (st_dat st)\<rparr>) else None)"

definition append_dat_version :: "dat_version \<Rightarrow> store \<Rightarrow> store" where
  "append_dat_version v st = st\<lparr>st_versions := st_versions st @ [v]\<rparr>"

definition dat_versions :: "string \<Rightarrow> int \<Rightarrow> store \<Rightarrow> dat_version list" where
  "dat_versions key n st = (let vs = rev (filter (\<lambda>v. dv_system v = key) (st_versions st))
     in if 0 < n then take (nat n) vs else vs)"

definition newest_dat_version :: "string \<Rightarrow> store \<Rightarrow> dat_version option" where
  "newest_dat_version key st = (case dat_versions key 1 st of [] \<Rightarrow> None | v # _ \<Rightarrow> Some v)"

definition set_scrape_coverage :: "string \<Rightarrow> nat \<Rightarrow> store \<Rightarrow> store option" where
  "set_scrape_coverage key n st = (if known_system key st then Some (st\<lparr>st_coverage := upsert fst (key, n) (st_coverage st)\<rparr>) else None)"

definition replace_inventory :: "inventory_row list \<Rightarrow> store \<Rightarrow> store option" where
  "replace_inventory rows st =
    (if list_all (\<lambda>r. known_system (iv_system r) st) rows \<and> distinct (map iv_system rows)
     then Some (st\<lparr>st_inventory := rows\<rparr>) else None)"

definition replace_staging :: "staging_row list \<Rightarrow> store \<Rightarrow> store option" where
  "replace_staging rows st =
    (if list_all (\<lambda>r. known_system (sg_system r) st) rows \<and> distinct (map sg_system rows)
     then Some (st\<lparr>st_staging := rows\<rparr>) else None)"

definition record_verify_result :: "verify_result \<Rightarrow> store \<Rightarrow> store option" where
  "record_verify_result r st = (if known_system (vr_system r) st
     then Some (st\<lparr>st_verify := upsert vr_system r (st_verify st)\<rparr>) else None)"

definition record_verify_unmatched :: "string \<Rightarrow> nat \<Rightarrow> string list \<Rightarrow> store \<Rightarrow> store option" where
  "record_verify_unmatched key rid fs st = (if fs \<noteq> [] \<and> \<not> known_system key st then None
     else Some (st\<lparr>st_unmatched := filter (\<lambda>u. fst (snd u) \<noteq> key) (st_unmatched st) @ map (\<lambda>f. (rid, key, f)) fs\<rparr>))"

definition verify_unmatched :: "nat \<Rightarrow> string \<Rightarrow> store \<Rightarrow> string list" where
  "verify_unmatched rid key st =
    sort_stable (<) (map (snd \<circ> snd) (filter (\<lambda>u. fst u = rid \<and> fst (snd u) = key) (st_unmatched st)))"

definition set_meta :: "string \<Rightarrow> string \<Rightarrow> store \<Rightarrow> store" where
  "set_meta k v st = st\<lparr>st_meta := upsert fst (k, v) (st_meta st)\<rparr>"

definition get_meta :: "string \<Rightarrow> store \<Rightarrow> string" where
  "get_meta k st = mget [] (map_of (st_meta st)) k"

section \<open>Runs\<close>

definition start_run :: "string \<Rightarrow> instant \<Rightarrow> store \<Rightarrow> nat \<times> store" where
  "start_run kind tm st = (st_next_run st, st\<lparr>st_runs := st_runs st @ [\<lparr>rn_id = st_next_run st, rn_kind = kind,
     rn_started = tm, rn_finished = None, rn_status = Running, rn_detail = []\<rparr>], st_next_run := Suc (st_next_run st)\<rparr>)"

definition finish_run :: "nat \<Rightarrow> run_status \<Rightarrow> string \<Rightarrow> instant \<Rightarrow> store \<Rightarrow> store" where
  "finish_run i status detail tm st = st\<lparr>st_runs := update_where (\<lambda>r. rn_id r = i)
     (\<lambda>r. r\<lparr>rn_finished := Some tm, rn_status := status, rn_detail := detail\<rparr>) (st_runs st)\<rparr>"

definition fail_orphaned_runs :: "string \<Rightarrow> instant \<Rightarrow> store \<Rightarrow> nat \<times> store" where
  "fail_orphaned_runs detail tm st =
    (length (filter (\<lambda>r. rn_status r = Running) (st_runs st)),
     st\<lparr>st_runs := update_where (\<lambda>r. rn_status r = Running)
       (\<lambda>r. r\<lparr>rn_finished := Some tm, rn_status := RunError, rn_detail := detail\<rparr>) (st_runs st)\<rparr>)"

definition recent_runs :: "nat \<Rightarrow> store \<Rightarrow> run list" where
  "recent_runs n st = take n (rev (st_runs st))"

definition last_run :: "store \<Rightarrow> run option" where
  "last_run st = (case recent_runs 1 st of [] \<Rightarrow> None | r # _ \<Rightarrow> Some r)"

definition runs_by_kind :: "string \<Rightarrow> nat \<Rightarrow> store \<Rightarrow> run list" where
  "runs_by_kind kind n st = take n (rev (filter (\<lambda>r. rn_kind r = kind \<and> rn_finished r \<noteq> None) (st_runs st)))"

section \<open>Collections\<close>

definition short_step :: "char \<Rightarrow> string \<times> bool \<Rightarrow> string \<times> bool" where
  "short_step c st = (case st of (b, dash) \<Rightarrow>
    if is_digit c \<or> 97 \<le> code c \<and> code c \<le> 122 then (b @ (if dash \<and> b \<noteq> [] then ''-'' else []) @ [c], False)
    else (b, True))"

definition collection_shortname :: "string \<Rightarrow> string" where
  "collection_shortname name = (let b = fst (fold short_step (to_lower name) ([], False))
     in if b = [] then ''collection'' else b)"

definition reserved :: "string \<Rightarrow> store \<Rightarrow> bool" where
  "reserved sn st \<longleftrightarrow> list_ex (\<lambda>s. sn = sr_key s \<or> sn = sr_key s @ ''-pending'') (st_systems st)"

datatype store_error = NameRequired | ReservedName | NoFreeShortname | NoSuchGame | NoSuchCollection

definition probe_name :: "string \<Rightarrow> nat \<Rightarrow> string" where
  "probe_name base attempt = (if attempt \<le> 1 then base else base @ ''-'' @ nat_digits attempt)"

definition create_collection :: "string \<Rightarrow> string \<Rightarrow> instant \<Rightarrow> store \<Rightarrow> (store_error + nat) \<times> store" where
  "create_collection name0 summary tm st =
    (let name = trim_space name0; base = collection_shortname name in
     if name = [] then (Inl NameRequired, st)
     else if reserved base st then (Inl ReservedName, st)
     else (case find (\<lambda>a. \<not> list_ex (\<lambda>c. cl_short c = probe_name base a) (st_collections st)) [1..<101] of
         None \<Rightarrow> (Inl NoFreeShortname, st)
       | Some a \<Rightarrow> (Inr (st_next_collection st),
           st\<lparr>st_collections := st_collections st @ [\<lparr>cl_id = st_next_collection st, cl_name = name,
                cl_short = probe_name base a, cl_summary = trim_space summary, cl_created = tm, cl_updated = tm\<rparr>],
              st_next_collection := Suc (st_next_collection st)\<rparr>)))"

definition update_collection :: "nat \<Rightarrow> string \<Rightarrow> string \<Rightarrow> instant \<Rightarrow> store \<Rightarrow> store_error option \<times> store" where
  "update_collection i name0 summary tm st =
    (let name = trim_space name0 in
     if name = [] then (Some NameRequired, st)
     else if reserved (collection_shortname name) st then (Some ReservedName, st)
     else (None, st\<lparr>st_collections := update_where (\<lambda>c. cl_id c = i)
       (\<lambda>c. c\<lparr>cl_name := name, cl_summary := trim_space summary, cl_updated := tm\<rparr>) (st_collections st)\<rparr>))"

definition delete_collection :: "nat \<Rightarrow> store \<Rightarrow> store" where
  "delete_collection i st = st\<lparr>st_collections := filter (\<lambda>c. cl_id c \<noteq> i) (st_collections st),
     st_members := filter (\<lambda>m. mb_collection m \<noteq> i) (st_members st)\<rparr>"

definition touch_collection :: "nat \<Rightarrow> instant \<Rightarrow> store \<Rightarrow> store" where
  "touch_collection i tm st = st\<lparr>st_collections := update_where (\<lambda>c. cl_id c = i) (\<lambda>c. c\<lparr>cl_updated := tm\<rparr>) (st_collections st)\<rparr>"

definition add_collection_game :: "nat \<Rightarrow> string \<Rightarrow> nat \<Rightarrow> instant \<Rightarrow> store \<Rightarrow> store_error option \<times> store" where
  "add_collection_game i key g tm st =
    (if \<not> list_ex (\<lambda>x. gm_id x = g \<and> gm_system x = key) (st_games st) then (Some NoSuchGame, st)
     else if list_ex (\<lambda>m. mb_collection m = i \<and> mb_game m = g) (st_members st) then (None, touch_collection i tm st)
     else if \<not> list_ex (\<lambda>c. cl_id c = i) (st_collections st) then (Some NoSuchCollection, st)
     else (None, touch_collection i tm (st\<lparr>st_members := st_members st @
            [\<lparr>mb_collection = i, mb_game = g, mb_added = tm, mb_position = 0\<rparr>]\<rparr>)))"

definition remove_collection_game :: "nat \<Rightarrow> string \<Rightarrow> nat \<Rightarrow> instant \<Rightarrow> store \<Rightarrow> store" where
  "remove_collection_game i key g tm st =
    (let st1 = (if list_ex (\<lambda>x. gm_id x = g \<and> gm_system x = key) (st_games st)
        then st\<lparr>st_members := filter (\<lambda>m. \<not> (mb_collection m = i \<and> mb_game m = g)) (st_members st)\<rparr> else st)
     in touch_collection i tm st1)"

definition member_less :: "member \<times> game \<Rightarrow> member \<times> game \<Rightarrow> bool" where
  "member_less a b \<longleftrightarrow> (let (m, g) = a; (m', g') = b in
     mb_position m < mb_position m' \<or> mb_position m = mb_position m' \<and>
       (gm_system g < gm_system g' \<or> gm_system g = gm_system g' \<and> gm_rel g < gm_rel g'))"

definition collection_members :: "nat \<Rightarrow> store \<Rightarrow> (member \<times> game) list" where
  "collection_members i st = sort_stable member_less (List.map_filter
     (\<lambda>m. map_option (Pair m) (find (\<lambda>g. gm_id g = mb_game m) (st_games st)))
     (filter (\<lambda>m. mb_collection m = i) (st_members st)))"

end
