(* ===== verification/StoreSpec.thy ===== *)
theory StoreSpec
  imports ArcadeStore
begin

text \<open>
  The invariant of the tables of the arcade store: keys are unique, no row refers to a missing system,
  game or collection, and identifiers are never reused. Every method keeps it. Then what a rescan does
  to the games of its system and to everything else.
\<close>

section \<open>The invariant\<close>

definition system_keys :: "store \<Rightarrow> string set" where
  "system_keys st = sr_key ` set (st_systems st)"

lemma known_system_iff [simp]: "known_system k st \<longleftrightarrow> k \<in> system_keys st"
  by (auto simp: known_system_def system_keys_def list_ex_iff)

definition below_systems :: "store \<Rightarrow> bool" where
  "below_systems st \<longleftrightarrow> gm_system ` set (st_games st) \<subseteq> system_keys st \<and> di_system ` set (st_dat st) \<subseteq> system_keys st \<and>
     fst ` set (st_coverage st) \<subseteq> system_keys st \<and> iv_system ` set (st_inventory st) \<subseteq> system_keys st \<and>
     vr_system ` set (st_verify st) \<subseteq> system_keys st \<and> (fst \<circ> snd) ` set (st_unmatched st) \<subseteq> system_keys st \<and>
     sg_system ` set (st_staging st) \<subseteq> system_keys st"

definition game_key :: "game \<Rightarrow> string \<times> string" where
  "game_key g = (gm_system g, gm_rel g)"

definition unique_keys :: "store \<Rightarrow> bool" where
  "unique_keys st \<longleftrightarrow> distinct (map sr_key (st_systems st)) \<and> distinct (map game_key (st_games st)) \<and>
     distinct (map di_system (st_dat st)) \<and> distinct (map fst (st_coverage st)) \<and> distinct (map iv_system (st_inventory st)) \<and>
     distinct (map vr_system (st_verify st)) \<and> distinct (map sg_system (st_staging st)) \<and>
     distinct (map cl_short (st_collections st)) \<and> distinct (map (\<lambda>m. (mb_collection m, mb_game m)) (st_members st))"

definition fresh_ids :: "store \<Rightarrow> bool" where
  "fresh_ids st \<longleftrightarrow> distinct (map gm_id (st_games st)) \<and> gm_id ` set (st_games st) \<subseteq> {..<st_next_game st} \<and>
     distinct (map rn_id (st_runs st)) \<and> rn_id ` set (st_runs st) \<subseteq> {..<st_next_run st} \<and>
     distinct (map cl_id (st_collections st)) \<and> cl_id ` set (st_collections st) \<subseteq> {..<st_next_collection st}"

definition live_members :: "store \<Rightarrow> bool" where
  "live_members st \<longleftrightarrow> mb_collection ` set (st_members st) \<subseteq> cl_id ` set (st_collections st) \<and>
     mb_game ` set (st_members st) \<subseteq> gm_id ` set (st_games st)"

definition wf_store :: "store \<Rightarrow> bool" where
  "wf_store st \<longleftrightarrow> below_systems st \<and> unique_keys st \<and> fresh_ids st \<and> live_members st"

lemmas wf_store_defs = wf_store_def below_systems_def unique_keys_def fresh_ids_def live_members_def

lemma wf_empty: "wf_store empty_store"
  by (simp add: wf_store_defs empty_store_def)

section \<open>Generic steps\<close>

lemma map_update_where [simp]: "(\<And>x. P x \<Longrightarrow> k (f x) = k x) \<Longrightarrow> map k (update_where P f xs) = map k xs"
  by (simp add: update_where_def)

lemma image_update_where [simp]: "(\<And>x. P x \<Longrightarrow> k (f x) = k x) \<Longrightarrow> k ` set (update_where P f xs) = k ` set xs"
  by (metis map_update_where set_map)

lemma map_upsert: "map key (upsert key x xs) = (if key x \<in> key ` set xs then map key xs else map key xs @ [key x])"
proof -
  have "list_ex (\<lambda>y. key y = key x) xs \<longleftrightarrow> key x \<in> key ` set xs" unfolding list_ex_iff image_iff by metis
  then show ?thesis by (auto simp: upsert_def update_where_def)
qed

lemma distinct_upsert: "distinct (map key xs) \<Longrightarrow> distinct (map key (upsert key x xs))"
  by (simp add: map_upsert)

lemma image_upsert: "key ` set (upsert key x xs) = insert (key x) (key ` set xs)"
proof -
  have "set (map key (upsert key x xs)) = insert (key x) (key ` set xs)" by (auto simp: map_upsert)
  then show ?thesis by simp
qed

lemma distinct_map_filter: "distinct (map k xs) \<Longrightarrow> distinct (map k (filter P xs))"
  by (induction xs) (auto simp: image_iff)

lemma image_filter_subset: "k ` set xs \<subseteq> A \<Longrightarrow> k ` set (filter P xs) \<subseteq> A"
  by auto

section \<open>Every method keeps it\<close>

lemma wf_map_games [inv_intros]:
  assumes "wf_store st" "\<And>g. gm_id (f g) = gm_id g" "\<And>g. gm_system (f g) = gm_system g" "\<And>g. gm_rel (f g) = gm_rel g"
  shows "wf_store (map_games P f st)"
  using assms by (simp add: wf_store_defs map_games_def system_keys_def game_key_def)

lemma wf_fold: "(\<And>x st. wf_store st \<Longrightarrow> wf_store (f x st)) \<Longrightarrow> wf_store st \<Longrightarrow> wf_store (fold f xs st)"
  by (induction xs arbitrary: st) simp_all

lemma wf_flag_ops [inv_intros]:
  assumes "wf_store st"
  shows "wf_store (set_system_verify_states key rels st)" "wf_store (set_system_cover_flags key rels st)"
    "wf_store (set_system_scrape_flags key fs st)" "wf_store (set_game_checksums key cks st)"
    "wf_store (set_game_meta key ms st)" "wf_store (set_game_hidden key rel h st)"
    "wf_store (snd (set_system_hidden_all key h st))"
  unfolding set_system_verify_states_def set_system_cover_flags_def set_system_scrape_flags_def set_game_checksums_def
    set_game_meta_def set_game_hidden_def set_system_hidden_all_def Let_def snd_conv
  by (intro wf_fold wf_map_games assms; simp)+

lemma wf_delete_games [inv_intros]:
  assumes "wf_store st"
  shows "wf_store (delete_games P st)"
proof -
  have "mb_game m \<in> gm_id ` {g \<in> set (st_games st). \<not> P g}"
    if m: "m \<in> set (st_members st)" "mb_game m \<notin> gm_id ` {g \<in> set (st_games st). P g}" for m
  proof -
    obtain g where "g \<in> set (st_games st)" "gm_id g = mb_game m"
      using assms m(1) by (auto simp: wf_store_defs)
    then show ?thesis using m(2) by force
  qed
  then have "live_members (delete_games P st)"
    using assms by (auto simp: wf_store_defs delete_games_def Let_def)
  moreover have "below_systems (delete_games P st)" "unique_keys (delete_games P st)" "fresh_ids (delete_games P st)"
    using assms by (auto simp: wf_store_defs delete_games_def Let_def system_keys_def distinct_map_filter)
  ultimately show ?thesis by (simp add: wf_store_def)
qed

lemma wf_delete_systems [inv_intros]:
  assumes "wf_store st"
  shows "wf_store (delete_systems P st)"
proof -
  define gone where "gone = map sr_key (filter P (st_systems st))"
  define st1 where "st1 = delete_games (\<lambda>g. gm_system g \<in> set gone) st"
  have wf1: "wf_store st1" unfolding st1_def by (rule wf_delete_games [OF assms])
  have sys1: "st_systems st1 = st_systems st" by (simp add: st1_def delete_games_def Let_def)
  have games1: "gm_system g \<notin> set gone" if "g \<in> set (st_games st1)" for g
    using that by (auto simp: st1_def delete_games_def Let_def)
  have keys: "system_keys st1 - set gone \<subseteq> sr_key ` set (filter (\<lambda>s. \<not> P s) (st_systems st1))"
    by (auto simp: system_keys_def sys1 gone_def)
  have d: "delete_systems P st = st1\<lparr>st_systems := filter (\<lambda>s. \<not> P s) (st_systems st1),
          st_dat := filter (\<lambda>d. di_system d \<notin> set gone) (st_dat st1),
          st_coverage := filter (\<lambda>c. fst c \<notin> set gone) (st_coverage st1),
          st_inventory := filter (\<lambda>i. iv_system i \<notin> set gone) (st_inventory st1),
          st_verify := filter (\<lambda>v. vr_system v \<notin> set gone) (st_verify st1),
          st_unmatched := filter (\<lambda>u. fst (snd u) \<notin> set gone) (st_unmatched st1),
          st_staging := filter (\<lambda>t. sg_system t \<notin> set gone) (st_staging st1)\<rparr>"
    by (simp add: delete_systems_def st1_def gone_def Let_def)
  define K where "K = sr_key ` set (filter (\<lambda>s. \<not> P s) (st_systems st1))"
  have sub: "k ` set (filter (\<lambda>x. k x \<notin> set gone) xs) \<subseteq> K" if "k ` set xs \<subseteq> system_keys st1" for k and xs :: "'x list"
    using that keys unfolding K_def by auto
  have "gm_system g \<in> K" if g: "g \<in> set (st_games st1)" for g
  proof -
    have "gm_system g \<in> system_keys st1" using wf1 g by (auto simp: wf_store_def below_systems_def)
    with games1 [OF g] keys show ?thesis unfolding K_def by blast
  qed
  then have "gm_system ` set (st_games st1) \<subseteq> K" by blast
  moreover have "system_keys (delete_systems P st) = K" by (simp add: d system_keys_def K_def)
  moreover have "below_systems st1" using wf1 by (simp add: wf_store_def)
  ultimately have "below_systems (delete_systems P st)"
    unfolding below_systems_def by (intro conjI) (simp_all add: d sub sub [of "\<lambda>u. fst (snd u)"] del: set_filter)
  moreover have "unique_keys (delete_systems P st)" "fresh_ids (delete_systems P st)" "live_members (delete_systems P st)"
    using wf1 unfolding d by (simp_all add: wf_store_defs distinct_map_filter)
  ultimately show ?thesis by (simp add: wf_store_def)
qed

lemma wf_upsert_system [inv_intros]:
  assumes "wf_store st" "upsert_system r st = Some st'"
  shows "wf_store st'"
proof -
  have st': "st' = st\<lparr>st_systems := upsert sr_key r (st_systems st)\<rparr>"
    using assms(2) by (simp add: upsert_system_def split: if_splits)
  have "system_keys st \<subseteq> system_keys st'" by (auto simp: st' system_keys_def image_upsert)
  then show ?thesis using assms(1) by (auto simp: wf_store_defs st' distinct_upsert)
qed

lemma wf_upsert_rows: "wf_store st \<Longrightarrow> upsert_rows rs st = Some st' \<Longrightarrow> wf_store st'"
  by (induction rs arbitrary: st) (auto split: option.splits intro: wf_upsert_system)

lemma wf_upsert_systems [inv_intros]: "wf_store st \<Longrightarrow> upsert_systems rows st = Some st' \<Longrightarrow> wf_store st'"
  by (auto simp: upsert_systems_def split: option.splits intro: wf_delete_systems wf_upsert_rows)

lemma wf_upsert_exo [inv_intros]: "wf_store st \<Longrightarrow> upsert_exo_system r st = Some st' \<Longrightarrow> wf_store st'"
  unfolding upsert_exo_system_def by (rule wf_upsert_system)

lemma upsert_game_systems [simp]: "st_systems (upsert_game key ts r st) = st_systems st"
  by (simp add: upsert_game_def)

lemma wf_upsert_game:
  assumes "wf_store st" "key \<in> system_keys st"
  shows "wf_store (upsert_game key ts r st)"
proof (cases "list_ex (is_game key (gr_rel r)) (st_games st)")
  case True
  have "upsert_game key ts r st = map_games (is_game key (gr_rel r)) (touch_game r ts) st"
    by (simp add: upsert_game_def True map_games_def)
  then show ?thesis using wf_map_games [OF assms(1)] by (simp add: touch_game_def)
next
  case False
  then have "(key, gr_rel r) \<notin> game_key ` set (st_games st)" by (auto simp: list_ex_iff is_game_def game_key_def)
  then show ?thesis
    using assms False
    by (auto simp: wf_store_defs upsert_game_def new_game_def game_key_def system_keys_def less_Suc_eq image_subset_iff)
qed

lemma wf_upsert_games:
  "wf_store st \<Longrightarrow> rows = [] \<or> key \<in> system_keys st \<Longrightarrow> wf_store (fold (upsert_game key ts) rows st)"
  by (induction rows arbitrary: st) (auto simp: wf_upsert_game system_keys_def)

lemma wf_replace_games [inv_intros]:
  "wf_store st \<Longrightarrow> replace_system_games key rows ts st = Some st' \<Longrightarrow> wf_store st'"
  by (auto simp: replace_system_games_def split: if_splits intro!: wf_delete_games wf_upsert_games)

lemma wf_child_updates:
  assumes "wf_store st"
  shows "di_system ` set ds \<subseteq> system_keys st \<Longrightarrow> distinct (map di_system ds) \<Longrightarrow> wf_store (st\<lparr>st_dat := ds\<rparr>)"
    "fst ` set cs \<subseteq> system_keys st \<Longrightarrow> distinct (map fst cs) \<Longrightarrow> wf_store (st\<lparr>st_coverage := cs\<rparr>)"
    "iv_system ` set is \<subseteq> system_keys st \<Longrightarrow> distinct (map iv_system is) \<Longrightarrow> wf_store (st\<lparr>st_inventory := is\<rparr>)"
    "sg_system ` set gs \<subseteq> system_keys st \<Longrightarrow> distinct (map sg_system gs) \<Longrightarrow> wf_store (st\<lparr>st_staging := gs\<rparr>)"
    "vr_system ` set vs \<subseteq> system_keys st \<Longrightarrow> distinct (map vr_system vs) \<Longrightarrow> wf_store (st\<lparr>st_verify := vs\<rparr>)"
    "(\<lambda>u. fst (snd u)) ` set us \<subseteq> system_keys st \<Longrightarrow> wf_store (st\<lparr>st_unmatched := us\<rparr>)"
  using assms by (simp_all add: wf_store_defs system_keys_def)

lemma wf_store_keys:
  assumes "wf_store st"
  shows "di_system ` set (st_dat st) \<subseteq> system_keys st" "distinct (map di_system (st_dat st))"
    "fst ` set (st_coverage st) \<subseteq> system_keys st" "distinct (map fst (st_coverage st))"
    "vr_system ` set (st_verify st) \<subseteq> system_keys st" "distinct (map vr_system (st_verify st))"
    "(\<lambda>u. fst (snd u)) ` set (st_unmatched st) \<subseteq> system_keys st"
    "gm_system ` set (st_games st) \<subseteq> system_keys st" "distinct (map game_key (st_games st))"
    "distinct (map gm_id (st_games st))" "distinct (map sr_key (st_systems st))"
  using assms by (simp_all add: wf_store_defs)

lemma wf_child_tables [inv_intros]:
  assumes "wf_store st"
  shows "set_dat_info d st = Some st1 \<Longrightarrow> wf_store st1" "set_scrape_coverage key n st = Some st1 \<Longrightarrow> wf_store st1"
    "replace_inventory ivs st = Some st1 \<Longrightarrow> wf_store st1" "replace_staging sgs st = Some st1 \<Longrightarrow> wf_store st1"
    "record_verify_result r st = Some st1 \<Longrightarrow> wf_store st1" "record_verify_unmatched key i fs st = Some st1 \<Longrightarrow> wf_store st1"
proof -
  note upd = wf_child_updates [OF assms] and keys = wf_store_keys [OF assms]
  show "set_dat_info d st = Some st1 \<Longrightarrow> wf_store st1"
    by (clarsimp simp: set_dat_info_def split: if_splits) (rule upd(1); simp add: image_upsert distinct_upsert keys)
  show "set_scrape_coverage key n st = Some st1 \<Longrightarrow> wf_store st1"
    by (clarsimp simp: set_scrape_coverage_def split: if_splits) (rule upd(2); simp add: image_upsert distinct_upsert keys)
  show "replace_inventory ivs st = Some st1 \<Longrightarrow> wf_store st1"
    by (auto simp: replace_inventory_def list_all_iff split: if_splits intro!: upd(3))
  show "replace_staging sgs st = Some st1 \<Longrightarrow> wf_store st1"
    by (auto simp: replace_staging_def list_all_iff split: if_splits intro!: upd(4))
  show "record_verify_result r st = Some st1 \<Longrightarrow> wf_store st1"
    by (clarsimp simp: record_verify_result_def split: if_splits) (rule upd(5); simp add: image_upsert distinct_upsert keys)
  show "record_verify_unmatched key i fs st = Some st1 \<Longrightarrow> wf_store st1"
    using keys(7) unfolding image_subset_iff
    by (clarsimp simp: record_verify_unmatched_def split: if_splits) (rule upd(6), fastforce)+
qed

lemma wf_logs [inv_intros]:
  assumes "wf_store st"
  shows "wf_store (append_dat_version v st)" "wf_store (set_meta k x st)"
    "wf_store (snd (start_run kind tm st))" "wf_store (finish_run i status detail tm st)"
    "wf_store (snd (fail_orphaned_runs detail tm st))"
proof -
  show "wf_store (append_dat_version v st)" "wf_store (set_meta k x st)"
    using assms by (simp_all add: wf_store_defs system_keys_def append_dat_version_def set_meta_def)
  show "wf_store (finish_run i status detail tm st)" "wf_store (snd (fail_orphaned_runs detail tm st))"
    using assms by (simp_all add: wf_store_defs system_keys_def finish_run_def fail_orphaned_runs_def)
  show "wf_store (snd (start_run kind tm st))"
    using assms by (auto simp: wf_store_defs system_keys_def start_run_def)
qed

lemma probe_name_free: "find (\<lambda>a. \<not> list_ex (\<lambda>c. cl_short c = probe_name base a) cs) as = Some a \<Longrightarrow>
    probe_name base a \<notin> cl_short ` set cs"
  by (auto simp: find_Some_iff list_ex_iff)

lemma wf_touch_collection: "wf_store st \<Longrightarrow> wf_store (touch_collection i tm st)"
  by (simp add: wf_store_defs touch_collection_def system_keys_def)

lemma wf_create_collection [inv_intros]:
  assumes "wf_store st"
  shows "wf_store (snd (create_collection name summary tm st))"
proof -
  have "wf_store (st\<lparr>st_collections := st_collections st @ [c], st_next_collection := Suc (st_next_collection st)\<rparr>)"
    if "cl_short c \<notin> cl_short ` set (st_collections st)" "cl_id c = st_next_collection st" for c
    using assms that by (auto simp: wf_store_defs system_keys_def)
  then show ?thesis
    using assms by (auto simp: create_collection_def Let_def dest!: probe_name_free split: option.split)
qed

lemma wf_edit_collection [inv_intros]:
  assumes "wf_store st"
  shows "wf_store (snd (update_collection i name summary tm st))" "wf_store (delete_collection i st)"
proof -
  show "wf_store (snd (update_collection i name summary tm st))"
    using assms by (simp add: wf_store_defs update_collection_def Let_def system_keys_def)
  have "live_members (delete_collection i st)"
    using assms by (auto simp: wf_store_defs delete_collection_def)
  then show "wf_store (delete_collection i st)"
    using assms by (auto simp: wf_store_defs delete_collection_def system_keys_def distinct_map_filter)
qed

lemma wf_members [inv_intros]:
  assumes "wf_store st"
  shows "wf_store (snd (add_collection_game i key g tm st))" "wf_store (remove_collection_game i key g tm st)"
proof -
  have "wf_store (st\<lparr>st_members := st_members st @ [m]\<rparr>)"
    if "mb_collection m \<in> cl_id ` set (st_collections st)" "mb_game m \<in> gm_id ` set (st_games st)"
      "(mb_collection m, mb_game m) \<notin> (\<lambda>m. (mb_collection m, mb_game m)) ` set (st_members st)" for m
    using assms that by (simp add: wf_store_defs system_keys_def)
  then show "wf_store (snd (add_collection_game i key g tm st))"
    using assms by (force simp: add_collection_game_def list_ex_iff intro!: wf_touch_collection)
  have "wf_store (st\<lparr>st_members := filter P (st_members st)\<rparr>)" for P
    using assms by (auto simp: wf_store_defs system_keys_def distinct_map_filter)
  then show "wf_store (remove_collection_game i key g tm st)"
    using assms by (auto simp: remove_collection_game_def Let_def intro!: wf_touch_collection)
qed

section \<open>Any history of calls\<close>

datatype store_op = UpsertSystems "system_row list" | UpsertExo system_row
  | ReplaceGames string "game_row list" instant | VerifyStates string "string list" | CoverFlags string "string list"
  | ScrapeFlags string "scrape_flag list" | Checksums string "checksum list" | Enrich string "game_meta list"
  | Hide string string bool | HideAll string bool | DatInfo dat_info | DatVersion dat_version
  | Coverage string nat | Inventory "inventory_row list" | Staging "staging_row list"
  | VerifyRow verify_result | Offenders string nat "string list" | MetaValue string string
  | StartRun string instant | FinishRun nat run_status string instant | SweepRuns string instant
  | CreateCollection string string instant | UpdateCollection nat string string instant | DeleteCollection nat
  | AddMember nat string nat instant | RemoveMember nat string nat instant

definition or_same :: "store \<Rightarrow> store option \<Rightarrow> store" where
  "or_same st r = (case r of None \<Rightarrow> st | Some st' \<Rightarrow> st')"

fun store_step :: "store_op \<Rightarrow> store \<Rightarrow> store" where
  "store_step (UpsertSystems rows) st = or_same st (upsert_systems rows st)"
| "store_step (UpsertExo r) st = or_same st (upsert_exo_system r st)"
| "store_step (ReplaceGames key rows ts) st = or_same st (replace_system_games key rows ts st)"
| "store_step (VerifyStates key rels) st = set_system_verify_states key rels st"
| "store_step (CoverFlags key rels) st = set_system_cover_flags key rels st"
| "store_step (ScrapeFlags key fs) st = set_system_scrape_flags key fs st"
| "store_step (Checksums key cks) st = set_game_checksums key cks st"
| "store_step (Enrich key ms) st = set_game_meta key ms st"
| "store_step (Hide key rel h) st = set_game_hidden key rel h st"
| "store_step (HideAll key h) st = snd (set_system_hidden_all key h st)"
| "store_step (DatInfo d) st = or_same st (set_dat_info d st)"
| "store_step (DatVersion v) st = append_dat_version v st"
| "store_step (Coverage key n) st = or_same st (set_scrape_coverage key n st)"
| "store_step (Inventory rows) st = or_same st (replace_inventory rows st)"
| "store_step (Staging rows) st = or_same st (replace_staging rows st)"
| "store_step (VerifyRow r) st = or_same st (record_verify_result r st)"
| "store_step (Offenders key i fs) st = or_same st (record_verify_unmatched key i fs st)"
| "store_step (MetaValue k x) st = set_meta k x st"
| "store_step (StartRun kind tm) st = snd (start_run kind tm st)"
| "store_step (FinishRun i status detail tm) st = finish_run i status detail tm st"
| "store_step (SweepRuns detail tm) st = snd (fail_orphaned_runs detail tm st)"
| "store_step (CreateCollection name summary tm) st = snd (create_collection name summary tm st)"
| "store_step (UpdateCollection i name summary tm) st = snd (update_collection i name summary tm st)"
| "store_step (DeleteCollection i) st = delete_collection i st"
| "store_step (AddMember i key g tm) st = snd (add_collection_game i key g tm st)"
| "store_step (RemoveMember i key g tm) st = remove_collection_game i key g tm st"

lemma wf_or_same: "wf_store st \<Longrightarrow> (\<And>st'. r = Some st' \<Longrightarrow> wf_store st') \<Longrightarrow> wf_store (or_same st r)"
  by (auto simp: or_same_def split: option.split)

lemma wf_store_step: "wf_store st \<Longrightarrow> wf_store (store_step a st)"
  by (cases a) (auto intro!: wf_or_same intro: inv_intros)

interpretation store_runs: invariant_machine store_step wf_store
  by unfold_locales (rule wf_store_step)


section \<open>A rescan\<close>

lemma touch_game_fields [simp]:
  "gm_system (touch_game r ts g) = gm_system g" "gm_rel (touch_game r ts g) = gm_rel g" "gm_id (touch_game r ts g) = gm_id g"
  "gm_last (touch_game r ts g) = ts"
  by (simp_all add: touch_game_def)

lemma is_game_touch [simp]: "is_game key rel (touch_game r ts g) = is_game key rel g"
  by (simp add: is_game_def)

lemma upsert_game_games: "st_games (upsert_game key ts r st) =
    (if list_ex (is_game key (gr_rel r)) (st_games st)
     then map (\<lambda>g. if is_game key (gr_rel r) g then touch_game r ts g else g) (st_games st)
     else st_games st @ [new_game (st_next_game st) key r ts])"
  by (simp add: upsert_game_def update_where_def)

lemma new_game_fields [simp]:
  "gm_system (new_game i key r ts) = key" "gm_rel (new_game i key r ts) = gr_rel r" "gm_last (new_game i key r ts) = ts"
  by (simp_all add: new_game_def)

lemma upsert_game_others: "filter (\<lambda>g. gm_system g \<noteq> key) (st_games (upsert_game key ts r st)) =
    filter (\<lambda>g. gm_system g \<noteq> key) (st_games st)"
proof -
  have "filter (\<lambda>g. gm_system g \<noteq> key) (map (\<lambda>g. if is_game key (gr_rel r) g then touch_game r ts g else g) gs) =
      filter (\<lambda>g. gm_system g \<noteq> key) gs" for gs
    by (induction gs) (auto simp: is_game_def)
  then show ?thesis by (simp add: upsert_game_games)
qed

lemma upsert_games_others: "filter (\<lambda>g. gm_system g \<noteq> key) (st_games (fold (upsert_game key ts) rows st)) =
    filter (\<lambda>g. gm_system g \<noteq> key) (st_games st)"
  by (induction rows arbitrary: st) (simp_all add: upsert_game_others)

lemma upsert_game_mem: "h \<in> set (st_games (upsert_game key ts r st)) \<longleftrightarrow>
    (\<exists>g\<in>set (st_games st). is_game key (gr_rel r) g \<and> h = touch_game r ts g) \<or>
    h \<in> set (st_games st) \<and> \<not> is_game key (gr_rel r) h \<or>
    \<not> list_ex (is_game key (gr_rel r)) (st_games st) \<and> h = new_game (st_next_game st) key r ts"
proof (cases "list_ex (is_game key (gr_rel r)) (st_games st)")
  case True
  then show ?thesis by (auto simp: upsert_game_games)
next
  case False
  then have "\<And>g. g \<in> set (st_games st) \<Longrightarrow> \<not> is_game key (gr_rel r) g" by (auto simp: list_ex_iff)
  then show ?thesis using False by (auto simp: upsert_game_games)
qed

lemma upsert_game_seen: "\<exists>g\<in>set (st_games (upsert_game key ts r st)). is_game key (gr_rel r) g \<and> gm_last g = ts"
proof (cases "list_ex (is_game key (gr_rel r)) (st_games st)")
  case True
  then obtain g where "g \<in> set (st_games st)" "is_game key (gr_rel r) g" by (auto simp: list_ex_iff)
  then have "touch_game r ts g \<in> set (st_games (upsert_game key ts r st))" by (auto simp: upsert_game_mem)
  then show ?thesis using \<open>is_game key (gr_rel r) g\<close> by (intro bexI) simp_all
next
  case False
  then have "new_game (st_next_game st) key r ts \<in> set (st_games (upsert_game key ts r st))" by (simp add: upsert_game_mem)
  then show ?thesis by (intro bexI) (simp_all add: is_game_def)
qed

lemma upsert_game_keeps_seen:
  assumes "g \<in> set (st_games st)" "is_game key rel g" "gm_last g = ts"
  shows "\<exists>g'\<in>set (st_games (upsert_game key ts r st)). is_game key rel g' \<and> gm_last g' = ts"
proof (cases "is_game key (gr_rel r) g")
  case True
  then have "touch_game r ts g \<in> set (st_games (upsert_game key ts r st))" using assms(1) by (auto simp: upsert_game_mem)
  then show ?thesis using assms(2) by (intro bexI) simp_all
next
  case False
  then have "g \<in> set (st_games (upsert_game key ts r st))" using assms(1) by (simp add: upsert_game_mem)
  then show ?thesis using assms(2,3) by blast
qed

lemma upsert_games_keep_seen:
  "\<exists>g\<in>set (st_games st). is_game key rel g \<and> gm_last g = ts \<Longrightarrow>
    \<exists>g\<in>set (st_games (fold (upsert_game key ts) rows st)). is_game key rel g \<and> gm_last g = ts"
proof (induction rows arbitrary: st)
  case (Cons r rs)
  then have "\<exists>g\<in>set (st_games (upsert_game key ts r st)). is_game key rel g \<and> gm_last g = ts"
    using upsert_game_keeps_seen by blast
  then show ?case using Cons.IH by simp
qed simp

lemma upsert_games_seen:
  "r \<in> set rows \<Longrightarrow> \<exists>g\<in>set (st_games (fold (upsert_game key ts) rows st)). is_game key (gr_rel r) g \<and> gm_last g = ts"
proof (induction rows arbitrary: st)
  case (Cons x xs)
  show ?case
  proof (cases "r \<in> set xs")
    case True
    then show ?thesis using Cons.IH by simp
  next
    case False
    then have "r = x" using Cons.prems by simp
    then show ?thesis using upsert_games_keep_seen [OF upsert_game_seen] by simp
  qed
qed simp

lemma upsert_games_old:
  "g \<in> set (st_games (fold (upsert_game key ts) rows st)) \<Longrightarrow> gm_system g = key \<Longrightarrow> gm_last g \<noteq> ts \<or> gm_rel g \<notin> gr_rel ` set rows
    \<Longrightarrow> g \<in> set (st_games st) \<and> gm_rel g \<notin> gr_rel ` set rows"
proof (induction rows arbitrary: st)
  case (Cons r rs)
  let ?st1 = "upsert_game key ts r st"
  have step: "h \<in> set (st_games st) \<and> gm_rel h \<noteq> gr_rel r \<or> gm_last h = ts \<and> gm_rel h = gr_rel r"
    if "h \<in> set (st_games ?st1)" "gm_system h = key" for h
    using that unfolding upsert_game_mem is_game_def by (elim disjE bexE conjE) simp_all
  have in_fold: "g \<in> set (st_games (fold (upsert_game key ts) rs ?st1))" using Cons.prems(1) by simp
  show ?case
  proof (cases "gm_last g \<noteq> ts \<or> gm_rel g \<notin> gr_rel ` set rs")
    case True
    with Cons.IH [OF in_fold Cons.prems(2)] step [OF _ Cons.prems(2)] Cons.prems(3) show ?thesis by auto
  next
    case False
    with Cons.prems(3) show ?thesis by auto
  qed
qed simp

lemma upsert_game_other_rel: "g \<in> set (st_games st) \<Longrightarrow> \<not> is_game key (gr_rel r) g \<Longrightarrow> g \<in> set (st_games (upsert_game key ts r st))"
  by (simp add: upsert_game_mem)

lemma upsert_games_other_rel:
  "g \<in> set (st_games st) \<Longrightarrow> gm_rel g \<notin> gr_rel ` set rows \<Longrightarrow> g \<in> set (st_games (fold (upsert_game key ts) rows st))"
proof (induction rows arbitrary: st)
  case (Cons r rs)
  then show ?case using upsert_game_other_rel [of g st key r ts] by (simp add: is_game_def)
qed simp

lemma upsert_games_touch:
  assumes "distinct (map gr_rel rows)" "r \<in> set rows" "g \<in> set (st_games st)" "is_game key (gr_rel r) g"
  shows "touch_game r ts g \<in> set (st_games (fold (upsert_game key ts) rows st))"
  using assms
proof (induction rows arbitrary: st)
  case (Cons x xs)
  show ?case
  proof (cases "r = x")
    case True
    have "touch_game r ts g \<in> set (st_games (upsert_game key ts r st))"
      using Cons.prems(3,4) True by (auto simp: upsert_game_mem)
    then show ?thesis using True Cons.prems(1,4) by (auto simp: is_game_def intro!: upsert_games_other_rel)
  next
    case False
    then have "gr_rel r \<noteq> gr_rel x" using Cons.prems(1,2) by (metis distinct.simps(2) image_eqI list.simps(9) set_ConsD set_map)
    then have "\<not> is_game key (gr_rel x) g" using Cons.prems(4) by (simp add: is_game_def)
    with Cons False show ?thesis by (simp add: upsert_game_other_rel)
  qed
qed simp

lemma replace_games_rows: "replace_system_games key rows ts st = Some st' \<Longrightarrow>
    st_games st' = filter (\<lambda>g. \<not> (gm_system g = key \<and> gm_last g < ts)) (st_games (fold (upsert_game key ts) rows st))"
  by (auto simp: replace_system_games_def delete_games_def Let_def split: if_splits)

lemma replace_games_others:
  assumes "replace_system_games key rows ts st = Some st'"
  shows "filter (\<lambda>g. gm_system g \<noteq> key) (st_games st') = filter (\<lambda>g. gm_system g \<noteq> key) (st_games st)"
  unfolding upsert_games_others [symmetric, of key st ts rows] replace_games_rows [OF assms] filter_filter
  by (rule filter_cong) auto


definition sample_system :: system_row where
  "sample_system = \<lparr>sr_key = ''nes'', sr_collection = ''NES'', sr_bucket = ''cartridge'', sr_core = [], sr_emulator = [],
     sr_sky = [], sr_torrent = [], sr_extensions = ''nes'', sr_order = 0, sr_source = SourceCatalogue\<rparr>"

definition sample_store :: store where
  "sample_store = fold store_step [UpsertSystems [sample_system],
     ReplaceGames ''nes'' [\<lparr>gr_rel = ''a.nes'', gr_size = 1, gr_title = []\<rparr>, \<lparr>gr_rel = ''b.nes'', gr_size = 2, gr_title = []\<rparr>] 1,
     Hide ''nes'' ''b.nes'' True] empty_store"


end
