(* ===== verification/StoreQueries.thy ===== *)
theory StoreQueries
  imports ArcadeStore
begin

text \<open>
  The reading half of internal/store/store.go of pkgs/arcade-webapp: the library's search with its pages,
  the aggregates of the dashboard, and the histories of runs. \<open>LIKE\<close> with an escape character is SQLite's;
  what its full-text index matches is a parameter, and so is the decoding of a run's detail.
\<close>

section \<open>Patterns\<close>

definition backslash :: char where "backslash = CHR 0x5C"

definition like_escape :: "string \<Rightarrow> string" where
  "like_escape q = concat (map (\<lambda>c. if c = backslash \<or> c = CHR ''%'' \<or> c = CHR ''_'' then [backslash, c] else [c]) q)"

definition same_letter :: "char \<Rightarrow> char \<Rightarrow> bool" where
  "same_letter a b \<longleftrightarrow> lower_char a = lower_char b"

function like :: "string \<Rightarrow> string \<Rightarrow> bool" where
  "like [] t = (t = [])"
| "like (p # ps) [] = (p = CHR ''%'' \<and> like ps [])"
| "like (p # ps) (c # t) =
    (if p = CHR ''%'' then like ps (c # t) \<or> like (p # ps) t
     else if p = CHR ''_'' then like ps t
     else if p = backslash then (case ps of [] \<Rightarrow> False | e # qs \<Rightarrow> same_letter e c \<and> like qs t)
     else same_letter p c \<and> like ps t)"
  by pat_completeness auto
termination
  by (relation "measure (\<lambda>(p, t). length p + length t)") auto

definition contains_pattern :: "string \<Rightarrow> string" where
  "contains_pattern q = ''%'' @ like_escape (to_lower q) @ ''%''"

text \<open>\<open>strings.Fields\<close>, and the full-text query made of the terms.\<close>

fun fields_from :: "string \<Rightarrow> string \<Rightarrow> string list" where
  "fields_from acc [] = (if acc = [] then [] else [acc])"
| "fields_from acc (c # cs) =
    (if is_space c then (if acc = [] then [] else [acc]) @ fields_from [] cs else fields_from (acc @ [c]) cs)"

definition quote_char :: char where "quote_char = CHR 0x22"

definition fts_match_query :: "string \<Rightarrow> string" where
  "fts_match_query q = join_with '' '' (map (\<lambda>t. [quote_char] @ t @ [quote_char] @ ''*'')
     (filter (\<lambda>t. t \<noteq> []) (map (filter (\<lambda>c. c \<noteq> quote_char)) (fields_from [] q))))"

section \<open>The library\<close>

record list_opts =
  lo_system :: string
  lo_q :: string
  lo_state :: "verify_state option"
  lo_hidden :: "bool option"
  lo_sort :: string
  lo_limit :: int
  lo_offset :: int
  lo_desc :: "bool option"
  lo_cover :: "bool option"
  lo_genre :: string

definition filters :: "list_opts \<Rightarrow> game \<Rightarrow> bool" where
  "filters o1 g \<longleftrightarrow> (lo_system o1 \<noteq> [] \<longrightarrow> gm_system g = lo_system o1) \<and>
     (case lo_state o1 of None \<Rightarrow> True | Some s \<Rightarrow> gm_state g = s) \<and>
     (case lo_hidden o1 of None \<Rightarrow> True | Some h \<Rightarrow> gm_hidden g = h) \<and>
     (case lo_desc o1 of None \<Rightarrow> True | Some h \<Rightarrow> gm_desc_flag g = h) \<and>
     (case lo_cover o1 of None \<Rightarrow> True | Some h \<Rightarrow> gm_cover_flag g = h) \<and>
     (lo_genre o1 \<noteq> [] \<longrightarrow> gm_genre g = lo_genre o1)"

definition title_like :: "string \<Rightarrow> game \<Rightarrow> bool" where
  "title_like q g \<longleftrightarrow> like (contains_pattern q) (to_lower (gm_title g))"

text \<open>
  The condition of the query. With a query of nothing but quotes the text of the last condition is
  \<open>A OR B\<close> without parentheses, so that \<open>AND\<close> binds its first half only.
\<close>

definition matches :: "(string \<Rightarrow> game \<Rightarrow> bool) option \<Rightarrow> list_opts \<Rightarrow> game \<Rightarrow> bool" where
  "matches fts o1 g =
    (let q = trim_space (lo_q o1) in
     if q = [] then filters o1 g
     else (case fts of
         Some m \<Rightarrow>
           if fts_match_query q = [] then filters o1 g \<and> m [] g \<or> title_like q g
           else filters o1 g \<and> (m (fts_match_query q) g \<or> title_like q g)
       | None \<Rightarrow> filters o1 g \<and> (like (contains_pattern q) (to_lower (gm_rel g)) \<or> title_like q g)))"

definition shown_title :: "game \<Rightarrow> string" where
  "shown_title g = to_lower (if gm_title g \<noteq> [] then gm_title g else gm_rel g)"

definition title_less :: "game \<Rightarrow> game \<Rightarrow> bool" where
  "title_less a b \<longleftrightarrow> shown_title a < shown_title b \<or> shown_title a = shown_title b \<and> gm_id a < gm_id b"

definition size_less :: "game \<Rightarrow> game \<Rightarrow> bool" where
  "size_less a b \<longleftrightarrow> gm_size b < gm_size a \<or> gm_size a = gm_size b \<and> gm_id a < gm_id b"

definition recent_less :: "game \<Rightarrow> game \<Rightarrow> bool" where
  "recent_less a b \<longleftrightarrow> gm_last b < gm_last a \<or> gm_last a = gm_last b \<and> gm_id b < gm_id a"

definition game_order_by :: "string \<Rightarrow> (game \<Rightarrow> game \<Rightarrow> bool) option" where
  "game_order_by s = (if s = [] \<or> s = ''title'' then Some title_less else if s = ''size'' then Some size_less
     else if s = ''recent'' then Some recent_less else None)"

definition page_of :: "int \<Rightarrow> int \<Rightarrow> 'a list \<Rightarrow> 'a list" where
  "page_of limit offset xs = (if 0 < limit then take (nat limit) (drop (nat offset) xs) else xs)"

text \<open>The page and the number of all matches; None for an unknown sort.\<close>

definition list_games :: "(string \<Rightarrow> game \<Rightarrow> bool) option \<Rightarrow> list_opts \<Rightarrow> store \<Rightarrow> (game list \<times> nat) option" where
  "list_games fts o1 st = (case game_order_by (lo_sort o1) of None \<Rightarrow> None
    | Some lt \<Rightarrow>
        (let found = filter (matches fts o1) (st_games st)
         in Some (page_of (lo_limit o1) (lo_offset o1) (sort_stable lt found), length found)))"

definition genres :: "store \<Rightarrow> string list" where
  "genres st = sort_stable (<) (remdups (filter (\<lambda>g. g \<noteq> []) (map gm_genre (st_games st))))"

definition game_verify_state :: "string \<Rightarrow> string \<Rightarrow> store \<Rightarrow> verify_state option" where
  "game_verify_state key rel st = map_option gm_state (find (is_game key rel) (st_games st))"

definition game_sample_description :: "string \<Rightarrow> store \<Rightarrow> string" where
  "game_sample_description key st =
    (case sort_stable rel_less (filter (\<lambda>g. gm_system g = key \<and> gm_description g \<noteq> []) (st_games st)) of
       [] \<Rightarrow> [] | g # _ \<Rightarrow> gm_description g)"

definition cover_samples :: "string \<Rightarrow> int \<Rightarrow> store \<Rightarrow> nat list" where
  "cover_samples key n st = (if n \<le> 0 then []
     else map gm_id (take (nat n) (sort_stable rel_less (filter (\<lambda>g. gm_system g = key \<and> gm_cover_flag g) (st_games st)))))"

section \<open>Aggregates\<close>

definition games_of :: "string \<Rightarrow> store \<Rightarrow> game list" where
  "games_of key st = filter (\<lambda>g. gm_system g = key) (st_games st)"

definition count_of :: "(game \<Rightarrow> bool) \<Rightarrow> string \<Rightarrow> store \<Rightarrow> nat" where
  "count_of P key st = length (filter P (games_of key st))"

record system_summary =
  su_system :: system_row
  su_games :: nat
  su_bytes :: nat
  su_verified :: nat
  su_unmatched :: nat
  su_date :: string
  su_version :: string
  su_roms :: nat
  su_cache :: nat
  su_art :: nat
  su_verify :: "verify_result option"

definition dat_of :: "string \<Rightarrow> store \<Rightarrow> dat_info option" where
  "dat_of key st = find (\<lambda>d. di_system d = key) (st_dat st)"

definition coverage_of :: "string \<Rightarrow> store \<Rightarrow> nat" where
  "coverage_of key st = (case map_of (st_coverage st) key of None \<Rightarrow> 0 | Some n \<Rightarrow> n)"

definition summary_row :: "store \<Rightarrow> system_row \<Rightarrow> system_summary" where
  "summary_row st s = (let k = sr_key s; d = dat_of k st in
     \<lparr>su_system = s, su_games = length (games_of k st), su_bytes = sum_list (map gm_size (games_of k st)),
       su_verified = count_of (\<lambda>g. gm_state g = VVerified) k st, su_unmatched = count_of (\<lambda>g. gm_state g = VUnmatched) k st,
       su_date = (case d of None \<Rightarrow> [] | Some x \<Rightarrow> di_date x), su_version = (case d of None \<Rightarrow> [] | Some x \<Rightarrow> di_version x),
       su_roms = (case d of None \<Rightarrow> 0 | Some x \<Rightarrow> di_roms x), su_cache = coverage_of k st,
       su_art = count_of gm_cover_flag k st, su_verify = find (\<lambda>v. vr_system v = k) (st_verify st)\<rparr>)"

definition system_summaries :: "store \<Rightarrow> system_summary list" where
  "system_summaries st = map (summary_row st) (systems st)"

definition active :: "system_summary \<Rightarrow> bool" where
  "active s \<longleftrightarrow> 0 < su_games s \<or> su_date s \<noteq> [] \<or> 0 < su_cache s"

definition coverage_pct :: "system_summary \<Rightarrow> int" where
  "coverage_pct s = (if su_games s = 0 then - 1 else min 100 (int (su_cache s * 100 div su_games s)))"

record scrape_row =
  sw_system :: system_row
  sw_games :: nat
  sw_desc :: nat
  sw_cover :: nat
  sw_cache :: nat

definition scrape_summary :: "store \<Rightarrow> scrape_row list" where
  "scrape_summary st = map (\<lambda>s. let k = sr_key s in \<lparr>sw_system = s, sw_games = length (games_of k st),
      sw_desc = count_of gm_desc_flag k st, sw_cover = count_of gm_cover_flag k st, sw_cache = coverage_of k st\<rparr>)
    (filter (\<lambda>s. sr_source s = SourceCatalogue) (systems st))"

definition system_scrape_counts :: "string \<Rightarrow> store \<Rightarrow> nat \<times> nat \<times> nat" where
  "system_scrape_counts key st = (length (games_of key st), count_of gm_desc_flag key st, count_of gm_cover_flag key st)"

definition exo_stats :: "store \<Rightarrow> (string \<times> nat \<times> nat) list" where
  "exo_stats st = map (\<lambda>s. (sr_key s, length (games_of (sr_key s) st), count_of gm_cover_flag (sr_key s) st))
     (filter (\<lambda>s. sr_source s = SourceExo \<and> games_of (sr_key s) st \<noteq> []) (st_systems st))"

definition hidden_counts :: "store \<Rightarrow> (string \<times> nat) list" where
  "hidden_counts st = map (\<lambda>k. (k, count_of gm_hidden k st)) (remdups (map gm_system (filter gm_hidden (st_games st))))"

definition newest_versions :: "store \<Rightarrow> (string \<times> dat_version) list" where
  "newest_versions st = List.map_filter (\<lambda>k. map_option (Pair k) (newest_dat_version k st)) (remdups (map dv_system (st_versions st)))"

definition order_less :: "system_row \<Rightarrow> system_row \<Rightarrow> bool" where
  "order_less a b \<longleftrightarrow> sr_order a < sr_order b"

definition staging_rows :: "store \<Rightarrow> staging_row list" where
  "staging_rows st = concat (map (\<lambda>s. filter (\<lambda>t. sg_system t = sr_key s) (st_staging st)) (sort_stable order_less (st_systems st)))"

definition inventory_rows :: "store \<Rightarrow> inventory_row list" where
  "inventory_rows st = concat (map (\<lambda>s. filter (\<lambda>t. iv_system t = sr_key s) (st_inventory st)) (sort_stable order_less (st_systems st)))"

section \<open>Histories\<close>

definition history_bound :: nat where "history_bound = 100"

definition system_history :: "(string \<Rightarrow> (string \<times> 'p) list option) \<Rightarrow> string \<Rightarrow> int \<Rightarrow> run list \<Rightarrow> (run \<times> 'p) list" where
  "system_history decode key n runs = (if n \<le> 0 then []
     else take (nat n) (List.map_filter (\<lambda>r. case decode (rn_detail r) of None \<Rightarrow> None
        | Some rows \<Rightarrow> map_option (Pair r) (map_of rows key)) (take history_bound (rev runs))))"

definition system_verify_history :: "(string \<Rightarrow> (string \<times> 'p) list option) \<Rightarrow> string \<Rightarrow> int \<Rightarrow> store \<Rightarrow> (run \<times> 'p) list" where
  "system_verify_history decode key n st = system_history decode key n (filter (\<lambda>r. rn_kind r = ''verify'') (st_runs st))"

definition system_scrape_history :: "(string \<Rightarrow> (string \<times> 'p) list option) \<Rightarrow> string \<Rightarrow> int \<Rightarrow> store \<Rightarrow> (run \<times> 'p) list" where
  "system_scrape_history decode key n st =
    system_history decode key n (filter (\<lambda>r. rn_kind r = ''scrape'' \<and> rn_finished r \<noteq> None) (st_runs st))"

section \<open>Collections\<close>

definition name_less :: "collection \<Rightarrow> collection \<Rightarrow> bool" where
  "name_less a b \<longleftrightarrow> to_lower (cl_name a) < to_lower (cl_name b) \<or> to_lower (cl_name a) = to_lower (cl_name b) \<and> cl_id a < cl_id b"

definition member_count :: "nat \<Rightarrow> store \<Rightarrow> nat" where
  "member_count i st = length (filter (\<lambda>m. mb_collection m = i) (st_members st))"

definition collections :: "store \<Rightarrow> (collection \<times> nat) list" where
  "collections st = map (\<lambda>c. (c, member_count (cl_id c) st)) (sort_stable name_less (st_collections st))"

definition collection_of :: "nat \<Rightarrow> store \<Rightarrow> (collection \<times> nat) option" where
  "collection_of i st = map_option (\<lambda>c. (c, member_count i st)) (find (\<lambda>c. cl_id c = i) (st_collections st))"

section \<open>A search is a search for a substring\<close>

lemma like_percent: "like (CHR ''%'' # ps) t \<longleftrightarrow> (\<exists>k\<le>length t. like ps (drop k t))"
proof (induction t)
  case (Cons c t)
  have "like (CHR ''%'' # ps) (c # t) \<longleftrightarrow> like ps (c # t) \<or> like (CHR ''%'' # ps) t"
    by simp
  also have "\<dots> \<longleftrightarrow> (\<exists>k\<le>length (c # t). like ps (drop k (c # t)))"
    unfolding Cons.IH
    by (metis Suc_le_mono drop0 drop_Suc_Cons le0 length_Cons not0_implies_Suc)
  finally show ?case .
qed simp

lemma like_all: "like ''%'' t"
  by (simp only: like_percent) (auto intro: exI [of _ "length t"])

lemma same_letter_lower: "lower_char a = a \<Longrightarrow> lower_char b = b \<Longrightarrow> same_letter a b \<longleftrightarrow> a = b"
  by (simp add: same_letter_def)

lemma like_literal_prefix:
  assumes "\<And>c. c \<in> set q \<Longrightarrow> lower_char c = c" "\<And>c. c \<in> set t \<Longrightarrow> lower_char c = c"
  shows "like (like_escape q @ ''%'') t \<longleftrightarrow> prefix q t"
  using assms
proof (induction q arbitrary: t)
  case Nil
  then show ?case using like_all by (simp add: like_escape_def)
next
  case (Cons c q)
  have esc: "like_escape (c # q) = (if c = backslash \<or> c = CHR ''%'' \<or> c = CHR ''_'' then [backslash, c] else [c]) @ like_escape q"
    by (simp add: like_escape_def)
  have special: "backslash \<noteq> CHR ''%''" "backslash \<noteq> CHR ''_''" by (simp_all add: backslash_def)
  have step: "like (like_escape (c # q) @ ''%'') t \<longleftrightarrow> t \<noteq> [] \<and> same_letter c (hd t) \<and> like (like_escape q @ ''%'') (tl t)"
    unfolding esc using special by (cases t) auto
  note prems = Cons.prems and IH = Cons.IH
  show ?case
  proof (cases t)
    case (Cons d u)
    have "same_letter c d \<longleftrightarrow> c = d" using prems Cons by (intro same_letter_lower) auto
    moreover have "like (like_escape q @ ''%'') u \<longleftrightarrow> prefix q u" using prems Cons by (intro IH) auto
    ultimately show ?thesis unfolding step unfolding Cons by auto
  qed (use step in simp)
qed

lemma sublist_drop: "sublist q t \<longleftrightarrow> (\<exists>k\<le>length t. prefix q (drop k t))"
proof
  assume "sublist q t"
  then obtain xs ys where "t = xs @ q @ ys" by (auto simp: sublist_def)
  then show "\<exists>k\<le>length t. prefix q (drop k t)" by (intro exI [of _ "length xs"]) simp
next
  assume "\<exists>k\<le>length t. prefix q (drop k t)"
  then obtain k ys where "drop k t = q @ ys" by (auto simp: prefix_def)
  then have "t = take k t @ q @ ys" by (metis append_take_drop_id)
  then show "sublist q t" unfolding sublist_def by blast
qed

lemma like_contains: "like (contains_pattern q) (to_lower t) \<longleftrightarrow> sublist (to_lower q) (to_lower t)"
proof -
  have "like (like_escape (to_lower q) @ ''%'') (drop k (to_lower t)) \<longleftrightarrow> prefix (to_lower q) (drop k (to_lower t))" for k
    by (rule like_literal_prefix) (use in_set_dropD in \<open>force simp: to_lower_def\<close>)+
  then show ?thesis unfolding contains_pattern_def sublist_drop append_Cons append_Nil like_percent by simp
qed


text \<open>A query of quotes alone lists games of every system, whatever system was asked for.\<close>

lemma quoted_query_ignores_the_system:
  assumes "trim_space (lo_q o1) = [quote_char]" "sublist [quote_char] (gm_title g)"
  shows "matches (Some m) o1 g"
proof -
  have "fts_match_query [quote_char] = []" by code_simp
  moreover have "lower_char quote_char = quote_char" by code_simp
  then have "sublist (to_lower [quote_char]) (to_lower (gm_title g))"
    using assms(2) unfolding to_lower_def by (metis map_mono_sublist)
  ultimately show ?thesis by (simp add: matches_def assms(1) title_like_def like_contains quote_char_def)
qed

section \<open>Pages\<close>

lemma pages_join: "0 < n \<Longrightarrow> concat (map (\<lambda>k. page_of (int n) (int (k * n)) xs) [0..<m]) = take (m * n) xs"
proof (induction m)
  case (Suc m)
  have "page_of (int n) (int (m * n)) xs = take n (drop (m * n) xs)" using Suc.prems by (simp add: page_of_def del: of_nat_mult)
  then show ?case using Suc by (simp add: take_add [symmetric] add.commute [of n])
qed simp

text \<open>
  The pages of a library listing, one after another, are the sorted matches in order, each exactly
  once, and the reported total is their number.
\<close>

lemma pages_cover_the_result_once:
  assumes "0 < n" "list_games fts (o1\<lparr>lo_limit := 0\<rparr>) st = Some (everything, n1)" "n1 \<le> m * n"
  shows "length everything = n1 \<and>
    concat (map (\<lambda>k. case list_games fts (o1\<lparr>lo_limit := int n, lo_offset := int (k * n)\<rparr>) st of
      None \<Rightarrow> [] | Some (page, t) \<Rightarrow> page) [0..<m]) = everything"
proof -
  have f: "filters (o1\<lparr>lo_limit := a\<rparr>) = filters o1" "filters (o1\<lparr>lo_limit := a, lo_offset := b\<rparr>) = filters o1" for a b
    by (rule ext, simp add: filters_def)+
  have m: "matches fts (o1\<lparr>lo_limit := a, lo_offset := b\<rparr>) = matches fts (o1\<lparr>lo_limit := 0\<rparr>)" for a b
    by (rule ext) (simp add: matches_def f Let_def split: option.split)
  obtain lt where lt: "game_order_by (lo_sort o1) = Some lt"
    using assms(2) by (auto simp: list_games_def split: option.splits)
  define found where "found = filter (matches fts (o1\<lparr>lo_limit := 0\<rparr>)) (st_games st)"
  have all: "everything = sort_stable lt found" "n1 = length found"
    using assms(2) by (simp_all add: list_games_def lt Let_def found_def page_of_def)
  have "(case list_games fts (o1\<lparr>lo_limit := int n, lo_offset := int (k * n)\<rparr>) st of None \<Rightarrow> [] | Some (page, t) \<Rightarrow> page)
      = page_of (int n) (int (k * n)) everything" for k
    by (simp add: list_games_def lt Let_def m found_def [symmetric] all)
  then show ?thesis using pages_join [OF assms(1), of everything m] assms(3) all by simp
qed

definition sample_opts :: list_opts where
  "sample_opts = \<lparr>lo_system = [], lo_q = [], lo_state = None, lo_hidden = None, lo_sort = ''size'', lo_limit = 0, lo_offset = 0,
     lo_desc = None, lo_cover = None, lo_genre = []\<rparr>"

end
