(* ===== verification/Pegasus.thy ===== *)
theory Pegasus
  imports FileTree
begin

text \<open>
  internal/pegasus/pegasus.go of pkgs/arcade-webapp: the strict parser of metadata.pegasus.txt and the
  invariants it enforces on a parsed file. Then what a line of the form \<open>key: value\<close> does to the
  parser, which is all that the generator's round trip needs.
\<close>

section \<open>The parsed file\<close>

record peg_game =
  pg_title :: string
  pg_file :: string
  pg_fields :: "string \<rightharpoonup> string"
  pg_multi :: "string \<rightharpoonup> string list"
  pg_assets :: "string \<rightharpoonup> string"

record peg_collection =
  pc_title :: string
  pc_short :: string
  pc_summary :: string
  pc_launch :: string
  pc_games :: "peg_game list"

datatype peg_error = Continuation nat | NotKeyValue nat | BeforeCollection nat string | AfterGames nat string
  | OutsideGame nat string | NoCollections

definition pending_suffix :: string where "pending_suffix = ''-pending''"

definition is_pending :: "string \<Rightarrow> bool" where
  "is_pending s \<longleftrightarrow> suffix pending_suffix s"

definition new_peg_game :: "string \<Rightarrow> peg_game" where
  "new_peg_game t = \<lparr>pg_title = t, pg_file = [], pg_fields = Map.empty, pg_multi = Map.empty, pg_assets = Map.empty\<rparr>"

definition new_collection :: "string \<Rightarrow> peg_collection" where
  "new_collection t = \<lparr>pc_title = t, pc_short = [], pc_summary = [], pc_launch = [], pc_games = []\<rparr>"

section \<open>The parser\<close>

text \<open>The finished collections, the one being read and the game block being read.\<close>

record peg_state =
  ps_done :: "peg_collection list"
  ps_cur :: "peg_collection option"
  ps_game :: "peg_game option"

definition peg_start :: peg_state where
  "peg_start = \<lparr>ps_done = [], ps_cur = None, ps_game = None\<rparr>"

definition flush_game :: "peg_collection \<Rightarrow> peg_game option \<Rightarrow> peg_collection" where
  "flush_game c g = (case g of None \<Rightarrow> c | Some x \<Rightarrow> c\<lparr>pc_games := pc_games c @ [x]\<rparr>)"

definition set_field :: "string \<Rightarrow> string \<Rightarrow> peg_game \<Rightarrow> peg_game" where
  "set_field k v g =
    (let g1 = (case pg_fields g k of None \<Rightarrow> g
       | Some old \<Rightarrow> g\<lparr>pg_multi := (pg_multi g)(k \<mapsto> (case pg_multi g k of None \<Rightarrow> [old] | Some vs \<Rightarrow> vs) @ [v])\<rparr>)
     in g1\<lparr>pg_fields := (pg_fields g1)(k \<mapsto> v)\<rparr>)"

definition asset_prefix :: string where "asset_prefix = ''assets.''"

definition header_key :: "string \<Rightarrow> bool" where
  "header_key k \<longleftrightarrow> k \<in> {''shortname'', ''summary'', ''launch''}"

definition set_header :: "string \<Rightarrow> string \<Rightarrow> peg_collection \<Rightarrow> peg_collection" where
  "set_header k v c = (if k = ''shortname'' then c\<lparr>pc_short := v\<rparr>
     else if k = ''summary'' then c\<lparr>pc_summary := v\<rparr> else c\<lparr>pc_launch := v\<rparr>)"

definition peg_entry :: "nat \<Rightarrow> string \<Rightarrow> string \<Rightarrow> peg_state \<Rightarrow> peg_error + peg_state" where
  "peg_entry no k v s =
    (if k = ''collection''
     then Inr (s\<lparr>ps_done := ps_done s @ (case ps_cur s of None \<Rightarrow> [] | Some c \<Rightarrow> [flush_game c (ps_game s)]),
                ps_cur := Some (new_collection v), ps_game := None\<rparr>)
     else (case ps_cur s of None \<Rightarrow> Inl (BeforeCollection no k)
     | Some c \<Rightarrow>
        if header_key k
        then (if ps_game s \<noteq> None \<or> pc_games c \<noteq> [] then Inl (AfterGames no k)
              else Inr (s\<lparr>ps_cur := Some (set_header k v c)\<rparr>))
        else if k = ''game'' then Inr (s\<lparr>ps_cur := Some (flush_game c (ps_game s)), ps_game := Some (new_peg_game v)\<rparr>)
        else (case ps_game s of
            None \<Rightarrow> if k = ''file'' \<or> prefix asset_prefix k then Inl (OutsideGame no k) else Inr s
          | Some g \<Rightarrow>
              if k = ''file'' then Inr (s\<lparr>ps_game := Some (g\<lparr>pg_file := v\<rparr>)\<rparr>)
              else if prefix asset_prefix k
              then Inr (s\<lparr>ps_game := Some (g\<lparr>pg_assets := (pg_assets g)(trim_prefix asset_prefix k \<mapsto> v)\<rparr>)\<rparr>)
              else Inr (s\<lparr>ps_game := Some (set_field k v g)\<rparr>))))"

definition all_cr :: "string \<Rightarrow> bool" where
  "all_cr l \<longleftrightarrow> trim_right_if (\<lambda>c. code c = 13) l = []"

definition peg_line :: "nat \<Rightarrow> string \<Rightarrow> peg_state \<Rightarrow> peg_error + peg_state" where
  "peg_line no l s =
    (if all_cr l then Inr s
     else if prefix ''#'' l then Inr s
     else if code (hd l) = 32 \<or> code (hd l) = 9 then Inl (Continuation no)
     else (case index_byte CHR '':'' l of None \<Rightarrow> Inl (NotKeyValue no)
       | Some i \<Rightarrow> peg_entry no (trim_space (take i l)) (trim_space (drop (Suc i) l)) s))"

fun peg_lines :: "nat \<Rightarrow> string list \<Rightarrow> peg_state \<Rightarrow> peg_error + peg_state" where
  "peg_lines no [] s = Inr s"
| "peg_lines no (l # ls) s = (case peg_line (Suc no) l s of Inl e \<Rightarrow> Inl e | Inr s1 \<Rightarrow> peg_lines (Suc no) ls s1)"

definition peg_finish :: "peg_state \<Rightarrow> peg_error + peg_collection list" where
  "peg_finish s = (case ps_cur s of None \<Rightarrow> Inl NoCollections
    | Some c \<Rightarrow> Inr (ps_done s @ [flush_game c (ps_game s)]))"

definition peg_parse :: "string \<Rightarrow> peg_error + peg_collection list" where
  "peg_parse raw = (case peg_lines 0 (split_byte newline raw) peg_start of Inl e \<Rightarrow> Inl e | Inr s \<Rightarrow> peg_finish s)"

section \<open>The invariants of a file\<close>

datatype invalid = DuplicateShortname string | NoLaunch string | NoFile string | DuplicateFile string string | NothingToValidate

fun validate_games :: "string \<Rightarrow> string set \<Rightarrow> peg_game list \<Rightarrow> invalid option" where
  "validate_games t seen [] = None"
| "validate_games t seen (g # gs) =
    (if pg_file g = [] then Some (NoFile (pg_title g))
     else if pg_file g \<in> seen then Some (DuplicateFile (pg_file g) t)
     else validate_games t (insert (pg_file g) seen) gs)"

fun validate_from :: "string set \<Rightarrow> peg_collection list \<Rightarrow> invalid option" where
  "validate_from seen [] = None"
| "validate_from seen (c # cs) =
    (if pc_short c \<noteq> [] \<and> pc_short c \<in> seen then Some (DuplicateShortname (pc_short c))
     else if pc_launch c = [] \<and> \<not> is_pending (pc_short c) \<and> pc_games c \<noteq> [] then Some (NoLaunch (pc_short c))
     else (case validate_games (pc_title c) {} (pc_games c) of
         Some e \<Rightarrow> Some e
       | None \<Rightarrow> validate_from (if pc_short c \<noteq> [] then insert (pc_short c) seen else seen) cs))"

definition peg_validate :: "peg_collection list \<Rightarrow> invalid option" where
  "peg_validate cs = (case validate_from {} cs of Some e \<Rightarrow> Some e
    | None \<Rightarrow> if cs = [] then Some NothingToValidate else None)"

text \<open>What a validated file is.\<close>

definition valid_games :: "peg_game list \<Rightarrow> bool" where
  "valid_games gs \<longleftrightarrow> [] \<notin> pg_file ` set gs \<and> distinct (map pg_file gs)"

definition valid_file :: "peg_collection list \<Rightarrow> bool" where
  "valid_file cs \<longleftrightarrow> cs \<noteq> [] \<and> distinct (filter (\<lambda>s. s \<noteq> []) (map pc_short cs)) \<and>
     (\<forall>c\<in>set cs. valid_games (pc_games c) \<and> (pc_launch c = [] \<longrightarrow> is_pending (pc_short c) \<or> pc_games c = []))"

lemma validate_games_iff:
  "validate_games t seen gs = None \<longleftrightarrow> valid_games gs \<and> pg_file ` set gs \<inter> seen = {}"
  by (induction gs arbitrary: seen) (auto simp: valid_games_def)

lemma validate_from_iff:
  "validate_from seen cs = None \<longleftrightarrow> distinct (filter (\<lambda>s. s \<noteq> []) (map pc_short cs)) \<and>
    (pc_short ` set cs - {[]}) \<inter> seen = {} \<and>
    (\<forall>c\<in>set cs. valid_games (pc_games c) \<and> (pc_launch c = [] \<longrightarrow> is_pending (pc_short c) \<or> pc_games c = []))"
proof (induction cs arbitrary: seen)
  case (Cons c cs)
  have g: "validate_games (pc_title c) {} (pc_games c) = None \<longleftrightarrow> valid_games (pc_games c)"
    by (simp add: validate_games_iff)
  show ?case
  proof (cases "valid_games (pc_games c)")
    case True
    then have "validate_games (pc_title c) {} (pc_games c) = None" using g by simp
    then show ?thesis using True by (auto simp: Cons.IH)
  next
    case False
    then obtain e where "validate_games (pc_title c) {} (pc_games c) = Some e" using g by auto
    then show ?thesis using False by auto
  qed
qed simp

lemma peg_validate_iff: "peg_validate cs = None \<longleftrightarrow> valid_file cs"
proof (cases "validate_from {} cs")
  case None
  then show ?thesis using validate_from_iff [of "{}" cs] by (auto simp: peg_validate_def valid_file_def)
next
  case (Some e)
  then show ?thesis using validate_from_iff [of "{}" cs] by (auto simp: peg_validate_def valid_file_def)
qed

section \<open>Lines of the form key: value\<close>

definition kv :: "string \<Rightarrow> string \<Rightarrow> string" where
  "kv k v = k @ '': '' @ v"

text \<open>A key that reads back: nothing to trim, no colon, and not the start of a comment.\<close>

definition good_key :: "string \<Rightarrow> bool" where
  "good_key k \<longleftrightarrow> k \<noteq> [] \<and> CHR '':'' \<notin> set k \<and> newline \<notin> set k \<and> \<not> is_space (hd k) \<and> \<not> is_space (last k) \<and> \<not> prefix ''#'' k"

definition good_value :: "string \<Rightarrow> bool" where
  "good_value v \<longleftrightarrow> trim_space v = v \<and> newline \<notin> set v"

lemma index_byte_append: "c \<notin> set k \<Longrightarrow> index_byte c (k @ c # v) = Some (length k)"
  by (induction k) auto

lemma trim_space_blank: "trim_space (CHR '' '' # v) = trim_space v"
  by (simp add: trim_space_def trim_left_if_def is_space_def code_def)

lemma peg_line_kv:
  assumes "good_key k" "good_value v"
  shows "peg_line no (kv k v) s = peg_entry no k v s"
proof -
  obtain c cs where k: "k = c # cs" using assms(1) by (cases k) (auto simp: good_key_def)
  have sp: "\<not> is_space c" "code c \<noteq> 32" "code c \<noteq> 9" "code c \<noteq> 13"
    using assms(1) by (auto simp: good_key_def is_space_def k)
  have "\<not> all_cr (kv k v)"
    using sp by (auto simp: all_cr_def trim_right_if_def kv_def k)
  moreover have "\<not> prefix ''#'' (kv k v)" using assms(1) by (simp add: good_key_def kv_def k)
  moreover have "index_byte CHR '':'' (kv k v) = Some (length k)"
    unfolding kv_def using assms(1) by (simp add: index_byte_append good_key_def)
  moreover have "trim_space k = k" using assms(1) by (intro trim_space_id) (auto simp: good_key_def)
  ultimately show ?thesis
    using assms(2) sp by (simp add: peg_line_def kv_def k good_value_def trim_space_blank)
qed

lemma peg_line_blank: "peg_line no [] s = Inr s"
  by (simp add: peg_line_def all_cr_def trim_right_if_def)

lemma peg_line_comment: "prefix ''#'' l \<Longrightarrow> peg_line no l s = Inr s"
  by (simp add: peg_line_def)

lemma peg_lines_append:
  "peg_lines no (xs @ ys) s = (case peg_lines no xs s of Inl e \<Rightarrow> Inl e | Inr s1 \<Rightarrow> peg_lines (no + length xs) ys s1)"
  by (induction xs arbitrary: no s) (auto split: sum.splits)

text \<open>A list of lines that the parser reads without an error, whatever their numbers.\<close>

definition reads :: "string list \<Rightarrow> peg_state \<Rightarrow> peg_state \<Rightarrow> bool" where
  "reads ls s s' \<longleftrightarrow> (\<forall>no. peg_lines no ls s = Inr s')"

lemma reads_Nil: "reads [] s s"
  by (simp add: reads_def)

lemma reads_append: "reads xs s s1 \<Longrightarrow> reads ys s1 s2 \<Longrightarrow> reads (xs @ ys) s s2"
  by (simp add: reads_def peg_lines_append)

lemma reads_blank: "reads ls s s' \<Longrightarrow> reads ([] # ls) s s'"
  by (simp add: reads_def peg_line_blank)

lemma reads_comment: "prefix ''#'' l \<Longrightarrow> reads ls s s' \<Longrightarrow> reads (l # ls) s s'"
  by (simp add: reads_def peg_line_comment)

lemma reads_kv:
  "good_key k \<Longrightarrow> good_value v \<Longrightarrow> (\<And>no. peg_entry no k v s = Inr s1) \<Longrightarrow> reads ls s1 s2 \<Longrightarrow> reads (kv k v # ls) s s2"
  by (simp add: reads_def peg_line_kv)

end
