(* ===== verification/FileOps.thy ===== *)
theory FileOps
  imports Main "HOL-Library.Sublist"
begin

text \<open>
  Files as a map from paths to contents, the operations that change it, and the state a killed process
  leaves behind. Directories, permissions and durability across a power loss are not modelled.
\<close>

datatype fs_op = OpCreate string | OpAppend string string | OpRename string string | OpRemove string

fun do_op :: "fs_op \<Rightarrow> (string \<rightharpoonup> string) \<Rightarrow> (string \<rightharpoonup> string)" where
  "do_op (OpCreate p) fs = fs(p \<mapsto> [])"
| "do_op (OpAppend p d) fs = (case fs p of None \<Rightarrow> fs | Some old \<Rightarrow> fs(p \<mapsto> old @ d))"
| "do_op (OpRename a b) fs = (case fs a of None \<Rightarrow> fs | Some d \<Rightarrow> (fs(a := None))(b \<mapsto> d))"
| "do_op (OpRemove p) fs = fs(p := None)"

text \<open>The call that fails, if any; a failing write has written part of the data.\<close>

datatype write_fault = AtCreate | AtWrite nat | AtSync | AtClose | AtChmod | AtRename

text \<open>The file system after \<open>k\<close> operations and, if the next one is a write, the first \<open>n\<close> bytes of it.\<close>

definition killed_after :: "nat \<Rightarrow> nat \<Rightarrow> fs_op list \<Rightarrow> (string \<rightharpoonup> string) \<Rightarrow> (string \<rightharpoonup> string)" where
  "killed_after k n ops fs = (let fs1 = fold do_op (take k ops) fs in
     case drop k ops of OpAppend p d # _ \<Rightarrow> do_op (OpAppend p (take n d)) fs1 | _ \<Rightarrow> fs1)"

lemma killed_Nil [simp]: "killed_after k n [] fs = fs"
  by (simp add: killed_after_def)

lemma killed_Cons: "killed_after k n (a # ops) fs = (case k of 0 \<Rightarrow> (case a of OpAppend p d \<Rightarrow> do_op (OpAppend p (take n d)) fs | _ \<Rightarrow> fs)
    | Suc j \<Rightarrow> killed_after j n ops (do_op a fs))"
  by (cases k) (simp_all add: killed_after_def Let_def split: fs_op.split)

lemma killed_append: "killed_after k n (xs @ ys) fs =
    (if k < length xs then killed_after k n xs fs else killed_after (k - length xs) n ys (fold do_op xs fs))"
  by (induction xs arbitrary: k fs) (simp_all add: killed_Cons split: nat.split)

end
