(* ===== verification/Generate.thy ===== *)
theory Generate
  imports Pegasus ArcadeStore FileOps
begin

text \<open>
  internal/generate/generate.go and internal/pipeline/pipeline.go of pkgs/arcade-webapp: one
  metadata.pegasus.txt per system, rendered from the store and the system's directory, checked with the
  strict parser and installed by a rename. A directory is the tree of the file system at that moment;
  process identity and start time are parameters, and so is the encoding of the run's detail.
\<close>

section \<open>Looking into a tree\<close>

fun follow :: "string list \<Rightarrow> fs_node \<Rightarrow> fs_node option" where
  "follow [] n = Some n"
| "follow (e # es) n = (case n of FsDir ch \<Rightarrow> (case map_of ch e of None \<Rightarrow> None | Some c \<Rightarrow> follow es c) | _ \<Rightarrow> None)"

text \<open>\<open>filepath.Join\<close> below a directory.\<close>

definition below :: "string list \<Rightarrow> fs_node \<Rightarrow> fs_node option" where
  "below ps dir = follow (fold clean_step (concat (map (split_byte CHR ''/'') ps)) []) dir"

definition read_head :: "string list \<Rightarrow> nat \<Rightarrow> fs_node \<Rightarrow> string" where
  "read_head ps n dir = (case below ps dir of Some (FsFile i) \<Rightarrow> take n (fi_data i) | _ \<Rightarrow> [])"

definition mcomp_magic :: string where "mcomp_magic = ''MComprHD''"
definition comp_magic :: string where "comp_magic = ''ComprHD''"
definition zip_magic :: string where "zip_magic = ''PK''"

definition rom_complete :: "string \<Rightarrow> fs_node \<Rightarrow> bool" where
  "rom_complete rel dir =
    (let ext = to_lower (path_ext rel) in
     if ext = ''.chd''
     then (let head = read_head [rel] (length mcomp_magic) dir in prefix mcomp_magic head \<or> prefix comp_magic head)
     else if ext = ''.zip'' then read_head [rel] (length zip_magic) dir = zip_magic
     else True)"

section \<open>Values\<close>

fun crlf_to_lf :: "string \<Rightarrow> string" where
  "crlf_to_lf (a # b # s) = (if code a = 13 \<and> b = newline then newline # crlf_to_lf s else a # crlf_to_lf (b # s))"
| "crlf_to_lf s = s"

definition cr_to_lf :: "string \<Rightarrow> string" where
  "cr_to_lf s = map (\<lambda>c. if code c = 13 then newline else c) s"

definition is_control :: "char \<Rightarrow> bool" where
  "is_control c \<longleftrightarrow> code c < 32 \<or> code c = 127"

definition sanitize_value :: "string \<Rightarrow> string" where
  "sanitize_value s = join_with ''; '' (filter (\<lambda>p. p \<noteq> [])
     (map (\<lambda>p. trim_space (filter (\<lambda>c. \<not> is_control c) p)) (split_byte newline (cr_to_lf (crlf_to_lf s)))))"

section \<open>Blocks\<close>

definition regular_name :: "string \<times> fs_node \<Rightarrow> bool" where
  "regular_name e = (case snd e of FsFile i \<Rightarrow> True | FsGone err \<Rightarrow> True | _ \<Rightarrow> False)"

definition first_stems :: "string list \<Rightarrow> string list" where
  "first_stems names = rev (fold (\<lambda>n out. if strip_ext n \<in> set (map strip_ext out) then out else n # out) names [])"

definition media_assets :: "fs_node \<Rightarrow> string \<Rightarrow> (string \<times> string) list" where
  "media_assets dir base = (case below [''media'', base] dir of
      Some (FsDir ch) \<Rightarrow> map (\<lambda>n. (strip_ext n, ''media/'' @ base @ ''/'' @ n))
        (first_stems (sort_stable (<) (map fst (filter regular_name ch))))
    | _ \<Rightarrow> [])"

definition field_lines :: "(string \<times> string) list \<Rightarrow> string list" where
  "field_lines kvs = map (\<lambda>(k, v). kv k v) (filter (\<lambda>(k, v). v \<noteq> []) (map (\<lambda>(k, v). (k, sanitize_value v)) kvs))"

definition meta_fields :: "game \<Rightarrow> (string \<times> string) list" where
  "meta_fields g = [(''description'', gm_description g), (''release'', gm_release g), (''developer'', gm_developer g),
     (''publisher'', gm_publisher g), (''genre'', gm_genre g), (''rating'', gm_rating g)]"

definition block_title :: "string \<Rightarrow> string" where
  "block_title rel = (let base = path_base rel; t = sanitize_value (strip_ext base) in if t = [] then sanitize_value base else t)"

definition game_block :: "game \<Rightarrow> fs_node \<Rightarrow> string list" where
  "game_block g dir = [kv ''game'' (block_title (gm_rel g)), kv ''file'' (sanitize_value (gm_rel g))]
     @ field_lines (meta_fields g)
     @ map (\<lambda>(k, v). kv (asset_prefix @ k) v) (media_assets dir (strip_ext (path_base (gm_rel g))))"

record custom_collection =
  cc_title :: string
  cc_short :: string
  cc_summary :: string
  cc_members :: "(string \<times> string) list"

record custom_view =
  cv_title :: string
  cv_short :: string
  cv_summary :: string
  cv_members :: "string list"

definition view_less :: "custom_view \<Rightarrow> custom_view \<Rightarrow> bool" where
  "view_less a b \<longleftrightarrow> cv_short a < cv_short b"

definition custom_views :: "custom_collection list \<Rightarrow> string \<Rightarrow> custom_view list" where
  "custom_views colls key = sort_stable view_less (map (\<lambda>c. \<lparr>cv_title = cc_title c, cv_short = cc_short c,
       cv_summary = cc_summary c, cv_members = map snd (filter (\<lambda>m. fst m = key) (cc_members c))\<rparr>)
     (filter (\<lambda>c. list_ex (\<lambda>m. fst m = key) (cc_members c)) colls))"

section \<open>A system's file\<close>

definition launch_of :: "system_row \<Rightarrow> string option" where
  "launch_of s = (if sr_core s \<noteq> [] \<and> sr_core s \<noteq> ''-'' then Some (''jupiter-retroarch -L '' @ sr_core s)
     else if sr_emulator s \<noteq> [] then Some (''jupiter-'' @ sr_emulator s) else None)"

definition dquote :: char where "dquote = char_of (34 :: nat)"

definition launch_line :: "string \<Rightarrow> string" where
  "launch_line l = l @ '' '' @ [dquote] @ ''{file.path}'' @ [dquote]"

definition pending_marker :: string where "pending_marker = ''# jupiter-pending-section''"
definition custom_marker :: string where "custom_marker = ''# jupiter-custom-collection''"
definition managed :: string where "managed = '' (managed by arcade-webapp)''"
definition pending_summary :: string where
  "pending_summary = ''Still downloading or incomplete - listed but not yet playable.''"

record section_of =
  se_header :: "string list"
  se_blocks :: "string list list"

definition header_lines :: "system_row \<Rightarrow> string \<Rightarrow> string list" where
  "header_lines s launch = [kv ''collection'' (sanitize_value (sr_collection s)), kv ''shortname'' (sr_key s),
     kv ''launch'' (launch_line launch)]"

definition pending_header :: "system_row \<Rightarrow> string list" where
  "pending_header s = [pending_marker @ managed, kv ''collection'' (sanitize_value (sr_collection s) @ '' (Pending)''),
     kv ''shortname'' (sr_key s @ pending_suffix), kv ''summary'' pending_summary]"

definition custom_header :: "custom_view \<Rightarrow> string \<Rightarrow> string list" where
  "custom_header v launch = [custom_marker @ managed, kv ''collection'' (sanitize_value (cv_title v)), kv ''shortname'' (cv_short v)]
     @ (if sanitize_value (cv_summary v) \<noteq> [] then [kv ''summary'' (sanitize_value (cv_summary v))] else [])
     @ [kv ''launch'' (launch_line launch)]"

definition custom_members_of :: "custom_view \<Rightarrow> game list \<Rightarrow> fs_node \<Rightarrow> game list" where
  "custom_members_of v games dir = filter (\<lambda>g. gm_rel g \<in> set (cv_members v) \<and> rom_complete (gm_rel g) dir) games"

definition live_views :: "custom_view list \<Rightarrow> game list \<Rightarrow> fs_node \<Rightarrow> custom_view list" where
  "live_views vs games dir = filter (\<lambda>v. custom_members_of v games dir \<noteq> []) vs"

definition pending_games :: "game list \<Rightarrow> fs_node \<Rightarrow> game list" where
  "pending_games games dir = filter (\<lambda>g. \<not> rom_complete (gm_rel g) dir) games"

definition playable_games :: "game list \<Rightarrow> fs_node \<Rightarrow> game list" where
  "playable_games games dir = filter (\<lambda>g. rom_complete (gm_rel g) dir) games"

definition emit_blocks :: "string list list \<Rightarrow> string" where
  "emit_blocks bs = concat (map (\<lambda>b. [newline, newline] @ join_with [newline] b) bs)"

definition assemble :: "string list \<Rightarrow> string list list \<Rightarrow> section_of list \<Rightarrow> string" where
  "assemble header main sections = join_with [newline] header @ emit_blocks main
     @ concat (map (\<lambda>s. [newline, newline] @ join_with [newline] (se_header s) @ emit_blocks (se_blocks s)) sections)
     @ [newline]"

datatype gen_fault = StoreQuery | DirMissing | NoLaunchMapping | Refused | WriteFault

record sys_outcome =
  so_sys :: string
  so_fault :: "gen_fault option"
  so_games :: nat
  so_pending :: nat
  so_collections :: nat

definition render_system :: "system_row \<Rightarrow> game list \<Rightarrow> fs_node \<Rightarrow> custom_view list \<Rightarrow> (string \<times> sys_outcome) option" where
  "render_system s games dir views =
    (case launch_of s of None \<Rightarrow> None
     | Some launch \<Rightarrow>
        let block = (\<lambda>g. game_block g dir); live = live_views views games dir; pend = pending_games games dir in
        Some (assemble (header_lines s launch) (map block (playable_games games dir))
            ((if pend \<noteq> [] then [\<lparr>se_header = pending_header s, se_blocks = map block pend\<rparr>] else [])
              @ map (\<lambda>v. \<lparr>se_header = custom_header v launch, se_blocks = map block (custom_members_of v games dir)\<rparr>) live),
          \<lparr>so_sys = sr_key s, so_fault = None, so_games = length (playable_games games dir), so_pending = length pend,
            so_collections = length live\<rparr>))"

section \<open>Installing a file\<close>

definition write_atomic :: "write_fault option \<Rightarrow> string \<Rightarrow> string \<Rightarrow> string \<Rightarrow> fs_op list" where
  "write_atomic fault tmp path data = (case fault of
      None \<Rightarrow> [OpCreate tmp, OpAppend tmp data, OpRename tmp path]
    | Some AtCreate \<Rightarrow> []
    | Some (AtWrite n) \<Rightarrow> [OpCreate tmp, OpAppend tmp (take n data), OpRemove tmp]
    | Some _ \<Rightarrow> [OpCreate tmp, OpAppend tmp data, OpRemove tmp])"

section \<open>Left-over temporaries\<close>

definition target_name :: string where "target_name = ''metadata.pegasus.txt''"

definition temp_prefix :: string where "temp_prefix = ''.'' @ target_name @ ''.''"

definition temp_sibling :: "string \<Rightarrow> bool" where
  "temp_sibling n \<longleftrightarrow> prefix temp_prefix n \<and> suffix ''.tmp'' n \<and> length temp_prefix + 4 < length n \<and> newline \<notin> set n"

definition all_digits :: "string \<Rightarrow> bool" where
  "all_digits s \<longleftrightarrow> s \<noteq> [] \<and> list_all is_digit s"

definition temp_owner_pid :: "string \<Rightarrow> nat" where
  "temp_owner_pid n =
    (let mid = trim_suffix ''.tmp'' (trim_prefix temp_prefix n); f = hd (split_byte CHR ''.'' mid);
         d = (if prefix ''+'' f then tl f else f)
     in if all_digits d then (if digits_val d < 2 ^ 63 then digits_val d else 0) else 0)"

definition stale_temp :: "nat \<Rightarrow> instant \<Rightarrow> string \<times> fs_node \<Rightarrow> bool" where
  "stale_temp pid born e = (case snd e of
      FsFile i \<Rightarrow> temp_sibling (fst e) \<and> temp_owner_pid (fst e) \<noteq> pid \<and> \<not> born < fi_mtime i
    | _ \<Rightarrow> False)"

definition swept_names :: "nat \<Rightarrow> instant \<Rightarrow> fs_node option \<Rightarrow> string list" where
  "swept_names pid born d = (case d of Some (FsDir ch) \<Rightarrow> map fst (filter (stale_temp pid born) ch) | _ \<Rightarrow> [])"

section \<open>One pass\<close>

record payload =
  pl_dir :: string
  pl_bytes :: string
  pl_oc :: sys_outcome

definition failed_outcome :: "string \<Rightarrow> gen_fault \<Rightarrow> sys_outcome" where
  "failed_outcome key f = \<lparr>so_sys = key, so_fault = Some f, so_games = 0, so_pending = 0, so_collections = 0\<rparr>"

definition system_dir :: "roots \<Rightarrow> system_row \<Rightarrow> string" where
  "system_dir rt s = bucket_root rt (sr_bucket s) @ ''/'' @ sr_key s"

definition is_dir :: "fs_node option \<Rightarrow> bool" where
  "is_dir t = (case t of Some (FsDir ch) \<Rightarrow> True | Some (FsClosed e) \<Rightarrow> True | _ \<Rightarrow> False)"

text \<open>What phase one makes of a system: nothing, a failure, or a candidate.\<close>

definition build_one :: "roots \<Rightarrow> (string \<Rightarrow> fs_node option) \<Rightarrow> custom_collection list \<Rightarrow> store \<Rightarrow> system_row \<Rightarrow>
    (sys_outcome + payload) option" where
  "build_one rt disk colls st s =
    (let games = system_games_with_meta (sr_key s) st; dir = system_dir rt s in
     if sr_source s = SourceExo \<or> games = [] then None
     else (case disk dir of
         Some node \<Rightarrow> if is_dir (Some node)
           then Some (case render_system s games node (custom_views colls (sr_key s)) of
               None \<Rightarrow> Inl (failed_outcome (sr_key s) NoLaunchMapping)
             | Some (data, oc) \<Rightarrow> Inr \<lparr>pl_dir = dir, pl_bytes = data, pl_oc = oc\<rparr>)
           else Some (Inl (failed_outcome (sr_key s) DirMissing))
       | None \<Rightarrow> Some (Inl (failed_outcome (sr_key s) DirMissing))))"

definition accepts :: "string \<Rightarrow> bool" where
  "accepts data = (case peg_parse data of Inl e \<Rightarrow> False | Inr cs \<Rightarrow> peg_validate cs = None)"

definition lefts :: "('a + 'b) list \<Rightarrow> 'a list" where
  "lefts xs = List.map_filter (\<lambda>x. case x of Inl a \<Rightarrow> Some a | Inr b \<Rightarrow> None) xs"

definition rights :: "('a + 'b) list \<Rightarrow> 'b list" where
  "rights xs = List.map_filter (\<lambda>x. case x of Inl a \<Rightarrow> None | Inr b \<Rightarrow> Some b) xs"

record gen_result =
  ge_systems :: "sys_outcome list"
  ge_validated :: bool
  ge_dry :: bool

definition with_fault :: "gen_fault option \<Rightarrow> payload \<Rightarrow> sys_outcome" where
  "with_fault f p = (pl_oc p)\<lparr>so_fault := f\<rparr>"

definition target_of :: "payload \<Rightarrow> string" where
  "target_of p = pl_dir p @ ''/'' @ target_name"

definition write_outcome :: "bool \<Rightarrow> (string \<Rightarrow> write_fault option) \<Rightarrow> payload \<Rightarrow> sys_outcome" where
  "write_outcome dry faults p = with_fault (if \<not> dry \<and> faults (pl_dir p) \<noteq> None then Some WriteFault else None) p"

text \<open>The name that \<open>os.CreateTemp\<close> gives, with its random part.\<close>

definition temp_name :: "nat \<Rightarrow> string \<Rightarrow> string \<Rightarrow> string" where
  "temp_name pid rnd d = d @ ''/'' @ temp_prefix @ nat_digits pid @ ''.'' @ rnd @ ''.tmp''"

text \<open>
  The phases of a pass: its result and the operations on the file system in their order, the writes and
  then the removal of old temporaries.
\<close>

definition gen_pass :: "roots \<Rightarrow> (string \<Rightarrow> fs_node option) \<Rightarrow> (string \<Rightarrow> string) \<Rightarrow> (string \<Rightarrow> write_fault option) \<Rightarrow>
    nat \<Rightarrow> instant \<Rightarrow> bool \<Rightarrow> custom_collection list \<Rightarrow> store \<Rightarrow> gen_result \<times> fs_op list" where
  "gen_pass rt disk rnd faults pid born dry colls st =
    (let built = List.map_filter (build_one rt disk colls st) (systems st);
         payloads = rights built;
         good = filter (\<lambda>p. accepts (pl_bytes p)) payloads;
         bad = filter (\<lambda>p. \<not> accepts (pl_bytes p)) payloads;
         writes = concat (map (\<lambda>p. write_atomic (faults (pl_dir p)) (temp_name pid (rnd (pl_dir p)) (pl_dir p)) (target_of p) (pl_bytes p)) good);
         sweep = concat (map (\<lambda>d. map (\<lambda>n. OpRemove (d @ ''/'' @ n)) (swept_names pid born (disk d))) (remdups (map pl_dir payloads)))
     in (\<lparr>ge_systems = lefts built @ map (with_fault (Some Refused)) bad @ map (write_outcome dry faults) good,
          ge_validated = (bad = []), ge_dry = dry\<rparr>,
         if dry then [] else writes @ sweep))"

definition gen_status :: "gen_result \<Rightarrow> run_status" where
  "gen_status r = (if list_ex (\<lambda>oc. so_fault oc \<noteq> None) (ge_systems r) then RunError else RunOk)"

datatype gen_error_text = NoError | ValidationRefused | SystemsFailed nat

record generator =
  gn_running :: bool
  gn_error :: gen_error_text
  gn_last_ok :: "instant option"

definition error_text :: "gen_result \<Rightarrow> gen_error_text" where
  "error_text r = (if \<not> ge_validated r then ValidationRefused
     else if gen_status r \<noteq> RunOk then SystemsFailed (length (filter (\<lambda>oc. so_fault oc \<noteq> None) (ge_systems r)))
     else NoError)"

definition gen_run :: "(gen_result \<Rightarrow> string) \<Rightarrow> instant \<Rightarrow> instant \<Rightarrow> gen_result \<Rightarrow> store \<Rightarrow> generator \<Rightarrow> store \<times> generator" where
  "gen_run detail started finished res st g =
    (let (i, st1) = start_run ''generate'' started st; st2 = finish_run i (gen_status res) (detail res) finished st1
     in (st2, g\<lparr>gn_error := error_text res,
               gn_last_ok := (if gen_status res = RunOk then Some finished else gn_last_ok g)\<rparr>))"

text \<open>
  \<open>claim\<close> and \<open>release\<close> with the shared pipeline slot, whose state is whether it is held; None is no
  slot configured.
\<close>

definition claim :: "bool option \<Rightarrow> generator \<Rightarrow> (bool option \<times> generator) option" where
  "claim slot g = (if gn_running g then None
     else (case slot of Some True \<Rightarrow> None | Some False \<Rightarrow> Some (Some True, g\<lparr>gn_running := True\<rparr>)
         | None \<Rightarrow> Some (None, g\<lparr>gn_running := True\<rparr>)))"

definition release :: "bool option \<Rightarrow> generator \<Rightarrow> bool option \<times> generator" where
  "release slot g = (map_option (\<lambda>_. False) slot, g\<lparr>gn_running := False\<rparr>)"

text \<open>
  \<open>GenerateFresh\<close>: the collections are read from the store after both claims, so that they are those of
  the store that the pass renders.
\<close>

definition generate_fresh :: "roots \<Rightarrow> (string \<Rightarrow> fs_node option) \<Rightarrow> (string \<Rightarrow> string) \<Rightarrow> (string \<Rightarrow> write_fault option) \<Rightarrow>
    nat \<Rightarrow> instant \<Rightarrow> (gen_result \<Rightarrow> string) \<Rightarrow> instant \<Rightarrow> instant \<Rightarrow> bool \<Rightarrow> (store \<Rightarrow> custom_collection list option) \<Rightarrow>
    bool option \<Rightarrow> store \<Rightarrow> generator \<Rightarrow> (gen_result \<times> fs_op list) option \<times> bool option \<times> store \<times> generator" where
  "generate_fresh rt disk rnd faults pid born detail started finished dry provide slot st g =
    (case claim slot g of None \<Rightarrow> (None, slot, st, g)
     | Some (slot1, g1) \<Rightarrow> (case provide st of
         None \<Rightarrow> (case release slot1 g1 of (slot2, g2) \<Rightarrow> (None, slot2, st, g2))
       | Some colls \<Rightarrow>
          (let out = gen_pass rt disk rnd faults pid born dry colls st;
               (st1, g2) = gen_run detail started finished (fst out) st g1; (slot2, g3) = release slot1 g2
           in (Some out, slot2, st1, g3))))"

end
