(* ===== verification/GenerateSpec.thy ===== *)
theory GenerateSpec
  imports Generate
begin

text \<open>
  The file the generator writes reads back as the collections it was asked for, it passes the validator
  exactly when no two of its targets and names collide, and a process killed at any moment leaves each
  served file as it was or complete.
\<close>

section \<open>Sanitised values\<close>

lemma is_space_controls: "is_space c \<Longrightarrow> code c = 32 \<or> is_control c"
  by (auto simp: is_space_def is_control_def)

lemma join_semi: "join_with ''; '' (p # q # qs) = p @ ''; '' @ join_with ''; '' (q # qs)"
  by (simp add: join_with_def)

lemma join_ends:
  assumes "ps \<noteq> []" "\<And>p. p \<in> set ps \<Longrightarrow> p \<noteq> [] \<and> \<not> is_space (hd p) \<and> \<not> is_space (last p)"
  shows "join_with ''; '' ps \<noteq> [] \<and> \<not> is_space (hd (join_with ''; '' ps)) \<and> \<not> is_space (last (join_with ''; '' ps))"
  using assms
proof (induction ps rule: induct_list012)
  case (2 p)
  then show ?case by (simp add: join_with_def)
next
  case (3 p q qs)
  then have "join_with ''; '' (q # qs) \<noteq> [] \<and> \<not> is_space (last (join_with ''; '' (q # qs)))" by simp
  moreover have "p \<noteq> []" "\<not> is_space (hd p)" using "3.prems"(2) [of p] by simp_all
  ultimately show ?case unfolding join_semi by simp
qed simp

definition value_pieces :: "string \<Rightarrow> string list" where
  "value_pieces s = filter (\<lambda>p. p \<noteq> [])
     (map (\<lambda>p. trim_space (filter (\<lambda>c. \<not> is_control c) p)) (split_byte newline (cr_to_lf (crlf_to_lf s))))"

lemma sanitize_pieces: "sanitize_value s = join_with ''; '' (value_pieces s)"
  by (simp add: sanitize_value_def value_pieces_def)

lemma trim_space_subset: "set (trim_space s) \<subseteq> set s"
  using set_dropWhileD [of _ is_space s] set_dropWhileD [of _ is_space "rev (dropWhile is_space s)"]
  by (auto simp: trim_space_def trim_left_if_def trim_right_if_def)

lemma newline_char: "newline = CHR 0x0A"
  unfolding newline_def by code_simp

lemma dquote_char: "dquote = CHR 0x22"
  unfolding dquote_def by code_simp

lemma sanitize_no_control: "c \<in> set (sanitize_value s) \<Longrightarrow> \<not> is_control c"
proof -
  assume "c \<in> set (sanitize_value s)"
  then consider "c \<in> set ''; ''" | p where "p \<in> set (value_pieces s)" "c \<in> set p"
    using set_join [of "''; ''" "value_pieces s"] unfolding sanitize_pieces by auto
  then show ?thesis
  proof cases
    case 1
    then show ?thesis by (auto simp: is_control_def code_def)
  next
    case 2
    then obtain q where "c \<in> set (trim_space (filter (\<lambda>c. \<not> is_control c) q))" by (auto simp: value_pieces_def)
    then show ?thesis using trim_space_subset by fastforce
  qed
qed

lemma newline_control: "is_control newline"
  by (simp add: is_control_def newline_def)

lemma sanitize_good [simp]: "good_value (sanitize_value s)"
proof -
  have "newline \<notin> set (sanitize_value s)" using sanitize_no_control newline_control by blast
  moreover have "trim_space (sanitize_value s) = sanitize_value s"
  proof (cases "value_pieces s = []")
    case False
    have "p \<noteq> [] \<and> \<not> is_space (hd p) \<and> \<not> is_space (last p)" if p: "p \<in> set (value_pieces s)" for p
    proof -
      obtain q where "p = trim_space q" "p \<noteq> []" using p by (auto simp: value_pieces_def)
      then show ?thesis using trim_space_cases [of q] by simp
    qed
    then show ?thesis unfolding sanitize_pieces using join_ends [OF False] by (intro trim_space_id) blast+
  qed (simp add: sanitize_pieces join_with_def)
  ultimately show ?thesis by (simp add: good_value_def)
qed

lemma good_value_append_end:
  assumes "good_value v" "v \<noteq> []" "newline \<notin> set w" "w \<noteq> []" "\<not> is_space (last w)"
  shows "good_value (v @ w)"
proof -
  have "\<not> is_space (hd v)" using assms(1,2) trim_space_ends [of v] by (simp add: good_value_def)
  then have "trim_space (v @ w) = v @ w" using assms by (intro trim_space_id) auto
  then show ?thesis using assms by (simp add: good_value_def)
qed

lemma block_title_good [simp]: "good_value (block_title rel)"
  by (simp add: block_title_def Let_def)

lemma pending_title_good: "sanitize_value s \<noteq> [] \<Longrightarrow> good_value (sanitize_value s @ '' (Pending)'')"
  by (rule good_value_append_end) (simp_all add: newline_char is_space_def code_def)

lemma launch_line_good: "newline \<notin> set l \<Longrightarrow> l \<noteq> [] \<Longrightarrow> \<not> is_space (hd l) \<Longrightarrow> good_value (launch_line l)"
  unfolding good_value_def
  by (intro conjI trim_space_id) (simp_all add: launch_line_def newline_char dquote_char is_space_def code_def)

lemma launch_of_head: "launch_of s = Some l \<Longrightarrow> l \<noteq> [] \<and> \<not> is_space (hd l)"
  by (auto simp: launch_of_def is_space_def code_def split: if_splits)

section \<open>Lines of a file\<close>

definition section_lines :: "string list \<Rightarrow> string list list \<Rightarrow> string list" where
  "section_lines header blocks = header @ concat (map (Cons []) blocks)"

definition file_lines :: "string list \<Rightarrow> string list list \<Rightarrow> section_of list \<Rightarrow> string list" where
  "file_lines header main sections = section_lines header main
     @ concat (map (\<lambda>s. [] # section_lines (se_header s) (se_blocks s)) sections)"

definition glue :: "string list \<Rightarrow> string" where
  "glue ls = concat (map (Cons newline) ls)"

lemma glue_append [simp]: "glue (xs @ ys) = glue xs @ glue ys"
  by (simp add: glue_def)

lemma glue_Cons [simp]: "glue (x # xs) = newline # x @ glue xs"
  by (simp add: glue_def)

lemma glue_Nil [simp]: "glue [] = []"
  by (simp add: glue_def)

lemma join_glue: "ls \<noteq> [] \<Longrightarrow> newline # join_with [newline] ls = glue ls"
proof -
  have "(@) [newline] = Cons newline" by (rule ext) simp
  then show "ls \<noteq> [] \<Longrightarrow> newline # join_with [newline] ls = glue ls"
    by (cases ls) (simp_all add: join_with_def glue_def)
qed

lemma emit_glue: "[] \<notin> set bs \<Longrightarrow> emit_blocks bs = glue (concat (map (Cons []) bs))"
  by (induction bs) (auto simp: emit_blocks_def join_glue)

lemma sections_glue:
  assumes "\<And>s. s \<in> set ss \<Longrightarrow> se_header s \<noteq> [] \<and> [] \<notin> set (se_blocks s)"
  shows "concat (map (\<lambda>s. [newline, newline] @ join_with [newline] (se_header s) @ emit_blocks (se_blocks s)) ss)
    = glue (concat (map (\<lambda>s. [] # section_lines (se_header s) (se_blocks s)) ss))"
  using assms
proof (induction ss)
  case (Cons s ss)
  then have "newline # join_with [newline] (se_header s) = glue (se_header s)" "[] \<notin> set (se_blocks s)"
    by (simp_all add: join_glue)
  then show ?case using Cons by (simp add: section_lines_def emit_glue)
qed simp

lemma assemble_lines:
  assumes "header \<noteq> []" "[] \<notin> set main" "\<And>s. s \<in> set ss \<Longrightarrow> se_header s \<noteq> [] \<and> [] \<notin> set (se_blocks s)"
    "\<And>l. l \<in> set (file_lines header main ss) \<Longrightarrow> newline \<notin> set l"
  shows "split_byte newline (assemble header main ss) = file_lines header main ss @ [[]]"
proof -
  have "newline # assemble header main ss = glue (file_lines header main ss @ [[]])"
    using join_glue [OF assms(1)]
    by (simp add: assemble_def file_lines_def section_lines_def emit_glue [OF assms(2)] sections_glue [OF assms(3)] flip: append_Cons)
  also have "\<dots> = newline # join_with [newline] (file_lines header main ss @ [[]])"
    by (rule join_glue [symmetric]) simp
  finally have "assemble header main ss = join_with [newline] (file_lines header main ss @ [[]])" by simp
  then show ?thesis using assms(4) by (simp only:) (rule split_join; auto)
qed

lemma kv_newline: "good_key k \<Longrightarrow> good_value v \<Longrightarrow> newline \<notin> set (kv k v)"
  by (simp add: kv_def good_key_def good_value_def newline_char)

section \<open>The expected collections\<close>

fun put_all :: "(string \<times> string) list \<Rightarrow> (string \<rightharpoonup> string) \<Rightarrow> (string \<rightharpoonup> string)" where
  "put_all [] m = m"
| "put_all ((k, v) # kvs) m = put_all kvs (m(k \<mapsto> v))"

lemma put_all_map_of: "distinct (map fst kvs) \<Longrightarrow> put_all kvs m = m ++ map_of kvs"
proof (induction kvs arbitrary: m)
  case (Cons a kvs)
  then show ?case by (cases a) (simp add: map_add_upd_left dom_map_of_conv_image_fst del: fun_upd_apply)
qed simp

definition kept_fields :: "game \<Rightarrow> (string \<times> string) list" where
  "kept_fields g = filter (\<lambda>(k, v). v \<noteq> []) (map (\<lambda>(k, v). (k, sanitize_value v)) (meta_fields g))"

definition expected_game :: "fs_node \<Rightarrow> game \<Rightarrow> peg_game" where
  "expected_game dir g = \<lparr>pg_title = block_title (gm_rel g), pg_file = sanitize_value (gm_rel g), pg_fields = map_of (kept_fields g),
     pg_multi = Map.empty, pg_assets = map_of (media_assets dir (strip_ext (path_base (gm_rel g))))\<rparr>"

definition expected_file :: "system_row \<Rightarrow> string \<Rightarrow> game list \<Rightarrow> fs_node \<Rightarrow> custom_view list \<Rightarrow> peg_collection list" where
  "expected_file s launch games dir views =
    \<lparr>pc_title = sanitize_value (sr_collection s), pc_short = sr_key s, pc_summary = [], pc_launch = launch_line launch,
      pc_games = map (expected_game dir) (playable_games games dir)\<rparr>
    # (if pending_games games dir \<noteq> [] then
        [\<lparr>pc_title = sanitize_value (sr_collection s) @ '' (Pending)'', pc_short = sr_key s @ ''-pending'', pc_summary = pending_summary,
          pc_launch = [], pc_games = map (expected_game dir) (pending_games games dir)\<rparr>] else [])
    @ map (\<lambda>v. \<lparr>pc_title = sanitize_value (cv_title v), pc_short = cv_short v, pc_summary = sanitize_value (cv_summary v),
        pc_launch = launch_line launch, pc_games = map (expected_game dir) (custom_members_of v games dir)\<rparr>)
      (live_views views games dir)"

text \<open>
  What the values that are written without sanitising must be: the system's key, the launch command, the
  names of the collections and of the artwork.
\<close>

definition clean_assets :: "fs_node \<Rightarrow> game \<Rightarrow> bool" where
  "clean_assets dir g \<longleftrightarrow> list_all (\<lambda>(k, v). good_key (asset_prefix @ k) \<and> good_value v)
     (media_assets dir (strip_ext (path_base (gm_rel g))))"

definition clean_input :: "system_row \<Rightarrow> string \<Rightarrow> game list \<Rightarrow> fs_node \<Rightarrow> custom_view list \<Rightarrow> bool" where
  "clean_input s launch games dir views \<longleftrightarrow> good_value (sr_key s) \<and> sr_key s \<noteq> [] \<and> sanitize_value (sr_collection s) \<noteq> [] \<and>
     newline \<notin> set launch \<and> list_all (\<lambda>v. good_value (cv_short v)) views \<and> list_all (clean_assets dir) games"

section \<open>Reading a block\<close>

text \<open>The state stands for these finished collections and this current one.\<close>

definition stands :: "peg_state \<Rightarrow> peg_collection list \<Rightarrow> peg_collection \<Rightarrow> bool" where
  "stands S D c \<longleftrightarrow> ps_done S = D \<and> (\<exists>c0. ps_cur S = Some c0 \<and> flush_game c0 (ps_game S) = c)"

lemma good_keys [simp]:
  "good_key ''collection''" "good_key ''shortname''" "good_key ''summary''" "good_key ''launch''" "good_key ''game''" "good_key ''file''"
  "good_key ''description''" "good_key ''release''" "good_key ''developer''" "good_key ''publisher''" "good_key ''genre''" "good_key ''rating''"
  by (simp_all add: good_key_def newline_char is_space_def code_def)

definition field_key :: "string \<Rightarrow> bool" where
  "field_key k \<longleftrightarrow> k \<in> set (map fst (meta_fields undefined))"

lemma field_key_iff: "field_key k \<longleftrightarrow> k \<in> {''description'', ''release'', ''developer'', ''publisher'', ''genre'', ''rating''}"
  by (simp add: field_key_def meta_fields_def)

lemma peg_entry_field:
  assumes "field_key k" "ps_cur S = Some c" "ps_game S = Some g" "pg_fields g k = None"
  shows "peg_entry no k v S = Inr (S\<lparr>ps_game := Some (g\<lparr>pg_fields := (pg_fields g)(k \<mapsto> v)\<rparr>)\<rparr>)"
proof -
  have "k \<noteq> ''collection''" "k \<noteq> ''game''" "k \<noteq> ''file''" "\<not> header_key k" "\<not> prefix asset_prefix k"
    using assms(1) by (auto simp: field_key_iff header_key_def asset_prefix_def)
  then show ?thesis using assms(2-4) by (simp add: peg_entry_def set_field_def)
qed

lemma peg_entry_asset:
  assumes "ps_cur S = Some c" "ps_game S = Some g"
  shows "peg_entry no (asset_prefix @ k) v S = Inr (S\<lparr>ps_game := Some (g\<lparr>pg_assets := (pg_assets g)(k \<mapsto> v)\<rparr>)\<rparr>)"
proof -
  have "asset_prefix @ k \<noteq> ''collection''" "asset_prefix @ k \<noteq> ''game''" "asset_prefix @ k \<noteq> ''file''" "\<not> header_key (asset_prefix @ k)"
    by (simp_all add: header_key_def asset_prefix_def)
  then show ?thesis using assms by (simp add: peg_entry_def)
qed

lemma reads_fields:
  assumes "ps_cur S = Some c" "ps_game S = Some g" "\<And>k v. (k, v) \<in> set kvs \<Longrightarrow> field_key k \<and> good_value v \<and> pg_fields g k = None"
    "distinct (map fst kvs)"
  shows "reads (map (\<lambda>(k, v). kv k v) kvs) S
    (S\<lparr>ps_game := Some (g\<lparr>pg_fields := put_all kvs (pg_fields g)\<rparr>)\<rparr>)"
  using assms
proof (induction kvs arbitrary: S g)
  case Nil
  then have "S\<lparr>ps_game := Some g\<rparr> = S" by (cases S) simp
  then show ?case by (simp add: reads_Nil)
next
  case (Cons a kvs)
  obtain k v where a: "a = (k, v)" by (cases a)
  let ?g1 = "g\<lparr>pg_fields := (pg_fields g)(k \<mapsto> v)\<rparr>"
  have fk: "field_key k" "good_value v" "pg_fields g k = None" using Cons.prems(3) [of k v] by (simp_all add: a)
  have gk: "good_key k" using fk(1) by (auto simp: field_key_iff)
  have "reads (map (\<lambda>(k, v). kv k v) kvs) (S\<lparr>ps_game := Some ?g1\<rparr>)
      (S\<lparr>ps_game := Some ?g1, ps_game := Some (?g1\<lparr>pg_fields := put_all kvs (pg_fields ?g1)\<rparr>)\<rparr>)"
  proof (rule Cons.IH)
    have new: "k \<notin> fst ` set kvs" "distinct (map fst kvs)" using Cons.prems(4) by (simp_all add: a)
    then show "distinct (map fst kvs)" by simp
    fix k' v' assume kv': "(k', v') \<in> set kvs"
    then have "k' \<noteq> k" using new(1) by force
    then show "field_key k' \<and> good_value v' \<and> pg_fields ?g1 k' = None" using Cons.prems(3) [of k' v'] kv' by simp
  qed (simp_all add: Cons.prems(1))
  from reads_kv [OF gk fk(2) peg_entry_field [OF fk(1) Cons.prems(1,2) fk(3)] this] show ?case by (simp add: a del: fun_upd_apply)
qed

lemma reads_assets:
  assumes "ps_cur S = Some c" "ps_game S = Some g" "\<And>k v. (k, v) \<in> set kvs \<Longrightarrow> good_key (asset_prefix @ k) \<and> good_value v"
  shows "reads (map (\<lambda>(k, v). kv (asset_prefix @ k) v) kvs) S
    (S\<lparr>ps_game := Some (g\<lparr>pg_assets := put_all kvs (pg_assets g)\<rparr>)\<rparr>)"
  using assms
proof (induction kvs arbitrary: S g)
  case Nil
  then have "S\<lparr>ps_game := Some g\<rparr> = S" by (cases S) simp
  then show ?case by (simp add: reads_Nil)
next
  case (Cons a kvs)
  obtain k v where a: "a = (k, v)" by (cases a)
  let ?g1 = "g\<lparr>pg_assets := (pg_assets g)(k \<mapsto> v)\<rparr>"
  have gk: "good_key (asset_prefix @ k)" "good_value v" using Cons.prems(3) [of k v] by (simp_all add: a)
  have "reads (map (\<lambda>(k, v). kv (asset_prefix @ k) v) kvs) (S\<lparr>ps_game := Some ?g1\<rparr>)
      (S\<lparr>ps_game := Some ?g1, ps_game := Some (?g1\<lparr>pg_assets := put_all kvs (pg_assets ?g1)\<rparr>)\<rparr>)"
  proof (rule Cons.IH)
    fix k' v' assume "(k', v') \<in> set kvs"
    then show "good_key (asset_prefix @ k') \<and> good_value v'" using Cons.prems(3) [of k' v'] by simp
  qed (simp_all add: Cons.prems(1))
  from reads_kv [OF gk peg_entry_asset [OF Cons.prems(1,2)] this] show ?case by (simp add: a del: fun_upd_apply)
qed

lemma first_stems_distinct: "distinct (map strip_ext (first_stems names))"
proof -
  have "distinct (map strip_ext (fold (\<lambda>n out. if strip_ext n \<in> set (map strip_ext out) then out else n # out) names out))"
    if "distinct (map strip_ext out)" for out
    using that by (induction names arbitrary: out) auto
  from this [of "[]"] show ?thesis by (simp add: first_stems_def rev_map [symmetric])
qed

lemma media_assets_distinct: "distinct (map fst (media_assets dir base))"
  by (auto simp: media_assets_def comp_def first_stems_distinct split: option.split fs_node.split)

lemma kept_fields_keys: "(k, v) \<in> set (kept_fields g) \<Longrightarrow> field_key k \<and> good_value v"
proof -
  assume "(k, v) \<in> set (kept_fields g)"
  then have "(k, v) \<in> set (map (\<lambda>(k, v). (k, sanitize_value v)) (meta_fields g))"
    unfolding kept_fields_def set_filter by blast
  then show ?thesis by (auto simp: meta_fields_def field_key_iff)
qed

lemma kept_fields_distinct: "distinct (map fst (kept_fields g))"
proof -
  have "distinct (map fst (map (\<lambda>(k, v). (k, sanitize_value v)) (meta_fields g)))" by (simp add: meta_fields_def)
  then show ?thesis unfolding kept_fields_def by (rule distinct_map_filter)
qed

lemma field_lines_kept: "field_lines (meta_fields g) = map (\<lambda>(k, v). kv k v) (kept_fields g)"
  by (simp add: field_lines_def kept_fields_def)

lemma reads_block:
  assumes "stands S D c" "clean_assets dir g"
  shows "\<exists>S'. reads ([] # game_block g dir) S S' \<and> stands S' D (c\<lparr>pc_games := pc_games c @ [expected_game dir g]\<rparr>)"
proof -
  obtain c0 where c0: "ps_done S = D" "ps_cur S = Some c0" "flush_game c0 (ps_game S) = c" using assms(1) by (auto simp: stands_def)
  let ?as = "media_assets dir (strip_ext (path_base (gm_rel g)))"
  define g1 where "g1 = new_peg_game (block_title (gm_rel g))"
  define g2 where "g2 = g1\<lparr>pg_file := sanitize_value (gm_rel g)\<rparr>"
  define g3 where "g3 = g2\<lparr>pg_fields := put_all (kept_fields g) (pg_fields g2)\<rparr>"
  define g4 where "g4 = g3\<lparr>pg_assets := put_all ?as (pg_assets g3)\<rparr>"
  define S1 where "S1 = S\<lparr>ps_cur := Some c, ps_game := Some g1\<rparr>"
  have e1: "peg_entry no ''game'' (block_title (gm_rel g)) S = Inr S1" for no
    using c0 by (simp add: peg_entry_def header_key_def S1_def g1_def)
  have e2: "peg_entry no ''file'' (sanitize_value (gm_rel g)) S1 = Inr (S1\<lparr>ps_game := Some g2\<rparr>)" for no
    by (simp add: peg_entry_def header_key_def S1_def g2_def)
  have f: "reads (map (\<lambda>(k, v). kv k v) (kept_fields g)) (S1\<lparr>ps_game := Some g2\<rparr>)
      (S1\<lparr>ps_game := Some g2, ps_game := Some g3\<rparr>)"
    unfolding g3_def
    by (rule reads_fields [where c = c]) (simp_all add: S1_def g2_def g1_def new_peg_game_def kept_fields_keys kept_fields_distinct)
  have a: "reads (map (\<lambda>(k, v). kv (asset_prefix @ k) v) ?as) (S1\<lparr>ps_game := Some g3\<rparr>)
      (S1\<lparr>ps_game := Some g3, ps_game := Some g4\<rparr>)"
    unfolding g4_def using assms(2)
    by (intro reads_assets [where c = c]) (auto simp: S1_def clean_assets_def list_all_iff)
  have "reads ([] # game_block g dir) S (S1\<lparr>ps_game := Some g4\<rparr>)"
    unfolding game_block_def field_lines_kept append_Cons append_Nil
    using reads_append [OF f [simplified] a [simplified]]
    by (intro reads_blank reads_kv [OF _ _ e1] reads_kv [OF _ _ e2]) simp_all
  moreover have "g4 = expected_game dir g"
    by (simp add: g4_def g3_def g2_def g1_def new_peg_game_def expected_game_def put_all_map_of media_assets_distinct kept_fields_distinct)
  then have "stands (S1\<lparr>ps_game := Some g4\<rparr>) D (c\<lparr>pc_games := pc_games c @ [expected_game dir g]\<rparr>)"
    using c0(1) by (simp add: stands_def S1_def flush_game_def)
  ultimately show ?thesis by blast
qed

lemma reads_blocks:
  assumes "stands S D c" "list_all (clean_assets dir) gs"
  shows "\<exists>S'. reads (concat (map (\<lambda>g. [] # game_block g dir) gs)) S S' \<and>
    stands S' D (c\<lparr>pc_games := pc_games c @ map (expected_game dir) gs\<rparr>)"
  using assms
proof (induction gs arbitrary: S c)
  case Nil
  then show ?case by (auto intro: reads_Nil)
next
  case (Cons g gs)
  obtain S1 where S1: "reads ([] # game_block g dir) S S1" "stands S1 D (c\<lparr>pc_games := pc_games c @ [expected_game dir g]\<rparr>)"
    using reads_block [OF Cons.prems(1)] Cons.prems(2) by fastforce
  obtain S2 where "reads (concat (map (\<lambda>g. [] # game_block g dir) gs)) S1 S2"
    "stands S2 D (c\<lparr>pc_games := (pc_games c @ [expected_game dir g]) @ map (expected_game dir) gs\<rparr>)"
    using Cons.IH [OF S1(2)] Cons.prems(2) by auto
  then show ?case using reads_append [OF S1(1)] by auto
qed

section \<open>Reading a header\<close>

definition opened :: "peg_collection list \<Rightarrow> peg_collection \<Rightarrow> peg_state" where
  "opened D c = \<lparr>ps_done = D, ps_cur = Some c, ps_game = None\<rparr>"

lemma stands_opened: "stands (opened D c) D c"
  by (simp add: stands_def opened_def flush_game_def)

lemma entry_first: "peg_entry no ''collection'' t peg_start = Inr (opened [] (new_collection t))"
  by (simp add: peg_entry_def peg_start_def opened_def)

lemma entry_next: "stands S D c \<Longrightarrow> peg_entry no ''collection'' t S = Inr (opened (D @ [c]) (new_collection t))"
  by (auto simp: peg_entry_def stands_def opened_def)

lemma entry_header: "header_key k \<Longrightarrow> pc_games c = [] \<Longrightarrow> peg_entry no k v (opened D c) = Inr (opened D (set_header k v c))"
  by (auto simp: peg_entry_def header_key_def opened_def)

lemma header_keys [simp]: "header_key ''shortname''" "header_key ''summary''" "header_key ''launch''"
  by (simp_all add: header_key_def)

lemma set_header_games [simp]: "pc_games (set_header k v c) = pc_games c" "pc_games (new_collection t) = []"
  by (simp_all add: set_header_def new_collection_def)

lemma reads_entry:
  "header_key k \<Longrightarrow> good_key k \<Longrightarrow> good_value v \<Longrightarrow> pc_games c = [] \<Longrightarrow> reads ls (opened D (set_header k v c)) S2 \<Longrightarrow>
    reads (kv k v # ls) (opened D c) S2"
  by (rule reads_kv) (simp_all add: entry_header)

lemma reads_main_header:
  assumes "good_value (sr_key s)" "good_value (launch_line launch)"
  shows "reads (header_lines s launch) peg_start (opened [] \<lparr>pc_title = sanitize_value (sr_collection s), pc_short = sr_key s,
    pc_summary = [], pc_launch = launch_line launch, pc_games = []\<rparr>)"
proof -
  define c where "c = set_header ''launch'' (launch_line launch) (set_header ''shortname'' (sr_key s) (new_collection (sanitize_value (sr_collection s))))"
  have "reads (header_lines s launch) peg_start (opened [] c)"
    unfolding header_lines_def c_def
    by (intro reads_kv [OF _ _ entry_first] reads_entry reads_Nil) (simp_all add: assms)
  then show ?thesis by (simp add: c_def set_header_def new_collection_def)
qed

lemma marker_comments: "prefix ''#'' (pending_marker @ managed)" "prefix ''#'' (custom_marker @ managed)"
  by (simp_all add: pending_marker_def custom_marker_def)

lemma marker_newline: "newline \<notin> set (pending_marker @ managed)" "newline \<notin> set (custom_marker @ managed)"
  by (simp_all add: newline_char pending_marker_def custom_marker_def managed_def)

lemma pending_summary_good: "good_value pending_summary"
  unfolding good_value_def
  by (intro conjI trim_space_id; simp add: pending_summary_def newline_char is_space_def code_def)

lemma pending_short_good: "good_value k \<Longrightarrow> k \<noteq> [] \<Longrightarrow> good_value (k @ ''-pending'')"
  by (rule good_value_append_end) (simp_all add: newline_char is_space_def code_def)

lemma reads_pending_header:
  assumes "stands S D c" "good_value (sr_key s)" "sr_key s \<noteq> []" "sanitize_value (sr_collection s) \<noteq> []"
  shows "reads ([] # pending_header s) S (opened (D @ [c]) \<lparr>pc_title = sanitize_value (sr_collection s) @ '' (Pending)'',
    pc_short = sr_key s @ ''-pending'', pc_summary = pending_summary, pc_launch = [], pc_games = []\<rparr>)"
proof -
  define c1 where "c1 = set_header ''summary'' pending_summary (set_header ''shortname'' (sr_key s @ ''-pending'')
     (new_collection (sanitize_value (sr_collection s) @ '' (Pending)'')))"
  have "reads ([] # pending_header s) S (opened (D @ [c]) c1)"
    unfolding pending_header_def c1_def pending_suffix_def
    by (intro reads_blank reads_comment reads_kv [OF _ _ entry_next [OF assms(1)]] reads_entry reads_Nil)
      (simp_all add: assms marker_comments pending_summary_good pending_short_good pending_title_good)
  then show ?thesis by (simp add: c1_def set_header_def new_collection_def)
qed

lemma reads_custom_header:
  assumes "stands S D c" "good_value (cv_short v)" "good_value (launch_line launch)"
  shows "reads ([] # custom_header v launch) S (opened (D @ [c]) \<lparr>pc_title = sanitize_value (cv_title v),
    pc_short = cv_short v, pc_summary = sanitize_value (cv_summary v), pc_launch = launch_line launch, pc_games = []\<rparr>)"
proof (cases "sanitize_value (cv_summary v) = []")
  case True
  then have h: "custom_header v launch = [custom_marker @ managed, kv ''collection'' (sanitize_value (cv_title v)),
      kv ''shortname'' (cv_short v), kv ''launch'' (launch_line launch)]" by (simp add: custom_header_def)
  define c1 where "c1 = set_header ''launch'' (launch_line launch) (set_header ''shortname'' (cv_short v) (new_collection (sanitize_value (cv_title v))))"
  have "reads ([] # custom_header v launch) S (opened (D @ [c]) c1)"
    unfolding h c1_def
    by (intro reads_blank reads_comment reads_kv [OF _ _ entry_next [OF assms(1)]] reads_entry reads_Nil)
      (simp_all add: assms marker_comments)
  then show ?thesis by (simp add: c1_def set_header_def new_collection_def True)
next
  case False
  define c1 where "c1 = set_header ''launch'' (launch_line launch) (set_header ''summary'' (sanitize_value (cv_summary v))
     (set_header ''shortname'' (cv_short v) (new_collection (sanitize_value (cv_title v)))))"
  have "reads ([] # custom_header v launch) S (opened (D @ [c]) c1)"
    unfolding custom_header_def c1_def if_P [OF False] append_Nil append_Cons
    by (intro reads_blank reads_comment reads_kv [OF _ _ entry_next [OF assms(1)]] reads_entry reads_Nil)
      (simp_all add: assms marker_comments)
  then show ?thesis by (simp add: c1_def set_header_def new_collection_def)
qed

section \<open>Reading the file\<close>

lemma section_lines_games: "section_lines h (map (\<lambda>g. game_block g dir) gs) = h @ concat (map (\<lambda>g. [] # game_block g dir) gs)"
  by (simp add: section_lines_def comp_def)

lemma reads_section:
  assumes "reads ([] # h) S (opened D c)" "pc_games c = []" "list_all (clean_assets dir) gs"
  shows "\<exists>S'. reads ([] # section_lines h (map (\<lambda>g. game_block g dir) gs)) S S' \<and> stands S' D (c\<lparr>pc_games := map (expected_game dir) gs\<rparr>)"
proof -
  obtain S' where "reads (concat (map (\<lambda>g. [] # game_block g dir) gs)) (opened D c) S'"
    "stands S' D (c\<lparr>pc_games := pc_games c @ map (expected_game dir) gs\<rparr>)"
    using reads_blocks [OF stands_opened assms(3)] by blast
  with reads_append [OF assms(1)] assms(2) show ?thesis by (auto simp: section_lines_games)
qed

lemma reads_customs:
  assumes "stands S D c" "good_value (launch_line launch)" "list_all (\<lambda>v. good_value (cv_short v)) vs"
    "\<And>v. list_all (clean_assets dir) (ms v)"
  shows "\<exists>S' D' c'. reads (concat (map (\<lambda>v. [] # section_lines (custom_header v launch) (map (\<lambda>g. game_block g dir) (ms v))) vs)) S S' \<and>
    stands S' D' c' \<and> D' @ [c'] = D @ [c] @ map (\<lambda>v. \<lparr>pc_title = sanitize_value (cv_title v), pc_short = cv_short v,
      pc_summary = sanitize_value (cv_summary v), pc_launch = launch_line launch, pc_games = map (expected_game dir) (ms v)\<rparr>) vs"
  using assms(1,3)
proof (induction vs arbitrary: S D c)
  case Nil
  then show ?case by (auto intro: reads_Nil)
next
  case (Cons v vs)
  let ?c1 = "\<lparr>pc_title = sanitize_value (cv_title v), pc_short = cv_short v, pc_summary = sanitize_value (cv_summary v),
    pc_launch = launch_line launch, pc_games = map (expected_game dir) (ms v)\<rparr>"
  have "good_value (cv_short v)" "list_all (\<lambda>v. good_value (cv_short v)) vs" using Cons.prems(2) by simp_all
  note h = reads_custom_header [OF Cons.prems(1) this(1) assms(2)]
  obtain S1 where S1: "reads ([] # section_lines (custom_header v launch) (map (\<lambda>g. game_block g dir) (ms v))) S S1" "stands S1 (D @ [c]) ?c1"
    using reads_section [OF h _ assms(4) [of v]] by auto
  obtain S2 D' c' where S2: "reads (concat (map (\<lambda>v. [] # section_lines (custom_header v launch) (map (\<lambda>g. game_block g dir) (ms v))) vs)) S1 S2"
    "stands S2 D' c'" "D' @ [c'] = (D @ [c]) @ [?c1] @ map (\<lambda>v. \<lparr>pc_title = sanitize_value (cv_title v), pc_short = cv_short v,
      pc_summary = sanitize_value (cv_summary v), pc_launch = launch_line launch, pc_games = map (expected_game dir) (ms v)\<rparr>) vs"
    using Cons.IH [OF S1(2) \<open>list_all (\<lambda>v. good_value (cv_short v)) vs\<close>] by blast
  show ?case
    using reads_append [OF S1(1) S2(1)] S2(2,3) by auto
qed

definition sections_of :: "system_row \<Rightarrow> string \<Rightarrow> game list \<Rightarrow> fs_node \<Rightarrow> custom_view list \<Rightarrow> section_of list" where
  "sections_of s launch games dir views =
    (if pending_games games dir \<noteq> [] then [\<lparr>se_header = pending_header s, se_blocks = map (\<lambda>g. game_block g dir) (pending_games games dir)\<rparr>] else [])
    @ map (\<lambda>v. \<lparr>se_header = custom_header v launch, se_blocks = map (\<lambda>g. game_block g dir) (custom_members_of v games dir)\<rparr>)
        (live_views views games dir)"

lemma render_sections: "launch_of s = Some launch \<Longrightarrow> render_system s games dir views = Some
   (assemble (header_lines s launch) (map (\<lambda>g. game_block g dir) (playable_games games dir)) (sections_of s launch games dir views),
    \<lparr>so_sys = sr_key s, so_fault = None, so_games = length (playable_games games dir), so_pending = length (pending_games games dir),
      so_collections = length (live_views views games dir)\<rparr>)"
  by (simp add: render_system_def sections_of_def Let_def)

lemma reads_file:
  assumes "clean_input s launch games dir views" "launch_of s = Some launch"
  shows "\<exists>S D c. reads (file_lines (header_lines s launch) (map (\<lambda>g. game_block g dir) (playable_games games dir))
      (sections_of s launch games dir views)) peg_start S \<and> stands S D c \<and> D @ [c] = expected_file s launch games dir views"
proof -
  have ci: "good_value (sr_key s)" "sr_key s \<noteq> []" "sanitize_value (sr_collection s) \<noteq> []"
    "list_all (\<lambda>v. good_value (cv_short v)) (live_views views games dir)" "list_all (clean_assets dir) games"
    using assms(1) by (auto simp: clean_input_def live_views_def list_all_iff)
  have gl: "good_value (launch_line launch)"
    using assms launch_of_head by (intro launch_line_good) (auto simp: clean_input_def)
  have cl: "list_all (clean_assets dir) (playable_games games dir)" "list_all (clean_assets dir) (pending_games games dir)"
    "list_all (clean_assets dir) (custom_members_of v games dir)" for v
    using ci(5) by (auto simp: playable_games_def pending_games_def custom_members_of_def list_all_iff)
  let ?main = "\<lparr>pc_title = sanitize_value (sr_collection s), pc_short = sr_key s, pc_summary = [], pc_launch = launch_line launch,
      pc_games = map (expected_game dir) (playable_games games dir)\<rparr>"
  let ?main_lines = "section_lines (header_lines s launch) (map (\<lambda>g. game_block g dir) (playable_games games dir))"
  obtain S1 where S1: "reads ?main_lines peg_start S1" "stands S1 [] ?main"
    using reads_section [OF reads_blank [OF reads_main_header [OF ci(1) gl]] _ cl(1)]
      reads_blocks [OF stands_opened cl(1)] reads_append [OF reads_main_header [OF ci(1) gl]]
    by (fastforce simp: section_lines_games)
  define pend where "pend = (if pending_games games dir \<noteq> [] then
        [\<lparr>pc_title = sanitize_value (sr_collection s) @ '' (Pending)'', pc_short = sr_key s @ ''-pending'', pc_summary = pending_summary,
          pc_launch = [], pc_games = map (expected_game dir) (pending_games games dir)\<rparr>] else [])"
  define plines where "plines = (if pending_games games dir \<noteq> [] then
        [] # section_lines (pending_header s) (map (\<lambda>g. game_block g dir) (pending_games games dir)) else [])"
  obtain S2 D2 c2 where S2: "reads plines S1 S2" "stands S2 D2 c2" "D2 @ [c2] = ?main # pend"
  proof (cases "pending_games games dir = []")
    case True
    then show ?thesis using that [of S1 "[]" ?main] S1(2) by (simp add: plines_def pend_def reads_Nil)
  next
    case False
    then show ?thesis
      using that reads_section [OF reads_pending_header [OF S1(2) ci(1-3)] _ cl(2)] by (fastforce simp: plines_def pend_def)
  qed
  obtain S3 D3 c3 where S3: "reads (concat (map (\<lambda>v. [] # section_lines (custom_header v launch)
      (map (\<lambda>g. game_block g dir) (custom_members_of v games dir))) (live_views views games dir))) S2 S3" "stands S3 D3 c3"
    "D3 @ [c3] = D2 @ [c2] @ map (\<lambda>v. \<lparr>pc_title = sanitize_value (cv_title v), pc_short = cv_short v, pc_summary = sanitize_value (cv_summary v),
        pc_launch = launch_line launch, pc_games = map (expected_game dir) (custom_members_of v games dir)\<rparr>) (live_views views games dir)"
    using reads_customs [OF S2(2) gl ci(4), where ms = "\<lambda>v. custom_members_of v games dir", OF cl(3)] by blast
  have "file_lines (header_lines s launch) (map (\<lambda>g. game_block g dir) (playable_games games dir)) (sections_of s launch games dir views)
    = ?main_lines @ plines @ concat (map (\<lambda>v. [] # section_lines (custom_header v launch)
      (map (\<lambda>g. game_block g dir) (custom_members_of v games dir))) (live_views views games dir))"
    by (simp add: file_lines_def sections_of_def plines_def comp_def)
  moreover have "D3 @ [c3] = expected_file s launch games dir views"
    using S2(3) S3(3) by (simp add: expected_file_def pend_def)
  ultimately show ?thesis using reads_append [OF S1(1) reads_append [OF S2(1) S3(1)]] S3(2) by fastforce
qed

lemma field_key_good: "field_key k \<Longrightarrow> good_key k"
  by (auto simp: field_key_iff)

lemma block_lines:
  assumes "clean_assets dir g" "l \<in> set (game_block g dir)"
  shows "newline \<notin> set l"
proof -
  let ?as = "media_assets dir (strip_ext (path_base (gm_rel g)))"
  consider "l = kv ''game'' (block_title (gm_rel g))" | "l = kv ''file'' (sanitize_value (gm_rel g))"
    | k v where "(k, v) \<in> set (kept_fields g)" "l = kv k v" | k v where "(k, v) \<in> set ?as" "l = kv (asset_prefix @ k) v"
    using assms(2) unfolding game_block_def field_lines_kept by auto
  then show ?thesis
  proof cases
    case 3
    then show ?thesis using kept_fields_keys field_key_good kv_newline by blast
  next
    case 4
    then show ?thesis using assms(1) by (auto simp: clean_assets_def list_all_iff kv_newline)
  qed (simp_all add: kv_newline)
qed

lemma header_lines_ok:
  assumes "good_value (sr_key s)" "sr_key s \<noteq> []" "sanitize_value (sr_collection s) \<noteq> []" "good_value (launch_line launch)"
  shows "l \<in> set (header_lines s launch) \<Longrightarrow> newline \<notin> set l" "l \<in> set (pending_header s) \<Longrightarrow> newline \<notin> set l"
    "good_value (cv_short v) \<Longrightarrow> l \<in> set (custom_header v launch) \<Longrightarrow> newline \<notin> set l"
  using assms marker_newline
  by (auto simp: header_lines_def pending_header_def custom_header_def pending_suffix_def kv_newline pending_short_good pending_title_good
    pending_summary_good split: if_splits)

lemma file_lines_ok:
  assumes "clean_input s launch games dir views" "launch_of s = Some launch"
    "l \<in> set (file_lines (header_lines s launch) (map (\<lambda>g. game_block g dir) (playable_games games dir)) (sections_of s launch games dir views))"
  shows "newline \<notin> set l"
proof -
  have ci: "good_value (sr_key s)" "sr_key s \<noteq> []" "sanitize_value (sr_collection s) \<noteq> []"
    "\<And>v. v \<in> set views \<Longrightarrow> good_value (cv_short v)" "\<And>g. g \<in> set games \<Longrightarrow> clean_assets dir g"
    using assms(1) by (auto simp: clean_input_def list_all_iff)
  have gl: "good_value (launch_line launch)"
    using assms(1,2) launch_of_head by (intro launch_line_good) (auto simp: clean_input_def)
  consider "l = []" | "l \<in> set (header_lines s launch)" | "l \<in> set (pending_header s)"
    | v where "v \<in> set views" "l \<in> set (custom_header v launch)" | g where "g \<in> set games" "l \<in> set (game_block g dir)"
    using assms(3) by (auto simp: file_lines_def section_lines_def sections_of_def live_views_def playable_games_def
      pending_games_def custom_members_of_def split: if_splits)
  then show ?thesis proof cases
    case 4
    then show ?thesis using header_lines_ok(3) [OF ci(1-3) gl ci(4)] by blast
  qed (use header_lines_ok(1,2) [OF ci(1-3) gl] block_lines [OF ci(5)] in auto)
qed

lemma parse_rendered:
  assumes "clean_input s launch games dir views" "launch_of s = Some launch"
  shows "peg_parse (assemble (header_lines s launch) (map (\<lambda>g. game_block g dir) (playable_games games dir)) (sections_of s launch games dir views))
    = Inr (expected_file s launch games dir views)"
proof -
  let ?ls = "file_lines (header_lines s launch) (map (\<lambda>g. game_block g dir) (playable_games games dir)) (sections_of s launch games dir views)"
  have "split_byte newline (assemble (header_lines s launch) (map (\<lambda>g. game_block g dir) (playable_games games dir)) (sections_of s launch games dir views))
      = ?ls @ [[]]"
    by (rule assemble_lines [OF _ _ _ file_lines_ok [OF assms]])
      (auto simp: header_lines_def game_block_def sections_of_def pending_header_def custom_header_def split: if_splits)
  moreover obtain S D c where "reads ?ls peg_start S" "stands S D c" "D @ [c] = expected_file s launch games dir views"
    using reads_file [OF assms] by blast
  moreover have "reads (?ls @ [[]]) peg_start S" by (rule reads_append [OF \<open>reads ?ls peg_start S\<close> reads_blank [OF reads_Nil]])
  ultimately show ?thesis by (auto simp: peg_parse_def reads_def peg_finish_def stands_def)
qed


text \<open>The names and targets that must not collide.\<close>

definition no_collision :: "system_row \<Rightarrow> game list \<Rightarrow> fs_node \<Rightarrow> custom_view list \<Rightarrow> bool" where
  "no_collision s games dir views \<longleftrightarrow>
     list_all (\<lambda>gs. distinct (map (\<lambda>g. sanitize_value (gm_rel g)) gs) \<and> list_all (\<lambda>g. sanitize_value (gm_rel g) \<noteq> []) gs)
       [playable_games games dir, pending_games games dir] \<and>
     distinct (sr_key s # (if pending_games games dir \<noteq> [] then [sr_key s @ ''-pending''] else [])
       @ filter (\<lambda>n. n \<noteq> []) (map cv_short (live_views views games dir)))"

lemma expected_files: "map pg_file (map (expected_game dir) gs) = map (\<lambda>g. sanitize_value (gm_rel g)) gs"
  by (simp add: expected_game_def)

lemma valid_games_expected:
  "valid_games (map (expected_game dir) gs) \<longleftrightarrow>
    distinct (map (\<lambda>g. sanitize_value (gm_rel g)) gs) \<and> list_all (\<lambda>g. sanitize_value (gm_rel g) \<noteq> []) gs"
  unfolding valid_games_def expected_files by (auto simp: expected_game_def list_all_iff image_iff)

lemma members_playable: "custom_members_of v games dir = filter (\<lambda>g. gm_rel g \<in> set (cv_members v)) (playable_games games dir)"
  by (simp add: custom_members_of_def playable_games_def conj_commute)

lemma valid_custom:
  "valid_games (map (expected_game dir) (playable_games games dir)) \<Longrightarrow> valid_games (map (expected_game dir) (custom_members_of v games dir))"
  unfolding valid_games_expected members_playable by (auto simp: list_all_iff intro: distinct_map_filter)

text \<open>
  The strict parser and the validator accept what the generator renders exactly when no two
  collections share a short name and no two games of one section share a sanitised path.
\<close>

lemma generated_file_is_refused_only_for_collisions:
  assumes "clean_input s launch games dir views" "launch_of s = Some launch" "render_system s games dir views = Some (data, oc)"
  shows "accepts data \<longleftrightarrow> no_collision s games dir views"
proof -
  have data: "peg_parse data = Inr (expected_file s launch games dir views)"
    using parse_rendered [OF assms(1,2)] assms(3) by (simp add: render_sections [OF assms(2)])
  have key: "sr_key s \<noteq> []" using assms(1) by (simp add: clean_input_def)
  have launch: "launch_line launch \<noteq> []" by (simp add: launch_line_def)
  have pend: "is_pending (k @ ''-pending'')" for k by (simp add: is_pending_def pending_suffix_def suffix_def)
  have names: "filter (\<lambda>n. n \<noteq> []) (map pc_short (expected_file s launch games dir views)) =
      sr_key s # (if pending_games games dir \<noteq> [] then [sr_key s @ ''-pending''] else [])
       @ filter (\<lambda>n. n \<noteq> []) (map cv_short (live_views views games dir))"
    using key by (simp add: expected_file_def comp_def)
  define P where "P gs = valid_games (map (expected_game dir) gs)" for gs
  have P: "P (custom_members_of v games dir)" if "P (playable_games games dir)" for v
    using that valid_custom by (simp add: P_def)
  have "P []" by (simp add: P_def valid_games_def)
  define Q where "Q c \<longleftrightarrow> valid_games (pc_games c) \<and> (pc_launch c = [] \<longrightarrow> is_pending (pc_short c) \<or> pc_games c = [])" for c :: peg_collection
  have Q: "Q \<lparr>pc_title = t, pc_short = n, pc_summary = u, pc_launch = launch_line launch, pc_games = map (expected_game dir) gs\<rparr> = P gs"
    "Q \<lparr>pc_title = t, pc_short = n @ ''-pending'', pc_summary = u, pc_launch = [], pc_games = map (expected_game dir) gs\<rparr> = P gs"
    for t n u gs using launch pend by (simp_all add: Q_def P_def)
  have A: "P (playable_games games dir) \<longrightarrow> (\<forall>v\<in>set (live_views views games dir). P (custom_members_of v games dir))"
    using P by blast
  have games: "(\<forall>c\<in>set (expected_file s launch games dir views). valid_games (pc_games c) \<and>
      (pc_launch c = [] \<longrightarrow> is_pending (pc_short c) \<or> pc_games c = [])) \<longleftrightarrow> P (playable_games games dir) \<and> P (pending_games games dir)"
    unfolding Q_def [symmetric] expected_file_def list.set set_append set_map ball_simps ball_Un image_iff Q if_distrib [of set]
    using A by (cases "pending_games games dir = []") (simp_all add: Q \<open>P []\<close>, argo+)
  have nonempty: "expected_file s launch games dir views \<noteq> []" by (simp add: expected_file_def)
  have "valid_file (expected_file s launch games dir views) \<longleftrightarrow> no_collision s games dir views"
    unfolding valid_file_def names games no_collision_def P_def valid_games_expected
    by (simp only: list.pred_inject nonempty simp_thms, argo)
  then show ?thesis by (simp add: accepts_def data peg_validate_iff)
qed

definition sample_dir :: fs_node where
  "sample_dir = FsDir [(''a.nes'', FsFile \<lparr>fi_size = 1, fi_mtime = 0, fi_mode = 0, fi_data = ''x''\<rparr>),
     (''b.zip'', FsFile \<lparr>fi_size = 2, fi_mtime = 0, fi_mode = 0, fi_data = ''00''\<rparr>)]"

definition sample_row :: system_row where
  "sample_row = \<lparr>sr_key = ''nes'', sr_collection = ''NES'', sr_bucket = ''cartridge'', sr_core = ''fceumm'', sr_emulator = [],
     sr_sky = [], sr_torrent = [], sr_extensions = ''nes'', sr_order = 0, sr_source = SourceCatalogue\<rparr>"

definition sample_games :: "game list" where
  "sample_games = [new_game 1 ''nes'' \<lparr>gr_rel = ''a.nes'', gr_size = 1, gr_title = []\<rparr> 0,
     new_game 2 ''nes'' \<lparr>gr_rel = ''b.zip'', gr_size = 2, gr_title = []\<rparr> 0]"

lemma sample_clean: "clean_input sample_row ''jupiter-retroarch -L fceumm'' sample_games sample_dir []"
  "launch_of sample_row = Some ''jupiter-retroarch -L fceumm''"
  by code_simp+


section \<open>A kill at any moment\<close>

text \<open>The files that an operation may change, other than temporaries.\<close>

definition is_temp :: "string \<Rightarrow> bool" where
  "is_temp p \<longleftrightarrow> suffix ''.tmp'' p"

text \<open>A state in which every served file is as at the start or complete.\<close>

definition whole :: "(string \<times> string) set \<Rightarrow> (string \<rightharpoonup> string) \<Rightarrow> (string \<rightharpoonup> string) \<Rightarrow> bool" where
  "whole new fs0 fs \<longleftrightarrow> (\<forall>p. \<not> is_temp p \<longrightarrow> fs p = fs0 p \<or> (\<exists>d. (p, d) \<in> new \<and> fs p = Some d))"

lemma whole_temp_op:
  assumes "whole new fs0 fs" "is_temp t"
  shows "whole new fs0 (do_op (OpCreate t) fs)" "whole new fs0 (do_op (OpAppend t d) fs)" "whole new fs0 (do_op (OpRemove t) fs)"
  using assms by (auto simp: whole_def split: option.split)

lemma whole_rename:
  assumes "whole new fs0 fs" "is_temp t" "(p, d) \<in> new" "fs t = Some d"
  shows "whole new fs0 (do_op (OpRename t p) fs)"
  using assms by (auto simp: whole_def)

definition keeps_whole :: "(string \<times> string) set \<Rightarrow> (string \<rightharpoonup> string) \<Rightarrow> fs_op list \<Rightarrow> bool" where
  "keeps_whole new fs0 ops \<longleftrightarrow> (\<forall>fs. whole new fs0 fs \<longrightarrow> whole new fs0 (fold do_op ops fs) \<and> (\<forall>k n. whole new fs0 (killed_after k n ops fs)))"

lemma keeps_whole_append: "keeps_whole new fs0 xs \<Longrightarrow> keeps_whole new fs0 ys \<Longrightarrow> keeps_whole new fs0 (xs @ ys)"
  by (simp add: keeps_whole_def killed_append)

lemma keeps_whole_concat: "(\<And>x. x \<in> set xs \<Longrightarrow> keeps_whole new fs0 (f x)) \<Longrightarrow> keeps_whole new fs0 (concat (map f xs))"
proof (induction xs)
  case (Cons x xs)
  then show ?case using keeps_whole_append [of new fs0 "f x" "concat (map f xs)"] by simp
qed (simp add: keeps_whole_def)

lemma keeps_whole_temp_ops:
  "is_temp t \<Longrightarrow> keeps_whole new fs0 [OpCreate t]" "is_temp t \<Longrightarrow> keeps_whole new fs0 [OpAppend t d]"
  "is_temp t \<Longrightarrow> keeps_whole new fs0 [OpRemove t]"
  by (simp_all add: keeps_whole_def killed_Cons whole_temp_op del: do_op.simps split: nat.split)

lemma keeps_whole_write:
  assumes "is_temp t" "(p, d) \<in> new"
  shows "keeps_whole new fs0 (write_atomic fault t p d)"
proof -
  have r: "keeps_whole new fs0 ([OpCreate t] @ [OpAppend t d'] @ [OpRemove t])" for d'
    by (intro keeps_whole_append keeps_whole_temp_ops assms(1))
  have ok: "keeps_whole new fs0 [OpCreate t, OpAppend t d, OpRename t p]"
    unfolding keeps_whole_def
  proof (intro allI impI conjI)
    fix fs assume w: "whole new fs0 fs"
    let ?fs2 = "do_op (OpAppend t d) (do_op (OpCreate t) fs)"
    have "whole new fs0 ?fs2" by (intro whole_temp_op assms(1) w)
    moreover have "?fs2 t = Some d" by simp
    ultimately have last: "whole new fs0 (do_op (OpRename t p) ?fs2)" by (rule whole_rename [OF _ assms(1,2)])
    then show "whole new fs0 (fold do_op [OpCreate t, OpAppend t d, OpRename t p] fs)" by simp
    fix k n
    have "whole new fs0 (do_op (OpAppend t (take n d)) (do_op (OpCreate t) fs))" by (intro whole_temp_op assms(1) w)
    then show "whole new fs0 (killed_after k n [OpCreate t, OpAppend t d, OpRename t p] fs)"
      using w last whole_temp_op(1) [OF w assms(1)] \<open>whole new fs0 ?fs2\<close>
      by (auto simp: killed_Cons simp del: do_op.simps split: nat.split)
  qed
  show ?thesis
    using r [of d] r ok by (auto simp: write_atomic_def keeps_whole_def split: option.split write_fault.split)
qed

lemma in_rights: "x \<in> set (rights xs) \<longleftrightarrow> Inr x \<in> set xs"
  by (induction xs) (auto simp: rights_def List.map_filter_simps split: sum.split)

lemma stale_temp_suffix: "stale_temp pid born e \<Longrightarrow> suffix ''.tmp'' (fst e)"
  by (cases "snd e") (simp_all add: stale_temp_def temp_sibling_def)

text \<open>
  C24: If the process is killed after any number of file operations of a pass, every system's metadata
  file is either what it was before or a complete file that the validator accepts.
\<close>

theorem kill_leaves_old_or_accepted:
  assumes "gen_pass rt disk rnd faults pid born dry colls st = (res, ops)" "\<not> is_temp p"
  shows "killed_after k n ops fs p = fs p \<or>
    (\<exists>s\<in>set (st_systems st). \<exists>data oc dir. sr_source s = SourceCatalogue \<and> \<not> dry \<and> p = system_dir rt s @ ''/'' @ target_name \<and>
      render_system s (system_games_with_meta (sr_key s) st) dir (custom_views colls (sr_key s)) = Some (data, oc) \<and>
      disk (system_dir rt s) = Some dir \<and> accepts data \<and> killed_after k n ops fs p = Some data)"
proof -
  let ?ok = "\<lambda>p data. \<exists>s\<in>set (st_systems st). \<exists>oc dir. sr_source s = SourceCatalogue \<and> \<not> dry \<and> p = system_dir rt s @ ''/'' @ target_name \<and>
      render_system s (system_games_with_meta (sr_key s) st) dir (custom_views colls (sr_key s)) = Some (data, oc) \<and>
      disk (system_dir rt s) = Some dir \<and> accepts data"
  define new where "new = {(p, data). ?ok p data}"
  define payloads where "payloads = rights (List.map_filter (build_one rt disk colls st) (systems st))"
  have ops: "ops = (if dry then [] else
      concat (map (\<lambda>p. write_atomic (faults (pl_dir p)) (temp_name pid (rnd (pl_dir p)) (pl_dir p)) (target_of p) (pl_bytes p))
        (filter (\<lambda>p. accepts (pl_bytes p)) payloads))
      @ concat (map (\<lambda>d. map (\<lambda>n. OpRemove (d @ ''/'' @ n)) (swept_names pid born (disk d))) (remdups (map pl_dir payloads))))"
    using assms(1) by (simp add: gen_pass_def payloads_def Let_def split: if_splits)
  have temp: "is_temp (temp_name pid r d)" for r d by (simp add: is_temp_def temp_name_def suffix_def)
  have swept: "is_temp (d @ ''/'' @ n)" if "n \<in> set (swept_names pid born (disk d))" for d n
  proof -
    have "suffix ''.tmp'' n"
      using that by (auto simp: swept_names_def dest!: stale_temp_suffix split: option.splits fs_node.splits)
    then show ?thesis unfolding is_temp_def using suffix_appendI [of "''.tmp''" n "d @ ''/''"] by simp
  qed
  have new: "(target_of x, pl_bytes x) \<in> new" if px: "x \<in> set payloads" "accepts (pl_bytes x)" "\<not> dry" for x
  proof -
    obtain s where s: "s \<in> set (systems st)" "build_one rt disk colls st s = Some (Inr x)"
      using px(1) unfolding payloads_def in_rights in_map_filter by blast
    then show ?thesis
      using px(2,3) by (auto simp: new_def build_one_def Let_def systems_def target_of_def
        split: if_splits option.splits intro: source.exhaust)
  qed
  have "keeps_whole new fs ops"
  proof (cases dry)
    case False
    have "keeps_whole new fs (concat (map (\<lambda>n. [OpRemove (d @ ''/'' @ n)]) (swept_names pid born (disk d))))" for d
      by (rule keeps_whole_concat) (rule keeps_whole_temp_ops(3) [OF swept])
    then have "keeps_whole new fs (map (\<lambda>n. OpRemove (d @ ''/'' @ n)) (swept_names pid born (disk d)))" for d
      by (simp add: concat_map_singleton)
    with False show ?thesis
      unfolding ops by (simp, intro keeps_whole_append keeps_whole_concat) (auto intro: keeps_whole_write temp new)
  qed (simp add: ops keeps_whole_def)
  moreover have "whole new fs fs" by (simp add: whole_def)
  ultimately have "whole new fs (killed_after k n ops fs)" by (simp add: keeps_whole_def)
  with assms(2) show ?thesis unfolding whole_def new_def by blast
qed

definition sample_pass :: "gen_result \<times> fs_op list" where
  "sample_pass = gen_pass \<lparr>rt_cartridge = ''/c'', rt_optical = ''/o'', rt_modern = ''/m''\<rparr> (\<lambda>_. Some sample_dir) (\<lambda>_. ''1'') (\<lambda>_. None)
     7 0 False [] (empty_store\<lparr>st_systems := [sample_row], st_games := sample_games\<rparr>)"

lemma kill_leaves_old_or_accepted_witness:
  "killed_after 1 3 (snd sample_pass) Map.empty ''/c/nes/metadata.pegasus.txt'' = None \<or>
    (\<exists>data. accepts data \<and> killed_after 1 3 (snd sample_pass) Map.empty ''/c/nes/metadata.pegasus.txt'' = Some data)"
proof -
  have t: "\<not> is_temp ''/c/nes/metadata.pegasus.txt''" by code_simp
  obtain res ops where p: "sample_pass = (res, ops)" by (cases sample_pass)
  have "killed_after 1 3 ops Map.empty ''/c/nes/metadata.pegasus.txt'' = None \<or>
    (\<exists>data. accepts data \<and> killed_after 1 3 ops Map.empty ''/c/nes/metadata.pegasus.txt'' = Some data)"
    using kill_leaves_old_or_accepted [OF p [unfolded sample_pass_def] t, of 1 3 Map.empty] by blast
  then show ?thesis by (simp add: p)
qed

end
