(* ===== verification/Catalogue.thy ===== *)
theory Catalogue
  imports FileTree
begin

text \<open>
  internal/catalogue/catalogue.go of pkgs/arcade-webapp: the table of systems, one row per line with
  eight tab-separated columns, and what the other packages ask of a row.
\<close>

record system =
  sy_key :: string
  sy_collection :: string
  sy_core :: string
  sy_emulator :: string
  sy_extensions :: "string list"
  sy_sky :: string
  sy_bucket :: string
  sy_torrent :: string

datatype cat_error = OpenFailed | BadColumns nat nat | EmptyColumn nat | ReadFailed | NoSystems

definition or_empty :: "string \<Rightarrow> string" where
  "or_empty v = (if v = ''-'' then [] else v)"

definition tab_char :: char where "tab_char = char_of (9 :: nat)"

definition extension_list :: "string \<Rightarrow> string list" where
  "extension_list col = (let es = split_byte CHR '','' (or_empty col) in if hd es = [] then [] else es)"

text \<open>One row, with the number of its line; None for a blank line or a comment.\<close>

definition parse_row :: "nat \<Rightarrow> string \<Rightarrow> cat_error + system option" where
  "parse_row no raw =
    (let line = trim_space raw in
     if line = [] \<or> prefix ''#'' line then Inr None
     else let cols0 = split_byte tab_char line in
       if length cols0 \<noteq> 8 then Inl (BadColumns no (length cols0))
       else let c = (\<lambda>i. trim_space (cols0 ! i)) in
         if c 0 = [] \<or> c 1 = [] \<or> c 6 = [] then Inl (EmptyColumn no)
         else Inr (Some \<lparr>sy_key = c 0, sy_collection = c 1, sy_core = or_empty (c 2), sy_emulator = or_empty (c 3),
           sy_extensions = extension_list (c 4), sy_sky = or_empty (c 5), sy_bucket = c 6, sy_torrent = or_empty (c 7)\<rparr>))"

fun load_rows :: "nat \<Rightarrow> string list \<Rightarrow> system list \<Rightarrow> cat_error + system list" where
  "load_rows no [] acc = Inr acc"
| "load_rows no (l # ls) acc =
    (if max_token \<le> length l then Inl ReadFailed
     else (case parse_row (Suc no) (drop_cr l) of
        Inl e \<Rightarrow> Inl e
      | Inr None \<Rightarrow> load_rows (Suc no) ls acc
      | Inr (Some s) \<Rightarrow> load_rows (Suc no) ls (acc @ [s])))"

definition load_catalogue :: "string option \<Rightarrow> cat_error + system list" where
  "load_catalogue file = (case file of None \<Rightarrow> Inl OpenFailed
    | Some text \<Rightarrow> (case load_rows 0 (raw_lines text) [] of
        Inl e \<Rightarrow> Inl e
      | Inr systems \<Rightarrow> if systems = [] then Inl NoSystems else Inr systems))"

definition has_rom_extension :: "system \<Rightarrow> string \<Rightarrow> bool" where
  "has_rom_extension s name =
    (let ext = trim_prefix ''.'' (path_ext name) in
     ext \<noteq> [] \<and> list_ex (\<lambda>e. to_lower e = to_lower ext) (sy_extensions s))"

definition sky_platform :: "system \<Rightarrow> string" where
  "sky_platform s = (if sy_sky s \<noteq> [] then sy_sky s else sy_key s)"

definition by_bucket :: "system list \<Rightarrow> system list \<times> system list \<times> system list" where
  "by_bucket ss = (filter (\<lambda>s. sy_bucket s = ''cartridge'') ss, filter (\<lambda>s. sy_bucket s = ''optical'') ss,
     filter (\<lambda>s. sy_bucket s = ''modern'') ss)"

section \<open>Writing a table and reading it back\<close>

definition dash :: "string \<Rightarrow> string" where
  "dash v = (if v = [] then ''-'' else v)"

definition show_row :: "system \<Rightarrow> string" where
  "show_row s = join_with [tab_char] [sy_key s, sy_collection s, dash (sy_core s), dash (sy_emulator s),
     dash (join_with '','' (sy_extensions s)), dash (sy_sky s), sy_bucket s, dash (sy_torrent s)]"

definition show_table :: "system list \<Rightarrow> string" where
  "show_table ss = concat (map (\<lambda>s. show_row s @ [newline]) ss)"

text \<open>A column that a table can carry.\<close>

definition column :: "string \<Rightarrow> bool" where
  "column v \<longleftrightarrow> list_all (\<lambda>c. c \<noteq> tab_char \<and> c \<noteq> newline) v \<and> trim_space v = v \<and> v \<noteq> ''-''"

definition wf_row :: "system \<Rightarrow> bool" where
  "wf_row s \<longleftrightarrow> list_all column [sy_key s, sy_collection s, sy_core s, sy_emulator s, sy_sky s, sy_bucket s, sy_torrent s] \<and>
     sy_key s \<noteq> [] \<and> \<not> prefix ''#'' (sy_key s) \<and> sy_collection s \<noteq> [] \<and> sy_bucket s \<noteq> [] \<and>
     column (join_with '','' (sy_extensions s)) \<and> list_all (\<lambda>e. e \<noteq> [] \<and> CHR '','' \<notin> set e) (sy_extensions s) \<and>
     length (show_row s) < max_token"

lemma dash_or_empty: "v \<noteq> ''-'' \<Longrightarrow> or_empty (dash v) = v"
  by (simp add: dash_def or_empty_def)

lemma column_dash: "column v \<Longrightarrow> tab_char \<notin> set (dash v) \<and> newline \<notin> set (dash v) \<and> trim_space (dash v) = dash v \<and> dash v \<noteq> []"
proof -
  have "trim_space ''-'' = ''-''" "tab_char \<noteq> CHR ''-''" "newline \<noteq> CHR ''-''" by code_simp+
  then show "column v \<Longrightarrow> ?thesis"
    by (cases "v = []") (auto simp: column_def dash_def list_all_iff)
qed

lemma extension_round:
  assumes "list_all (\<lambda>e. e \<noteq> [] \<and> CHR '','' \<notin> set e) es" "column (join_with '','' es)"
  shows "extension_list (dash (join_with '','' es)) = es"
proof (cases es)
  case Nil
  then show ?thesis by (simp add: extension_list_def dash_def or_empty_def join_with_def Let_def)
next
  case (Cons e es')
  have "split_byte CHR '','' (join_with '','' es) = es"
    using assms(1) Cons by (intro split_join) (auto simp: list_all_iff)
  moreover have "or_empty (dash (join_with '','' es)) = join_with '','' es"
    using assms(2) by (intro dash_or_empty) (simp add: column_def)
  ultimately show ?thesis using assms(1) Cons by (simp add: extension_list_def Let_def)
qed

lemma parse_show_row:
  assumes "wf_row s"
  shows "newline \<notin> set (show_row s) \<and> drop_cr (show_row s) = show_row s \<and> parse_row no (show_row s) = Inr (Some s)"
proof -
  let ?cols = "[sy_key s, sy_collection s, dash (sy_core s), dash (sy_emulator s),
     dash (join_with '','' (sy_extensions s)), dash (sy_sky s), sy_bucket s, dash (sy_torrent s)]"
  have c: "column (sy_key s)" "column (sy_collection s)" "column (sy_core s)" "column (sy_emulator s)" "column (sy_sky s)"
    "column (sy_bucket s)" "column (sy_torrent s)" "column (join_with '','' (sy_extensions s))"
    and ne: "sy_key s \<noteq> []" "\<not> prefix ''#'' (sy_key s)" "sy_collection s \<noteq> []" "sy_bucket s \<noteq> []"
    using assms by (simp_all add: wf_row_def)
  have plain: "tab_char \<notin> set v \<and> newline \<notin> set v \<and> trim_space v = v" if "column v" for v
    using that by (auto simp: column_def list_all_iff)
  have "list_all (\<lambda>p. tab_char \<notin> set p \<and> newline \<notin> set p \<and> trim_space p = p) ?cols"
    using c [THEN column_dash] c [THEN plain] by simp
  then have free: "\<And>p. p \<in> set ?cols \<Longrightarrow> tab_char \<notin> set p \<and> newline \<notin> set p \<and> trim_space p = p"
    unfolding list_all_iff by blast
  have split: "split_byte tab_char (show_row s) = ?cols"
    unfolding show_row_def
  proof (rule split_join)
    show "?cols \<noteq> []" by simp
    show "\<And>p. p \<in> set ?cols \<Longrightarrow> tab_char \<notin> set p" using free by blast
  qed
  have tabnl: "tab_char \<noteq> newline" by (simp add: tab_char_def newline_def)
  have nl: "newline \<notin> set (show_row s)"
  proof
    assume "newline \<in> set (show_row s)"
    then have "newline \<in> set [tab_char] \<union> (\<Union>p\<in>set ?cols. set p)"
      unfolding show_row_def using set_join [of "[tab_char]" ?cols] by blast
    then show False
    proof
      assume "newline \<in> set [tab_char]"
      then show False using tabnl by simp
    next
      assume "newline \<in> (\<Union>p\<in>set ?cols. set p)"
      then show False by (rule UN_E) (drule free, blast)
    qed
  qed
  have hd: "hd (show_row s) = hd (sy_key s)" "show_row s \<noteq> []"
    using ne(1) by (simp_all add: show_row_def join_with_def)
  have last: "last (show_row s) = last (dash (sy_torrent s))"
    using column_dash [OF c(7)] by (simp add: show_row_def join_with_def)
  have "\<not> is_space (hd (sy_key s))" using trim_space_ends [of "sy_key s"] c(1) ne(1) by (simp add: column_def)
  moreover have ls: "\<not> is_space (last (dash (sy_torrent s)))"
    using trim_space_ends [of "dash (sy_torrent s)"] column_dash [OF c(7)] by simp
  ultimately have trim: "trim_space (show_row s) = show_row s" using hd last by (intro trim_space_id) auto
  have cr: "drop_cr (show_row s) = show_row s" using ls last by (auto simp: drop_cr_def is_space_def)
  have pre: "\<not> prefix ''#'' (show_row s)" using ne(1,2) by (cases "sy_key s") (auto simp: show_row_def join_with_def)
  have t: "trim_space (?cols ! i) = ?cols ! i" if "i < 8" for i
    using free [of "?cols ! i"] that nth_mem [of i ?cols] by simp
  have exts: "extension_list (dash (join_with '','' (sy_extensions s))) = sy_extensions s"
    using assms by (intro extension_round) (simp_all add: wf_row_def)
  have noteq: "\<And>v. column v \<Longrightarrow> v \<noteq> ''-''" by (simp add: column_def)
  have "parse_row no (show_row s) = Inr (Some s)"
    unfolding parse_row_def trim Let_def split
    using t [of 0] t [of 1] t [of 2] t [of 3] t [of 4] t [of 5] t [of 6] t [of 7] ne hd(2) pre
      dash_or_empty [OF noteq [OF c(3)]] dash_or_empty [OF noteq [OF c(4)]] dash_or_empty [OF noteq [OF c(5)]]
      dash_or_empty [OF noteq [OF c(7)]] exts
    by simp
  with nl cr show ?thesis by simp
qed

lemma load_shown_rows:
  "list_all wf_row ss \<Longrightarrow> load_rows no (map show_row ss) acc = Inr (acc @ ss)"
  by (induction ss arbitrary: no acc) (simp_all add: parse_show_row, simp add: wf_row_def)

text \<open>A table written with well-formed rows is read back row by row.\<close>

lemma catalogue_roundtrip:
  assumes "list_all wf_row ss" "ss \<noteq> []"
  shows "load_catalogue (Some (show_table ss)) = Inr ss"
proof -
  have "raw_lines (concat (map (\<lambda>l. l @ [newline]) (map show_row ss))) = map show_row ss"
    by (rule raw_lines_written) (use assms(1) parse_show_row in \<open>auto simp: list_all_iff\<close>)
  moreover have "show_table ss = concat (map (\<lambda>l. l @ [newline]) (map show_row ss))"
    by (simp add: show_table_def comp_def)
  ultimately have "raw_lines (show_table ss) = map show_row ss" by simp
  then show ?thesis using load_shown_rows [OF assms(1)] assms(2) by (simp add: load_catalogue_def)
qed

end
