(* ===== verification/Exo.thy ===== *)
theory Exo
  imports Pegasus ArcadeStore
begin

text \<open>
  internal/exo/exo.go of pkgs/arcade-webapp: the import of the three curated collections from the metadata
  files that the kiosks generate, into systems marked as theirs.
\<close>

record exo_collection =
  ex_key :: string
  ex_dir :: string

definition exo_collections :: "exo_collection list" where
  "exo_collections = [\<lparr>ex_key = ''dos'', ex_dir = ''exo-dos''\<rparr>, \<lparr>ex_key = ''win3x'', ex_dir = ''exo-win3x''\<rparr>,
     \<lparr>ex_key = ''win9x'', ex_dir = ''exo-win9x''\<rparr>]"

definition exo_sort_base :: int where "exo_sort_base = 1000"

datatype exo_fault = OpenFault | ParseFault peg_error | PersistFault

record exo_result =
  er_imported :: "string list"
  er_games :: nat
  er_art :: nat
  er_skipped :: "string list"
  er_warnings :: "(string \<times> exo_fault) list"

definition exo_field :: "peg_game \<Rightarrow> string \<Rightarrow> string" where
  "exo_field g k = mget [] (pg_fields g) k"

definition join_multi :: "peg_game \<Rightarrow> string \<Rightarrow> string" where
  "join_multi g k = (case pg_multi g k of None \<Rightarrow> exo_field g k
    | Some vs \<Rightarrow> if vs = [] then exo_field g k else join_with ''; '' vs)"

fun first_title :: "peg_collection list \<Rightarrow> string" where
  "first_title [] = []"
| "first_title (c # cs) = (if pc_title c = [] then first_title cs else pc_title c)"

text \<open>The blocks that are kept: those with a file, the first of each file.\<close>

fun kept_blocks :: "string set \<Rightarrow> peg_game list \<Rightarrow> peg_game list" where
  "kept_blocks seen [] = []"
| "kept_blocks seen (g # gs) =
    (if pg_file g = [] \<or> pg_file g \<in> seen then kept_blocks seen gs else g # kept_blocks (insert (pg_file g) seen) gs)"

definition exo_meta :: "peg_game \<Rightarrow> game_meta" where
  "exo_meta g = \<lparr>gt_rel = pg_file g, gt_description = exo_field g ''description'', gt_release = exo_field g ''release'',
     gt_developer = exo_field g ''developer'', gt_publisher = exo_field g ''publisher'', gt_genre = join_multi g ''genre'',
     gt_rating = exo_field g ''rating''\<rparr>"

definition has_box_front :: "peg_game \<Rightarrow> bool" where
  "has_box_front g \<longleftrightarrow> mget [] (pg_assets g) ''box_front'' \<noteq> []"

definition exo_system :: "exo_collection \<Rightarrow> peg_collection list \<Rightarrow> int \<Rightarrow> system_row" where
  "exo_system col cs order = \<lparr>sr_key = ex_key col,
     sr_collection = (if first_title cs = [] then ''eXo '' @ ex_key col else first_title cs), sr_bucket = ''exo'', sr_core = [],
     sr_emulator = [], sr_sky = [], sr_torrent = [], sr_extensions = ''[]'', sr_order = order, sr_source = SourceExo\<rparr>"

definition import_collection :: "exo_collection \<Rightarrow> peg_collection list \<Rightarrow> int \<Rightarrow> instant \<Rightarrow> store \<Rightarrow> (nat \<times> nat) option \<times> store" where
  "import_collection col cs order now1 st =
    (case upsert_exo_system (exo_system col cs order) st of None \<Rightarrow> (None, st)
     | Some st1 \<Rightarrow>
        let blocks = kept_blocks {} (concat (map pc_games cs));
            rows = map (\<lambda>g. \<lparr>gr_rel = pg_file g, gr_size = 0, gr_title = pg_title g\<rparr>) blocks;
            covers = map pg_file (filter has_box_front blocks)
        in (case replace_system_games (ex_key col) rows now1 st1 of None \<Rightarrow> (None, st1)
          | Some st2 \<Rightarrow> (Some (length rows, length covers),
              set_system_cover_flags (ex_key col) covers (set_game_meta (ex_key col) (map exo_meta blocks) st2))))"

text \<open>What opening a collection's metadata file gives: its text, or the error.\<close>

type_synonym exo_source = "string \<Rightarrow> walk_error + string"

definition exo_path :: "string \<Rightarrow> exo_collection \<Rightarrow> string" where
  "exo_path base_dir col = base_dir @ ''/'' @ ex_dir col @ ''/metadata.pegasus.txt''"

definition import_one :: "exo_source \<Rightarrow> string \<Rightarrow> instant \<Rightarrow> exo_collection \<times> int \<Rightarrow> exo_result \<times> store \<Rightarrow> exo_result \<times> store" where
  "import_one read base_dir now1 ci rs =
    (let (col, order) = ci; (res, st) = rs;
         warn = (\<lambda>f. (res\<lparr>er_warnings := er_warnings res @ [(ex_key col, f)]\<rparr>, st))
     in case read (exo_path base_dir col) of
          Inl NotExist \<Rightarrow> (res\<lparr>er_skipped := er_skipped res @ [ex_key col]\<rparr>, st)
        | Inl Unreadable \<Rightarrow> warn OpenFault
        | Inr text \<Rightarrow> (case peg_parse text of
            Inl e \<Rightarrow> warn (ParseFault e)
          | Inr cs \<Rightarrow> (case import_collection col cs order now1 st of
              (None, st1) \<Rightarrow> (res\<lparr>er_warnings := er_warnings res @ [(ex_key col, PersistFault)]\<rparr>, st1)
            | (Some (games, art), st1) \<Rightarrow>
                (res\<lparr>er_imported := er_imported res @ [ex_key col], er_games := er_games res + games, er_art := er_art res + art\<rparr>, st1))))"

definition no_exo :: exo_result where
  "no_exo = \<lparr>er_imported = [], er_games = 0, er_art = 0, er_skipped = [], er_warnings = []\<rparr>"

definition exo_import :: "exo_source \<Rightarrow> string \<Rightarrow> instant \<Rightarrow> store \<Rightarrow> exo_result \<times> store" where
  "exo_import read base_dir now1 st = (if trim_space base_dir = [] then (no_exo, st)
     else fold (import_one read base_dir now1)
       (zip exo_collections (map (\<lambda>i. exo_sort_base + int i) [0..<length exo_collections])) (no_exo, st))"

end
