(* ===== verification/Scanner.thy ===== *)
theory Scanner
  imports Catalogue StoreQueries Exo
begin

text \<open>
  internal/scanner/scanner.go of pkgs/arcade-webapp: the walk of a system's directory with the attribution
  of companion files, the checksum backfill, the readers of DATs, caches and the inventory, and a whole
  scan. XML is read as the token stream of \<open>encoding/xml\<close>; the hash of a file and the decoding of the
  inventory are parameters.
\<close>

section \<open>The walk of a system\<close>

record found =
  fd_rel :: string
  fd_size :: nat

definition is_rom :: "system \<Rightarrow> string \<Rightarrow> bool" where
  "is_rom sys n \<longleftrightarrow> has_rom_extension sys n \<or> equal_fold (path_ext n) ''.zip''"

text \<open>The games and the companions, in the order of the walk; the first error ends it.\<close>

definition add_found :: "system \<Rightarrow> string \<Rightarrow> string \<Rightarrow> nat \<Rightarrow> found list \<times> found list \<Rightarrow> found list \<times> found list" where
  "add_found sys rel n size1 gc = (let f = \<lparr>fd_rel = rel, fd_size = size1\<rparr> in
     if is_rom sys n then (fst gc @ [f], snd gc) else (fst gc, snd gc @ [f]))"

fun collect :: "system \<Rightarrow> visit list \<Rightarrow> found list \<times> found list \<Rightarrow> walk_error + (found list \<times> found list)" where
  "collect sys [] gc = Inr gc"
| "collect sys (VDir rel # vs) gc = collect sys vs gc"
| "collect sys (VFail rel e # vs) gc = Inl e"
| "collect sys (VFile rel n i # vs) gc =
    (if prefix ''.'' n then collect sys vs gc else collect sys vs (add_found sys rel n (fi_size i) gc))"
| "collect sys (VSpecial rel n s # vs) gc =
    (if prefix ''.'' n then collect sys vs gc else collect sys vs (add_found sys rel n s gc))"
| "collect sys (VGone rel n e # vs) gc = (if prefix ''.'' n then collect sys vs gc else Inl e)"

text \<open>The game a companion travels with.\<close>

definition games_in_dir :: "found list \<Rightarrow> string \<Rightarrow> nat list" where
  "games_in_dir games d = filter (\<lambda>i. rel_dir (fd_rel (games ! i)) = d) [0..<length games]"

definition longer_prefix :: "found list \<Rightarrow> string \<Rightarrow> nat \<Rightarrow> nat option \<times> int \<Rightarrow> nat option \<times> int" where
  "longer_prefix games base i bl = (let gb = strip_ext (fd_rel (games ! i)) in
     if prefix gb base \<and> snd bl < int (length gb) then (Some i, int (length gb)) else bl)"

definition owner :: "found list \<Rightarrow> found \<Rightarrow> nat option" where
  "owner games c = (let idx = games_in_dir games (rel_dir (fd_rel c)) in
     if length idx = 1 then Some (hd idx)
     else fst (fold (longer_prefix games (strip_ext (fd_rel c))) idx (None, - 1)))"

definition add_bytes :: "nat \<Rightarrow> nat \<Rightarrow> found list \<Rightarrow> found list" where
  "add_bytes i n games = games[i := (games ! i)\<lparr>fd_size := fd_size (games ! i) + n\<rparr>]"

definition attribute :: "found list \<Rightarrow> found list \<Rightarrow> found list" where
  "attribute games comps = fold (\<lambda>c gs. case owner gs c of None \<Rightarrow> gs | Some i \<Rightarrow> add_bytes i (fd_size c) gs) comps games"

definition row_less :: "game_row \<Rightarrow> game_row \<Rightarrow> bool" where
  "row_less a b \<longleftrightarrow> gr_rel a < gr_rel b"

definition game_rows :: "found list \<Rightarrow> game_row list" where
  "game_rows games = sort_stable row_less (map (\<lambda>g. \<lparr>gr_rel = fd_rel g, gr_size = fd_size g, gr_title = []\<rparr>) games)"

definition scan_system_dir :: "string \<Rightarrow> fs_node option \<Rightarrow> system \<Rightarrow> walk_error + game_row list" where
  "scan_system_dir dir t sys = (case collect sys (walk_root dir t) ([], []) of
      Inl NotExist \<Rightarrow> Inr []
    | Inl Unreadable \<Rightarrow> Inl Unreadable
    | Inr (games, comps) \<Rightarrow> Inr (game_rows (attribute games comps)))"

section \<open>Staging\<close>

fun tree_bytes :: "visit \<Rightarrow> (nat \<times> nat) option" where
  "tree_bytes (VFile rel n i) = Some (1, fi_size i)"
| "tree_bytes (VSpecial rel n s) = Some (1, s)"
| "tree_bytes v = None"

definition count_tree :: "string \<Rightarrow> fs_node option \<Rightarrow> nat \<times> nat" where
  "count_tree dir t = (let xs = List.map_filter tree_bytes (walk_root dir t) in (length xs, sum_list (map snd xs)))"

definition is_control_file :: "visit \<Rightarrow> bool" where
  "is_control_file v = (case leaf_name v of None \<Rightarrow> False | Some n \<Rightarrow> suffix ''.aria2'' n)"

definition has_aria2_control :: "string \<Rightarrow> fs_node option \<Rightarrow> bool" where
  "has_aria2_control dir t = list_ex is_control_file (walk_root dir t)"

section \<open>Checksums\<close>

definition rom_hash_limit :: nat where "rom_hash_limit = 512 * 2 ^ 20"

text \<open>
  \<open>CacheID\<close>: the hash of a file, or of the first file in an archive. \<open>unzip\<close> gives the entries of an
  archive, the content of a directory being None and of an unreadable entry too.
\<close>

record zip_entry =
  ze_dir :: bool
  ze_data :: "string option"

definition cache_id :: "(string \<Rightarrow> string) \<Rightarrow> (string \<Rightarrow> zip_entry list option) \<Rightarrow> string \<Rightarrow> fs_node option \<Rightarrow> string option" where
  "cache_id sha1 unzip path f = (case f of
      Some (FsFile i) \<Rightarrow>
        if rom_hash_limit < fi_size i then None
        else if equal_fold (path_ext path) ''.zip''
        then (case unzip (fi_data i) of None \<Rightarrow> None
          | Some es \<Rightarrow> (case dropWhile ze_dir es of [] \<Rightarrow> None | e # _ \<Rightarrow> map_option sha1 (ze_data e)))
        else Some (sha1 (fi_data i))
    | _ \<Rightarrow> None)"

definition sha1_batch :: nat where "sha1_batch = 32"

text \<open>
  The backfill: the checksums not yet flushed, the number of flushes so far and the store. \<open>rejects\<close> says
  which flush the store refuses; then the rest is abandoned.
\<close>

definition flush_batch :: "(nat \<Rightarrow> bool) \<Rightarrow> string \<Rightarrow> checksum list \<Rightarrow> nat \<Rightarrow> store \<Rightarrow> store option" where
  "flush_batch rejects key cks n st = (if cks = [] then Some st else if rejects n then None else Some (set_game_checksums key cks st))"

fun fill_sha1 :: "(nat \<Rightarrow> bool) \<Rightarrow> string \<Rightarrow> (string \<Rightarrow> string option) \<Rightarrow> string list \<Rightarrow> checksum list \<Rightarrow> nat \<Rightarrow> store \<Rightarrow> bool \<times> store" where
  "fill_sha1 rejects key hash [] cks n st = (case flush_batch rejects key cks n st of None \<Rightarrow> (False, st) | Some st1 \<Rightarrow> (True, st1))"
| "fill_sha1 rejects key hash (rel # rels) cks n st = (case hash rel of
      None \<Rightarrow> fill_sha1 rejects key hash rels cks n st
    | Some h \<Rightarrow> (let cks1 = cks @ [\<lparr>ck_rel = rel, ck_crc = [], ck_sha = h\<rparr>] in
        if sha1_batch \<le> length cks1
        then (case flush_batch rejects key cks1 n st of None \<Rightarrow> (False, st)
          | Some st1 \<Rightarrow> fill_sha1 rejects key hash rels [] (Suc n) st1)
        else fill_sha1 rejects key hash rels cks1 n st))"

definition persist_sha1s :: "(nat \<Rightarrow> bool) \<Rightarrow> string \<Rightarrow> (string \<Rightarrow> string option) \<Rightarrow> store \<Rightarrow> bool \<times> store" where
  "persist_sha1s rejects key hash st = fill_sha1 rejects key hash (games_missing_sha1 key st) [] 0 st"

section \<open>XML documents\<close>

datatype xml_tok = XStart string "(string \<times> string) list" | XEnd | XText string | XBad

text \<open>\<open>DecodeElement\<close> into a string: the text directly inside the element, and what follows it.\<close>

fun element_text :: "nat \<Rightarrow> string \<Rightarrow> xml_tok list \<Rightarrow> (string \<times> xml_tok list) option" where
  "element_text d acc [] = None"
| "element_text d acc (XBad # ts) = None"
| "element_text d acc (XStart n as # ts) = element_text (Suc d) acc ts"
| "element_text d acc (XText t # ts) = element_text d (if d = 0 then acc @ t else acc) ts"
| "element_text d acc (XEnd # ts) = (case d of 0 \<Rightarrow> Some (acc, ts) | Suc e \<Rightarrow> element_text e acc ts)"

lemma element_text_shorter: "element_text d acc ts = Some (t, rest) \<Longrightarrow> length rest < length ts"
  by (induction d acc ts rule: element_text.induct) (auto split: nat.splits)

record cache_coverage =
  ch_ids :: "string list"
  ch_desc :: "string list"
  ch_cover :: "string list"
  ch_texts :: "(string \<times> string) list"

definition no_cache :: cache_coverage where
  "no_cache = \<lparr>ch_ids = [], ch_desc = [], ch_cover = [], ch_texts = []\<rparr>"

definition add_id :: "string \<Rightarrow> string list \<Rightarrow> string list" where
  "add_id i xs = (if i \<in> set xs then xs else xs @ [i])"

definition attr_of :: "string \<Rightarrow> (string \<times> string) list \<Rightarrow> string" where
  "attr_of n as = mget [] (map_of (rev as)) n"

function read_cache :: "xml_tok list \<Rightarrow> cache_coverage \<Rightarrow> cache_coverage option" where
  "read_cache [] cc = Some cc"
| "read_cache (XBad # ts) cc = None"
| "read_cache (XEnd # ts) cc = read_cache ts cc"
| "read_cache (XText t # ts) cc = read_cache ts cc"
| "read_cache (XStart n as # ts) cc =
    (let i = attr_of ''id'' as; typ = attr_of ''type'' as in
     if n \<noteq> ''resource'' \<or> i = [] then read_cache ts cc
     else let cc1 = cc\<lparr>ch_ids := add_id i (ch_ids cc)\<rparr> in
       if typ = ''description''
       then let cc2 = cc1\<lparr>ch_desc := add_id i (ch_desc cc1)\<rparr> in
         (if map_of (ch_texts cc2) i \<noteq> None then read_cache ts cc2
          else (case element_text 0 [] ts of
              None \<Rightarrow> None
            | Some (t, rest) \<Rightarrow> read_cache rest (if trim_space t \<noteq> [] then cc2\<lparr>ch_texts := ch_texts cc2 @ [(i, t)]\<rparr> else cc2)))
       else if typ = ''cover'' then read_cache ts (cc1\<lparr>ch_cover := add_id i (ch_cover cc1)\<rparr>)
       else read_cache ts cc1)"
  by pat_completeness auto
termination
  by (relation "measure (\<lambda>(ts, cc). length ts)") (auto dest: element_text_shorter)

text \<open>The header of a DAT and the number of its games; a header's fields are the texts of its children.\<close>

record dat_header =
  dh_name :: string
  dh_version :: string
  dh_date :: string
  dh_build :: string

fun header_fields :: "nat \<Rightarrow> string list \<Rightarrow> xml_tok list \<Rightarrow> (string \<times> string) list \<Rightarrow> ((string \<times> string) list \<times> xml_tok list) option" where
  "header_fields d path [] acc = None"
| "header_fields d path (XBad # ts) acc = None"
| "header_fields d path (XStart n as # ts) acc =
    header_fields (Suc d) (n # path) ts (if d = 0 then (n, []) # acc else acc)"
| "header_fields d path (XText t # ts) acc =
    header_fields d path ts (if d = 1 then (case acc of [] \<Rightarrow> [] | (n, v) # rest \<Rightarrow> (n, v @ t) # rest) else acc)"
| "header_fields d path (XEnd # ts) acc = (case d of 0 \<Rightarrow> Some (acc, ts) | Suc e \<Rightarrow> header_fields e (tl path) ts acc)"

lemma header_fields_shorter: "header_fields d path ts acc = Some (fs, rest) \<Longrightarrow> length rest < length ts"
  by (induction d path ts acc rule: header_fields.induct) (auto split: nat.splits)

definition field_or :: "string \<Rightarrow> string \<Rightarrow> (string \<times> string) list \<Rightarrow> string" where
  "field_or old n fs = (case map_of fs n of None \<Rightarrow> old | Some v \<Rightarrow> v)"

function parse_logiqx :: "xml_tok list \<Rightarrow> dat_header \<times> nat \<Rightarrow> (dat_header \<times> nat) option" where
  "parse_logiqx [] hn = Some hn"
| "parse_logiqx (XBad # ts) hn = None"
| "parse_logiqx (XEnd # ts) hn = parse_logiqx ts hn"
| "parse_logiqx (XText t # ts) hn = parse_logiqx ts hn"
| "parse_logiqx (XStart n as # ts) hn =
    (if n = ''header''
     then (case header_fields 0 [] ts [] of None \<Rightarrow> None
       | Some (fs, rest) \<Rightarrow> (let h = fst hn in parse_logiqx rest
           (\<lparr>dh_name = field_or (dh_name h) ''name'' fs, dh_version = field_or (dh_version h) ''version'' fs,
              dh_date = field_or (dh_date h) ''date'' fs, dh_build = field_or (dh_build h) ''build'' fs\<rparr>, snd hn)))
     else if n = ''game'' then parse_logiqx ts (fst hn, Suc (snd hn))
     else parse_logiqx ts hn)"
  by pat_completeness auto
termination
  by (relation "measure (\<lambda>(ts, hn). length ts)") (auto dest: header_fields_shorter)

definition dat_info_of :: "string \<Rightarrow> string \<Rightarrow> nat \<Rightarrow> instant \<Rightarrow> xml_tok list \<Rightarrow> dat_info option" where
  "dat_info_of key file size1 mtime ts =
    (case parse_logiqx ts (\<lparr>dh_name = [], dh_version = [], dh_date = [], dh_build = []\<rparr>, 0) of None \<Rightarrow> None
     | Some (h, n) \<Rightarrow> Some \<lparr>di_system = key, di_filename = file, di_name = dh_name h, di_version = dh_version h,
         di_date = (if dh_date h = [] then dh_build h else dh_date h), di_roms = n, di_size = size1, di_mtime = mtime\<rparr>)"

section \<open>Applying a cache\<close>

text \<open>
  \<open>[]rune\<close> of a text in UTF-8 and back: the bytes of its first \<open>n\<close> code points. A byte from 128 to 191 continues one.
\<close>

definition continues :: "char \<Rightarrow> bool" where
  "continues c \<longleftrightarrow> 128 \<le> code c \<and> code c < 192"

definition rune_count :: "string \<Rightarrow> nat" where
  "rune_count s = length (filter (\<lambda>c. \<not> continues c) s)"

fun take_runes :: "nat \<Rightarrow> string \<Rightarrow> string" where
  "take_runes n [] = []"
| "take_runes n (c # cs) = (if continues c then c # take_runes n cs
     else (case n of 0 \<Rightarrow> [] | Suc m \<Rightarrow> c # take_runes m cs))"

definition max_description :: nat where "max_description = 4000"

definition ingest_text :: "string \<Rightarrow> string" where
  "ingest_text t = (let u = trim_space t in if max_description < rune_count u then take_runes max_description u else u)"

datatype cache_fault = CacheParse | CoveragePersist

definition all_games :: "string \<Rightarrow> store \<Rightarrow> game list" where
  "all_games key st = (case list_games None \<lparr>lo_system = key, lo_q = [], lo_state = None, lo_hidden = None, lo_sort = [], lo_limit = 0,
      lo_offset = 0, lo_desc = None, lo_cover = None, lo_genre = []\<rparr> st of None \<Rightarrow> [] | Some (gs, n) \<Rightarrow> gs)"

definition cache_flags :: "cache_coverage \<Rightarrow> (string \<Rightarrow> string option) \<Rightarrow> game list \<Rightarrow> scrape_flag list" where
  "cache_flags cc hash gs = List.map_filter (\<lambda>g. case hash (gm_rel g) of None \<Rightarrow> None
     | Some i \<Rightarrow> if i \<in> set (ch_desc cc) \<or> i \<in> set (ch_cover cc)
         then Some \<lparr>sf_rel = gm_rel g, sf_desc = (i \<in> set (ch_desc cc)), sf_cover = (i \<in> set (ch_cover cc))\<rparr> else None) gs"

definition cache_metas :: "cache_coverage \<Rightarrow> (string \<Rightarrow> string option) \<Rightarrow> game list \<Rightarrow> game_meta list" where
  "cache_metas cc hash gs = List.map_filter (\<lambda>g. case hash (gm_rel g) of None \<Rightarrow> None
     | Some i \<Rightarrow> map_option (\<lambda>t. \<lparr>gt_rel = gm_rel g, gt_description = ingest_text t, gt_release = [], gt_developer = [],
         gt_publisher = [], gt_genre = [], gt_rating = []\<rparr>) (map_of (ch_texts cc) i)) gs"

text \<open>
  The number of descriptions set, the faults of the two halves, and the store. The cache is None when its
  file cannot be read or parsed.
\<close>

definition apply_cache :: "cache_coverage option \<Rightarrow> (string \<Rightarrow> string option) \<Rightarrow> string \<Rightarrow> bool \<Rightarrow> bool \<Rightarrow> store \<Rightarrow>
    nat \<times> cache_fault option \<times> cache_fault option \<times> store" where
  "apply_cache cache hash key flags enrich st =
    (case cache of
       None \<Rightarrow> (0, if flags then Some CacheParse else None, if enrich then Some CacheParse else None, st)
     | Some cc \<Rightarrow>
        let (cov, st1) = (if flags then (case set_scrape_coverage key (length (ch_ids cc)) st of
                None \<Rightarrow> (Some CoveragePersist, st) | Some st1 \<Rightarrow> (None, st1)) else (None, st));
            gs = all_games key st1;
            st2 = (if flags then set_system_scrape_flags key
                (if ch_desc cc = [] \<and> ch_cover cc = [] \<or> gs = [] then [] else cache_flags cc hash gs) st1 else st1);
            metas = (if enrich \<and> ch_texts cc \<noteq> [] then cache_metas cc hash gs else [])
        in (length metas, cov, None, if metas = [] then st2 else set_game_meta key metas st2))"

section \<open>A scan\<close>

record inventory_file =
  if_generated :: string
  if_cartridge :: "(string \<times> int \<times> int) list"
  if_optical :: "(string \<times> int \<times> int) list"
  if_modern :: "(string \<times> int \<times> int) list"

definition inventory_bucket :: "string \<Rightarrow> (string \<times> int \<times> int) list \<Rightarrow> inventory_row list" where
  "inventory_bucket stamp rows = map (\<lambda>k. let (n, b) = the (map_of rows k) in \<lparr>iv_system = k, iv_count = n, iv_size = b, iv_generated = stamp\<rparr>)
     (sort_stable (<) (remdups (map fst rows)))"

definition read_inventory :: "(string \<Rightarrow> inventory_file option) \<Rightarrow> string \<Rightarrow> walk_error + string \<Rightarrow> inventory_row list option" where
  "read_inventory decode path f = (if path = [] then Some [] else (case f of
      Inl NotExist \<Rightarrow> Some []
    | Inl Unreadable \<Rightarrow> None
    | Inr text \<Rightarrow> map_option (\<lambda>r. inventory_bucket (if_generated r) (if_cartridge r) @ inventory_bucket (if_generated r) (if_optical r)
        @ inventory_bucket (if_generated r) (if_modern r)) (decode text)))"

record scan_config =
  cf_catalogue :: string
  cf_roots :: roots
  cf_dat :: string
  cf_cache :: string
  cf_incoming :: string
  cf_inventory :: string
  cf_exo :: string

text \<open>The world of a scan: the file system by path, the tokens of an XML text, hashes, and refused flushes.\<close>

record scan_world =
  wd_disk :: "string \<Rightarrow> fs_node option"
  wd_xml :: "string \<Rightarrow> xml_tok list"
  wd_hash :: "string \<Rightarrow> fs_node option \<Rightarrow> string option"
  wd_inventory :: "string \<Rightarrow> inventory_file option"
  wd_rejects :: "string \<Rightarrow> nat \<Rightarrow> bool"
  wd_now :: instant

definition read_file :: "fs_node option \<Rightarrow> walk_error + file_info" where
  "read_file f = (case f of None \<Rightarrow> Inl NotExist | Some (FsFile i) \<Rightarrow> Inr i | Some _ \<Rightarrow> Inl Unreadable)"

datatype scan_warning = WalkFailed string | DatUnreadable string | DatPersist string | CacheUnreadable string
  | CoverageFailed string | Sha1Failed string | InventoryUnreadable | InventoryPersist | StagingPersist | ExoWarning string exo_fault

datatype scan_fault = CatalogueFault cat_error | SystemsFault | GamesFault string

record scan_result =
  sc_systems :: nat
  sc_games :: nat
  sc_bytes :: nat
  sc_in_files :: nat
  sc_in_bytes :: nat
  sc_errors :: "scan_fault list"
  sc_warnings :: "scan_warning list"
  sc_exo :: exo_result

definition no_result :: scan_result where
  "no_result = \<lparr>sc_systems = 0, sc_games = 0, sc_bytes = 0, sc_in_files = 0, sc_in_bytes = 0, sc_errors = [], sc_warnings = [],
     sc_exo = no_exo\<rparr>"

definition warn :: "scan_warning \<Rightarrow> scan_result \<Rightarrow> scan_result" where
  "warn w r = r\<lparr>sc_warnings := sc_warnings r @ [w]\<rparr>"

definition catalogue_rows :: "system list \<Rightarrow> (string list \<Rightarrow> string) \<Rightarrow> system_row list" where
  "catalogue_rows syss json = map (\<lambda>(i, s). \<lparr>sr_key = sy_key s, sr_collection = sy_collection s, sr_bucket = sy_bucket s,
     sr_core = sy_core s, sr_emulator = sy_emulator s, sr_sky = sy_sky s, sr_torrent = sy_torrent s, sr_extensions = json (sy_extensions s),
     sr_order = int i + 1, sr_source = SourceCatalogue\<rparr>) (zip [0..<length syss] syss)"

definition games_dir :: "scan_config \<Rightarrow> system \<Rightarrow> string" where
  "games_dir cf s = bucket_root (cf_roots cf) (sy_bucket s) @ ''/'' @ sy_key s"

definition scan_games :: "scan_config \<Rightarrow> scan_world \<Rightarrow> system \<Rightarrow> scan_result \<times> store \<Rightarrow> scan_result \<times> store" where
  "scan_games cf w s rs = (let (r, st) = rs; key = sy_key s; dir = games_dir cf s in
     case scan_system_dir dir (wd_disk w dir) s of
       Inl e \<Rightarrow> (warn (WalkFailed key) r, st)
     | Inr games \<Rightarrow>
        let count = (\<lambda>r. r\<lparr>sc_games := sc_games r + length games, sc_bytes := sc_bytes r + sum_list (map gr_size games)\<rparr>) in
        (case replace_system_games key games (wd_now w) st of
           None \<Rightarrow> (count (r\<lparr>sc_errors := sc_errors r @ [GamesFault key]\<rparr>), st)
         | Some st1 \<Rightarrow> if games = [] then (count r, st1)
             else (case persist_sha1s (wd_rejects w key) key (\<lambda>rel. wd_hash w rel (wd_disk w (dir @ ''/'' @ rel))) st1 of
                 (ok, st2) \<Rightarrow> (count (if ok then r else warn (Sha1Failed key) r), st2))))"

definition scan_dat :: "scan_config \<Rightarrow> scan_world \<Rightarrow> system \<Rightarrow> scan_result \<times> store \<Rightarrow> scan_result \<times> store" where
  "scan_dat cf w s rs = (let (r, st) = rs; key = sy_key s in
     case read_file (wd_disk w (cf_dat cf @ ''/'' @ key @ ''.dat'')) of
       Inl NotExist \<Rightarrow> (r, st)
     | Inl Unreadable \<Rightarrow> (warn (DatUnreadable key) r, st)
     | Inr i \<Rightarrow> (case dat_info_of key (key @ ''.dat'') (fi_size i) (fi_mtime i) (wd_xml w (fi_data i)) of
         None \<Rightarrow> (warn (DatUnreadable key) r, st)
       | Some d \<Rightarrow> (case set_dat_info d st of None \<Rightarrow> (warn (DatPersist key) r, st) | Some st1 \<Rightarrow> (r, st1))))"

definition read_cache_coverage :: "scan_world \<Rightarrow> string \<Rightarrow> cache_coverage option" where
  "read_cache_coverage w dir = (case read_file (wd_disk w (dir @ ''/db.xml'')) of
      Inl NotExist \<Rightarrow> Some no_cache
    | Inl Unreadable \<Rightarrow> None
    | Inr i \<Rightarrow> read_cache (wd_xml w (fi_data i)) no_cache)"

definition scan_coverage :: "scan_config \<Rightarrow> scan_world \<Rightarrow> system \<Rightarrow> scan_result \<times> store \<Rightarrow> scan_result \<times> store" where
  "scan_coverage cf w s rs = (let (r, st) = rs; key = sy_key s in
     case read_cache_coverage w (cf_cache cf @ ''/'' @ key) of
       None \<Rightarrow> (warn (CacheUnreadable key) r, st)
     | Some cc \<Rightarrow> (case set_scrape_coverage key (length (ch_ids cc)) st of None \<Rightarrow> (warn (CoverageFailed key) r, st) | Some st1 \<Rightarrow> (r, st1)))"

definition scan_one :: "scan_config \<Rightarrow> scan_world \<Rightarrow> system \<Rightarrow> scan_result \<times> store \<Rightarrow> scan_result \<times> store" where
  "scan_one cf w s rs = scan_coverage cf w s (scan_dat cf w s (scan_games cf w s rs))"

definition scan_inventory :: "scan_config \<Rightarrow> scan_world \<Rightarrow> scan_result \<times> store \<Rightarrow> scan_result \<times> store" where
  "scan_inventory cf w rs = (let (r, st) = rs in
     case read_inventory (wd_inventory w) (cf_inventory cf) (map_sum id fi_data (read_file (wd_disk w (cf_inventory cf)))) of
       None \<Rightarrow> (warn InventoryUnreadable r, st)
     | Some rows \<Rightarrow> (case replace_inventory rows st of None \<Rightarrow> (warn InventoryPersist r, st) | Some st1 \<Rightarrow> (r, st1)))"

definition scan_exo :: "scan_config \<Rightarrow> scan_world \<Rightarrow> scan_result \<times> store \<Rightarrow> scan_result \<times> store" where
  "scan_exo cf w rs = (let (r, st) = rs in
     if cf_exo cf = [] then (r, st)
     else (case exo_import (\<lambda>p. map_sum id fi_data (read_file (wd_disk w p))) (cf_exo cf) (wd_now w) st of
         (er, st1) \<Rightarrow> (r\<lparr>sc_exo := er, sc_warnings := sc_warnings r @ map (\<lambda>(k, f). ExoWarning k f) (er_warnings er)\<rparr>, st1)))"

definition incoming_row :: "scan_config \<Rightarrow> scan_world \<Rightarrow> system \<Rightarrow> staging_row" where
  "incoming_row cf w s = (let d = cf_incoming cf @ ''/'' @ sy_key s; t = wd_disk w d; (n, b) = count_tree d t in
     \<lparr>sg_system = sy_key s, sg_files = n, sg_bytes = b, sg_in_flight = has_aria2_control d t\<rparr>)"

definition scan_staging :: "scan_config \<Rightarrow> scan_world \<Rightarrow> system list \<Rightarrow> scan_result \<times> store \<Rightarrow> scan_result \<times> store" where
  "scan_staging cf w syss rs = (let (r, st) = rs;
       (r1, st1) = (case replace_staging (map (incoming_row cf w) syss) st of None \<Rightarrow> (warn StagingPersist r, st) | Some st1 \<Rightarrow> (r, st1));
       (n, b) = count_tree (cf_incoming cf) (wd_disk w (cf_incoming cf))
     in (r1\<lparr>sc_in_files := n, sc_in_bytes := b\<rparr>,
         set_meta ''incoming_bytes'' (nat_digits b) (set_meta ''incoming_files'' (nat_digits n) st1)))"

definition scan_all :: "(string list \<Rightarrow> string) \<Rightarrow> scan_config \<Rightarrow> scan_world \<Rightarrow> store \<Rightarrow> scan_result \<times> store" where
  "scan_all json cf w st =
    (case load_catalogue (case read_file (wd_disk w (cf_catalogue cf)) of Inr i \<Rightarrow> Some (fi_data i) | _ \<Rightarrow> None) of
       Inl e \<Rightarrow> (no_result\<lparr>sc_errors := [CatalogueFault e]\<rparr>, st)
     | Inr syss \<Rightarrow> (case upsert_systems (catalogue_rows syss json) st of
         None \<Rightarrow> (no_result\<lparr>sc_errors := [SystemsFault]\<rparr>, st)
       | Some st1 \<Rightarrow> scan_staging cf w syss (scan_exo cf w (scan_inventory cf w
           (fold (scan_one cf w) syss (no_result\<lparr>sc_systems := length syss\<rparr>, st1))))))"

section \<open>One scan at a time\<close>

record scan_state =
  ss_running :: bool
  ss_last_ok :: "instant option"
  ss_failed :: "nat option"

definition begin_scan :: "scan_state \<Rightarrow> scan_state option" where
  "begin_scan s = (if ss_running s then None else Some (s\<lparr>ss_running := True, ss_failed := None\<rparr>))"

definition scan_status :: "scan_result \<Rightarrow> run_status" where
  "scan_status r = (if sc_errors r \<noteq> [] then RunError else RunOk)"

definition end_scan :: "scan_result \<Rightarrow> instant \<Rightarrow> scan_state \<Rightarrow> scan_state" where
  "end_scan r tm s = (if scan_status r = RunOk then s\<lparr>ss_running := False, ss_last_ok := Some tm\<rparr>
     else s\<lparr>ss_running := False, ss_failed := Some (length (sc_errors r))\<rparr>)"

definition scan :: "(scan_result \<Rightarrow> string) \<Rightarrow> (string list \<Rightarrow> string) \<Rightarrow> scan_config \<Rightarrow> scan_world \<Rightarrow> instant \<Rightarrow> scan_state \<Rightarrow> store \<Rightarrow>
    scan_result option \<times> scan_state \<times> store" where
  "scan detail json cf w finished s st = (case begin_scan s of
      None \<Rightarrow> (None, s, st)
    | Some s1 \<Rightarrow> (let (i, st1) = start_run ''scan'' (wd_now w) st; (r, st2) = scan_all json cf w st1
        in (Some r, end_scan r finished s1, finish_run i (scan_status r) (detail r) finished st2)))"

end
