(* ===== verification/ScannerSpec.thy ===== *)
theory ScannerSpec
  imports Scanner StoreSpec
begin

text \<open>
  A scan counts every byte of a system's tree once, keeps the tables consistent whatever the disk holds, and
  leaves the games of a system alone when its walk fails.
\<close>

section \<open>Companions\<close>

lemma games_in_dir_cong: "map fd_rel a = map fd_rel b \<Longrightarrow> games_in_dir a d = games_in_dir b d"
proof -
  assume a: "map fd_rel a = map fd_rel b"
  then have l: "length a = length b" by (metis length_map)
  have "fd_rel (a ! i) = fd_rel (b ! i)" if "i < length b" for i using that l a by (metis nth_map)
  then show ?thesis unfolding games_in_dir_def l by (intro filter_cong) auto
qed

lemma games_in_dir_bound: "i \<in> set (games_in_dir games d) \<Longrightarrow> i < length games \<and> rel_dir (fd_rel (games ! i)) = d"
  by (simp add: games_in_dir_def)

lemma owner_cong:
  assumes "map fd_rel a = map fd_rel b"
  shows "owner a c = owner b c"
proof -
  let ?idx = "games_in_dir b (rel_dir (fd_rel c))"
  have idx: "games_in_dir a (rel_dir (fd_rel c)) = ?idx" by (rule games_in_dir_cong [OF assms])
  have "longer_prefix a base i = longer_prefix b base i" if "i \<in> set ?idx" for base i
  proof -
    have "fd_rel (a ! i) = fd_rel (b ! i)" using assms games_in_dir_bound [OF that] by (metis length_map nth_map)
    then show ?thesis by (intro ext) (simp add: longer_prefix_def)
  qed
  then have "fold (longer_prefix a (strip_ext (fd_rel c))) ?idx x = fold (longer_prefix b (strip_ext (fd_rel c))) ?idx x" for x
    by (intro fold_cong) auto
  then show ?thesis by (simp add: owner_def idx Let_def)
qed

lemma fold_longer_member:
  "fst bl = None \<or> (\<exists>i\<in>A. fst bl = Some i) \<Longrightarrow> set idx \<subseteq> A \<Longrightarrow>
    fst (fold (longer_prefix games base) idx bl) = None \<or> (\<exists>i\<in>A. fst (fold (longer_prefix games base) idx bl) = Some i)"
proof (induction idx arbitrary: bl)
  case (Cons j idx)
  have "fst (longer_prefix games base j bl) = None \<or> (\<exists>i\<in>A. fst (longer_prefix games base j bl) = Some i)"
    using Cons.prems by (auto simp: longer_prefix_def Let_def)
  then show ?case using Cons by simp
qed simp

lemma owner_in_dir: "owner games c = Some i \<Longrightarrow> i < length games \<and> rel_dir (fd_rel (games ! i)) = rel_dir (fd_rel c)"
proof -
  assume o: "owner games c = Some i"
  let ?idx = "games_in_dir games (rel_dir (fd_rel c))"
  have "i \<in> set ?idx"
  proof (cases "length ?idx = 1")
    case True
    then obtain j where "?idx = [j]" by (metis One_nat_def length_0_conv length_Suc_conv)
    then show ?thesis using o by (simp add: owner_def)
  next
    case False
    then show ?thesis using o fold_longer_member [of "(None, - 1)" "set ?idx" ?idx games "strip_ext (fd_rel c)"]
      by (auto simp: owner_def Let_def)
  qed
  then show ?thesis by (rule games_in_dir_bound)
qed

lemma rels_add_bytes [simp]: "map fd_rel (add_bytes i n games) = map fd_rel games"
proof (cases "i < length games")
  case True
  then show ?thesis by (simp add: add_bytes_def map_update) (metis list_update_id nth_map)
qed (simp add: add_bytes_def list_update_beyond)

lemma bytes_add_bytes: "i < length games \<Longrightarrow> sum_list (map fd_size (add_bytes i n games)) = sum_list (map fd_size games) + n"
  using elem_le_sum_list [of i "map fd_size games"] by (simp add: add_bytes_def map_update sum_list_update)

definition owned :: "found list \<Rightarrow> found list \<Rightarrow> found list" where
  "owned games comps = filter (\<lambda>c. owner games c \<noteq> None) comps"

definition stray :: "found list \<Rightarrow> found list \<Rightarrow> found list" where
  "stray games comps = filter (\<lambda>c. owner games c = None) comps"

lemma attribute_bytes:
  "map fd_rel gs = map fd_rel games \<Longrightarrow> map fd_rel (attribute gs comps) = map fd_rel games \<and>
    sum_list (map fd_size (attribute gs comps)) = sum_list (map fd_size gs) + sum_list (map fd_size (owned games comps))"
proof (induction comps arbitrary: gs)
  case Nil
  then show ?case by (simp add: attribute_def owned_def)
next
  case (Cons c comps)
  have o: "owner gs c = owner games c" by (rule owner_cong [OF Cons.prems])
  show ?case
  proof (cases "owner games c")
    case None
    then show ?thesis using Cons.IH [OF Cons.prems] o by (simp add: attribute_def owned_def)
  next
    case (Some i)
    let ?gs = "add_bytes i (fd_size c) gs"
    have "i < length gs" using owner_in_dir [of gs c i] o Some by simp
    then have "sum_list (map fd_size ?gs) = sum_list (map fd_size gs) + fd_size c" by (rule bytes_add_bytes)
    moreover have "map fd_rel ?gs = map fd_rel games" using Cons.prems by simp
    ultimately show ?thesis using Cons.IH [of ?gs] o Some by (simp add: attribute_def owned_def)
  qed
qed

lemma sum_owned_stray: "sum_list (map fd_size (owned games comps)) + sum_list (map fd_size (stray games comps)) = sum_list (map fd_size comps)"
  unfolding owned_def stray_def by (induction comps) auto

lemma game_rows_sums: "sum_list (map gr_size (game_rows games)) = sum_list (map fd_size games)"
  "mset (map gr_rel (game_rows games)) = mset (map fd_rel games)"
proof -
  have m: "mset (game_rows games) = mset (map (\<lambda>g. \<lparr>gr_rel = fd_rel g, gr_size = fd_size g, gr_title = []\<rparr>) games)"
    by (simp add: game_rows_def)
  have "sum_mset (image_mset gr_size (mset (game_rows games))) = sum_mset (image_mset fd_size (mset games))"
    unfolding m by (simp add: image_mset.compositionality comp_def)
  then show "sum_list (map gr_size (game_rows games)) = sum_list (map fd_size games)"
    by (simp add: sum_mset_sum_list flip: mset_map)
  show "mset (map gr_rel (game_rows games)) = mset (map fd_rel games)"
    unfolding mset_map m by (simp add: image_mset.compositionality comp_def)
qed

section \<open>Bytes of the tree\<close>

definition visit_bytes :: "visit list \<Rightarrow> nat" where
  "visit_bytes vs = sum_list (map snd (List.map_filter tree_bytes vs))"

definition hidden_leaf :: "visit \<Rightarrow> bool" where
  "hidden_leaf v = (case leaf_name v of None \<Rightarrow> False | Some n \<Rightarrow> prefix ''.'' n)"

lemma visit_bytes_simps [simp]:
  "visit_bytes [] = 0"
  "visit_bytes (v # vs) = (case tree_bytes v of None \<Rightarrow> 0 | Some nb \<Rightarrow> snd nb) + visit_bytes vs"
  by (simp_all add: visit_bytes_def List.map_filter_simps split: option.split)

lemma collect_bytes:
  "collect sys vs gc = Inr gc' \<Longrightarrow>
    sum_list (map fd_size (fst gc')) + sum_list (map fd_size (snd gc')) + visit_bytes (filter hidden_leaf vs) =
    sum_list (map fd_size (fst gc)) + sum_list (map fd_size (snd gc)) + visit_bytes vs"
proof (induction sys vs gc rule: collect.induct)
  case (4 sys rel n i vs gc)
  then show ?case by (cases "prefix ''.'' n") (simp_all add: hidden_leaf_def add_found_def Let_def split: if_splits)
next
  case (5 sys rel n s vs gc)
  then show ?case by (cases "prefix ''.'' n") (simp_all add: hidden_leaf_def add_found_def Let_def split: if_splits)
qed (auto simp: hidden_leaf_def split: if_splits)

text \<open>
  C22: When the walk of a system's directory succeeds, the rows have exactly the game files, and their
  sizes together with the files that belong to no game and the hidden files add up to the bytes of the
  tree; a companion file is only ever counted for a game in its own directory.
\<close>

theorem scan_counts_each_byte_once:
  assumes "collect sys (walk_root dir t) ([], []) = Inr (games, comps)"
  shows "\<exists>rows. scan_system_dir dir t sys = Inr rows \<and> mset (map gr_rel rows) = mset (map fd_rel games) \<and>
    sum_list (map gr_size rows) + sum_list (map fd_size (stray games comps)) + visit_bytes (filter hidden_leaf (walk_root dir t))
      = snd (count_tree dir t) \<and>
    (\<forall>c\<in>set comps. (c \<in> set (stray games comps) \<longrightarrow> length (games_in_dir games (rel_dir (fd_rel c))) \<noteq> 1) \<and>
       (\<forall>i. owner games c = Some i \<longrightarrow> rel_dir (fd_rel (games ! i)) = rel_dir (fd_rel c)))"
proof (intro exI conjI ballI impI allI)
  let ?rows = "game_rows (attribute games comps)"
  have a: "map fd_rel (attribute games comps) = map fd_rel games"
    "sum_list (map fd_size (attribute games comps)) = sum_list (map fd_size games) + sum_list (map fd_size (owned games comps))"
    using attribute_bytes [of games games comps] by simp_all
  show "scan_system_dir dir t sys = Inr ?rows" using assms by (simp add: scan_system_dir_def)
  show "mset (map gr_rel ?rows) = mset (map fd_rel games)" by (simp only: game_rows_sums a)
  show "sum_list (map gr_size ?rows) + sum_list (map fd_size (stray games comps)) + visit_bytes (filter hidden_leaf (walk_root dir t))
      = snd (count_tree dir t)"
    using collect_bytes [OF assms] sum_owned_stray [of games comps]
    by (simp add: game_rows_sums a count_tree_def visit_bytes_def Let_def)
  fix c assume "c \<in> set (stray games comps)"
  then show "length (games_in_dir games (rel_dir (fd_rel c))) \<noteq> 1" by (auto simp: stray_def owner_def Let_def)
next
  fix c i assume "owner games c = Some i"
  then show "rel_dir (fd_rel (games ! i)) = rel_dir (fd_rel c)" using owner_in_dir by blast
qed

definition sample_rom_dir :: fs_node where
  "sample_rom_dir = FsDir [(''.keep'', FsFile \<lparr>fi_size = 1, fi_mtime = 0, fi_mode = 0, fi_data = []\<rparr>),
     (''a.cue'', FsFile \<lparr>fi_size = 10, fi_mtime = 0, fi_mode = 0, fi_data = []\<rparr>),
     (''a (Track 1).bin'', FsFile \<lparr>fi_size = 100, fi_mtime = 0, fi_mode = 0, fi_data = []\<rparr>),
     (''b.cue'', FsFile \<lparr>fi_size = 20, fi_mtime = 0, fi_mode = 0, fi_data = []\<rparr>),
     (''notes.txt'', FsFile \<lparr>fi_size = 5, fi_mtime = 0, fi_mode = 0, fi_data = []\<rparr>)]"

definition sample_cue_system :: system where
  "sample_cue_system = \<lparr>sy_key = ''ps1'', sy_collection = ''PlayStation'', sy_core = [], sy_emulator = [], sy_extensions = [''cue''],
     sy_sky = [], sy_bucket = ''optical'', sy_torrent = []\<rparr>"

lemma scan_counts_each_byte_once_witness:
  "\<exists>rows. scan_system_dir ''/o/ps1'' (Some sample_rom_dir) sample_cue_system = Inr rows \<and> sum_list (map gr_size rows) + 5 + 1 = 136"
proof -
  obtain games comps where c: "collect sample_cue_system (walk_root ''/o/ps1'' (Some sample_rom_dir)) ([], []) = Inr (games, comps)"
    "sum_list (map fd_size (stray games comps)) = 5"
  proof
    show "collect sample_cue_system (walk_root ''/o/ps1'' (Some sample_rom_dir)) ([], []) =
      Inr ([\<lparr>fd_rel = ''a.cue'', fd_size = 10\<rparr>, \<lparr>fd_rel = ''b.cue'', fd_size = 20\<rparr>],
           [\<lparr>fd_rel = ''a (Track 1).bin'', fd_size = 100\<rparr>, \<lparr>fd_rel = ''notes.txt'', fd_size = 5\<rparr>])" by code_simp
    show "sum_list (map fd_size (stray [\<lparr>fd_rel = ''a.cue'', fd_size = 10\<rparr>, \<lparr>fd_rel = ''b.cue'', fd_size = 20\<rparr>]
           [\<lparr>fd_rel = ''a (Track 1).bin'', fd_size = 100\<rparr>, \<lparr>fd_rel = ''notes.txt'', fd_size = 5\<rparr>])) = 5" by code_simp
  qed
  have "snd (count_tree ''/o/ps1'' (Some sample_rom_dir)) = 136"
    "visit_bytes (filter hidden_leaf (walk_root ''/o/ps1'' (Some sample_rom_dir))) = 1" by code_simp+
  with scan_counts_each_byte_once [OF c(1)] c(2) show ?thesis by auto
qed

text \<open>A file that vanishes during the walk reads as an absent directory: every row is pruned.\<close>

lemma vanished_file_empties_the_system:
  "scan_system_dir ''/o/ps1'' (Some (FsDir [(''a.cue'', FsFile \<lparr>fi_size = 10, fi_mtime = 0, fi_mode = 0, fi_data = []\<rparr>),
     (''b.cue'', FsGone NotExist)])) sample_cue_system = Inr []"
  by code_simp

section \<open>A scan keeps the tables consistent\<close>

lemma wf_flush: "wf_store st \<Longrightarrow> flush_batch rejects key cks n st = Some st1 \<Longrightarrow> wf_store st1"
  by (auto simp: flush_batch_def split: if_splits intro: inv_intros)

lemma wf_fill: "wf_store st \<Longrightarrow> wf_store (snd (fill_sha1 rejects key hash rels cks n st))"
  by (induction rejects key hash rels cks n st rule: fill_sha1.induct)
    (auto simp: Let_def split: option.split dest: wf_flush)

lemma wf_scan_games: "wf_store (snd rs) \<Longrightarrow> wf_store (snd (scan_games cf w s rs))"
  using wf_fill
  by (auto simp: scan_games_def persist_sha1s_def Let_def split: prod.splits sum.split option.split dest: wf_replace_games)
    (metis snd_conv wf_replace_games)+

lemma wf_scan_one: "wf_store (snd rs) \<Longrightarrow> wf_store (snd (scan_one cf w s rs))"
proof -
  assume "wf_store (snd rs)"
  then have 1: "wf_store (snd (scan_games cf w s rs))" by (rule wf_scan_games)
  have 2: "wf_store (snd (scan_dat cf w s rs))" if "wf_store (snd rs)" for rs
    using that by (auto simp: scan_dat_def Let_def split: prod.splits sum.split walk_error.split option.split dest: wf_child_tables)
  have 3: "wf_store (snd (scan_coverage cf w s rs))" if "wf_store (snd rs)" for rs
    using that by (auto simp: scan_coverage_def Let_def split: prod.splits option.split dest: wf_child_tables)
  show ?thesis unfolding scan_one_def by (intro 1 2 3)
qed

lemma wf_fold_snd: "(\<And>x rs. wf_store (snd rs) \<Longrightarrow> wf_store (snd (f x rs))) \<Longrightarrow> wf_store (snd rs) \<Longrightarrow> wf_store (snd (fold f xs rs))"
  by (induction xs arbitrary: rs) simp_all

lemma wf_import_collection: "wf_store st \<Longrightarrow> wf_store (snd (import_collection col cs order tm st))"
  by (auto simp: import_collection_def Let_def split: option.split intro!: wf_flag_ops dest: wf_upsert_exo wf_replace_games)

lemma wf_import_one: "wf_store (snd rs) \<Longrightarrow> wf_store (snd (import_one rd d tm ci rs))"
  using wf_import_collection
  by (auto simp: import_one_def Let_def split: prod.splits sum.split walk_error.split option.split) (metis snd_conv)+

lemma wf_exo_import: "wf_store st \<Longrightarrow> wf_store (snd (exo_import rd d tm st))"
  by (simp add: exo_import_def wf_fold_snd wf_import_one del: fold_simps)

lemma wf_scan_rest:
  assumes "wf_store (snd rs)"
  shows "wf_store (snd (scan_inventory cf w rs))" "wf_store (snd (scan_exo cf w rs))" "wf_store (snd (scan_staging cf w syss rs))"
proof -
  show "wf_store (snd (scan_inventory cf w rs))"
    using assms by (auto simp: scan_inventory_def Let_def split: prod.splits option.split dest: wf_child_tables)
  show "wf_store (snd (scan_exo cf w rs))"
    using assms wf_exo_import by (auto simp: scan_exo_def Let_def split: prod.splits) (metis snd_conv)+
  show "wf_store (snd (scan_staging cf w syss rs))"
    using assms by (auto simp: scan_staging_def Let_def split: prod.splits option.splits intro!: wf_logs dest: wf_child_tables)
qed

lemma wf_scan_all: "wf_store st \<Longrightarrow> wf_store (snd (scan_all json cf w st))"
  by (auto simp: scan_all_def split: sum.split option.split intro!: wf_scan_rest wf_fold_snd wf_scan_one dest: wf_upsert_systems)

text \<open>
  Whatever the disk holds, a scan leaves the tables consistent; while a scan runs another one is
  refused and changes nothing, and a finished scan frees the scanner.
\<close>

lemma scan_keeps_the_tables:
  assumes "wf_store st" "scan detail json cf w finished s st = (res, s', st')"
  shows "wf_store st' \<and> (ss_running s \<longrightarrow> res = None \<and> s' = s \<and> st' = st) \<and>
    (\<not> ss_running s \<longrightarrow> res \<noteq> None \<and> \<not> ss_running s')"
proof (cases "ss_running s")
  case True
  then show ?thesis using assms by (simp add: scan_def begin_scan_def)
next
  case False
  have "wf_store (snd (scan_all json cf w (snd (start_run ''scan'' (wd_now w) st))))"
    by (intro wf_scan_all wf_logs assms(1))
  then show ?thesis using assms(2) False
    by (auto simp: scan_def begin_scan_def end_scan_def split: prod.splits if_splits intro!: wf_logs)
qed

definition sample_config :: scan_config where
  "sample_config = \<lparr>cf_catalogue = ''/c'', cf_roots = \<lparr>rt_cartridge = ''/r'', rt_optical = ''/o'', rt_modern = ''/m''\<rparr>, cf_dat = ''/d'',
     cf_cache = ''/s'', cf_incoming = ''/i'', cf_inventory = ''/v'', cf_exo = []\<rparr>"

definition sample_world :: "fs_node \<Rightarrow> scan_world" where
  "sample_world node = \<lparr>wd_disk = (\<lambda>p. if p = ''/c''
       then Some (FsFile \<lparr>fi_size = 0, fi_mtime = 0, fi_mode = 0, fi_data = show_table [sample_cue_system]\<rparr>)
       else if p = ''/o/ps1'' then Some node else None),
     wd_xml = (\<lambda>_. []), wd_hash = (\<lambda>_ _. None), wd_inventory = (\<lambda>_. None), wd_rejects = (\<lambda>_ _. False), wd_now = 7\<rparr>"

section \<open>Failures leave the rows of a system alone\<close>

lemma filter_update_other: "(\<And>x. P x \<Longrightarrow> \<not> Q x \<and> \<not> Q (f x)) \<Longrightarrow> filter Q (update_where P f xs) = filter Q xs"
  unfolding update_where_def by (induction xs) auto

lemma games_of_map_games:
  "(\<And>g. P g \<Longrightarrow> gm_system g \<noteq> key) \<Longrightarrow> (\<And>g. gm_system (f g) = gm_system g) \<Longrightarrow> games_of key (map_games P f st) = games_of key st"
  unfolding games_of_def map_games_def by (simp, rule filter_update_other) auto

lemma games_of_fold: "(\<And>x st. games_of key (f x st) = games_of key st) \<Longrightarrow> games_of key (fold f xs st) = games_of key st"
  by (induction xs arbitrary: st) simp_all

lemma games_of_flag_ops:
  assumes "key \<noteq> k"
  shows "games_of key (set_game_checksums k cks st) = games_of key st" "games_of key (set_game_meta k ms st) = games_of key st"
    "games_of key (set_system_cover_flags k rels st) = games_of key st"
  unfolding set_game_checksums_def set_game_meta_def set_system_cover_flags_def
  by (intro games_of_fold [THEN trans] games_of_fold games_of_map_games refl; use assms in \<open>auto simp: is_game_def intro!: games_of_map_games\<close>)+

lemma games_of_replace: "key \<noteq> k \<Longrightarrow> replace_system_games k rows ts st = Some st1 \<Longrightarrow> games_of key st1 = games_of key st"
proof -
  assume k: "key \<noteq> k" "replace_system_games k rows ts st = Some st1"
  have f: "games_of key s = filter (\<lambda>g. gm_system g = key) (filter (\<lambda>g. gm_system g \<noteq> k) (st_games s))" for s
    unfolding games_of_def filter_filter using k(1) by (intro filter_cong) auto
  show ?thesis unfolding f replace_games_others [OF k(2)] ..
qed

lemma games_of_fill: "key \<noteq> k \<Longrightarrow> games_of key (snd (fill_sha1 rejects k hash rels cks n st)) = games_of key st"
proof (induction rejects k hash rels cks n st rule: fill_sha1.induct)
  case (1 rejects k hash cks n st)
  then show ?case by (auto simp: flush_batch_def games_of_flag_ops)
next
  case (2 rejects k hash rel rels cks n st)
  have f: "games_of key st1 = games_of key st" if "flush_batch rejects k c n st = Some st1" for c st1
    using that 2(4) by (auto simp: flush_batch_def games_of_flag_ops split: if_splits)
  show ?case using 2 by (auto simp: Let_def f split: option.split)
qed

lemma games_of_scan_games_other:
  assumes "sy_key s \<noteq> key"
  shows "games_of key (snd (scan_games cf w s rs)) = games_of key (snd rs)"
  using assms games_of_fill [of key "sy_key s"]
  by (auto simp: scan_games_def persist_sha1s_def Let_def games_of_replace split: prod.splits sum.split option.split)
    (metis games_of_replace snd_conv)+

lemma games_of_games: "st_games st1 = st_games st \<Longrightarrow> games_of key st1 = games_of key st"
  by (simp add: games_of_def)

lemma scan_dat_games [simp]: "st_games (snd (scan_dat cf w s rs)) = st_games (snd rs)"
  by (auto simp: scan_dat_def Let_def set_dat_info_def split: prod.splits sum.split walk_error.split option.split)

lemma scan_coverage_games [simp]: "st_games (snd (scan_coverage cf w s rs)) = st_games (snd rs)"
  by (auto simp: scan_coverage_def Let_def set_scrape_coverage_def split: prod.splits option.split)

lemma scan_warnings_grow:
  "set (sc_warnings (fst rs)) \<subseteq> set (sc_warnings (fst (scan_games cf w s rs)))"
  "set (sc_warnings (fst rs)) \<subseteq> set (sc_warnings (fst (scan_dat cf w s rs)))"
  "set (sc_warnings (fst rs)) \<subseteq> set (sc_warnings (fst (scan_coverage cf w s rs)))"
  "set (sc_warnings (fst rs)) \<subseteq> set (sc_warnings (fst (scan_inventory cf w rs)))"
  "set (sc_warnings (fst rs)) \<subseteq> set (sc_warnings (fst (scan_exo cf w rs)))"
  "set (sc_warnings (fst rs)) \<subseteq> set (sc_warnings (fst (scan_staging cf w syss rs)))"
  by (auto simp: scan_games_def scan_dat_def scan_coverage_def scan_inventory_def scan_exo_def scan_staging_def warn_def Let_def
      split: prod.splits sum.split walk_error.split option.split)

lemma scan_one_warnings: "set (sc_warnings (fst rs)) \<subseteq> set (sc_warnings (fst (scan_one cf w s rs)))"
  unfolding scan_one_def using scan_warnings_grow by blast

lemma scan_fold_warnings: "set (sc_warnings (fst rs)) \<subseteq> set (sc_warnings (fst (fold (scan_one cf w) ss rs)))"
proof (induction ss arbitrary: rs)
  case (Cons s ss)
  then show ?case using scan_one_warnings [of rs cf w s] by fastforce
qed simp

lemma scan_one_other: "sy_key s \<noteq> key \<Longrightarrow> games_of key (snd (scan_one cf w s rs)) = games_of key (snd rs)"
  by (simp add: scan_one_def games_of_games [OF scan_coverage_games] games_of_games [OF scan_dat_games] games_of_scan_games_other)

lemma scan_one_failed:
  assumes "scan_system_dir (games_dir cf s) (wd_disk w (games_dir cf s)) s = Inl e"
  shows "games_of key (snd (scan_one cf w s rs)) = games_of key (snd rs)"
    "WalkFailed (sy_key s) \<in> set (sc_warnings (fst (scan_one cf w s rs)))"
proof -
  have g: "scan_games cf w s rs = (warn (WalkFailed (sy_key s)) (fst rs), snd rs)"
    using assms by (simp add: scan_games_def Let_def split: prod.split)
  show "games_of key (snd (scan_one cf w s rs)) = games_of key (snd rs)"
    by (simp add: scan_one_def games_of_games [OF scan_coverage_games] games_of_games [OF scan_dat_games] g)
  have "WalkFailed (sy_key s) \<in> set (sc_warnings (fst (scan_games cf w s rs)))" by (simp add: g warn_def)
  then show "WalkFailed (sy_key s) \<in> set (sc_warnings (fst (scan_one cf w s rs)))"
    unfolding scan_one_def using scan_warnings_grow(2,3) by blast
qed

lemma scan_fold_failed:
  assumes "s \<in> set ss" "distinct (map sy_key ss)" "scan_system_dir (games_dir cf s) (wd_disk w (games_dir cf s)) s = Inl e"
  shows "games_of (sy_key s) (snd (fold (scan_one cf w) ss rs)) = games_of (sy_key s) (snd rs) \<and>
    WalkFailed (sy_key s) \<in> set (sc_warnings (fst (fold (scan_one cf w) ss rs)))"
  using assms(1,2)
proof (induction ss arbitrary: rs)
  case (Cons x ss)
  have other: "games_of (sy_key s) (snd (fold (scan_one cf w) ss rs)) = games_of (sy_key s) (snd rs)"
    if "sy_key s \<notin> sy_key ` set ss" for rs and ss
    using that by (induction ss arbitrary: rs) (auto simp: scan_one_other)
  show ?case
  proof (cases "x = s")
    case True
    then have "sy_key s \<notin> sy_key ` set ss" using Cons.prems(2) by simp
    then show ?thesis
      using scan_one_failed [OF assms(3), where rs = rs] scan_fold_warnings [where rs = "scan_one cf w s rs" and cf = cf and w = w and ss = ss] True other by auto
  next
    case False
    then have "s \<in> set ss" "sy_key x \<noteq> sy_key s" using Cons.prems by auto
    then show ?thesis using Cons.IH [of "scan_one cf w x rs"] Cons.prems(2) by (simp add: scan_one_other)
  qed
qed simp

lemma games_of_delete_systems:
  assumes "wf_store st" "\<And>s. s \<in> set (st_systems st) \<Longrightarrow> sr_key s = key \<Longrightarrow> \<not> P s"
  shows "games_of key (delete_systems P st) = games_of key st"
proof -
  have "key \<notin> sr_key ` set (filter P (st_systems st))" using assms(2) by auto
  then show ?thesis
    unfolding games_of_def delete_systems_def delete_games_def Let_def by (auto intro!: filter_cong)
qed

lemma upsert_system_games: "upsert_system r st = Some st1 \<Longrightarrow> st_games st1 = st_games st"
  by (auto simp: upsert_system_def split: if_splits)

lemma upsert_rows_games: "upsert_rows rs st = Some st1 \<Longrightarrow> st_games st1 = st_games st"
  by (induction rs arbitrary: st) (auto split: option.splits dest: upsert_system_games)

lemma games_of_upsert_systems:
  assumes "wf_store st" "upsert_systems rows st = Some st1" "key \<in> sr_key ` set rows"
  shows "games_of key st1 = games_of key st"
proof -
  obtain st0 where st0: "upsert_rows rows st = Some st0"
    "st1 = delete_systems (\<lambda>s. sr_source s \<noteq> SourceExo \<and> sr_key s \<notin> set (map sr_key rows)) st0"
    using assms(2) by (auto simp: upsert_systems_def split: option.splits)
  have "games_of key st1 = games_of key st0"
    unfolding st0(2) using assms(3) by (intro games_of_delete_systems wf_upsert_rows [OF assms(1) st0(1)]) auto
  then show ?thesis using upsert_rows_games [OF st0(1)] by (simp add: games_of_def)
qed

lemma games_of_import_one: "key \<noteq> ex_key (fst ci) \<Longrightarrow> games_of key (snd (import_one rd d tm ci rs)) = games_of key (snd rs)"
proof -
  assume k: "key \<noteq> ex_key (fst ci)"
  have "games_of key (snd (import_collection col cs order tm st)) = games_of key st" if "key \<noteq> ex_key col" for col cs order st
  proof (cases "upsert_exo_system (exo_system col cs order) st")
    case (Some st1)
    then have "games_of key st1 = games_of key st"
      by (auto simp: upsert_exo_system_def dest!: upsert_system_games intro: games_of_games)
    then show ?thesis using Some games_of_replace [OF that]
      by (auto simp: import_collection_def Let_def games_of_flag_ops [OF that] split: option.split)
  qed (simp add: import_collection_def)
  then show ?thesis using k
    by (auto simp: import_one_def Let_def split: prod.splits sum.split walk_error.split option.split) (metis snd_conv)+
qed

lemma games_of_exo: "key \<notin> ex_key ` set exo_collections \<Longrightarrow> games_of key (snd (exo_import rd d tm st)) = games_of key st"
proof -
  assume k: "key \<notin> ex_key ` set exo_collections"
  have step: "games_of key (snd (fold (import_one rd d tm) cis rs)) = games_of key (snd rs)" if "fst ` set cis \<subseteq> set exo_collections" for cis rs
    using that
  proof (induction cis arbitrary: rs)
    case (Cons ci cis)
    then have "key \<noteq> ex_key (fst ci)" using k by auto
    then show ?case using Cons by (simp add: games_of_import_one)
  qed simp
  then have "games_of key (snd (fold (import_one rd d tm) (zip exo_collections is) rs)) = games_of key (snd rs)" for "is" rs
  proof -
    have "fst ` set (zip exo_collections is) \<subseteq> set exo_collections" by (auto dest: set_zip_leftD)
    then show ?thesis by (rule step)
  qed
  then show ?thesis unfolding exo_import_def by (simp del: upt_rec_numeral fold_simps)
qed

lemma scan_rest_games:
  "key \<notin> ex_key ` set exo_collections \<Longrightarrow>
    games_of key (snd (scan_staging cf w syss (scan_exo cf w (scan_inventory cf w rs)))) = games_of key (snd rs)"
proof -
  assume k: "key \<notin> ex_key ` set exo_collections"
  have 1: "games_of key (snd (scan_staging cf w syss rs)) = games_of key (snd rs)" for rs
    by (rule games_of_games) (auto simp: scan_staging_def replace_staging_def set_meta_def Let_def split: prod.splits option.splits if_splits)
  have 2: "games_of key (snd (scan_inventory cf w rs)) = games_of key (snd rs)" for rs
    by (rule games_of_games) (auto simp: scan_inventory_def replace_inventory_def Let_def split: prod.splits option.splits if_splits)
  have 3: "games_of key (snd (scan_exo cf w rs)) = games_of key (snd rs)" for rs
    using games_of_exo [OF k] by (auto simp: scan_exo_def Let_def split: prod.splits) (metis snd_conv)
  show ?thesis by (simp only: 1 2 3)
qed

text \<open>
  When the walk of one system's directory fails, a scan leaves every game row of that system as it
  was and reports a warning that names it, unless the import of the systems failed as a whole.
\<close>

lemma failed_walk_keeps_the_games:
  assumes "wf_store st" "read_file (wd_disk w (cf_catalogue cf)) = Inr i" "load_catalogue (Some (fi_data i)) = Inr syss"
    "scan_all json cf w st = (r, st')" "s \<in> set syss" "distinct (map sy_key syss)"
    "scan_system_dir (games_dir cf s) (wd_disk w (games_dir cf s)) s = Inl e" "sy_key s \<notin> {''dos'', ''win3x'', ''win9x''}"
  shows "filter (\<lambda>g. gm_system g = sy_key s) (st_games st') = filter (\<lambda>g. gm_system g = sy_key s) (st_games st) \<and>
    (sc_errors r = [SystemsFault] \<or> WalkFailed (sy_key s) \<in> set (sc_warnings r))"
proof (cases "upsert_systems (catalogue_rows syss json) st")
  case None
  then show ?thesis using assms(2-4) by (auto simp: scan_all_def no_result_def)
next
  case (Some st1)
  let ?rs = "(no_result\<lparr>sc_systems := length syss\<rparr>, st1)"
  have all: "scan_all json cf w st = scan_staging cf w syss (scan_exo cf w (scan_inventory cf w (fold (scan_one cf w) syss ?rs)))"
    using assms(2,3) Some by (simp add: scan_all_def)
  have key: "sy_key s \<notin> ex_key ` set exo_collections" using assms(8) by (simp add: exo_collections_def)
  have "sy_key s \<in> sr_key ` set (catalogue_rows syss json)"
    using assms(5) by (force simp: catalogue_rows_def image_iff in_set_conv_nth set_zip)
  then have st1: "games_of (sy_key s) st1 = games_of (sy_key s) st" by (rule games_of_upsert_systems [OF assms(1) Some])
  note f = scan_fold_failed [OF assms(5,6,7), of ?rs]
  have "games_of (sy_key s) st' = games_of (sy_key s) st"
    using scan_rest_games [OF key, of cf w syss "fold (scan_one cf w) syss ?rs"] f st1 assms(4) all by simp
  moreover have "WalkFailed (sy_key s) \<in> set (sc_warnings r)"
    using f scan_warnings_grow(4-6) assms(4) all by (metis fst_conv subsetD)
  ultimately show ?thesis by (simp add: games_of_def)
qed

end
