(* ===== verification/Dats.thy ===== *)
theory Dats
  imports Scanner StoreQueries "HOL-Library.AList"
begin

text \<open>
  internal/dats/dats.go of pkgs/arcade-webapp: fetching the DAT of each system at one commit, the lock file that
  pins what was accepted, the ledger of accepted generations, and the alarm for a feed that stopped moving.
  The servers, SHA-256, the faults of the disk and the clock are a record of arguments.
\<close>

section \<open>Where a DAT comes from\<close>

definition no_intro :: "string \<Rightarrow> string \<Rightarrow> string \<times> string" where
  "no_intro key name = (key, ''no-intro/'' @ name @ '' (No-Intro - Fresh1G1R - McLean).dat'')"

definition redump :: "string \<Rightarrow> string \<Rightarrow> string \<times> string" where
  "redump key name = (key, ''redump/'' @ name @ '' (Redump - Fresh1G1R - McLean).dat'')"

definition mclean_dats :: "(string \<times> string) list" where
  "mclean_dats = [
     no_intro ''nes'' ''Nintendo - Nintendo Entertainment System (Headerless)'',
     no_intro ''snes'' ''Nintendo - Super Nintendo Entertainment System'',
     no_intro ''gb'' ''Nintendo - Game Boy'',
     no_intro ''gbc'' ''Nintendo - Game Boy Color'',
     no_intro ''gba'' ''Nintendo - Game Boy Advance'',
     no_intro ''n64'' ''Nintendo - Nintendo 64 (BigEndian)'',
     no_intro ''fds'' ''Nintendo - Family Computer Disk System (FDS)'',
     no_intro ''virtualboy'' ''Nintendo - Virtual Boy'',
     no_intro ''pokemonmini'' ''Nintendo - Pokemon Mini'',
     no_intro ''gameandwatch'' ''Nintendo - Game & Watch'',
     no_intro ''nds'' ''Nintendo - Nintendo DS (Decrypted)'',
     no_intro ''dsi'' ''Nintendo - Nintendo DSi (Decrypted)'',
     no_intro ''3ds'' ''Nintendo - Nintendo 3DS (Decrypted)'',
     no_intro ''new3ds'' ''Nintendo - New Nintendo 3DS (Decrypted)'',
     no_intro ''sms'' ''Sega - Master System - Mark III'',
     no_intro ''megadrive'' ''Sega - Mega Drive - Genesis'',
     no_intro ''gamegear'' ''Sega - Game Gear'',
     no_intro ''sega32x'' ''Sega - 32X'',
     no_intro ''sg1000'' ''Sega - SG-1000 - SC-3000'',
     no_intro ''pce'' ''NEC - PC Engine - TurboGrafx-16'',
     no_intro ''supergrafx'' ''NEC - PC Engine SuperGrafx'',
     no_intro ''ngp'' ''SNK - NeoGeo Pocket'',
     no_intro ''ngpc'' ''SNK - NeoGeo Pocket Color'',
     no_intro ''c64'' ''Commodore - Commodore 64'',
     no_intro ''vic20'' ''Commodore - VIC-20'',
     no_intro ''plus4'' ''Commodore - Plus-4'',
     no_intro ''amiga'' ''Commodore - Amiga'',
     no_intro ''msx'' ''Microsoft - MSX'',
     no_intro ''msx2'' ''Microsoft - MSX2'',
     no_intro ''coleco'' ''Coleco - ColecoVision'',
     no_intro ''intellivision'' ''Mattel - Intellivision'',
     no_intro ''vectrex'' ''GCE - Vectrex'',
     no_intro ''odyssey2'' ''Magnavox - Odyssey 2'',
     no_intro ''videopac'' ''Philips - Videopac+'',
     no_intro ''apple2'' ''Apple - II (WOZ)'',
     no_intro ''a2600'' ''Atari - Atari 2600'',
     no_intro ''a5200'' ''Atari - Atari 5200'',
     no_intro ''a7800'' ''Atari - Atari 7800 (BIN)'',
     no_intro ''a800'' ''Atari - Atari 8-bit Family'',
     no_intro ''lynx'' ''Atari - Atari Lynx (LYX)'',
     no_intro ''jaguar'' ''Atari - Atari Jaguar (J64)'',
     no_intro ''atari_st'' ''Atari - Atari ST'',
     redump ''gamecube'' ''Nintendo - GameCube'',
     redump ''wii'' ''Nintendo - Wii'',
     redump ''segacd'' ''Sega - Mega CD & Sega CD'',
     redump ''saturn'' ''Sega - Saturn'',
     redump ''dreamcast'' ''Sega - Dreamcast'',
     redump ''psp'' ''Sony - PlayStation Portable'',
     redump ''ps1'' ''Sony - PlayStation'',
     redump ''ps2'' ''Sony - PlayStation 2'',
     redump ''jaguar_cd'' ''Atari - Jaguar CD Interactive Multimedia System'',
     redump ''pce_cd'' ''NEC - PC Engine CD & TurboGrafx CD'',
     redump ''pc98'' ''NEC - PC-98 series'',
     redump ''neocd'' ''SNK - Neo Geo CD'',
     redump ''amiga_cd'' ''Commodore - Amiga CD'',
     redump ''amiga_cd32'' ''Commodore - Amiga CD32'',
     redump ''amiga_cdtv'' ''Commodore - Amiga CDTV'',
     redump ''fmtowns'' ''Fujitsu - FM-Towns'']"

definition default_subdir :: string where "default_subdir = ''daily-1g1r-dat/McLean''"

definition hex_upper :: "nat \<Rightarrow> char" where
  "hex_upper n = (if n < 10 then char_of (n + 48) else char_of (n + 55))"

definition path_safe :: "char \<Rightarrow> bool" where
  "path_safe c \<longleftrightarrow> 65 \<le> code c \<and> code c \<le> 90 \<or> 97 \<le> code c \<and> code c \<le> 122 \<or> is_digit c \<or> c \<in> set ''-._~/''"

definition encode_path :: "string \<Rightarrow> string" where
  "encode_path rel = concat (map (\<lambda>c. if path_safe c then [c] else [CHR ''%'', hex_upper (code c div 16), hex_upper (code c mod 16)]) rel)"

record fetcher =
  ft_base :: string
  ft_subdir :: string

definition dat_subdir :: "fetcher \<Rightarrow> string" where
  "dat_subdir f = (if ft_subdir f \<noteq> [] then ft_subdir f else default_subdir)"

definition pinned_url :: "fetcher \<Rightarrow> string \<Rightarrow> string \<Rightarrow> string" where
  "pinned_url f commit rel = ft_base f @ ''/'' @ commit @ ''/'' @ encode_path (dat_subdir f @ ''/'' @ rel)"

definition system_url :: "fetcher \<Rightarrow> string \<Rightarrow> string \<Rightarrow> string" where
  "system_url f commit key = (case map_of mclean_dats key of None \<Rightarrow> [] | Some rel \<Rightarrow> pinned_url f commit rel)"

definition url_for :: "string \<Rightarrow> string \<Rightarrow> string" where
  "url_for base key = (case map_of mclean_dats key of None \<Rightarrow> []
    | Some rel \<Rightarrow> base @ ''/<commit>/'' @ encode_path (default_subdir @ ''/'' @ rel))"

section \<open>The lock\<close>

text \<open>The text of \<open>fetched_at\<close> is an instant to the second, or nothing when it does not parse.\<close>

record lock_entry =
  le_commit :: string
  le_sha :: string
  le_roms :: nat
  le_fetched :: "instant option"

type_synonym dat_lock = "(string \<times> lock_entry) list"

datatype lock_file = NoLock | LockBroken | LockDoc dat_lock

definition read_lock :: "lock_file \<Rightarrow> dat_lock option" where
  "read_lock lf = (case lf of NoLock \<Rightarrow> Some [] | LockBroken \<Rightarrow> None | LockDoc l \<Rightarrow> Some l)"

datatype lock_fault = LockUnreadable | DatMissing | LockMismatch lock_entry string

text \<open>The bytes of a file by its name in the directory; None when it is missing or cannot be read.\<close>

type_synonym dat_files = "string \<Rightarrow> string option"

definition dat_file :: "string \<Rightarrow> string" where
  "dat_file key = key @ ''.dat''"

definition check_lock :: "(string \<Rightarrow> string) \<Rightarrow> lock_file \<Rightarrow> dat_files \<Rightarrow> string \<Rightarrow> lock_fault option" where
  "check_lock sha lf files key = (case read_lock lf of None \<Rightarrow> Some LockUnreadable
    | Some l \<Rightarrow> (case map_of l key of None \<Rightarrow> None
      | Some e \<Rightarrow> (case files (dat_file key) of None \<Rightarrow> Some DatMissing
        | Some b \<Rightarrow> if sha b \<noteq> le_sha e then Some (LockMismatch e (sha b)) else None)))"

definition newer_pin :: "lock_entry \<Rightarrow> string \<times> instant \<Rightarrow> string \<times> instant" where
  "newer_pin e best = (if length (le_commit e) \<noteq> 40 then best
     else (let tm = (case le_fetched e of None \<Rightarrow> zero_time | Some t \<Rightarrow> t)
       in if fst best = [] \<or> snd best < tm then (le_commit e, tm) else best))"

definition pinned_commit :: "dat_lock \<Rightarrow> string option" where
  "pinned_commit l = (let best = fst (fold newer_pin (map snd l) ([], zero_time)) in if best \<noteq> [] then Some best else None)"

section \<open>Fetching one system\<close>

text \<open>
  The world of a refresh: the commit that the server names, the body behind a URL, the hash, the tokens of an
  XML text, the instant at which a system is fetched, and whether a file or the lock can be written.
\<close>

record fetch_world =
  fw_commit :: "string option"
  fw_get :: "string \<Rightarrow> string option"
  fw_sha :: "string \<Rightarrow> string"
  fw_xml :: "string \<Rightarrow> xml_tok list"
  fw_now :: "string \<Rightarrow> instant"
  fw_write :: "string \<Rightarrow> bool"
  fw_lock_write :: bool

definition resolve_commit :: "fetch_world \<Rightarrow> string option" where
  "resolve_commit w = (case fw_commit w of None \<Rightarrow> None | Some c \<Rightarrow> if length c \<noteq> 40 then None else Some c)"

datatype fetch_error = DownloadFailed | Mismatch lock_entry string | DatUnparseable | InstallFailed | InfoFailed

record fetch_state =
  fs_files :: dat_files
  fs_lock :: dat_lock
  fs_store :: store

definition to_second :: "instant \<Rightarrow> instant" where
  "to_second t = unix_time (to_unix t)"

definition install :: "string \<Rightarrow> string \<Rightarrow> fetch_state \<Rightarrow> fetch_state" where
  "install key body s = s\<lparr>fs_files := (fs_files s)(dat_file key \<mapsto> body)\<rparr>"

definition accept_generation :: "fetch_world \<Rightarrow> string \<Rightarrow> string \<Rightarrow> string \<Rightarrow> dat_info \<Rightarrow> fetch_state \<Rightarrow> fetch_state" where
  "accept_generation w key commit digest info s = (let now1 = to_second (fw_now w key) in
     s\<lparr>fs_store := append_dat_version \<lparr>dv_system = key, dv_commit = commit, dv_sha = digest, dv_roms = di_roms info,
         dv_name = di_name info, dv_version = di_version info, dv_date = di_date info, dv_fetched = now1\<rparr> (fs_store s),
       fs_lock := AList.update key \<lparr>le_commit = commit, le_sha = digest, le_roms = di_roms info, le_fetched = Some now1\<rparr> (fs_lock s)\<rparr>)"

definition confirm_generation :: "fetch_world \<Rightarrow> string \<Rightarrow> string \<Rightarrow> dat_info \<Rightarrow> fetch_state \<Rightarrow> (fetch_error + bool) \<times> fetch_state" where
  "confirm_generation w key body info s =
    (let same = (case fs_files s (dat_file key) of None \<Rightarrow> False | Some b \<Rightarrow> fw_sha w b = fw_sha w body)
     in if \<not> same \<and> \<not> fw_write w (dat_file key) then (Inl InstallFailed, s)
     else (let s1 = (if same then s else install key body s)
       in (case set_dat_info info (fs_store s1) of
             None \<Rightarrow> (Inl InfoFailed, s1)
           | Some st \<Rightarrow> (Inr False, s1\<lparr>fs_store := st\<rparr>))))"

definition new_generation :: "fetch_world \<Rightarrow> string \<Rightarrow> string \<Rightarrow> string \<Rightarrow> dat_info \<Rightarrow> fetch_state \<Rightarrow> (fetch_error + bool) \<times> fetch_state" where
  "new_generation w key commit body info s =
    (if \<not> fw_write w (dat_file key) then (Inl InstallFailed, s)
     else (let s1 = install key body s
       in (case set_dat_info info (fs_store s1) of
             None \<Rightarrow> (Inl InfoFailed, s1)
           | Some st \<Rightarrow> (Inr True, accept_generation w key commit (fw_sha w body) info (s1\<lparr>fs_store := st\<rparr>)))))"

definition locked_at :: "string \<Rightarrow> string \<Rightarrow> dat_lock \<Rightarrow> lock_entry option" where
  "locked_at key commit l = (case map_of l key of None \<Rightarrow> None | Some e \<Rightarrow> if le_commit e = commit then Some e else None)"

definition fetch_system_at :: "fetcher \<Rightarrow> fetch_world \<Rightarrow> string \<Rightarrow> string \<Rightarrow> string \<Rightarrow> fetch_state \<Rightarrow> (fetch_error + bool) \<times> fetch_state" where
  "fetch_system_at f w key rel commit s =
    (case fw_get w (pinned_url f commit rel) of
       None \<Rightarrow> (Inl DownloadFailed, s)
     | Some body \<Rightarrow>
        let info1 = dat_info_of key [] (length body) (fw_now w key) (fw_xml w body)
        in (case locked_at key commit (fs_lock s) of
              Some e \<Rightarrow>
                if le_sha e \<noteq> fw_sha w body then (Inl (Mismatch e (fw_sha w body)), s)
                else (case info1 of None \<Rightarrow> (Inl DatUnparseable, s) | Some info \<Rightarrow> confirm_generation w key body info s)
            | None \<Rightarrow> (case info1 of None \<Rightarrow> (Inl DatUnparseable, s) | Some info \<Rightarrow> new_generation w key commit body info s)))"

section \<open>A refresh\<close>

datatype dat_warning = AlreadyRunning | NoCommit string | FetchFailed string fetch_error | LockWriteFailed

record fetch_result =
  fr_systems :: nat
  fr_fetched :: nat
  fr_unmapped :: nat
  fr_warnings :: "dat_warning list"

definition no_fetches :: fetch_result where
  "no_fetches = \<lparr>fr_systems = 0, fr_fetched = 0, fr_unmapped = 0, fr_warnings = []\<rparr>"

definition refresh_one :: "fetcher \<Rightarrow> fetch_world \<Rightarrow> string \<Rightarrow> system_row \<Rightarrow> fetch_result \<times> fetch_state \<Rightarrow> fetch_result \<times> fetch_state" where
  "refresh_one f w commit sys rs =
    (let (r0, s) = rs; r = r0\<lparr>fr_systems := Suc (fr_systems r0)\<rparr>; key = sr_key sys;
         warn1 = (\<lambda>x. r\<lparr>fr_warnings := fr_warnings r @ [x]\<rparr>)
     in (case map_of mclean_dats key of
           None \<Rightarrow> (r\<lparr>fr_unmapped := Suc (fr_unmapped r)\<rparr>, s)
         | Some rel \<Rightarrow>
             if commit = [] then (warn1 (NoCommit key), s)
             else (case fetch_system_at f w key rel commit s of
                 (Inl e, s1) \<Rightarrow> (warn1 (FetchFailed key e), s1)
               | (Inr _, s1) \<Rightarrow> (r\<lparr>fr_fetched := Suc (fr_fetched r)\<rparr>, s1))))"

text \<open>What lies in the DAT directory, the database, and whether a refresh is in flight.\<close>

record dat_state =
  ds_files :: dat_files
  ds_lock :: lock_file
  ds_store :: store
  ds_running :: bool

definition lock_or_empty :: "lock_file \<Rightarrow> dat_lock" where
  "lock_or_empty lf = (case read_lock lf of None \<Rightarrow> [] | Some l \<Rightarrow> l)"

definition commit_or_pin :: "fetch_world \<Rightarrow> dat_lock \<Rightarrow> string option" where
  "commit_or_pin w l = (case resolve_commit w of Some c \<Rightarrow> Some c | None \<Rightarrow> pinned_commit l)"

definition fetched_state :: "dat_state \<Rightarrow> store \<Rightarrow> fetch_state" where
  "fetched_state ds st = \<lparr>fs_files = ds_files ds, fs_lock = lock_or_empty (ds_lock ds), fs_store = st\<rparr>"

definition settle :: "fetch_world \<Rightarrow> fetch_state \<Rightarrow> dat_state \<Rightarrow> dat_state" where
  "settle w s ds = ds\<lparr>ds_files := fs_files s, ds_lock := (if fw_lock_write w then LockDoc (fs_lock s) else ds_lock ds), ds_store := fs_store s\<rparr>"

definition refresh :: "(fetch_result \<Rightarrow> string) \<Rightarrow> fetcher \<Rightarrow> fetch_world \<Rightarrow> instant \<times> instant \<Rightarrow> system_row list \<Rightarrow> dat_state \<Rightarrow>
    fetch_result \<times> dat_state" where
  "refresh detail f w tm systems1 ds =
    (if ds_running ds then (no_fetches\<lparr>fr_warnings := [AlreadyRunning]\<rparr>, ds)
     else (let (i, st1) = start_run ''dat-fetch'' (fst tm) (ds_store ds);
           commit = (case commit_or_pin w (lock_or_empty (ds_lock ds)) of Some c \<Rightarrow> c | None \<Rightarrow> []);
           (r, s) = fold (refresh_one f w commit) systems1 (no_fetches, fetched_state ds st1);
           res = (if fw_lock_write w then r else r\<lparr>fr_warnings := fr_warnings r @ [LockWriteFailed]\<rparr>);
           ds1 = settle w s ds
         in (res, ds1\<lparr>ds_store := finish_run i RunOk (detail res) (snd tm) (ds_store ds1)\<rparr>)))"

datatype refresh_error = NotMapped | RefreshBusy | NoPin | FetchError fetch_error

definition refresh_system :: "(string \<Rightarrow> refresh_error \<Rightarrow> string) \<Rightarrow> (fetch_result \<Rightarrow> string) \<Rightarrow> fetcher \<Rightarrow> fetch_world \<Rightarrow> instant \<times> instant \<Rightarrow>
    system_row \<Rightarrow> dat_state \<Rightarrow> refresh_error option \<times> dat_state" where
  "refresh_system failed detail f w tm sys ds =
    (let key = sr_key sys in
     case map_of mclean_dats key of
       None \<Rightarrow> (Some NotMapped, ds)
     | Some rel \<Rightarrow>
        if ds_running ds then (Some RefreshBusy, ds)
        else (let (i, st1) = start_run ''dat-fetch'' (fst tm) (ds_store ds);
                  close = (\<lambda>ok text ds1. ds1\<lparr>ds_store := finish_run i ok text (snd tm) (ds_store ds1)\<rparr>)
          in (case commit_or_pin w (lock_or_empty (ds_lock ds)) of
               None \<Rightarrow> (Some NoPin, close RunError (failed key NoPin) (ds\<lparr>ds_store := st1\<rparr>))
             | Some commit \<Rightarrow>
                (case fetch_system_at f w key rel commit (fetched_state ds st1) of
                   (Inl e, s) \<Rightarrow> (Some (FetchError e),
                      close RunError (failed key (FetchError e)) (ds\<lparr>ds_files := fs_files s, ds_store := fs_store s\<rparr>))
                 | (Inr _, s) \<Rightarrow> (None, close RunOk (detail (no_fetches\<lparr>fr_systems := 1, fr_fetched := 1\<rparr>)) (settle w s ds))))))"

section \<open>The alarm\<close>

definition frozen_days :: int where "frozen_days = 21"
definition fresh_days :: int where "fresh_days = 14"

definition family_newest :: "string \<Rightarrow> store \<Rightarrow> instant" where
  "family_newest family st = fold (\<lambda>(k, v) best. (case map_of mclean_dats k of None \<Rightarrow> best
      | Some rel \<Rightarrow> if prefix family rel \<and> best < dv_fetched v then dv_fetched v else best)) (newest_versions st) zero_time"

definition alarm :: "store \<Rightarrow> instant \<Rightarrow> bool" where
  "alarm st now1 = (let a = family_newest ''no-intro/'' st; b = family_newest ''redump/'' st in
     if a = zero_time \<or> b = zero_time then False
     else frozen_days * day < now1 - a \<and> now1 - b < fresh_days * day)"

end
