(* ===== verification/DatsSpec.thy ===== *)
theory DatsSpec
  imports Dats StoreSpec
begin

text \<open>
  What the lock of the DAT directory promises: after any refreshes every locked DAT has the bytes that its entry and
  the newest row of the ledger attest, and a commit that was accepted once can never bring other bytes.
\<close>

section \<open>What is attested\<close>

definition entry_of :: "dat_version \<Rightarrow> lock_entry" where
  "entry_of v = \<lparr>le_commit = dv_commit v, le_sha = dv_sha v, le_roms = dv_roms v, le_fetched = Some (dv_fetched v)\<rparr>"

definition attested :: "(string \<Rightarrow> string) \<Rightarrow> dat_lock \<Rightarrow> dat_files \<Rightarrow> store \<Rightarrow> bool" where
  "attested sha l files st \<longleftrightarrow> (\<forall>k e. map_of l k = Some e \<longrightarrow>
     (\<exists>b. files (dat_file k) = Some b \<and> sha b = le_sha e) \<and> map_option entry_of (newest_dat_version k st) = Some e)"

lemma dat_file_inj [simp]: "dat_file a = dat_file b \<longleftrightarrow> a = b"
  by (simp add: dat_file_def)

lemma newest_of_versions: "st_versions st1 = st_versions st \<Longrightarrow> newest_dat_version k st1 = newest_dat_version k st"
  by (simp add: newest_dat_version_def dat_versions_def)

lemma newest_appended:
  "newest_dat_version k (append_dat_version v st) = (if dv_system v = k then Some v else newest_dat_version k st)"
  by (simp add: newest_dat_version_def dat_versions_def append_dat_version_def)

lemma appended_versions: "st_versions (append_dat_version v st) = st_versions st @ [v]"
  by (simp add: append_dat_version_def)

lemma versions_appended:
  "dv_system v \<noteq> k \<Longrightarrow> filter (\<lambda>v. dv_system v = k) (st_versions (append_dat_version v st)) = filter (\<lambda>v. dv_system v = k) (st_versions st)"
  by (simp add: append_dat_version_def)

lemma set_dat_info_keeps: "set_dat_info d st = Some st1 \<Longrightarrow> st_versions st1 = st_versions st \<and> st_systems st1 = st_systems st"
  by (auto simp: set_dat_info_def split: if_splits)

lemma run_log_keeps [simp]:
  "st_versions (snd (start_run k tm st)) = st_versions st" "st_systems (snd (start_run k tm st)) = st_systems st"
  "st_versions (finish_run i ok t tm st) = st_versions st" "st_systems (finish_run i ok t tm st) = st_systems st"
  by (simp_all add: start_run_def finish_run_def)

lemma dat_info_system: "dat_info_of key file n tm ts = Some d \<Longrightarrow> di_system d = key"
  by (auto simp: dat_info_of_def split: option.splits prod.splits)

lemma known_systems: "st_systems st1 = st_systems st \<Longrightarrow> system_keys st1 = system_keys st"
  by (simp add: system_keys_def)

section \<open>One fetch\<close>

text \<open>What a fetch does: nothing, or it confirms the locked generation, or it takes a new one.\<close>

lemma fetch_cases:
  assumes "fetch_system_at f w key rel commit s = (r, s1)"
  obtains "s1 = s" |
    e body info where "map_of (fs_lock s) key = Some e" "le_commit e = commit" "fw_sha w body = le_sha e" "di_system info = key"
      "confirm_generation w key body info s = (r, s1)" |
    body info where "\<And>e. map_of (fs_lock s) key = Some e \<Longrightarrow> le_commit e \<noteq> commit" "di_system info = key"
      "new_generation w key commit body info s = (r, s1)"
proof (cases "fw_get w (pinned_url f commit rel)")
  case (Some body)
  show thesis
  proof (cases "dat_info_of key [] (length body) (fw_now w key) (fw_xml w body)")
    case None
    then show thesis using assms Some that(1) by (auto simp: fetch_system_at_def Let_def split: option.splits if_splits)
  next
    case info: (Some info)
    note k = dat_info_system [OF info]
    show thesis
    proof (cases "locked_at key commit (fs_lock s)")
      case None
      have "le_commit e \<noteq> commit" if "map_of (fs_lock s) key = Some e" for e using None that by (auto simp: locked_at_def split: if_splits)
      moreover have "new_generation w key commit body info s = (r, s1)" using assms Some info None by (simp add: fetch_system_at_def)
      ultimately show thesis using that(3) k by blast
    next
      case e: (Some e)
      then have m: "map_of (fs_lock s) key = Some e" "le_commit e = commit" by (auto simp: locked_at_def split: option.splits if_splits)
      show thesis
      proof (cases "le_sha e = fw_sha w body")
        case True
        then have "confirm_generation w key body info s = (r, s1)" using assms Some info e by (simp add: fetch_system_at_def)
        then show thesis using that(2) m True k by metis
      next
        case False
        then show thesis using assms Some e that(1) by (auto simp: fetch_system_at_def)
      qed
    qed
  qed
qed (use assms that(1) in \<open>simp add: fetch_system_at_def\<close>)

lemma confirm_cases:
  assumes "confirm_generation w key body info s = (r, s1)"
  obtains "s1 = s" | st where "s1 = s\<lparr>fs_store := st\<rparr>" "set_dat_info info (fs_store s) = Some st" |
    "s1 = install key body s" "set_dat_info info (fs_store s) = None" |
    st where "s1 = install key body s\<lparr>fs_store := st\<rparr>" "set_dat_info info (fs_store s) = Some st"
  using assms by (auto simp: confirm_generation_def install_def Let_def split: option.splits if_splits)

lemma new_cases:
  assumes "new_generation w key commit body info s = (r, s1)"
  obtains "s1 = s" | "s1 = install key body s" "set_dat_info info (fs_store s) = None" |
    st where "r = Inr True" "s1 = accept_generation w key commit (fw_sha w body) info (install key body s\<lparr>fs_store := st\<rparr>)"
      "set_dat_info info (fs_store s) = Some st"
  using assms by (auto simp: new_generation_def install_def Let_def split: option.splits if_splits)

lemma install_parts [simp]:
  "fs_store (install key body s) = fs_store s" "fs_lock (install key body s) = fs_lock s"
  "fs_files (install key body s) = (fs_files s)(dat_file key \<mapsto> body)"
  by (simp_all add: install_def)

lemma accept_parts:
  fixes w key info
  defines "v \<equiv> \<lambda>commit digest. \<lparr>dv_system = key, dv_commit = commit, dv_sha = digest, dv_roms = di_roms info, dv_name = di_name info,
    dv_version = di_version info, dv_date = di_date info, dv_fetched = to_second (fw_now w key)\<rparr>"
  shows "fs_files (accept_generation w key commit digest info s) = fs_files s"
    "fs_store (accept_generation w key commit digest info s) = append_dat_version (v commit digest) (fs_store s)"
    "fs_lock (accept_generation w key commit digest info s) = AList.update key (entry_of (v commit digest)) (fs_lock s)"
  by (simp_all add: accept_generation_def v_def entry_of_def Let_def)

lemma fetch_systems: "fetch_system_at f w key rel commit s = (r, s1) \<Longrightarrow> st_systems (fs_store s1) = st_systems (fs_store s)"
  by (erule fetch_cases; (erule confirm_cases new_cases)?)
    (auto simp: accept_parts append_dat_version_def dest: set_dat_info_keeps)

lemma fetch_error_keeps_lock: "fetch_system_at f w key rel commit s = (Inl e, s1) \<Longrightarrow> fs_lock s1 = fs_lock s"
  by (erule fetch_cases; (erule confirm_cases new_cases)?) simp_all

lemma attestedI:
  assumes "\<And>k e. map_of l k = Some e \<Longrightarrow> \<exists>b. files (dat_file k) = Some b \<and> sha b = le_sha e"
    "\<And>k e. map_of l k = Some e \<Longrightarrow> map_option entry_of (newest_dat_version k st) = Some e"
  shows "attested sha l files st"
  using assms by (simp add: attested_def)

lemma attestedD:
  assumes "attested sha l files st" "map_of l k = Some e"
  shows "\<exists>b. files (dat_file k) = Some b \<and> sha b = le_sha e" "map_option entry_of (newest_dat_version k st) = Some e"
  using assms by (simp_all add: attested_def)

lemma attested_store: "attested sha l fs st \<Longrightarrow> st_versions st1 = st_versions st \<Longrightarrow> attested sha l fs st1"
  unfolding attested_def using newest_of_versions [of st1 st] by presburger

lemma attested_files:
  assumes "attested sha l files st" "map_of l key = Some e" "sha body = le_sha e"
  shows "attested sha l (files(dat_file key \<mapsto> body)) st"
proof (rule attestedI)
  fix k e1 assume k: "map_of l k = Some e1"
  show "\<exists>b. (files(dat_file key \<mapsto> body)) (dat_file k) = Some b \<and> sha b = le_sha e1"
  proof (cases "k = key")
    case True
    then show ?thesis using k assms(2,3) by simp
  next
    case False
    then show ?thesis using attestedD(1) [OF assms(1) k] by simp
  qed
qed (rule attestedD(2) [OF assms(1)])

lemma attested_accept:
  assumes "attested sha l files st" "dv_system v = key" "dv_sha v = sha body"
  shows "attested sha (AList.update key (entry_of v) l) (files(dat_file key \<mapsto> body)) (append_dat_version v st)"
proof (rule attestedI)
  fix k e assume k: "map_of (AList.update key (entry_of v) l) k = Some e"
  show "\<exists>b. (files(dat_file key \<mapsto> body)) (dat_file k) = Some b \<and> sha b = le_sha e"
  proof (cases "k = key")
    case True
    then show ?thesis using k assms(3) by (auto simp: update_conv' entry_of_def)
  next
    case False
    then have "map_of l k = Some e" using k by (simp add: update_conv')
    then show ?thesis using attestedD(1) [OF assms(1)] False by simp
  qed
  show "map_option entry_of (newest_dat_version k (append_dat_version v st)) = Some e"
  proof (cases "k = key")
    case True
    then show ?thesis using k assms(2) by (simp add: update_conv' newest_appended)
  next
    case False
    then have "map_of l k = Some e" using k by (simp add: update_conv')
    then show ?thesis using attestedD(2) [OF assms(1)] False assms(2) by (simp add: newest_appended)
  qed
qed

lemma fetch_keeps_attested:
  assumes "attested sha (fs_lock s) (fs_files s) (fs_store s)" "fw_sha w = sha" "known_system key (fs_store s)"
    "fetch_system_at f w key rel commit s = (r, s1)"
  shows "attested sha (fs_lock s1) (fs_files s1) (fs_store s1)"
  using assms(4)
proof (cases rule: fetch_cases)
  case (2 e body info)
  have i: "set_dat_info info (fs_store s) \<noteq> None" using assms(3) 2(4) by (simp add: set_dat_info_def)
  have a: "attested sha (fs_lock s) ((fs_files s)(dat_file key \<mapsto> body)) (fs_store s)"
    using attested_files [OF assms(1) 2(1)] 2(3) assms(2) by simp
  note d = set_dat_info_keeps [THEN conjunct1]
  from 2(5) show ?thesis
  proof (cases rule: confirm_cases)
    case (2 st) then show ?thesis using attested_store [OF assms(1) d] by simp
  next
    case (4 st) then show ?thesis using attested_store [OF a d] by simp
  qed (use assms(1) i in simp_all)
next
  case (3 body info)
  have i: "set_dat_info info (fs_store s) \<noteq> None" using assms(3) 3(2) by (simp add: set_dat_info_def)
  from 3(3) show ?thesis
  proof (cases rule: new_cases)
    case (3 st)
    have a: "attested sha (fs_lock s) (fs_files s) st"
      by (rule attested_store [OF assms(1) set_dat_info_keeps [THEN conjunct1, OF 3(3)]])
    show ?thesis unfolding 3(2) accept_parts using attested_accept [OF a] assms(2) by simp
  qed (use assms(1) i in simp_all)
qed (use assms(1) in simp)

text \<open>At a commit that the lock holds for a system, nothing of that system can change.\<close>

definition held :: "string \<Rightarrow> lock_entry \<Rightarrow> (string \<Rightarrow> string) \<Rightarrow> fetch_state \<Rightarrow> fetch_state \<Rightarrow> bool" where
  "held k e sha s s1 \<longleftrightarrow> map_of (fs_lock s1) k = Some e \<and>
     filter (\<lambda>v. dv_system v = k) (st_versions (fs_store s1)) = filter (\<lambda>v. dv_system v = k) (st_versions (fs_store s)) \<and>
     (fs_files s1 (dat_file k) = fs_files s (dat_file k) \<or> map_option sha (fs_files s1 (dat_file k)) = Some (le_sha e))"

lemma held_trans: "held k e sha s s1 \<Longrightarrow> held k e sha s1 s2 \<Longrightarrow> held k e sha s s2"
  by (auto simp: held_def)

lemma held_store: "map_of (fs_lock s) k = Some e \<Longrightarrow> st_versions st = st_versions (fs_store s) \<Longrightarrow> held k e sha s (s\<lparr>fs_store := st\<rparr>)"
  by (simp add: held_def)

lemma fetch_holds:
  assumes "map_of (fs_lock s) k = Some e" "fw_sha w = sha" "fetch_system_at f w key rel (le_commit e) s = (r, s1)"
  shows "held k e sha s s1"
  using assms(3)
proof (cases rule: fetch_cases)
  case 1
  then show ?thesis using assms(1) by (simp add: held_def)
next
  case (2 e1 body info)
  then have "key = k \<Longrightarrow> sha body = le_sha e" using assms(1,2) by simp
  with 2(5) show ?thesis
    using assms(1) by (cases rule: confirm_cases) (auto simp: held_def dest: set_dat_info_keeps)
next
  case (3 body info)
  then have "key \<noteq> k" using assms(1) by auto
  with 3(3) show ?thesis
    using assms(1) by (cases rule: new_cases) (auto simp: held_def accept_parts versions_appended update_conv' dest: set_dat_info_keeps)
qed

section \<open>A refresh\<close>

lemma refresh_one_cases:
  obtains "snd (refresh_one f w commit sys rs) = snd rs" |
    rel r1 where "fetch_system_at f w (sr_key sys) rel commit (snd rs) = (r1, snd (refresh_one f w commit sys rs))"
proof (cases "map_of mclean_dats (sr_key sys)")
  case (Some rel)
  obtain r1 s1 where f: "fetch_system_at f w (sr_key sys) rel commit (snd rs) = (r1, s1)" by fastforce
  then have "snd (refresh_one f w commit sys rs) = (if commit = [] then snd rs else s1)"
    using Some by (cases rs; cases r1) (simp_all add: refresh_one_def Let_def)
  then show thesis using f that by (metis (full_types))
qed (use that(1) in \<open>auto simp: refresh_one_def Let_def split: prod.splits\<close>)

lemma refresh_fold_attested:
  fixes f commit
  assumes "attested sha (fs_lock (snd rs)) (fs_files (snd rs)) (fs_store (snd rs))" "fw_sha w = sha"
    "\<And>x. x \<in> set xs \<Longrightarrow> known_system (sr_key x) (fs_store (snd rs))"
  defines "s1 \<equiv> snd (fold (refresh_one f w commit) xs rs)"
  shows "attested sha (fs_lock s1) (fs_files s1) (fs_store s1) \<and> st_systems (fs_store s1) = st_systems (fs_store (snd rs))"
  unfolding s1_def using assms(1,3)
proof (induction xs arbitrary: rs)
  case (Cons x xs)
  let ?rs = "refresh_one f w commit x rs"
  have "attested sha (fs_lock (snd ?rs)) (fs_files (snd ?rs)) (fs_store (snd ?rs)) \<and> st_systems (fs_store (snd ?rs)) = st_systems (fs_store (snd rs))"
    using Cons.prems(1)
  proof (cases f w commit x rs rule: refresh_one_cases)
    case (2 rel r1)
    show ?thesis
      using fetch_keeps_attested [OF Cons.prems(1) assms(2) _ 2] fetch_systems [OF 2] Cons.prems(2) by simp
  qed simp
  moreover from this have "system_keys (fs_store (snd ?rs)) = system_keys (fs_store (snd rs))" by (simp add: system_keys_def)
  ultimately show ?case using Cons.IH [of ?rs] Cons.prems(2) by simp
qed simp

lemma refresh_fold_holds:
  assumes "map_of (fs_lock (snd rs)) k = Some e" "fw_sha w = sha"
  shows "held k e sha (snd rs) (snd (fold (refresh_one f w (le_commit e)) xs rs))"
  using assms(1)
proof (induction xs arbitrary: rs)
  case (Cons x xs)
  let ?rs = "refresh_one f w (le_commit e) x rs"
  have "held k e sha (snd rs) (snd ?rs)"
    using Cons.prems
  proof (cases f w "le_commit e" x rs rule: refresh_one_cases)
    case (2 rel r1)
    show ?thesis by (rule fetch_holds [OF Cons.prems assms(2) 2])
  qed (simp add: held_def)
  moreover from this have "map_of (fs_lock (snd ?rs)) k = Some e" by (simp add: held_def)
  ultimately show ?case using Cons.IH [of ?rs] by (auto intro: held_trans)
qed (simp add: held_def)

section \<open>Any sequence of refreshes\<close>

datatype dat_op = Refresh fetch_world "instant \<times> instant" "system_row list" | RefreshSystem fetch_world "instant \<times> instant" system_row

fun dat_step :: "(string \<Rightarrow> refresh_error \<Rightarrow> string) \<Rightarrow> (fetch_result \<Rightarrow> string) \<Rightarrow> fetcher \<Rightarrow> dat_op \<Rightarrow> dat_state \<Rightarrow> dat_state" where
  "dat_step failed detail f (Refresh w tm xs) ds = snd (refresh detail f w tm xs ds)"
| "dat_step failed detail f (RefreshSystem w tm x) ds = snd (refresh_system failed detail f w tm x ds)"

fun op_world :: "dat_op \<Rightarrow> fetch_world" where
  "op_world (Refresh w tm xs) = w"
| "op_world (RefreshSystem w tm x) = w"

fun op_systems :: "dat_op \<Rightarrow> string set" where
  "op_systems (Refresh w tm xs) = sr_key ` set xs"
| "op_systems (RefreshSystem w tm x) = {sr_key x}"

text \<open>The lock can be written, the hash is the same, and the systems asked for are in the database.\<close>

definition sound_op :: "(string \<Rightarrow> string) \<Rightarrow> store \<Rightarrow> dat_op \<Rightarrow> bool" where
  "sound_op sha st op1 \<longleftrightarrow> fw_sha (op_world op1) = sha \<and> fw_lock_write (op_world op1) \<and> (\<forall>k\<in>op_systems op1. known_system k st)"

definition attested_dir :: "(string \<Rightarrow> string) \<Rightarrow> dat_state \<Rightarrow> bool" where
  "attested_dir sha ds \<longleftrightarrow> (case ds_lock ds of LockBroken \<Rightarrow> False | _ \<Rightarrow> True) \<and>
     attested sha (lock_or_empty (ds_lock ds)) (ds_files ds) (ds_store ds)"

lemma lock_or_empty_doc [simp]: "lock_or_empty (LockDoc l) = l"
  by (simp add: lock_or_empty_def read_lock_def)

lemma settle_parts [simp]:
  "ds_files (settle w s ds) = fs_files s" "ds_store (settle w s ds) = fs_store s"
  "ds_lock (settle w s ds) = (if fw_lock_write w then LockDoc (fs_lock s) else ds_lock ds)"
  by (simp_all add: settle_def)

text \<open>What a refresh starts from, and what one that is not refused leaves.\<close>

definition opened_run :: "instant \<times> instant \<Rightarrow> dat_state \<Rightarrow> fetch_state" where
  "opened_run tm ds = fetched_state ds (snd (start_run ''dat-fetch'' (fst tm) (ds_store ds)))"

lemma opened_parts [simp]:
  "fs_files (opened_run tm ds) = ds_files ds" "fs_lock (opened_run tm ds) = lock_or_empty (ds_lock ds)"
  "st_versions (fs_store (opened_run tm ds)) = st_versions (ds_store ds)"
  "st_systems (fs_store (opened_run tm ds)) = st_systems (ds_store ds)"
  by (simp_all add: opened_run_def fetched_state_def)

lemma opened_attested: "attested_dir sha ds \<Longrightarrow> attested sha (fs_lock (opened_run tm ds)) (fs_files (opened_run tm ds)) (fs_store (opened_run tm ds))"
  unfolding opened_parts by (rule attested_store [where st = "ds_store ds"]) (simp_all add: attested_dir_def)

lemma opened_keys [simp]: "system_keys (fs_store (opened_run tm ds)) = system_keys (ds_store ds)"
  by (simp add: system_keys_def)

lemma refresh_result:
  assumes "refresh detail f w tm xs ds = (r, ds')" "\<not> ds_running ds"
  defines "s \<equiv> snd (fold (refresh_one f w (case commit_or_pin w (lock_or_empty (ds_lock ds)) of Some c \<Rightarrow> c | None \<Rightarrow> [])) xs (no_fetches, opened_run tm ds))"
  obtains i t where "ds' = settle w s ds\<lparr>ds_store := finish_run i RunOk t (snd tm) (fs_store s)\<rparr>"
proof -
  have "snd (start_run k t st) = snd (start_run k t st)" for k t st ..
  show thesis
    using assms(1,2) that unfolding s_def opened_run_def
    by (auto simp: refresh_def Let_def split: prod.splits)
qed

lemma attested_settle:
  assumes "attested sha (fs_lock s) (fs_files s) (fs_store s)" "fw_lock_write w" "st_versions st = st_versions (fs_store s)"
  shows "attested_dir sha (settle w s ds\<lparr>ds_store := st\<rparr>)"
  using attested_store [OF assms(1,3)] assms(2) by (simp add: attested_dir_def)

lemma refresh_attested:
  assumes "attested_dir sha ds" "sound_op sha (ds_store ds) (Refresh w tm xs)" "refresh detail f w tm xs ds = (r, ds')"
  shows "attested_dir sha ds' \<and> st_systems (ds_store ds') = st_systems (ds_store ds)"
proof (cases "ds_running ds")
  case True
  then show ?thesis using assms by (simp add: refresh_def)
next
  case False
  let ?s = "snd (fold (refresh_one f w (case commit_or_pin w (lock_or_empty (ds_lock ds)) of Some c \<Rightarrow> c | None \<Rightarrow> [])) xs (no_fetches, opened_run tm ds))"
  obtain i t where ds': "ds' = settle w ?s ds\<lparr>ds_store := finish_run i RunOk t (snd tm) (fs_store ?s)\<rparr>"
    by (rule refresh_result [OF assms(3) False])
  have "attested sha (fs_lock ?s) (fs_files ?s) (fs_store ?s) \<and> st_systems (fs_store ?s) = st_systems (ds_store ds)"
    using refresh_fold_attested [of sha "(no_fetches, opened_run tm ds)" w xs f] opened_attested [OF assms(1)] assms(2)
    by (simp add: sound_op_def)
  then show ?thesis using assms(2) attested_settle [of sha ?s w] unfolding ds' by (simp add: sound_op_def)
qed

lemma refresh_system_attested:
  assumes "attested_dir sha ds" "sound_op sha (ds_store ds) (RefreshSystem w tm x)" "refresh_system failed detail f w tm x ds = (r, ds')"
  shows "attested_dir sha ds' \<and> st_systems (ds_store ds') = st_systems (ds_store ds)"
proof -
  have s0: "fw_sha w = sha" "known_system (sr_key x) (fs_store (opened_run tm ds))" using assms(2) by (simp_all add: sound_op_def)
  show ?thesis
  proof (cases "map_of mclean_dats (sr_key x) = None \<or> ds_running ds")
    case True
    then show ?thesis using assms(1,3) by (auto simp: refresh_system_def Let_def split: option.splits)
  next
    case False
    then obtain rel where rel: "map_of mclean_dats (sr_key x) = Some rel" by auto
    show ?thesis
    proof (cases "commit_or_pin w (lock_or_empty (ds_lock ds))")
      case None
      then obtain i t where ds': "ds' = ds\<lparr>ds_store := finish_run i RunError t (snd tm) (fs_store (opened_run tm ds))\<rparr>"
        using assms(3) False rel unfolding opened_run_def by (auto simp: refresh_system_def fetched_state_def Let_def split: prod.splits)
      show ?thesis
        using attested_store [OF opened_attested [OF assms(1), of tm]] assms(1) unfolding ds' by (simp add: attested_dir_def)
    next
      case (Some c)
      obtain r1 s where f: "fetch_system_at f w (sr_key x) rel c (opened_run tm ds) = (r1, s)" by fastforce
      have a: "attested sha (fs_lock s) (fs_files s) (fs_store s)" "st_systems (fs_store s) = st_systems (ds_store ds)"
        using fetch_keeps_attested [OF opened_attested [OF assms(1)] s0 f] fetch_systems [OF f] by simp_all
      show ?thesis
      proof (cases r1)
        case (Inr b)
        then obtain i t where "ds' = settle w s ds\<lparr>ds_store := finish_run i RunOk t (snd tm) (fs_store s)\<rparr>"
          using assms(3) False rel Some f unfolding opened_run_def by (auto simp: refresh_system_def Let_def split: prod.splits)
        then show ?thesis using a attested_settle [of sha s w] assms(2) by (simp add: sound_op_def)
      next
        case (Inl e)
        then obtain i t where ds': "ds' = ds\<lparr>ds_files := fs_files s, ds_store := finish_run i RunError t (snd tm) (fs_store s)\<rparr>"
          using assms(3) False rel Some f unfolding opened_run_def by (auto simp: refresh_system_def Let_def split: prod.splits)
        show ?thesis
          using a attested_store [OF a(1)] fetch_error_keeps_lock [OF f [unfolded Inl]] assms(1)
          unfolding ds' by (simp add: attested_dir_def)
      qed
    qed
  qed
qed

lemma dat_step_attested:
  assumes "attested_dir sha ds" "sound_op sha (ds_store ds) op1"
  shows "attested_dir sha (dat_step failed detail f op1 ds) \<and> st_systems (ds_store (dat_step failed detail f op1 ds)) = st_systems (ds_store ds)"
proof (cases op1)
  case (Refresh w tm xs)
  then show ?thesis using refresh_attested [of sha ds w tm xs detail f] assms by (metis dat_step.simps(1) prod.collapse)
next
  case (RefreshSystem w tm x)
  then show ?thesis using refresh_system_attested [of sha ds w tm x failed detail f] assms by (metis dat_step.simps(2) prod.collapse)
qed

lemma dat_steps_attested:
  assumes "attested_dir sha ds" "\<forall>op1\<in>set ops. sound_op sha (ds_store ds) op1"
  shows "attested_dir sha (fold (dat_step failed detail f) ops ds)"
  using assms
proof (induction ops arbitrary: ds)
  case (Cons op1 ops)
  have s: "sound_op sha st1 x = sound_op sha st x" if "st_systems st1 = st_systems st" for st1 st x
    using that by (simp add: sound_op_def system_keys_def)
  have a: "attested_dir sha (dat_step failed detail f op1 ds)"
    "st_systems (ds_store (dat_step failed detail f op1 ds)) = st_systems (ds_store ds)"
    using dat_step_attested [OF Cons.prems(1)] Cons.prems(2) by simp_all
  have "\<forall>x\<in>set ops. sound_op sha (ds_store (dat_step failed detail f op1 ds)) x" using Cons.prems(2) s [OF a(2)] by simp
  then show ?case using Cons.IH [OF a(1)] by simp
qed simp

text \<open>
  C25: However the DAT directory is refreshed, system by system or as a batch, from a directory without
  a lock: every DAT passes the check against its lock, and every lock entry is the newest generation of
  the ledger, as long as the lock can be written and the systems are in the database.
\<close>

theorem refreshed_dats_pass_their_lock:
  assumes "\<forall>op1\<in>set ops. sound_op sha (ds_store ds) op1" "ds_lock ds = NoLock"
    "ds' = fold (dat_step failed detail f) ops ds"
  shows "check_lock sha (ds_lock ds') (ds_files ds') k = None \<and>
    (\<forall>e. map_of (lock_or_empty (ds_lock ds')) k = Some e \<longrightarrow> map_option entry_of (newest_dat_version k (ds_store ds')) = Some e)"
proof -
  have "attested_dir sha ds" using assms(2) by (simp add: attested_dir_def attested_def lock_or_empty_def read_lock_def)
  then have a: "attested_dir sha ds'" unfolding assms(3) using assms(1) by (rule dat_steps_attested)
  then have t: "attested sha (lock_or_empty (ds_lock ds')) (ds_files ds') (ds_store ds')"
    "read_lock (ds_lock ds') = Some (lock_or_empty (ds_lock ds'))"
    by (auto simp: attested_dir_def lock_or_empty_def read_lock_def split: lock_file.splits)
  have "check_lock sha (ds_lock ds') (ds_files ds') k = None"
    using attestedD(1) [OF t(1), of k] t(2) by (auto simp: check_lock_def split: option.splits)
  then show ?thesis using attestedD(2) [OF t(1)] by blast
qed

text \<open>
  A refresh at a commit that the lock already holds for a system, whatever the server sends and
  whatever fails, leaves its lock entry and its generations as they are and its file either untouched or
  with the bytes of the entry.
\<close>

lemma locked_commit_brings_no_other_bytes:
  assumes "\<not> ds_running ds" "ds_lock ds = LockDoc l" "map_of l k = Some e" "commit_or_pin w l = Some (le_commit e)"
    "refresh detail f w tm xs ds = (r, ds')"
  shows "map_of (lock_or_empty (ds_lock ds')) k = Some e \<and>
    filter (\<lambda>v. dv_system v = k) (st_versions (ds_store ds')) = filter (\<lambda>v. dv_system v = k) (st_versions (ds_store ds)) \<and>
    (ds_files ds' (dat_file k) = ds_files ds (dat_file k) \<or> map_option (fw_sha w) (ds_files ds' (dat_file k)) = Some (le_sha e))"
proof -
  let ?s = "snd (fold (refresh_one f w (le_commit e)) xs (no_fetches, opened_run tm ds))"
  have "held k e (fw_sha w) (opened_run tm ds) ?s"
    using refresh_fold_holds [of "(no_fetches, opened_run tm ds)" k e w "fw_sha w" f xs] assms(2,3) by simp
  moreover obtain i t where "ds' = settle w ?s ds\<lparr>ds_store := finish_run i RunOk t (snd tm) (fs_store ?s)\<rparr>"
    using refresh_result [OF assms(5,1)] assms(2,4) by auto
  ultimately show ?thesis using assms(2,3) by (auto simp: held_def)
qed

section \<open>A directory to start from\<close>

definition sample_nes :: system_row where
  "sample_nes = \<lparr>sr_key = ''nes'', sr_collection = ''NES'', sr_bucket = ''cartridge'', sr_core = ''fceumm'', sr_emulator = [],
     sr_sky = [], sr_torrent = [], sr_extensions = ''[]'', sr_order = 1, sr_source = SourceCatalogue\<rparr>"

definition sample_source :: "string \<Rightarrow> fetch_world" where
  "sample_source body = \<lparr>fw_commit = Some (replicate 40 CHR ''a''), fw_get = (\<lambda>_. Some body), fw_sha = id, fw_xml = (\<lambda>_. []),
     fw_now = (\<lambda>_. 0), fw_write = (\<lambda>_. True), fw_lock_write = True\<rparr>"

definition sample_dats :: "lock_file \<Rightarrow> dat_state" where
  "sample_dats lf = \<lparr>ds_files = Map.empty, ds_lock = lf, ds_store = empty_store\<lparr>st_systems := [sample_nes]\<rparr>, ds_running = False\<rparr>"

definition sample_entry :: lock_entry where
  "sample_entry = \<lparr>le_commit = replicate 40 CHR ''a'', le_sha = ''old'', le_roms = 0, le_fetched = Some 0\<rparr>"

lemma refreshed_dats_pass_their_lock_witness:
  "check_lock id (ds_lock (dat_step (\<lambda>_ _. []) (\<lambda>_. []) \<lparr>ft_base = [], ft_subdir = []\<rparr> (Refresh (sample_source ''x'') (0, 1) [sample_nes])
     (sample_dats NoLock))) (ds_files (dat_step (\<lambda>_ _. []) (\<lambda>_. []) \<lparr>ft_base = [], ft_subdir = []\<rparr>
       (Refresh (sample_source ''x'') (0, 1) [sample_nes]) (sample_dats NoLock))) ''nes'' = None"
proof -
  have "known_system ''nes'' (ds_store (sample_dats NoLock))" by code_simp
  then have "\<forall>op1\<in>set [Refresh (sample_source ''x'') (0, 1) [sample_nes]]. sound_op id (ds_store (sample_dats NoLock)) op1"
    by (simp add: sound_op_def sample_source_def sample_nes_def)
  from refreshed_dats_pass_their_lock [OF this _ refl] show ?thesis by (simp add: sample_dats_def)
qed

section \<open>The alarm measures fetches, not content\<close>

lemma family_newest_fold:
  assumes "(k, v) \<in> set vs" "map_of mclean_dats k = Some rel" "prefix family rel"
  shows "dv_fetched v \<le> fold (\<lambda>(k, v) best. (case map_of mclean_dats k of None \<Rightarrow> best
      | Some rel \<Rightarrow> if prefix family rel \<and> best < dv_fetched v then dv_fetched v else best)) vs b"
proof -
  let ?f = "\<lambda>(k, v) best. (case map_of mclean_dats k of None \<Rightarrow> best
      | Some rel \<Rightarrow> if prefix family rel \<and> best < dv_fetched v then dv_fetched v else best)"
  have grow: "b \<le> fold ?f vs b" for vs b
  proof (induction vs arbitrary: b)
    case (Cons x vs)
    have "b \<le> ?f x b" by (auto split: prod.split option.split)
    then show ?case using Cons [of "?f x b"] by simp
  qed simp
  show ?thesis using assms(1)
  proof (induction vs arbitrary: b)
    case (Cons x vs)
    show ?case
    proof (cases "x = (k, v)")
      case True
      then have "dv_fetched v \<le> ?f x b" using assms(2,3) by simp
      then show ?thesis using grow [of "?f x b" vs] by simp
    next
      case False
      then show ?thesis using Cons by simp
    qed
  qed simp
qed

lemma fetch_accepts:
  assumes "fetch_system_at f w key rel commit s = (Inr True, s1)"
  shows "\<exists>s0 body info. s1 = accept_generation w key commit (fw_sha w body) info s0"
proof -
  have c: "confirm_generation w key body info s \<noteq> (Inr True, s1)" for body info
    by (auto simp: confirm_generation_def Let_def split: option.split)
  have "new_generation w key commit body info s = (Inr True, s1) \<Longrightarrow> ?thesis" for body info
    by (auto simp: new_generation_def Let_def split: option.splits if_splits)
  then show ?thesis using assms c by (auto simp: fetch_system_at_def Let_def split: option.splits if_splits)
qed

text \<open>
  Every new commit of the source is a new generation of a system, even with the bytes that are already there, and
  dates it now: while fetches succeed the alarm for a frozen feed stays silent.
\<close>

lemma moved_commit_silences_the_alarm:
  assumes "fetch_system_at f w key rel commit s = (Inr True, s1)" "map_of mclean_dats key = Some rel" "prefix ''no-intro/'' rel"
    "now1 \<le> to_second (fw_now w key) + frozen_days * day"
  shows "\<not> alarm (fs_store s1) now1"
proof -
  obtain s0 body info where s1: "s1 = accept_generation w key commit (fw_sha w body) info s0"
    using fetch_accepts [OF assms(1)] by blast
  then obtain v where v: "newest_dat_version key (fs_store s1) = Some v" "dv_fetched v = to_second (fw_now w key)"
    "v \<in> set (st_versions (fs_store s1))" "dv_system v = key"
    by (simp add: accept_parts newest_appended appended_versions)
  have "(key, v) \<in> set (newest_versions (fs_store s1))"
    using v by (force simp: newest_versions_def List.map_filter_def)
  then have "dv_fetched v \<le> family_newest ''no-intro/'' (fs_store s1)"
    unfolding family_newest_def by (rule family_newest_fold [OF _ assms(2,3)])
  then show ?thesis using v(2) assms(4) by (auto simp: alarm_def Let_def)
qed

end
