(* ===== verification/Igir.thy ===== *)
theory Igir
  imports Dats Generate
begin

text \<open>
  internal/igir/runner.go of pkgs/arcade-webapp: ingesting the report of igir, promoting staged files without a DAT,
  and the verification of a system and of a batch. igir itself, the rows of a CSV text and the disk's faults are
  arguments; the staged tree is given for each time that the code looks at it, since a download may start meanwhile.
\<close>

section \<open>The report\<close>

datatype csv_read = CsvRow "string list" | CsvBad

record report =
  rp_found :: nat
  rp_missing :: nat
  rp_unmatched :: nat
  rp_duplicate :: nat
  rp_extra :: nat
  rp_other :: nat
  rp_artifacts :: nat
  rp_unmatched_files :: "string list"
  rp_extra_files :: "string list"
  rp_artifact_files :: "string list"
  rp_paths :: "string list"
  rp_rels :: "string list"
  rp_crcs :: "string list"
  rp_shas :: "string list"

definition empty_report :: report where
  "empty_report = \<lparr>rp_found = 0, rp_missing = 0, rp_unmatched = 0, rp_duplicate = 0, rp_extra = 0, rp_other = 0, rp_artifacts = 0,
     rp_unmatched_files = [], rp_extra_files = [], rp_artifact_files = [], rp_paths = [], rp_rels = [], rp_crcs = [], rp_shas = []\<rparr>"

definition dat_games :: "report \<Rightarrow> nat" where
  "dat_games r = rp_found r + rp_missing r"

fun col_from :: "nat \<Rightarrow> string \<Rightarrow> string list \<Rightarrow> nat option" where
  "col_from i name [] = None"
| "col_from i name (h # hs) = (if trim_space h = name then Some i else col_from (Suc i) name hs)"

definition cell :: "nat option \<Rightarrow> string list \<Rightarrow> string" where
  "cell i row = (case i of None \<Rightarrow> [] | Some k \<Rightarrow> if k < length row then trim_space (row ! k) else [])"

definition outside :: "string \<Rightarrow> bool" where
  "outside rel \<longleftrightarrow> rel = ''..'' \<or> prefix ''../'' rel"

definition under_dir :: "string \<Rightarrow> string \<Rightarrow> bool" where
  "under_dir dir p \<longleftrightarrow> dir \<noteq> [] \<and> p \<noteq> [] \<and> (case path_rel dir p of None \<Rightarrow> False | Some rel \<Rightarrow> \<not> outside rel)"

definition launcher_artifact :: "string \<Rightarrow> string \<Rightarrow> bool" where
  "launcher_artifact out p = (case path_rel out p of None \<Rightarrow> False
    | Some rel \<Rightarrow> \<not> outside rel \<and> (rel = target_name \<or> (CHR ''/'' \<notin> set rel \<and> temp_sibling rel) \<or>
        hd (split_byte CHR ''/'' rel) = ''media''))"

definition found_rel :: "string \<Rightarrow> string \<Rightarrow> string" where
  "found_rel out p = (case path_rel out p of None \<Rightarrow> path_base p | Some rel \<Rightarrow> if prefix ''..'' rel then path_base p else rel)"

record columns =
  cl_status :: nat
  cl_rom :: "nat option"
  cl_crc :: "nat option"
  cl_sha :: "nat option"

definition add_found_row :: "columns \<Rightarrow> string \<Rightarrow> string list \<Rightarrow> string \<Rightarrow> report \<Rightarrow> report" where
  "add_found_row cs out row p r0 = (let r = r0\<lparr>rp_found := Suc (rp_found r0)\<rparr> in
     if p = [] then r
     else r\<lparr>rp_paths := rp_paths r @ [p], rp_rels := (if out \<noteq> [] then rp_rels r @ [found_rel out p] else rp_rels r),
         rp_crcs := rp_crcs r @ [cell (cl_crc cs) row], rp_shas := rp_shas r @ [cell (cl_sha cs) row]\<rparr>)"

definition add_unused :: "string \<Rightarrow> string \<Rightarrow> string \<Rightarrow> report \<Rightarrow> report" where
  "add_unused inp out p r =
    (if under_dir inp p then r\<lparr>rp_unmatched := Suc (rp_unmatched r), rp_unmatched_files := rp_unmatched_files r @ [path_base p]\<rparr>
     else if under_dir out p \<and> launcher_artifact out p
     then r\<lparr>rp_artifacts := Suc (rp_artifacts r), rp_artifact_files := rp_artifact_files r @ [path_base p]\<rparr>
     else if under_dir out p then r\<lparr>rp_extra := Suc (rp_extra r), rp_extra_files := rp_extra_files r @ [path_base p]\<rparr>
     else r\<lparr>rp_other := Suc (rp_other r)\<rparr>)"

definition add_duplicate :: "string \<Rightarrow> string \<Rightarrow> string \<Rightarrow> report \<Rightarrow> report" where
  "add_duplicate inp out p r =
    (if under_dir inp p then r\<lparr>rp_unmatched := Suc (rp_unmatched r), rp_unmatched_files := rp_unmatched_files r @ [path_base p]\<rparr>
     else if under_dir out p then r\<lparr>rp_duplicate := Suc (rp_duplicate r)\<rparr>
     else r\<lparr>rp_other := Suc (rp_other r)\<rparr>)"

definition status_of :: "columns \<Rightarrow> string list \<Rightarrow> string" where
  "status_of cs row = (if length row \<le> cl_status cs then [] else to_upper (trim_space (row ! cl_status cs)))"

definition add_report_row :: "columns \<Rightarrow> string \<Rightarrow> string \<Rightarrow> string list \<Rightarrow> report \<Rightarrow> report" where
  "add_report_row cs inp out row r =
    (let status = status_of cs row; p = cell (cl_rom cs) row in
     if status = [] then r
     else if status = ''FOUND'' then add_found_row cs out row p r
     else if status = ''MISSING'' then r\<lparr>rp_missing := Suc (rp_missing r)\<rparr>
     else if status = ''UNUSED'' then add_unused inp out p r
     else if status = ''DUPLICATE'' then add_duplicate inp out p r
     else r\<lparr>rp_other := Suc (rp_other r)\<rparr>)"

datatype report_error = NoReport | NoHeader | NoStatusColumn | BadRow

fun report_rows :: "columns \<Rightarrow> string \<Rightarrow> string \<Rightarrow> csv_read list \<Rightarrow> report \<Rightarrow> report_error + report" where
  "report_rows cs inp out [] r = Inr r"
| "report_rows cs inp out (CsvBad # xs) r = Inl BadRow"
| "report_rows cs inp out (CsvRow row # xs) r = report_rows cs inp out xs (add_report_row cs inp out row r)"

definition parse_report :: "csv_read list \<Rightarrow> string \<Rightarrow> string \<Rightarrow> report_error + report" where
  "parse_report rows inp out = (case rows of
      CsvRow h # xs \<Rightarrow> (case col_from 0 ''Status'' h of
          None \<Rightarrow> Inl NoStatusColumn
        | Some i \<Rightarrow> report_rows \<lparr>cl_status = i, cl_rom = col_from 0 ''ROM Files'' h, cl_crc = col_from 0 ''CRC32'' h,
            cl_sha = col_from 0 ''SHA1'' h\<rparr> inp out xs empty_report)
    | _ \<Rightarrow> Inl NoHeader)"

definition promoted_bytes :: "(string \<Rightarrow> nat option) \<Rightarrow> string list \<Rightarrow> nat" where
  "promoted_bytes size1 paths = sum_list (map (\<lambda>p. case size1 p of None \<Rightarrow> 0 | Some n \<Rightarrow> n) paths)"

section \<open>Promotion by copy\<close>

definition dir_has_files :: "string \<Rightarrow> fs_node option \<Rightarrow> bool" where
  "dir_has_files dir t = list_ex (\<lambda>v. leaf_name v \<noteq> None) (walk_root dir t)"

text \<open>The regular files below a directory by their relative path; a fault leaves something in place of the target.\<close>

type_synonym games_tree = "string \<Rightarrow> file_info option"

record copy_state =
  cp_tree :: games_tree
  cp_bytes :: nat
  cp_files :: nat

definition perm_bits :: "nat \<Rightarrow> nat" where
  "perm_bits m = m mod 512"

definition same_stamp :: "file_info \<Rightarrow> file_info option \<Rightarrow> bool" where
  "same_stamp i t = (case t of None \<Rightarrow> False | Some j \<Rightarrow> fi_size j = fi_size i \<and> fi_mtime j = fi_mtime i)"

definition copy_file :: "(string \<Rightarrow> file_info option option) \<Rightarrow> string \<Rightarrow> file_info \<Rightarrow> copy_state \<Rightarrow> bool \<times> copy_state" where
  "copy_file faults rel i s =
    (if same_stamp i (cp_tree s rel) then (True, s)
     else (case faults rel of
         Some partial \<Rightarrow> (False, s\<lparr>cp_tree := (cp_tree s)(rel := partial)\<rparr>)
       | None \<Rightarrow> (True, s\<lparr>cp_tree := (cp_tree s)(rel \<mapsto> i\<lparr>fi_mode := perm_bits (fi_mode i)\<rparr>),
           cp_bytes := cp_bytes s + fi_size i, cp_files := Suc (cp_files s)\<rparr>)))"

fun copy_visits :: "(string \<Rightarrow> file_info option option) \<Rightarrow> visit list \<Rightarrow> copy_state \<Rightarrow> bool \<times> copy_state" where
  "copy_visits faults [] s = (True, s)"
| "copy_visits faults (VDir rel # vs) s = copy_visits faults vs s"
| "copy_visits faults (VSpecial rel n z # vs) s = copy_visits faults vs s"
| "copy_visits faults (VFile rel n i # vs) s =
    (case copy_file faults rel i s of (False, s1) \<Rightarrow> (False, s1) | (True, s1) \<Rightarrow> copy_visits faults vs s1)"
| "copy_visits faults (VGone rel n e # vs) s = (False, s)"
| "copy_visits faults (VFail rel e # vs) s = (False, s)"

definition copy_tree :: "(string \<Rightarrow> file_info option option) \<Rightarrow> string \<Rightarrow> fs_node option \<Rightarrow> games_tree \<Rightarrow> bool \<times> copy_state" where
  "copy_tree faults dir t dst = copy_visits faults (walk_root dir t) \<lparr>cp_tree = dst, cp_bytes = 0, cp_files = 0\<rparr>"

section \<open>One system\<close>

record igir_run =
  ig_exit :: "string option"
  ig_report :: "csv_read list option"
  ig_output :: games_tree

record verify_config =
  vc_incoming :: string
  vc_roots :: roots
  vc_reports :: string

record verify_world =
  vw_staged :: "string \<Rightarrow> nat \<Rightarrow> fs_node option"
  vw_dat :: "string \<Rightarrow> bool"
  vw_dats :: dat_files
  vw_lock :: lock_file
  vw_sha :: "string \<Rightarrow> string"
  vw_mkdir :: "string \<Rightarrow> bool"
  vw_igir :: "string \<Rightarrow> igir_run"
  vw_size :: "string \<Rightarrow> nat option"
  vw_faults :: "string \<Rightarrow> string \<Rightarrow> file_info option option"
  vw_now :: "string \<Rightarrow> instant"

datatype verify_outcome = Verified | SkippedEmpty | SkippedDownloading | DatLock lock_fault | PromotedUnchecked | VerifyFailed

datatype verify_error = UnknownSystem | MkdirFailed string | CopyFailed | LockFault lock_fault | IgirExit string | ReportError report_error

record system_outcome =
  so_sys :: string
  so_outcome :: verify_outcome
  so_errors :: "verify_error list"
  so_report :: "report option"
  so_promoted :: nat
  so_copied :: nat

definition outcome_of :: "string \<Rightarrow> verify_outcome \<Rightarrow> system_outcome" where
  "outcome_of key oc = \<lparr>so_sys = key, so_outcome = oc, so_errors = [], so_report = None, so_promoted = 0, so_copied = 0\<rparr>"

definition failed_with :: "string \<Rightarrow> verify_error list \<Rightarrow> system_outcome" where
  "failed_with key es = (outcome_of key VerifyFailed)\<lparr>so_errors := es\<rparr>"

text \<open>The database and the games trees by their directory.\<close>

record library =
  lb_store :: store
  lb_trees :: "string \<Rightarrow> games_tree"

definition put_tree :: "string \<Rightarrow> games_tree \<Rightarrow> library \<Rightarrow> library" where
  "put_tree dir t lb = lb\<lparr>lb_trees := (lb_trees lb)(dir := t)\<rparr>"

definition or_keep :: "store option \<Rightarrow> store \<Rightarrow> store" where
  "or_keep r st = (case r of None \<Rightarrow> st | Some st1 \<Rightarrow> st1)"

definition no_verify :: "string \<Rightarrow> nat \<Rightarrow> instant \<Rightarrow> verify_result" where
  "no_verify key rid tm = \<lparr>vr_system = key, vr_run = rid, vr_finished = tm, vr_dat_games = 0, vr_found = 0, vr_missing = 0,
     vr_unmatched = 0, vr_duplicate = 0, vr_other = 0, vr_extra = 0, vr_artifacts = 0, vr_promoted = 0, vr_unchecked = False, vr_report = []\<rparr>"

text \<open>Without a DAT the staged files are copied as they are.\<close>

definition promote_unchecked :: "verify_world \<Rightarrow> string \<Rightarrow> string \<Rightarrow> fs_node option \<Rightarrow> string \<Rightarrow> nat \<Rightarrow> library \<Rightarrow> system_outcome \<times> library" where
  "promote_unchecked w key incoming staged out rid lb =
    (if \<not> vw_mkdir w out then (failed_with key [MkdirFailed out], lb)
     else (case copy_tree (vw_faults w key) incoming staged (lb_trees lb out) of
         (False, c) \<Rightarrow> (failed_with key [CopyFailed], put_tree out (cp_tree c) lb)
       | (True, c) \<Rightarrow>
           let st1 = or_keep (record_verify_result ((no_verify key rid (vw_now w key))\<lparr>vr_unchecked := True, vr_promoted := cp_bytes c\<rparr>)
                 (lb_store lb)) (lb_store lb);
               st2 = or_keep (record_verify_unmatched key rid [] st1) st1
           in ((outcome_of key PromotedUnchecked)\<lparr>so_promoted := cp_bytes c, so_copied := cp_files c\<rparr>,
               (put_tree out (cp_tree c) lb)\<lparr>lb_store := st2\<rparr>)))"

definition report_checksums :: "report \<Rightarrow> checksum list" where
  "report_checksums r = filter (\<lambda>c. ck_crc c \<noteq> [] \<or> ck_sha c \<noteq> [])
     (map (\<lambda>(i, rel). \<lparr>ck_rel = rel, ck_crc = (if i < length (rp_crcs r) then rp_crcs r ! i else []),
        ck_sha = (if i < length (rp_shas r) then rp_shas r ! i else [])\<rparr>) (zip [0..<length (rp_rels r)] (rp_rels r)))"

definition ingest_report :: "string \<Rightarrow> nat \<Rightarrow> instant \<Rightarrow> string \<Rightarrow> nat \<Rightarrow> report \<Rightarrow> store \<Rightarrow> store" where
  "ingest_report key rid tm path promoted r st =
    (let v = \<lparr>vr_system = key, vr_run = rid, vr_finished = tm, vr_dat_games = dat_games r, vr_found = rp_found r,
           vr_missing = rp_missing r, vr_unmatched = rp_unmatched r, vr_duplicate = rp_duplicate r, vr_other = rp_other r,
           vr_extra = rp_extra r, vr_artifacts = rp_artifacts r, vr_promoted = promoted, vr_unchecked = False, vr_report = path\<rparr>;
         st1 = or_keep (record_verify_result v st) st;
         st2 = set_system_verify_states key (rp_rels r) st1;
         cks = report_checksums r;
         st3 = (if cks \<noteq> [] then set_game_checksums key cks st2 else st2)
     in or_keep (record_verify_unmatched key rid (rp_unmatched_files r @ rp_extra_files r) st3) st3)"

definition check_with_igir :: "verify_world \<Rightarrow> string \<Rightarrow> string \<Rightarrow> string \<Rightarrow> string \<Rightarrow> nat \<Rightarrow> library \<Rightarrow> system_outcome \<times> library" where
  "check_with_igir w key incoming out path rid lb =
    (let g = vw_igir w key; errs = (case ig_exit g of None \<Rightarrow> [] | Some e \<Rightarrow> [IgirExit e]); lb1 = put_tree out (ig_output g) lb in
     case (case ig_report g of None \<Rightarrow> Inl NoReport | Some rows \<Rightarrow> parse_report rows incoming out) of
       Inl e \<Rightarrow> (failed_with key (errs @ [ReportError e]), lb1)
     | Inr r \<Rightarrow>
         let promoted = promoted_bytes (vw_size w) (rp_paths r)
         in ((outcome_of key (if errs \<noteq> [] then VerifyFailed else Verified))\<lparr>so_errors := errs, so_report := Some r, so_promoted := promoted\<rparr>,
             lb1\<lparr>lb_store := ingest_report key rid (vw_now w key) path promoted r (lb_store lb)\<rparr>))"

definition process_system :: "verify_config \<Rightarrow> verify_world \<Rightarrow> system_row \<Rightarrow> nat \<Rightarrow> library \<Rightarrow> system_outcome \<times> library" where
  "process_system cf w sys rid lb =
    (let key = sr_key sys;
         incoming = vc_incoming cf @ ''/'' @ key;
         out = bucket_root (vc_roots cf) (sr_bucket sys) @ ''/'' @ key;
         path = vc_reports cf @ ''/'' @ key @ ''.csv'';
         looks = vw_staged w key
     in if \<not> dir_has_files incoming (looks 0) then (outcome_of key SkippedEmpty, lb)
     else if has_aria2_control incoming (looks 1) then (outcome_of key SkippedDownloading, lb)
     else if \<not> vw_dat w key
     then (if has_aria2_control incoming (looks 2) then (outcome_of key SkippedDownloading, lb)
           else promote_unchecked w key incoming (looks 3) out rid lb)
     else (case check_lock (vw_sha w) (vw_lock w) (vw_dats w) key of
         Some (LockMismatch e d) \<Rightarrow> ((outcome_of key (DatLock (LockMismatch e d)))\<lparr>so_errors := [LockFault (LockMismatch e d)]\<rparr>, lb)
       | Some f \<Rightarrow> (failed_with key [LockFault f], lb)
       | None \<Rightarrow>
           if \<not> vw_mkdir w out then (failed_with key [MkdirFailed out], lb)
           else if \<not> vw_mkdir w (vc_reports cf) then (failed_with key [MkdirFailed (vc_reports cf)], lb)
           else if has_aria2_control incoming (looks 2) then (outcome_of key SkippedDownloading, lb)
           else check_with_igir w key incoming out path rid lb))"

section \<open>A batch\<close>

record verify_job =
  vs_running :: bool
  vs_done :: nat
  vs_total :: nat
  vs_last_ok :: "instant option"
  vs_failed :: "nat option"

definition begin_verify :: "nat \<Rightarrow> verify_job \<Rightarrow> verify_job option" where
  "begin_verify n s = (if vs_running s then None
     else Some \<lparr>vs_running = True, vs_done = 0, vs_total = n, vs_last_ok = None, vs_failed = None\<rparr>)"

definition promoting :: "system_outcome \<Rightarrow> bool" where
  "promoting oc \<longleftrightarrow> so_outcome oc = Verified \<or> so_outcome oc = PromotedUnchecked"

definition failing :: "system_outcome \<Rightarrow> bool" where
  "failing oc \<longleftrightarrow> (case so_outcome oc of VerifyFailed \<Rightarrow> True | DatLock f \<Rightarrow> True | _ \<Rightarrow> False)"

definition verify_one :: "verify_config \<Rightarrow> verify_world \<Rightarrow> (string \<Rightarrow> system_row option) \<Rightarrow> nat \<Rightarrow> string \<Rightarrow>
    system_outcome list \<times> library \<Rightarrow> system_outcome list \<times> library" where
  "verify_one cf w by_key rid key os = (let (ocs, lb) = os in
     case by_key key of
       None \<Rightarrow> (ocs @ [failed_with key [UnknownSystem]], lb)
     | Some sys \<Rightarrow> (case process_system cf w sys rid lb of (oc, lb1) \<Rightarrow> (ocs @ [oc], lb1)))"

definition verify_status :: "system_outcome list \<Rightarrow> run_status" where
  "verify_status ocs = (if list_ex failing ocs then RunError else RunOk)"

definition end_verify :: "system_outcome list \<Rightarrow> instant \<Rightarrow> verify_job \<Rightarrow> verify_job" where
  "end_verify ocs tm s = (if verify_status ocs = RunOk then s\<lparr>vs_running := False, vs_done := length ocs, vs_last_ok := Some tm\<rparr>
     else s\<lparr>vs_running := False, vs_done := length ocs, vs_failed := Some (length (filter failing ocs))\<rparr>)"

definition verify_locked :: "(system_outcome list \<Rightarrow> string) \<Rightarrow> verify_config \<Rightarrow> verify_world \<Rightarrow> instant \<times> instant \<Rightarrow> string list \<Rightarrow>
    verify_job \<Rightarrow> library \<Rightarrow> (system_outcome list \<times> bool) option \<times> verify_job \<times> library" where
  "verify_locked detail cf w tm keys s lb =
    (case begin_verify (length keys) s of
       None \<Rightarrow> (None, s, lb)
     | Some s1 \<Rightarrow>
        let by_key = map_of (rev (map (\<lambda>r. (sr_key r, r)) (systems (lb_store lb))));
            (rid, st1) = start_run ''verify'' (fst tm) (lb_store lb);
            (ocs, lb1) = fold (verify_one cf w by_key rid) keys ([], lb\<lparr>lb_store := st1\<rparr>)
        in (Some (ocs, list_ex promoting ocs), end_verify ocs (snd tm) s1,
            lb1\<lparr>lb_store := finish_run rid (verify_status ocs) (detail ocs) (snd tm) (lb_store lb1)\<rparr>))"

text \<open>The slot is free again before the rescan, which runs when something was promoted.\<close>

definition verify_batch :: "(system_outcome list \<Rightarrow> string) \<Rightarrow> verify_config \<Rightarrow> verify_world \<Rightarrow> instant \<times> instant \<Rightarrow> string list \<Rightarrow> bool \<Rightarrow>
    verify_job \<Rightarrow> library \<Rightarrow> (system_outcome list \<times> bool) option \<times> bool \<times> verify_job \<times> library" where
  "verify_batch detail cf w tm keys slot s lb =
    (if slot then (None, slot, s, lb)
     else (case verify_locked detail cf w tm keys s lb of (res, s1, lb1) \<Rightarrow> (res, False, s1, lb1)))"

definition verify_all :: "(system_outcome list \<Rightarrow> string) \<Rightarrow> verify_config \<Rightarrow> verify_world \<Rightarrow> instant \<times> instant \<Rightarrow> bool \<Rightarrow>
    verify_job \<Rightarrow> library \<Rightarrow> (system_outcome list \<times> bool) option \<times> bool \<times> verify_job \<times> library" where
  "verify_all detail cf w tm slot s lb = verify_batch detail cf w tm (map sr_key (systems (lb_store lb))) slot s lb"

end
