(* ===== verification/IgirSpec.thy ===== *)
theory IgirSpec
  imports Igir StoreSpec
begin

text \<open>
  A verification counts each row of a report once, marks exactly the games that the report found, never changes a games
  tree while a download is in flight or under a DAT that its lock does not attest, and copies what it copies once.
\<close>

section \<open>Counting\<close>

definition rows_total :: "report \<Rightarrow> nat" where
  "rows_total r = dat_games r + rp_unmatched r + rp_duplicate r + rp_extra r + rp_other r + rp_artifacts r"

definition aligned :: "string \<Rightarrow> report \<Rightarrow> bool" where
  "aligned out r \<longleftrightarrow> length (rp_crcs r) = length (rp_paths r) \<and> length (rp_shas r) = length (rp_paths r) \<and>
     (out \<noteq> [] \<longrightarrow> length (rp_rels r) = length (rp_paths r)) \<and> length (rp_paths r) \<le> rp_found r \<and>
     length (rp_unmatched_files r) = rp_unmatched r \<and> length (rp_extra_files r) = rp_extra r \<and>
     length (rp_artifact_files r) = rp_artifacts r"

definition counted :: "columns \<Rightarrow> csv_read \<Rightarrow> bool" where
  "counted cs x = (case x of CsvRow row \<Rightarrow> status_of cs row \<noteq> [] | CsvBad \<Rightarrow> False)"

lemmas report_defs = add_report_row_def add_found_row_def add_unused_def add_duplicate_def rows_total_def dat_games_def aligned_def

lemma row_total: "rows_total (add_report_row cs inp out row r) = rows_total r + (if status_of cs row \<noteq> [] then 1 else 0)"
  by (simp add: report_defs Let_def)

lemma row_aligned: "aligned out r \<Longrightarrow> aligned out (add_report_row cs inp out row r)"
  by (simp add: report_defs Let_def)

lemma rows_counted:
  "report_rows cs inp out xs r0 = Inr r \<Longrightarrow> aligned out r0 \<Longrightarrow> aligned out r \<and> rows_total r = rows_total r0 + length (filter (counted cs) xs)"
  by (induction cs inp out xs r0 rule: report_rows.induct) (simp_all add: row_total row_aligned counted_def)

text \<open>
  A report that parses counts every row with a status in exactly one of its counters, and its lists
  of paths, relative paths and checksums are aligned.
\<close>

lemma report_counts_every_row:
  assumes "parse_report (CsvRow h # rows) inp out = Inr r" "out \<noteq> []"
  shows "\<exists>cs. col_from 0 ''Status'' h = Some (cl_status cs) \<and>
    rp_found r + rp_missing r + rp_unmatched r + rp_duplicate r + rp_extra r + rp_other r + rp_artifacts r = length (filter (counted cs) rows) \<and>
    length (rp_rels r) = length (rp_paths r) \<and> length (rp_crcs r) = length (rp_paths r) \<and> length (rp_shas r) = length (rp_paths r) \<and>
    length (rp_paths r) \<le> rp_found r \<and> length (rp_unmatched_files r) = rp_unmatched r \<and> length (rp_extra_files r) = rp_extra r"
proof -
  obtain i where i: "col_from 0 ''Status'' h = Some i" using assms(1) by (auto simp: parse_report_def split: option.splits)
  let ?cs = "\<lparr>cl_status = i, cl_rom = col_from 0 ''ROM Files'' h, cl_crc = col_from 0 ''CRC32'' h, cl_sha = col_from 0 ''SHA1'' h\<rparr>"
  have "report_rows ?cs inp out rows empty_report = Inr r" using assms(1) i by (simp add: parse_report_def)
  moreover have "aligned out empty_report" by (simp add: aligned_def empty_report_def)
  moreover have "rows_total empty_report = 0" by (simp add: rows_total_def dat_games_def empty_report_def)
  ultimately have "aligned out r" "rows_total r = length (filter (counted ?cs) rows)" using rows_counted by fastforce+
  then show ?thesis using i assms(2) by (intro exI [of _ ?cs]) (simp add: aligned_def rows_total_def dat_games_def)
qed

definition sample_report :: "csv_read list" where
  "sample_report = [CsvRow [''DAT Name'', ''Game Name'', ''Status'', ''ROM Files''], CsvRow [''d'', ''a'', ''FOUND'', ''/c/nes/a.nes''],
     CsvRow [''d'', ''b'', ''MISSING'', []], CsvRow [[], [], ''UNUSED'', ''/i/nes/x.bin''], CsvRow [[], [], ''UNUSED'', ''/c/nes/media/a/b.png''],
     CsvRow [[], [], ''UNUSED'', ''/c/nes/y.bin''], CsvRow [[], [], ''DUPLICATE'', ''/c/nes/a.nes''], CsvRow [''short'']]"

section \<open>When a games tree changes\<close>

lemma lock_splits: "(case c of Some (LockMismatch e d) \<Rightarrow> f e d | Some x \<Rightarrow> g x | None \<Rightarrow> n) = u \<Longrightarrow> c = None \<and> n = u \<or> (\<exists>x. c = Some x)"
  by (cases c) auto

text \<open>
  C28: Verifying a system changes the games tree only when the last look at the staged files saw no
  download in flight and, if there is a DAT, it passes its lock; and it never touches another system's
  tree.
\<close>

theorem promotion_waits_for_downloads_and_locks:
  assumes "process_system cf w sys rid lb = (oc, lb1)"
    "out = bucket_root (vc_roots cf) (sr_bucket sys) @ ''/'' @ sr_key sys" "lb_trees lb1 \<noteq> lb_trees lb"
  shows "\<not> has_aria2_control (vc_incoming cf @ ''/'' @ sr_key sys) (vw_staged w (sr_key sys) 2) \<and>
    (vw_dat w (sr_key sys) \<longrightarrow> check_lock (vw_sha w) (vw_lock w) (vw_dats w) (sr_key sys) = None) \<and>
    (\<forall>dir. dir \<noteq> out \<longrightarrow> lb_trees lb1 dir = lb_trees lb dir)"
proof (cases "check_lock (vw_sha w) (vw_lock w) (vw_dats w) (sr_key sys)")
  case None
  then show ?thesis
    using assms
    by (auto simp: process_system_def promote_unchecked_def check_with_igir_def put_tree_def Let_def
        split: if_splits prod.splits sum.splits bool.splits option.splits)
next
  case (Some f)
  then show ?thesis
    using assms
    by (cases f) (auto simp: process_system_def promote_unchecked_def put_tree_def Let_def split: if_splits prod.splits bool.splits)
qed

section \<open>Which games are marked\<close>

definition judged :: "string \<Rightarrow> string list \<Rightarrow> game \<Rightarrow> game" where
  "judged key rels g = (if gm_system g \<noteq> key then g else g\<lparr>gm_state := (if gm_rel g \<in> set rels then VVerified else VUnmatched)\<rparr>)"

lemma update_where_map: "update_where P f xs = map (\<lambda>x. if P x then f x else x) xs"
  by (simp add: update_where_def)

lemma map_games_games: "st_games (map_games P f st) = map (\<lambda>x. if P x then f x else x) (st_games st)"
  by (simp add: map_games_def update_where_map)

lemma fold_marks:
  "st_games (fold (\<lambda>rel. map_games (is_game key rel) (\<lambda>g. g\<lparr>gm_state := VVerified\<rparr>)) rels st) =
    map (\<lambda>g. if gm_system g = key \<and> gm_rel g \<in> set rels then g\<lparr>gm_state := VVerified\<rparr> else g) (st_games st)"
proof (induction rels arbitrary: st)
  case (Cons rel rels)
  show ?case
    unfolding fold_simps comp_apply Cons.IH map_games_games map_map by (auto simp: is_game_def)
qed (simp add: map_idI)

lemma verify_states_games: "st_games (set_system_verify_states key rels st) = map (judged key rels) (st_games st)"
  unfolding set_system_verify_states_def fold_marks map_games_games map_map by (auto simp: judged_def)


lemma checksums_keep_state:
  "map (\<lambda>g. (gm_system g, gm_rel g, gm_state g)) (st_games (set_game_checksums key cks st)) = map (\<lambda>g. (gm_system g, gm_rel g, gm_state g)) (st_games st)"
proof (induction cks arbitrary: st)
  case (Cons c cks)
  then show ?case by (simp add: set_game_checksums_def map_games_games comp_def)
qed (simp add: set_game_checksums_def)

lemma or_keep_games: "(\<And>st1. r = Some st1 \<Longrightarrow> st_games st1 = st_games st) \<Longrightarrow> st_games (or_keep r st) = st_games st"
  by (cases r) (simp_all add: or_keep_def)

lemma record_games:
  "record_verify_result v st = Some st1 \<Longrightarrow> st_games st1 = st_games st"
  "record_verify_unmatched k rid fs st = Some st1 \<Longrightarrow> st_games st1 = st_games st"
  by (auto simp: record_verify_result_def record_verify_unmatched_def split: if_splits)

definition marks :: "store \<Rightarrow> (string \<times> string \<times> verify_state) list" where
  "marks st = map (\<lambda>g. (gm_system g, gm_rel g, gm_state g)) (st_games st)"

lemma others_unmarked:
  "filter (\<lambda>(k, rel, s). k \<noteq> key) (map (\<lambda>g. (gm_system g, gm_rel g, gm_state (judged key rels g))) gs) =
    filter (\<lambda>(k, rel, s). k \<noteq> key) (map (\<lambda>g. (gm_system g, gm_rel g, gm_state g)) gs)"
  by (induction gs) (auto simp: judged_def)

lemma ingest_marks:
  "marks (ingest_report key rid tm path n r st) = map (\<lambda>g. (gm_system g, gm_rel g, gm_state (judged key (rp_rels r) g))) (st_games st)"
proof -
  let ?v = "\<lparr>vr_system = key, vr_run = rid, vr_finished = tm, vr_dat_games = dat_games r, vr_found = rp_found r,
    vr_missing = rp_missing r, vr_unmatched = rp_unmatched r, vr_duplicate = rp_duplicate r, vr_other = rp_other r,
    vr_extra = rp_extra r, vr_artifacts = rp_artifacts r, vr_promoted = n, vr_unchecked = False, vr_report = path\<rparr>"
  let ?st1 = "or_keep (record_verify_result ?v st) st"
  have 1: "st_games ?st1 = st_games st" by (rule or_keep_games) (rule record_games)
  have v: "gm_system (judged key rels g) = gm_system g" "gm_rel (judged key rels g) = gm_rel g" for rels g
    by (simp_all add: judged_def)
  have "marks (set_system_verify_states key (rp_rels r) ?st1) = map (\<lambda>g. (gm_system g, gm_rel g, gm_state (judged key (rp_rels r) g))) (st_games st)"
    by (simp add: marks_def verify_states_games 1 comp_def v)
  then show ?thesis
    using or_keep_games [OF record_games(2)] checksums_keep_state by (simp add: ingest_report_def marks_def Let_def)
qed

text \<open>
  C29: After a verification with a report the games of the system are marked verified exactly when the
  report found their path and unmatched otherwise; no row appears or vanishes and other systems keep
  their marks.
\<close>

theorem verification_marks_what_the_report_found:
  assumes "process_system cf w sys rid lb = (oc, lb1)" "so_report oc = Some r"
  shows "map (\<lambda>g. (gm_system g, gm_rel g)) (st_games (lb_store lb1)) = map (\<lambda>g. (gm_system g, gm_rel g)) (st_games (lb_store lb)) \<and>
    (\<forall>g\<in>set (st_games (lb_store lb1)). gm_system g = sr_key sys \<longrightarrow> gm_state g = (if gm_rel g \<in> set (rp_rels r) then VVerified else VUnmatched)) \<and>
    filter (\<lambda>(k, rel, s). k \<noteq> sr_key sys) (marks (lb_store lb1)) = filter (\<lambda>(k, rel, s). k \<noteq> sr_key sys) (marks (lb_store lb))"
proof -
  obtain tm path n where st: "lb_store lb1 = ingest_report (sr_key sys) rid tm path n r (lb_store lb)"
    using assms
    by (auto simp: process_system_def promote_unchecked_def check_with_igir_def outcome_of_def failed_with_def Let_def
        split: if_splits prod.splits sum.splits bool.splits option.splits lock_fault.splits)
  let ?f = "\<lambda>g. (gm_system g, gm_rel g, gm_state (judged (sr_key sys) (rp_rels r) g))"
  have m: "map (\<lambda>g. (gm_system g, gm_rel g, gm_state g)) (st_games (lb_store lb1)) = map ?f (st_games (lb_store lb))"
    using ingest_marks unfolding st marks_def .
  have "map (\<lambda>(k, rel, s). (k, rel)) (map (\<lambda>g. (gm_system g, gm_rel g, gm_state g)) (st_games (lb_store lb1))) =
      map (\<lambda>(k, rel, s). (k, rel)) (map ?f (st_games (lb_store lb)))" using m by simp
  then have 1: "map (\<lambda>g. (gm_system g, gm_rel g)) (st_games (lb_store lb1)) = map (\<lambda>g. (gm_system g, gm_rel g)) (st_games (lb_store lb))"
    by (simp add: comp_def)
  have 2: "gm_state g = (if gm_rel g \<in> set (rp_rels r) then VVerified else VUnmatched)"
    if "g \<in> set (st_games (lb_store lb1))" "gm_system g = sr_key sys" for g
  proof -
    have "(gm_system g, gm_rel g, gm_state g) \<in> set (map ?f (st_games (lb_store lb)))" unfolding m [symmetric] using that(1) by simp
    then show ?thesis using that(2) by (auto simp: judged_def split: if_splits)
  qed
  have 3: "filter (\<lambda>(k, rel, s). k \<noteq> sr_key sys) (marks (lb_store lb1)) = filter (\<lambda>(k, rel, s). k \<noteq> sr_key sys) (marks (lb_store lb))"
    unfolding marks_def m by (rule others_unmarked)
  show ?thesis using 1 2 3 by blast
qed

section \<open>Copying\<close>

fun visit_file :: "visit \<Rightarrow> (string \<times> file_info) option" where
  "visit_file (VFile rel n i) = Some (rel, i)"
| "visit_file v = None"

definition visit_files :: "visit list \<Rightarrow> (string \<times> file_info) list" where
  "visit_files vs = List.map_filter visit_file vs"

lemma visit_files_simps [simp]:
  "visit_files [] = []" "visit_files (v # vs) = (case visit_file v of None \<Rightarrow> visit_files vs | Some x \<Rightarrow> x # visit_files vs)"
  by (simp_all add: visit_files_def List.map_filter_def split: option.split)

lemma same_stamp_copied [simp]: "same_stamp i (Some (i\<lparr>fi_mode := m\<rparr>))"
  by (simp add: same_stamp_def)

lemma copy_file_ok:
  assumes "copy_file faults rel i s = (True, s1)"
  shows "same_stamp i (cp_tree s1 rel)" "rel1 \<noteq> rel \<Longrightarrow> cp_tree s1 rel1 = cp_tree s rel1"
  using assms by (auto simp: copy_file_def split: if_splits option.splits)

lemma copy_visits_file:
  assumes "copy_visits faults (VFile rel n i # vs) s = (True, s1)"
  obtains s0 where "copy_file faults rel i s = (True, s0)" "copy_visits faults vs s0 = (True, s1)"
  using assms by (auto split: prod.splits bool.splits)

lemma copy_visits_ok:
  assumes "copy_visits faults vs s = (True, s1)" "distinct (map fst (visit_files vs))"
  shows "(\<forall>(rel, i)\<in>set (visit_files vs). same_stamp i (cp_tree s1 rel)) \<and>
    (\<forall>rel. rel \<notin> fst ` set (visit_files vs) \<longrightarrow> cp_tree s1 rel = cp_tree s rel)"
  using assms
proof (induction vs arbitrary: s)
  case (Cons v vs)
  show ?case
  proof (cases v)
    case (VFile rel n i)
    obtain s0 where c: "copy_file faults rel i s = (True, s0)" "copy_visits faults vs s0 = (True, s1)"
      using Cons.prems(1) unfolding VFile by (rule copy_visits_file)
    have d: "distinct (map fst (visit_files vs))" "rel \<notin> fst ` set (visit_files vs)" using Cons.prems(2) VFile by auto
    note IH = Cons.IH [OF c(2) d(1)]
    have "cp_tree s1 rel = cp_tree s0 rel" using IH d(2) by blast
    then have "same_stamp i (cp_tree s1 rel)" using copy_file_ok(1) [OF c(1)] by simp
    then show ?thesis using IH copy_file_ok(2) [OF c(1)] VFile by auto
  qed (use Cons in auto)
qed simp

lemma copy_visits_skips:
  assumes "\<forall>(rel, i)\<in>set (visit_files vs). same_stamp i (cp_tree s rel)" "copy_visits faults vs s0 = (True, s1)"
  shows "copy_visits faults1 vs s = (True, s)"
  using assms
proof (induction vs arbitrary: s0)
  case (Cons v vs)
  show ?case
  proof (cases v)
    case (VFile rel n i)
    then have "copy_file faults1 rel i s = (True, s)" using Cons.prems(1) by (auto simp: copy_file_def)
    moreover obtain s2 where "copy_visits faults vs s2 = (True, s1)"
      using Cons.prems(2) unfolding VFile by (rule copy_visits_file)
    ultimately show ?thesis using Cons VFile by simp
  qed (use Cons in auto)
qed simp

text \<open>A copy that succeeds agrees with its source, and a second one has nothing to do.\<close>

lemma copy_agrees_and_is_done_once:
  assumes "copy_tree faults dir t dst = (True, c)" "distinct (map fst (visit_files (walk_root dir t)))"
  shows "(\<forall>(rel, i)\<in>set (visit_files (walk_root dir t)). same_stamp i (cp_tree c rel)) \<and>
    (\<forall>rel. rel \<notin> fst ` set (visit_files (walk_root dir t)) \<longrightarrow> cp_tree c rel = dst rel) \<and>
    copy_tree faults1 dir t (cp_tree c) = (True, \<lparr>cp_tree = cp_tree c, cp_bytes = 0, cp_files = 0\<rparr>)"
proof -
  have a: "\<forall>(rel, i)\<in>set (visit_files (walk_root dir t)). same_stamp i (cp_tree c rel)"
    "\<forall>rel. rel \<notin> fst ` set (visit_files (walk_root dir t)) \<longrightarrow> cp_tree c rel = dst rel"
    using copy_visits_ok [of faults "walk_root dir t" _ c] assms by (auto simp: copy_tree_def)
  moreover have "copy_tree faults1 dir t (cp_tree c) = (True, \<lparr>cp_tree = cp_tree c, cp_bytes = 0, cp_files = 0\<rparr>)"
    unfolding copy_tree_def by (rule copy_visits_skips [OF _ assms(1) [unfolded copy_tree_def]]) (use a(1) in simp)
  ultimately show ?thesis by blast
qed

section \<open>A system to verify\<close>

definition sample_system_row :: system_row where
  "sample_system_row = \<lparr>sr_key = ''nes'', sr_collection = ''NES'', sr_bucket = ''cartridge'', sr_core = ''fceumm'', sr_emulator = [],
     sr_sky = [], sr_torrent = [], sr_extensions = ''[]'', sr_order = 1, sr_source = SourceCatalogue\<rparr>"

definition sample_staged :: fs_node where
  "sample_staged = FsDir [(''a.nes'', FsFile \<lparr>fi_size = 3, fi_mtime = 5, fi_mode = 420, fi_data = ''abc''\<rparr>)]"

definition sample_verify_config :: verify_config where
  "sample_verify_config = \<lparr>vc_incoming = ''/i'', vc_roots = \<lparr>rt_cartridge = ''/c'', rt_optical = ''/o'', rt_modern = ''/m''\<rparr>, vc_reports = ''/r''\<rparr>"

definition sample_verify_world :: "bool \<Rightarrow> string option \<Rightarrow> verify_world" where
  "sample_verify_world dat exit1 = \<lparr>vw_staged = (\<lambda>_ _. Some sample_staged), vw_dat = (\<lambda>_. dat), vw_dats = Map.empty, vw_lock = NoLock,
     vw_sha = id, vw_mkdir = (\<lambda>_. True), vw_igir = (\<lambda>_. \<lparr>ig_exit = exit1, ig_report = Some sample_report, ig_output = Map.empty\<rparr>),
     vw_size = (\<lambda>_. Some 3), vw_faults = (\<lambda>_ _. None), vw_now = (\<lambda>_. 9)\<rparr>"

definition sample_library :: library where
  "sample_library = \<lparr>lb_store = empty_store\<lparr>st_systems := [sample_system_row],
     st_games := [new_game 1 ''nes'' \<lparr>gr_rel = ''a.nes'', gr_size = 3, gr_title = []\<rparr> 0, new_game 2 ''nes'' \<lparr>gr_rel = ''z.nes'', gr_size = 3, gr_title = []\<rparr> 0]\<rparr>,
     lb_trees = (\<lambda>_. Map.empty)\<rparr>"

lemma promotion_waits_for_downloads_and_locks_witness:
  "lb_trees (snd (process_system sample_verify_config (sample_verify_world False None) sample_system_row 1 sample_library)) \<noteq> lb_trees sample_library \<and>
    \<not> has_aria2_control ''/i/nes'' (vw_staged (sample_verify_world False None) ''nes'' 2)"
proof -
  obtain oc lb1 where p: "process_system sample_verify_config (sample_verify_world False None) sample_system_row 1 sample_library = (oc, lb1)" by fastforce
  have "(lb_trees (snd (process_system sample_verify_config (sample_verify_world False None) sample_system_row 1 sample_library)) ''/c/nes'' ''a.nes'') \<noteq> None"
    "lb_trees sample_library ''/c/nes'' ''a.nes'' = None" by code_simp+
  then have t: "lb_trees lb1 \<noteq> lb_trees sample_library" using p by auto
  have "vc_incoming sample_verify_config @ ''/'' @ sr_key sample_system_row = ''/i/nes''" "sr_key sample_system_row = ''nes''" by code_simp+
  then show ?thesis using promotion_waits_for_downloads_and_locks [OF p refl t] t p by simp
qed

lemma verification_marks_what_the_report_found_witness:
  "map (\<lambda>g. (gm_system g, gm_rel g)) (st_games (lb_store (snd (process_system sample_verify_config (sample_verify_world True None) sample_system_row 1 sample_library))))
     = [(''nes'', ''a.nes''), (''nes'', ''z.nes'')]"
proof -
  obtain oc lb1 where p: "process_system sample_verify_config (sample_verify_world True None) sample_system_row 1 sample_library = (oc, lb1)" by fastforce
  have "(case so_report (fst (process_system sample_verify_config (sample_verify_world True None) sample_system_row 1 sample_library)) of
      None \<Rightarrow> False | Some r \<Rightarrow> True)" by code_simp
  then obtain r where "so_report oc = Some r" using p by (auto split: option.splits)
  from verification_marks_what_the_report_found [OF p this] show ?thesis using p by (simp add: sample_library_def new_game_def)
qed

text \<open>
  A report that an earlier run left is ingested when igir fails without writing one: the outcome is a failure, and the
  games are marked all the same.
\<close>

lemma failed_igir_still_marks_the_games:
  "so_outcome (fst (process_system sample_verify_config (sample_verify_world True (Some ''killed'')) sample_system_row 1 sample_library)) = VerifyFailed"
  "map gm_state (st_games (lb_store (snd (process_system sample_verify_config (sample_verify_world True (Some ''killed'')) sample_system_row 1 sample_library))))
     = [VVerified, VUnmatched]"
  by code_simp+

text \<open>A refused or failed batch forgets when the last one succeeded.\<close>

lemma failed_batch_forgets_the_last_success:
  "begin_verify n \<lparr>vs_running = False, vs_done = d, vs_total = m, vs_last_ok = Some tm, vs_failed = None\<rparr> = Some s \<Longrightarrow>
    verify_status ocs = RunError \<Longrightarrow> vs_last_ok (end_verify ocs tm1 s) = None"
  by (auto simp: begin_verify_def end_verify_def)

text \<open>Aria2's own metadata files are copied with the rest when there is no DAT.\<close>

lemma torrent_files_are_promoted:
  "cp_tree (snd (copy_tree (\<lambda>_. None) ''/i/nes'' (Some (FsDir [(''x.torrent'', FsFile \<lparr>fi_size = 1, fi_mtime = 0, fi_mode = 0, fi_data = ''t''\<rparr>)]))
     Map.empty)) ''x.torrent'' \<noteq> None"
  by code_simp

end
