(* ===== verification/Scrape.thy ===== *)
theory Scrape
  imports Scanner StoreQueries
begin

text \<open>
  internal/scrape/scrape.go of pkgs/arcade-webapp: which files count as games, the passes of the scraper over one
  system with their arguments, the redaction of credentials, the rewriting of the composed metadata, and a batch.
  The scraper itself is an argument: what it prints for its arguments and whether it fails.
\<close>

section \<open>Files that count\<close>

definition default_suffixes :: "string list" where
  "default_suffixes = [''.zip'', ''.nes'', ''.sfc'', ''.gb'', ''.gbc'', ''.gba'', ''.n64'', ''.cue'', ''.bin'', ''.chd'', ''.iso'']"

definition global_extras :: "string list" where
  "global_extras = [''.zip'', ''.bin'']"

text \<open>\<open>decode\<close> reads a JSON list of strings.\<close>

definition rom_suffix_set :: "(string \<Rightarrow> string list option) \<Rightarrow> system_row \<Rightarrow> string set" where
  "rom_suffix_set decode row =
    (let exts = (case decode (sr_extensions row) of None \<Rightarrow> [] | Some es \<Rightarrow> es);
         used = filter (\<lambda>e. e \<noteq> []) (map (\<lambda>e. to_lower (trim_space e)) exts)
     in if used = [] then set default_suffixes
     else (\<lambda>e. CHR ''.'' # trim_prefix ''.'' e) ` set used \<union> set global_extras)"

definition counts_as_rom :: "string set \<Rightarrow> visit \<Rightarrow> bool" where
  "counts_as_rom allowed v = (case v of VFile rel n i \<Rightarrow> to_lower (path_ext n) \<in> allowed
    | VGone rel n e \<Rightarrow> to_lower (path_ext n) \<in> allowed | _ \<Rightarrow> False)"

definition rom_count :: "string \<Rightarrow> fs_node option \<Rightarrow> string set \<Rightarrow> nat" where
  "rom_count dir t allowed = length (filter (counts_as_rom allowed) (walk_root dir t))"

definition is_directory :: "fs_node option \<Rightarrow> bool" where
  "is_directory t = (case t of Some (FsDir ch) \<Rightarrow> True | Some (FsClosed e) \<Rightarrow> True | _ \<Rightarrow> False)"

section \<open>Credentials\<close>

definition read_creds :: "(string \<Rightarrow> string option) \<Rightarrow> string \<Rightarrow> string option" where
  "read_creds file path = (if path = [] then None else map_option trim_space (file path))"

definition add_secret :: "string \<Rightarrow> string list \<Rightarrow> string list" where
  "add_secret v vs = (if v \<noteq> [] then vs @ [v] else vs)"

definition redacted :: string where "redacted = ''[redacted]''"

text \<open>\<open>strings.ReplaceAll\<close> for a pattern that is not empty.\<close>

function replace_all :: "string \<Rightarrow> string \<Rightarrow> string \<Rightarrow> string" where
  "replace_all v r [] = []"
| "replace_all v r (c # cs) = (if v \<noteq> [] \<and> prefix v (c # cs) then r @ replace_all v r (drop (length v) (c # cs)) else c # replace_all v r cs)"
  by pat_completeness auto
termination by (relation "measure (\<lambda>(v, r, s). length s)") (auto simp: neq_Nil_conv)

definition secrets_apply :: "string list \<Rightarrow> string \<Rightarrow> string" where
  "secrets_apply vs out = fold (\<lambda>v s. replace_all v redacted s) vs out"

section \<open>The composed metadata\<close>

definition rewrite_rel_path :: "string \<Rightarrow> string \<Rightarrow> string" where
  "rewrite_rel_path base1 l =
    (if prefix ''file: '' l then ''file: '' @ trim_prefix base1 (drop 6 l)
     else if prefix ''assets.'' l
     then (case find (\<lambda>i. prefix '': '' (drop i l)) [0..<length l] of None \<Rightarrow> l | Some i \<Rightarrow> take (i + 2) l @ trim_prefix base1 (drop (i + 2) l))
     else l)"

definition blank_line :: "string \<Rightarrow> bool" where
  "blank_line l \<longleftrightarrow> l \<noteq> [] \<and> trim_space l = []"

text \<open>The rewritten text, and whether it has a launch line.\<close>

definition post_compose :: "string \<Rightarrow> string \<Rightarrow> string \<times> bool" where
  "post_compose dir text1 =
    (let out = map (rewrite_rel_path (dir @ ''/'')) (filter (\<lambda>l. \<not> blank_line l) (split_byte newline text1))
     in (join_with [newline] out, list_ex (prefix ''launch: '') out))"

section \<open>One system\<close>

record scrape_driver =
  sd_bin :: string
  sd_cache :: string
  sd_source :: string
  sd_creds :: string
  sd_key :: string
  sd_roots :: roots

definition driver_configured :: "scrape_driver \<Rightarrow> bool" where
  "driver_configured d \<longleftrightarrow> sd_bin d \<noteq> [] \<and> sd_cache d \<noteq> []"

definition default_source :: string where "default_source = ''thegamesdb''"

text \<open>What a scrape does to the outside, in order.\<close>

datatype scrape_act = WriteIni string string | Exec "string list" | WriteMetadata string string

record scrape_world =
  sp_tree :: "string \<Rightarrow> fs_node option"
  sp_decode :: "string \<Rightarrow> string list option"
  sp_mkdir :: "string \<Rightarrow> bool"
  sp_ini :: "string \<Rightarrow> bool"
  sp_file :: "string \<Rightarrow> string option"
  sp_exec :: "string list \<Rightarrow> string \<times> string option"
  sp_metadata :: "string \<Rightarrow> walk_error + string"
  sp_rewrite :: "string \<Rightarrow> bool"
  sp_coverage :: "string \<Rightarrow> cache_coverage option"
  sp_hash :: "string \<Rightarrow> string \<Rightarrow> string option"

definition add_window :: "string list \<Rightarrow> string \<Rightarrow> string list" where
  "add_window args start_at = (if start_at = [] then args else args @ [''--startat'', start_at, ''--endat'', start_at])"

definition output_tail :: "string \<Rightarrow> string" where
  "output_tail t = (if 400 < length t then bytes [226, 128, 166] @ drop (length t - 400) t else t)"

text \<open>A pass: the error text, or None, with what it executed.\<close>

definition run_pass :: "scrape_world \<Rightarrow> string \<Rightarrow> string list \<Rightarrow> string list \<Rightarrow> string option" where
  "run_pass w name args vs = (case sp_exec w args of (out, failed) \<Rightarrow>
      (case failed of None \<Rightarrow> None
       | Some e \<Rightarrow> Some (name @ '' pass failed ('' @ e @ ''): '' @ output_tail (trim_space (secrets_apply vs out)))))"

datatype scrape_outcome = Scraped | ScrapeSkipped | ScrapeFailed

datatype scrape_error = NotConfigured | UnknownScrapeSystem string | NoScrapeLaunch | CacheDirFailed | IniFailed | AllPassesFailed nat

definition launch_command :: "system_row \<Rightarrow> string option" where
  "launch_command sys = (if sr_core sys \<noteq> [] \<and> sr_core sys \<noteq> ''-'' then Some (''jupiter-retroarch -L '' @ sr_core sys)
     else if sr_emulator sys \<noteq> [] then Some (''jupiter-'' @ sr_emulator sys) else None)"

definition scrape_ini :: "string \<Rightarrow> string" where
  "scrape_ini launch = ''[pegasus]'' @ [newline] @ ''launch='' @ launch @ '' '' @ bytes [92, 34] @ ''{file.path}'' @ bytes [34] @ [newline]"

definition handle_of :: "system_row \<Rightarrow> string" where
  "handle_of sys = (if sr_sky sys \<noteq> [] then sr_sky sys else sr_key sys)"

definition base_args :: "string \<Rightarrow> string \<Rightarrow> string \<Rightarrow> string \<Rightarrow> string \<Rightarrow> string list" where
  "base_args platform source dir cache ini = [''-p'', platform, ''-s'', source, ''-i'', dir, ''-d'', cache, ''-c'', ini]"

definition primary_args :: "string list \<Rightarrow> string \<Rightarrow> string list" where
  "primary_args base creds = base @ [''-u'', creds, ''-t'', ''1'', ''--flags'', ''unattend,unpack'']"

definition secondary_args :: "string list \<Rightarrow> string option \<Rightarrow> bool \<Rightarrow> string list" where
  "secondary_args base key have_primary = base @ (case key of None \<Rightarrow> [] | Some k \<Rightarrow> [''-u'', k]) @
     [''--flags'', if have_primary then ''unattend,onlymissing'' else ''unattend'']"

definition compose_args :: "string \<Rightarrow> string \<Rightarrow> string \<Rightarrow> string \<Rightarrow> string list" where
  "compose_args platform dir cache ini = [''-p'', platform, ''-f'', ''pegasus'', ''-i'', dir, ''-d'', cache, ''-g'', dir, ''-c'', ini,
     ''--flags'', ''unattend'']"

definition scrape_dir :: "scrape_driver \<Rightarrow> system_row \<Rightarrow> string" where
  "scrape_dir d sys = bucket_root (sd_roots d) (sr_bucket sys) @ ''/'' @ sr_key sys"

text \<open>The three passes: what was executed, the errors, whether any pass and whether the last one succeeded.\<close>

definition three_passes :: "scrape_driver \<Rightarrow> scrape_world \<Rightarrow> system_row \<Rightarrow> string \<Rightarrow> string list list \<times> string list \<times> bool \<times> bool" where
  "three_passes d w sys start_at =
    (let dir = scrape_dir d sys; cache = sd_cache d @ ''/'' @ sr_key sys; ini = sd_cache d @ ''/config-'' @ sr_key sys @ ''.ini'';
         source = (if sd_source d = [] then default_source else sd_source d);
         creds = read_creds (sp_file w) (sd_creds d);
         vs1 = (case creds of None \<Rightarrow> [] | Some c \<Rightarrow> add_secret c []);
         key = (if source = default_source then read_creds (sp_file w) (sd_key d) else None);
         vs2 = (case key of None \<Rightarrow> vs1 | Some k \<Rightarrow> add_secret k vs1);
         a = (case creds of None \<Rightarrow> []
            | Some c \<Rightarrow> [(''screenscraper'', add_window (primary_args (base_args (handle_of sys) ''screenscraper'' dir cache ini) c) start_at, vs1)]);
         b = [(source, add_window (secondary_args (base_args (handle_of sys) source dir cache ini) key (creds \<noteq> None)) start_at, vs2)];
         c = (''pegasus'', compose_args (handle_of sys) dir cache ini, vs2);
         errs = map (\<lambda>(n, args, vs). run_pass w n args vs) (a @ b @ [c])
     in (map (fst \<circ> snd) (a @ b @ [c]), List.map_filter id errs, list_ex (\<lambda>e. e = None) errs, last errs = None))"

definition compose_acts :: "scrape_world \<Rightarrow> string \<Rightarrow> scrape_act list" where
  "compose_acts w dir = (let md = dir @ ''/metadata.pegasus.txt'' in
     case sp_metadata w md of Inl e \<Rightarrow> [] | Inr t \<Rightarrow> if sp_rewrite w md then [WriteMetadata md (fst (post_compose dir t))] else [])"

definition lookup_system :: "string \<Rightarrow> store \<Rightarrow> system_row option" where
  "lookup_system key st = find (\<lambda>s. sr_key s = key) (systems st)"

definition scrape_outcome_of :: "scrape_driver \<Rightarrow> scrape_world \<Rightarrow> string \<Rightarrow> string \<Rightarrow> store \<Rightarrow>
    (scrape_outcome \<times> scrape_error option \<times> string list) \<times> scrape_act list \<times> store" where
  "scrape_outcome_of d w key start_at st =
    (if \<not> driver_configured d then ((ScrapeFailed, Some NotConfigured, []), [], st)
     else (case lookup_system key st of
         None \<Rightarrow> ((ScrapeFailed, Some (UnknownScrapeSystem key), []), [], st)
       | Some sys \<Rightarrow>
          let dir = scrape_dir d sys; cache = sd_cache d @ ''/'' @ key; ini = sd_cache d @ ''/config-'' @ key @ ''.ini'' in
          if \<not> is_directory (sp_tree w dir) then ((ScrapeSkipped, None, []), [], st)
          else if rom_count dir (sp_tree w dir) (rom_suffix_set (sp_decode w) sys) = 0 then ((ScrapeSkipped, None, []), [], st)
          else (case launch_command sys of
              None \<Rightarrow> ((ScrapeFailed, Some NoScrapeLaunch, []), [], st)
            | Some launch \<Rightarrow>
                if \<not> sp_mkdir w cache then ((ScrapeFailed, Some CacheDirFailed, []), [], st)
                else if \<not> sp_ini w ini then ((ScrapeFailed, Some IniFailed, []), [], st)
                else (case three_passes d w sys start_at of
                    (execs, texts, any_ok, composed) \<Rightarrow>
                      let acts = WriteIni ini (scrape_ini launch) # map Exec execs @ (if composed then compose_acts w dir else [])
                      in if \<not> any_ok then ((ScrapeFailed, Some (AllPassesFailed (length execs)), texts), acts, st)
                      else (case apply_cache (sp_coverage w cache) (\<lambda>rel. sp_hash w dir rel) key True True st of
                          (n, e1, e2, st1) \<Rightarrow> ((Scraped, None, texts), acts, st1))))))"

definition scrape_system :: "scrape_driver \<Rightarrow> scrape_world \<Rightarrow> string \<Rightarrow> store \<Rightarrow> scrape_error option \<times> scrape_act list \<times> store" where
  "scrape_system d w key st = (case scrape_outcome_of d w key [] st of
      ((oc, e, texts), acts, st1) \<Rightarrow> (if oc \<noteq> ScrapeFailed then None else e, acts, st1))"

section \<open>A batch\<close>

record scrape_result =
  sx_sys :: string
  sx_outcome :: scrape_outcome
  sx_error :: "scrape_error option"
  sx_counts :: "nat \<times> nat \<times> nat"

definition scrape_and_count :: "scrape_driver \<Rightarrow> scrape_world \<Rightarrow> string \<Rightarrow> string \<Rightarrow> store \<Rightarrow> scrape_result \<times> scrape_act list \<times> store" where
  "scrape_and_count d w key start_at st = (case scrape_outcome_of d w key start_at st of
      ((oc, e, texts), acts, st1) \<Rightarrow>
        (\<lparr>sx_sys = key, sx_outcome = oc, sx_error = e, sx_counts = system_scrape_counts key st1\<rparr>, acts, st1))"

definition scrape_each :: "scrape_driver \<Rightarrow> scrape_world \<Rightarrow> string \<Rightarrow> string \<Rightarrow> scrape_result list \<times> scrape_act list \<times> store \<Rightarrow>
    scrape_result list \<times> scrape_act list \<times> store" where
  "scrape_each d w start_at key rs = (let (ocs, acts, st) = rs in
     case scrape_and_count d w key start_at st of (oc, acts1, st1) \<Rightarrow> (ocs @ [oc], acts @ acts1, st1))"

record scrape_job =
  sj_running :: bool
  sj_done :: nat
  sj_total :: nat
  sj_last_ok :: "instant option"
  sj_failed :: "nat option"

definition scrape_failing :: "scrape_result \<Rightarrow> bool" where
  "scrape_failing r \<longleftrightarrow> sx_outcome r = ScrapeFailed"

definition scrape_status :: "scrape_result list \<Rightarrow> run_status" where
  "scrape_status ocs = (if list_ex scrape_failing ocs then RunError else RunOk)"

definition end_scrape :: "scrape_result list \<Rightarrow> instant \<Rightarrow> scrape_job \<Rightarrow> scrape_job" where
  "end_scrape ocs tm s = (if scrape_status ocs = RunOk
     then s\<lparr>sj_running := False, sj_done := length ocs, sj_last_ok := Some tm, sj_failed := None\<rparr>
     else s\<lparr>sj_running := False, sj_done := length ocs, sj_failed := Some (length (filter scrape_failing ocs))\<rparr>)"

datatype start_error = StartNotConfigured | StartBusy | EmptyGamePath

text \<open>The claim, the run and the slot given back, seen from the outside as one call.\<close>

definition start_scrape :: "(scrape_result list \<Rightarrow> string) \<Rightarrow> scrape_driver \<Rightarrow> scrape_world \<Rightarrow> instant \<times> instant \<Rightarrow> string list \<Rightarrow> string \<Rightarrow>
    bool \<Rightarrow> scrape_job \<Rightarrow> store \<Rightarrow> (start_error option \<times> scrape_act list) \<times> scrape_job \<times> store" where
  "start_scrape detail d w tm keys start_at slot s st =
    (if \<not> driver_configured d then ((Some StartNotConfigured, []), s, st)
     else if sj_running s then ((Some StartBusy, []), s, st)
     else (let s1 = \<lparr>sj_running = True, sj_done = 0, sj_total = length keys, sj_last_ok = None, sj_failed = None\<rparr>
       in if slot then ((Some StartBusy, []), s1\<lparr>sj_running := False\<rparr>, st)
       else (let (i, st1) = start_run ''scrape'' (fst tm) st;
                 (ocs, acts, st2) = fold (scrape_each d w start_at) keys ([], [], st1)
         in ((None, acts), end_scrape ocs (snd tm) s1, finish_run i (scrape_status ocs) (detail ocs) (snd tm) st2))))"

definition start_game :: "(scrape_result list \<Rightarrow> string) \<Rightarrow> scrape_driver \<Rightarrow> scrape_world \<Rightarrow> instant \<times> instant \<Rightarrow> string \<Rightarrow> string \<Rightarrow>
    bool \<Rightarrow> scrape_job \<Rightarrow> store \<Rightarrow> (start_error option \<times> scrape_act list) \<times> scrape_job \<times> store" where
  "start_game detail d w tm key rel slot s st =
    (if rel = [] then ((Some EmptyGamePath, []), s, st) else start_scrape detail d w tm [key] rel slot s st)"

definition batch_keys :: "scrape_driver \<Rightarrow> scrape_world \<Rightarrow> store \<Rightarrow> string list" where
  "batch_keys d w st = map sr_key (filter (\<lambda>sys. let dir = scrape_dir d sys in
     is_directory (sp_tree w dir) \<and> 0 < rom_count dir (sp_tree w dir) (rom_suffix_set (sp_decode w) sys)) (systems st))"

definition start_all :: "(scrape_result list \<Rightarrow> string) \<Rightarrow> scrape_driver \<Rightarrow> scrape_world \<Rightarrow> instant \<times> instant \<Rightarrow>
    bool \<Rightarrow> scrape_job \<Rightarrow> store \<Rightarrow> (start_error option \<times> scrape_act list) \<times> scrape_job \<times> store" where
  "start_all detail d w tm slot s st = start_scrape detail d w tm (batch_keys d w st) [] slot s st"

section \<open>No credential gets out\<close>

definition unbracketed :: "string \<Rightarrow> bool" where
  "unbracketed v \<longleftrightarrow> v \<noteq> [] \<and> CHR ''['' \<notin> set v \<and> CHR '']'' \<notin> set v \<and> \<not> sublist v ''redacted''"

text \<open>A replacement \<open>a # m @ [b]\<close> whose marks do not occur in \<open>u\<close> separates the text around it.\<close>

definition apart :: "'a \<Rightarrow> 'a list \<Rightarrow> 'a \<Rightarrow> 'a list \<Rightarrow> bool" where
  "apart a m b u \<longleftrightarrow> u \<noteq> [] \<and> a \<notin> set u \<and> b \<notin> set u \<and> \<not> sublist u m"

lemma replace_step:
  "v \<noteq> [] \<and> prefix v (c # cs) \<Longrightarrow> replace_all v r (c # cs) = r @ replace_all v r (drop (length v) (c # cs))"
  "\<not> (v \<noteq> [] \<and> prefix v (c # cs)) \<Longrightarrow> replace_all v r (c # cs) = c # replace_all v r cs"
  by (rule trans [OF replace_all.simps(2) if_P], assumption) (rule trans [OF replace_all.simps(2) if_not_P], assumption)

lemma replaced_prefix: "a \<notin> set u \<Longrightarrow> prefix u (replace_all v (a # m @ [b]) s) \<Longrightarrow> prefix u s"
proof (induction v "a # m @ [b]" s arbitrary: u rule: replace_all.induct)
  case (2 v c cs)
  show ?case
  proof (cases u)
    case (Cons x xs)
    have skip: "\<not> (v \<noteq> [] \<and> prefix v (c # cs))"
    proof
      assume m: "v \<noteq> [] \<and> prefix v (c # cs)"
      have "prefix u ((a # m @ [b]) @ replace_all v (a # m @ [b]) (drop (length v) (c # cs)))"
        using 2(4) unfolding replace_step(1) [OF m] .
      then show False using 2(3) Cons by simp
    qed
    have "x = c \<and> prefix xs (replace_all v (a # m @ [b]) cs)" using 2(4) unfolding replace_step(2) [OF skip] Cons by simp
    then show ?thesis using 2(2) [OF skip] 2(3) Cons by simp
  qed simp
qed simp

lemma sublist_beyond:
  assumes "apart a m b u" "sublist u ((a # m @ [b]) @ t)"
  shows "sublist u t"
proof -
  have "\<not> prefix u (a # w)" for w using assms(1) by (cases u) (auto simp: apart_def)
  then have "sublist u (m @ b # t)" using assms(2) by (simp add: sublist_Cons_right)
  then consider "sublist u (b # t)" | u1 u2 where "u = u1 @ u2" "prefix u2 (b # t)" "suffix u1 m"
    using assms(1) by (auto simp: sublist_append apart_def)
  then show ?thesis
  proof cases
    case 1
    have "\<not> prefix u (b # t)" using assms(1) by (cases u) (auto simp: apart_def)
    then show ?thesis using 1 by (simp add: sublist_Cons_right)
  next
    case 2
    have "u2 = []" using 2(1,2) assms(1) by (cases u2) (auto simp: apart_def)
    then have "sublist u m" using 2(1,3) by simp
    then show ?thesis using assms(1) by (simp add: apart_def)
  qed
qed

lemma replaced_stays_clear: "apart a m b u \<Longrightarrow> \<not> sublist u s \<Longrightarrow> \<not> sublist u (replace_all v (a # m @ [b]) s)"
proof (induction v "a # m @ [b]" s rule: replace_all.induct)
  case (2 v c cs)
  show ?case
  proof (cases "v \<noteq> [] \<and> prefix v (c # cs)")
    case True
    have "\<not> sublist u (drop (length v) (c # cs))" 
    proof
      assume "sublist u (drop (length v) (c # cs))"
      then have "sublist u (take (length v) (c # cs) @ drop (length v) (c # cs))" unfolding sublist_append by blast
      then show False using 2(4) unfolding append_take_drop_id by blast
    qed
    then have "\<not> sublist u (replace_all v (a # m @ [b]) (drop (length v) (c # cs)))" using 2(1) [OF True 2(3)] by blast
    then show ?thesis unfolding replace_step(1) [OF True] using sublist_beyond [OF 2(3)] by blast
  next
    case False
    have c: "\<not> sublist u cs" "\<not> prefix u (c # cs)" using 2(4) by (auto simp: sublist_Cons_right)
    have "a \<notin> set u" using 2(3) by (simp add: apart_def)
    then have "\<not> prefix u (c # replace_all v (a # m @ [b]) cs)"
      using replaced_prefix c(2) unfolding replace_step(2) [OF False, symmetric] by blast
    then show ?thesis using 2(2) [OF False 2(3) c(1)] unfolding replace_step(2) [OF False] sublist_Cons_right by blast
  qed
qed simp

lemma replaced_is_clear: "apart a m b v \<Longrightarrow> \<not> sublist v (replace_all v (a # m @ [b]) s)"
proof (induction v "a # m @ [b]" s rule: replace_all.induct)
  case (1 v)
  then show ?case by (simp add: apart_def)
next
  case (2 v c cs)
  show ?case
  proof (cases "v \<noteq> [] \<and> prefix v (c # cs)")
    case True
    then show ?thesis unfolding replace_step(1) [OF True] using 2(1) [OF True 2(3)] sublist_beyond [OF 2(3)] by blast
  next
    case False
    then have "\<not> prefix v (c # cs)" using 2(3) by (simp add: apart_def)
    moreover have "a \<notin> set v" using 2(3) by (simp add: apart_def)
    ultimately have "\<not> prefix v (c # replace_all v (a # m @ [b]) cs)"
      using replaced_prefix unfolding replace_step(2) [OF False, symmetric] by blast
    then show ?thesis using 2(2) [OF False 2(3)] unfolding replace_step(2) [OF False] sublist_Cons_right by blast
  qed
qed

lemma redacted_apart: "unbracketed v \<longleftrightarrow> apart CHR ''['' ''redacted'' CHR '']'' v" "redacted = CHR ''['' # ''redacted'' @ [CHR '']'']"
  by (simp_all only: unbracketed_def apart_def redacted_def append.simps)

lemma secrets_stay_clear: "unbracketed u \<Longrightarrow> \<not> sublist u s \<Longrightarrow> \<not> sublist u (secrets_apply vs s)"
  unfolding secrets_apply_def redacted_apart
proof (induction vs arbitrary: s)
  case (Cons v vs)
  show ?case using Cons.IH [OF Cons.prems(1) replaced_stays_clear [OF Cons.prems]] by simp
qed simp



text \<open>
  What is registered is the pair as it stands in the file. A URL that carries the two halves as parameters is not
  touched.
\<close>

lemma halves_of_a_credential_get_out:
  "secrets_apply [''joe:pw''] ''https://x/api?ssid=joe&sspassword=pw'' = ''https://x/api?ssid=joe&sspassword=pw''"
  by code_simp

text \<open>A request that is refused because the slot is taken wipes the record of the last success.\<close>

lemma refused_start_forgets_the_last_success:
  "driver_configured d \<Longrightarrow> \<not> sj_running s \<Longrightarrow> start_scrape detail d w tm keys start_at True s st = ((Some StartBusy, []), s1, st) \<Longrightarrow>
    sj_last_ok s1 = None"
  by (auto simp: start_scrape_def Let_def)

end
