(* ===== verification/Jobs.thy ===== *)
theory Jobs
  imports Prelude
begin

text \<open>
  internal/pipeline/pipeline.go of pkgs/arcade-webapp and the way its three clients use it: the verify batch
  (igir/runner.go), the scrape batch (scrape/scrape.go) and the generator (generate/generate.go). Each takes two
  locks, its own running flag and the shared slot, in its own order and gives them back in its own order. A request
  is a thread that takes one atomic step at a time; the work itself is one step.
\<close>

datatype job = Verify | Scrape | Generate

text \<open>
  Where a thread is: it wants to start, has its own flag, has the slot, has both, must give back one of them after a
  refusal, has given back one of them after the work, or has ended, refused or not.
\<close>

datatype phase = Want | Claimed | Slotted | Working | GiveBack | Leaving | Ended bool

record jobs =
  jb_slot :: bool
  jb_running :: "job \<Rightarrow> bool"
  jb_threads :: "(job \<times> phase) list"

definition idle_jobs :: jobs where
  "idle_jobs = \<lparr>jb_slot = False, jb_running = (\<lambda>_. False), jb_threads = []\<rparr>"

text \<open>\<open>TryAcquire\<close>, \<open>Release\<close>, and the flag of a runner.\<close>

definition try_acquire :: "jobs \<Rightarrow> bool \<times> jobs" where
  "try_acquire s = (if jb_slot s then (False, s) else (True, s\<lparr>jb_slot := True\<rparr>))"

definition release_slot :: "jobs \<Rightarrow> jobs" where
  "release_slot s = s\<lparr>jb_slot := False\<rparr>"

definition set_running :: "job \<Rightarrow> bool \<Rightarrow> jobs \<Rightarrow> jobs" where
  "set_running j b s = s\<lparr>jb_running := (jb_running s)(j := b)\<rparr>"

definition try_claim :: "job \<Rightarrow> jobs \<Rightarrow> bool \<times> jobs" where
  "try_claim j s = (if jb_running s j then (False, s) else (True, set_running j True s))"

text \<open>The verify batch: the slot first, then the flag; the flag is given back first.\<close>

definition verify_step :: "phase \<Rightarrow> jobs \<Rightarrow> phase \<times> jobs" where
  "verify_step p s = (case p of
      Want \<Rightarrow> (case try_acquire s of (True, s1) \<Rightarrow> (Slotted, s1) | (False, s1) \<Rightarrow> (Ended False, s1))
    | Slotted \<Rightarrow> (case try_claim Verify s of (True, s1) \<Rightarrow> (Working, s1) | (False, s1) \<Rightarrow> (GiveBack, s1))
    | GiveBack \<Rightarrow> (Ended False, release_slot s)
    | Working \<Rightarrow> (Leaving, set_running Verify False s)
    | Leaving \<Rightarrow> (Ended True, release_slot s)
    | _ \<Rightarrow> (p, s))"

text \<open>The scrape batch: the flag first, then the slot; the flag is given back first.\<close>

definition scrape_step :: "phase \<Rightarrow> jobs \<Rightarrow> phase \<times> jobs" where
  "scrape_step p s = (case p of
      Want \<Rightarrow> (case try_claim Scrape s of (True, s1) \<Rightarrow> (Claimed, s1) | (False, s1) \<Rightarrow> (Ended False, s1))
    | Claimed \<Rightarrow> (case try_acquire s of (True, s1) \<Rightarrow> (Working, s1) | (False, s1) \<Rightarrow> (GiveBack, s1))
    | GiveBack \<Rightarrow> (Ended False, set_running Scrape False s)
    | Working \<Rightarrow> (Leaving, set_running Scrape False s)
    | Leaving \<Rightarrow> (Ended True, release_slot s)
    | _ \<Rightarrow> (p, s))"

text \<open>The generator: the flag first, then the slot; the slot is given back first.\<close>

definition generate_step :: "phase \<Rightarrow> jobs \<Rightarrow> phase \<times> jobs" where
  "generate_step p s = (case p of
      Want \<Rightarrow> (case try_claim Generate s of (True, s1) \<Rightarrow> (Claimed, s1) | (False, s1) \<Rightarrow> (Ended False, s1))
    | Claimed \<Rightarrow> (case try_acquire s of (True, s1) \<Rightarrow> (Working, s1) | (False, s1) \<Rightarrow> (GiveBack, s1))
    | GiveBack \<Rightarrow> (Ended False, set_running Generate False s)
    | Working \<Rightarrow> (Leaving, release_slot s)
    | Leaving \<Rightarrow> (Ended True, set_running Generate False s)
    | _ \<Rightarrow> (p, s))"

definition job_step :: "job \<Rightarrow> phase \<Rightarrow> jobs \<Rightarrow> phase \<times> jobs" where
  "job_step j p s = (case j of Verify \<Rightarrow> verify_step p s | Scrape \<Rightarrow> scrape_step p s | Generate \<Rightarrow> generate_step p s)"

text \<open>A new request arrives, or a thread takes its next step.\<close>

datatype job_move = Arrive job | Run nat

definition run_thread :: "nat \<Rightarrow> jobs \<Rightarrow> jobs" where
  "run_thread i s = (if i < length (jb_threads s)
     then (let (j, p) = jb_threads s ! i; (p1, s1) = job_step j p s in s1\<lparr>jb_threads := (jb_threads s1)[i := (j, p1)]\<rparr>)
     else s)"

fun move :: "job_move \<Rightarrow> jobs \<Rightarrow> jobs" where
  "move (Arrive j) s = s\<lparr>jb_threads := jb_threads s @ [(j, Want)]\<rparr>"
| "move (Run i) s = run_thread i s"

section \<open>Who holds what\<close>

fun holds_slot :: "job \<times> phase \<Rightarrow> bool" where
  "holds_slot (j, p) = (p = Slotted \<or> p = Working \<or> j = Verify \<and> p = GiveBack \<or> j \<noteq> Generate \<and> p = Leaving)"

fun holds_flag :: "job \<times> phase \<Rightarrow> bool" where
  "holds_flag (j, p) = (p = Claimed \<or> p = Working \<or> j \<noteq> Verify \<and> p = GiveBack \<or> j = Generate \<and> p = Leaving)"

text \<open>The phases that a job can be in, and the locks as the counts of their holders.\<close>

fun possible :: "job \<times> phase \<Rightarrow> bool" where
  "possible (j, p) = ((j = Verify \<longrightarrow> p \<noteq> Claimed) \<and> (j \<noteq> Verify \<longrightarrow> p \<noteq> Slotted))"

definition holders :: "jobs \<Rightarrow> nat" where
  "holders s = length (filter holds_slot (jb_threads s))"

definition claimers :: "job \<Rightarrow> jobs \<Rightarrow> nat" where
  "claimers j s = length (filter (\<lambda>t. fst t = j \<and> holds_flag t) (jb_threads s))"

definition balanced :: "jobs \<Rightarrow> bool" where
  "balanced s \<longleftrightarrow> list_all possible (jb_threads s) \<and> holders s = (if jb_slot s then 1 else 0) \<and>
     (\<forall>j. claimers j s = (if jb_running s j then 1 else 0))"

lemma length_filter_implies: "(\<And>x. P x \<Longrightarrow> Q x) \<Longrightarrow> length (filter P xs) \<le> length (filter Q xs)"
  by (induction xs) (auto simp: le_SucI)

lemma filter_member: "i < length xs \<Longrightarrow> P (xs ! i) \<Longrightarrow> 0 < length (filter P xs)"
  by (metis filter_empty_conv length_greater_0_conv nth_mem)

lemma job_step_threads [simp]: "jb_threads (snd (job_step j p s)) = jb_threads s"
  by (auto simp: job_step_def verify_step_def scrape_step_def generate_step_def try_acquire_def try_claim_def release_slot_def
      set_running_def split: job.split phase.split)

text \<open>One step of a thread changes each lock by what the thread gains or gives back.\<close>

lemma job_step_balance:
  assumes "job_step j p s = (p1, s1)" "possible (j, p)" "holds_slot (j, p) \<longrightarrow> jb_slot s" "holds_flag (j, p) \<longrightarrow> jb_running s j"
  shows "possible (j, p1)"
    "(if jb_slot s1 then 1 else 0) + (if holds_slot (j, p) then 1 else 0) = (if jb_slot s then 1 else 0) + (if holds_slot (j, p1) then 1 else (0::nat))"
    "(if jb_running s1 j then 1 else 0) + (if holds_flag (j, p) then 1 else 0) = (if jb_running s j then 1 else 0) + (if holds_flag (j, p1) then 1 else (0::nat))"
    "k \<noteq> j \<Longrightarrow> jb_running s1 k = jb_running s k"
  using assms
  by (cases j; cases p; auto simp: job_step_def verify_step_def scrape_step_def generate_step_def try_acquire_def try_claim_def
      release_slot_def set_running_def split: if_splits)+

lemma run_thread_balanced:
  assumes "balanced s"
  shows "balanced (run_thread i s)"
proof (cases "i < length (jb_threads s)")
  case True
  obtain j p where t: "jb_threads s ! i = (j, p)" by fastforce
  obtain p1 s1 where st: "job_step j p s = (p1, s1)" by fastforce
  have s1: "jb_threads s1 = jb_threads s" using job_step_threads [of j p s] st by simp
  have r: "run_thread i s = s1\<lparr>jb_threads := (jb_threads s)[i := (j, p1)]\<rparr>" using True t st s1 by (simp add: run_thread_def)
  have pos: "possible (j, p)" using assms True t by (metis balanced_def list_all_length)
  have slot: "holds_slot (j, p) \<longrightarrow> jb_slot s"
    using filter_member [OF True, of holds_slot] t assms by (auto simp: balanced_def holders_def split: if_splits)
  have flag: "holds_flag (j, p) \<longrightarrow> jb_running s j"
  proof
    assume "holds_flag (j, p)"
    then have "0 < claimers j s" using filter_member [OF True, of "\<lambda>t. fst t = j \<and> holds_flag t"] t by (simp add: claimers_def)
    then show "jb_running s j" using assms by (auto simp: balanced_def split: if_splits)
  qed
  note b = job_step_balance [OF st pos slot flag]
  have "list_all possible (jb_threads (run_thread i s))"
    using assms b(1) unfolding r balanced_def by (auto simp: list_all_iff dest!: set_update_subset_insert [THEN subsetD])
  moreover have "holders (run_thread i s) = (if jb_slot s1 then 1 else 0)"
    using length_filter_update [OF True, of holds_slot "(j, p1)"] b(2) assms unfolding r
    by (simp add: holders_def t balanced_def del: holds_slot.simps split: if_splits)
  moreover have "claimers k (run_thread i s) = (if jb_running s1 k then 1 else 0)" for k
    using length_filter_update [OF True, of "\<lambda>t. fst t = k \<and> holds_flag t" "(j, p1)"] b(3,4) assms unfolding r
    by (cases "k = j") (simp_all add: claimers_def t balanced_def del: holds_flag.simps split: if_splits)
  ultimately show ?thesis unfolding r by (simp add: balanced_def)
qed (use assms in \<open>simp add: run_thread_def\<close>)

lemma move_balanced: "balanced s \<Longrightarrow> balanced (move m s)"
proof (cases m)
  case (Arrive j)
  then show "balanced s \<Longrightarrow> balanced (move m s)" by (simp add: balanced_def holders_def claimers_def)
qed (simp add: run_thread_balanced)

interpretation job_moves: invariant_machine move balanced
  by unfold_locales (rule move_balanced)

text \<open>The refusal inside a verify batch cannot happen: who holds the slot finds the flag free.\<close>

definition orderly :: "jobs \<Rightarrow> bool" where
  "orderly s \<longleftrightarrow> balanced s \<and> (Verify, GiveBack) \<notin> set (jb_threads s)"

lemma two_members:
  assumes "i < length xs" "k < length xs" "i \<noteq> k" "P (xs ! i)" "P (xs ! k)"
  shows "2 \<le> length (filter P xs)"
  using assms
proof (induction xs arbitrary: i k)
  case (Cons x xs)
  show ?case
  proof (cases "i = 0 \<or> k = 0")
    case True
    then have "P x" using Cons.prems by auto
    moreover have "0 < length (filter P xs)"
      using Cons.prems True filter_member [of "i - 1" xs P] filter_member [of "k - 1" xs P] by (auto simp: nth_Cons' split: if_splits)
    ultimately show ?thesis by (simp add: Suc_leI)
  next
    case False
    then have "2 \<le> length (filter P xs)"
      using Cons.prems by (intro Cons.IH [of "i - 1" "k - 1"]) (auto simp: nth_Cons')
    then show ?thesis by simp
  qed
qed simp

lemma slotted_finds_the_flag_free:
  assumes "balanced s" "i < length (jb_threads s)" "jb_threads s ! i = (Verify, Slotted)"
  shows "\<not> jb_running s Verify"
proof
  assume "jb_running s Verify"
  then have "claimers Verify s = 1" using assms(1) by (simp add: balanced_def)
  then obtain t where t: "t \<in> set (jb_threads s)" "fst t = Verify" "holds_flag t"
    unfolding claimers_def by (metis (mono_tags, lifting) filter_empty_conv length_0_conv zero_neq_one)
  then have "possible t" using assms(1) by (auto simp: balanced_def list_all_iff)
  then have w: "t = (Verify, Working)" using t by (cases t) auto
  obtain k where k: "k < length (jb_threads s)" "jb_threads s ! k = t" using t(1) by (metis in_set_conv_nth)
  have "2 \<le> holders s"
    unfolding holders_def by (rule two_members [of i _ k]) (use assms(2,3) k w in auto)
  then show False using assms(1) by (auto simp: balanced_def split: if_splits)
qed

lemma move_orderly: "orderly s \<Longrightarrow> orderly (move m s)"
proof (cases m)
  case (Arrive j)
  then show "orderly s \<Longrightarrow> orderly (move m s)" using move_balanced [of s m] by (simp add: orderly_def)
next
  case (Run i)
  assume o: "orderly s"
  have "(Verify, GiveBack) \<notin> set (jb_threads (run_thread i s))"
  proof (cases "i < length (jb_threads s)")
    case True
    obtain j p where t: "jb_threads s ! i = (j, p)" by fastforce
    obtain p1 s1 where st: "job_step j p s = (p1, s1)" by fastforce
    have r: "jb_threads (run_thread i s) = (jb_threads s)[i := (j, p1)]"
      using True t st job_step_threads [of j p s] by (simp add: run_thread_def)
    have "p = Slotted \<Longrightarrow> j = Verify \<Longrightarrow> p1 = Working"
      using slotted_finds_the_flag_free [of s i] o True t st by (auto simp: orderly_def job_step_def verify_step_def try_claim_def)
    moreover have "(j, p) \<noteq> (Verify, GiveBack)" using o True t by (metis orderly_def nth_mem)
    ultimately have "(j, p1) \<noteq> (Verify, GiveBack)"
      using st by (cases p) (auto simp: job_step_def verify_step_def try_acquire_def try_claim_def split: if_splits)
    then show ?thesis using o unfolding r by (auto simp: orderly_def dest!: set_update_subset_insert [THEN subsetD])
  qed (use o in \<open>simp add: orderly_def run_thread_def\<close>)
  then show ?thesis using o run_thread_balanced Run by (simp add: orderly_def)
qed

interpretation orderly_moves: invariant_machine move orderly
  by unfold_locales (rule move_orderly)

lemma idle_orderly: "orderly idle_jobs"
  by (simp add: orderly_def balanced_def idle_jobs_def holders_def claimers_def)

text \<open>
  C26: Whatever requests arrive and however their steps interleave, at most one of verify, scrape and
  generate is at work, a lock is held exactly while one thread holds it, and the refusal inside a verify
  batch never happens.
\<close>

theorem heavy_jobs_never_overlap:
  fixes ms
  defines "s \<equiv> fold move ms idle_jobs"
  shows "length (filter (\<lambda>t. snd t = Working) (jb_threads s)) \<le> 1 \<and> (Verify, GiveBack) \<notin> set (jb_threads s) \<and>
    (jb_slot s \<longleftrightarrow> (\<exists>t\<in>set (jb_threads s). holds_slot t)) \<and>
    (\<forall>j. jb_running s j \<longleftrightarrow> (\<exists>t\<in>set (jb_threads s). fst t = j \<and> holds_flag t))"
proof -
  have o: "orderly s" unfolding s_def by (rule orderly_moves.run_keeps [OF idle_orderly])
  have "length (filter (\<lambda>t. snd t = Working) (jb_threads s)) \<le> length (filter holds_slot (jb_threads s))"
    by (rule length_filter_implies) auto
  then have "length (filter (\<lambda>t. snd t = Working) (jb_threads s)) \<le> 1"
    using o by (auto simp: orderly_def balanced_def holders_def split: if_splits)
  moreover have "jb_slot s \<longleftrightarrow> filter holds_slot (jb_threads s) \<noteq> []"
    using o by (auto simp: orderly_def balanced_def holders_def split: if_splits)
  moreover have "jb_running s j \<longleftrightarrow> filter (\<lambda>t. fst t = j \<and> holds_flag t) (jb_threads s) \<noteq> []" for j
    using o by (auto simp: orderly_def balanced_def claimers_def split: if_splits dest: spec [of _ j])
  ultimately show ?thesis using o by (auto simp: orderly_def filter_empty_conv)
qed

section \<open>Every job ends, and the slot comes back\<close>

fun steps_left :: "phase \<Rightarrow> nat" where
  "steps_left Want = 4"
| "steps_left Claimed = 3"
| "steps_left Slotted = 3"
| "steps_left Working = 2"
| "steps_left GiveBack = 1"
| "steps_left Leaving = 1"
| "steps_left (Ended b) = 0"

lemma job_step_left: "possible (j, p) \<Longrightarrow> steps_left (fst (job_step j p s)) \<le> steps_left p - 1"
  by (cases j; cases p; auto simp: job_step_def verify_step_def scrape_step_def generate_step_def try_acquire_def try_claim_def)

definition left_of :: "nat \<Rightarrow> jobs \<Rightarrow> nat" where
  "left_of i s = steps_left (snd (jb_threads s ! i))"

lemma run_thread_length [simp]: "length (jb_threads (run_thread i s)) = length (jb_threads s)"
proof (cases "jb_threads s ! i")
  case (Pair j p)
  obtain p1 s1 where "job_step j p s = (p1, s1)" by fastforce
  then show ?thesis using Pair job_step_threads [of j p s] by (simp add: run_thread_def)
qed

lemma run_thread_left:
  assumes "balanced s" "i < length (jb_threads s)"
  shows "left_of i (run_thread k s) \<le> left_of i s - (if i = k then 1 else 0)"
proof (cases "k < length (jb_threads s)")
  case True
  obtain j p where t: "jb_threads s ! k = (j, p)" by fastforce
  obtain p1 s1 where st: "job_step j p s = (p1, s1)" by fastforce
  have r: "jb_threads (run_thread k s) = (jb_threads s)[k := (j, p1)]"
    using True t st job_step_threads [of j p s] by (simp add: run_thread_def)
  have "possible (j, p)" using assms(1) True t by (metis balanced_def list_all_length)
  then show ?thesis using job_step_left [of j p s] st t assms(2) by (auto simp: left_of_def r nth_list_update)
qed (use assms(2) in \<open>auto simp: run_thread_def\<close>)

lemma schedule_left:
  assumes "balanced s" "i < length (jb_threads s)"
  shows "left_of i (fold run_thread sched s) \<le> left_of i s - count_list sched i"
  using assms
proof (induction sched arbitrary: s)
  case (Cons k sched)
  have "left_of i (fold run_thread (k # sched) s) \<le> left_of i (run_thread k s) - count_list sched i"
    using Cons.IH [of "run_thread k s"] Cons.prems run_thread_balanced by simp
  then show ?case using run_thread_left [OF Cons.prems, of k] by (auto split: if_splits)
qed simp

lemma fold_run_keeps: "balanced s \<Longrightarrow> balanced (fold run_thread sched s) \<and> length (jb_threads (fold run_thread sched s)) = length (jb_threads s)"
  by (induction sched arbitrary: s) (simp_all add: run_thread_balanced)

lemma steps_left_0: "steps_left p = 0 \<longleftrightarrow> (\<exists>b. p = Ended b)"
  by (cases p) auto

text \<open>
  C27: From every reachable state, once each thread has been scheduled four more times, all have ended,
  the slot and all flags are free, and a new request of any kind gets to work in two steps.
\<close>

theorem every_job_gives_the_slot_back:
  assumes "s = fold move ms idle_jobs" "s' = fold run_thread sched s"
    "\<And>i. i < length (jb_threads s) \<Longrightarrow> 4 \<le> count_list sched i"
  shows "(\<forall>t\<in>set (jb_threads s'). \<exists>b. snd t = Ended b) \<and> \<not> jb_slot s' \<and> (\<forall>j. \<not> jb_running s' j) \<and>
    (\<forall>j. last (jb_threads (fold move [Arrive j, Run (length (jb_threads s')), Run (length (jb_threads s'))] s')) = (j, Working))"
proof -
  have b: "balanced s" unfolding assms(1) using orderly_moves.run_keeps [OF idle_orderly] by (simp add: orderly_def)
  then have b': "balanced s'" "length (jb_threads s') = length (jb_threads s)"
    unfolding assms(2) using fold_run_keeps by blast+
  have "left_of i s' = 0" if "i < length (jb_threads s)" for i
  proof -
    have "left_of i s \<le> 4" unfolding left_of_def by (cases "snd (jb_threads s ! i)") auto
    then show ?thesis using schedule_left [OF b that, of sched] assms(3) [OF that] unfolding assms(2) by simp
  qed
  then have ended: "\<forall>t\<in>set (jb_threads s'). \<exists>b. snd t = Ended b"
    using b'(2) unfolding left_of_def steps_left_0 by (metis in_set_conv_nth)
  then have "filter holds_slot (jb_threads s') = []" "filter (\<lambda>t. fst t = j \<and> holds_flag t) (jb_threads s') = []" for j
    by (auto simp: filter_empty_conv)
  then have free: "\<not> jb_slot s'" "\<not> jb_running s' j" for j
    using b'(1) by (auto simp: balanced_def holders_def claimers_def split: if_splits)
  have "last (jb_threads (fold move [Arrive j, Run (length (jb_threads s')), Run (length (jb_threads s'))] s')) = (j, Working)" for j
    using free by (cases j) (simp_all add: run_thread_def job_step_def verify_step_def scrape_step_def generate_step_def
        try_acquire_def try_claim_def set_running_def)
  then show ?thesis using ended free by blast
qed

lemma every_job_gives_the_slot_back_witness:
  "\<not> jb_slot (fold run_thread [0, 1, 0, 1, 0, 1, 0, 1] (fold move [Arrive Verify, Arrive Generate, Run 1, Run 0] idle_jobs))"
proof -
  let ?s = "fold move [Arrive Verify, Arrive Generate, Run 1, Run 0] idle_jobs"
  have "length (jb_threads ?s) = 2" by code_simp
  then have "4 \<le> count_list [0, 1, 0, 1, 0, 1, 0, 1] i" if "i < length (jb_threads ?s)" for i
    using that by (auto simp: less_2_cases_iff)
  from every_job_gives_the_slot_back [OF refl refl this] show ?thesis by blast
qed

end
