(* ===== verification/Regen.thy ===== *)
theory Regen
  imports Generate Igir StoreQueries
begin

text \<open>
  internal/web/generate.go of pkgs/arcade-webapp: the coordinator that regenerates the launcher files after
  edits. Every edit raises a flag and offers a wake token to one worker; the worker claims the flag, waits for
  a quiet moment, and generates, or puts the flag back and waits when the slot is taken. Threads take one
  atomic step at a time, an atomic step being what one lock protects. Edits are numbered; a generation is known
  by the last edit its snapshot holds. Not modelled: logging, the sleep between two looks at the clock.
\<close>

section \<open>What a generation is given, and what it reports\<close>

definition for_bucket :: "roots \<Rightarrow> string \<Rightarrow> string" where
  "for_bucket r bucket = (if bucket = ''optical'' then rt_optical r
     else if bucket = ''modern'' then rt_modern r else rt_cartridge r)"

definition visible_collection :: "store \<Rightarrow> collection \<Rightarrow> custom_collection" where
  "visible_collection st c = \<lparr>cc_title = cl_name c, cc_short = cl_short c, cc_summary = cl_summary c,
     cc_members = map (\<lambda>(m, g). (gm_system g, gm_rel g)) (filter (\<lambda>(m, g). \<not> gm_hidden g) (collection_members (cl_id c) st))\<rparr>"

definition generate_options :: "store \<Rightarrow> custom_collection list" where
  "generate_options st = map (\<lambda>(c, n). visible_collection st c) (collections st)"

definition arrow :: string where "arrow = bytes [226, 134, 146]"

definition regen_fail_marker :: "string \<Rightarrow> string" where
  "regen_fail_marker reason = ''the last automatic launcher-DB regeneration failed ('' @ reason @ '') '' @ em_dash @
     '' recent edits may not be on the kiosks yet; the log is on Metadata '' @ arrow @ '' Launcher database.''"

definition regen_alert :: "gen_result \<Rightarrow> string" where
  "regen_alert r = (let failed = length (filter (\<lambda>oc. so_fault oc \<noteq> None) (ge_systems r))
     in if \<not> ge_validated r then regen_fail_marker ''validation refused generated output''
        else if 0 < failed then regen_fail_marker (nat_digits failed @ '' system(s) failed generation'')
        else [])"

definition curation_origin :: string where "curation_origin = ''curation edit''"
definition verify_origin :: string where "verify_origin = ''post-verify promotion''"

text \<open>After a verification: a request, if something was promoted.\<close>

definition after_verify :: "bool \<Rightarrow> bool \<Rightarrow> system_outcome list \<Rightarrow> string option" where
  "after_verify conf failed outcomes = (if failed \<or> \<not> conf then None
     else if list_ex (\<lambda>oc. Igir.so_outcome oc = Verified \<or> Igir.so_outcome oc = PromotedUnchecked) outcomes then Some verify_origin
     else None)"

section \<open>The coordinator\<close>

text \<open>What a request still has to do: start the worker, raise the flag, offer the token.\<close>

datatype request_phase = Starting | Raising | Waking | Served

datatype worker_phase = Unborn | Parked | Checking | Claimed | QuietGate | Collecting | Generating "string list" bool
  | Building nat | Recording gen_result | Requeueing "string list" "bool option" | Deferring "string list"
  | DeferredRow "string list" | EndingPass | Backoff

text \<open>
  \<open>rg_edits\<close> numbers the edits of the store, \<open>rg_tree\<close> is the last edit in the generated files, \<open>rg_manual\<close> a
  manual generation with its snapshot, \<open>rg_results\<close> those of manual generations not yet turned into the marker.
\<close>

record regen =
  rg_dirty :: bool
  rg_token :: bool
  rg_origins :: "string list"
  rg_deferred :: bool
  rg_alert :: string
  rg_last :: instant
  rg_active :: bool
  rg_worker :: worker_phase
  rg_requests :: "(string \<times> request_phase) list"
  rg_edits :: nat
  rg_tree :: nat
  rg_manual :: "nat option"
  rg_results :: "gen_result list"
  rg_rows :: "string list"
  rg_passes :: nat

definition regen_init :: regen where
  "regen_init = \<lparr>rg_dirty = False, rg_token = False, rg_origins = [], rg_deferred = False, rg_alert = [], rg_last = zero_time,
     rg_active = False, rg_worker = Unborn, rg_requests = [], rg_edits = 0, rg_tree = 0, rg_manual = None, rg_results = [],
     rg_rows = [], rg_passes = 0\<rparr>"

definition regen_coalesce_window :: duration where
  "regen_coalesce_window = 100 * millisecond"

definition add_origin :: "string \<Rightarrow> string list \<Rightarrow> string list" where
  "add_origin x xs = (if x \<in> set xs then xs else xs @ [x])"

text \<open>\<open>requestRegeneration\<close>, step by step.\<close>

definition request_step :: "instant \<Rightarrow> string \<Rightarrow> request_phase \<Rightarrow> regen \<Rightarrow> request_phase \<times> regen" where
  "request_step tm x p s = (case p of
      Starting \<Rightarrow> (Raising, if rg_worker s = Unborn then s\<lparr>rg_worker := Parked\<rparr> else s)
    | Raising \<Rightarrow> (Waking, s\<lparr>rg_dirty := True, rg_last := tm, rg_origins := add_origin x (rg_origins s)\<rparr>)
    | Waking \<Rightarrow> (Served, s\<lparr>rg_token := True\<rparr>)
    | Served \<Rightarrow> (Served, s))"

definition run_request :: "instant \<Rightarrow> nat \<Rightarrow> regen \<Rightarrow> regen" where
  "run_request tm i s = (if i < length (rg_requests s)
     then (let (x, p) = rg_requests s ! i; (p1, s1) = request_step tm x p s in s1\<lparr>rg_requests := (rg_requests s1)[i := (x, p1)]\<rparr>)
     else s)"

text \<open>How an attempt to generate goes: the slot is taken, reading the store fails, or a result.\<close>

datatype attempt = SlotTaken | ReadFails | Works gen_result

definition deferral_row :: "string list \<Rightarrow> string" where
  "deferral_row origins = (let d = join_with '' + '' (sort_stable (<) origins)
     in (if d = [] then ''trigger'' else d) @ '' regeneration deferred '' @ em_dash @ '' pipeline busy'')"

text \<open>The worker: \<open>regenWorker\<close> and \<open>drainRegen\<close> with what they call.\<close>

definition worker_step :: "bool \<Rightarrow> instant \<Rightarrow> attempt \<Rightarrow> regen \<Rightarrow> regen" where
  "worker_step conf tm a s = (case rg_worker s of
      Unborn \<Rightarrow> s
    | Parked \<Rightarrow> if rg_token s then s\<lparr>rg_token := False, rg_worker := Checking\<rparr> else s
    | Checking \<Rightarrow> if rg_dirty s then s\<lparr>rg_dirty := False, rg_active := True, rg_worker := Claimed\<rparr> else s\<lparr>rg_worker := Parked\<rparr>
    | Claimed \<Rightarrow> if conf then s\<lparr>rg_worker := QuietGate\<rparr> else s\<lparr>rg_active := False, rg_worker := Parked\<rparr>
    | QuietGate \<Rightarrow> if regen_coalesce_window \<le> tm - rg_last s then s\<lparr>rg_worker := Collecting\<rparr> else s
    | Collecting \<Rightarrow> s\<lparr>rg_worker := Generating (rg_origins s) (rg_deferred s), rg_origins := []\<rparr>
    | Generating xs d \<Rightarrow> (if a = SlotTaken \<or> rg_manual s \<noteq> None then s\<lparr>rg_worker := Requeueing xs (Some d)\<rparr>
         else if a = ReadFails then s\<lparr>rg_worker := Requeueing xs None\<rparr> else s\<lparr>rg_worker := Building (rg_edits s)\<rparr>)
    | Building n \<Rightarrow> (case a of Works r \<Rightarrow> s\<lparr>rg_tree := n, rg_worker := Recording r\<rparr> | _ \<Rightarrow> s)
    | Recording r \<Rightarrow> s\<lparr>rg_deferred := False, rg_alert := regen_alert r, rg_active := False, rg_passes := Suc (rg_passes s),
         rg_worker := Checking\<rparr>
    | Requeueing xs d \<Rightarrow> s\<lparr>rg_dirty := True, rg_origins := fold add_origin xs (rg_origins s),
         rg_worker := if d = Some False then Deferring xs else EndingPass\<rparr>
    | Deferring xs \<Rightarrow> s\<lparr>rg_deferred := True, rg_worker := DeferredRow xs\<rparr>
    | DeferredRow xs \<Rightarrow> s\<lparr>rg_rows := rg_rows s @ [deferral_row xs], rg_worker := EndingPass\<rparr>
    | EndingPass \<Rightarrow> s\<lparr>rg_active := False, rg_worker := Backoff\<rparr>
    | Backoff \<Rightarrow> if rg_token s then s\<lparr>rg_token := False, rg_worker := Checking\<rparr> else s)"

text \<open>The timer of the backoff.\<close>

definition backoff_ends :: "regen \<Rightarrow> regen" where
  "backoff_ends s = (if rg_worker s = Backoff then s\<lparr>rg_worker := Checking\<rparr> else s)"

text \<open>\<open>handleGenerate\<close>: it holds the slot from its snapshot to its result, and sets the marker after that.\<close>

definition is_building :: "worker_phase \<Rightarrow> bool" where
  "is_building p = (case p of Building n \<Rightarrow> True | _ \<Rightarrow> False)"

definition manual_start :: "regen \<Rightarrow> regen" where
  "manual_start s = (if rg_manual s = None \<and> \<not> is_building (rg_worker s) then s\<lparr>rg_manual := Some (rg_edits s)\<rparr> else s)"

definition manual_finish :: "gen_result \<Rightarrow> regen \<Rightarrow> regen" where
  "manual_finish r s = (case rg_manual s of None \<Rightarrow> s
     | Some n \<Rightarrow> s\<lparr>rg_manual := None, rg_tree := n, rg_results := rg_results s @ [r]\<rparr>)"

definition manual_alert :: "nat \<Rightarrow> regen \<Rightarrow> regen" where
  "manual_alert i s = (if i < length (rg_results s)
     then s\<lparr>rg_results := take i (rg_results s) @ drop (Suc i) (rg_results s), rg_alert := regen_alert (rg_results s ! i)\<rparr> else s)"

text \<open>An edit changes the store and then asks for a regeneration.\<close>

datatype regen_move = Edit string | Request instant nat | Worker instant attempt | BackoffEnds
  | ManualStart | ManualFinish gen_result | ManualAlert nat

fun regen_act :: "bool \<Rightarrow> regen_move \<Rightarrow> regen \<Rightarrow> regen" where
  "regen_act conf (Edit x) s = s\<lparr>rg_edits := Suc (rg_edits s), rg_requests := rg_requests s @ [(x, Starting)]\<rparr>"
| "regen_act conf (Request tm i) s = run_request tm i s"
| "regen_act conf (Worker tm a) s = worker_step conf tm a s"
| "regen_act conf BackoffEnds s = backoff_ends s"
| "regen_act conf ManualStart s = manual_start s"
| "regen_act conf (ManualFinish r) s = manual_finish r s"
| "regen_act conf (ManualAlert i) s = manual_alert i s"

section \<open>No edit is lost\<close>

text \<open>An edit is still to be read when its request has not raised the flag, the flag is up, or a pass has claimed it.\<close>

definition before_read :: "worker_phase \<Rightarrow> bool" where
  "before_read p = (case p of Claimed \<Rightarrow> True | QuietGate \<Rightarrow> True | Collecting \<Rightarrow> True | Generating xs d \<Rightarrow> True
     | Requeueing xs d \<Rightarrow> True | _ \<Rightarrow> False)"

definition asking :: "regen \<Rightarrow> bool" where
  "asking s \<longleftrightarrow> (\<exists>x. (x, Starting) \<in> set (rg_requests s) \<or> (x, Raising) \<in> set (rg_requests s))"

definition unread :: "regen \<Rightarrow> bool" where
  "unread s \<longleftrightarrow> asking s \<or> rg_dirty s \<or> before_read (rg_worker s)"

definition covered :: "nat \<Rightarrow> regen \<Rightarrow> bool" where
  "covered n s \<longleftrightarrow> n = rg_edits s \<or> unread s"

text \<open>The flag is never up while the worker sleeps without a token on its way.\<close>

definition awake :: "regen \<Rightarrow> bool" where
  "awake s \<longleftrightarrow> (rg_worker s = Unborn \<longrightarrow> \<not> rg_dirty s \<and> \<not> rg_token s \<and> (\<forall>t\<in>set (rg_requests s). snd t = Starting)) \<and>
     (rg_worker s = Parked \<longrightarrow> rg_dirty s \<longrightarrow> rg_token s \<or> (\<exists>x. (x, Waking) \<in> set (rg_requests s)))"

definition tracked :: "regen \<Rightarrow> bool" where
  "tracked s \<longleftrightarrow> (case rg_worker s of Building n \<Rightarrow> rg_manual s = None \<and> covered n s | _ \<Rightarrow> covered (rg_tree s) s) \<and>
     (case rg_manual s of None \<Rightarrow> True | Some n \<Rightarrow> covered n s)"

text \<open>The pass is marked as active exactly while it is claimed, and rows of deferral are bounded by the passes.\<close>

definition in_pass :: "worker_phase \<Rightarrow> bool" where
  "in_pass p \<longleftrightarrow> p \<notin> {Unborn, Parked, Checking, Backoff}"

definition counted :: "regen \<Rightarrow> bool" where
  "counted s \<longleftrightarrow> rg_active s = in_pass (rg_worker s) \<and>
     length (rg_rows s) + (case rg_worker s of DeferredRow xs \<Rightarrow> 1 | _ \<Rightarrow> 0) \<le> rg_passes s + (if rg_deferred s then 1 else 0) \<and>
     (case rg_worker s of Generating xs d \<Rightarrow> d = rg_deferred s | Requeueing xs (Some d) \<Rightarrow> d = rg_deferred s
        | Deferring xs \<Rightarrow> \<not> rg_deferred s | DeferredRow xs \<Rightarrow> rg_deferred s | _ \<Rightarrow> True)"

definition claims :: "worker_phase \<Rightarrow> nat" where
  "claims p = (case p of Building n \<Rightarrow> 1 | Recording r \<Rightarrow> 1 | _ \<Rightarrow> if before_read p then 1 else 0)"

definition raised :: "regen \<Rightarrow> nat" where
  "raised s = length (filter (\<lambda>t. snd t = Waking \<or> snd t = Served) (rg_requests s))"

definition thrifty :: "regen \<Rightarrow> bool" where
  "thrifty s \<longleftrightarrow> rg_passes s + claims (rg_worker s) + (if rg_dirty s then 1 else 0) \<le> raised s"

lemma asking_Edit: "asking (s\<lparr>rg_requests := rg_requests s @ [(x, Starting)]\<rparr>)"
  by (auto simp: asking_def)

definition regen_ok :: "regen \<Rightarrow> bool" where
  "regen_ok s \<longleftrightarrow> awake s \<and> tracked s \<and> counted s \<and> thrifty s"

lemma regen_init_ok: "regen_ok regen_init"
  by (simp add: regen_ok_def regen_init_def awake_def tracked_def counted_def thrifty_def covered_def in_pass_def claims_def
      before_read_def raised_def)

lemma edit_ok:
  assumes "regen_ok s"
  shows "regen_ok (regen_act conf (Edit x) s)"
proof -
  define s' where "s' = s\<lparr>rg_edits := Suc (rg_edits s), rg_requests := rg_requests s @ [(x, Starting)]\<rparr>"
  have "unread s'" by (auto simp: unread_def asking_def s'_def)
  then have "covered n s'" for n by (simp add: covered_def)
  then have "tracked s'" using assms by (auto simp: regen_ok_def tracked_def s'_def split: worker_phase.splits option.splits)
  moreover have "awake s'" using assms by (auto simp: regen_ok_def awake_def s'_def)
  moreover have "counted s'" using assms by (cases "rg_worker s") (auto simp: regen_ok_def counted_def s'_def split: option.splits)
  moreover have "thrifty s'" using assms by (simp add: regen_ok_def thrifty_def raised_def s'_def)
  ultimately show ?thesis by (simp add: regen_ok_def s'_def)
qed

lemma worker_awake: "awake s \<Longrightarrow> awake (worker_step True tm a s)"
  by (cases "rg_worker s"; cases a) (auto simp: worker_step_def awake_def)

lemma worker_tracked: "tracked s \<Longrightarrow> tracked (worker_step True tm a s)"
  by (cases "rg_worker s"; cases a)
    (auto simp: worker_step_def tracked_def covered_def unread_def asking_def before_read_def split: option.splits)

lemma worker_counted: "counted s \<Longrightarrow> counted (worker_step True tm a s)"
  by (cases "rg_worker s"; cases a) (auto simp: worker_step_def counted_def in_pass_def split: option.splits if_splits)

lemma worker_thrifty: "thrifty s \<Longrightarrow> thrifty (worker_step True tm a s)"
  by (cases "rg_worker s"; cases a) (auto simp: worker_step_def thrifty_def claims_def raised_def before_read_def)

lemma worker_ok: "regen_ok s \<Longrightarrow> regen_ok (worker_step True tm a s)"
  by (simp add: regen_ok_def worker_awake worker_tracked worker_counted worker_thrifty)

lemma set_update_other: "i < length xs \<Longrightarrow> x \<in> set xs \<Longrightarrow> x \<noteq> xs ! i \<Longrightarrow> x \<in> set (xs[i := y])"
  by (metis in_set_conv_nth length_list_update nth_list_update_neq)

lemma request_ok:
  assumes "regen_ok s"
  shows "regen_ok (run_request tm i s)"
proof (cases "i < length (rg_requests s)")
  case True
  obtain x p where t: "rg_requests s ! i = (x, p)" by fastforce
  obtain p1 s1 where st: "request_step tm x p s = (p1, s1)" by fastforce
  define s' where "s' = run_request tm i s"
  have req: "rg_requests s1 = rg_requests s" using st by (auto simp: request_step_def split: request_phase.splits if_splits)
  have s': "s' = s1\<lparr>rg_requests := (rg_requests s)[i := (x, p1)]\<rparr>" using True t st req by (simp add: s'_def run_request_def)
  have mem: "(x, p) \<in> set (rg_requests s)" using True t nth_mem by fastforce
  have new: "(x, p1) \<in> set (rg_requests s')" using True by (simp add: s' set_update_memI)
  have old: "t \<in> set (rg_requests s')" if "t \<in> set (rg_requests s)" "t \<noteq> (x, p)" for t
    using set_update_other [OF True that(1), of "(x, p1)"] that(2) t by (simp add: s')
  have sub: "t \<in> set (rg_requests s) \<or> t = (x, p1)" if "t \<in> set (rg_requests s')" for t
    using that set_update_subset_insert [of "rg_requests s" i] by (auto simp: s')
  have cnt: "raised s' + (if p = Waking \<or> p = Served then 1 else 0) = raised s + (if p1 = Waking \<or> p1 = Served then 1 else 0)"
    using length_filter_update [OF True, of "\<lambda>t. snd t = Waking \<or> snd t = Served" "(x, p1)"] by (simp add: raised_def s' t)
  have ask: "asking s' \<or> rg_dirty s'" if "asking s"
  proof (cases p)
    case Starting
    then show ?thesis using st new by (auto simp: request_step_def asking_def)
  next
    case Raising
    then show ?thesis using st by (auto simp: request_step_def s')
  qed (use that old in \<open>auto simp: asking_def\<close>)
  show ?thesis unfolding s'_def [symmetric]
  proof (cases p)
    case Starting
    then have f: "p1 = Raising" "s1 = (if rg_worker s = Unborn then s\<lparr>rg_worker := Parked\<rparr> else s)" using st by (auto simp: request_step_def)
    have "unread s'" using new f(1) by (auto simp: unread_def asking_def)
    then have "tracked s'" using assms by (auto simp: regen_ok_def tracked_def covered_def s' f split: worker_phase.splits option.splits)
    moreover have "awake s'" using assms sub old Starting f
      by (auto simp: regen_ok_def awake_def s') (metis old request_phase.distinct(3) snd_conv)+
    moreover have "counted s'" using assms by (auto simp: regen_ok_def counted_def s' f in_pass_def split: worker_phase.splits option.splits)
    moreover have "thrifty s'"
    proof (cases "rg_worker s = Unborn")
      case True
      then show ?thesis using assms cnt Starting f by (auto simp: regen_ok_def thrifty_def s' claims_def before_read_def)
    qed (use assms cnt Starting f in \<open>auto simp: regen_ok_def thrifty_def s'\<close>)
    ultimately show "regen_ok s'" by (simp add: regen_ok_def)
  next
    case Raising
    then have f: "p1 = Waking" "s1 = s\<lparr>rg_dirty := True, rg_last := tm, rg_origins := add_origin x (rg_origins s)\<rparr>"
      using st by (auto simp: request_step_def)
    have "unread s'" by (simp add: unread_def s' f)
    then have "tracked s'" using assms by (auto simp: regen_ok_def tracked_def covered_def s' f split: worker_phase.splits option.splits)
    moreover have "awake s'" using assms new mem f Raising by (fastforce simp: regen_ok_def awake_def s')
    moreover have "counted s'" using assms by (auto simp: regen_ok_def counted_def s' f split: worker_phase.splits option.splits)
    moreover have "thrifty s'" using assms cnt Raising f by (auto simp: regen_ok_def thrifty_def s' split: if_splits)
    ultimately show "regen_ok s'" by (simp add: regen_ok_def)
  next
    case Waking
    then have f: "p1 = Served" "s1 = s\<lparr>rg_token := True\<rparr>" using st by (auto simp: request_step_def)
    have u: "unread s \<Longrightarrow> unread s'" using ask by (auto simp: unread_def s' f)
    then have "tracked s'" using assms by (auto simp: regen_ok_def tracked_def covered_def s' f split: worker_phase.splits option.splits)
    moreover have "awake s'" using assms mem f Waking by (fastforce simp: regen_ok_def awake_def s')
    moreover have "counted s'" using assms by (auto simp: regen_ok_def counted_def s' f split: worker_phase.splits option.splits)
    moreover have "thrifty s'" using assms cnt Waking f by (auto simp: regen_ok_def thrifty_def s')
    ultimately show "regen_ok s'" by (simp add: regen_ok_def)
  next
    case Served
    then have "p1 = p" "s1 = s" using st by (auto simp: request_step_def)
    then have "s' = s" using t by (simp add: s' list_update_same_conv [OF True])
    then show "regen_ok s'" using assms by simp
  qed
qed (use assms in \<open>simp add: run_request_def\<close>)

lemma backoff_ok: "regen_ok s \<Longrightarrow> regen_ok (backoff_ends s)"
  by (auto simp: backoff_ends_def regen_ok_def awake_def tracked_def counted_def thrifty_def covered_def unread_def asking_def
      raised_def in_pass_def claims_def before_read_def split: option.splits)

text \<open>The manual button touches neither the flag nor the worker.\<close>

lemma manual_shape:
  assumes "s' \<in> {manual_start s, manual_finish r s, manual_alert i s}"
  shows "\<exists>a b c d. s' = s\<lparr>rg_manual := a, rg_tree := b, rg_results := c, rg_alert := d\<rparr>"
proof -
  have e: "s = s\<lparr>rg_manual := rg_manual s, rg_tree := rg_tree s, rg_results := rg_results s, rg_alert := rg_alert s\<rparr>" by simp
  consider "s' = manual_start s" | "s' = manual_finish r s" | "s' = manual_alert i s" using assms by auto
  then show ?thesis
  proof cases
    case 1
    then have "s' = s\<lparr>rg_manual := rg_manual s', rg_tree := rg_tree s, rg_results := rg_results s, rg_alert := rg_alert s\<rparr>"
      by (simp add: manual_start_def)
    then show ?thesis by blast
  next
    case 2
    then have "s' = s\<lparr>rg_manual := rg_manual s', rg_tree := rg_tree s', rg_results := rg_results s', rg_alert := rg_alert s\<rparr>"
      by (cases "rg_manual s") (simp_all add: manual_finish_def)
    then show ?thesis by blast
  next
    case 3
    then have "s' = s\<lparr>rg_manual := rg_manual s, rg_tree := rg_tree s, rg_results := rg_results s', rg_alert := rg_alert s'\<rparr>"
      by (simp add: manual_alert_def)
    then show ?thesis by blast
  qed
qed

lemma manual_other:
  assumes "s' \<in> {manual_start s, manual_finish r s, manual_alert i s}"
  shows "awake s' = awake s" "counted s' = counted s" "thrifty s' = thrifty s"
    "unread s' = unread s" "rg_edits s' = rg_edits s" "rg_worker s' = rg_worker s"
proof -
  obtain a b c d where s': "s' = s\<lparr>rg_manual := a, rg_tree := b, rg_results := c, rg_alert := d\<rparr>"
    using manual_shape [OF assms] by blast
  show "awake s' = awake s" "thrifty s' = thrifty s" "unread s' = unread s" "rg_edits s' = rg_edits s" "rg_worker s' = rg_worker s"
    by (simp_all add: s' awake_def thrifty_def raised_def unread_def asking_def)
  show "counted s' = counted s" by (cases "rg_worker s") (simp_all add: s' counted_def)
qed

lemma manual_tracked:
  assumes "tracked s" "s' \<in> {manual_start s, manual_finish r s, manual_alert i s}"
  shows "tracked s'"
proof -
  have c: "covered n s' = covered n s" for n using manual_other [OF assms(2)] by (simp add: covered_def)
  have e: "covered (rg_edits s) s" by (simp add: covered_def)
  show ?thesis
    using assms e manual_other(6) [OF assms(2)] unfolding tracked_def c
    by (cases "rg_worker s") (auto simp: manual_start_def manual_finish_def manual_alert_def is_building_def split: option.splits if_splits)
qed

lemma manual_ok: "regen_ok s \<Longrightarrow> s' \<in> {manual_start s, manual_finish r s, manual_alert i s} \<Longrightarrow> regen_ok s'"
  using manual_other [of s' s r i] manual_tracked [of s s' r i] by (simp add: regen_ok_def)

lemma act_ok: "regen_ok s \<Longrightarrow> regen_ok (regen_act True m s)"
proof (cases m)
  case (Edit x)
  then show "regen_ok s \<Longrightarrow> regen_ok (regen_act True m s)" using edit_ok by simp
qed (auto simp: worker_ok request_ok backoff_ok intro: manual_ok)

interpretation regen_moves: invariant_machine "regen_act True" regen_ok
  by unfold_locales (rule act_ok)

section \<open>Every edit reaches the files\<close>

text \<open>How many steps the worker is from sleep when nobody disturbs it.\<close>

definition worker_rank :: "worker_phase \<Rightarrow> nat" where
  "worker_rank p = (case p of Unborn \<Rightarrow> 0 | Parked \<Rightarrow> 0 | Checking \<Rightarrow> 1 | Claimed \<Rightarrow> 9 | QuietGate \<Rightarrow> 8 | Collecting \<Rightarrow> 7
     | Generating xs d \<Rightarrow> 6 | Building n \<Rightarrow> 5 | Recording r \<Rightarrow> 4 | Requeueing xs d \<Rightarrow> 17 | Deferring xs \<Rightarrow> 5
     | DeferredRow xs \<Rightarrow> 4 | EndingPass \<Rightarrow> 3 | Backoff \<Rightarrow> 2)"

definition regen_rank :: "regen \<Rightarrow> nat" where
  "regen_rank s = worker_rank (rg_worker s) + (if rg_dirty s then 10 else 0) + (if rg_token s then 2 else 0)"

definition undisturbed :: "regen \<Rightarrow> bool" where
  "undisturbed s \<longleftrightarrow> rg_manual s = None \<and> (\<forall>t\<in>set (rg_requests s). snd t = Served)"

definition regen_turn :: "instant \<times> gen_result \<Rightarrow> regen \<Rightarrow> regen" where
  "regen_turn w s = regen_act True (Worker (fst w) (Works (snd w))) (regen_act True BackoffEnds s)"

definition asleep :: "regen \<Rightarrow> bool" where
  "asleep s \<longleftrightarrow> (rg_worker s = Parked \<or> rg_worker s = Unborn) \<and> \<not> rg_token s"

lemma rank_bound: "regen_rank s \<le> 29"
  by (cases "rg_worker s") (simp_all add: regen_rank_def worker_rank_def)

lemma regen_turn_ok: "regen_ok s \<Longrightarrow> regen_ok (regen_turn w s)"
  by (simp add: regen_turn_def worker_ok backoff_ok)

lemma turn_keeps:
  "undisturbed s \<Longrightarrow> undisturbed (regen_turn w s)" "rg_edits (regen_turn w s) = rg_edits s" "rg_last (regen_turn w s) = rg_last s"
  by (cases "rg_worker s"; simp add: regen_turn_def backoff_ends_def worker_step_def undisturbed_def)+

lemma turn_rank:
  assumes "undisturbed s" "regen_coalesce_window \<le> fst w - rg_last s" "awake s"
  shows "asleep s \<and> regen_turn w s = s \<or> regen_rank (regen_turn w s) < regen_rank s"
  using assms
  by (cases "rg_worker s") (auto simp: asleep_def regen_turn_def backoff_ends_def worker_step_def regen_rank_def worker_rank_def
      undisturbed_def awake_def)

lemma turns_sleep:
  assumes "regen_ok s" "undisturbed s" "\<forall>w\<in>set ws. regen_coalesce_window \<le> fst w - rg_last s" "regen_rank s \<le> length ws"
  shows "asleep (fold regen_turn ws s)"
  using assms
proof (induction ws arbitrary: s)
  case Nil
  then show ?case by (cases "rg_worker s") (auto simp: asleep_def regen_rank_def worker_rank_def split: if_splits)
next
  case (Cons w ws)
  have "asleep s \<and> regen_turn w s = s \<or> regen_rank (regen_turn w s) < regen_rank s"
    using Cons.prems by (intro turn_rank) (auto simp: regen_ok_def)
  then show ?case
  proof
    assume a: "asleep s \<and> regen_turn w s = s"
    have "fold regen_turn vs s = s" if "\<forall>v\<in>set vs. regen_coalesce_window \<le> fst v - rg_last s" for vs
      using that
    proof (induction vs)
      case (Cons v vs)
      have "regen_turn v s = s" using a by (auto simp: asleep_def regen_turn_def backoff_ends_def worker_step_def)
      with Cons show ?case by simp
    qed simp
    with a Cons.prems(3) show ?thesis by simp
  next
    assume "regen_rank (regen_turn w s) < regen_rank s"
    with Cons.prems show ?thesis
      using Cons.IH [of "regen_turn w s"] by (simp add: regen_turn_ok turn_keeps)
  qed
qed

text \<open>A sleeping worker with every request served has everything generated.\<close>

lemma asleep_is_current:
  assumes "regen_ok s" "asleep s" "\<forall>t\<in>set (rg_requests s). snd t = Served"
  shows "rg_tree s = rg_edits s \<and> \<not> rg_dirty s \<and> \<not> rg_active s"
proof -
  have d: "\<not> rg_dirty s" using assms by (auto simp: regen_ok_def awake_def asleep_def)
  then have "\<not> unread s" using assms(2,3) by (auto simp: unread_def asking_def asleep_def before_read_def)
  then have "rg_tree s = rg_edits s" using assms(1,2) by (auto simp: regen_ok_def tracked_def covered_def asleep_def)
  with d show ?thesis using assms(1,2) by (auto simp: regen_ok_def counted_def asleep_def in_pass_def)
qed


definition clean_result :: gen_result where
  "clean_result = \<lparr>ge_systems = [], ge_validated = True, ge_dry = False\<rparr>"


text \<open>
  C38: Bursts are cheap: the passes never outnumber the requests that raised the flag, and the deferred
  rows exceed the passes by at most one.
\<close>

theorem passes_are_bounded_by_requests:
  "rg_passes (fold (regen_act True) ms regen_init) \<le> raised (fold (regen_act True) ms regen_init) \<and>
   length (rg_rows (fold (regen_act True) ms regen_init)) \<le> Suc (rg_passes (fold (regen_act True) ms regen_init))"
proof -
  have "regen_ok (fold (regen_act True) ms regen_init)" by (rule regen_moves.run_keeps [OF regen_init_ok])
  then show ?thesis by (auto simp: regen_ok_def thrifty_def counted_def split: if_splits)
qed

text \<open>
  The manual handler sets the marker after it has given the slot back, so it may overwrite the outcome of a later
  pass: here the last pass was clean and the marker speaks of a failure, with nobody left to clear it.
\<close>

definition refused_result :: gen_result where
  "refused_result = \<lparr>ge_systems = [], ge_validated = False, ge_dry = False\<rparr>"

lemma late_marker_is_stale:
  defines "s \<equiv> fold (regen_act True) ([ManualStart, ManualFinish refused_result, Edit ''hide'', Request 0 0, Request 0 0, Request 0 0]
     @ replicate 9 (Worker second (Works clean_result)) @ [ManualAlert 0]) regen_init"
  shows "asleep s \<and> undisturbed s \<and> rg_passes s = 1 \<and> rg_tree s = rg_edits s \<and> rg_alert s \<noteq> []"
  by (simp add: s_def numeral_eq_Suc regen_init_def run_request_def request_step_def worker_step_def manual_start_def manual_finish_def
      manual_alert_def is_building_def regen_coalesce_window_def second_def millisecond_def asleep_def undisturbed_def
      regen_alert_def refused_result_def clean_result_def regen_fail_marker_def)

end
