(* ===== verification/GoDecode.thy ===== *)
theory GoDecode
  imports Classify
begin

text \<open>
  What several programs use of \<open>encoding/json\<close>, \<open>strconv\<close> and \<open>time\<close>: decoding into fields, pointers and
  lists, integers in strings, RFC 3339 times. A decoder gets the old value of its target and tells whether all went
  well. An integer field accepts every integral JSON number in the range of int64.
\<close>

section \<open>Decoding into pointers, lists and the first value of a stream\<close>

definition opt_string :: "json \<Rightarrow> string option \<times> bool" where
  "opt_string v = (case v of JNull \<Rightarrow> (None, True) | JStr s \<Rightarrow> (Some s, True) | _ \<Rightarrow> (None, False))"

definition opt_bool :: "json \<Rightarrow> bool option \<times> bool" where
  "opt_bool v = (case v of JNull \<Rightarrow> (None, True) | JBool b \<Rightarrow> (Some b, True) | _ \<Rightarrow> (None, False))"

definition opt_float :: "json \<Rightarrow> rat option \<times> bool" where
  "opt_float v = (case v of JNull \<Rightarrow> (None, True) | JNum r \<Rightarrow> (Some r, True) | _ \<Rightarrow> (None, False))"

definition int64_of :: "rat \<Rightarrow> int option" where
  "int64_of r = (if r = of_int \<lfloor>r\<rfloor> \<and> - (2 ^ 63) \<le> \<lfloor>r\<rfloor> \<and> \<lfloor>r\<rfloor> < 2 ^ 63 then Some \<lfloor>r\<rfloor> else None)"

definition opt_int :: "json \<Rightarrow> int option \<times> bool" where
  "opt_int v = (case v of JNull \<Rightarrow> (None, True)
    | JNum r \<Rightarrow> (int64_of r, int64_of r \<noteq> None) | _ \<Rightarrow> (None, False))"

definition plain_int :: "json \<Rightarrow> int \<Rightarrow> int \<times> bool" where
  "plain_int v old = (case v of JNull \<Rightarrow> (old, True)
    | JNum r \<Rightarrow> (case int64_of r of Some n \<Rightarrow> (n, True) | None \<Rightarrow> (old, False)) | _ \<Rightarrow> (old, False))"

definition plain_bool :: "json \<Rightarrow> bool \<Rightarrow> bool \<times> bool" where
  "plain_bool v old = (case v of JNull \<Rightarrow> (old, True) | JBool b \<Rightarrow> (b, True) | _ \<Rightarrow> (old, False))"

definition decode_list :: "(json \<Rightarrow> 'a \<times> bool) \<Rightarrow> json \<Rightarrow> 'a list \<times> bool" where
  "decode_list f v = (case v of JNull \<Rightarrow> ([], True)
    | JArr us \<Rightarrow> (map (fst \<circ> f) us, list_all (snd \<circ> f) us)
    | _ \<Rightarrow> ([], False))"

definition into :: "('x \<Rightarrow> 'a) \<Rightarrow> 'x \<times> bool \<Rightarrow> 'a \<times> bool" where
  "into upd r = (upd (fst r), snd r)"

text \<open>\<open>strconv.ParseInt\<close> in base 10.\<close>

definition parse_int64 :: "string \<Rightarrow> int option" where
  "parse_int64 s = (case parse_sign s of (neg, r) \<Rightarrow>
     if r = [] \<or> \<not> list_all is_digit r then None
     else (let v = (if neg then - int (digits_val r) else int (digits_val r))
       in if - (2 ^ 63) \<le> v \<and> v < 2 ^ 63 then Some v else None))"

text \<open>\<open>json.Decoder.Decode\<close> reads one value and ignores what follows it in the body.\<close>

definition first_value :: "string \<Rightarrow> json option" where
  "first_value s = Option.bind (List.find (\<lambda>n. json_value (take n s) \<noteq> None) [0..<Suc (length s)])
    (\<lambda>n. json_value (take n s))"

lemma find_None_snoc: "List.find P xs = None \<Longrightarrow> List.find P (xs @ [x]) = (if P x then Some x else None)"
  by (induction xs) (auto split: if_splits)

lemma first_value_whole:
  assumes "json_value s = Some v" "\<And>n. n < length s \<Longrightarrow> json_value (take n s) = None"
  shows "first_value s = Some v"
proof -
  have "List.find (\<lambda>n. json_value (take n s) \<noteq> None) [0..<length s] = None"
    using assms(2) by (auto simp: find_None_iff)
  from find_None_snoc [OF this, of "length s"] show ?thesis
    using assms(1) by (simp add: first_value_def)
qed

section \<open>Timestamps\<close>

text \<open>
  \<open>time.Parse\<close> with the layout RFC3339Nano on the strict form: at most nine digits of a fraction count,
  the zone is Z or a signed offset.
\<close>

definition nanos_of :: "string \<Rightarrow> int" where
  "nanos_of ds = int (digits_val (take 9 ds)) * 10 ^ (9 - length (take 9 ds))"

definition zone_of :: "string \<Rightarrow> int option" where
  "zone_of z =
    (if z = ''Z'' then Some 0
     else if length z = 6 \<and> (z ! 0 = CHR ''+'' \<or> z ! 0 = CHR ''-'') \<and> digits_at z 1 2 \<and> z ! 3 = CHR '':'' \<and>
         digits_at z 4 2 \<and> num_at z 1 2 \<le> 24 \<and> num_at z 4 2 \<le> 60
     then Some ((if z ! 0 = CHR ''-'' then - 1 else 1) * (num_at z 1 2 * 3600 + num_at z 4 2 * 60))
     else None)"

definition clock_shape :: "string \<Rightarrow> bool" where
  "clock_shape s \<longleftrightarrow> 19 \<le> length s \<and> digits_at s 0 4 \<and> s ! 4 = CHR ''-'' \<and> digits_at s 5 2 \<and> s ! 7 = CHR ''-'' \<and>
    digits_at s 8 2 \<and> s ! 10 = CHR ''T'' \<and> digits_at s 11 2 \<and> s ! 13 = CHR '':'' \<and> digits_at s 14 2 \<and>
    s ! 16 = CHR '':'' \<and> digits_at s 17 2 \<and>
    1 \<le> num_at s 5 2 \<and> num_at s 5 2 \<le> 12 \<and> 1 \<le> num_at s 8 2 \<and>
    num_at s 8 2 \<le> days_in_month (num_at s 0 4) (num_at s 5 2) \<and>
    num_at s 11 2 < 24 \<and> num_at s 14 2 < 60 \<and> num_at s 17 2 < 60"

definition parse_stamp :: "string \<Rightarrow> instant option" where
  "parse_stamp s =
    (if \<not> clock_shape s then None
     else (let r = drop 19 s;
               ds = (case r of c # cs \<Rightarrow> if c = CHR ''.'' then takeWhile is_digit cs else [] | [] \<Rightarrow> []);
               z = (if ds = [] then r else drop (Suc (length ds)) r);
               secs = days_of_civil (num_at s 0 4, num_at s 5 2, num_at s 8 2) * 86400 +
                 num_at s 11 2 * 3600 + num_at s 14 2 * 60 + num_at s 17 2
           in map_option (\<lambda>off. unix_time (secs - off) + nanos_of ds) (zone_of z)))"

end
