(* ===== verification/Aria2.thy ===== *)
theory Aria2
  imports GoDecode Base64 Walk Scanner
begin

text \<open>
  internal/aria2/aria2.go of pkgs/arcade-webapp: the client of the download daemon. The daemon, the secret file
  and cancellation are arguments. A number in a JSON string is taken as spelled, without escapes. Not modelled:
  the ids of requests, their headers, timeouts, the log.
\<close>

section \<open>Errors and answers\<close>

datatype a2_error = TransportError string string | RpcError string int string | TorrentUnreadable string

definition already_registered_code :: int where "already_registered_code = 12"

definition is_already_registered :: "a2_error \<Rightarrow> bool" where
  "is_already_registered e = (case e of RpcError m c t \<Rightarrow> c = already_registered_code | _ \<Rightarrow> False)"

text \<open>A number that may come as a JSON string.\<close>

definition json_int :: "json \<Rightarrow> int \<Rightarrow> int \<times> bool" where
  "json_int v old = (case v of
      JNull \<Rightarrow> (0, True)
    | JNum r \<Rightarrow> (case int64_of r of Some n \<Rightarrow> (n, True) | None \<Rightarrow> (old, False))
    | JStr s \<Rightarrow> if s = [] \<or> s = ''null'' then (0, True)
        else (case parse_int64 s of Some n \<Rightarrow> (n, True) | None \<Rightarrow> (old, False))
    | _ \<Rightarrow> (old, False))"

section \<open>Downloads\<close>

record a2_download =
  dl_gid :: string
  dl_status :: string
  dl_total :: int
  dl_completed :: int
  dl_down :: int
  dl_up :: int
  dl_dir :: string
  dl_error :: string
  dl_info :: "string option"
  dl_files :: "string list"

text \<open>\<open>bittorrent.info.name\<close>: None when one of the two objects is missing.\<close>

definition decode_info_name :: "json \<Rightarrow> string option \<Rightarrow> string option \<times> bool" where
  "decode_info_name v old = decode_members (\<lambda>k u n. if key_is ''info'' k
     then (case u of JNull \<Rightarrow> (None, True)
       | _ \<Rightarrow> into Some (decode_members (\<lambda>k1 u1 s. if key_is ''name'' k1 then decode_string u1 s else (s, True)) u
            (case n of None \<Rightarrow> [] | Some s \<Rightarrow> s)))
     else (n, True)) v (if v = JNull then None else old)"

definition a2_download_field :: "string \<Rightarrow> json \<Rightarrow> a2_download \<Rightarrow> a2_download \<times> bool" where
  "a2_download_field k v d =
    (if key_is ''gid'' k then into (\<lambda>x. d\<lparr>dl_gid := x\<rparr>) (decode_string v (dl_gid d))
     else if key_is ''status'' k then into (\<lambda>x. d\<lparr>dl_status := x\<rparr>) (decode_string v (dl_status d))
     else if key_is ''totalLength'' k then into (\<lambda>x. d\<lparr>dl_total := x\<rparr>) (json_int v (dl_total d))
     else if key_is ''completedLength'' k then into (\<lambda>x. d\<lparr>dl_completed := x\<rparr>) (json_int v (dl_completed d))
     else if key_is ''downloadSpeed'' k then into (\<lambda>x. d\<lparr>dl_down := x\<rparr>) (json_int v (dl_down d))
     else if key_is ''uploadSpeed'' k then into (\<lambda>x. d\<lparr>dl_up := x\<rparr>) (json_int v (dl_up d))
     else if key_is ''dir'' k then into (\<lambda>x. d\<lparr>dl_dir := x\<rparr>) (decode_string v (dl_dir d))
     else if key_is ''errorMessage'' k then into (\<lambda>x. d\<lparr>dl_error := x\<rparr>) (decode_string v (dl_error d))
     else if key_is ''bittorrent'' k then into (\<lambda>x. d\<lparr>dl_info := x\<rparr>) (decode_info_name v (dl_info d))
     else if key_is ''files'' k then into (\<lambda>x. d\<lparr>dl_files := x\<rparr>) (decode_list (\<lambda>u. decode_members
       (\<lambda>k1 u1 s. if key_is ''path'' k1 then decode_string u1 s else (s, True)) u []) v)
     else (d, True))"

definition zero_download :: a2_download where
  "zero_download = \<lparr>dl_gid = [], dl_status = [], dl_total = 0, dl_completed = 0, dl_down = 0, dl_up = 0, dl_dir = [],
     dl_error = [], dl_info = None, dl_files = []\<rparr>"

definition download_name :: "a2_download \<Rightarrow> string" where
  "download_name d = (case dl_info d of
      Some (c # n) \<Rightarrow> c # n
    | _ \<Rightarrow> (case find (\<lambda>p. p \<noteq> []) (dl_files d) of Some p \<Rightarrow> path_base p | None \<Rightarrow> path_base (dl_dir d)))"

text \<open>The int64 product wraps around and the division truncates.\<close>

definition percent_of :: "int \<Rightarrow> int \<Rightarrow> int" where
  "percent_of part whole = (let n = wrap64 (part * 100) in min 100 (if n < 0 then - (- n div whole) else n div whole))"

definition progress_pct :: "a2_download \<Rightarrow> int" where
  "progress_pct d = (if dl_total d \<le> 0 then 0 else percent_of (dl_completed d) (dl_total d))"

record global_stat =
  gs_active :: int
  gs_waiting :: int
  gs_stopped :: int
  gs_stopped_total :: int

definition zero_stat :: global_stat where
  "zero_stat = \<lparr>gs_active = 0, gs_waiting = 0, gs_stopped = 0, gs_stopped_total = 0\<rparr>"

definition global_stat_field :: "string \<Rightarrow> json \<Rightarrow> global_stat \<Rightarrow> global_stat \<times> bool" where
  "global_stat_field k v g =
    (if key_is ''numActive'' k then into (\<lambda>x. g\<lparr>gs_active := x\<rparr>) (json_int v (gs_active g))
     else if key_is ''numWaiting'' k then into (\<lambda>x. g\<lparr>gs_waiting := x\<rparr>) (json_int v (gs_waiting g))
     else if key_is ''numStopped'' k then into (\<lambda>x. g\<lparr>gs_stopped := x\<rparr>) (json_int v (gs_stopped g))
     else if key_is ''numStoppedTotal'' k then into (\<lambda>x. g\<lparr>gs_stopped_total := x\<rparr>) (json_int v (gs_stopped_total g))
     else (g, True))"

section \<open>One call\<close>

definition read_secret :: "string option \<Rightarrow> string option" where
  "read_secret raw = (case raw of None \<Rightarrow> None | Some b \<Rightarrow> if trim_space b = [] then None else Some (trim_space b))"

datatype rpc_answer = NoAnswer string | Answer nat string

record rpc_response =
  rr_result :: "json option"
  rr_error :: "(int \<times> string) option"

definition decode_rpc_error :: "json \<Rightarrow> (int \<times> string) option \<Rightarrow> (int \<times> string) option \<times> bool" where
  "decode_rpc_error v old = (if v = JNull then (None, True)
     else into Some (decode_members (\<lambda>k u (c, m). if key_is ''code'' k then into (\<lambda>x. (x, m)) (plain_int u c)
       else if key_is ''message'' k then into (\<lambda>x. (c, x)) (decode_string u m) else ((c, m), True)) v
       (case old of None \<Rightarrow> (0, []) | Some e \<Rightarrow> e)))"

definition rpc_response_field :: "string \<Rightarrow> json \<Rightarrow> rpc_response \<Rightarrow> rpc_response \<times> bool" where
  "rpc_response_field k v r =
    (if key_is ''jsonrpc'' k then (r, snd (decode_string v []))
     else if key_is ''id'' k then (r, snd (opt_int v))
     else if key_is ''result'' k then (r\<lparr>rr_result := Some v\<rparr>, True)
     else if key_is ''error'' k then into (\<lambda>x. r\<lparr>rr_error := x\<rparr>) (decode_rpc_error v (rr_error r))
     else (r, True))"

definition response_limit :: nat where "response_limit = 64 * 2 ^ 20"

definition read_response :: "string \<Rightarrow> string \<Rightarrow> a2_error + json option" where
  "read_response m body = (case json_value (take response_limit body) of
      None \<Rightarrow> Inl (TransportError m ''malformed response'')
    | Some v \<Rightarrow> (case decode_members rpc_response_field v \<lparr>rr_result = None, rr_error = None\<rparr> of (r, ok) \<Rightarrow>
        if \<not> ok then Inl (TransportError m ''malformed response'')
        else (case rr_error r of Some (c, t) \<Rightarrow> Inl (RpcError m c t) | None \<Rightarrow> Inr (rr_result r))))"

definition rpc_call :: "string \<Rightarrow> string option \<Rightarrow> rpc_answer \<Rightarrow> a2_error + json option" where
  "rpc_call m secret ans = (if read_secret secret = None then Inl (TransportError m ''secret file'')
     else (case ans of
         NoAnswer e \<Rightarrow> Inl (TransportError m e)
       | Answer st body \<Rightarrow> if 400 \<le> st then Inl (TransportError m (''http '' @ nat_digits st)) else read_response m body))"

text \<open>Decoding a result; a missing one is an error.\<close>

definition read_result :: "string \<Rightarrow> (json \<Rightarrow> 'a \<times> bool) \<Rightarrow> a2_error + json option \<Rightarrow> a2_error + 'a" where
  "read_result m f r = (case r of Inl e \<Rightarrow> Inl e
    | Inr None \<Rightarrow> Inl (TransportError m ''malformed result'')
    | Inr (Some v) \<Rightarrow> if snd (f v) then Inr (fst (f v)) else Inl (TransportError m ''malformed result''))"

definition decode_downloads :: "json \<Rightarrow> a2_download list \<times> bool" where
  "decode_downloads v = decode_list (\<lambda>u. decode_members a2_download_field u zero_download) v"

definition tell :: "string \<Rightarrow> string option \<Rightarrow> rpc_answer \<Rightarrow> a2_error + a2_download list" where
  "tell m secret ans = read_result m decode_downloads (rpc_call m secret ans)"

definition get_global_stat :: "string option \<Rightarrow> rpc_answer \<Rightarrow> a2_error + global_stat" where
  "get_global_stat secret ans = read_result ''aria2.getGlobalStat'' (\<lambda>v. decode_members global_stat_field v zero_stat)
     (rpc_call ''aria2.getGlobalStat'' secret ans)"

definition get_version :: "string option \<Rightarrow> rpc_answer \<Rightarrow> a2_error + string" where
  "get_version secret ans = read_result ''aria2.getVersion'' (\<lambda>v. decode_members (\<lambda>k u s.
     if key_is ''version'' k then decode_string u s
     else if key_is ''enabledFeatures'' k then (s, snd (decode_list (\<lambda>x. decode_string x []) u)) else (s, True)) v [])
     (rpc_call ''aria2.getVersion'' secret ans)"

text \<open>Pause, unpause and remove: the error, if any.\<close>

definition control :: "string \<Rightarrow> string option \<Rightarrow> rpc_answer \<Rightarrow> a2_error option" where
  "control m secret ans = (case rpc_call m secret ans of Inl e \<Rightarrow> Some e | Inr v \<Rightarrow> None)"

section \<open>Submissions\<close>

text \<open>
  Transport failures are tried again; the context may end before every try but the first. With the result
  comes the number of calls made.
\<close>

fun submit_loop :: "string \<Rightarrow> (nat \<Rightarrow> bool) \<Rightarrow> (nat \<Rightarrow> a2_error + 'r) \<Rightarrow> nat \<Rightarrow> nat \<Rightarrow> a2_error \<Rightarrow> (a2_error + 'r) \<times> nat" where
  "submit_loop m stop call k 0 e0 = (Inl e0, k)"
| "submit_loop m stop call k (Suc n) e0 =
    (if 0 < k \<and> stop k then (Inl (TransportError m ''context canceled''), k)
     else (case call k of
         Inr v \<Rightarrow> (Inr v, Suc k)
       | Inl (TransportError m1 t) \<Rightarrow> submit_loop m stop call (Suc k) n (TransportError m1 t)
       | Inl e \<Rightarrow> (Inl e, Suc k)))"

definition submit_retries :: nat where "submit_retries = 2"

definition submit :: "string \<Rightarrow> (nat \<Rightarrow> bool) \<Rightarrow> (nat \<Rightarrow> a2_error + 'r) \<Rightarrow> (a2_error + 'r) \<times> nat" where
  "submit m stop call = submit_loop m stop call 0 (Suc submit_retries) (TransportError m [])"

definition read_gid :: "string \<Rightarrow> a2_error + json option \<Rightarrow> a2_error + string" where
  "read_gid m r = read_result m (\<lambda>v. decode_string v []) r"

definition add_uri :: "(nat \<Rightarrow> bool) \<Rightarrow> (nat \<Rightarrow> a2_error + json option) \<Rightarrow> (a2_error + string) \<times> nat" where
  "add_uri stop call = (case submit ''aria2.addUri'' stop call of (r, n) \<Rightarrow> (read_gid ''aria2.addUri'' r, n))"

text \<open>The parameters of a submission: the torrent in base64, an empty list of addresses, the options.\<close>

record acquire_options =
  ao_dir :: string
  ao_seed_time :: string
  ao_overwrite :: string
  ao_check :: bool

definition acquire_torrent_options :: "string \<Rightarrow> string \<Rightarrow> fs_node option \<Rightarrow> acquire_options" where
  "acquire_torrent_options incoming sys tree = (let dir = incoming @ ''/'' @ sys
     in \<lparr>ao_dir = dir, ao_seed_time = ''0'', ao_overwrite = ''true'', ao_check = \<not> has_aria2_control dir tree\<rparr>)"

definition add_torrent :: "string option \<Rightarrow> (nat \<Rightarrow> bool) \<Rightarrow> (string \<Rightarrow> nat \<Rightarrow> a2_error + json option) \<Rightarrow> string \<Rightarrow> (a2_error + string) \<times> nat" where
  "add_torrent file stop call path = (case file of
      None \<Rightarrow> (Inl (TorrentUnreadable (path_base path)), 0)
    | Some raw \<Rightarrow> (case submit ''aria2.addTorrent'' stop (call (b64_encode (map code raw))) of
        (r, n) \<Rightarrow> (read_gid ''aria2.addTorrent'' r, n)))"

section \<open>A submission happens once\<close>

lemma submit_loop_calls: "submit_loop m stop call k n e0 = (r, j) \<Longrightarrow> k \<le> j \<and> j \<le> k + n"
proof (induction n arbitrary: k e0)
  case (Suc n)
  then show ?case
    by (auto split: if_splits sum.splits a2_error.splits) (force dest: Suc.IH)+
qed simp

text \<open>All calls but the last failed on the way, and the last one gave the result, unless the context ended.\<close>

lemma submit_loop_cases:
  assumes "submit_loop m stop call k n e0 = (r, j)" "\<exists>m t. e0 = TransportError m t"
  shows "(\<forall>i. k \<le> i \<longrightarrow> Suc i < j \<longrightarrow> (\<exists>m t. call i = Inl (TransportError m t))) \<and>
    ((\<exists>m t. r = Inl (TransportError m t)) \<and> (\<forall>i. k \<le> i \<longrightarrow> i < j \<longrightarrow> (\<exists>m t. call i = Inl (TransportError m t))) \<or>
     k < j \<and> r = call (j - 1))"
  using assms
proof (induction n arbitrary: k e0)
  case (Suc n)
  show ?case
  proof (cases "0 < k \<and> stop k")
    case True
    then show ?thesis using Suc.prems by auto
  next
    case False
    show ?thesis
    proof (cases "\<exists>m t. call k = Inl (TransportError m t)")
      case True
      then obtain m1 t where c: "call k = Inl (TransportError m1 t)" by blast
      then have l: "submit_loop m stop call (Suc k) n (TransportError m1 t) = (r, j)" using Suc.prems False by simp
      have split: "(\<forall>i. k \<le> i \<longrightarrow> P i) \<longleftrightarrow> P k \<and> (\<forall>i. Suc k \<le> i \<longrightarrow> P i)" for P
        by (metis Suc_leD Suc_leI le_neq_implies_less order_refl)
      have kj: "Suc k \<le> j" using submit_loop_calls [OF l] by simp
      show ?thesis unfolding split using Suc.IH [OF l] c kj by auto
    next
      case nt: False
      then have "r = call k \<and> j = Suc k" using Suc.prems False by (auto split: sum.splits a2_error.splits if_splits)
      then show ?thesis by simp
    qed
  qed
qed (use assms in auto)

end
