(* ===== verification/WebViews.thy ===== *)
theory WebViews
  imports GoDecode StoreQueries
begin

text \<open>
  The views of pkgs/arcade-webapp (internal/web/server.go, the helpers and the verdicts of verify.go,
  internal/inventory): what a page shows, computed from the store. The templates that print it are not
  modelled.
\<close>

section \<open>Sizes\<close>

text \<open>The loop of \<open>HumanBytes\<close>: the unit in bytes and its index.\<close>

function human_unit :: "int \<Rightarrow> int \<Rightarrow> nat \<Rightarrow> int \<times> nat" where
  "human_unit n d e = (if n < 1024 then (d, e) else human_unit (n div 1024) (d * 1024) (Suc e))"
  by auto
termination by (relation "measure (\<lambda>(n, d, e). nat n)") auto

declare human_unit.simps [simp del]

text \<open>One decimal, half to even; the code divides as float64, which is exact below 2^53 bytes.\<close>

definition tenths :: "int \<Rightarrow> int \<Rightarrow> int" where
  "tenths b d = (let q = b * 10 div d; r = b * 10 mod d in if d < 2 * r \<or> 2 * r = d \<and> odd q then q + 1 else q)"

definition human_bytes :: "int \<Rightarrow> string" where
  "human_bytes b = (if b < 1024 then itoa b @ '' B''
     else (case human_unit (b div 1024) 1024 0 of (d, e) \<Rightarrow>
       itoa (tenths b d div 10) @ ''.'' @ itoa (tenths b d mod 10) @ '' '' @ [''KMGTPE'' ! e] @ ''iB''))"

definition speed_human :: "int \<Rightarrow> string" where
  "speed_human b = (if b \<le> 0 then [] else human_bytes b @ ''/s'')"

definition mul100 :: "int \<Rightarrow> int \<Rightarrow> int" where
  "mul100 finished whole = (if whole \<le> 0 then 0 else min 100 (finished * 100 div whole))"

section \<open>Dates of DATs\<close>

datatype layout_item = LYear | LMonth | LDay | LHour | LMinute | LSecond | LChar char

record broken_time =
  bt_year :: int
  bt_month :: int
  bt_day :: int
  bt_hour :: int
  bt_minute :: int
  bt_second :: int
  bt_nanos :: int

definition zero_broken :: broken_time where
  "zero_broken = \<lparr>bt_year = 0, bt_month = 1, bt_day = 1, bt_hour = 0, bt_minute = 0, bt_second = 0, bt_nanos = 0\<rparr>"

definition digits_of :: "nat \<Rightarrow> string \<Rightarrow> (int \<times> string) option" where
  "digits_of n s = (if n \<le> length s \<and> list_all is_digit (take n s) then Some (int (digits_val (take n s)), drop n s) else None)"

text \<open>The hour may have one digit; a fraction may follow the seconds.\<close>

definition hour_of :: "string \<Rightarrow> (int \<times> string) option" where
  "hour_of s = (case digits_of 2 s of Some r \<Rightarrow> Some r | None \<Rightarrow> digits_of 1 s)"

definition fraction_of :: "string \<Rightarrow> int \<times> string" where
  "fraction_of s = (case s of c # cs \<Rightarrow>
      if (c = CHR ''.'' \<or> c = CHR '','') \<and> cs \<noteq> [] \<and> is_digit (hd cs)
      then (nanos_of (takeWhile is_digit cs), dropWhile is_digit cs) else (0, s)
    | [] \<Rightarrow> (0, s))"

fun layout_parse :: "layout_item list \<Rightarrow> string \<Rightarrow> broken_time \<Rightarrow> broken_time option" where
  "layout_parse [] s t = (if s = [] then Some t else None)"
| "layout_parse (LYear # l) s t = (case digits_of 4 s of None \<Rightarrow> None | Some (n, r) \<Rightarrow> layout_parse l r (t\<lparr>bt_year := n\<rparr>))"
| "layout_parse (LMonth # l) s t = (case digits_of 2 s of None \<Rightarrow> None
    | Some (n, r) \<Rightarrow> if 1 \<le> n \<and> n \<le> 12 then layout_parse l r (t\<lparr>bt_month := n\<rparr>) else None)"
| "layout_parse (LDay # l) s t = (case digits_of 2 s of None \<Rightarrow> None | Some (n, r) \<Rightarrow> layout_parse l r (t\<lparr>bt_day := n\<rparr>))"
| "layout_parse (LHour # l) s t = (case hour_of s of None \<Rightarrow> None
    | Some (n, r) \<Rightarrow> if n < 24 then layout_parse l r (t\<lparr>bt_hour := n\<rparr>) else None)"
| "layout_parse (LMinute # l) s t = (case digits_of 2 s of None \<Rightarrow> None
    | Some (n, r) \<Rightarrow> if n < 60 then layout_parse l r (t\<lparr>bt_minute := n\<rparr>) else None)"
| "layout_parse (LSecond # l) s t = (case digits_of 2 s of None \<Rightarrow> None
    | Some (n, r) \<Rightarrow> if n < 60 then (case fraction_of r of (f, r1) \<Rightarrow> layout_parse l r1 (t\<lparr>bt_second := n, bt_nanos := f\<rparr>)) else None)"
| "layout_parse (LChar c # l) s t = (case s of [] \<Rightarrow> None | x # r \<Rightarrow> if x = c then layout_parse l r t else None)"

definition broken_instant :: "broken_time \<Rightarrow> instant option" where
  "broken_instant t = (if 1 \<le> bt_day t \<and> bt_day t \<le> days_in_month (bt_year t) (bt_month t)
     then Some (unix_time (days_of_civil (bt_year t, bt_month t, bt_day t) * 86400 + bt_hour t * 3600 + bt_minute t * 60 + bt_second t)
       + bt_nanos t) else None)"

definition date_items :: "layout_item list" where
  "date_items = [LYear, LChar CHR ''-'', LMonth, LChar CHR ''-'', LDay]"

definition clock_items :: "char \<Rightarrow> char \<Rightarrow> layout_item list" where
  "clock_items sep c = date_items @ [LChar sep, LHour, LChar c, LMinute, LChar c, LSecond]"

definition date_layouts :: "layout_item list list" where
  "date_layouts = [date_items, clock_items CHR '' '' CHR ''-'', clock_items CHR '' '' CHR '':'', clock_items CHR ''T'' CHR '':'',
     [LDay, LChar CHR ''/'', LMonth, LChar CHR ''/'', LYear]]"

definition parse_layout :: "string \<Rightarrow> layout_item list \<Rightarrow> instant option" where
  "parse_layout s l = Option.bind (layout_parse l s zero_broken) broken_instant"

text \<open>\<open>Time.Sub\<close> saturates; the age truncates towards zero.\<close>

definition time_sub :: "instant \<Rightarrow> instant \<Rightarrow> duration" where
  "time_sub a b = max (- (2 ^ 63)) (min (2 ^ 63 - 1) (a - b))"

definition whole_days :: "duration \<Rightarrow> int" where
  "whole_days d = (if d < 0 then - (- d div day) else d div day)"

definition age_days :: "string \<Rightarrow> instant \<Rightarrow> int" where
  "age_days date tm = (case List.map_filter (parse_layout date) date_layouts @ (case parse_stamp date of None \<Rightarrow> [] | Some t \<Rightarrow> [t]) of
     [] \<Rightarrow> - 1 | t # _ \<Rightarrow> whole_days (time_sub tm t))"

section \<open>Verdicts\<close>

datatype verdict = VsUnknown | VsUnchecked | VsVerified | VsMissing | VsExtra | VsUnmatched | VsDatLock | VsExo

definition classify_verify :: "verify_result option \<Rightarrow> verdict" where
  "classify_verify r = (case r of None \<Rightarrow> VsUnknown
    | Some v \<Rightarrow> if vr_unchecked v then VsUnchecked
        else if 0 < vr_unmatched v \<or> 0 < vr_other v then VsUnmatched
        else if vr_dat_games v = 0 then VsUnknown
        else if 0 < vr_missing v \<or> vr_found v < vr_dat_games v then VsMissing
        else if 0 < vr_extra v then VsExtra
        else VsVerified)"

definition art_coverage_pct :: "nat \<Rightarrow> nat \<Rightarrow> int" where
  "art_coverage_pct art games = (if games = 0 then - 1 else min 100 (int (art * 100 div games)))"

text \<open>The legacy formula, in tenths of a percent; the code takes the quotient as float64.\<close>

definition coverage_permille :: "nat \<Rightarrow> nat \<Rightarrow> nat" where
  "coverage_permille art games = (if games = 0 then 0 else art * 1000 div games)"

section \<open>The dashboard\<close>

record card =
  ca_summary :: system_summary
  ca_active :: bool
  ca_size :: string
  ca_age :: int
  ca_age_human :: string
  ca_age_class :: string
  ca_coverage :: int
  ca_state :: verdict

definition age_class :: "int \<Rightarrow> string \<times> string" where
  "age_class d = (if d < 0 then (''unknown'', ''?'') else if d \<le> 30 then (''ok'', itoa d @ ''d'')
     else if d \<le> 90 then (''warn'', itoa d @ ''d'') else (''stale'', itoa d @ ''d''))"

definition card_of :: "instant \<Rightarrow> system_summary \<Rightarrow> card" where
  "card_of tm s =
    (let exo = sr_source (su_system s) = SourceExo;
         age = (if su_date s = [] then - 1 else age_days (su_date s) tm)
     in \<lparr>ca_summary = s, ca_active = active s, ca_size = human_bytes (int (su_bytes s)), ca_age = age,
       ca_age_human = snd (age_class age), ca_age_class = fst (age_class age),
       ca_coverage = (if exo then art_coverage_pct (su_art s) (su_games s) else coverage_pct s),
       ca_state = (if exo then VsExo else classify_verify (su_verify s))\<rparr>)"

text \<open>The warnings of a run: those of a detail that is a scan's result.\<close>

definition run_warnings :: "string \<Rightarrow> nat" where
  "run_warnings detail = (case json_value detail of None \<Rightarrow> 0
    | Some v \<Rightarrow> (case decode_members (\<lambda>k u n.
         if key_is ''Systems'' k \<or> key_is ''Games'' k \<or> key_is ''Bytes'' k \<or> key_is ''Errors'' k then (n, snd (opt_int u))
         else if key_is ''Warnings'' k then into length (decode_list (\<lambda>x. decode_string x []) u)
         else (n, True)) v 0 of (n, ok) \<Rightarrow> if ok then n else 0))"

datatype health = Healthy | Scanning | ScanError | Warned nat | StaleDats nat

definition overall_health :: "bool \<Rightarrow> run option \<Rightarrow> card list \<Rightarrow> health" where
  "overall_health scanning last_one cards =
    (if scanning then Scanning
     else (case last_one of
         Some r \<Rightarrow> if rn_status r = RunError then ScanError else if 0 < run_warnings (rn_detail r) then Warned (run_warnings (rn_detail r))
           else (let n = length (filter (\<lambda>c. 90 < ca_age c) cards) in if 0 < n then StaleDats n else Healthy)
       | None \<Rightarrow> (let n = length (filter (\<lambda>c. 90 < ca_age c) cards) in if 0 < n then StaleDats n else Healthy)))"

record dashboard =
  db_cards :: "card list"
  db_empty :: nat
  db_systems :: nat
  db_active :: nat
  db_games :: nat
  db_bytes :: string
  db_health :: health
  db_runs :: "run list"
  db_incoming :: "string \<times> string"

text \<open>Repeated ids are dropped; the first eight are kept.\<close>

fun unique_runs :: "nat list \<Rightarrow> run list \<Rightarrow> run list" where
  "unique_runs seen [] = []"
| "unique_runs seen (r # rs) = (if rn_id r \<in> set seen then unique_runs seen rs else r # unique_runs (rn_id r # seen) rs)"

text \<open>\<open>ParseInt\<close> with its error ignored: out of range it gives the nearest bound.\<close>

definition parse_i64 :: "string \<Rightarrow> int" where
  "parse_i64 s = (case parse_sign s of (neg, r) \<Rightarrow>
     if r = [] \<or> \<not> list_all is_digit r then 0
     else if neg then max (- (2 ^ 63)) (- int (digits_val r)) else min (2 ^ 63 - 1) (int (digits_val r)))"

definition incoming_view :: "store \<Rightarrow> string \<times> string" where
  "incoming_view st = (let f = get_meta ''incoming_files'' st in
     if f = [] then (''0'', ''0 B'')
     else (f, human_bytes (parse_i64 (get_meta ''incoming_bytes'' st))))"

definition view_model :: "instant \<Rightarrow> bool \<Rightarrow> store \<Rightarrow> dashboard" where
  "view_model tm scanning st =
    (let all = map (card_of tm) (system_summaries st); cards = filter ca_active all
     in \<lparr>db_cards = cards, db_empty = length (filter (\<lambda>c. \<not> ca_active c) all), db_systems = length all,
       db_active = length cards, db_games = sum_list (map (su_games \<circ> ca_summary) all),
       db_bytes = human_bytes (int (sum_list (map (su_bytes \<circ> ca_summary) all))),
       db_health = overall_health scanning (last_run st) cards,
       db_runs = take 8 (unique_runs [] (recent_runs 8 st)), db_incoming = incoming_view st\<rparr>)"

section \<open>The inventory document\<close>

record inventory =
  in_cartridge :: "(string \<times> nat \<times> nat) list"
  in_optical :: "(string \<times> nat \<times> nat) list"
  in_modern :: "(string \<times> nat \<times> nat) list"
  in_exo :: "(string \<times> nat \<times> nat \<times> nat) list"
  in_state :: string

definition exo_bucket :: string where "exo_bucket = ''exo''"

definition add_stat :: "system_summary \<Rightarrow> inventory \<Rightarrow> inventory" where
  "add_stat s d = (let sys = su_system s; e = (su_games s, su_bytes s) in
     if sr_source sys = SourceExo \<or> sr_bucket sys = exo_bucket then d
     else if sr_bucket sys = ''optical'' then d\<lparr>in_optical := AList.update (sr_key sys) e (in_optical d)\<rparr>
     else if sr_bucket sys = ''modern'' then d\<lparr>in_modern := AList.update (sr_key sys) e (in_modern d)\<rparr>
     else d\<lparr>in_cartridge := AList.update (sr_key sys) e (in_cartridge d)\<rparr>)"

definition build_inventory :: "system_summary list \<Rightarrow> (string \<times> nat \<times> nat) list \<Rightarrow> string \<Rightarrow> inventory" where
  "build_inventory summary exo state = fold add_stat summary
     \<lparr>in_cartridge = [], in_optical = [], in_modern = [],
      in_exo = map (\<lambda>(k, games, art). (k, games, art, coverage_permille art games)) exo,
      in_state = (if state = [] then ''unknown'' else state)\<rparr>"

section \<open>What the numbers mean\<close>

lemma human_unit_range:
  assumes "human_unit n d e = (d', e')" "1 \<le> n" "d * n \<le> b" "b < d * (n + 1)" "0 < d" "d = 1024 ^ Suc e"
  shows "d' \<le> b \<and> b < 1024 * d' \<and> d' = 1024 ^ Suc e'"
  using assms
proof (induction n d e rule: human_unit.induct)
  case (1 n d e)
  show ?case
  proof (cases "n < 1024")
    case True
    then have e: "d' = d" "e' = e" using "1.prems"(1) by (simp_all add: human_unit.simps)
    have "d \<le> d * n" using "1.prems"(2,5) by simp
    moreover have "d * (n + 1) \<le> d * 1024" using True "1.prems"(5) by (intro mult_left_mono) auto
    ultimately have "d \<le> b" "b < d * 1024" using "1.prems"(3,4) by linarith+
    then show ?thesis using e "1.prems"(6) by simp
  next
    case False
    define q where "q = n div 1024"
    define r where "r = n mod 1024"
    have "n = 1024 * q + r" "0 \<le> r" "r < 1024" by (simp_all add: q_def r_def)
    then have "1024 * q \<le> n" "n < 1024 * (q + 1)" by (simp_all only: distrib_left)
    then have n: "1024 * (n div 1024) \<le> n" "n < 1024 * (n div 1024 + 1)" by (simp_all add: q_def)
    have u: "human_unit (n div 1024) (d * 1024) (Suc e) = (d', e')"
      using "1.prems"(1) False human_unit.simps [of n d e] by simp
    have q: "1 \<le> n div 1024" using n(2) False by linarith
    have "d * 1024 * (n div 1024) \<le> d * n" using n(1) "1.prems"(5) by (simp add: mult.assoc)
    then have lo: "d * 1024 * (n div 1024) \<le> b" using "1.prems"(3) by simp
    have "d * (n + 1) \<le> d * (1024 * (n div 1024 + 1))" using n(2) "1.prems"(5) by (intro mult_left_mono) auto
    then have hi: "b < d * 1024 * (n div 1024 + 1)" using "1.prems"(4) by (simp add: mult.assoc)
    show ?thesis by (rule "1.IH" [OF False u q lo hi]) (use "1.prems"(5,6) in auto)
  qed
qed

text \<open>Sizes that fit into 64 bits have a unit: the index stays within the names of the units.\<close>

lemma human_bytes_unit:
  assumes "1024 \<le> b" "b < 2 ^ 63" "human_unit (b div 1024) 1024 0 = (d, e)"
  shows "e < 6 \<and> d = 1024 ^ Suc e \<and> d \<le> b \<and> b < 1024 * d"
proof -
  have r: "d \<le> b \<and> b < 1024 * d \<and> d = 1024 ^ Suc e"
    using assms(1) by (intro human_unit_range [OF assms(3)]) auto
  have "e < 6"
  proof (rule ccontr)
    assume "\<not> e < 6"
    then have "(1024::int) ^ 7 \<le> 1024 ^ Suc e" by (intro power_increasing) auto
    then show False using r assms(2) by simp
  qed
  with r show ?thesis by simp
qed

end
