(* ===== verification/VerifyWeb.thy ===== *)
theory VerifyWeb
  imports WebViews Igir Dats StoreSpec
begin

text \<open>
  internal/web/verify.go of pkgs/arcade-webapp: the verify page, and the decisions of its handlers. The state
  of the runner and of the DAT manager, the clock and the decoding of a run's detail are arguments. A handler
  gives its status, what it starts in the background, and the store.
\<close>

section \<open>The newest attempts\<close>

definition note_attempt :: "nat \<Rightarrow> string \<times> verify_outcome \<Rightarrow> (string \<times> nat \<times> verify_outcome) list \<Rightarrow> (string \<times> nat \<times> verify_outcome) list" where
  "note_attempt rid ko m = (if map_of m (fst ko) = None then m @ [(fst ko, rid, snd ko)] else m)"

definition last_attempt_scan :: nat where "last_attempt_scan = 100"

text \<open>The newest outcome of each system; the runs come newest first.\<close>

definition last_attempts :: "(string \<Rightarrow> (string \<times> verify_outcome) list option) \<Rightarrow> store \<Rightarrow> (string \<times> nat \<times> verify_outcome) list" where
  "last_attempts decode st = fold (\<lambda>r m. if rn_kind r \<noteq> ''verify'' then m
     else (case decode (rn_detail r) of None \<Rightarrow> m | Some ocs \<Rightarrow> fold (note_attempt (rn_id r)) ocs m))
     (recent_runs last_attempt_scan st) []"

section \<open>The page\<close>

record point =
  pt_found :: int
  pt_unmatched :: int
  pt_extra :: int

record verify_row =
  vw_summary :: system_summary
  vw_age :: int
  vw_mapped :: bool
  vw_url :: string
  vw_staging :: "staging_row option"
  vw_state :: verdict
  vw_failed :: bool
  vw_refused :: string
  vw_offenders :: "string list"
  vw_history :: "(run \<times> point \<times> int option) list"
  vw_hidden :: nat
  vw_can_verify :: bool

record verify_page =
  vp_rows :: "verify_row list"
  vp_idle :: nat
  vp_counts :: "verdict \<Rightarrow> nat"
  vp_alarm :: bool

text \<open>The change of the unmatched files against the run before.\<close>

fun with_deltas :: "(run \<times> point) list \<Rightarrow> (run \<times> point \<times> int option) list" where
  "with_deltas [] = []"
| "with_deltas [(r, p)] = [(r, p, None)]"
| "with_deltas ((r, p) # (r1, q) # ps) = (r, p, Some (pt_unmatched p - pt_unmatched q)) # with_deltas ((r1, q) # ps)"

definition drill_down_points :: int where "drill_down_points = 5"

record verify_env =
  ve_configured :: bool
  ve_running :: bool
  ve_base :: "string option"
  ve_now :: instant
  ve_outcomes :: "string \<Rightarrow> (string \<times> verify_outcome) list option"
  ve_points :: "string \<Rightarrow> (string \<times> point) list option"

definition offending :: "system_summary \<Rightarrow> bool" where
  "offending s \<longleftrightarrow> (case su_verify s of None \<Rightarrow> False | Some v \<Rightarrow> 0 < vr_unmatched v \<or> 0 < vr_extra v)"

definition report_run :: "system_summary \<Rightarrow> nat" where
  "report_run s = (case su_verify s of None \<Rightarrow> 0 | Some v \<Rightarrow> vr_run v)"

text \<open>A failure or refusal that is newer than the report on display; a refusal takes the place of the verdict.\<close>

definition stale_attempt :: "(string \<times> nat \<times> verify_outcome) list \<Rightarrow> system_summary \<Rightarrow> verify_outcome option" where
  "stale_attempt attempts s = (case map_of attempts (sr_key (su_system s)) of None \<Rightarrow> None
     | Some (rid, oc) \<Rightarrow> if report_run s < rid \<and> (case oc of VerifyFailed \<Rightarrow> True | DatLock f \<Rightarrow> True | _ \<Rightarrow> False) then Some oc else None)"

definition row_of_system :: "verify_env \<Rightarrow> store \<Rightarrow> system_summary \<Rightarrow> verify_row" where
  "row_of_system e st s =
    (let key = sr_key (su_system s); bad = stale_attempt (last_attempts (ve_outcomes e) st) s;
         locked = (case bad of Some (DatLock f) \<Rightarrow> True | _ \<Rightarrow> False)
     in \<lparr>vw_summary = s, vw_age = (if su_date s = [] then - 1 else age_days (su_date s) (ve_now e)),
       vw_mapped = (case map_of mclean_dats key of None \<Rightarrow> False | Some u \<Rightarrow> u \<noteq> []),
       vw_url = (case ve_base e of None \<Rightarrow> [] | Some b \<Rightarrow> url_for b key),
       vw_staging = find (\<lambda>t. sg_system t = key) (rev (staging_rows st)),
       vw_state = (if locked then VsDatLock else classify_verify (su_verify s)),
       vw_failed = (bad \<noteq> None), vw_refused = (if locked then ''dat-lock mismatch'' else []),
       vw_offenders = (if offending s then verify_unmatched (report_run s) key st else []),
       vw_history = (if offending s then with_deltas (system_verify_history (ve_points e) key drill_down_points st) else []),
       vw_hidden = (case map_of (hidden_counts st) key of None \<Rightarrow> 0 | Some n \<Rightarrow> n),
       vw_can_verify = (ve_configured e \<and> \<not> ve_running e)\<rparr>)"

definition idle_row :: "verify_row \<Rightarrow> bool" where
  "idle_row r \<longleftrightarrow> su_games (vw_summary r) = 0 \<and> su_date (vw_summary r) = [] \<and>
     (case vw_staging r of None \<Rightarrow> True | Some t \<Rightarrow> sg_files t = 0) \<and> su_verify (vw_summary r) = None"

text \<open>The verdicts are counted over all systems, the idle ones too; what has no counter of its own is unknown.\<close>

definition counter_of :: "verdict \<Rightarrow> verdict" where
  "counter_of v = (if v = VsDatLock \<or> v = VsExo then VsUnknown else v)"

definition fetch_verify :: "verify_env \<Rightarrow> store \<Rightarrow> verify_page" where
  "fetch_verify e st =
    (let rows = map (row_of_system e st) (filter (\<lambda>s. sr_source (su_system s) \<noteq> SourceExo) (system_summaries st))
     in \<lparr>vp_rows = filter (\<lambda>r. \<not> idle_row r) rows, vp_idle = length (filter idle_row rows),
       vp_counts = (\<lambda>v. length (filter (\<lambda>r. counter_of (vw_state r) = v) rows)),
       vp_alarm = (ve_base e \<noteq> None \<and> alarm st (ve_now e))\<rparr>)"

section \<open>The handlers\<close>

datatype job_start = VerifyEverything | VerifyOne string | RefreshEverything | Regenerate string

type_synonym handled = "nat \<times> job_start list \<times> store"

definition system_exists :: "string \<Rightarrow> store \<Rightarrow> bool" where
  "system_exists key st \<longleftrightarrow> list_ex (\<lambda>s. sr_key s = key) (systems st)"

definition rejects_exo :: "string \<Rightarrow> store \<Rightarrow> bool" where
  "rejects_exo key st \<longleftrightarrow> (case system_of key st of None \<Rightarrow> False | Some s \<Rightarrow> sr_source s = SourceExo)"

text \<open>\<open>slot\<close> is the probe of the shared slot: taken and given back at once; None is no slot.\<close>

definition slot_probe :: "bool option \<Rightarrow> bool" where
  "slot_probe slot = (slot \<noteq> Some True)"

definition handle_verify_all :: "bool \<Rightarrow> bool \<Rightarrow> bool \<Rightarrow> bool option \<Rightarrow> store \<Rightarrow> handled" where
  "handle_verify_all hx conf running slot st =
    (if \<not> hx then (403, [], st) else if \<not> conf then (503, [], st) else if running then (409, [], st)
     else if \<not> slot_probe slot then (409, [], st) else (202, [VerifyEverything], st))"

definition handle_verify_system :: "bool \<Rightarrow> bool \<Rightarrow> bool \<Rightarrow> bool option \<Rightarrow> string \<Rightarrow> store \<Rightarrow> handled" where
  "handle_verify_system hx conf running slot key st =
    (if \<not> hx then (403, [], st) else if \<not> system_exists key st then (404, [], st)
     else if rejects_exo key st then (400, [], st) else if \<not> conf then (503, [], st)
     else if running then (409, [], st) else if \<not> slot_probe slot then (409, [], st) else (202, [VerifyOne key], st))"

definition handle_unhide_all :: "bool \<Rightarrow> string \<Rightarrow> store \<Rightarrow> handled" where
  "handle_unhide_all hx key st =
    (if \<not> hx then (403, [], st) else if \<not> system_exists key st then (404, [], st)
     else (case set_system_hidden_all key False st of (n, st1) \<Rightarrow>
       (200, if 0 < n then [Regenerate ''curation edit''] else [], st1)))"

definition handle_dat_refresh :: "bool \<Rightarrow> bool option \<Rightarrow> store \<Rightarrow> handled" where
  "handle_dat_refresh hx running st =
    (if \<not> hx then (403, [], st) else (case running of None \<Rightarrow> (503, [], st) | Some True \<Rightarrow> (409, [], st)
       | Some False \<Rightarrow> (202, [RefreshEverything], st)))"

text \<open>The refresh of one system runs in the request; it is an argument and gives its error and the store.\<close>

definition handle_dat_refresh_system :: "bool \<Rightarrow> bool \<Rightarrow> (system_row \<Rightarrow> store \<Rightarrow> string option \<times> store) \<Rightarrow> string \<Rightarrow> store \<Rightarrow> string option \<times> handled" where
  "handle_dat_refresh_system hx conf rf key st =
    (if \<not> hx then (None, 403, [], st) else if rejects_exo key st then (None, 400, [], st)
     else if \<not> conf then (None, 503, [], st)
     else (case find (\<lambda>s. sr_key s = key) (systems st) of None \<Rightarrow> (None, 404, [], st)
       | Some s \<Rightarrow> (case rf s st of (err, st1) \<Rightarrow> (map_option (\<lambda>e. key @ '': '' @ e) err, 200, [], st1))))"

text \<open>The report that is served, by the whitelisted key: status and path.\<close>

definition handle_verify_report :: "bool \<Rightarrow> string \<Rightarrow> string \<Rightarrow> store \<Rightarrow> nat \<times> string" where
  "handle_verify_report conf reports arg st = (let key = trim_suffix ''.csv'' arg in
     if \<not> system_exists key st then (404, []) else if \<not> conf then (503, []) else (200, reports @ ''/'' @ key @ ''.csv''))"

section \<open>Refusals show, and every system is counted\<close>

definition names_system :: "(string \<Rightarrow> (string \<times> verify_outcome) list option) \<Rightarrow> string \<Rightarrow> run \<Rightarrow> verify_outcome option" where
  "names_system decode key r = (if rn_kind r \<noteq> ''verify'' then None
     else (case decode (rn_detail r) of None \<Rightarrow> None | Some ocs \<Rightarrow> map_of ocs key))"

text \<open>The newest run, of those looked at, that tells an outcome of the system.\<close>

definition newest_attempt :: "(string \<Rightarrow> (string \<times> verify_outcome) list option) \<Rightarrow> string \<Rightarrow> store \<Rightarrow> (nat \<times> verify_outcome) option" where
  "newest_attempt decode key st = (case find (\<lambda>r. names_system decode key r \<noteq> None) (recent_runs last_attempt_scan st) of
     None \<Rightarrow> None | Some r \<Rightarrow> map_option (Pair (rn_id r)) (names_system decode key r))"

lemma map_of_snoc: "map_of (m @ [(k, v)]) x = (case map_of m x of None \<Rightarrow> if x = k then Some v else None | Some y \<Rightarrow> Some y)"
  by (simp add: map_add_def split: option.split)

lemma note_attempts_lookup:
  "map_of (fold (note_attempt rid) ocs m) key =
    (case map_of m key of None \<Rightarrow> map_option (Pair rid) (map_of ocs key) | Some x \<Rightarrow> Some x)"
proof (induction ocs arbitrary: m)
  case (Cons ko ocs)
  obtain k oc where "ko = (k, oc)" by fastforce
  then show ?case using Cons.IH
    by (auto simp: note_attempt_def map_of_snoc simp del: map_of_append split: option.splits if_splits)
qed (simp split: option.split)

lemma last_attempts_newest: "map_of (last_attempts decode st) key = newest_attempt decode key st"
proof -
  define g where "g = (\<lambda>(r::run) m. if rn_kind r \<noteq> ''verify'' then m
     else (case decode (rn_detail r) of None \<Rightarrow> m | Some ocs \<Rightarrow> fold (note_attempt (rn_id r)) ocs m))"
  have step: "map_of (g r m) key = (case map_of m key of Some x \<Rightarrow> Some x
     | None \<Rightarrow> map_option (Pair (rn_id r)) (names_system decode key r))" for r :: run and m
    by (simp add: g_def names_system_def note_attempts_lookup split: option.split)
  have "map_of (fold g rs m) key = (case map_of m key of Some x \<Rightarrow> Some x
     | None \<Rightarrow> (case find (\<lambda>r. names_system decode key r \<noteq> None) rs of None \<Rightarrow> None
        | Some r \<Rightarrow> map_option (Pair (rn_id r)) (names_system decode key r)))" for rs m
  proof (induction rs arbitrary: m)
    case (Cons r rs)
    show ?case unfolding fold.simps comp_apply Cons.IH step by (auto split: option.splits)
  qed (simp split: option.split)
  then show ?thesis by (simp add: last_attempts_def newest_attempt_def g_def)
qed

lemma classify_verified:
  "classify_verify rep = VsVerified \<Longrightarrow> \<exists>v. rep = Some v \<and> 0 < vr_dat_games v \<and> vr_dat_games v \<le> vr_found v \<and>
     vr_missing v = 0 \<and> vr_unmatched v = 0 \<and> vr_other v = 0 \<and> vr_extra v = 0 \<and> \<not> vr_unchecked v"
  by (cases rep) (auto simp: classify_verify_def split: if_splits)

text \<open>
  C39: The verify page shows a refused system as refused: the verdict of a row is the lock refusal
  exactly when the newest recorded attempt of the system among the last hundred runs is a refusal and
  newer than the report on display; otherwise it is the verdict of that report, and it is green only for
  a report that found every game of a DAT and nothing else.
\<close>

theorem refusal_overrides_the_report:
  assumes "r \<in> set (vp_rows (fetch_verify e st))"
  shows "vw_state r = (case newest_attempt (ve_outcomes e) (sr_key (su_system (vw_summary r))) st of
      Some (rid, DatLock f) \<Rightarrow> if report_run (vw_summary r) < rid then VsDatLock else classify_verify (su_verify (vw_summary r))
    | _ \<Rightarrow> classify_verify (su_verify (vw_summary r))) \<and>
    (vw_state r = VsVerified \<longrightarrow> (\<exists>v. su_verify (vw_summary r) = Some v \<and> 0 < vr_dat_games v \<and> vr_dat_games v \<le> vr_found v \<and>
      vr_missing v = 0 \<and> vr_unmatched v = 0 \<and> vr_other v = 0 \<and> vr_extra v = 0 \<and> \<not> vr_unchecked v))"
proof -
  obtain s where s: "r = row_of_system e st s" using assms by (auto simp: fetch_verify_def Let_def)
  then have v: "vw_summary r = s" by (simp add: row_of_system_def Let_def)
  have a: "vw_state r = (case newest_attempt (ve_outcomes e) (sr_key (su_system s)) st of
      Some (rid, DatLock f) \<Rightarrow> if report_run s < rid then VsDatLock else classify_verify (su_verify s)
    | _ \<Rightarrow> classify_verify (su_verify s))"
  proof (cases "newest_attempt (ve_outcomes e) (sr_key (su_system s)) st")
    case None
    then show ?thesis by (simp add: s row_of_system_def stale_attempt_def last_attempts_newest Let_def)
  next
    case (Some x)
    then show ?thesis
      by (cases x; cases "snd x") (simp_all add: s row_of_system_def stale_attempt_def last_attempts_newest Let_def)
  qed
  have g: "classify_verify (su_verify s) = VsVerified" if green: "vw_state r = VsVerified"
  proof (cases "newest_attempt (ve_outcomes e) (sr_key (su_system s)) st")
    case None
    then show ?thesis using a green by simp
  next
    case (Some x)
    then show ?thesis using a green by (cases x; cases "snd x") (auto split: if_splits)
  qed
  show ?thesis unfolding v by (intro conjI impI) (rule a, rule classify_verified [OF g])
qed

definition shown_system :: system_row where
  "shown_system = \<lparr>sr_key = ''snes'', sr_collection = ''SNES'', sr_bucket = ''cartridge'', sr_core = [], sr_emulator = [], sr_sky = [],
     sr_torrent = [], sr_extensions = [], sr_order = 1, sr_source = SourceCatalogue\<rparr>"

definition refused_store :: store where
  "refused_store = empty_store\<lparr>st_systems := [shown_system],
     st_verify := [(no_verify ''snes'' 3 0)\<lparr>vr_dat_games := 2, vr_found := 2\<rparr>],
     st_runs := [\<lparr>rn_id = 7, rn_kind = ''verify'', rn_started = 0, rn_finished = Some 0, rn_status = RunError, rn_detail = ''x''\<rparr>]\<rparr>"

definition refused_env :: "lock_fault \<Rightarrow> verify_env" where
  "refused_env f = \<lparr>ve_configured = True, ve_running = False, ve_base = None, ve_now = 0,
     ve_outcomes = (\<lambda>d. Some [(''snes'', DatLock f)]), ve_points = (\<lambda>d. None)\<rparr>"

theorem refusal_overrides_the_report_witness:
  "vw_state (hd (vp_rows (fetch_verify (refused_env DatMissing) refused_store))) = VsDatLock"
proof -
  let ?e = "refused_env DatMissing"
  let ?s = "summary_row refused_store shown_system"
  have v: "vw_summary (row_of_system ?e refused_store ?s) = ?s" by (simp add: row_of_system_def Let_def)
  have y: "su_verify ?s \<noteq> None" "sr_source (su_system ?s) \<noteq> SourceExo"
    by (simp_all add: summary_row_def shown_system_def refused_store_def no_verify_def Let_def)
  then have "\<not> idle_row (row_of_system ?e refused_store ?s)" by (simp add: idle_row_def v)
  moreover have "system_summaries refused_store = [?s]" by (simp add: system_summaries_def systems_def refused_store_def)
  ultimately have p: "vp_rows (fetch_verify ?e refused_store) = [row_of_system ?e refused_store ?s]"
    using y by (simp add: fetch_verify_def)
  have k: "sr_key (su_system ?s) = ''snes''" "report_run ?s = 3"
    by (simp_all add: summary_row_def shown_system_def report_run_def refused_store_def no_verify_def Let_def)
  have n: "newest_attempt (ve_outcomes ?e) ''snes'' refused_store = Some (7, DatLock DatMissing)"
    by (simp add: newest_attempt_def names_system_def refused_env_def refused_store_def recent_runs_def last_attempt_scan_def)
  have "row_of_system ?e refused_store ?s \<in> set (vp_rows (fetch_verify ?e refused_store))" by (simp add: p)
  from refusal_overrides_the_report [OF this] show ?thesis by (simp add: p v k n)
qed

text \<open>A hundred newer runs of other kinds, and the refusal is gone.\<close>

lemma refusal_is_forgotten:
  assumes "\<forall>r\<in>set (recent_runs last_attempt_scan st). rn_kind r \<noteq> ''verify''"
  shows "vw_state (row_of_system e st s) = classify_verify (su_verify s)"
proof -
  have "find (\<lambda>r. names_system d k r \<noteq> None) (recent_runs last_attempt_scan st) = None" for d k
    using assms by (auto simp: find_None_iff names_system_def)
  then show ?thesis
    by (simp add: row_of_system_def stale_attempt_def last_attempts_newest newest_attempt_def Let_def)
qed

section \<open>Totals\<close>

lemma sum_partition:
  assumes "distinct ks" "f ` set gs \<subseteq> set ks"
  shows "sum_list (map (\<lambda>k. sum_list (map h (filter (\<lambda>g. f g = k) gs))) ks) = (sum_list (map h gs) :: nat)"
  using assms(2)
proof (induction gs)
  case (Cons g gs)
  have "sum_list (map (\<lambda>k. sum_list (map h (filter (\<lambda>x. f x = k) (g # gs)))) ks) =
      sum_list (map (\<lambda>k. (if f g = k then h g else 0) + sum_list (map h (filter (\<lambda>x. f x = k) gs))) ks)"
    by (rule arg_cong [of _ _ sum_list]) simp
  also have "\<dots> = sum_list (map (\<lambda>k. if f g = k then h g else 0) ks) + sum_list (map h gs)"
    using Cons by (simp add: sum_list_addf)
  also have "sum_list (map (\<lambda>k. if f g = k then h g else 0) ks) = h g"
    using assms(1) Cons.prems by (simp add: sum_list_distinct_conv_sum_set)
  finally show ?case by simp
qed simp

lemma distinct_sort_keys: "distinct (map f (sort_stable lt xs)) = distinct (map f xs)"
  by (metis mset_eq_imp_distinct_iff mset_map mset_sort_stable)

lemma sum_over_systems:
  assumes "wf_store st"
  shows "sum_list (map (\<lambda>s. sum_list (map h (games_of (sr_key s) st))) (systems st)) = (sum_list (map h (st_games st)) :: nat)"
proof -
  have d: "distinct (map sr_key (systems st))"
    using assms by (simp add: wf_store_defs systems_def distinct_sort_keys)
  have "gm_system ` set (st_games st) \<subseteq> set (map sr_key (systems st))"
    using assms by (auto simp: wf_store_defs systems_def system_keys_def)
  from sum_partition [OF d this, of h] show ?thesis by (simp add: games_of_def o_def)
qed

lemma summary_sums:
  assumes "wf_store st"
  shows "sum_list (map su_games (system_summaries st)) = length (st_games st)"
    "sum_list (map su_bytes (system_summaries st)) = sum_list (map gm_size (st_games st))"
  using sum_over_systems [OF assms, of "\<lambda>_. 1"] sum_over_systems [OF assms, of gm_size]
  by (simp_all add: system_summaries_def summary_row_def o_def Let_def sum_list_triv)

lemma length_two: "length (filter P xs) + length (filter (\<lambda>x. \<not> P x) xs) = length xs"
  by (rule sum_length_filter_compl)

lemma counters_add_up:
  "(\<Sum>v\<leftarrow>[VsVerified, VsMissing, VsExtra, VsUnmatched, VsUnchecked, VsUnknown]. length (filter (\<lambda>r. counter_of (vw_state r) = v) rows)) = length rows"
proof (induction rows)
  case (Cons r rows)
  then show ?case by (cases "vw_state r") (simp_all add: counter_of_def)
qed simp

text \<open>On any store that store operations build from an empty one the totals add up: the dashboard counts every game
  and byte of the library once and every system as a card or as empty, and the verify page has every system that is not
  an eXo one once, as a row or as idle, and under exactly one verdict.\<close>

lemma pages_count_everything_once:
  fixes ops :: "store_op list"
  defines "st \<equiv> fold store_step ops empty_store"
  shows "db_games (view_model tm sc st) = length (st_games st) \<and>
    db_bytes (view_model tm sc st) = human_bytes (int (sum_list (map gm_size (st_games st)))) \<and>
    length (db_cards (view_model tm sc st)) + db_empty (view_model tm sc st) = length (st_systems st) \<and>
    length (vp_rows (fetch_verify e st)) + vp_idle (fetch_verify e st) =
      length (filter (\<lambda>s. sr_source s \<noteq> SourceExo) (st_systems st)) \<and>
    (\<Sum>v\<leftarrow>[VsVerified, VsMissing, VsExtra, VsUnmatched, VsUnchecked, VsUnknown]. vp_counts (fetch_verify e st) v) =
      length (filter (\<lambda>s. sr_source s \<noteq> SourceExo) (st_systems st))"
proof -
  have wf: "wf_store st" unfolding st_def by (rule store_runs.run_keeps [OF wf_empty])
  have c: "map (su_games \<circ> ca_summary) (map (card_of tm) xs) = map su_games xs"
    "map (su_bytes \<circ> ca_summary) (map (card_of tm) xs) = map su_bytes xs" for xs by (simp_all add: card_of_def Let_def)
  define rows where "rows = map (row_of_system e st) (filter (\<lambda>s. sr_source (su_system s) \<noteq> SourceExo) (system_summaries st))"
  have "length rows = length (filter (\<lambda>s. sr_source s \<noteq> SourceExo) (systems st))"
    by (simp add: rows_def system_summaries_def filter_map o_def summary_row_def Let_def)
  also have "\<dots> = length (filter (\<lambda>s. sr_source s \<noteq> SourceExo) (st_systems st))"
    unfolding systems_def by (metis mset_filter mset_sort_stable size_mset)
  finally have n: "length rows = length (filter (\<lambda>s. sr_source s \<noteq> SourceExo) (st_systems st))" .
  have f: "vp_rows (fetch_verify e st) = filter (\<lambda>r. \<not> idle_row r) rows" "vp_idle (fetch_verify e st) = length (filter idle_row rows)"
    "vp_counts (fetch_verify e st) = (\<lambda>v. length (filter (\<lambda>r. counter_of (vw_state r) = v) rows))"
    by (simp_all add: fetch_verify_def rows_def Let_def)
  have l: "length (system_summaries st) = length (st_systems st)" by (simp add: system_summaries_def systems_def)
  show ?thesis
    using summary_sums [OF wf] n length_two [of idle_row rows] counters_add_up [of rows] l
      length_two [of ca_active "map (card_of tm) (system_summaries st)"]
    unfolding f view_model_def Let_def dashboard.simps c by simp
qed

end
