(* ===== verification/Downloads.thy ===== *)
theory Downloads
  imports Aria2 VerifyWeb
begin

text \<open>
  internal/web/downloads.go of pkgs/arcade-webapp: the queue of the daemon joined with the systems of the
  catalogue, and the handlers that submit, control and stage downloads. The answers of the daemon, the files of
  the torrent directory, the parser of URIs and the JSON of a run's detail are arguments. Paths are joined by a
  slash. Not modelled: the templates, the deadline of the batch of calls.
\<close>

section \<open>The page\<close>

record download_env =
  de_configured :: bool
  de_incoming :: string
  de_torrents :: string
  de_version :: "a2_error + string"
  de_stat :: "a2_error + global_stat"
  de_active :: "a2_error + a2_download list"
  de_waiting :: "a2_error + a2_download list"
  de_stopped :: "a2_error + a2_download list"

type_synonym torrent_files = "string \<rightharpoonup> string"

definition join_path :: "string \<Rightarrow> string \<Rightarrow> string" where
  "join_path a b = (if a = [] then b else a @ ''/'' @ b)"

text \<open>A download belongs to a system when its directory is one element below the incoming directory.\<close>

definition system_for_dir :: "string \<Rightarrow> string \<Rightarrow> string" where
  "system_for_dir incoming dir = (if incoming = [] \<or> dir = [] then []
     else (case path_rel incoming dir of None \<Rightarrow> []
       | Some rel \<Rightarrow> if rel = ''.'' \<or> prefix ''..'' rel \<or> rel_dir rel \<noteq> ''.'' then [] else rel))"

record queue_row =
  qr_download :: a2_download
  qr_name :: string
  qr_system :: string
  qr_pct :: int
  qr_completed :: string
  qr_total :: string
  qr_speed :: string
  qr_can_pause :: bool
  qr_can_resume :: bool
  qr_can_remove :: bool

definition queue_row_of :: "string \<Rightarrow> a2_download \<Rightarrow> queue_row" where
  "queue_row_of incoming d = \<lparr>qr_download = d, qr_name = download_name d, qr_system = system_for_dir incoming (dl_dir d),
     qr_pct = progress_pct d, qr_completed = human_bytes (dl_completed d), qr_total = human_bytes (dl_total d),
     qr_speed = (if dl_status d = ''active'' then human_bytes (dl_down d) @ ''/s'' else []),
     qr_can_pause = (dl_status d = ''active'' \<or> dl_status d = ''waiting''), qr_can_resume = (dl_status d = ''paused''),
     qr_can_remove = (dl_status d \<noteq> ''removed'')\<rparr>"

record dl_state =
  ds_active :: nat
  ds_queued :: nat
  ds_errored :: nat
  ds_part :: int
  ds_whole :: int

definition zero_dl :: dl_state where
  "zero_dl = \<lparr>ds_active = 0, ds_queued = 0, ds_errored = 0, ds_part = 0, ds_whole = 0\<rparr>"

definition bump :: "a2_download \<Rightarrow> dl_state \<Rightarrow> dl_state" where
  "bump d x = (if dl_status d = ''active'' then x\<lparr>ds_active := Suc (ds_active x), ds_part := wrap64 (ds_part x + dl_completed d),
         ds_whole := wrap64 (ds_whole x + dl_total d)\<rparr>
     else if dl_status d = ''waiting'' \<or> dl_status d = ''paused'' then x\<lparr>ds_queued := Suc (ds_queued x)\<rparr>
     else if dl_status d = ''error'' then x\<lparr>ds_errored := Suc (ds_errored x)\<rparr> else x)"

definition add_download :: "string \<Rightarrow> a2_download \<Rightarrow> (string \<rightharpoonup> dl_state) \<Rightarrow> (string \<rightharpoonup> dl_state)" where
  "add_download incoming d m = (let sys = system_for_dir incoming (dl_dir d)
     in if sys = [] then m else m(sys \<mapsto> bump d (case m sys of None \<Rightarrow> zero_dl | Some x \<Rightarrow> x)))"

record system_dl =
  sl_summary :: system_summary
  sl_downloading :: bool
  sl_queued :: bool
  sl_errored :: bool
  sl_pct :: int
  sl_gids :: nat
  sl_verdict :: verdict
  sl_torrent_ok :: bool

definition system_dl_of :: "download_env \<Rightarrow> torrent_files \<Rightarrow> (string \<rightharpoonup> dl_state) \<Rightarrow> system_summary \<Rightarrow> system_dl" where
  "system_dl_of e files m s = (let x = (case m (sr_key (su_system s)) of None \<Rightarrow> zero_dl | Some x \<Rightarrow> x); t = sr_torrent (su_system s)
     in \<lparr>sl_summary = s, sl_downloading = (0 < ds_active x), sl_queued = (0 < ds_queued x), sl_errored = (0 < ds_errored x),
       sl_pct = (if 0 < ds_whole x then percent_of (ds_part x) (ds_whole x) else 0),
       sl_gids = ds_active x + ds_queued x + ds_errored x, sl_verdict = classify_verify (su_verify s),
       sl_torrent_ok = (t \<noteq> [] \<and> de_torrents e \<noteq> [] \<and> files (join_path (de_torrents e) t) \<noteq> None)\<rparr>)"

definition idle_dl :: "system_dl \<Rightarrow> bool" where
  "idle_dl r \<longleftrightarrow> \<not> sl_downloading r \<and> \<not> sl_queued r \<and> \<not> sl_errored r \<and> \<not> sl_torrent_ok r \<and>
     su_games (sl_summary r) = 0 \<and> su_date (sl_summary r) = []"

definition join_systems :: "download_env \<Rightarrow> torrent_files \<Rightarrow> a2_download list \<Rightarrow> store \<Rightarrow> system_dl list \<times> nat" where
  "join_systems e files queue st =
    (let rows = map (system_dl_of e files (fold (add_download (de_incoming e)) queue Map.empty))
           (filter (\<lambda>s. sr_source (su_system s) \<noteq> SourceExo) (system_summaries st))
     in (filter (\<lambda>r. \<not> idle_dl r) rows, length (filter idle_dl rows)))"

record downloads_page =
  dp_reachable :: bool
  dp_error :: string
  dp_version :: string
  dp_stat :: global_stat
  dp_queue :: "queue_row list"
  dp_throughput :: int
  dp_partial :: bool
  dp_hidden_waiting :: int
  dp_hidden_stopped :: int
  dp_systems :: "system_dl list"
  dp_idle :: nat
  dp_health :: "string \<times> string"

definition friendly_error :: "a2_error \<Rightarrow> string" where
  "friendly_error e = (case e of TransportError m t \<Rightarrow> ''aria2 unreachable'' | RpcError m c t \<Rightarrow> ''aria2: '' @ t | _ \<Rightarrow> ''aria2 error'')"

definition max_waiting_shown :: int where "max_waiting_shown = 100"
definition max_stopped_shown :: int where "max_stopped_shown = 50"

definition got :: "a2_error + 'a \<Rightarrow> 'a option" where
  "got r = (case r of Inl e \<Rightarrow> None | Inr x \<Rightarrow> Some x)"

definition got_list :: "a2_error + 'a list \<Rightarrow> 'a list" where
  "got_list r = (case r of Inl e \<Rightarrow> [] | Inr xs \<Rightarrow> xs)"

text \<open>What a list that was cut off hides, by the daemon's own count.\<close>

definition hidden_of :: "int \<Rightarrow> a2_error + 'a list \<Rightarrow> int" where
  "hidden_of n r = (case r of Inl e \<Rightarrow> 0 | Inr xs \<Rightarrow> max 0 (n - int (length xs)))"

definition fetch_downloads :: "download_env \<Rightarrow> torrent_files \<Rightarrow> store \<Rightarrow> downloads_page" where
  "fetch_downloads e files st =
    (if \<not> de_configured e
     then (case join_systems e files [] st of (sys, idle) \<Rightarrow>
       \<lparr>dp_reachable = False, dp_error = [], dp_version = [], dp_stat = zero_stat, dp_queue = [], dp_throughput = 0,
        dp_partial = False, dp_hidden_waiting = 0, dp_hidden_stopped = 0, dp_systems = sys, dp_idle = idle,
        dp_health = (''not configured'', ''unknown'')\<rparr>)
     else
      (let up = (got (de_version e) \<noteq> None \<or> got (de_stat e) \<noteq> None);
           version = (case de_version e of Inl _ \<Rightarrow> [] | Inr v \<Rightarrow> v);
           stat = (case de_stat e of Inl _ \<Rightarrow> zero_stat | Inr g \<Rightarrow> g);
           queue = (if up then got_list (de_active e) @ got_list (de_waiting e) @ got_list (de_stopped e) else [])
       in case join_systems e files queue st of (sys, idle) \<Rightarrow>
         \<lparr>dp_reachable = up, dp_error = (case de_stat e of Inl x \<Rightarrow> friendly_error x | Inr _ \<Rightarrow> []), dp_version = version, dp_stat = stat,
          dp_queue = map (queue_row_of (de_incoming e)) queue,
          dp_throughput = (if up then wrap64 (sum_list (map dl_down (got_list (de_active e)))) else 0),
          dp_partial = (up \<and> (got (de_active e) = None \<or> got (de_waiting e) = None \<or> got (de_stopped e) = None)),
          dp_hidden_waiting = (if up then hidden_of (gs_waiting stat) (de_waiting e) else 0),
          dp_hidden_stopped = (if up then hidden_of (gs_stopped stat) (de_stopped e) else 0),
          dp_systems = sys, dp_idle = idle,
          dp_health = (if \<not> up then (''aria2 unreachable'', ''stale'') else if version \<noteq> [] then (''aria2 '' @ version, ''ok'')
            else (''aria2 up'', ''ok''))\<rparr>))"

text \<open>The summary on the dashboard: the downloads in error.\<close>

definition errored_count :: "downloads_page \<Rightarrow> nat" where
  "errored_count p = length (filter (\<lambda>r. dl_status (qr_download r) = ''error'') (dp_queue p))"

section \<open>Submitting\<close>

datatype run_note = AcquiredGid string string | AlreadyKnown string string | StagedTorrent string nat string | UriGid string string

definition rpc_error_text :: "a2_error \<Rightarrow> string" where
  "rpc_error_text e = (case e of
      TransportError m t \<Rightarrow> ''aria2: '' @ m @ '': '' @ t
    | RpcError m c t \<Rightarrow> ''aria2: '' @ m @ '': code '' @ itoa c @ '': '' @ t
    | TorrentUnreadable p \<Rightarrow> ''aria2: read torrent '' @ p)"

definition acquire_torrent :: "download_env \<Rightarrow> torrent_files \<Rightarrow> (run_note \<Rightarrow> string) \<Rightarrow> instant \<Rightarrow> (nat \<Rightarrow> bool) \<Rightarrow>
    (string \<Rightarrow> nat \<Rightarrow> a2_error + json option) \<Rightarrow> string \<Rightarrow> store \<Rightarrow> string \<times> nat \<times> store" where
  "acquire_torrent e files note tm stop call sys st =
    (case find (\<lambda>s. sr_key (su_system s) = sys) (system_summaries st) of
       None \<Rightarrow> (''unknown system '' @ sys, 0, st)
     | Some s \<Rightarrow> (let t = sr_torrent (su_system s); path = join_path (de_torrents e) t in
         if t = [] then (sys @ '' has no torrent in the catalogue'', 0, st)
         else if files path = None then (''torrent not staged: '' @ t, 0, st)
         else (case start_run ''acquire'' tm st of (rid, st1) \<Rightarrow>
           (case add_torrent (files path) stop call path of
             (Inr gid, n) \<Rightarrow> ([], n, finish_run rid RunOk (note (AcquiredGid sys gid)) tm st1)
           | (Inl x, n) \<Rightarrow> if is_already_registered x
               then ([], n, finish_run rid RunOk (note (AlreadyKnown sys ''already registered'')) tm st1)
               else (''submit failed: '' @ friendly_error x, n, finish_run rid RunError (sys @ '': '' @ rpc_error_text x) tm st1)))))"

definition handle_acquire :: "bool \<Rightarrow> download_env \<Rightarrow> torrent_files \<Rightarrow> (run_note \<Rightarrow> string) \<Rightarrow> instant \<Rightarrow> (nat \<Rightarrow> bool) \<Rightarrow>
    (string \<Rightarrow> nat \<Rightarrow> a2_error + json option) \<Rightarrow> string \<Rightarrow> store \<Rightarrow> nat \<times> downloads_page option \<times> store" where
  "handle_acquire hx e files note tm stop call sys st =
    (if \<not> hx then (403, None, st) else if \<not> de_configured e then (503, None, st)
     else (case acquire_torrent e files note tm stop call sys st of (msg, n, st1) \<Rightarrow>
       (let p = fetch_downloads e files st1 in (202, Some (if msg \<noteq> [] then p\<lparr>dp_error := msg\<rparr> else p), st1))))"

datatype dl_action = Pause | Resume | Remove

definition action_name :: "dl_action \<Rightarrow> string" where
  "action_name a = (case a of Pause \<Rightarrow> ''pause'' | Resume \<Rightarrow> ''resume'' | Remove \<Rightarrow> ''remove'')"

text \<open>The call is given by its method and the id of the download.\<close>

definition action_method :: "dl_action \<Rightarrow> string" where
  "action_method a = (case a of Pause \<Rightarrow> ''aria2.pause'' | Resume \<Rightarrow> ''aria2.unpause'' | Remove \<Rightarrow> ''aria2.remove'')"

definition dl_control :: "bool \<Rightarrow> download_env \<Rightarrow> torrent_files \<Rightarrow> (string \<Rightarrow> string \<Rightarrow> a2_error option) \<Rightarrow> dl_action \<Rightarrow> string \<Rightarrow>
    store \<Rightarrow> nat \<times> downloads_page option" where
  "dl_control hx e files call a gid st =
    (if \<not> hx then (403, None) else if \<not> de_configured e then (503, None)
     else (let p = fetch_downloads e files st in (200, Some (case call (action_method a) gid of None \<Rightarrow> p
       | Some x \<Rightarrow> p\<lparr>dp_error := action_name a @ '' failed: '' @ friendly_error x\<rparr>))))"

section \<open>Staging\<close>

definition stage_target :: "string \<Rightarrow> store \<Rightarrow> nat + string" where
  "stage_target sys st = (case find (\<lambda>s. sr_key s = sys) (systems st) of
      None \<Rightarrow> Inl 404
    | Some s \<Rightarrow> if sr_source s = SourceExo then Inl 400 else if sr_torrent s = [] then Inl 400 else Inr (sr_torrent s))"

datatype upload = BadForm | NoFile | UploadedFile string "string option"

datatype store_fault = OpenFails | WriteFails nat | CloseFails

definition handle_stage_torrent :: "bool \<Rightarrow> string \<Rightarrow> bool \<Rightarrow> store_fault option \<Rightarrow> (run_note \<Rightarrow> string) \<Rightarrow> instant \<Rightarrow> upload \<Rightarrow> string \<Rightarrow>
    store \<Rightarrow> torrent_files \<Rightarrow> nat \<times> store \<times> torrent_files" where
  "handle_stage_torrent hx dir mkdir fault note tm up sys st files =
    (if \<not> hx then (403, st, files)
     else (case stage_target sys st of Inl c \<Rightarrow> (c, st, files)
       | Inr name \<Rightarrow> (case up of
           BadForm \<Rightarrow> (413, st, files)
         | NoFile \<Rightarrow> (400, st, files)
         | UploadedFile fname content \<Rightarrow> (let dst = join_path dir name in
             if \<not> equal_fold (path_ext fname) ''.torrent'' then (400, st, files)
             else if \<not> mkdir then (500, st, files)
             else (case content of None \<Rightarrow> (400, st, files)
               | Some b \<Rightarrow> if b = [] then (400, st, files)
                   else if files dst \<noteq> None then (409, st, files)
                   else (case fault of
                       Some OpenFails \<Rightarrow> (500, st, files)
                     | Some (WriteFails n) \<Rightarrow> (500, st, files(dst \<mapsto> take n b))
                     | Some CloseFails \<Rightarrow> (500, st, files(dst \<mapsto> b))
                     | None \<Rightarrow> (case start_run ''stage-torrent'' tm st of (rid, st1) \<Rightarrow>
                         (200, finish_run rid RunOk (note (StagedTorrent sys (length b) name)) tm st1, files(dst \<mapsto> b)))))))))"

definition max_stage_uri :: nat where "max_stage_uri = 8192"

text \<open>\<open>parse\<close> gives scheme and host of a URI.\<close>

definition uri_allowed :: "(string \<Rightarrow> (string \<times> string) option) \<Rightarrow> string \<Rightarrow> bool" where
  "uri_allowed parse u = (case parse u of None \<Rightarrow> False
    | Some (scheme, host) \<Rightarrow> scheme = ''magnet'' \<or> (scheme = ''http'' \<or> scheme = ''https'') \<and> host \<noteq> [])"

definition handle_stage_uri :: "bool \<Rightarrow> download_env \<Rightarrow> torrent_files \<Rightarrow> (run_note \<Rightarrow> string) \<Rightarrow> instant \<Rightarrow>
    (string \<Rightarrow> (string \<times> string) option) \<Rightarrow> (nat \<Rightarrow> bool) \<Rightarrow> (string \<Rightarrow> nat \<Rightarrow> a2_error + json option) \<Rightarrow> string option \<Rightarrow> string \<Rightarrow>
    store \<Rightarrow> nat \<times> downloads_page option \<times> store" where
  "handle_stage_uri hx e files note tm parse stop call form sys st =
    (if \<not> hx then (403, None, st) else if \<not> de_configured e then (503, None, st)
     else (case stage_target sys st of Inl c \<Rightarrow> (c, None, st)
       | Inr name \<Rightarrow> (case form of None \<Rightarrow> (400, None, st)
         | Some raw \<Rightarrow> (let uri = trim_space raw in
             if max_stage_uri < length uri then (413, None, st)
             else if \<not> uri_allowed parse uri then (400, None, st)
             else (case start_run ''acquire'' tm st of (rid, st1) \<Rightarrow>
               (case add_uri stop (call uri) of
                 (Inr gid, n) \<Rightarrow> (let st2 = finish_run rid RunOk (note (UriGid sys gid)) tm st1
                     in (200, Some (fetch_downloads e files st2), st2))
               | (Inl x, n) \<Rightarrow> if is_already_registered x
                   then (let st2 = finish_run rid RunOk (note (AlreadyKnown sys ''uri already registered'')) tm st1
                     in (200, Some (fetch_downloads e files st2), st2))
                   else (let st2 = finish_run rid RunError (sys @ '': '' @ rpc_error_text x) tm st1
                     in (200, Some ((fetch_downloads e files st2)\<lparr>dp_error := ''submit failed: '' @ friendly_error x\<rparr>), st2))))))))"

end
