(* ===== verification/DownloadsSpec.thy ===== *)
theory DownloadsSpec
  imports Downloads
begin

text \<open>
  The download pages: what is submitted is found again, the joined view tells the queue, and a submission is
  reported as it went although requests and replies may be lost.
\<close>

section \<open>A submitted download is found under its system\<close>

lemma rel_elems_below: "rel_elems bs (bs @ ts) = ts"
  by (induction bs) (cases ts; simp)+

text \<open>A key that is one plain path element.\<close>

definition plain_key :: "string \<Rightarrow> bool" where
  "plain_key k \<longleftrightarrow> k \<noteq> [] \<and> k \<noteq> ''.'' \<and> \<not> prefix ''..'' k \<and> CHR ''/'' \<notin> set k"

lemma clean_below: "plain_key k \<Longrightarrow> clean_abs (dir @ CHR ''/'' # k) = clean_abs dir @ [k]"
  by (auto simp: clean_abs_def plain_key_def split_byte_sep split_byte_free clean_step_def)

lemma submitted_dir:
  assumes "is_abs incoming" "plain_key sys"
  shows "system_for_dir incoming (incoming @ CHR ''/'' # sys) = sys"
proof -
  have "is_abs (incoming @ CHR ''/'' # sys)" using assms(1) by (auto simp: is_abs_def prefix_def)
  then have r: "path_rel incoming (incoming @ CHR ''/'' # sys) = Some sys"
    using assms by (simp add: path_rel_def clean_below rel_elems_below plain_key_def join_with_def)
  have "incoming \<noteq> []" using assms(1) by (auto simp: is_abs_def)
  moreover have "rel_dir sys = ''.''"
    using assms(2) by (simp add: rel_dir_def last_index_byte_None [THEN iffD2] plain_key_def)
  ultimately show ?thesis using r assms(2) by (simp add: system_for_dir_def plain_key_def Let_def)
qed

text \<open>A download that is submitted for a system is attributed to that system when the daemon lists it with the
  directory of the submission.\<close>

lemma submitted_download_is_attributed:
  assumes "is_abs incoming" "plain_key sys"
  shows "system_for_dir incoming (ao_dir (acquire_torrent_options incoming sys tree)) = sys"
  using submitted_dir [OF assms] by (simp add: acquire_torrent_options_def Let_def)

section \<open>The joined view\<close>

definition attributed :: "string \<Rightarrow> a2_download list \<Rightarrow> string \<Rightarrow> a2_download list" where
  "attributed incoming queue key = filter (\<lambda>d. system_for_dir incoming (dl_dir d) = key) queue"

definition with_status :: "string list \<Rightarrow> a2_download list \<Rightarrow> nat" where
  "with_status ss queue = length (filter (\<lambda>d. dl_status d \<in> set ss) queue)"

lemma add_downloads:
  assumes "key \<noteq> []"
  shows "(case fold (add_download incoming) queue m key of None \<Rightarrow> zero_dl | Some x \<Rightarrow> x) =
    fold bump (attributed incoming queue key) (case m key of None \<Rightarrow> zero_dl | Some x \<Rightarrow> x)"
proof (induction queue arbitrary: m)
  case (Cons d queue)
  have "(case add_download incoming d m key of None \<Rightarrow> zero_dl | Some x \<Rightarrow> x) =
      (if system_for_dir incoming (dl_dir d) = key then bump d (case m key of None \<Rightarrow> zero_dl | Some x \<Rightarrow> x)
       else (case m key of None \<Rightarrow> zero_dl | Some x \<Rightarrow> x))"
    using assms by (auto simp: add_download_def Let_def)
  then show ?case using Cons.IH [of "add_download incoming d m"] by (simp add: attributed_def)
qed (simp add: attributed_def)

lemma bumps:
  "ds_active (fold bump ds x) = ds_active x + with_status [''active''] ds"
  "ds_queued (fold bump ds x) = ds_queued x + with_status [''waiting'', ''paused''] ds"
  "ds_errored (fold bump ds x) = ds_errored x + with_status [''error''] ds"
  by (induction ds arbitrary: x) (auto simp: bump_def with_status_def)

text \<open>The system table tells the queue: a row is downloading, queued or in error exactly when the daemon lists a
  download of its directory in such a state, its count is that of those downloads, eXo systems never show, and a system
  without a row has no such download, no staged torrent, no game and no DAT.\<close>

lemma system_table_tells_the_queue:
  assumes "join_systems e files queue st = (rows, idle)" "s \<in> set (system_summaries st)" "sr_key (su_system s) \<noteq> []"
    "sr_source (su_system s) \<noteq> SourceExo" "mine = attributed (de_incoming e) queue (sr_key (su_system s))"
    "row = system_dl_of e files (fold (add_download (de_incoming e)) queue Map.empty) s"
  shows "(sl_downloading row \<longleftrightarrow> (\<exists>d\<in>set mine. dl_status d = ''active'')) \<and>
    (sl_queued row \<longleftrightarrow> (\<exists>d\<in>set mine. dl_status d = ''waiting'' \<or> dl_status d = ''paused'')) \<and>
    (sl_errored row \<longleftrightarrow> (\<exists>d\<in>set mine. dl_status d = ''error'')) \<and>
    sl_gids row = with_status [''active'', ''waiting'', ''paused'', ''error''] mine \<and>
    (row \<in> set rows \<or> with_status [''active'', ''waiting'', ''paused'', ''error''] mine = 0 \<and> \<not> sl_torrent_ok row \<and>
       su_games s = 0 \<and> su_date s = []) \<and>
    (\<forall>r\<in>set rows. sr_source (su_system (sl_summary r)) \<noteq> SourceExo)"
proof -
  define x where "x = fold bump mine zero_dl"
  have x: "(case fold (add_download (de_incoming e)) queue Map.empty (sr_key (su_system s)) of None \<Rightarrow> zero_dl | Some x \<Rightarrow> x) = x"
    using add_downloads [OF assms(3), of "de_incoming e" queue Map.empty] by (simp add: x_def assms(5))
  have f: "sl_downloading row = (0 < ds_active x)" "sl_queued row = (0 < ds_queued x)" "sl_errored row = (0 < ds_errored x)"
      "sl_gids row = ds_active x + ds_queued x + ds_errored x" "sl_summary row = s"
    by (simp_all add: assms(6) system_dl_of_def x Let_def)
  have c: "ds_active x = with_status [''active''] mine" "ds_queued x = with_status [''waiting'', ''paused''] mine"
      "ds_errored x = with_status [''error''] mine"
    by (simp_all add: x_def bumps zero_dl_def)
  have all: "with_status [''active'', ''waiting'', ''paused'', ''error''] ds =
      with_status [''active''] ds + with_status [''waiting'', ''paused''] ds + with_status [''error''] ds" for ds
    by (induction ds) (auto simp: with_status_def)
  have none: "with_status ss ds = 0 \<longleftrightarrow> (\<forall>d\<in>set ds. dl_status d \<notin> set ss)" for ss ds
    by (simp add: with_status_def filter_empty_conv)
  have some: "0 < with_status ss ds \<longleftrightarrow> (\<exists>d\<in>set ds. dl_status d \<in> set ss)" for ss ds
    using none [of ss ds] by auto
  have mem: "row \<in> set rows \<or> idle_dl row"
    using assms(1,2,4,6) by (auto simp: join_systems_def Let_def)
  have exo: "\<forall>r\<in>set rows. sr_source (su_system (sl_summary r)) \<noteq> SourceExo"
    using assms(1) by (auto simp: join_systems_def system_dl_of_def Let_def)
  show ?thesis
    using mem exo f(5) unfolding idle_dl_def f c all by (auto simp: none some)
qed


lemma su_system_summary_row [simp]: "su_system (summary_row st s) = s"
  by (simp add: summary_row_def Let_def)

text \<open>A system with one active download and one that failed.\<close>

definition sample_env :: download_env where
  "sample_env = \<lparr>de_configured = True, de_incoming = ''/in'', de_torrents = ''/t'', de_version = Inr ''1'', de_stat = Inr zero_stat,
     de_active = Inr [], de_waiting = Inr [], de_stopped = Inr []\<rparr>"

definition sample_queue :: "a2_download list" where
  "sample_queue =
     [zero_download\<lparr>dl_status := ''active'', dl_dir := ''/in/snes''\<rparr>, zero_download\<lparr>dl_status := ''error'', dl_dir := ''/in/snes''\<rparr>]"

definition sample_shelf :: store where
  "sample_shelf = empty_store\<lparr>st_systems := [shown_system]\<rparr>"

section \<open>A submission is reported as it went\<close>

text \<open>
  A daemon that knows a torrent or not: it takes one it does not know or refuses it, and answers for a known one
  with the code of a duplicate. A request can be lost, and so can the reply to a request it has carried out.
\<close>

datatype fate = RequestLost | ReplyLost | Arrives

definition honest_daemon :: "('d \<Rightarrow> bool) \<Rightarrow> ('d \<Rightarrow> (a2_error + json option) \<times> 'd) \<Rightarrow> bool" where
  "honest_daemon knows ans \<longleftrightarrow> (\<forall>d. if knows d then (\<exists>m t. ans d = (Inl (RpcError m already_registered_code t), d))
     else (\<exists>g d1. ans d = (Inr (Some (JStr g)), d1) \<and> knows d1) \<or>
       (\<exists>m c t. ans d = (Inl (RpcError m c t), d) \<and> c \<noteq> already_registered_code))"

fun daemon_at :: "('d \<Rightarrow> (a2_error + json option) \<times> 'd) \<Rightarrow> (nat \<Rightarrow> fate) \<Rightarrow> 'd \<Rightarrow> nat \<Rightarrow> 'd" where
  "daemon_at ans f d 0 = d"
| "daemon_at ans f d (Suc k) = (if f k = RequestLost then daemon_at ans f d k else snd (ans (daemon_at ans f d k)))"

definition reply_at :: "('d \<Rightarrow> (a2_error + json option) \<times> 'd) \<Rightarrow> (nat \<Rightarrow> fate) \<Rightarrow> 'd \<Rightarrow> nat \<Rightarrow> a2_error + json option" where
  "reply_at ans f d k = (if f k = Arrives then fst (ans (daemon_at ans f d k)) else Inl (TransportError [] []))"

lemma reply_cases:
  assumes "honest_daemon knows ans"
  shows "(case reply_at ans f d k of
      Inr v \<Rightarrow> (\<exists>g. v = Some (JStr g)) \<and> knows (daemon_at ans f d (Suc k))
    | Inl (RpcError m c t) \<Rightarrow> knows (daemon_at ans f d (Suc k)) = (c = already_registered_code)
    | Inl (TransportError m t) \<Rightarrow> f k \<noteq> Arrives
    | Inl (TorrentUnreadable p) \<Rightarrow> False)"
proof (cases "f k = Arrives")
  case True
  let ?d = "daemon_at ans f d k"
  consider m t where "knows ?d" "ans ?d = (Inl (RpcError m already_registered_code t), ?d)"
    | g d1 where "ans ?d = (Inr (Some (JStr g)), d1)" "knows d1"
    | m c t where "\<not> knows ?d" "ans ?d = (Inl (RpcError m c t), ?d)" "c \<noteq> already_registered_code"
    using assms unfolding honest_daemon_def by meson
  then show ?thesis by cases (simp_all add: reply_at_def True)
qed (simp add: reply_at_def)

text \<open>Of a submission that ends after \<open>n\<close> calls.\<close>

lemma submission_cases:
  assumes "honest_daemon knows ans" "submit m stop (reply_at ans f d) = (r, n)"
  shows "n \<le> 3 \<and> (case r of
      Inr v \<Rightarrow> (\<exists>g. v = Some (JStr g)) \<and> knows (daemon_at ans f d n)
    | Inl (RpcError m1 c t) \<Rightarrow> knows (daemon_at ans f d n) = (c = already_registered_code)
    | Inl (TransportError m1 t) \<Rightarrow> (\<forall>i<n. f i \<noteq> Arrives)
    | Inl (TorrentUnreadable p) \<Rightarrow> False)"
proof -
  have l: "submit_loop m stop (reply_at ans f d) 0 (Suc submit_retries) (TransportError m []) = (r, n)"
    using assms(2) by (simp add: submit_def)
  have n: "n \<le> 3" using submit_loop_calls [OF l] by (simp add: submit_retries_def)
  have lost: "f i \<noteq> Arrives" if "\<exists>m t. reply_at ans f d i = Inl (TransportError m t)" for i
    using reply_cases [OF assms(1), where f = f and d = d and k = i] that by auto
  have tail: "\<exists>m1 t. TransportError m [] = TransportError m1 t" by blast
  note s = submit_loop_cases [OF l tail]
  have before: "\<forall>i<n. Suc i < n \<longrightarrow> f i \<noteq> Arrives" using s lost by simp
  have "(\<exists>m t. r = Inl (TransportError m t)) \<and> (\<forall>i<n. f i \<noteq> Arrives) \<or> 0 < n \<and> r = reply_at ans f d (n - 1)"
    using s lost by (elim conjE disjE) simp_all
  then show ?thesis
  proof (elim disjE conjE exE)
    fix m1 t assume "r = Inl (TransportError m1 t)" "\<forall>i<n. f i \<noteq> Arrives"
    then show ?thesis using n by simp
  next
    assume "0 < n" and r: "r = reply_at ans f d (n - 1)"
    then obtain k where k: "n = Suc k" by (cases n) auto
    have lost_before: "f i \<noteq> Arrives" if "i < k" for i using before that k by simp
    note a = reply_cases [OF assms(1), where f = f and d = d and k = k]
    show ?thesis
    proof (cases r)
      case (Inr v)
      then show ?thesis using n a k r by (simp del: daemon_at.simps)
    next
      case (Inl x)
      then show ?thesis using n a k r lost_before by (cases x) (auto simp: less_Suc_eq simp del: daemon_at.simps)
    qed
  qed
qed

lemma finished_run: "\<exists>r\<in>set (st_runs (finish_run (st_next_run st) status detail tm (snd (start_run kind tm st)))).
    rn_id r = st_next_run st \<and> rn_kind r = kind \<and> rn_status r = status"
  by (auto simp: finish_run_def start_run_def update_where_def)

text \<open>
  C40: A submission is reported as it went: a download that is reported as submitted is registered, and
  one that is registered is reported as failed only if no reply of any of the at most three calls has
  arrived; the run is recorded with the outcome that is shown. Requests and replies may be lost.
\<close>

theorem acquire_tells_the_truth:
  assumes "honest_daemon knows ans"
    "acquire_torrent e files note tm stop (\<lambda>torrent. reply_at ans f d) sys st = (msg, n, st1)" "0 < n"
  shows "n \<le> 3 \<and> (msg = [] \<longrightarrow> knows (daemon_at ans f d n)) \<and>
    (msg \<noteq> [] \<and> knows (daemon_at ans f d n) \<longrightarrow> (\<forall>i<n. f i \<noteq> Arrives)) \<and>
    (\<exists>r\<in>set (st_runs st1). rn_id r = st_next_run st \<and> rn_kind r = ''acquire'' \<and>
       rn_status r = (if msg = [] then RunOk else RunError))"
proof -
  obtain s raw path where found: "find (\<lambda>s. sr_key (su_system s) = sys) (system_summaries st) = Some s"
      "sr_torrent (su_system s) \<noteq> []" "path = join_path (de_torrents e) (sr_torrent (su_system s))" "files path = Some raw"
    using assms(2,3) by (auto simp: acquire_torrent_def Let_def split: option.splits if_splits)
  obtain r0 where sub: "submit ''aria2.addTorrent'' stop (reply_at ans f d) = (r0, n)"
      and r: "add_torrent (files path) stop (\<lambda>torrent. reply_at ans f d) path = (read_gid ''aria2.addTorrent'' r0, n)"
    using assms(2) found
    by (cases "submit ''aria2.addTorrent'' stop (reply_at ans f d)")
      (auto simp: acquire_torrent_def add_torrent_def start_run_def Let_def split: sum.splits if_splits)
  note out = assms(2) [unfolded acquire_torrent_def, simplified found(1) option.case Let_def found(3) [symmetric] r]
  note c = submission_cases [OF assms(1) sub]
  show ?thesis
  proof (cases r0)
    case (Inr v)
    then show ?thesis using c out found finished_run [of st RunOk _ tm "''acquire''"]
      by (auto simp: read_gid_def read_result_def start_run_def)
  next
    case (Inl x)
    then show ?thesis using c out found finished_run [of st _ _ tm "''acquire''"]
      by (cases x) (auto simp: read_gid_def read_result_def is_already_registered_def start_run_def split: if_splits)
  qed
qed

text \<open>The reply to the first call is lost, so the second one is told of a duplicate.\<close>

definition sample_daemon :: "bool \<Rightarrow> (a2_error + json option) \<times> bool" where
  "sample_daemon d = (if d then (Inl (RpcError [] 12 []), True) else (Inr (Some (JStr ''g'')), True))"

definition sample_fate :: "nat \<Rightarrow> fate" where
  "sample_fate k = (if k = 0 then ReplyLost else Arrives)"

definition torrent_shelf :: store where
  "torrent_shelf = empty_store\<lparr>st_systems := [shown_system\<lparr>sr_torrent := ''a''\<rparr>]\<rparr>"

theorem acquire_tells_the_truth_witness:
  "daemon_at sample_daemon sample_fate False 2"
proof -
  let ?r = "reply_at sample_daemon sample_fate False"
  have honest: "honest_daemon id sample_daemon"
    by (auto simp: honest_daemon_def sample_daemon_def already_registered_code_def)
  have r: "?r 0 = Inl (TransportError [] [])" "?r 1 = Inl (RpcError [] 12 [])"
    by (simp_all add: reply_at_def sample_fate_def sample_daemon_def)
  have sub: "submit m (\<lambda>k. False) ?r = (Inl (RpcError [] 12 []), 2)" for m
    using r by (simp add: submit_def submit_retries_def numeral_2_eq_2)
  let ?s = "summary_row torrent_shelf (shown_system\<lparr>sr_torrent := ''a''\<rparr>)"
  have s: "system_summaries torrent_shelf = [?s]"
    by (simp add: system_summaries_def systems_def torrent_shelf_def)
  have "\<exists>st1. acquire_torrent sample_env (\<lambda>p. Some []) (\<lambda>n. []) 0 (\<lambda>k. False) (\<lambda>torrent. ?r) ''snes'' torrent_shelf = ([], 2, st1)"
    by (simp add: acquire_torrent_def s shown_system_def add_torrent_def sub start_run_def read_gid_def read_result_def
      is_already_registered_def already_registered_code_def Let_def)
  then obtain st1 where a: "acquire_torrent sample_env (\<lambda>p. Some []) (\<lambda>n. []) 0 (\<lambda>k. False) (\<lambda>torrent. ?r) ''snes''
      torrent_shelf = ([], 2, st1)" ..
  from acquire_tells_the_truth [OF honest a] show ?thesis by simp
qed

section \<open>Staging\<close>

lemma stage_target_code: "stage_target sys st = Inl c \<Longrightarrow> c = 400 \<or> c = 404"
  by (auto simp: stage_target_def split: option.splits if_splits)

text \<open>Staging a torrent never changes a file that is there, and an upload that is accepted is stored whole under
  the name of the catalogue, so that the system can be acquired; a refused one leaves the catalogue as it is.\<close>

lemma staging_never_overwrites:
  assumes "handle_stage_torrent hx dir mkdir fault note tm up sys st files = (c, st1, files1)"
  shows "(\<forall>p. files p \<noteq> None \<longrightarrow> files1 p = files p) \<and> (c \<noteq> 200 \<longrightarrow> st1 = st) \<and>
    (c = 200 \<longrightarrow> (\<exists>name fname b. stage_target sys st = Inr name \<and> up = UploadedFile fname (Some b) \<and> b \<noteq> [] \<and>
       files (join_path dir name) = None \<and> files1 = files(join_path dir name \<mapsto> b)))"
    using assms unfolding handle_stage_torrent_def Let_def
    by (auto dest: stage_target_code split: if_splits sum.splits upload.splits option.splits store_fault.splits prod.splits)

text \<open>A write that fails leaves a part of the torrent, which no later upload replaces.\<close>

lemma torn_torrent_blocks_uploads:
  assumes "stage_target sys st = Inr name" "equal_fold (path_ext fname) ''.torrent''" "b \<noteq> []" "files (join_path dir name) = None"
    "handle_stage_torrent True dir True (Some (WriteFails n)) note tm (UploadedFile fname (Some b)) sys st files = (c, st1, files1)"
  shows "c = 500 \<and> files1 (join_path dir name) = Some (take n b) \<and>
    handle_stage_torrent True dir True None note tm (UploadedFile fname (Some b)) sys st1 files1 = (409, st1, files1)"
  using assms by (auto simp: handle_stage_torrent_def Let_def)

end
