(* ===== verification/SunoClip.thy ===== *)
theory SunoClip
  imports GoDecode
begin

text \<open>
  What pkgs/suno-top and pkgs/suno-backfill share: the decoding of a clip object and the tables of the
  schema \<open>suno\<close> with the statements that write clips and sightings. A table is the list of its rows in
  insertion order, with a primary key; \<open>ON CONFLICT\<close> is \<open>upsert\<close>. The jsonb column keeps the value, not
  its spelling.
\<close>

section \<open>A clip object\<close>

record clip_fields =
  cf_id :: string
  cf_title :: string
  cf_handle :: string
  cf_display :: string
  cf_user :: string
  cf_play :: int
  cf_upvote :: int
  cf_comment :: int
  cf_created :: "instant option"
  cf_major :: string
  cf_model :: string
  cf_duration :: "rat option"
  cf_tags :: string
  cf_prompt :: string
  cf_style :: string
  cf_mode :: string
  cf_public :: "bool option"
  cf_explicit :: "bool option"
  cf_remix :: "bool option"

record clip_meta =
  mt_prompt :: "string option"
  mt_tags :: "string option"
  mt_gpt :: "string option"
  mt_duration :: "rat option"
  mt_type :: "string option"
  mt_task :: "string option"
  mt_remix :: "bool option"

record clip_json =
  cj_id :: string
  cj_title :: string
  cj_handle :: "string option"
  cj_display :: "string option"
  cj_user :: "string option"
  cj_play :: "int option"
  cj_upvote :: "int option"
  cj_comment :: "int option"
  cj_created :: "string option"
  cj_major :: "string option"
  cj_model :: "string option"
  cj_public :: "bool option"
  cj_explicit :: "bool option"
  cj_meta :: clip_meta

definition zero_clip :: clip_json where
  "zero_clip = \<lparr>cj_id = [], cj_title = [], cj_handle = None, cj_display = None, cj_user = None, cj_play = None,
     cj_upvote = None, cj_comment = None, cj_created = None, cj_major = None, cj_model = None, cj_public = None,
     cj_explicit = None, cj_meta = \<lparr>mt_prompt = None, mt_tags = None, mt_gpt = None, mt_duration = None,
       mt_type = None, mt_task = None, mt_remix = None\<rparr>\<rparr>"

definition meta_field :: "string \<Rightarrow> json \<Rightarrow> clip_meta \<Rightarrow> clip_meta \<times> bool" where
  "meta_field k v m =
    (if key_is ''prompt'' k then into (\<lambda>x. m\<lparr>mt_prompt := x\<rparr>) (opt_string v)
     else if key_is ''tags'' k then into (\<lambda>x. m\<lparr>mt_tags := x\<rparr>) (opt_string v)
     else if key_is ''gpt_description_prompt'' k then into (\<lambda>x. m\<lparr>mt_gpt := x\<rparr>) (opt_string v)
     else if key_is ''duration'' k then into (\<lambda>x. m\<lparr>mt_duration := x\<rparr>) (opt_float v)
     else if key_is ''type'' k then into (\<lambda>x. m\<lparr>mt_type := x\<rparr>) (opt_string v)
     else if key_is ''task'' k then into (\<lambda>x. m\<lparr>mt_task := x\<rparr>) (opt_string v)
     else if key_is ''is_remix'' k then into (\<lambda>x. m\<lparr>mt_remix := x\<rparr>) (opt_bool v)
     else (m, True))"

text \<open>The fields both programs read, and those of suno-top, which also takes the id and the user.\<close>

definition clip_field :: "string \<Rightarrow> json \<Rightarrow> clip_json \<Rightarrow> clip_json \<times> bool" where
  "clip_field k v t =
    (if key_is ''title'' k then into (\<lambda>x. t\<lparr>cj_title := x\<rparr>) (decode_string v (cj_title t))
     else if key_is ''handle'' k then into (\<lambda>x. t\<lparr>cj_handle := x\<rparr>) (opt_string v)
     else if key_is ''display_name'' k then into (\<lambda>x. t\<lparr>cj_display := x\<rparr>) (opt_string v)
     else if key_is ''play_count'' k then into (\<lambda>x. t\<lparr>cj_play := x\<rparr>) (opt_int v)
     else if key_is ''upvote_count'' k then into (\<lambda>x. t\<lparr>cj_upvote := x\<rparr>) (opt_int v)
     else if key_is ''comment_count'' k then into (\<lambda>x. t\<lparr>cj_comment := x\<rparr>) (opt_int v)
     else if key_is ''created_at'' k then into (\<lambda>x. t\<lparr>cj_created := x\<rparr>) (opt_string v)
     else if key_is ''major_model_version'' k then into (\<lambda>x. t\<lparr>cj_major := x\<rparr>) (opt_string v)
     else if key_is ''model_name'' k then into (\<lambda>x. t\<lparr>cj_model := x\<rparr>) (opt_string v)
     else if key_is ''is_public'' k then into (\<lambda>x. t\<lparr>cj_public := x\<rparr>) (opt_bool v)
     else if key_is ''explicit'' k then into (\<lambda>x. t\<lparr>cj_explicit := x\<rparr>) (opt_bool v)
     else if key_is ''metadata'' k then into (\<lambda>x. t\<lparr>cj_meta := x\<rparr>) (decode_members meta_field v (cj_meta t))
     else (t, True))"

definition top_clip_field :: "string \<Rightarrow> json \<Rightarrow> clip_json \<Rightarrow> clip_json \<times> bool" where
  "top_clip_field k v t =
    (if key_is ''id'' k then into (\<lambda>x. t\<lparr>cj_id := x\<rparr>) (decode_string v (cj_id t))
     else if key_is ''user_id'' k then into (\<lambda>x. t\<lparr>cj_user := x\<rparr>) (opt_string v)
     else clip_field k v t)"

definition deref :: "string option \<Rightarrow> string" where
  "deref p = (case p of None \<Rightarrow> [] | Some s \<Rightarrow> s)"

definition deref_int :: "int option \<Rightarrow> int" where
  "deref_int p = (case p of None \<Rightarrow> 0 | Some n \<Rightarrow> n)"

definition clip_of :: "clip_json \<Rightarrow> clip_fields" where
  "clip_of t = (let m = cj_meta t in
    \<lparr>cf_id = cj_id t, cf_title = cj_title t, cf_handle = deref (cj_handle t), cf_display = deref (cj_display t),
     cf_user = deref (cj_user t), cf_play = deref_int (cj_play t), cf_upvote = deref_int (cj_upvote t),
     cf_comment = deref_int (cj_comment t), cf_created = Option.bind (cj_created t) parse_stamp,
     cf_major = deref (cj_major t), cf_model = deref (cj_model t), cf_duration = mt_duration m,
     cf_tags = deref (mt_tags m), cf_prompt = deref (mt_prompt m), cf_style = deref (mt_gpt m),
     cf_mode = to_lower (case mt_type m of Some s \<Rightarrow> s | None \<Rightarrow> deref (mt_task m)),
     cf_public = cj_public t, cf_explicit = cj_explicit t, cf_remix = mt_remix m\<rparr>)"

text \<open>A clip without an id is an error, as is a field of the wrong type.\<close>

definition parse_clip :: "json \<Rightarrow> clip_fields option" where
  "parse_clip raw = (case decode_members top_clip_field raw zero_clip of (t, ok) \<Rightarrow>
    if \<not> ok \<or> cj_id t = [] then None else Some (clip_of t))"

lemma parse_clip_id: "parse_clip raw = Some cf \<Longrightarrow> cf_id cf \<noteq> []"
  by (auto simp: parse_clip_def clip_of_def Let_def split: prod.splits if_splits)

end
