(* ===== verification/SunoStore.thy ===== *)
theory SunoStore
  imports SunoClip
begin

text \<open>
  The tables of the schema \<open>suno\<close> (pkgs/suno-top, pkgs/suno-backfill) and the transactions that write a
  clip with its sighting. \<open>now()\<close> is the instant of the transaction, an argument. A column \<open>last_error\<close>
  keeps the error instead of its text; None stands for the empty text.
\<close>

section \<open>Rows\<close>

datatype suno_error = NetError string | RateLimited | BadStatus nat string | BadJson | NoResults

record clip_row =
  cr_cf :: clip_fields
  cr_first :: instant
  cr_last :: instant
  cr_rechecked :: "instant option"
  cr_raw :: json

record sighting =
  sg_clip :: string
  sg_at :: instant
  sg_source :: string
  sg_rank :: "nat option"
  sg_play :: int
  sg_up :: int
  sg_comment :: int

record creator_row =
  cq_handle :: string
  cq_user :: string
  cq_display :: string
  cq_total :: int
  cq_next :: int
  cq_indexed :: int
  cq_failures :: int
  cq_done :: bool
  cq_error :: "suno_error option"
  cq_found :: instant
  cq_crawled :: "instant option"

record tag_row =
  tq_tag :: string
  tq_next :: int
  tq_hits :: int
  tq_stored :: int
  tq_failures :: int
  tq_done :: bool
  tq_error :: "suno_error option"
  tq_found :: instant
  tq_crawled :: "instant option"

record playlist_row =
  pq_id :: string
  pq_name :: string
  pq_user :: string
  pq_songs :: int
  pq_next :: int
  pq_indexed :: int
  pq_done :: bool
  pq_failures :: int
  pq_error :: "suno_error option"
  pq_found :: instant
  pq_crawled :: "instant option"

record fetch_row =
  fq_id :: string
  fq_source :: string
  fq_attempts :: int
  fq_done :: bool
  fq_error :: "suno_error option"
  fq_found :: instant
  fq_fetched :: "instant option"

record seen_row =
  bs_id :: string
  bs_status :: string
  bs_at :: instant

record suno_db =
  sd_clips :: "clip_row list"
  sd_sightings :: "sighting list"
  sd_creators :: "creator_row list"
  sd_tags :: "tag_row list"
  sd_playlists :: "playlist_row list"
  sd_queue :: "fetch_row list"
  sd_meta :: "string \<Rightarrow> instant option"
  sd_seen :: "seen_row list"

definition empty_suno :: suno_db where
  "empty_suno = \<lparr>sd_clips = [], sd_sightings = [], sd_creators = [], sd_tags = [], sd_playlists = [],
     sd_queue = [], sd_meta = (\<lambda>_. None), sd_seen = []\<rparr>"

definition row_id :: "clip_row \<Rightarrow> string" where
  "row_id r = cf_id (cr_cf r)"

section \<open>Insert or update\<close>

definition upsert :: "('r \<Rightarrow> 'k) \<Rightarrow> ('r \<Rightarrow> 'r) \<Rightarrow> 'r \<Rightarrow> 'r list \<Rightarrow> 'r list" where
  "upsert key upd new rows =
    (if key new \<in> set (map key rows) then map (\<lambda>r. if key r = key new then upd r else r) rows else rows @ [new])"

definition update_row :: "('r \<Rightarrow> 'k) \<Rightarrow> 'k \<Rightarrow> ('r \<Rightarrow> 'r) \<Rightarrow> 'r list \<Rightarrow> 'r list" where
  "update_row key k upd rows = map (\<lambda>r. if key r = k then upd r else r) rows"

lemma upsert_keys:
  assumes "\<And>r. key (upd r) = key r"
  shows "map key (upsert key upd new rows) =
    (if key new \<in> set (map key rows) then map key rows else map key rows @ [key new])"
  using assms by (auto simp: upsert_def)

lemma update_row_keys [simp]:
  "(\<And>r. key (upd r) = key r) \<Longrightarrow> map key (update_row key k upd rows) = map key rows"
  by (auto simp: update_row_def)

lemma upsert_distinct:
  assumes "\<And>r. key (upd r) = key r" "distinct (map key rows)"
  shows "distinct (map key (upsert key upd new rows))"
  using assms by (simp add: upsert_keys)

lemma set_upsert:
  "r \<in> set (upsert key upd new rows) \<Longrightarrow> r = new \<or> r \<in> set rows \<and> key r \<noteq> key new \<or> (\<exists>q \<in> set rows. key q = key new \<and> r = upd q)"
  by (cases "key new \<in> key ` set rows") (auto simp: upsert_def rev_image_eqI)

lemma set_update_row:
  "r \<in> set (update_row key k upd rows) \<Longrightarrow> r \<in> set rows \<and> key r \<noteq> k \<or> (\<exists>q \<in> set rows. key q = k \<and> r = upd q)"
  by (auto simp: update_row_def)

lemma upsert_other: "q \<in> set rows \<Longrightarrow> key q \<noteq> key new \<Longrightarrow> q \<in> set (upsert key upd new rows)"
  by (auto simp: upsert_def)

lemma upsert_same: "q \<in> set rows \<Longrightarrow> key q = key new \<Longrightarrow> upd q \<in> set (upsert key upd new rows)"
  by (auto simp: upsert_def intro!: rev_image_eqI [of q])

lemma update_row_other: "q \<in> set rows \<Longrightarrow> key q \<noteq> k \<Longrightarrow> q \<in> set (update_row key k upd rows)"
  by (auto simp: update_row_def)

section \<open>Writing a clip\<close>

definition coalesce :: "'a option \<Rightarrow> 'a option \<Rightarrow> 'a option" where
  "coalesce a b = (case a of None \<Rightarrow> b | Some x \<Rightarrow> Some x)"

text \<open>\<open>ON CONFLICT (id) DO UPDATE\<close>: nullable columns keep the old value when the new one is null.\<close>

definition merge_clip :: "clip_fields \<Rightarrow> clip_fields \<Rightarrow> clip_fields" where
  "merge_clip old new = new\<lparr>cf_created := coalesce (cf_created new) (cf_created old),
     cf_duration := coalesce (cf_duration new) (cf_duration old),
     cf_public := coalesce (cf_public new) (cf_public old),
     cf_explicit := coalesce (cf_explicit new) (cf_explicit old),
     cf_remix := coalesce (cf_remix new) (cf_remix old)\<rparr>"

definition upsert_clip :: "instant \<Rightarrow> bool \<Rightarrow> clip_fields \<Rightarrow> json \<Rightarrow> clip_row list \<Rightarrow> clip_row list" where
  "upsert_clip t recheck cf raw =
    upsert row_id (\<lambda>r. r\<lparr>cr_cf := merge_clip (cr_cf r) (cf\<lparr>cf_id := row_id r\<rparr>), cr_last := t, cr_raw := raw,
        cr_rechecked := (if recheck then Some t else cr_rechecked r)\<rparr>)
      \<lparr>cr_cf = cf, cr_first = t, cr_last = t, cr_rechecked = (if recheck then Some t else None), cr_raw = raw\<rparr>"

definition find_clip :: "string \<Rightarrow> suno_db \<Rightarrow> clip_row option" where
  "find_clip i db = List.find (\<lambda>r. row_id r = i) (sd_clips db)"

definition new_creator :: "instant \<Rightarrow> string \<Rightarrow> string \<Rightarrow> string \<Rightarrow> creator_row" where
  "new_creator t handle user display = \<lparr>cq_handle = handle, cq_user = user, cq_display = display, cq_total = 0,
     cq_next = 1, cq_indexed = 0, cq_failures = 0, cq_done = False, cq_error = None, cq_found = t, cq_crawled = None\<rparr>"

definition creator_ensure :: "instant \<Rightarrow> string \<Rightarrow> string \<Rightarrow> string \<Rightarrow> creator_row list \<Rightarrow> creator_row list" where
  "creator_ensure t handle user display =
    upsert cq_handle (\<lambda>r. r\<lparr>cq_user := (if user \<noteq> [] then user else cq_user r),
      cq_display := (if display \<noteq> [] then display else cq_display r)\<rparr>) (new_creator t handle user display)"

text \<open>A sighting is recorded on the trending feed, for a new clip, and when a count changed.\<close>

definition should_record :: "string \<Rightarrow> clip_row option \<Rightarrow> clip_fields \<Rightarrow> bool" where
  "should_record source old cf \<longleftrightarrow> source = ''trending'' \<or>
    (case old of None \<Rightarrow> True | Some r \<Rightarrow> cf_play (cr_cf r) \<noteq> cf_play cf \<or> cf_upvote (cr_cf r) \<noteq> cf_upvote cf \<or>
       cf_comment (cr_cf r) \<noteq> cf_comment cf)"

definition sighting_of :: "instant \<Rightarrow> string \<Rightarrow> nat option \<Rightarrow> clip_fields \<Rightarrow> sighting" where
  "sighting_of t source rank cf = \<lparr>sg_clip = cf_id cf, sg_at = t, sg_source = source, sg_rank = rank,
     sg_play = cf_play cf, sg_up = cf_upvote cf, sg_comment = cf_comment cf\<rparr>"

definition store_clip :: "instant \<Rightarrow> string \<Rightarrow> nat \<Rightarrow> clip_fields \<Rightarrow> json \<Rightarrow> suno_db \<Rightarrow> suno_db" where
  "store_clip t source rank cf raw db =
    (let old = find_clip (cf_id cf) db;
         db1 = db\<lparr>sd_clips := upsert_clip t (source = ''recheck'') cf raw (sd_clips db)\<rparr>;
         db2 = (if cf_handle cf \<noteq> [] then db1\<lparr>sd_creators :=
           creator_ensure t (cf_handle cf) (cf_user cf) (cf_display cf) (sd_creators db1)\<rparr> else db1)
     in if should_record source old cf
        then db2\<lparr>sd_sightings := sd_sightings db2 @
          [sighting_of t source (if source = ''trending'' then Some rank else None) cf]\<rparr>
        else db2)"

section \<open>The transactions of the backfill\<close>

definition mark_seen :: "instant \<Rightarrow> string \<Rightarrow> string \<Rightarrow> seen_row list \<Rightarrow> seen_row list" where
  "mark_seen t i status = upsert bs_id id \<lparr>bs_id = i, bs_status = status, bs_at = t\<rparr>"

definition store_seen :: "instant \<Rightarrow> string \<Rightarrow> string \<Rightarrow> suno_db \<Rightarrow> suno_db" where
  "store_seen t i status db = db\<lparr>sd_seen := mark_seen t i status (sd_seen db)\<rparr>"

text \<open>The user is inserted as the empty text, which is not null.\<close>

definition store_winner :: "instant \<Rightarrow> string \<Rightarrow> clip_fields \<Rightarrow> json \<Rightarrow> suno_db \<Rightarrow> suno_db" where
  "store_winner t i cf raw db =
    (let c = cf\<lparr>cf_id := i, cf_user := []\<rparr>
     in db\<lparr>sd_clips := upsert_clip t False c raw (sd_clips db),
          sd_sightings := sd_sightings db @ [sighting_of t ''backfill_2024'' None c],
          sd_seen := mark_seen t i ''winner'' (sd_seen db)\<rparr>)"

section \<open>Clips keep their key and their newest sighting\<close>

text \<open>
  Every clip has one row, every sighting a clip, and the newest sighting of a clip has its present counts:
  the log of sightings is a complete history of the counts.
\<close>

definition counts_of :: "clip_fields \<Rightarrow> int \<times> int \<times> int" where
  "counts_of cf = (cf_play cf, cf_upvote cf, cf_comment cf)"

definition newest :: "string \<Rightarrow> sighting list \<Rightarrow> sighting option" where
  "newest i ss = (let xs = filter (\<lambda>s. sg_clip s = i) ss in if xs = [] then None else Some (last xs))"

definition curves_complete :: "suno_db \<Rightarrow> bool" where
  "curves_complete db \<longleftrightarrow> distinct (map row_id (sd_clips db)) \<and>
    (\<forall>s \<in> set (sd_sightings db). sg_clip s \<in> set (map row_id (sd_clips db))) \<and>
    (\<forall>r \<in> set (sd_clips db). \<exists>s. newest (row_id r) (sd_sightings db) = Some s \<and>
       (sg_play s, sg_up s, sg_comment s) = counts_of (cr_cf r))"

lemma newest_snoc: "newest i (ss @ [s]) = (if sg_clip s = i then Some s else newest i ss)"
  by (simp add: newest_def)

lemma merge_clip_simps [simp]:
  "cf_id (merge_clip old new) = cf_id new" "counts_of (merge_clip old new) = counts_of new"
  "cf_upvote (merge_clip old new) = cf_upvote new" "cf_user (merge_clip old new) = cf_user new"
  "cf_handle (merge_clip old new) = cf_handle new"
  by (simp_all add: merge_clip_def counts_of_def)

lemma counts_of_id [simp]: "counts_of (cf\<lparr>cf_id := i\<rparr>) = counts_of cf"
  by (simp add: counts_of_def)

lemma upsert_clip_ids:
  "map row_id (upsert_clip t b cf raw rows) =
    (if cf_id cf \<in> set (map row_id rows) then map row_id rows else map row_id rows @ [cf_id cf])"
  unfolding upsert_clip_def by (subst upsert_keys) (simp_all add: row_id_def)

lemma upsert_clip_rows:
  assumes "r \<in> set (upsert_clip t b cf raw rows)"
  shows "r \<in> set rows \<and> row_id r \<noteq> cf_id cf \<or>
    row_id r = cf_id cf \<and> counts_of (cr_cf r) = counts_of cf \<and> cf_upvote (cr_cf r) = cf_upvote cf \<and>
      cf_handle (cr_cf r) = cf_handle cf \<and> cf_user (cr_cf r) = cf_user cf"
  using set_upsert [OF assms [unfolded upsert_clip_def]] by (auto simp: row_id_def)

lemma find_clip_None: "find_clip i db = None \<longleftrightarrow> i \<notin> set (map row_id (sd_clips db))"
  by (auto simp: find_clip_def find_None_iff)

lemma find_clip_Some:
  "find_clip i db = Some r \<Longrightarrow> r \<in> set (sd_clips db) \<and> row_id r = i"
  by (auto simp: find_clip_def find_Some_iff)

text \<open>The two transactions as one: a clip is written, and its sighting if its counts are news.\<close>

lemma curves_complete_write:
  assumes c: "curves_complete db"
    and ss: "ss = sd_sightings db @ (if rec then [sighting_of t src rk cf] else [])"
    and skip: "\<not> rec \<Longrightarrow> \<exists>r \<in> set (sd_clips db). row_id r = cf_id cf \<and> counts_of (cr_cf r) = counts_of cf"
    and clips: "sd_clips db' = upsert_clip t b cf raw (sd_clips db)" and sights: "sd_sightings db' = ss"
  shows "curves_complete db'"
  unfolding curves_complete_def
proof (intro conjI ballI)
  have ids: "set (map row_id (sd_clips db)) \<subseteq> set (map row_id (sd_clips db'))"
    "cf_id cf \<in> set (map row_id (sd_clips db'))"
    unfolding clips upsert_clip_ids by auto
  show "distinct (map row_id (sd_clips db'))"
    using c unfolding clips upsert_clip_ids by (simp add: curves_complete_def)
  show "sg_clip s \<in> set (map row_id (sd_clips db'))" if "s \<in> set (sd_sightings db')" for s
    using that ids c by (auto simp: sights ss curves_complete_def sighting_of_def split: if_splits)
  fix r assume r: "r \<in> set (sd_clips db')"
  have old: "\<exists>s. newest (row_id q) (sd_sightings db) = Some s \<and>
      (sg_play s, sg_up s, sg_comment s) = counts_of (cr_cf q)" if "q \<in> set (sd_clips db)" for q
    using c that by (auto simp: curves_complete_def)
  from upsert_clip_rows [OF r [unfolded clips]] consider
    (same) "r \<in> set (sd_clips db)" "row_id r \<noteq> cf_id cf"
    | (new) "row_id r = cf_id cf" "counts_of (cr_cf r) = counts_of cf" by blast
  then show "\<exists>s. newest (row_id r) (sd_sightings db') = Some s \<and>
      (sg_play s, sg_up s, sg_comment s) = counts_of (cr_cf r)"
  proof cases
    case same
    then show ?thesis using old [OF same(1)] by (simp add: sights ss newest_snoc sighting_of_def)
  next
    case new
    show ?thesis
    proof (cases rec)
      case True
      then show ?thesis using new by (simp add: sights ss newest_snoc sighting_of_def counts_of_def)
    next
      case False
      with skip obtain q where q: "q \<in> set (sd_clips db)" "row_id q = cf_id cf" "counts_of (cr_cf q) = counts_of cf"
        by blast
      then show ?thesis using old [OF q(1)] new False by (simp add: sights ss)
    qed
  qed
qed

lemma store_clip_fields:
  "sd_clips (store_clip t src rk cf raw db) = upsert_clip t (src = ''recheck'') cf raw (sd_clips db)"
  "sd_sightings (store_clip t src rk cf raw db) = sd_sightings db @
    (if should_record src (find_clip (cf_id cf) db) cf
     then [sighting_of t src (if src = ''trending'' then Some rk else None) cf] else [])"
  "sd_creators (store_clip t src rk cf raw db) =
    (if cf_handle cf \<noteq> [] then creator_ensure t (cf_handle cf) (cf_user cf) (cf_display cf) (sd_creators db)
     else sd_creators db)"
  "sd_tags (store_clip t src rk cf raw db) = sd_tags db"
  "sd_playlists (store_clip t src rk cf raw db) = sd_playlists db"
  "sd_queue (store_clip t src rk cf raw db) = sd_queue db"
  "sd_meta (store_clip t src rk cf raw db) = sd_meta db"
  "sd_seen (store_clip t src rk cf raw db) = sd_seen db"
  by (simp_all add: store_clip_def Let_def)

lemma store_clip_curves:
  assumes "curves_complete db"
  shows "curves_complete (store_clip t src rk cf raw db)"
proof (rule curves_complete_write [OF assms refl _ store_clip_fields(1) store_clip_fields(2)])
  assume n: "\<not> should_record src (find_clip (cf_id cf) db) cf"
  then obtain r where "find_clip (cf_id cf) db = Some r" "counts_of (cr_cf r) = counts_of cf"
    by (auto simp: should_record_def counts_of_def split: option.splits)
  then show "\<exists>r \<in> set (sd_clips db). row_id r = cf_id cf \<and> counts_of (cr_cf r) = counts_of cf"
    using find_clip_Some by blast
qed

lemma store_winner_curves: "curves_complete db \<Longrightarrow> curves_complete (store_winner t i cf raw db)"
  by (rule curves_complete_write [where rec = True and cf = "cf\<lparr>cf_id := i, cf_user := []\<rparr>" and b = False])
    (simp_all add: store_winner_def Let_def)

lemma store_seen_curves [simp]: "curves_complete (store_seen t i s db) = curves_complete db"
  by (simp add: store_seen_def curves_complete_def)

text \<open>A backfilled winner loses the user id that was known: the empty text is not null, so the merge takes it.\<close>

lemma winner_forgets_the_user:
  assumes "r \<in> set (sd_clips (store_winner t i cf raw db))" "row_id r = i"
  shows "cf_user (cr_cf r) = []"
proof -
  have "r \<in> set (upsert_clip t False (cf\<lparr>cf_id := i, cf_user := []\<rparr>) raw (sd_clips db))"
    using assms(1) by (simp add: store_winner_def Let_def)
  from upsert_clip_rows [OF this] show ?thesis using assms(2) by simp
qed

end
