(* ===== verification/SunoTop.thy ===== *)
theory SunoTop
  imports SunoStore
begin

text \<open>
  pkgs/suno-top/main.go: the lanes that collect clips. The remote service is a record of replies, one per
  request; every statement and transaction has a tag (lane, key of the row, position) under which the
  world says when it runs, whether it works and whether the context is cancelled before it. Not modelled:
  the pauses between requests, logging, the connection, the DDL.
\<close>

section \<open>Requests\<close>

datatype reply = NoReply string | Reply nat string

text \<open>\<open>sunoClient.do\<close> with the decoding of the body into the value the caller wants.\<close>

definition do_request :: "(json \<Rightarrow> 'a \<times> bool) \<Rightarrow> reply \<Rightarrow> suno_error + 'a" where
  "do_request f rp = (case rp of
      NoReply e \<Rightarrow> Inl (NetError e)
    | Reply st body \<Rightarrow>
        if st = 429 then Inl RateLimited
        else if 400 \<le> st then Inl (BadStatus st (trim_space (take 512 body)))
        else (case first_value body of None \<Rightarrow> Inl BadJson
          | Some v \<Rightarrow> if snd (f v) then Inr (fst (f v)) else Inl BadJson))"

definition map_ok :: "('a \<Rightarrow> 'b) \<Rightarrow> 'e + 'a \<Rightarrow> 'e + 'b" where
  "map_ok f r = (case r of Inl e \<Rightarrow> Inl e | Inr a \<Rightarrow> Inr (f a))"

section \<open>The trending feed and single clips\<close>

record feed_item =
  fi_content_id :: string
  fi_type :: string
  fi_item :: "json option"

definition feed_item_field :: "string \<Rightarrow> json \<Rightarrow> feed_item \<Rightarrow> feed_item \<times> bool" where
  "feed_item_field k v it =
    (if key_is ''content_id'' k then into (\<lambda>x. it\<lparr>fi_content_id := x\<rparr>) (decode_string v (fi_content_id it))
     else if key_is ''content_type'' k then into (\<lambda>x. it\<lparr>fi_type := x\<rparr>) (decode_string v (fi_type it))
     else if key_is ''content_item'' k then (it\<lparr>fi_item := Some v\<rparr>, True)
     else (it, True))"

record feed =
  fd_id :: string
  fd_title :: string
  fd_items :: "feed_item list"

definition feed_field :: "string \<Rightarrow> json \<Rightarrow> feed \<Rightarrow> feed \<times> bool" where
  "feed_field k v f =
    (if key_is ''feed_id'' k then into (\<lambda>x. f\<lparr>fd_id := x\<rparr>) (decode_string v (fd_id f))
     else if key_is ''feed_title'' k then into (\<lambda>x. f\<lparr>fd_title := x\<rparr>) (decode_string v (fd_title f))
     else if key_is ''items'' k then into (\<lambda>x. f\<lparr>fd_items := x\<rparr>) (decode_list (\<lambda>u. decode_members
       feed_item_field u \<lparr>fi_content_id = [], fi_type = [], fi_item = None\<rparr>) v)
     else (f, True))"

definition decode_feed :: "json \<Rightarrow> feed \<times> bool" where
  "decode_feed v = decode_members (\<lambda>k u f. if key_is ''feed'' k then decode_members feed_field u f else (f, True)) v
     \<lparr>fd_id = [], fd_title = [], fd_items = []\<rparr>"

definition fetch_trending :: "reply \<Rightarrow> suno_error + json list" where
  "fetch_trending rp = map_ok (\<lambda>f. List.map_filter fi_item (filter (\<lambda>it. fi_type it = ''clip'') (fd_items f)))
     (do_request decode_feed rp)"

definition fetch_clip :: "reply \<Rightarrow> suno_error + json" where
  "fetch_clip rp = do_request (\<lambda>v. (v, True)) rp"

section \<open>Profiles\<close>

record profile_playlist =
  pp_id :: string
  pp_name :: string
  pp_user :: string
  pp_songs :: int
  pp_public :: "bool option"
  pp_hidden :: "bool option"
  pp_trashed :: "bool option"

definition profile_playlist_field :: "string \<Rightarrow> json \<Rightarrow> profile_playlist \<Rightarrow> profile_playlist \<times> bool" where
  "profile_playlist_field k v p =
    (if key_is ''id'' k then into (\<lambda>x. p\<lparr>pp_id := x\<rparr>) (decode_string v (pp_id p))
     else if key_is ''name'' k then into (\<lambda>x. p\<lparr>pp_name := x\<rparr>) (decode_string v (pp_name p))
     else if key_is ''user_handle'' k then into (\<lambda>x. p\<lparr>pp_user := x\<rparr>) (decode_string v (pp_user p))
     else if key_is ''song_count'' k then into (\<lambda>x. p\<lparr>pp_songs := x\<rparr>) (plain_int v (pp_songs p))
     else if key_is ''is_public'' k then into (\<lambda>x. p\<lparr>pp_public := x\<rparr>) (opt_bool v)
     else if key_is ''is_hidden'' k then into (\<lambda>x. p\<lparr>pp_hidden := x\<rparr>) (opt_bool v)
     else if key_is ''is_trashed'' k then into (\<lambda>x. p\<lparr>pp_trashed := x\<rparr>) (opt_bool v)
     else (p, True))"

record profile =
  pf_user :: string
  pf_display :: string
  pf_handle :: string
  pf_total :: int
  pf_page :: int
  pf_clips :: "json list"
  pf_playlists :: "profile_playlist list"

definition profile_field :: "string \<Rightarrow> json \<Rightarrow> profile \<Rightarrow> profile \<times> bool" where
  "profile_field k v p =
    (if key_is ''user_id'' k then into (\<lambda>x. p\<lparr>pf_user := x\<rparr>) (decode_string v (pf_user p))
     else if key_is ''display_name'' k then into (\<lambda>x. p\<lparr>pf_display := x\<rparr>) (decode_string v (pf_display p))
     else if key_is ''handle'' k then into (\<lambda>x. p\<lparr>pf_handle := x\<rparr>) (decode_string v (pf_handle p))
     else if key_is ''num_total_clips'' k then into (\<lambda>x. p\<lparr>pf_total := x\<rparr>) (plain_int v (pf_total p))
     else if key_is ''current_page'' k then into (\<lambda>x. p\<lparr>pf_page := x\<rparr>) (plain_int v (pf_page p))
     else if key_is ''clips'' k then into (\<lambda>x. p\<lparr>pf_clips := x\<rparr>) (decode_list (\<lambda>u. (u, True)) v)
     else if key_is ''playlists'' k then into (\<lambda>x. p\<lparr>pf_playlists := x\<rparr>) (decode_list (\<lambda>u. decode_members
       profile_playlist_field u \<lparr>pp_id = [], pp_name = [], pp_user = [], pp_songs = 0, pp_public = None,
         pp_hidden = None, pp_trashed = None\<rparr>) v)
     else (p, True))"

definition fetch_creator_clips :: "reply \<Rightarrow> suno_error + profile" where
  "fetch_creator_clips rp = do_request (\<lambda>v. decode_members profile_field v \<lparr>pf_user = [], pf_display = [],
     pf_handle = [], pf_total = 0, pf_page = 0, pf_clips = [], pf_playlists = []\<rparr>) rp"

section \<open>Tag search\<close>

record tag_hits =
  th_total :: int
  th_items :: "json list"

definition tag_hits_field :: "string \<Rightarrow> json \<Rightarrow> tag_hits \<Rightarrow> tag_hits \<times> bool" where
  "tag_hits_field k v h =
    (if key_is ''total_hits'' k then into (\<lambda>x. h\<lparr>th_total := x\<rparr>) (plain_int v (th_total h))
     else if key_is ''result'' k then into (\<lambda>x. h\<lparr>th_items := x\<rparr>) (decode_list (\<lambda>u. (u, True)) v)
     else (h, True))"

text \<open>A map from names to results: a later key replaces an earlier one.\<close>

definition decode_hit_map :: "json \<Rightarrow> (string \<times> tag_hits) list \<Rightarrow> (string \<times> tag_hits) list \<times> bool" where
  "decode_hit_map v old = (case v of JNull \<Rightarrow> ([], True)
    | JObj kvs \<Rightarrow> fold (\<lambda>(k, u) (m, ok). case decode_members tag_hits_field u \<lparr>th_total = 0, th_items = []\<rparr> of
        (h, ok1) \<Rightarrow> (AList.update k h m, ok \<and> ok1)) kvs (old, True)
    | _ \<Rightarrow> (old, False))"

text \<open>Without the expected name the entry that the iteration over the map meets first is taken.\<close>

definition fetch_tag_page :: "reply \<Rightarrow> suno_error + tag_hits" where
  "fetch_tag_page rp = (case do_request (\<lambda>v. decode_members
       (\<lambda>k u m. if key_is ''result'' k then decode_hit_map u m else (m, True)) v []) rp of
      Inl e \<Rightarrow> Inl e
    | Inr m \<Rightarrow> (case map_of m ''tag_song'' of Some h \<Rightarrow> Inr h
        | None \<Rightarrow> (case m of [] \<Rightarrow> Inl NoResults | (_, h) # _ \<Rightarrow> Inr h)))"

definition tag_page_advance :: "int \<Rightarrow> int \<Rightarrow> int \<Rightarrow> int \<Rightarrow> int \<Rightarrow> int \<times> bool" where
  "tag_page_advance from page_len hits max_up least =
    (let next = from + page_len
     in (next, page_len = 0 \<or> 0 < hits \<and> hits \<le> next \<or> 0 < least \<and> max_up < least))"

section \<open>Playlists, editorial indexes, contests\<close>

record playlist_page =
  pg_id :: string
  pg_name :: string
  pg_user :: string
  pg_songs :: int
  pg_total :: int
  pg_page :: int
  pg_clips :: "json option list"

definition playlist_field :: "string \<Rightarrow> json \<Rightarrow> playlist_page \<Rightarrow> playlist_page \<times> bool" where
  "playlist_field k v p =
    (if key_is ''id'' k then into (\<lambda>x. p\<lparr>pg_id := x\<rparr>) (decode_string v (pg_id p))
     else if key_is ''name'' k then into (\<lambda>x. p\<lparr>pg_name := x\<rparr>) (decode_string v (pg_name p))
     else if key_is ''user_handle'' k then into (\<lambda>x. p\<lparr>pg_user := x\<rparr>) (decode_string v (pg_user p))
     else if key_is ''song_count'' k then into (\<lambda>x. p\<lparr>pg_songs := x\<rparr>) (plain_int v (pg_songs p))
     else if key_is ''num_total_results'' k then into (\<lambda>x. p\<lparr>pg_total := x\<rparr>) (plain_int v (pg_total p))
     else if key_is ''current_page'' k then into (\<lambda>x. p\<lparr>pg_page := x\<rparr>) (plain_int v (pg_page p))
     else if key_is ''playlist_clips'' k then into (\<lambda>x. p\<lparr>pg_clips := x\<rparr>) (decode_list (\<lambda>u. decode_members
       (\<lambda>k1 u1 c. if key_is ''clip'' k1 then (Some u1, True) else (c, True)) u None) v)
     else (p, True))"

definition fetch_playlist_page :: "reply \<Rightarrow> suno_error + playlist_page" where
  "fetch_playlist_page rp = do_request (\<lambda>v. decode_members playlist_field v \<lparr>pg_id = [], pg_name = [], pg_user = [],
     pg_songs = 0, pg_total = 0, pg_page = 0, pg_clips = []\<rparr>) rp"

record editorial_item =
  ei_type :: string
  ei_id :: string
  ei_name :: string
  ei_songs :: int
  ei_user :: string
  ei_container :: string
  ei_container_type :: string

definition editorial_content_field :: "string \<Rightarrow> json \<Rightarrow> editorial_item \<Rightarrow> editorial_item \<times> bool" where
  "editorial_content_field k v e =
    (if key_is ''playlist_id'' k then into (\<lambda>x. e\<lparr>ei_id := x\<rparr>) (decode_string v (ei_id e))
     else if key_is ''playlist_name'' k then into (\<lambda>x. e\<lparr>ei_name := x\<rparr>) (decode_string v (ei_name e))
     else if key_is ''playlist_song_count'' k then into (\<lambda>x. e\<lparr>ei_songs := x\<rparr>) (plain_int v (ei_songs e))
     else if key_is ''playlist_user_handle'' k then into (\<lambda>x. e\<lparr>ei_user := x\<rparr>) (decode_string v (ei_user e))
     else if key_is ''feed_container_id'' k then into (\<lambda>x. e\<lparr>ei_container := x\<rparr>) (decode_string v (ei_container e))
     else if key_is ''feed_container_type'' k then
       into (\<lambda>x. e\<lparr>ei_container_type := x\<rparr>) (decode_string v (ei_container_type e))
     else (e, True))"

definition editorial_item_field :: "string \<Rightarrow> json \<Rightarrow> editorial_item \<Rightarrow> editorial_item \<times> bool" where
  "editorial_item_field k v e =
    (if key_is ''content_type'' k then into (\<lambda>x. e\<lparr>ei_type := x\<rparr>) (decode_string v (ei_type e))
     else if key_is ''content_item'' k then decode_members editorial_content_field v e
     else (e, True))"

definition decode_editorial :: "json \<Rightarrow> editorial_item list list \<times> bool" where
  "decode_editorial v = decode_members (\<lambda>k u fs. if key_is ''feeds'' k then decode_list (\<lambda>f. decode_members
       (\<lambda>k1 u1 items. if key_is ''items'' k1 then decode_list (\<lambda>it. decode_members editorial_item_field it
           \<lparr>ei_type = [], ei_id = [], ei_name = [], ei_songs = 0, ei_user = [], ei_container = [],
            ei_container_type = []\<rparr>) u1
         else (items, True)) f []) u
     else (fs, True)) v []"

record playlist_ref =
  rf_id :: string
  rf_name :: string
  rf_user :: string
  rf_songs :: int

definition add_ref :: "playlist_ref \<Rightarrow> playlist_ref list \<Rightarrow> playlist_ref list" where
  "add_ref r refs = (if rf_id r = [] \<or> rf_id r \<in> set (map rf_id refs) then refs else refs @ [r])"

definition add_item_refs :: "editorial_item \<Rightarrow> playlist_ref list \<Rightarrow> playlist_ref list" where
  "add_item_refs it refs =
    (let refs1 = add_ref \<lparr>rf_id = ei_id it, rf_name = ei_name it, rf_user = ei_user it, rf_songs = ei_songs it\<rparr> refs
     in if ei_container_type it = ''playlist''
        then add_ref \<lparr>rf_id = ei_container it, rf_name = [], rf_user = [], rf_songs = 0\<rparr> refs1 else refs1)"

definition collect_playlist_refs :: "editorial_item list list \<Rightarrow> playlist_ref list" where
  "collect_playlist_refs feeds = fold add_item_refs (concat feeds) []"

definition editorial_paths :: "string list" where
  "editorial_paths = [''/api/unified/homepage'', ''/api/unified/explore'', ''/api/unified/homepage/explore/mobile'']"

text \<open>Fails only when every index failed, with the last error.\<close>

definition fetch_editorial :: "(string \<Rightarrow> reply) \<Rightarrow> suno_error + playlist_ref list" where
  "fetch_editorial net =
    (let rs = map (\<lambda>p. do_request decode_editorial (net p)) editorial_paths;
         good = List.map_filter (\<lambda>r. case r of Inl _ \<Rightarrow> None | Inr fs \<Rightarrow> Some fs) rs
     in if good = [] then map_ok (\<lambda>_. []) (last rs)
        else Inr (fold (\<lambda>fs refs. fold add_ref (collect_playlist_refs fs) refs) good []))"

definition decode_contests :: "json \<Rightarrow> string list \<times> bool" where
  "decode_contests v = (case decode_members (\<lambda>k u cs. if key_is ''contests'' k then decode_list (\<lambda>c. decode_members
       (\<lambda>k1 u1 ids. if key_is ''base_clip_ids'' k1 then decode_list (\<lambda>s. decode_string s []) u1
         else if key_is ''id'' k1 \<or> key_is ''name'' k1 then (ids, snd (decode_string u1 []))
         else (ids, True)) c []) u
     else (cs, True)) v [] of (cs, ok) \<Rightarrow> (concat cs, ok))"

definition fetch_contest_seeds :: "reply \<Rightarrow> suno_error + string list" where
  "fetch_contest_seeds rp = do_request decode_contests rp"

end
