(* ===== verification/SunoLanes.thy ===== *)
theory SunoLanes
  imports SunoTop
begin

text \<open>
  The passes of pkgs/suno-top/main.go over the tables: startup, the seven lanes, and the daemon as the
  list of the passes it has run.
\<close>

section \<open>Configuration and world\<close>

record suno_config =
  sc_rechecks :: int
  sc_min_age :: duration
  sc_creators :: int
  sc_min_upvotes :: int
  sc_tags :: int
  sc_playlists :: int
  sc_seeds :: int
  sc_editorial :: duration

type_synonym stmt = "string \<times> string \<times> nat"

record suno_world =
  sw_now :: "stmt \<Rightarrow> instant"
  sw_ok :: "stmt \<Rightarrow> bool"
  sw_stop :: "stmt \<Rightarrow> bool"
  sw_feed :: reply
  sw_clip :: "string \<Rightarrow> string \<Rightarrow> reply"
  sw_profile :: "string \<Rightarrow> int \<Rightarrow> reply"
  sw_search :: "string \<Rightarrow> int \<Rightarrow> reply"
  sw_playlist :: "string \<Rightarrow> int \<Rightarrow> reply"
  sw_index :: "string \<Rightarrow> reply"
  sw_contests :: reply
  sw_sitemap :: reply

definition meets_threshold :: "suno_config \<Rightarrow> clip_fields \<Rightarrow> bool" where
  "meets_threshold c cf \<longleftrightarrow> sc_min_upvotes c \<le> 0 \<or> sc_min_upvotes c \<le> cf_upvote cf"

text \<open>One clip object of any lane: unparseable, below the floor, not stored, or stored.\<close>

definition take_clip :: "suno_config \<Rightarrow> suno_world \<Rightarrow> stmt \<Rightarrow> string \<Rightarrow> nat \<Rightarrow> json \<Rightarrow> suno_db \<Rightarrow> bool \<times> suno_db" where
  "take_clip c w k source rank raw db = (case parse_clip raw of
      None \<Rightarrow> (False, db)
    | Some cf \<Rightarrow> if meets_threshold c cf \<and> sw_ok w k then (True, store_clip (sw_now w k) source rank cf raw db)
        else (False, db))"

text \<open>The clips of a page, in order, with the number that was stored.\<close>

fun take_clips :: "suno_config \<Rightarrow> suno_world \<Rightarrow> string \<Rightarrow> string \<Rightarrow> string \<Rightarrow> nat \<Rightarrow> json list \<Rightarrow> suno_db \<Rightarrow> int \<times> suno_db" where
  "take_clips c w lane owner source i [] db = (0, db)"
| "take_clips c w lane owner source i (raw # raws) db =
    (case take_clip c w (lane, owner, i) source (Suc i) raw db of (b, db1) \<Rightarrow>
     case take_clips c w lane owner source (Suc i) raws db1 of (n, db2) \<Rightarrow> ((if b then n + 1 else n), db2))"

text \<open>A loop over a batch that ends when the context is cancelled.\<close>

fun over_batch :: "('a \<Rightarrow> bool) \<Rightarrow> ('a \<Rightarrow> suno_db \<Rightarrow> suno_db) \<Rightarrow> 'a list \<Rightarrow> suno_db \<Rightarrow> suno_db" where
  "over_batch stop f [] db = db"
| "over_batch stop f (x # xs) db = (if stop x then db else over_batch stop f xs (f x db))"

text \<open>\<open>ORDER BY last_crawled_at ASC NULLS FIRST, discovered_at ASC\<close>.\<close>

definition queue_less :: "instant option \<times> instant \<Rightarrow> instant option \<times> instant \<Rightarrow> bool" where
  "queue_less a b = (case (fst a, fst b) of
      (None, None) \<Rightarrow> snd a < snd b | (None, Some _) \<Rightarrow> True | (Some _, None) \<Rightarrow> False
    | (Some x, Some y) \<Rightarrow> x < y \<or> x = y \<and> snd a < snd b)"

section \<open>Harvest and recheck\<close>

definition harvest_pass :: "suno_config \<Rightarrow> suno_world \<Rightarrow> suno_db \<Rightarrow> suno_db" where
  "harvest_pass c w db = (case fetch_trending (sw_feed w) of
      Inl e \<Rightarrow> db
    | Inr clips \<Rightarrow> snd (take_clips c w ''harvest'' [] ''trending'' 0 clips db))"

definition recheck_due :: "instant \<Rightarrow> duration \<Rightarrow> clip_row \<Rightarrow> bool" where
  "recheck_due t age r = (case cr_rechecked r of None \<Rightarrow> True | Some u \<Rightarrow> age < t - u)"

definition pick_rechecks :: "instant \<Rightarrow> int \<Rightarrow> duration \<Rightarrow> suno_db \<Rightarrow> string list" where
  "pick_rechecks t limit age db = take (nat limit) (map row_id
     (sort_stable (\<lambda>a b. cf_play (cr_cf b) < cf_play (cr_cf a)) (filter (recheck_due t age) (sd_clips db))))"

definition recheck_one :: "suno_config \<Rightarrow> suno_world \<Rightarrow> string \<Rightarrow> suno_db \<Rightarrow> suno_db" where
  "recheck_one c w i db = (case fetch_clip (sw_clip w ''recheck'' i) of
      Inl e \<Rightarrow> db
    | Inr raw \<Rightarrow> snd (take_clip c w (''recheck'', i, 0) ''recheck'' 0 raw db))"

definition recheck_pass :: "suno_config \<Rightarrow> suno_world \<Rightarrow> suno_db \<Rightarrow> suno_db" where
  "recheck_pass c w db =
    (let k = (''pick rechecks'', [], 0)
     in if sc_rechecks c \<le> 0 \<or> \<not> sw_ok w k then db
        else over_batch (\<lambda>i. sw_stop w (''recheck'', i, 0)) (recheck_one c w)
          (pick_rechecks (sw_now w k) (sc_rechecks c) (sc_min_age c) db) db)"

section \<open>Creators\<close>

text \<open>At startup every handle of a stored clip is queued, and clips below the floor go with their sightings.\<close>

definition seed_creators :: "suno_world \<Rightarrow> suno_db \<Rightarrow> suno_db" where
  "seed_creators w db =
    (let k = (''seed creators'', [], 0)
     in if \<not> sw_ok w k then db
        else db\<lparr>sd_creators := fold (\<lambda>h. upsert cq_handle id (new_creator (sw_now w k) h [] []))
          (remdups (filter (\<lambda>h. h \<noteq> []) (map (cf_handle \<circ> cr_cf) (sd_clips db)))) (sd_creators db)\<rparr>)"

definition prune_below_threshold :: "suno_config \<Rightarrow> suno_world \<Rightarrow> suno_db \<Rightarrow> suno_db" where
  "prune_below_threshold c w db =
    (if sc_min_upvotes c \<le> 0 \<or> \<not> sw_ok w (''prune'', [], 0) then db
     else (let keep = filter (\<lambda>r. sc_min_upvotes c \<le> cf_upvote (cr_cf r)) (sd_clips db)
       in db\<lparr>sd_clips := keep,
            sd_sightings := filter (\<lambda>s. sg_clip s \<in> set (map row_id keep)) (sd_sightings db)\<rparr>))"

definition playlist_ensure :: "instant \<Rightarrow> playlist_ref \<Rightarrow> playlist_row list \<Rightarrow> playlist_row list" where
  "playlist_ensure t p =
    upsert pq_id (\<lambda>r. r\<lparr>pq_name := (if rf_name p \<noteq> [] then rf_name p else pq_name r),
        pq_user := (if rf_user p \<noteq> [] then rf_user p else pq_user r), pq_songs := max (pq_songs r) (rf_songs p)\<rparr>)
      \<lparr>pq_id = rf_id p, pq_name = rf_name p, pq_user = rf_user p, pq_songs = rf_songs p, pq_next = 1,
       pq_indexed = 0, pq_done = False, pq_failures = 0, pq_error = None, pq_found = t, pq_crawled = None\<rparr>"

definition queue_playlist :: "suno_world \<Rightarrow> stmt \<Rightarrow> playlist_ref \<Rightarrow> suno_db \<Rightarrow> suno_db" where
  "queue_playlist w k p db = (if rf_id p = [] \<or> \<not> sw_ok w k then db
     else db\<lparr>sd_playlists := playlist_ensure (sw_now w k) p (sd_playlists db)\<rparr>)"

definition is_listed :: "profile_playlist \<Rightarrow> bool" where
  "is_listed p \<longleftrightarrow> pp_id p \<noteq> [] \<and> pp_public p \<noteq> Some False \<and> pp_hidden p \<noteq> Some True \<and> pp_trashed p \<noteq> Some True"

definition pick_creators :: "int \<Rightarrow> suno_db \<Rightarrow> creator_row list" where
  "pick_creators limit db = take (nat limit) (sort_stable (\<lambda>a b. queue_less (cq_crawled a, cq_found a) (cq_crawled b, cq_found b))
     (filter (\<lambda>r. \<not> cq_done r) (sd_creators db)))"

definition creator_failed :: "instant \<Rightarrow> suno_error \<Rightarrow> creator_row \<Rightarrow> creator_row" where
  "creator_failed t e r = r\<lparr>cq_failures := cq_failures r + 1, cq_done := (5 \<le> cq_failures r + 1),
     cq_error := Some e, cq_crawled := Some t\<rparr>"

definition creator_crawled :: "instant \<Rightarrow> profile \<Rightarrow> int \<Rightarrow> int \<Rightarrow> bool \<Rightarrow> creator_row \<Rightarrow> creator_row" where
  "creator_crawled t p next indexed fin r = r\<lparr>cq_user := (if pf_user p \<noteq> [] then pf_user p else cq_user r),
     cq_display := (if pf_display p \<noteq> [] then pf_display p else cq_display r), cq_total := max (cq_total r) (pf_total p),
     cq_next := next, cq_indexed := indexed, cq_failures := 0, cq_done := fin, cq_error := None, cq_crawled := Some t\<rparr>"

definition crawl_creator :: "suno_config \<Rightarrow> suno_world \<Rightarrow> creator_row \<Rightarrow> suno_db \<Rightarrow> suno_db" where
  "crawl_creator c w cu db =
    (let h = cq_handle cu; k = (''creator update'', h, 0)
     in case fetch_creator_clips (sw_profile w h (cq_next cu)) of
       Inl e \<Rightarrow> if sw_ok w k then db\<lparr>sd_creators := update_row cq_handle h (creator_failed (sw_now w k) e) (sd_creators db)\<rparr>
         else db
     | Inr p \<Rightarrow> (case take_clips c w ''creator'' h ''creator'' 0 (pf_clips p) db of (got, db1) \<Rightarrow>
         let db2 = fold (\<lambda>(i, q). queue_playlist w (''creator playlist'', h, i)
               \<lparr>rf_id = pp_id q, rf_name = pp_name q, rf_user = pp_user q, rf_songs = pp_songs q\<rparr>)
               (enumerate 0 (filter is_listed (pf_playlists p))) db1;
             indexed = cq_indexed cu + got;
             fin = (pf_clips p = [] \<or> 0 < pf_total p \<and> pf_total p \<le> indexed)
         in if sw_ok w k then db2\<lparr>sd_creators := update_row cq_handle h
              (creator_crawled (sw_now w k) p (cq_next cu + 1) indexed fin) (sd_creators db2)\<rparr> else db2))"

definition crawl_creators_pass :: "suno_config \<Rightarrow> suno_world \<Rightarrow> suno_db \<Rightarrow> suno_db" where
  "crawl_creators_pass c w db =
    (if sc_creators c \<le> 0 \<or> \<not> sw_ok w (''pick creators'', [], 0) then db
     else over_batch (\<lambda>cu. sw_stop w (''creator'', cq_handle cu, 0)) (crawl_creator c w) (pick_creators (sc_creators c) db) db)"

section \<open>Tags\<close>

text \<open>The locations of the sitemap: leftmost matches of https://suno.com/style/ and at least one byte up to \<open><\<close>.\<close>

definition style_prefix :: string where
  "style_prefix = ''https://suno.com/style/''"

function style_locs :: "string \<Rightarrow> string list" where
  "style_locs s = (if s = [] then []
     else if prefix style_prefix s \<and> takeWhile (\<lambda>c. c \<noteq> CHR ''<'') (drop (length style_prefix) s) \<noteq> []
     then takeWhile (\<lambda>c. c \<noteq> CHR ''<'') (drop (length style_prefix) s) #
       style_locs (dropWhile (\<lambda>c. c \<noteq> CHR ''<'') (drop (length style_prefix) s))
     else style_locs (tl s))"
  by pat_completeness auto
termination
proof (relation "measure length")
  fix s :: string
  assume "s \<noteq> []" and p: "prefix style_prefix s \<and> takeWhile (\<lambda>c. c \<noteq> CHR ''<'') (drop (length style_prefix) s) \<noteq> []"
  have "length (dropWhile (\<lambda>c. c \<noteq> CHR ''<'') (drop (length style_prefix) s)) \<le> length (drop (length style_prefix) s)"
    by (rule length_dropWhile_le)
  also have "\<dots> < length s" using \<open>s \<noteq> []\<close> by (simp add: style_prefix_def)
  finally show "(dropWhile (\<lambda>c. c \<noteq> CHR ''<'') (drop (length style_prefix) s), s) \<in> measure length" by simp
qed (auto simp: length_tl)

declare style_locs.simps [simp del]

fun path_unescape :: "string \<Rightarrow> string option" where
  "path_unescape [] = Some []"
| "path_unescape (c # cs) = (if c = CHR ''%''
     then (case cs of a # b # rest \<Rightarrow> (case (hex_val a, hex_val b) of
            (Some x, Some y) \<Rightarrow> map_option ((#) (char_of (16 * x + y))) (path_unescape rest) | _ \<Rightarrow> None)
          | _ \<Rightarrow> None)
     else map_option ((#) c) (path_unescape cs))"

definition slug_of :: "string \<Rightarrow> string" where
  "slug_of m = (let s = trim_suffix ''/'' (trim_space m) in case path_unescape s of Some d \<Rightarrow> d | None \<Rightarrow> s)"

definition fetch_styles_sitemap :: "reply \<Rightarrow> suno_error + string list" where
  "fetch_styles_sitemap rp = (case rp of
      NoReply e \<Rightarrow> Inl (NetError e)
    | Reply st body \<Rightarrow> if 400 \<le> st then Inl (BadStatus st [])
        else Inr (fold (\<lambda>m tags. if slug_of m = [] \<or> slug_of m \<in> set tags then tags else tags @ [slug_of m])
          (style_locs (take (4 * 2 ^ 20) body)) []))"

definition tag_ensure :: "instant \<Rightarrow> string \<Rightarrow> tag_row list \<Rightarrow> tag_row list" where
  "tag_ensure t tag = upsert tq_tag id \<lparr>tq_tag = tag, tq_next = 0, tq_hits = 0, tq_stored = 0, tq_failures = 0,
     tq_done = False, tq_error = None, tq_found = t, tq_crawled = None\<rparr>"

text \<open>The first statement that fails ends the seeding.\<close>

definition seed_tags :: "suno_world \<Rightarrow> suno_db \<Rightarrow> suno_db" where
  "seed_tags w db = (case fetch_styles_sitemap (sw_sitemap w) of
      Inl e \<Rightarrow> db
    | Inr tags \<Rightarrow> over_batch (\<lambda>t. \<not> sw_ok w (''seed tag'', t, 0))
        (\<lambda>t d. d\<lparr>sd_tags := tag_ensure (sw_now w (''seed tag'', t, 0)) t (sd_tags d)\<rparr>) tags db)"

definition pick_tags :: "int \<Rightarrow> suno_db \<Rightarrow> tag_row list" where
  "pick_tags limit db = take (nat limit) (sort_stable (\<lambda>a b. queue_less (tq_crawled a, tq_found a) (tq_crawled b, tq_found b))
     (filter (\<lambda>r. \<not> tq_done r) (sd_tags db)))"

definition tag_failed :: "instant \<Rightarrow> suno_error \<Rightarrow> tag_row \<Rightarrow> tag_row" where
  "tag_failed t e r = r\<lparr>tq_failures := tq_failures r + 1, tq_done := (5 \<le> tq_failures r + 1),
     tq_error := Some e, tq_crawled := Some t\<rparr>"

definition tag_crawled :: "instant \<Rightarrow> int \<Rightarrow> int \<Rightarrow> int \<Rightarrow> bool \<Rightarrow> tag_row \<Rightarrow> tag_row" where
  "tag_crawled t next hits got fin r = r\<lparr>tq_next := next, tq_hits := max (tq_hits r) hits,
     tq_stored := tq_stored r + got, tq_failures := 0, tq_done := fin, tq_error := None, tq_crawled := Some t\<rparr>"

text \<open>The largest count of upvotes on a page, 0 at least, over all clips that parse.\<close>

definition max_upvotes :: "json list \<Rightarrow> int" where
  "max_upvotes raws = fold (\<lambda>raw m. case parse_clip raw of None \<Rightarrow> m | Some cf \<Rightarrow> max m (cf_upvote cf)) raws 0"

definition crawl_tag :: "suno_config \<Rightarrow> suno_world \<Rightarrow> tag_row \<Rightarrow> suno_db \<Rightarrow> suno_db" where
  "crawl_tag c w cu db =
    (let tag = tq_tag cu; k = (''tag update'', tag, 0)
     in case fetch_tag_page (sw_search w tag (tq_next cu)) of
       Inl e \<Rightarrow> if sw_ok w k then db\<lparr>sd_tags := update_row tq_tag tag (tag_failed (sw_now w k) e) (sd_tags db)\<rparr> else db
     | Inr h \<Rightarrow> (case take_clips c w ''tag'' tag ''tag_search'' 0 (th_items h) db of (got, db1) \<Rightarrow>
         case tag_page_advance (tq_next cu) (int (length (th_items h))) (th_total h) (max_upvotes (th_items h)) (sc_min_upvotes c)
           of (next, fin) \<Rightarrow>
         if sw_ok w k then db1\<lparr>sd_tags := update_row tq_tag tag
           (tag_crawled (sw_now w k) next (th_total h) got fin) (sd_tags db1)\<rparr> else db1))"

definition tag_pass :: "suno_config \<Rightarrow> suno_world \<Rightarrow> suno_db \<Rightarrow> suno_db" where
  "tag_pass c w db =
    (if sc_tags c \<le> 0 \<or> \<not> sw_ok w (''pick tags'', [], 0) then db
     else over_batch (\<lambda>cu. sw_stop w (''tag'', tq_tag cu, 0)) (crawl_tag c w) (pick_tags (sc_tags c) db) db)"

section \<open>Playlists\<close>

definition pick_playlists :: "int \<Rightarrow> suno_db \<Rightarrow> playlist_row list" where
  "pick_playlists limit db = take (nat limit) (sort_stable (\<lambda>a b. queue_less (pq_crawled a, pq_found a) (pq_crawled b, pq_found b))
     (filter (\<lambda>r. \<not> pq_done r) (sd_playlists db)))"

definition playlist_failed :: "instant \<Rightarrow> suno_error \<Rightarrow> playlist_row \<Rightarrow> playlist_row" where
  "playlist_failed t e r = r\<lparr>pq_failures := pq_failures r + 1, pq_done := (5 \<le> pq_failures r + 1),
     pq_error := Some e, pq_crawled := Some t\<rparr>"

definition playlist_crawled :: "instant \<Rightarrow> playlist_page \<Rightarrow> int \<Rightarrow> int \<Rightarrow> int \<Rightarrow> bool \<Rightarrow> playlist_row \<Rightarrow> playlist_row" where
  "playlist_crawled t p songs next indexed fin r = r\<lparr>pq_name := (if pg_name p \<noteq> [] then pg_name p else pq_name r),
     pq_user := (if pg_user p \<noteq> [] then pg_user p else pq_user r), pq_songs := max (pq_songs r) songs,
     pq_next := next, pq_indexed := indexed, pq_failures := 0, pq_done := fin, pq_error := None, pq_crawled := Some t\<rparr>"

text \<open>The size of a playlist: what the page says, or else what was known.\<close>

definition playlist_size :: "playlist_page \<Rightarrow> playlist_row \<Rightarrow> int" where
  "playlist_size p cu = (if pg_total p \<noteq> 0 then pg_total p else if pg_songs p \<noteq> 0 then pg_songs p else pq_songs cu)"

definition crawl_playlist :: "suno_config \<Rightarrow> suno_world \<Rightarrow> playlist_row \<Rightarrow> suno_db \<Rightarrow> suno_db" where
  "crawl_playlist c w cu db =
    (let i = pq_id cu; k = (''playlist update'', i, 0); ko = (''playlist owner'', i, 0)
     in case fetch_playlist_page (sw_playlist w i (pq_next cu)) of
       Inl e \<Rightarrow> if sw_ok w k then db\<lparr>sd_playlists := update_row pq_id i (playlist_failed (sw_now w k) e) (sd_playlists db)\<rparr>
         else db
     | Inr p \<Rightarrow> (case take_clips c w ''playlist'' i ''playlist'' 0 (List.map_filter id (pg_clips p)) db of (got, db1) \<Rightarrow>
         let db2 = (if pg_user p \<noteq> [] \<and> sw_ok w ko
               then db1\<lparr>sd_creators := creator_ensure (sw_now w ko) (pg_user p) [] [] (sd_creators db1)\<rparr> else db1);
             seen = int (length (pg_clips p)); songs = playlist_size p cu;
             fin = (seen = 0 \<or> 0 < songs \<and> songs \<le> seen)
         in if sw_ok w k then db2\<lparr>sd_playlists := update_row pq_id i
              (playlist_crawled (sw_now w k) p songs (pq_next cu + 1) (pq_indexed cu + got) fin) (sd_playlists db2)\<rparr> else db2))"

definition playlist_pass :: "suno_config \<Rightarrow> suno_world \<Rightarrow> suno_db \<Rightarrow> suno_db" where
  "playlist_pass c w db =
    (if sc_playlists c \<le> 0 \<or> \<not> sw_ok w (''pick playlists'', [], 0) then db
     else over_batch (\<lambda>cu. sw_stop w (''playlist'', pq_id cu, 0)) (crawl_playlist c w) (pick_playlists (sc_playlists c) db) db)"

section \<open>Seeds and editorial indexes\<close>

definition pick_seeds :: "int \<Rightarrow> suno_db \<Rightarrow> fetch_row list" where
  "pick_seeds limit db = take (nat limit) (sort_stable (\<lambda>a b. fq_attempts a < fq_attempts b \<or>
       fq_attempts a = fq_attempts b \<and> fq_found a < fq_found b)
     (filter (\<lambda>r. \<not> fq_done r) (sd_queue db)))"

definition seed_failed :: "instant \<Rightarrow> suno_error \<Rightarrow> fetch_row \<Rightarrow> fetch_row" where
  "seed_failed t e r = r\<lparr>fq_attempts := fq_attempts r + 1, fq_done := (3 \<le> fq_attempts r + 1),
     fq_error := Some e, fq_fetched := Some t\<rparr>"

definition seed_done :: "instant \<Rightarrow> fetch_row \<Rightarrow> fetch_row" where
  "seed_done t r = r\<lparr>fq_done := True, fq_error := None, fq_fetched := Some t\<rparr>"

definition fetch_seed :: "suno_config \<Rightarrow> suno_world \<Rightarrow> fetch_row \<Rightarrow> suno_db \<Rightarrow> suno_db" where
  "fetch_seed c w cu db =
    (let i = fq_id cu; k = (''seed update'', i, 0)
     in case fetch_clip (sw_clip w ''seed'' i) of
       Inl e \<Rightarrow> if sw_ok w k then db\<lparr>sd_queue := update_row fq_id i (seed_failed (sw_now w k) e) (sd_queue db)\<rparr> else db
     | Inr raw \<Rightarrow> (let db1 = snd (take_clip c w (''seed'', i, 0) (fq_source cu) 0 raw db)
         in if sw_ok w k then db1\<lparr>sd_queue := update_row fq_id i (seed_done (sw_now w k)) (sd_queue db1)\<rparr> else db1))"

definition seed_pass :: "suno_config \<Rightarrow> suno_world \<Rightarrow> suno_db \<Rightarrow> suno_db" where
  "seed_pass c w db =
    (if sc_seeds c \<le> 0 \<or> \<not> sw_ok w (''pick seeds'', [], 0) then db
     else over_batch (\<lambda>cu. sw_stop w (''seed'', fq_id cu, 0)) (fetch_seed c w) (pick_seeds (sc_seeds c) db) db)"

definition seed_ensure :: "instant \<Rightarrow> string \<Rightarrow> string \<Rightarrow> fetch_row list \<Rightarrow> fetch_row list" where
  "seed_ensure t i source = upsert fq_id id \<lparr>fq_id = i, fq_source = source, fq_attempts = 0, fq_done = False,
     fq_error = None, fq_found = t, fq_fetched = None\<rparr>"

definition queue_contest :: "suno_world \<Rightarrow> nat \<times> string \<Rightarrow> suno_db \<Rightarrow> suno_db" where
  "queue_contest w nid db = (case nid of (n, i) \<Rightarrow>
     let k = (''contest'', i, n)
     in if i = [] \<or> \<not> sw_ok w k then db else db\<lparr>sd_queue := seed_ensure (sw_now w k) i ''contest'' (sd_queue db)\<rparr>)"

definition editorial_fresh :: "suno_config \<Rightarrow> suno_world \<Rightarrow> suno_db \<Rightarrow> bool" where
  "editorial_fresh c w db = (case sd_meta db ''editorial_seed'' of None \<Rightarrow> False
    | Some t \<Rightarrow> sw_now w (''clock'', [], 0) - t < sc_editorial c)"

definition editorial_pass :: "suno_config \<Rightarrow> suno_world \<Rightarrow> suno_db \<Rightarrow> suno_db" where
  "editorial_pass c w db =
    (let k = (''editorial meta'', [], 0)
     in if sc_editorial c \<le> 0 \<or> \<not> sw_ok w (''read meta'', [], 0) \<or> editorial_fresh c w db then db
        else (case fetch_editorial (sw_index w) of
          Inl e \<Rightarrow> db
        | Inr refs \<Rightarrow>
            let db1 = fold (\<lambda>r. queue_playlist w (''editorial'', rf_id r, 0) r) refs db;
                db2 = (case fetch_contest_seeds (sw_contests w) of Inl e \<Rightarrow> db1
                  | Inr ids \<Rightarrow> fold (queue_contest w) (enumerate 0 ids) db1)
            in if sw_ok w k then db2\<lparr>sd_meta := (sd_meta db2)(''editorial_seed'' \<mapsto> sw_now w k)\<rparr> else db2))"

section \<open>The daemon\<close>

definition start_up :: "suno_config \<Rightarrow> suno_world \<Rightarrow> suno_db \<Rightarrow> suno_db" where
  "start_up c w db = seed_tags w (seed_creators w (prune_below_threshold c w db))"

definition suno_pass :: "suno_config \<Rightarrow> suno_world \<Rightarrow> suno_db \<Rightarrow> suno_db" where
  "suno_pass c w db = seed_pass c w (playlist_pass c w (tag_pass c w (crawl_creators_pass c w
     (recheck_pass c w (harvest_pass c w (editorial_pass c w db))))))"

definition daemon_run :: "suno_config \<Rightarrow> suno_world \<Rightarrow> suno_world list \<Rightarrow> suno_db \<Rightarrow> suno_db" where
  "daemon_run c w0 ws db = fold (suno_pass c) ws (start_up c w0 db)"

end
