(* ===== verification/SunoSpec.thy ===== *)
theory SunoSpec
  imports SunoLanes
begin

text \<open>
  What the lanes of pkgs/suno-top keep. A property of the tables that every single statement keeps is kept
  by every pass; that is proved once, in \<open>lane_invariant\<close>, and used twice: for the shape of the tables with
  the floor, and for the rows that are finished and must never be crawled again.
\<close>

section \<open>Statements keep it, so passes do\<close>

inductive creator_write :: "(creator_row \<Rightarrow> creator_row) \<Rightarrow> bool" where
  creator_write_failed: "creator_write (creator_failed t e)"
| creator_write_crawled: "1 \<le> n \<Longrightarrow> creator_write (creator_crawled t p n i b)"

inductive tag_write :: "(tag_row \<Rightarrow> tag_row) \<Rightarrow> bool" where
  tag_write_failed: "tag_write (tag_failed t e)"
| tag_write_crawled: "0 \<le> n \<Longrightarrow> tag_write (tag_crawled t n h g b)"

inductive playlist_write :: "(playlist_row \<Rightarrow> playlist_row) \<Rightarrow> bool" where
  playlist_write_failed: "playlist_write (playlist_failed t e)"
| playlist_write_crawled: "1 \<le> n \<Longrightarrow> playlist_write (playlist_crawled t p s n i b)"

inductive seed_write :: "(fetch_row \<Rightarrow> fetch_row) \<Rightarrow> bool" where
  seed_write_failed: "seed_write (seed_failed t e)"
| seed_write_done: "seed_write (seed_done t)"

lemmas queue_writes = creator_write.intros tag_write.intros playlist_write.intros seed_write.intros
lemmas queue_write_cases = creator_write.cases tag_write.cases playlist_write.cases seed_write.cases

locale lane_invariant =
  fixes c :: suno_config
    and I :: "suno_db \<Rightarrow> bool"
    and RC RT RP RQ :: "string set"
  assumes store: "I db \<Longrightarrow> meets_threshold c cf \<Longrightarrow> I (store_clip t s rk cf raw db)"
    and creators: "I db \<Longrightarrow> I (db\<lparr>sd_creators := creator_ensure t h u d (sd_creators db)\<rparr>)"
    and creator_row: "I db \<Longrightarrow> h \<notin> RC \<Longrightarrow> creator_write f \<Longrightarrow> I (db\<lparr>sd_creators := update_row cq_handle h f (sd_creators db)\<rparr>)"
    and live_creator: "I db \<Longrightarrow> r \<in> set (sd_creators db) \<Longrightarrow> \<not> cq_done r \<Longrightarrow> cq_handle r \<notin> RC \<and> 1 \<le> cq_next r"
    and tag_row: "I db \<Longrightarrow> k \<notin> RT \<Longrightarrow> tag_write g \<Longrightarrow> I (db\<lparr>sd_tags := update_row tq_tag k g (sd_tags db)\<rparr>)"
    and live_tag: "I db \<Longrightarrow> q \<in> set (sd_tags db) \<Longrightarrow> \<not> tq_done q \<Longrightarrow> tq_tag q \<notin> RT \<and> 0 \<le> tq_next q"
    and playlists: "I db \<Longrightarrow> I (db\<lparr>sd_playlists := playlist_ensure t p (sd_playlists db)\<rparr>)"
    and playlist_row: "I db \<Longrightarrow> k \<notin> RP \<Longrightarrow> playlist_write fp \<Longrightarrow> I (db\<lparr>sd_playlists := update_row pq_id k fp (sd_playlists db)\<rparr>)"
    and live_playlist: "I db \<Longrightarrow> rp \<in> set (sd_playlists db) \<Longrightarrow> \<not> pq_done rp \<Longrightarrow> pq_id rp \<notin> RP \<and> 1 \<le> pq_next rp"
    and seeds: "I db \<Longrightarrow> I (db\<lparr>sd_queue := seed_ensure t i s (sd_queue db)\<rparr>)"
    and fetch_row: "I db \<Longrightarrow> k \<notin> RQ \<Longrightarrow> seed_write fs \<Longrightarrow> I (db\<lparr>sd_queue := update_row fq_id k fs (sd_queue db)\<rparr>)"
    and live_seed: "I db \<Longrightarrow> rq \<in> set (sd_queue db) \<Longrightarrow> \<not> fq_done rq \<Longrightarrow> fq_id rq \<notin> RQ"
    and meta: "I db \<Longrightarrow> I (db\<lparr>sd_meta := m\<rparr>)"
begin

lemma take_clip_keeps: "I db \<Longrightarrow> I (snd (take_clip c w k s rk raw db))"
  by (simp add: take_clip_def store split: option.splits)

lemma take_clips_keeps: "I db \<Longrightarrow> I (snd (take_clips c w l ow s i raws db))"
proof (induction raws arbitrary: i db)
  case (Cons raw raws)
  have "I (snd (take_clip c w (l, ow, i) s (Suc i) raw db))" by (rule take_clip_keeps [OF Cons.prems])
  from Cons.IH [OF this, of "Suc i"] show ?case by (auto split: prod.splits)
qed simp

lemma batch_keeps:
  assumes "\<And>x d. x \<in> set xs \<Longrightarrow> I d \<Longrightarrow> I (f x d)"
  shows "I db \<Longrightarrow> I (over_batch stop f xs db)"
  using assms by (induction xs arbitrary: db) simp_all

lemma fold_keeps:
  assumes "\<And>x d. x \<in> set xs \<Longrightarrow> I d \<Longrightarrow> I (f x d)"
  shows "I db \<Longrightarrow> I (fold f xs db)"
  using assms by (induction xs arbitrary: db) simp_all

lemma harvest_keeps: "I db \<Longrightarrow> I (harvest_pass c w db)"
  by (simp add: harvest_pass_def take_clips_keeps split: sum.splits)

lemma recheck_keeps: "I db \<Longrightarrow> I (recheck_pass c w db)"
  by (auto simp: recheck_pass_def Let_def recheck_one_def take_clip_keeps split: sum.splits intro!: batch_keeps)

lemma queue_playlist_keeps: "I db \<Longrightarrow> I (queue_playlist w k p db)"
  by (simp add: queue_playlist_def playlists)

lemma crawl_creator_keeps:
  assumes "I db" "cq_handle r \<notin> RC \<and> 1 \<le> cq_next r"
  shows "I (crawl_creator c w r db)"
proof (cases "fetch_creator_clips (sw_profile w (cq_handle r) (cq_next r))")
  case (Inl e)
  then show ?thesis using assms by (auto simp: crawl_creator_def Let_def intro!: creator_row queue_writes)
next
  case (Inr p)
  obtain got db1 where t: "take_clips c w ''creator'' (cq_handle r) ''creator'' 0 (pf_clips p) db = (got, db1)"
    by (cases "take_clips c w ''creator'' (cq_handle r) ''creator'' 0 (pf_clips p) db")
  have "I db1" using take_clips_keeps [OF assms(1), of w "''creator''" "cq_handle r" "''creator''" 0 "pf_clips p"] t by simp
  then have "I (fold (\<lambda>(i, q). queue_playlist w (''creator playlist'', cq_handle r, i)
      \<lparr>rf_id = pp_id q, rf_name = pp_name q, rf_user = pp_user q, rf_songs = pp_songs q\<rparr>)
      (enumerate 0 (filter is_listed (pf_playlists p))) db1)"
    by (rule fold_keeps [rotated]) (auto intro: queue_playlist_keeps)
  then show ?thesis
    using assms(2) Inr t by (simp add: crawl_creator_def Let_def creator_row queue_writes)
qed

lemma creators_keep: "I db \<Longrightarrow> I (crawl_creators_pass c w db)"
proof -
  assume i: "I db"
  have "cq_handle r \<notin> RC \<and> 1 \<le> cq_next r" if "r \<in> set (pick_creators (sc_creators c) db)" for r
    using that live_creator [OF i, of r] by (auto simp: pick_creators_def dest!: in_set_takeD)
  then show ?thesis using i
    by (auto simp: crawl_creators_pass_def intro!: batch_keeps crawl_creator_keeps)
qed

lemma crawl_tag_keeps:
  assumes "I db" "tq_tag r \<notin> RT \<and> 0 \<le> tq_next r"
  shows "I (crawl_tag c w r db)"
proof (cases "fetch_tag_page (sw_search w (tq_tag r) (tq_next r))")
  case (Inl e)
  then show ?thesis using assms by (auto simp: crawl_tag_def Let_def intro!: tag_row queue_writes)
next
  case (Inr h)
  obtain got db1 where t: "take_clips c w ''tag'' (tq_tag r) ''tag_search'' 0 (th_items h) db = (got, db1)"
    by (cases "take_clips c w ''tag'' (tq_tag r) ''tag_search'' 0 (th_items h) db")
  have "I db1" using take_clips_keeps [OF assms(1), of w "''tag''" "tq_tag r" "''tag_search''" 0 "th_items h"] t by simp
  then show ?thesis
    using assms(2) Inr t by (simp add: crawl_tag_def Let_def tag_page_advance_def tag_row queue_writes)
qed

lemma tags_keep: "I db \<Longrightarrow> I (tag_pass c w db)"
proof -
  assume i: "I db"
  have "tq_tag r \<notin> RT \<and> 0 \<le> tq_next r" if "r \<in> set (pick_tags (sc_tags c) db)" for r
    using that live_tag [OF i, of r] by (auto simp: pick_tags_def dest!: in_set_takeD)
  then show ?thesis using i by (auto simp: tag_pass_def intro!: batch_keeps crawl_tag_keeps)
qed

lemma crawl_playlist_keeps:
  assumes "I db" "pq_id r \<notin> RP \<and> 1 \<le> pq_next r"
  shows "I (crawl_playlist c w r db)"
proof (cases "fetch_playlist_page (sw_playlist w (pq_id r) (pq_next r))")
  case (Inl e)
  then show ?thesis using assms by (auto simp: crawl_playlist_def Let_def intro!: playlist_row queue_writes)
next
  case (Inr p)
  obtain got db1 where t: "take_clips c w ''playlist'' (pq_id r) ''playlist'' 0 (List.map_filter id (pg_clips p)) db = (got, db1)"
    by (cases "take_clips c w ''playlist'' (pq_id r) ''playlist'' 0 (List.map_filter id (pg_clips p)) db")
  have "I db1"
    using take_clips_keeps [OF assms(1), of w "''playlist''" "pq_id r" "''playlist''" 0 "List.map_filter id (pg_clips p)"] t
    by simp
  then show ?thesis
    using assms(2) Inr t by (simp add: crawl_playlist_def Let_def playlist_row creators queue_writes)
qed

lemma playlists_keep: "I db \<Longrightarrow> I (playlist_pass c w db)"
proof -
  assume i: "I db"
  have "pq_id r \<notin> RP \<and> 1 \<le> pq_next r" if "r \<in> set (pick_playlists (sc_playlists c) db)" for r
    using that live_playlist [OF i, of r] by (auto simp: pick_playlists_def dest!: in_set_takeD)
  then show ?thesis using i by (auto simp: playlist_pass_def intro!: batch_keeps crawl_playlist_keeps)
qed

lemma fetch_seed_keeps: "I db \<Longrightarrow> fq_id r \<notin> RQ \<Longrightarrow> I (fetch_seed c w r db)"
  by (auto simp: fetch_seed_def Let_def take_clip_keeps intro!: fetch_row queue_writes split: sum.splits)

lemma seeds_keep: "I db \<Longrightarrow> I (seed_pass c w db)"
proof -
  assume i: "I db"
  have "fq_id r \<notin> RQ" if "r \<in> set (pick_seeds (sc_seeds c) db)" for r
    using that live_seed [OF i, of r] by (auto simp: pick_seeds_def dest!: in_set_takeD)
  then show ?thesis using i by (auto simp: seed_pass_def intro!: batch_keeps fetch_seed_keeps)
qed

lemma queue_contest_keeps: "I db \<Longrightarrow> I (queue_contest w nid db)"
  by (simp add: queue_contest_def Let_def seeds split: prod.splits)

lemma editorial_keeps: "I db \<Longrightarrow> I (editorial_pass c w db)"
  by (auto simp: editorial_pass_def Let_def split: sum.splits
      intro!: meta fold_keeps queue_playlist_keeps queue_contest_keeps)

lemma suno_pass_keeps: "I db \<Longrightarrow> I (suno_pass c w db)"
  by (simp add: suno_pass_def seeds_keep playlists_keep tags_keep creators_keep recheck_keeps harvest_keeps editorial_keeps)

lemma passes_keep: "I db \<Longrightarrow> I (fold (suno_pass c) ws db)"
  by (induction ws arbitrary: db) (simp_all add: suno_pass_keeps)

end

section \<open>The shape of the tables\<close>

definition creator_ok :: "creator_row \<Rightarrow> bool" where
  "creator_ok r \<longleftrightarrow> 1 \<le> cq_next r \<and> 0 \<le> cq_failures r \<and> (\<not> cq_done r \<longrightarrow> cq_failures r < 5)"

definition tag_ok :: "tag_row \<Rightarrow> bool" where
  "tag_ok r \<longleftrightarrow> 0 \<le> tq_next r \<and> 0 \<le> tq_failures r \<and> (\<not> tq_done r \<longrightarrow> tq_failures r < 5)"

definition playlist_ok :: "playlist_row \<Rightarrow> bool" where
  "playlist_ok r \<longleftrightarrow> 1 \<le> pq_next r \<and> 0 \<le> pq_failures r \<and> (\<not> pq_done r \<longrightarrow> pq_failures r < 5)"

definition seed_ok :: "fetch_row \<Rightarrow> bool" where
  "seed_ok r \<longleftrightarrow> 0 \<le> fq_attempts r \<and> (\<not> fq_done r \<longrightarrow> fq_attempts r < 3)"

lemmas row_oks = creator_ok_def tag_ok_def playlist_ok_def seed_ok_def

definition queue_ok :: "('r \<Rightarrow> 'k) \<Rightarrow> ('r \<Rightarrow> bool) \<Rightarrow> 'r list \<Rightarrow> bool" where
  "queue_ok key P rows \<longleftrightarrow> distinct (map key rows) \<and> list_all P rows"

definition kept :: "suno_db \<Rightarrow> bool" where
  "kept db \<longleftrightarrow> curves_complete db \<and> queue_ok cq_handle creator_ok (sd_creators db) \<and>
    queue_ok tq_tag tag_ok (sd_tags db) \<and> queue_ok pq_id playlist_ok (sd_playlists db) \<and>
    queue_ok fq_id seed_ok (sd_queue db)"

lemma queue_ok_upsert:
  assumes "queue_ok key P rows" "P new" "\<And>r. P r \<Longrightarrow> P (upd r)" "\<And>r. key (upd r) = key r"
  shows "queue_ok key P (upsert key upd new rows)"
  using assms upsert_distinct [of key upd rows new]
  by (auto simp: queue_ok_def list_all_iff dest: set_upsert)

lemma queue_ok_update:
  assumes "queue_ok key P rows" "\<And>r. P r \<Longrightarrow> P (upd r)" "\<And>r. key (upd r) = key r"
  shows "queue_ok key P (update_row key k upd rows)"
  using assms update_row_keys [of key upd k rows]
  by (auto simp: queue_ok_def list_all_iff dest: set_update_row)

lemma queue_ok_member: "queue_ok key P rows \<Longrightarrow> r \<in> set rows \<Longrightarrow> P r"
  by (simp add: queue_ok_def list_all_iff)

lemma queue_ok_same: "queue_ok key P rows \<Longrightarrow> r \<in> set rows \<Longrightarrow> q \<in> set rows \<Longrightarrow> key r = key q \<Longrightarrow> r = q"
  by (auto simp: queue_ok_def distinct_map dest: inj_onD)

lemma queue_ok_creator_ensure: "queue_ok cq_handle creator_ok rs \<Longrightarrow> queue_ok cq_handle creator_ok (creator_ensure t h u d rs)"
  unfolding creator_ensure_def by (rule queue_ok_upsert) (auto simp: creator_ok_def new_creator_def)

lemma queue_ok_creator_write:
  assumes "creator_write f" "queue_ok cq_handle creator_ok rs"
  shows "queue_ok cq_handle creator_ok (update_row cq_handle h f rs)"
  by (rule queue_ok_update [OF assms(2)])
    (use assms(1) in \<open>auto elim!: queue_write_cases simp: creator_ok_def creator_failed_def creator_crawled_def\<close>)

lemma queue_ok_tag_ensure: "queue_ok tq_tag tag_ok rs \<Longrightarrow> queue_ok tq_tag tag_ok (tag_ensure t k rs)"
  unfolding tag_ensure_def by (rule queue_ok_upsert) (auto simp: tag_ok_def)

lemma queue_ok_tag_write:
  assumes "tag_write f" "queue_ok tq_tag tag_ok rs"
  shows "queue_ok tq_tag tag_ok (update_row tq_tag k f rs)"
  by (rule queue_ok_update [OF assms(2)])
    (use assms(1) in \<open>auto elim!: queue_write_cases simp: tag_ok_def tag_failed_def tag_crawled_def\<close>)

lemma queue_ok_playlist_ensure: "queue_ok pq_id playlist_ok rs \<Longrightarrow> queue_ok pq_id playlist_ok (playlist_ensure t p rs)"
  unfolding playlist_ensure_def by (rule queue_ok_upsert) (auto simp: playlist_ok_def)

lemma queue_ok_playlist_write:
  assumes "playlist_write f" "queue_ok pq_id playlist_ok rs"
  shows "queue_ok pq_id playlist_ok (update_row pq_id k f rs)"
  by (rule queue_ok_update [OF assms(2)])
    (use assms(1) in \<open>auto elim!: queue_write_cases simp: playlist_ok_def playlist_failed_def playlist_crawled_def\<close>)

lemma queue_ok_seed_ensure: "queue_ok fq_id seed_ok rs \<Longrightarrow> queue_ok fq_id seed_ok (seed_ensure t i s rs)"
  unfolding seed_ensure_def by (rule queue_ok_upsert) (auto simp: seed_ok_def)

lemma queue_ok_seed_write:
  assumes "seed_write f" "queue_ok fq_id seed_ok rs"
  shows "queue_ok fq_id seed_ok (update_row fq_id k f rs)"
  by (rule queue_ok_update [OF assms(2)])
    (use assms(1) in \<open>auto elim!: queue_write_cases simp: seed_ok_def seed_failed_def seed_done_def\<close>)

lemmas queue_oks = queue_ok_creator_ensure queue_ok_creator_write queue_ok_tag_ensure queue_ok_tag_write
  queue_ok_playlist_ensure queue_ok_playlist_write queue_ok_seed_ensure queue_ok_seed_write

lemma curves_complete_cong:
  "sd_clips db' = sd_clips db \<Longrightarrow> sd_sightings db' = sd_sightings db \<Longrightarrow> curves_complete db' = curves_complete db"
  by (simp add: curves_complete_def)

lemma curves_complete_more [simp]:
  "curves_complete (db\<lparr>sd_creators := x\<rparr>) = curves_complete db" "curves_complete (db\<lparr>sd_tags := y\<rparr>) = curves_complete db"
  "curves_complete (db\<lparr>sd_playlists := z\<rparr>) = curves_complete db" "curves_complete (db\<lparr>sd_queue := u\<rparr>) = curves_complete db"
  "curves_complete (db\<lparr>sd_meta := v\<rparr>) = curves_complete db"
  by (rule curves_complete_cong; simp)+

lemma kept_store: "kept db \<Longrightarrow> kept (store_clip t s rk cf raw db)"
  by (auto simp: kept_def store_clip_curves store_clip_fields queue_oks)

lemma kept_live:
  assumes "kept db"
  shows "r \<in> set (sd_creators db) \<Longrightarrow> 1 \<le> cq_next r" "q \<in> set (sd_tags db) \<Longrightarrow> 0 \<le> tq_next q"
    "p \<in> set (sd_playlists db) \<Longrightarrow> 1 \<le> pq_next p"
  using assms by (auto simp: kept_def row_oks dest: queue_ok_member)

section \<open>The floor, the handles\<close>

definition tables_ok :: "suno_config \<Rightarrow> suno_db \<Rightarrow> bool" where
  "tables_ok c db \<longleftrightarrow> kept db \<and> (\<forall>r \<in> set (sd_clips db). meets_threshold c (cr_cf r)) \<and>
    (\<forall>r \<in> set (sd_clips db). cf_handle (cr_cf r) \<noteq> [] \<longrightarrow> cf_handle (cr_cf r) \<in> set (map cq_handle (sd_creators db)))"

lemma creator_ensure_handles:
  "set (map cq_handle (creator_ensure t h u d rs)) = insert h (set (map cq_handle rs))"
  unfolding creator_ensure_def by (subst upsert_keys) (auto simp: new_creator_def)

lemma creator_write_handle: "creator_write f \<Longrightarrow> cq_handle (f r) = cq_handle r"
  by (auto elim!: creator_write.cases simp: creator_failed_def creator_crawled_def)

lemma tables_ok_store:
  assumes ok: "tables_ok c db" and m: "meets_threshold c cf"
  shows "tables_ok c (store_clip t s rk cf raw db)"
  unfolding tables_ok_def
proof (intro conjI ballI impI)
  show "kept (store_clip t s rk cf raw db)" using ok by (simp add: tables_ok_def kept_store)
  fix r assume r: "r \<in> set (sd_clips (store_clip t s rk cf raw db))"
  note upsert_clip_rows [OF this [unfolded store_clip_fields]]
  note cases = this
  from cases show "meets_threshold c (cr_cf r)" using ok m by (auto simp: tables_ok_def meets_threshold_def)
  assume "cf_handle (cr_cf r) \<noteq> []"
  with cases show "cf_handle (cr_cf r) \<in> set (map cq_handle (sd_creators (store_clip t s rk cf raw db)))"
    using ok by (auto simp: tables_ok_def store_clip_fields creator_ensure_handles simp del: set_map)
qed

lemma tables_ok_creators: "tables_ok c db \<Longrightarrow> tables_ok c (db\<lparr>sd_creators := creator_ensure t h u d (sd_creators db)\<rparr>)"
  by (simp add: tables_ok_def kept_def queue_oks creator_ensure_handles del: set_map)

lemma tables_ok_creator_row:
  "tables_ok c db \<Longrightarrow> creator_write f \<Longrightarrow> tables_ok c (db\<lparr>sd_creators := update_row cq_handle h f (sd_creators db)\<rparr>)"
  using update_row_keys [of cq_handle f h "sd_creators db"]
  by (simp add: tables_ok_def kept_def queue_oks creator_write_handle del: set_map)

lemma tables_ok_live:
  "tables_ok c db \<Longrightarrow> r \<in> set (sd_creators db) \<Longrightarrow> 1 \<le> cq_next r"
  "tables_ok c db \<Longrightarrow> q \<in> set (sd_tags db) \<Longrightarrow> 0 \<le> tq_next q"
  "tables_ok c db \<Longrightarrow> p \<in> set (sd_playlists db) \<Longrightarrow> 1 \<le> pq_next p"
  by (auto simp: tables_ok_def kept_live)

interpretation floor: lane_invariant c "tables_ok c" "{}" "{}" "{}" "{}" for c
  by unfold_locales
    (simp_all only: tables_ok_store tables_ok_creators tables_ok_creator_row tables_ok_live empty_iff simp_thms,
      simp_all add: tables_ok_def kept_def queue_oks)

section \<open>Startup\<close>

lemma newest_filter: "i \<in> S \<Longrightarrow> newest i (filter (\<lambda>s. sg_clip s \<in> S) ss) = newest i ss"
proof -
  assume "i \<in> S"
  then have "filter (\<lambda>s. sg_clip s = i) (filter (\<lambda>s. sg_clip s \<in> S) ss) = filter (\<lambda>s. sg_clip s = i) ss"
    by (induction ss) auto
  then show ?thesis by (simp add: newest_def)
qed

lemma prune_floor:
  assumes "kept db" "sw_ok w (''prune'', [], 0)"
  shows "kept (prune_below_threshold c w db) \<and>
    (\<forall>r \<in> set (sd_clips (prune_below_threshold c w db)). meets_threshold c (cr_cf r))"
proof (cases "sc_min_upvotes c \<le> 0")
  case False
  define K where "K = filter (\<lambda>r. sc_min_upvotes c \<le> cf_upvote (cr_cf r)) (sd_clips db)"
  have "curves_complete (db\<lparr>sd_clips := K, sd_sightings := filter (\<lambda>s. sg_clip s \<in> set (map row_id K)) (sd_sightings db)\<rparr>)"
    using assms(1) by (auto simp: K_def curves_complete_def kept_def newest_filter distinct_map inj_on_def)
  then show ?thesis
    using False assms by (simp add: prune_below_threshold_def kept_def K_def Let_def meets_threshold_def curves_complete_def)
qed (use assms in \<open>simp add: prune_below_threshold_def meets_threshold_def\<close>)

lemma new_creator_simps [simp]: "cq_handle (new_creator t h u d) = h" "creator_ok (new_creator t h u d)"
  by (simp_all add: new_creator_def creator_ok_def)

lemma seed_handles:
  fixes t :: instant
  assumes "queue_ok cq_handle creator_ok rs"
  defines "seeded \<equiv> \<lambda>hs rs. fold (\<lambda>h. upsert cq_handle id (new_creator t h [] [])) hs rs"
  shows "queue_ok cq_handle creator_ok (seeded hs rs) \<and>
    set (map cq_handle rs) \<union> set hs \<subseteq> set (map cq_handle (seeded hs rs))"
  using assms(1)
proof (induction hs arbitrary: rs)
  case (Cons h hs)
  let ?rs = "upsert cq_handle id (new_creator t h [] []) rs"
  have q: "queue_ok cq_handle creator_ok ?rs" using Cons.prems by (rule queue_ok_upsert) simp_all
  have "set (map cq_handle ?rs) = insert h (set (map cq_handle rs))" by (subst upsert_keys) auto
  moreover have "seeded (h # hs) rs = seeded hs ?rs" by (simp add: seeded_def)
  ultimately show ?case using Cons.IH [OF q] by auto
qed (simp add: seeded_def)

lemma seed_creators_ok:
  assumes "kept db" "\<forall>r \<in> set (sd_clips db). meets_threshold c (cr_cf r)" "sw_ok w (''seed creators'', [], 0)"
  shows "tables_ok c (seed_creators w db)"
  using seed_handles [of "sd_creators db" "sw_now w (''seed creators'', [], 0)"
      "remdups (filter (\<lambda>h. h \<noteq> []) (map (cf_handle \<circ> cr_cf) (sd_clips db)))"] assms
  by (auto simp: tables_ok_def kept_def seed_creators_def Let_def simp del: set_map) auto

lemma seed_tags_ok:
  assumes "tables_ok c db" shows "tables_ok c (seed_tags w db)"
proof -
  have "tables_ok c (over_batch stop (\<lambda>t d. d\<lparr>sd_tags := tag_ensure (n t) t (sd_tags d)\<rparr>) tags db)" for stop n tags
    by (rule floor.batch_keeps [OF _ assms]) (auto simp: tables_ok_def kept_def queue_oks)
  then show ?thesis using assms by (simp add: seed_tags_def split: sum.splits)
qed

lemma start_up_ok:
  assumes "kept db" "sw_ok w (''prune'', [], 0)" "sw_ok w (''seed creators'', [], 0)"
  shows "tables_ok c (start_up c w db)"
  using prune_floor [OF assms(1,2), of c] assms(3) by (simp add: start_up_def seed_tags_ok seed_creators_ok)

lemma kept_empty: "kept empty_suno"
  by (simp add: kept_def empty_suno_def curves_complete_def queue_ok_def)

text \<open>
  C31: After a start whose pruning and seeding worked and any passes, whatever the service answers and
  which ever statements fail: every stored clip is at or above the floor, the newest sighting of every
  clip has its present counts, every sighting has its clip, every handle of a clip is queued, keys are
  unique, and an unfinished queue row has fewer failures in a row than retire it.
\<close>

theorem daemon_keeps_floor_and_curves:
  assumes "kept db" "sw_ok w0 (''prune'', [], 0)" "sw_ok w0 (''seed creators'', [], 0)"
  shows "tables_ok c (daemon_run c w0 ws db)"
  unfolding daemon_run_def by (rule floor.passes_keep [OF start_up_ok [OF assms]])

definition quiet_world :: suno_world where
  "quiet_world = \<lparr>sw_now = (\<lambda>_. 0), sw_ok = (\<lambda>_. True), sw_stop = (\<lambda>_. False), sw_feed = NoReply [],
     sw_clip = (\<lambda>_ _. NoReply []), sw_profile = (\<lambda>_ _. NoReply []), sw_search = (\<lambda>_ _. NoReply []),
     sw_playlist = (\<lambda>_ _. NoReply []), sw_index = (\<lambda>_. NoReply []), sw_contests = NoReply [],
     sw_sitemap = Reply 200 ''<loc>https://suno.com/style/r%26b</loc>''\<rparr>"

definition small_config :: suno_config where
  "small_config = \<lparr>sc_rechecks = 20, sc_min_age = 45 * minute, sc_creators = 10, sc_min_upvotes = 100, sc_tags = 2,
     sc_playlists = 3, sc_seeds = 5, sc_editorial = 12 * hour\<rparr>"

theorem daemon_keeps_floor_and_curves_witness:
  "tables_ok small_config (daemon_run small_config quiet_world [quiet_world] empty_suno)"
  by (rule daemon_keeps_floor_and_curves) (simp_all add: kept_empty quiet_world_def)

section \<open>Finished rows\<close>

definition creator_cursor :: "creator_row \<Rightarrow> string \<times> bool \<times> int \<times> int \<times> int \<times> instant option" where
  "creator_cursor r = (cq_handle r, cq_done r, cq_next r, cq_indexed r, cq_failures r, cq_crawled r)"

definition playlist_cursor :: "playlist_row \<Rightarrow> string \<times> bool \<times> int \<times> int \<times> int \<times> instant option" where
  "playlist_cursor r = (pq_id r, pq_done r, pq_next r, pq_indexed r, pq_failures r, pq_crawled r)"

definition finished_stay :: "suno_db \<Rightarrow> suno_db \<Rightarrow> bool" where
  "finished_stay db0 db \<longleftrightarrow>
    creator_cursor ` {r \<in> set (sd_creators db0). cq_done r} \<subseteq> creator_cursor ` set (sd_creators db) \<and>
    {r \<in> set (sd_tags db0). tq_done r} \<subseteq> set (sd_tags db) \<and>
    playlist_cursor ` {r \<in> set (sd_playlists db0). pq_done r} \<subseteq> playlist_cursor ` set (sd_playlists db) \<and>
    {r \<in> set (sd_queue db0). fq_done r} \<subseteq> set (sd_queue db)"

lemma upsert_cursors:
  assumes "\<And>r. cur (upd r) = cur r" "A \<subseteq> cur ` set rows"
  shows "A \<subseteq> cur ` set (upsert key upd new rows)"
proof
  fix a assume "a \<in> A"
  then obtain r where r: "r \<in> set rows" "a = cur r" using assms(2) by auto
  show "a \<in> cur ` set (upsert key upd new rows)"
    by (cases "key r = key new") (use r assms(1) in \<open>auto intro: rev_image_eqI [OF upsert_same] rev_image_eqI [OF upsert_other]\<close>)
qed

lemma update_row_cursors:
  assumes "A \<subseteq> cur ` set rows" "\<And>r. r \<in> set rows \<Longrightarrow> cur r \<in> A \<Longrightarrow> key r \<noteq> k"
  shows "A \<subseteq> cur ` set (update_row key k upd rows)"
proof
  fix a assume a: "a \<in> A"
  then obtain r where "r \<in> set rows" "a = cur r" using assms(1) by auto
  with a assms(2) show "a \<in> cur ` set (update_row key k upd rows)"
    by (intro rev_image_eqI [of r] update_row_other) auto
qed

lemma creator_ensure_cursors: "A \<subseteq> creator_cursor ` set rs \<Longrightarrow> A \<subseteq> creator_cursor ` set (creator_ensure t h u d rs)"
  unfolding creator_ensure_def by (rule upsert_cursors) (auto simp: creator_cursor_def)

lemma playlist_ensure_cursors: "A \<subseteq> playlist_cursor ` set rs \<Longrightarrow> A \<subseteq> playlist_cursor ` set (playlist_ensure t p rs)"
  unfolding playlist_ensure_def by (rule upsert_cursors) (auto simp: playlist_cursor_def)

lemma tag_ensure_rows: "A \<subseteq> set rs \<Longrightarrow> A \<subseteq> set (tag_ensure t k rs)"
  using upsert_cursors [of id id A rs] by (simp add: tag_ensure_def)

lemma seed_ensure_rows: "A \<subseteq> set rs \<Longrightarrow> A \<subseteq> set (seed_ensure t i s rs)"
  using upsert_cursors [of id id A rs] by (simp add: seed_ensure_def)

lemma update_row_rows: "A \<subseteq> set rows \<Longrightarrow> k \<notin> key ` A \<Longrightarrow> A \<subseteq> set (update_row key k upd rows)"
  by (auto intro: update_row_other)

lemma finished_live_creator:
  assumes "kept d" "finished_stay db0 d" "r \<in> set (sd_creators d)" "\<not> cq_done r"
  shows "cq_handle r \<notin> cq_handle ` {r \<in> set (sd_creators db0). cq_done r}"
proof
  assume "cq_handle r \<in> cq_handle ` {r \<in> set (sd_creators db0). cq_done r}"
  then obtain r0 where r0: "r0 \<in> set (sd_creators db0)" "cq_done r0" "cq_handle r = cq_handle r0" by auto
  with assms(2) obtain q where "q \<in> set (sd_creators d)" "creator_cursor q = creator_cursor r0"
    by (auto simp: finished_stay_def image_subset_iff)
  with r0 assms queue_ok_same [of cq_handle creator_ok "sd_creators d" r q] show False
    by (auto simp: kept_def creator_cursor_def)
qed

lemma finished_live_playlist:
  assumes "kept d" "finished_stay db0 d" "r \<in> set (sd_playlists d)" "\<not> pq_done r"
  shows "pq_id r \<notin> pq_id ` {r \<in> set (sd_playlists db0). pq_done r}"
proof
  assume "pq_id r \<in> pq_id ` {r \<in> set (sd_playlists db0). pq_done r}"
  then obtain r0 where r0: "r0 \<in> set (sd_playlists db0)" "pq_done r0" "pq_id r = pq_id r0" by auto
  with assms(2) obtain q where "q \<in> set (sd_playlists d)" "playlist_cursor q = playlist_cursor r0"
    by (auto simp: finished_stay_def image_subset_iff)
  with r0 assms queue_ok_same [of pq_id playlist_ok "sd_playlists d" r q] show False
    by (auto simp: kept_def playlist_cursor_def)
qed

lemma finished_live_row:
  assumes "queue_ok key P rows" "A \<subseteq> set rows" "\<And>a. a \<in> A \<Longrightarrow> fin a" "r \<in> set rows" "\<not> fin r"
  shows "key r \<notin> key ` A"
proof
  assume "key r \<in> key ` A"
  then obtain a where "a \<in> A" "key r = key a" by auto
  with assms queue_ok_same [of key P rows r a] show False by blast
qed

lemma finished_live:
  assumes "kept d \<and> finished_stay db0 d"
  shows "r \<in> set (sd_creators d) \<Longrightarrow> \<not> cq_done r \<Longrightarrow>
      cq_handle r \<notin> cq_handle ` {r \<in> set (sd_creators db0). cq_done r} \<and> 1 \<le> cq_next r"
    "p \<in> set (sd_playlists d) \<Longrightarrow> \<not> pq_done p \<Longrightarrow>
      pq_id p \<notin> pq_id ` {r \<in> set (sd_playlists db0). pq_done r} \<and> 1 \<le> pq_next p"
  using assms finished_live_creator [of d db0 r] finished_live_playlist [of d db0 p] kept_live(1) [of d r] kept_live(3) [of d p]
  by blast+

lemma finished_creator_row:
  assumes "finished_stay db0 d" "h \<notin> cq_handle ` {r \<in> set (sd_creators db0). cq_done r}"
  shows "finished_stay db0 (d\<lparr>sd_creators := update_row cq_handle h f (sd_creators d)\<rparr>)"
proof -
  have "creator_cursor ` {r \<in> set (sd_creators db0). cq_done r} \<subseteq> creator_cursor ` set (update_row cq_handle h f (sd_creators d))"
    using assms by (intro update_row_cursors) (auto simp: finished_stay_def creator_cursor_def)
  then show ?thesis using assms(1) by (simp add: finished_stay_def)
qed

lemma finished_playlist_row:
  assumes "finished_stay db0 d" "k \<notin> pq_id ` {r \<in> set (sd_playlists db0). pq_done r}"
  shows "finished_stay db0 (d\<lparr>sd_playlists := update_row pq_id k f (sd_playlists d)\<rparr>)"
proof -
  have "playlist_cursor ` {r \<in> set (sd_playlists db0). pq_done r} \<subseteq> playlist_cursor ` set (update_row pq_id k f (sd_playlists d))"
    using assms by (intro update_row_cursors) (auto simp: finished_stay_def playlist_cursor_def)
  then show ?thesis using assms(1) by (simp add: finished_stay_def)
qed

lemma kept_writes:
  "kept db \<Longrightarrow> kept (db\<lparr>sd_creators := creator_ensure t h u d (sd_creators db)\<rparr>)"
  "kept db \<Longrightarrow> creator_write f \<Longrightarrow> kept (db\<lparr>sd_creators := update_row cq_handle h f (sd_creators db)\<rparr>)"
  "kept db \<Longrightarrow> tag_write g \<Longrightarrow> kept (db\<lparr>sd_tags := update_row tq_tag k g (sd_tags db)\<rparr>)"
  "kept db \<Longrightarrow> kept (db\<lparr>sd_playlists := playlist_ensure t p (sd_playlists db)\<rparr>)"
  "kept db \<Longrightarrow> playlist_write fp \<Longrightarrow> kept (db\<lparr>sd_playlists := update_row pq_id k fp (sd_playlists db)\<rparr>)"
  "kept db \<Longrightarrow> kept (db\<lparr>sd_queue := seed_ensure t i s (sd_queue db)\<rparr>)"
  "kept db \<Longrightarrow> seed_write fs \<Longrightarrow> kept (db\<lparr>sd_queue := update_row fq_id k fs (sd_queue db)\<rparr>)"
  "kept db \<Longrightarrow> kept (db\<lparr>sd_meta := m\<rparr>)"
  by (simp_all add: kept_def queue_oks)

interpretation finished: lane_invariant c "\<lambda>d. kept d \<and> finished_stay db0 d"
  "cq_handle ` {r \<in> set (sd_creators db0). cq_done r}" "tq_tag ` {r \<in> set (sd_tags db0). tq_done r}"
  "pq_id ` {r \<in> set (sd_playlists db0). pq_done r}" "fq_id ` {r \<in> set (sd_queue db0). fq_done r}" for c db0
proof
  fix d q assume "kept d \<and> finished_stay db0 d" "q \<in> set (sd_tags d)" "\<not> tq_done q"
  then show "tq_tag q \<notin> tq_tag ` {r \<in> set (sd_tags db0). tq_done r} \<and> 0 \<le> tq_next q"
    using finished_live_row [of tq_tag tag_ok "sd_tags d" _ tq_done q] kept_live(2) [of d q]
    by (auto simp: kept_def finished_stay_def)
next
  fix d q assume "kept d \<and> finished_stay db0 d" "q \<in> set (sd_queue d)" "\<not> fq_done q"
  then show "fq_id q \<notin> fq_id ` {r \<in> set (sd_queue db0). fq_done r}"
    using finished_live_row [of fq_id seed_ok "sd_queue d" _ fq_done q] by (auto simp: kept_def finished_stay_def)
next
  fix d r assume "kept d \<and> finished_stay db0 d" "r \<in> set (sd_creators d)" "\<not> cq_done r"
  then show "cq_handle r \<notin> cq_handle ` {r \<in> set (sd_creators db0). cq_done r} \<and> 1 \<le> cq_next r" by (rule finished_live)
next
  fix d p assume "kept d \<and> finished_stay db0 d" "p \<in> set (sd_playlists d)" "\<not> pq_done p"
  then show "pq_id p \<notin> pq_id ` {r \<in> set (sd_playlists db0). pq_done r} \<and> 1 \<le> pq_next p" by (rule finished_live)
qed (simp_all add: kept_store kept_writes finished_creator_row finished_playlist_row, simp_all add: finished_stay_def store_clip_fields creator_ensure_cursors
    playlist_ensure_cursors seed_ensure_rows update_row_rows)

text \<open>
  C32: A creator, tag, playlist or seed that is finished keeps its cursor for ever: no pass requests it
  again, counts a failure for it or changes how far it got, whatever else is discovered.
\<close>

theorem finished_rows_are_never_crawled_again:
  assumes "kept db"
  shows "finished_stay db (fold (suno_pass c) ws db)"
proof -
  have "finished_stay db db" by (auto simp: finished_stay_def)
  then show ?thesis using finished.passes_keep [of db db c ws] assms by simp
qed

definition retired_creator :: creator_row where
  "retired_creator = (new_creator 0 ''ann'' [] [])\<lparr>cq_done := True, cq_next := 8\<rparr>"

theorem finished_rows_are_never_crawled_again_witness:
  "finished_stay (empty_suno\<lparr>sd_creators := [retired_creator]\<rparr>)
     (fold (suno_pass small_config) [quiet_world, quiet_world] (empty_suno\<lparr>sd_creators := [retired_creator]\<rparr>))"
  by (rule finished_rows_are_never_crawled_again)
    (simp add: kept_def empty_suno_def curves_complete_def queue_ok_def retired_creator_def new_creator_def creator_ok_def)

section \<open>A tag comes to its end\<close>

text \<open>The turn of one tag in a pass that picked it.\<close>

definition tag_turn :: "suno_config \<Rightarrow> string \<Rightarrow> suno_world \<Rightarrow> suno_db \<Rightarrow> suno_db" where
  "tag_turn c tag w db = (case List.find (\<lambda>r. tq_tag r = tag) (sd_tags db) of
      None \<Rightarrow> db | Some r \<Rightarrow> if tq_done r then db else crawl_tag c w r db)"

definition tag_at :: "string \<Rightarrow> suno_db \<Rightarrow> tag_row option" where
  "tag_at tag db = List.find (\<lambda>r. tq_tag r = tag) (sd_tags db)"

definition answers_within :: "int \<Rightarrow> string \<Rightarrow> suno_world \<Rightarrow> bool" where
  "answers_within H tag w \<longleftrightarrow> sw_ok w (''tag update'', tag, 0) \<and>
    (\<forall>i. \<exists>h. fetch_tag_page (sw_search w tag i) = Inr h \<and> 0 < th_total h \<and> th_total h \<le> H)"

lemma find_update_row:
  assumes "\<And>r. tq_tag (f r) = tq_tag r"
  shows "List.find (\<lambda>r. tq_tag r = k) (update_row tq_tag k f rows) = map_option f (List.find (\<lambda>r. tq_tag r = k) rows)"
  using assms by (induction rows) (auto simp: update_row_def)

lemma take_clips_tags [simp]: "sd_tags (snd (take_clips c w l ow s i raws db)) = sd_tags db"
proof (induction raws arbitrary: i db)
  case (Cons raw raws)
  have "sd_tags (snd (take_clip c w k s n raw db)) = sd_tags db" for k n db
    by (simp add: take_clip_def store_clip_fields split: option.splits)
  with Cons show ?case by (auto split: prod.splits) (metis snd_conv)+
qed simp

lemma tag_turn_row:
  assumes "tag_at tag db = Some r" "\<not> tq_done r" "answers_within H tag w"
  obtains r' where "tag_at tag (tag_turn c tag w db) = Some r'" "tq_done r' \<or> tq_next r + 1 \<le> tq_next r' \<and> tq_next r' < H"
proof -
  have k: "tq_tag r = tag" using assms(1) by (auto simp: tag_at_def find_Some_iff)
  obtain h where h: "fetch_tag_page (sw_search w tag (tq_next r)) = Inr h" "0 < th_total h" "th_total h \<le> H"
    using assms(3) by (auto simp: answers_within_def)
  obtain got db1 where t: "take_clips c w ''tag'' tag ''tag_search'' 0 (th_items h) db = (got, db1)"
    by (cases "take_clips c w ''tag'' tag ''tag_search'' 0 (th_items h) db")
  have tags: "sd_tags db1 = sd_tags db" using take_clips_tags [of c w "''tag''" tag "''tag_search''" 0 "th_items h" db] t by simp
  let ?n = "tq_next r + int (length (th_items h))"
  let ?b = "th_items h = [] \<or> th_total h \<le> ?n \<or> 0 < sc_min_upvotes c \<and> max_upvotes (th_items h) < sc_min_upvotes c"
  let ?r = "tag_crawled (sw_now w (''tag update'', tag, 0)) ?n (th_total h) got ?b r"
  have "tag_at tag (tag_turn c tag w db) = Some ?r"
    using assms h t tags k
    by (simp add: tag_turn_def tag_at_def [symmetric] crawl_tag_def tag_page_advance_def Let_def answers_within_def)
      (simp add: tag_at_def find_update_row tag_crawled_def)
  moreover have "tq_done ?r \<or> tq_next r + 1 \<le> tq_next ?r \<and> tq_next ?r < H"
    using h by (cases "th_items h") (auto simp: tag_crawled_def)
  ultimately show ?thesis by (rule that)
qed

lemma tag_done_stays: "tag_at tag db = Some r \<Longrightarrow> tq_done r \<Longrightarrow> fold (tag_turn c tag) ws db = db"
  by (induction ws) (simp_all add: tag_turn_def tag_at_def)

lemma tag_walk:
  assumes "tag_at tag db = Some r" "\<forall>w \<in> set ws. answers_within H tag w" "H - tq_next r \<le> int (length ws)" "ws \<noteq> []"
  shows "\<exists>r'. tag_at tag (fold (tag_turn c tag) ws db) = Some r' \<and> tq_done r'"
  using assms
proof (induction ws arbitrary: db r)
  case (Cons w ws)
  show ?case
  proof (cases "tq_done r")
    case True
    then show ?thesis using tag_done_stays [OF Cons.prems(1) True, of c "w # ws"] Cons.prems(1) by simp
  next
    case False
    from tag_turn_row [OF Cons.prems(1) False, of H w c] Cons.prems(2)
    obtain r' where r': "tag_at tag (tag_turn c tag w db) = Some r'"
      "tq_done r' \<or> tq_next r + 1 \<le> tq_next r' \<and> tq_next r' < H" by auto
    show ?thesis
    proof (cases "tq_done r'")
      case True
      then show ?thesis using tag_done_stays [OF r'(1) True, of c ws] r'(1) by simp
    next
      case False
      then have "H - tq_next r' \<le> int (length ws)" "ws \<noteq> []" using r'(2) Cons.prems(3) by auto
      then show ?thesis using Cons.IH [OF r'(1)] Cons.prems(2) by simp
    qed
  qed
qed simp


definition one_hit_world :: suno_world where
  "one_hit_world = quiet_world\<lparr>sw_search := (\<lambda>_ _. Reply 200 ''{\"result\":{\"tag_song\":{\"total_hits\":1}}}'')\<rparr>"

lemma one_hit: "fetch_tag_page (sw_search one_hit_world tag i) = Inr \<lparr>th_total = 1, th_items = []\<rparr>"
proof -
  have "fetch_tag_page (Reply 200 ''{\"result\":{\"tag_song\":{\"total_hits\":1}}}'') = Inr \<lparr>th_total = 1, th_items = []\<rparr>"
    by code_simp
  then show ?thesis by (simp add: one_hit_world_def)
qed


section \<open>Where the lanes lose something\<close>

text \<open>A clip that fell below the floor, or that is gone, is not marked as rechecked: when the most played due
  clips are all of that kind, every recheck pass polls them again and nothing else.\<close>

lemma recheck_starves_on_lost_clips:
  assumes "\<And>i. i \<in> set (pick_rechecks (sw_now w (''pick rechecks'', [], 0)) (sc_rechecks c) (sc_min_age c) db) \<Longrightarrow>
    (case fetch_clip (sw_clip w ''recheck'' i) of Inl e \<Rightarrow> True
     | Inr raw \<Rightarrow> (case parse_clip raw of None \<Rightarrow> True | Some cf \<Rightarrow> \<not> meets_threshold c cf))"
  shows "recheck_pass c w db = db"
proof -
  have "over_batch stop (recheck_one c w) xs db = db"
    if "\<And>i. i \<in> set xs \<Longrightarrow> recheck_one c w i db = db" for xs stop
    using that by (induction xs) simp_all
  moreover have "recheck_one c w i db = db"
    if "i \<in> set (pick_rechecks (sw_now w (''pick rechecks'', [], 0)) (sc_rechecks c) (sc_min_age c) db)" for i
    using assms [OF that] by (auto simp: recheck_one_def take_clip_def split: sum.splits option.splits)
  ultimately show ?thesis by (simp add: recheck_pass_def Let_def)
qed

text \<open>A playlist is measured by the clips of the page, not by those seen so far: one of two pages is not
  finished by its count on either page.\<close>

lemma long_playlist_is_not_counted_out:
  assumes "fetch_playlist_page (sw_playlist w (pq_id r) (pq_next r)) = Inr p" "pg_clips p \<noteq> []"
    "int (length (pg_clips p)) < playlist_size p r" "q \<in> set (sd_playlists (crawl_playlist c w r db))" "pq_id q = pq_id r"
    "sw_ok w (''playlist update'', pq_id r, 0)"
  shows "\<not> pq_done q"
proof -
  obtain got db1 where t: "take_clips c w ''playlist'' (pq_id r) ''playlist'' 0 (List.map_filter id (pg_clips p)) db = (got, db1)"
    by (cases "take_clips c w ''playlist'' (pq_id r) ''playlist'' 0 (List.map_filter id (pg_clips p)) db")
  with assms show ?thesis
    by (auto simp: crawl_playlist_def Let_def playlist_crawled_def dest!: set_update_row)
qed

text \<open>A seed whose clip could not be stored is finished all the same.\<close>

lemma unstored_seed_is_lost:
  assumes "fetch_clip (sw_clip w ''seed'' (fq_id r)) = Inr raw" "\<not> sw_ok w (''seed'', fq_id r, 0)"
    "sw_ok w (''seed update'', fq_id r, 0)"
  shows "sd_clips (fetch_seed c w r db) = sd_clips db \<and>
    (\<forall>q \<in> set (sd_queue (fetch_seed c w r db)). fq_id q = fq_id r \<longrightarrow> fq_done q)"
  using assms by (auto simp: fetch_seed_def Let_def take_clip_def seed_done_def update_row_def split: option.splits)

end
