(* ===== verification/SunoBackfill.thy ===== *)
theory SunoBackfill
  imports SunoSpec
begin

text \<open>
  pkgs/suno-backfill/main.go: one visit of every id of a fixed list, resumable through the table of the ids
  already seen. The answers of the service, the clock, failing transactions and the signal that ends the
  program are arguments; a kill is a signal at any id, since every id commits before the next is taken.
\<close>

section \<open>The list of ids\<close>

definition lower_hex :: "char \<Rightarrow> bool" where
  "lower_hex c \<longleftrightarrow> is_digit c \<or> 97 \<le> code c \<and> code c \<le> 102"

definition uuid_template :: string where
  "uuid_template = ''xxxxxxxx-xxxx-xxxx-xxxx-xxxxxxxxxxxx''"

definition uuid_shape :: "string \<Rightarrow> bool" where
  "uuid_shape u \<longleftrightarrow> list_all2 (\<lambda>t c. if t = CHR ''-'' then c = CHR ''-'' else lower_hex c) uuid_template u"

definition uuid_here :: "string \<Rightarrow> string option" where
  "uuid_here s = (let u = take (length uuid_template) s in if uuid_shape u then Some u else None)"

definition add_uuid :: "string \<Rightarrow> string list \<Rightarrow> string list" where
  "add_uuid line ids = (case leftmost uuid_here line of None \<Rightarrow> ids
     | Some u \<Rightarrow> if u \<in> set ids then ids else ids @ [u])"

definition load_ids :: "string \<Rightarrow> string list" where
  "load_ids src = fold add_uuid (split_byte newline src) []"

section \<open>One id\<close>

datatype fetched = Failed | Gone | Body string

text \<open>
  At most three answers of too many requests are waited for; a signal before an attempt or during the
  pause after it ends the call.
\<close>

function fetch_attempts :: "(nat \<Rightarrow> bool) \<Rightarrow> (nat \<Rightarrow> reply) \<Rightarrow> nat \<Rightarrow> fetched" where
  "fetch_attempts stop net attempt =
    (if stop attempt then Failed
     else (case net attempt of
         NoReply e \<Rightarrow> Failed
       | Reply st body \<Rightarrow>
           if st = 200 then Body body else if st = 404 then Gone
           else if st = 429 \<and> attempt < 3 then fetch_attempts stop net (Suc attempt)
           else Failed))"
  by pat_completeness auto
termination by (relation "measure (\<lambda>(stop, net, n). 3 - n)") auto

declare fetch_attempts.simps [simp del]

definition parse_backfill :: "string \<Rightarrow> clip_fields option" where
  "parse_backfill body = (case json_value body of None \<Rightarrow> None
    | Some v \<Rightarrow> (case decode_members clip_field v zero_clip of (t, ok) \<Rightarrow> if ok then Some (clip_of t) else None))"

record backfill_config =
  bc_limit :: int
  bc_min_upvotes :: int

record backfill_world =
  bw_stop :: "string \<Rightarrow> bool"
  bw_cancel :: "string \<Rightarrow> nat \<Rightarrow> bool"
  bw_net :: "string \<Rightarrow> nat \<Rightarrow> reply"
  bw_now :: "string \<Rightarrow> instant"
  bw_ok :: "string \<Rightarrow> bool"

record backfill_run =
  br_db :: suno_db
  br_processed :: int
  br_winners :: int
  br_below :: int
  br_gone :: int
  br_errs :: int

text \<open>The database part of a statement that may fail: an error is counted and the id is left for the next run.\<close>

definition try_store :: "bool \<Rightarrow> (suno_db \<Rightarrow> suno_db) \<Rightarrow> backfill_run \<Rightarrow> backfill_run" where
  "try_store ok f st = (if ok then st\<lparr>br_db := f (br_db st)\<rparr> else st\<lparr>br_errs := br_errs st + 1\<rparr>)"

definition visit_id :: "backfill_config \<Rightarrow> backfill_world \<Rightarrow> string \<Rightarrow> backfill_run \<Rightarrow> backfill_run" where
  "visit_id c w i st = (case fetch_attempts (bw_cancel w i) (bw_net w i) 0 of
      Failed \<Rightarrow> st\<lparr>br_errs := br_errs st + 1\<rparr>
    | Gone \<Rightarrow> try_store (bw_ok w i) (store_seen (bw_now w i) i ''gone404'')
        (st\<lparr>br_processed := br_processed st + 1, br_gone := br_gone st + 1\<rparr>)
    | Body body \<Rightarrow> (let st1 = st\<lparr>br_processed := br_processed st + 1\<rparr>
        in case (parse_backfill body, json_value body) of
            (Some cf, Some raw) \<Rightarrow>
              if cf_upvote cf < bc_min_upvotes c
              then try_store (bw_ok w i) (store_seen (bw_now w i) i ''below_floor'') (st1\<lparr>br_below := br_below st1 + 1\<rparr>)
              else try_store (bw_ok w i) (store_winner (bw_now w i) i cf raw) (st1\<lparr>br_winners := br_winners st1 + 1\<rparr>)
          | _ \<Rightarrow> st1\<lparr>br_errs := br_errs st1 + 1\<rparr>))"

section \<open>A run\<close>

fun visit_all :: "backfill_config \<Rightarrow> backfill_world \<Rightarrow> string set \<Rightarrow> string list \<Rightarrow> backfill_run \<Rightarrow> backfill_run" where
  "visit_all c w seen [] st = st"
| "visit_all c w seen (i # ids) st =
    (if bw_stop w i then st
     else if i \<in> seen then visit_all c w seen ids st
     else if 0 < bc_limit c \<and> bc_limit c \<le> br_processed st then st
     else visit_all c w seen ids (visit_id c w i st))"

definition load_done :: "suno_db \<Rightarrow> string set" where
  "load_done db = set (map bs_id (sd_seen db))"

definition backfill :: "backfill_config \<Rightarrow> backfill_world \<Rightarrow> string \<Rightarrow> suno_db \<Rightarrow> backfill_run" where
  "backfill c w src db = visit_all c w (load_done db) (load_ids src)
     \<lparr>br_db = db, br_processed = 0, br_winners = 0, br_below = 0, br_gone = 0, br_errs = 0\<rparr>"

section \<open>What a run does to the tables\<close>

lemma fold_add_uuid:
  "distinct ids \<Longrightarrow> list_all uuid_shape ids \<Longrightarrow>
    distinct (fold add_uuid ls ids) \<and> list_all uuid_shape (fold add_uuid ls ids)"
proof (induction ls arbitrary: ids)
  case (Cons l ls)
  have "uuid_shape u" if "leftmost uuid_here s = Some u" for s u
    using that by (induction s) (auto simp: uuid_here_def Let_def split: if_splits option.splits)
  with Cons show ?case by (auto simp: add_uuid_def split: option.split)
qed simp

lemma load_ids_distinct: "distinct (load_ids src)"
  using fold_add_uuid [of "[]"] by (simp add: load_ids_def)

text \<open>What a visit of an id may change: the clip of the id, its sightings, and the mark.\<close>

lemma mark_seen_ids: "set (map bs_id (mark_seen t i s rows)) = insert i (set (map bs_id rows))"
  unfolding mark_seen_def by (subst upsert_keys) auto

lemma mark_seen_keeps: "r \<in> set rows \<Longrightarrow> r \<in> set (mark_seen t i s rows)"
  by (auto simp: mark_seen_def upsert_def)

lemma find_upsert_clip: "cf_id cf \<noteq> j \<Longrightarrow>
    List.find (\<lambda>r. row_id r = j) (upsert_clip t b cf raw rows) = List.find (\<lambda>r. row_id r = j) rows"
proof -
  assume j: "cf_id cf \<noteq> j"
  have "List.find (\<lambda>r. row_id r = j) (map (\<lambda>r. if row_id r = cf_id cf then f r else r) rows) = List.find (\<lambda>r. row_id r = j) rows"
    if "\<And>r. row_id (f r) = row_id r" for f
    using j that by (induction rows) auto
  moreover have "List.find P (xs @ [x]) = List.find P xs" if "\<not> P x" for P and xs :: "clip_row list" and x
    using that by (induction xs) auto
  ultimately show ?thesis using j by (simp add: upsert_clip_def upsert_def row_id_def)
qed

definition seen_ids :: "suno_db \<Rightarrow> string set" where
  "seen_ids db = set (map bs_id (sd_seen db))"

text \<open>The step of one visit: nothing, or the id is marked and no other id is touched.\<close>

definition visited :: "backfill_config \<Rightarrow> string \<Rightarrow> suno_db \<Rightarrow> suno_db \<Rightarrow> bool" where
  "visited c i db db' \<longleftrightarrow> db' = db \<or>
    (seen_ids db' = insert i (seen_ids db) \<and> set (sd_seen db) \<subseteq> set (sd_seen db') \<and>
     (\<forall>j. j \<noteq> i \<longrightarrow> find_clip j db' = find_clip j db) \<and>
     (\<forall>r \<in> set (sd_seen db') - set (sd_seen db). bs_status r = ''winner'' \<longrightarrow>
        (\<exists>q. find_clip (bs_id r) db' = Some q \<and> bc_min_upvotes c \<le> cf_upvote (cr_cf q))) \<and>
     (kept db \<longrightarrow> kept db'))"

lemma find_clip_present: "i \<in> set (map row_id (sd_clips db)) \<Longrightarrow> \<exists>q. find_clip i db = Some q"
  using find_clip_None [of i db] by (cases "find_clip i db") auto

lemma store_seen_visited: "s \<noteq> ''winner'' \<Longrightarrow> visited c i db (store_seen t i s db)"
  unfolding visited_def
proof (intro disjI2 conjI)
  assume s: "s \<noteq> ''winner''"
  show "\<forall>r \<in> set (sd_seen (store_seen t i s db)) - set (sd_seen db). bs_status r = ''winner'' \<longrightarrow>
      (\<exists>q. find_clip (bs_id r) (store_seen t i s db) = Some q \<and> bc_min_upvotes c \<le> cf_upvote (cr_cf q))"
    using s by (auto simp: store_seen_def mark_seen_def upsert_def split: if_splits)
  show "set (sd_seen db) \<subseteq> set (sd_seen (store_seen t i s db))" by (auto simp: store_seen_def mark_seen_keeps)
qed (auto simp: seen_ids_def store_seen_def mark_seen_ids find_clip_def kept_def curves_complete_def simp del: set_map)

lemma kept_store_winner: "kept db \<Longrightarrow> kept (store_winner t i cf raw db)"
  using store_winner_curves [of db t i cf raw] by (simp add: kept_def store_winner_def Let_def)

lemma store_winner_visited:
  assumes "bc_min_upvotes c \<le> cf_upvote cf"
  shows "visited c i db (store_winner t i cf raw db)"
  unfolding visited_def
proof (intro disjI2 conjI)
  let ?db = "store_winner t i cf raw db"
  let ?c = "cf\<lparr>cf_id := i, cf_user := []\<rparr>"
  have clips: "sd_clips ?db = upsert_clip t False ?c raw (sd_clips db)" by (simp add: store_winner_def Let_def)
  have seen: "sd_seen ?db = mark_seen t i ''winner'' (sd_seen db)" by (simp add: store_winner_def Let_def)
  show "seen_ids ?db = insert i (seen_ids db)" unfolding seen_ids_def seen by (rule mark_seen_ids)
  show "set (sd_seen db) \<subseteq> set (sd_seen ?db)" by (auto simp: seen mark_seen_keeps)
  show "\<forall>j. j \<noteq> i \<longrightarrow> find_clip j ?db = find_clip j db"
    by (auto simp: find_clip_def clips intro!: find_upsert_clip)
  show "kept db \<longrightarrow> kept ?db" using kept_store_winner by blast
  have "i \<in> set (map row_id (sd_clips ?db))" unfolding clips upsert_clip_ids by simp
  then obtain q where q: "find_clip i ?db = Some q" using find_clip_present by blast
  then have "bc_min_upvotes c \<le> cf_upvote (cr_cf q)"
    using find_clip_Some [OF q] upsert_clip_rows [of q t False ?c raw "sd_clips db"] assms by (auto simp: clips)
  then show "\<forall>r \<in> set (sd_seen ?db) - set (sd_seen db). bs_status r = ''winner'' \<longrightarrow>
      (\<exists>q. find_clip (bs_id r) ?db = Some q \<and> bc_min_upvotes c \<le> cf_upvote (cr_cf q))"
    using q by (auto simp: seen mark_seen_def upsert_def split: if_splits)
qed

lemma visit_id_visited: "visited c i (br_db st) (br_db (visit_id c w i st))"
proof -
  have same: "visited c i db db" for db by (simp add: visited_def)
  show ?thesis
    by (auto simp: visit_id_def try_store_def Let_def same store_seen_visited store_winner_visited
        split: fetched.splits option.splits)
qed

definition progress :: "backfill_config \<Rightarrow> string set \<Rightarrow> suno_db \<Rightarrow> suno_db \<Rightarrow> bool" where
  "progress c S db db' \<longleftrightarrow> set (sd_seen db) \<subseteq> set (sd_seen db') \<and> seen_ids db' \<subseteq> seen_ids db \<union> S \<and>
    (\<forall>j. j \<notin> seen_ids db' - seen_ids db \<longrightarrow> find_clip j db' = find_clip j db) \<and>
    (\<forall>r \<in> set (sd_seen db') - set (sd_seen db). bs_status r = ''winner'' \<longrightarrow>
      (\<exists>q. find_clip (bs_id r) db' = Some q \<and> bc_min_upvotes c \<le> cf_upvote (cr_cf q))) \<and>
    (kept db \<longrightarrow> kept db')"

lemma progress_refl: "progress c S db db"
  by (auto simp: progress_def)

lemma progress_mono: "progress c S db db' \<Longrightarrow> S \<subseteq> S' \<Longrightarrow> progress c S' db db'"
  unfolding progress_def by blast

lemma seen_ids_mono: "set (sd_seen db) \<subseteq> set (sd_seen db') \<Longrightarrow> seen_ids db \<subseteq> seen_ids db'"
  by (auto simp: seen_ids_def)

lemma visited_progress:
  assumes v: "visited c i db db1" and p: "progress c S db1 db2" and i: "i \<notin> S" "i \<notin> seen_ids db"
  shows "progress c (insert i S) db db2"
proof (cases "db1 = db")
  case True
  then show ?thesis using p by (auto intro: progress_mono)
next
  case False
  with v have v1: "seen_ids db1 = insert i (seen_ids db)" "set (sd_seen db) \<subseteq> set (sd_seen db1)"
    and v2: "\<And>j. j \<noteq> i \<Longrightarrow> find_clip j db1 = find_clip j db"
    and v3: "\<And>r. r \<in> set (sd_seen db1) - set (sd_seen db) \<Longrightarrow> bs_status r = ''winner'' \<Longrightarrow>
      \<exists>q. find_clip (bs_id r) db1 = Some q \<and> bc_min_upvotes c \<le> cf_upvote (cr_cf q)"
    and v4: "kept db \<Longrightarrow> kept db1"
    by (auto simp: visited_def)
  have p1: "set (sd_seen db1) \<subseteq> set (sd_seen db2)" "seen_ids db2 \<subseteq> seen_ids db1 \<union> S"
    and p2: "\<And>j. j \<notin> seen_ids db2 - seen_ids db1 \<Longrightarrow> find_clip j db2 = find_clip j db1"
    and p3: "\<And>r. r \<in> set (sd_seen db2) - set (sd_seen db1) \<Longrightarrow> bs_status r = ''winner'' \<Longrightarrow>
      \<exists>q. find_clip (bs_id r) db2 = Some q \<and> bc_min_upvotes c \<le> cf_upvote (cr_cf q)"
    and p4: "kept db1 \<Longrightarrow> kept db2"
    using p by (auto simp: progress_def)
  show ?thesis
    unfolding progress_def
  proof (intro conjI allI ballI impI)
    show "set (sd_seen db) \<subseteq> set (sd_seen db2)" using v1 p1 by blast
    show "seen_ids db2 \<subseteq> seen_ids db \<union> insert i S" using v1 p1 by blast
    show "kept db2" if "kept db" using that v4 p4 by blast
  next
    fix j assume "j \<notin> seen_ids db2 - seen_ids db"
    moreover have "i \<in> seen_ids db2" using seen_ids_mono [OF p1(1)] v1(1) by blast
    ultimately show "find_clip j db2 = find_clip j db" using p2 [of j] v2 [of j] v1(1) i(2) by auto
  next
    fix r assume r: "r \<in> set (sd_seen db2) - set (sd_seen db)" "bs_status r = ''winner''"
    show "\<exists>q. find_clip (bs_id r) db2 = Some q \<and> bc_min_upvotes c \<le> cf_upvote (cr_cf q)"
    proof (cases "r \<in> set (sd_seen db1)")
      case True
      then have "find_clip (bs_id r) db2 = find_clip (bs_id r) db1" by (intro p2) (auto simp: seen_ids_def)
      with v3 [of r] r True show ?thesis by auto
    qed (use p3 [of r] r in auto)
  qed
qed

lemma visited_seen: "visited c i db db1 \<Longrightarrow> seen_ids db1 \<subseteq> insert i (seen_ids db)"
  by (auto simp: visited_def)

lemma visit_all_progress:
  "distinct ids \<Longrightarrow> (\<And>i. i \<in> set ids \<Longrightarrow> i \<in> seen_ids (br_db st) \<Longrightarrow> i \<in> done) \<Longrightarrow>
    progress c (set ids) (br_db st) (br_db (visit_all c w done ids st))"
proof (induction ids arbitrary: st)
  case (Cons i ids)
  let ?st = "visit_id c w i st"
  have v: "visited c i (br_db st) (br_db ?st)" by (rule visit_id_visited)
  have "progress c (set ids) (br_db ?st) (br_db (visit_all c w done ids ?st))"
    using Cons.prems visited_seen [OF v] by (intro Cons.IH) auto
  from visited_progress [OF v this] have "progress c (insert i (set ids)) (br_db st) (br_db (visit_all c w done ids ?st))"
    if "i \<notin> done" using that Cons.prems by auto
  moreover have "progress c (set ids) (br_db st) (br_db (visit_all c w done ids st))" using Cons by simp
  ultimately show ?case by (auto simp: progress_refl elim: progress_mono)
qed (simp add: progress_refl)

text \<open>
  C34: Wherever a run of the backfill ends, every id that was seen is still seen with its status and its
  clip is untouched, only ids of the list are new, a new winner has a stored clip at or above the floor,
  an id left without a mark has left no trace, and what the collector relies on in the shared tables is
  kept.
\<close>

theorem backfill_only_adds_what_it_finished:
  "progress c (set (load_ids src)) db (br_db (backfill c w src db))"
  using visit_all_progress [OF load_ids_distinct, of src
      "\<lparr>br_db = db, br_processed = 0, br_winners = 0, br_below = 0, br_gone = 0, br_errs = 0\<rparr>" "load_done db" c w]
  by (simp add: backfill_def load_done_def seen_ids_def)

section \<open>A clean run sees every id, and the next one is idle\<close>

definition answers :: "backfill_world \<Rightarrow> string \<Rightarrow> bool" where
  "answers w i \<longleftrightarrow> \<not> bw_stop w i \<and> bw_ok w i \<and> (case fetch_attempts (bw_cancel w i) (bw_net w i) 0 of
     Failed \<Rightarrow> False | Gone \<Rightarrow> True | Body b \<Rightarrow> parse_backfill b \<noteq> None)"

lemma parse_backfill_json: "parse_backfill b = Some cf \<Longrightarrow> \<exists>v. json_value b = Some v"
  by (auto simp: parse_backfill_def split: option.splits)

lemma visit_id_sees: "answers w i \<Longrightarrow> seen_ids (br_db (visit_id c w i st)) = insert i (seen_ids (br_db st))"
proof -
  assume a: "answers w i"
  have marks: "seen_ids (store_seen t i s db) = insert i (seen_ids db)" "seen_ids (store_winner t i cf raw db) = insert i (seen_ids db)"
    for t s cf raw db
    unfolding seen_ids_def by (simp_all add: store_seen_def store_winner_def Let_def mark_seen_ids del: set_map)
  show ?thesis
  proof (cases "fetch_attempts (bw_cancel w i) (bw_net w i) 0")
    case (Body b)
    with a obtain cf where cf: "parse_backfill b = Some cf" by (auto simp: answers_def)
    then obtain v where "json_value b = Some v" using parse_backfill_json by blast
    with a Body cf show ?thesis by (simp add: answers_def visit_id_def try_store_def Let_def marks)
  qed (use a in \<open>simp_all add: answers_def visit_id_def try_store_def marks\<close>)
qed

lemma visit_all_mono: "seen_ids (br_db st) \<subseteq> seen_ids (br_db (visit_all c w done ids st))"
proof (induction ids arbitrary: st)
  case (Cons i ids)
  have "seen_ids (br_db st) \<subseteq> seen_ids (br_db (visit_id c w i st))"
    using visit_id_visited [of c i st w] by (auto simp: visited_def)
  with Cons.IH [of "visit_id c w i st"] Cons.IH [of st] show ?case by auto
qed simp

lemma clean_run_sees_every_id:
  assumes "bc_limit c \<le> 0" "\<And>i. i \<in> set ids \<Longrightarrow> answers w i" "done \<subseteq> seen_ids (br_db st)"
  shows "set ids \<subseteq> seen_ids (br_db (visit_all c w done ids st))"
  using assms
proof (induction ids arbitrary: st)
  case (Cons i ids)
  have a: "answers w i" using Cons.prems(2) by simp
  then have s: "\<not> bw_stop w i" by (simp add: answers_def)
  show ?case
  proof (cases "i \<in> done")
    case True
    with Cons.IH [of st] visit_all_mono [of st c w "done" ids] Cons.prems s show ?thesis by auto
  next
    case False
    have "insert i (seen_ids (br_db st)) = seen_ids (br_db (visit_id c w i st))" using visit_id_sees [OF a] by simp
    with Cons.IH [of "visit_id c w i st"] visit_all_mono [of "visit_id c w i st" c w "done" ids] Cons.prems s False show ?thesis by auto
  qed
qed simp

lemma finished_list_is_not_requested_again:
  "set (load_ids src) \<subseteq> seen_ids db \<Longrightarrow> br_db (backfill c w src db) = db \<and> br_processed (backfill c w src db) = 0"
proof -
  assume *: "set (load_ids src) \<subseteq> seen_ids db"
  have "visit_all c w seen ids st = st" if "set ids \<subseteq> seen" for ids seen st
    using that by (induction ids) auto
  then show ?thesis using * by (simp add: backfill_def load_done_def seen_ids_def)
qed

end
