(* ===== verification/SunoAuth.thy ===== *)
theory SunoAuth
  imports SunoTop Base64
begin

text \<open>
  pkgs/suno-backup/main.go, the session: the cookie secret, the expiry of an access token and the three
  calls that establish, rotate and hand out tokens. Replies and the clock are arguments. Not modelled: the
  headers of the requests.
\<close>

section \<open>The cookie\<close>

fun find_cookie :: "string \<Rightarrow> string list \<Rightarrow> string" where
  "find_cookie name [] = []"
| "find_cookie name (p # ps) =
    (if prefix (name @ ''='') (trim_space p) then trim_prefix (name @ ''='') (trim_space p) else find_cookie name ps)"

definition extract_cookie_value :: "string \<Rightarrow> string \<Rightarrow> string" where
  "extract_cookie_value header name =
    find_cookie name (split_byte CHR '';'' (map (\<lambda>c. if c = newline then CHR '';'' else c) header))"

text \<open>The secret holds the bare token or a cookie header; None is the error.\<close>

definition read_cookie :: "string option \<Rightarrow> string option" where
  "read_cookie raw = (case raw of None \<Rightarrow> None
    | Some r \<Rightarrow> (let s = trim_space r; v = extract_cookie_value s ''__client''
        in if v \<noteq> [] then Some v
           else if list_all (\<lambda>c. c \<noteq> CHR '' '' \<and> code c \<noteq> 9 \<and> c \<noteq> CHR '';'' \<and> c \<noteq> CHR ''='') s then Some s
           else None))"

section \<open>The expiry of a token\<close>

definition base64url_decode :: "string \<Rightarrow> nat list option" where
  "base64url_decode s = b64_decode (map from_url (pad_to_four s))"

definition claim_exp :: "string \<Rightarrow> int option" where
  "claim_exp payload = (case json_value payload of None \<Rightarrow> None
    | Some v \<Rightarrow> (case decode_members (\<lambda>k u e. if key_is ''exp'' k then plain_int u e else (e, True)) v 0 of
        (e, ok) \<Rightarrow> if ok then Some e else None))"

definition jwt_exp :: "string \<Rightarrow> instant option" where
  "jwt_exp jwt = (let parts = split_byte CHR ''.'' jwt in
    if length parts < 2 then None
    else (case base64url_decode (parts ! 1) of None \<Rightarrow> None
      | Some bs \<Rightarrow> (case claim_exp (bytes bs) of None \<Rightarrow> None
          | Some e \<Rightarrow> if e = 0 then None else Some (unix_time e))))"

section \<open>The session\<close>

record auth =
  au_sid :: string
  au_token :: string
  au_exp :: instant

definition new_auth :: auth where
  "new_auth = \<lparr>au_sid = [], au_token = [], au_exp = zero_time\<rparr>"

text \<open>The decoded bodies of the two Clerk calls. The status is not looked at.\<close>

definition body_of :: "(json \<Rightarrow> 'a \<times> bool) \<Rightarrow> reply \<Rightarrow> 'a option" where
  "body_of f rp = (case rp of NoReply e \<Rightarrow> None
    | Reply st body \<Rightarrow> (case first_value body of None \<Rightarrow> None
        | Some v \<Rightarrow> if snd (f v) then Some (fst (f v)) else None))"

definition decode_errors :: "json \<Rightarrow> string list \<times> bool" where
  "decode_errors v = decode_list (\<lambda>u. decode_members
     (\<lambda>k x m. if key_is ''message'' k then decode_string x m else (m, True)) u []) v"

record client_body =
  cb_sid :: string
  cb_tokens :: "string list"
  cb_errors :: "string list"

definition session_jwt :: "json \<Rightarrow> string \<times> bool" where
  "session_jwt v = decode_members (\<lambda>k u t. if key_is ''last_active_token'' k
     then decode_members (\<lambda>k1 u1 t1. if key_is ''jwt'' k1 then decode_string u1 t1 else (t1, True)) u t else (t, True)) v []"

definition client_response_field :: "string \<Rightarrow> json \<Rightarrow> client_body \<Rightarrow> client_body \<times> bool" where
  "client_response_field k v b =
    (if key_is ''last_active_session_id'' k then into (\<lambda>x. b\<lparr>cb_sid := x\<rparr>) (decode_string v (cb_sid b))
     else if key_is ''sessions'' k then into (\<lambda>x. b\<lparr>cb_tokens := x\<rparr>) (decode_list session_jwt v)
     else (b, True))"

definition decode_client :: "json \<Rightarrow> client_body \<times> bool" where
  "decode_client v = decode_members (\<lambda>k u b. if key_is ''response'' k then decode_members client_response_field u b
     else if key_is ''errors'' k then into (\<lambda>x. b\<lparr>cb_errors := x\<rparr>) (decode_errors u)
     else (b, True)) v \<lparr>cb_sid = [], cb_tokens = [], cb_errors = []\<rparr>"

definition decode_rotated :: "json \<Rightarrow> (string \<times> string list) \<times> bool" where
  "decode_rotated v = decode_members (\<lambda>k u (jwt, errs). if key_is ''jwt'' k then into (\<lambda>x. (x, errs)) (decode_string u jwt)
     else if key_is ''errors'' k then into (\<lambda>x. (jwt, x)) (decode_errors u)
     else ((jwt, errs), True)) v ([], [])"

text \<open>\<open>getAuthToken\<close> and \<open>keepAlive\<close>: whether the call worked, and the session after it.\<close>

definition get_auth_token :: "reply \<Rightarrow> auth \<Rightarrow> bool \<times> auth" where
  "get_auth_token rp a = (case body_of decode_client rp of None \<Rightarrow> (False, a)
    | Some b \<Rightarrow> if cb_errors b \<noteq> [] \<or> cb_sid b = [] \<or> cb_tokens b = [] \<or> hd (cb_tokens b) = [] then (False, a)
        else (case jwt_exp (hd (cb_tokens b)) of None \<Rightarrow> (False, a)
          | Some e \<Rightarrow> (True, \<lparr>au_sid = cb_sid b, au_token = hd (cb_tokens b), au_exp = e\<rparr>)))"

definition keep_alive :: "reply \<Rightarrow> reply \<Rightarrow> auth \<Rightarrow> bool \<times> auth" where
  "keep_alive client rot a =
    (if au_sid a = [] then get_auth_token client a
     else (case body_of decode_rotated rot of None \<Rightarrow> (False, a)
       | Some (jwt, errs) \<Rightarrow> if errs \<noteq> [] \<or> jwt = [] then (False, a)
           else (case jwt_exp jwt of None \<Rightarrow> (False, a)
             | Some e \<Rightarrow> (True, a\<lparr>au_token := jwt, au_exp := e\<rparr>))))"

definition token_refresh_skew :: duration where
  "token_refresh_skew = 5 * minute"

text \<open>
  A token that is good for the skew is handed out; otherwise it is rotated, and if that fails the session
  is established anew (the second reply of the client call).
\<close>

definition token_for :: "instant \<Rightarrow> reply \<Rightarrow> reply \<Rightarrow> reply \<Rightarrow> auth \<Rightarrow> string option \<times> auth" where
  "token_for tm client rot again a =
    (if au_token a \<noteq> [] \<and> tm + token_refresh_skew < au_exp a then (Some (au_token a), a)
     else (case keep_alive client rot a of
         (True, a1) \<Rightarrow> (Some (au_token a1), a1)
       | (False, a1) \<Rightarrow> (case get_auth_token again a1 of
           (True, a2) \<Rightarrow> (Some (au_token a2), a2) | (False, a2) \<Rightarrow> (None, a2))))"

section \<open>What is handed out\<close>

text \<open>The token and the expiry of a session belong together.\<close>

definition auth_ok :: "auth \<Rightarrow> bool" where
  "auth_ok a \<longleftrightarrow> (au_token a = [] \<or> jwt_exp (au_token a) = Some (au_exp a))"

lemma auth_ok_new: "auth_ok new_auth"
  by (simp add: auth_ok_def new_auth_def)

lemma get_auth_token_ok:
  "get_auth_token rp a = (True, a') \<Longrightarrow> auth_ok a' \<and> au_token a' \<noteq> []"
  "get_auth_token rp a = (False, a') \<Longrightarrow> a' = a"
  by (auto simp: get_auth_token_def auth_ok_def split: option.splits if_splits)

lemma keep_alive_ok:
  "keep_alive cl rp a = (True, a') \<Longrightarrow> auth_ok a' \<and> au_token a' \<noteq> []"
  "keep_alive cl rp a = (False, a') \<Longrightarrow> a' = a"
  using get_auth_token_ok [of cl a a']
  by (auto simp: keep_alive_def auth_ok_def split: option.splits if_splits prod.splits)

lemma token_for_ok:
  assumes "auth_ok a" "token_for tm cl rp again a = (r, a')"
  shows "auth_ok a'" "r = Some tok \<Longrightarrow> tok \<noteq> [] \<and> tok = au_token a' \<and> jwt_exp tok = Some (au_exp a')"
    "r = None \<Longrightarrow> a' = a"
proof -
  have "auth_ok a' \<and> (\<forall>tok. r = Some tok \<longrightarrow> tok \<noteq> [] \<and> tok = au_token a' \<and> jwt_exp tok = Some (au_exp a')) \<and>
      (r = None \<longrightarrow> a' = a)"
  proof (cases "au_token a \<noteq> [] \<and> tm + token_refresh_skew < au_exp a")
    case True
    then show ?thesis using assms by (auto simp: token_for_def auth_ok_def)
  next
    case False
    obtain b a1 where k: "keep_alive cl rp a = (b, a1)" by fastforce
    obtain b2 a2 where g: "get_auth_token again a1 = (b2, a2)" by fastforce
    show ?thesis
      using assms False k g keep_alive_ok [of cl rp a a1] get_auth_token_ok [of again a1 a2]
      by (cases b; cases b2) (auto simp: token_for_def auth_ok_def)
  qed
  then show "auth_ok a'" "r = Some tok \<Longrightarrow> tok \<noteq> [] \<and> tok = au_token a' \<and> jwt_exp tok = Some (au_exp a')"
    "r = None \<Longrightarrow> a' = a" by auto
qed

text \<open>The expiry that an issuer put into a token is the expiry that is read.\<close>

lemma pad_from_url: "map from_url (pad_to_four s) = pad_to_four (map from_url s)"
  by (simp add: pad_to_four_def from_url_def)

lemma code_less: "code c < 256"
  by (simp add: code_def nat_of_char_less_256)

lemma base64url_round: "base64url_decode (b64_url_encode (map code s)) = Some (map code s)"
proof -
  have b: "list_all (\<lambda>b. b < 256) (map code s)" by (simp add: list_all_iff code_less)
  then show ?thesis by (simp add: base64url_decode_def pad_from_url b64_url_from b64_repad b64_decode_encode)
qed

lemma bytes_code: "bytes (map code s) = s"
  by (simp add: bytes_def code_def o_def)

lemma b64_url_no_dot: "CHR ''.'' \<notin> set (b64_url_encode bs)" if "list_all (\<lambda>b. b < 256) bs"
proof -
  have "to_url (b64_digit n) \<noteq> CHR ''.''" if "n < 64" for n
    using b64_val_digit [OF that] by (auto simp: to_url_def b64_val_def code_def split: if_splits)
  note digits = this
  have enc: "set (b64_encode bs) \<subseteq> insert CHR ''='' (b64_digit ` {..<64})"
    using that by (induction bs rule: b64_encode.induct) (auto intro!: imageI)
  show ?thesis
  proof
    assume "CHR ''.'' \<in> set (b64_url_encode bs)"
    then obtain c where c: "c \<in> set (b64_encode bs)" "c \<noteq> CHR ''=''" "to_url c = CHR ''.''"
      by (auto simp: b64_url_encode_def)
    with enc obtain n where "n < 64" "c = b64_digit n" by blast
    with digits [of n] c(3) show False by simp
  qed
qed

text \<open>Whatever the header and the signature: the claims in the URL alphabet without padding are read back.\<close>

lemma token_expiry_roundtrip:
  assumes "CHR ''.'' \<notin> set h" "claim_exp claims = Some e" "e \<noteq> 0"
  shows "jwt_exp (h @ ''.'' @ b64_url_encode (map code claims) @ ''.'' @ sig) = Some (unix_time e)"
proof -
  have app: "split_byte c (p @ c # s) = p # split_byte c s" if "c \<notin> set p" for c p s
    using that by (induction p) auto
  have d: "CHR ''.'' \<notin> set (b64_url_encode (map code claims))"
    by (rule b64_url_no_dot) (simp add: list_all_iff code_less)
  have "split_byte CHR ''.'' (h @ ''.'' @ b64_url_encode (map code claims) @ ''.'' @ sig) =
      h # b64_url_encode (map code claims) # split_byte CHR ''.'' sig"
    using app [OF assms(1)] app [OF d] by simp
  then show ?thesis using assms(2,3) by (simp add: jwt_exp_def base64url_round bytes_code)
qed

end
