(* ===== verification/SunoBackup.thy ===== *)
theory SunoBackup
  imports SunoAuth FileOps
begin

text \<open>
  pkgs/suno-backup/main.go: the mirror of an account's tracks. Files are a map from paths to contents, and
  every operation on them is logged, so that a kill is a prefix of the log. The service, the clock, faults
  of the file system and cancellation are arguments; a token that cannot be had is a request without a
  reply. An id is a clean path element. The workers of a batch run one after another here. Not modelled:
  logging, the environment, the endless timers.
\<close>

section \<open>Records, paths, parameters\<close>

record clip_record =
  ci_id :: string
  ci_title :: string
  ci_created :: string
  ci_sha :: string
  ci_bytes :: nat
  ci_image_sha :: string
  ci_image_bytes :: nat
  ci_at :: string

type_synonym index_file = "(string \<times> clip_record) list \<times> int \<times> bool"

text \<open>The digest and the JSON texts: of the index (and back) and of a clip object.\<close>

record codec =
  cd_sha :: "string \<Rightarrow> string"
  cd_index :: "index_file \<Rightarrow> string"
  cd_load :: "string \<Rightarrow> index_file \<times> bool"
  cd_pretty :: "json \<Rightarrow> string"

text \<open>The places where cancellation is noticed.\<close>

datatype stop_point = RecentPage int | BeforePage int | AfterPage int | BeforeJob string | BeforeImage string | Polling string nat

text \<open>A download: no response, a refusal, the whole body, or a body that breaks off.\<close>

datatype body_reply = NoContent | BadCode nat | Whole string | Cut string

record backup_world =
  bu_tmp :: "string \<Rightarrow> nat"
  bu_stat_ok :: "string \<Rightarrow> bool"
  bu_read_ok :: "string \<Rightarrow> bool"
  bu_mkdir :: "string \<Rightarrow> bool"
  bu_fault :: "string \<Rightarrow> write_fault option"
  bu_wav :: "string \<Rightarrow> nat \<Rightarrow> reply"
  bu_convert :: "string \<Rightarrow> reply"
  bu_polls :: "string \<Rightarrow> nat"
  bu_get :: "string \<Rightarrow> body_reply"
  bu_at :: string
  bu_page :: "int \<Rightarrow> reply"
  bu_stop :: "stop_point \<Rightarrow> bool"

record backup =
  bk_fs :: "string \<rightharpoonup> string"
  bk_log :: "fs_op list"
  bk_index :: "(string \<times> clip_record) list"
  bk_page :: int
  bk_done :: bool

definition run_ops :: "fs_op list \<Rightarrow> backup \<Rightarrow> backup" where
  "run_ops ops st = st\<lparr>bk_fs := fold do_op ops (bk_fs st), bk_log := bk_log st @ ops\<rparr>"

definition year_month :: "string \<Rightarrow> string" where
  "year_month s = (if 7 \<le> length s then take 4 s @ ''/'' @ take 2 (drop 5 s) else ''unknown/unknown'')"

definition clip_dir :: "string \<Rightarrow> string \<Rightarrow> string \<Rightarrow> string" where
  "clip_dir data created i = data @ ''/tracks/'' @ year_month created @ ''/'' @ i"

definition wav_path :: "string \<Rightarrow> string \<Rightarrow> string" where
  "wav_path dir i = dir @ ''/'' @ i @ ''.wav''"

definition meta_path :: "string \<Rightarrow> string" where
  "meta_path dir = dir @ ''/meta.json''"

definition index_path :: "string \<Rightarrow> string" where
  "index_path data = data @ ''/index.json''"

definition part_path :: "string \<Rightarrow> string" where
  "part_path dest = dest @ ''.part''"

definition tmp_path :: "backup_world \<Rightarrow> string \<Rightarrow> string \<Rightarrow> string" where
  "tmp_path w dir path = dir @ ''/.tmp-'' @ nat_digits (bu_tmp w path)"

section \<open>The index\<close>

definition has_clip :: "string \<Rightarrow> backup \<Rightarrow> bool" where
  "has_clip i st \<longleftrightarrow> map_of (bk_index st) i \<noteq> None"

definition count_clips :: "backup \<Rightarrow> nat" where
  "count_clips st = length (bk_index st)"

definition add_clip :: "clip_record \<Rightarrow> backup \<Rightarrow> backup" where
  "add_clip r st = st\<lparr>bk_index := AList.update (ci_id r) r (bk_index st)\<rparr>"

definition set_cursor :: "int \<Rightarrow> bool \<Rightarrow> backup \<Rightarrow> backup" where
  "set_cursor page fin st = st\<lparr>bk_page := page, bk_done := fin\<rparr>"

text \<open>\<open>atomicWriteBytes\<close>: the temporary is removed on every failure but that of the rename.\<close>

definition atomic_write_bytes :: "write_fault option \<Rightarrow> string \<Rightarrow> string \<Rightarrow> string \<Rightarrow> bool \<times> fs_op list" where
  "atomic_write_bytes fault tmp path data = (case fault of
      None \<Rightarrow> (True, [OpCreate tmp, OpAppend tmp data, OpRename tmp path])
    | Some AtCreate \<Rightarrow> (False, [])
    | Some (AtWrite n) \<Rightarrow> (False, [OpCreate tmp, OpAppend tmp (take n data), OpRemove tmp])
    | Some AtRename \<Rightarrow> (False, [OpCreate tmp, OpAppend tmp data])
    | Some _ \<Rightarrow> (False, [OpCreate tmp, OpAppend tmp data, OpRemove tmp]))"

definition save_index :: "codec \<Rightarrow> backup_world \<Rightarrow> string \<Rightarrow> backup \<Rightarrow> backup" where
  "save_index cd w data st = run_ops (snd (atomic_write_bytes (bu_fault w (index_path data)) (tmp_path w data (index_path data))
     (index_path data) (cd_index cd (bk_index st, bk_page st, bk_done st)))) st"

text \<open>
  A corrupt index is set aside, if it can be renamed, and the daemon starts with what could be decoded of it
  (nothing, when it is no JSON); None is a file that cannot be read.
\<close>

definition load_store :: "codec \<Rightarrow> bool \<Rightarrow> bool \<Rightarrow> string \<Rightarrow> string \<Rightarrow> (string \<rightharpoonup> string) \<Rightarrow> backup option" where
  "load_store cd readable movable stamp data fs =
    (let fresh = \<lparr>bk_fs = fs, bk_log = [], bk_index = [], bk_page = 0, bk_done = False\<rparr>
     in case fs (index_path data) of
          None \<Rightarrow> Some fresh
        | Some body \<Rightarrow> if \<not> readable then None else if body = [] then Some fresh
            else (case cd_load cd body of ((idx, page, fin), good) \<Rightarrow>
              (let st = fresh\<lparr>bk_index := idx, bk_page := page, bk_done := fin\<rparr>
               in Some (if good \<or> \<not> movable then st
                 else run_ops [OpRename (index_path data) (index_path data @ ''.corrupt-'' @ stamp)] st))))"

section \<open>Requests\<close>

datatype backup_error = ApiFault suno_error | ConversionTimeout | Cancelled | HttpStatus nat | FileFault | EmptyBody | CoverUnavailable

definition do_get :: "(json \<Rightarrow> 'a \<times> bool) \<Rightarrow> reply \<Rightarrow> suno_error + 'a" where
  "do_get f rp = (case rp of
      NoReply e \<Rightarrow> Inl (NetError e)
    | Reply st body \<Rightarrow>
        if 400 \<le> st then Inl (BadStatus st (trim_space (take 512 body)))
        else (case first_value body of None \<Rightarrow> Inl BadJson
          | Some v \<Rightarrow> if snd (f v) then Inr (fst (f v)) else Inl BadJson))"

definition do_post :: "reply \<Rightarrow> suno_error option" where
  "do_post rp = (case rp of
      NoReply e \<Rightarrow> Some (NetError e)
    | Reply st body \<Rightarrow> if 300 \<le> st \<and> st \<noteq> 204 then Some (BadStatus st (trim_space (take 512 body))) else None)"

record feed_page =
  fp_clips :: "json list"
  fp_more :: bool
  fp_page :: int
  fp_total :: int

definition feed_page_field :: "string \<Rightarrow> json \<Rightarrow> feed_page \<Rightarrow> feed_page \<times> bool" where
  "feed_page_field k v p =
    (if key_is ''clips'' k then into (\<lambda>x. p\<lparr>fp_clips := x\<rparr>) (decode_list (\<lambda>u. (u, True)) v)
     else if key_is ''has_more'' k then into (\<lambda>x. p\<lparr>fp_more := x\<rparr>) (plain_bool v (fp_more p))
     else if key_is ''current_page'' k then into (\<lambda>x. p\<lparr>fp_page := x\<rparr>) (plain_int v (fp_page p))
     else if key_is ''num_total_results'' k then into (\<lambda>x. p\<lparr>fp_total := x\<rparr>) (plain_int v (fp_total p))
     else (p, True))"

definition fetch_page :: "backup_world \<Rightarrow> int \<Rightarrow> suno_error + json list" where
  "fetch_page w page = map_ok fp_clips (do_get (\<lambda>v. decode_members feed_page_field v
     \<lparr>fp_clips = [], fp_more = False, fp_page = 0, fp_total = 0\<rparr>) (bu_page w page))"

record clip_core =
  co_id :: string
  co_title :: string
  co_created :: string
  co_status :: string
  co_trashed :: bool

definition core_field :: "string \<Rightarrow> json \<Rightarrow> clip_core \<Rightarrow> clip_core \<times> bool" where
  "core_field k v c =
    (if key_is ''id'' k then into (\<lambda>x. c\<lparr>co_id := x\<rparr>) (decode_string v (co_id c))
     else if key_is ''title'' k then into (\<lambda>x. c\<lparr>co_title := x\<rparr>) (decode_string v (co_title c))
     else if key_is ''created_at'' k then into (\<lambda>x. c\<lparr>co_created := x\<rparr>) (decode_string v (co_created c))
     else if key_is ''status'' k then into (\<lambda>x. c\<lparr>co_status := x\<rparr>) (decode_string v (co_status c))
     else if key_is ''is_trashed'' k then into (\<lambda>x. c\<lparr>co_trashed := x\<rparr>) (plain_bool v (co_trashed c))
     else (c, True))"

definition parse_core :: "json \<Rightarrow> clip_core option" where
  "parse_core raw = (case decode_members core_field raw \<lparr>co_id = [], co_title = [], co_created = [], co_status = [],
     co_trashed = False\<rparr> of (c, ok) \<Rightarrow> if ok then Some c else None)"

text \<open>The URL of the lossless file: the server is asked, told to convert, and polled until the deadline.\<close>

definition wav_file_url :: "reply \<Rightarrow> suno_error + string" where
  "wav_file_url rp = do_get (\<lambda>v. decode_members
     (\<lambda>k u s. if key_is ''wav_file_url'' k then decode_string u s else (s, True)) v []) rp"

fun poll_wav :: "(nat \<Rightarrow> bool) \<Rightarrow> (nat \<Rightarrow> reply) \<Rightarrow> nat \<Rightarrow> nat \<Rightarrow> backup_error + string" where
  "poll_wav stop net k 0 = Inl ConversionTimeout"
| "poll_wav stop net k (Suc n) =
    (if stop k then Inl Cancelled
     else (case wav_file_url (net k) of
         Inl e \<Rightarrow> poll_wav stop net (Suc k) n
       | Inr u \<Rightarrow> if u \<noteq> [] then Inr u else poll_wav stop net (Suc k) n))"

definition wav_url :: "backup_world \<Rightarrow> string \<Rightarrow> backup_error + string" where
  "wav_url w i = (case wav_file_url (bu_wav w i 0) of
      Inl e \<Rightarrow> Inl (ApiFault e)
    | Inr u \<Rightarrow> if u \<noteq> [] then Inr u
        else (case do_post (bu_convert w i) of Some e \<Rightarrow> Inl (ApiFault e)
          | None \<Rightarrow> poll_wav (\<lambda>k. bu_stop w (Polling i k)) (bu_wav w i) 1 (bu_polls w i)))"

section \<open>Downloads\<close>

text \<open>The body goes to a part file, which is renamed when it is complete, synced and not empty.\<close>

definition save_body :: "codec \<Rightarrow> write_fault option \<Rightarrow> string \<Rightarrow> bool \<Rightarrow> string \<Rightarrow> (backup_error + string \<times> nat) \<times> fs_op list" where
  "save_body cd fault dest whole data =
    (let part = part_path dest; start = [OpCreate part, OpAppend part data]
     in case fault of
          Some AtCreate \<Rightarrow> (Inl FileFault, [])
        | Some (AtWrite n) \<Rightarrow> (Inl FileFault, [OpCreate part, OpAppend part (take n data), OpRemove part])
        | _ \<Rightarrow> if \<not> whole \<or> fault = Some AtSync \<or> fault = Some AtClose then (Inl FileFault, start @ [OpRemove part])
            else if data = [] then (Inl EmptyBody, start @ [OpRemove part])
            else if fault = Some AtRename then (Inl FileFault, start @ [OpRemove part])
            else (Inr (cd_sha cd data, length data), start @ [OpRename part dest]))"

definition download :: "codec \<Rightarrow> backup_world \<Rightarrow> string \<Rightarrow> string \<Rightarrow> backup \<Rightarrow> (backup_error + string \<times> nat) \<times> backup" where
  "download cd w url dest st = (case bu_get w url of
      NoContent \<Rightarrow> (Inl (ApiFault (NetError [])), st)
    | BadCode c \<Rightarrow> (Inl (HttpStatus c), st)
    | Whole d \<Rightarrow> (case save_body cd (bu_fault w dest) dest True d of (r, ops) \<Rightarrow> (r, run_ops ops st))
    | Cut d \<Rightarrow> (case save_body cd (bu_fault w dest) dest False d of (r, ops) \<Rightarrow> (r, run_ops ops st)))"

definition hash_file :: "codec \<Rightarrow> backup_world \<Rightarrow> string \<Rightarrow> string \<Rightarrow> backup_error + string \<times> nat" where
  "hash_file cd w path d = (if bu_read_ok w path then Inr (cd_sha cd d, length d) else Inl FileFault)"

text \<open>\<open>terminalHTTP\<close>: a refusal that will not change.\<close>

definition terminal_http :: "backup_error \<Rightarrow> bool" where
  "terminal_http e = (case e of HttpStatus c \<Rightarrow> 400 \<le> c \<and> c < 500 \<and> c \<noteq> 429 | _ \<Rightarrow> False)"

definition ensure_wav :: "codec \<Rightarrow> backup_world \<Rightarrow> string \<Rightarrow> string \<Rightarrow> backup \<Rightarrow> (backup_error + string \<times> nat) \<times> backup" where
  "ensure_wav cd w dir i st =
    (let p = wav_path dir i
     in if \<not> bu_stat_ok w p then (Inl FileFault, st)
        else (case bk_fs st p of
            Some d \<Rightarrow> (hash_file cd w p d, st)
          | None \<Rightarrow> (case wav_url w i of Inl e \<Rightarrow> (Inl e, st) | Inr u \<Rightarrow> download cd w u p st)))"

definition large_image_url :: "json option \<Rightarrow> string" where
  "large_image_url raw = (case raw of None \<Rightarrow> []
    | Some v \<Rightarrow> (case decode_members (\<lambda>k u s. if key_is ''image_large_url'' k then decode_string u s else (s, True)) v [] of
        (s, ok) \<Rightarrow> if ok then trim_space s else []))"

definition image_ext :: "string \<Rightarrow> string" where
  "image_ext u = (if suffix ''.png'' u then ''.png'' else if suffix ''.webp'' u then ''.webp'' else ''.jpg'')"

definition cover_path :: "string \<Rightarrow> string \<Rightarrow> string" where
  "cover_path dir url = dir @ ''/cover'' @ image_ext url"

definition ensure_image :: "codec \<Rightarrow> backup_world \<Rightarrow> json \<Rightarrow> string \<Rightarrow> backup \<Rightarrow> (backup_error + string \<times> nat) \<times> backup" where
  "ensure_image cd w raw dir st =
    (let u = large_image_url (Some raw); p = cover_path dir u
     in if u = [] then (Inr ([], 0), st)
        else if \<not> bu_stat_ok w p then (Inl FileFault, st)
        else (case bk_fs st p of
            Some d \<Rightarrow> (hash_file cd w p d, st)
          | None \<Rightarrow> (case download cd w u p st of
              (Inl e, st1) \<Rightarrow> (Inl (if terminal_http e then CoverUnavailable else e), st1)
            | (Inr r, st1) \<Rightarrow> (Inr r, st1))))"

section \<open>Backing up a clip\<close>

definition write_meta :: "codec \<Rightarrow> backup_world \<Rightarrow> json \<Rightarrow> string \<Rightarrow> backup \<Rightarrow> bool \<times> backup" where
  "write_meta cd w raw dir st =
    (let p = meta_path dir
     in if \<not> bu_stat_ok w p then (False, st)
        else if bk_fs st p \<noteq> None then (True, st)
        else (case atomic_write_bytes (bu_fault w p) (tmp_path w dir p) p (cd_pretty cd raw) of
            (ok, ops) \<Rightarrow> (ok, run_ops ops st)))"

text \<open>What is recorded of the cover: its digest, the mark of a clip without one, or nothing for a later try.\<close>

definition image_mark :: "backup_error + string \<times> nat \<Rightarrow> string \<times> nat" where
  "image_mark r = (case r of
      Inl e \<Rightarrow> (if e = CoverUnavailable then ''none'' else [], 0)
    | Inr (sha, n) \<Rightarrow> (if sha = [] then ''none'' else sha, n))"

definition backup_clip :: "codec \<Rightarrow> backup_world \<Rightarrow> string \<Rightarrow> json \<Rightarrow> clip_core \<Rightarrow> backup \<Rightarrow> bool \<times> backup" where
  "backup_clip cd w data raw c st =
    (let dir = clip_dir data (co_created c) (co_id c)
     in if \<not> bu_mkdir w dir then (False, st)
        else (case write_meta cd w raw dir st of
            (False, st1) \<Rightarrow> (False, st1)
          | (True, st1) \<Rightarrow> (case ensure_wav cd w dir (co_id c) st1 of
                (Inl e, st2) \<Rightarrow> (False, run_ops [OpRemove (meta_path dir)] st2)
              | (Inr (sha, n), st2) \<Rightarrow> (case ensure_image cd w raw dir st2 of
                  (r, st3) \<Rightarrow> (True, save_index cd w data (add_clip
                    \<lparr>ci_id = co_id c, ci_title = co_title c, ci_created = co_created c, ci_sha = sha, ci_bytes = n,
                     ci_image_sha = fst (image_mark r), ci_image_bytes = snd (image_mark r), ci_at = bu_at w\<rparr> st3))))))"

text \<open>The clips of a page that are not in the index yet, until the context is cancelled.\<close>

definition new_jobs :: "json list \<Rightarrow> backup \<Rightarrow> (json \<times> clip_core) list" where
  "new_jobs raws st = List.map_filter (\<lambda>raw. case parse_core raw of None \<Rightarrow> None
     | Some c \<Rightarrow> if co_id c = [] \<or> has_clip (co_id c) st then None else Some (raw, c)) raws"

fun run_jobs :: "codec \<Rightarrow> backup_world \<Rightarrow> string \<Rightarrow> (json \<times> clip_core) list \<Rightarrow> backup \<Rightarrow> backup" where
  "run_jobs cd w data [] st = st"
| "run_jobs cd w data ((raw, c) # jobs) st =
    (if bu_stop w (BeforeJob (co_id c)) then st else run_jobs cd w data jobs (snd (backup_clip cd w data raw c st)))"

definition process_clips :: "codec \<Rightarrow> backup_world \<Rightarrow> string \<Rightarrow> json list \<Rightarrow> backup \<Rightarrow> backup" where
  "process_clips cd w data raws st = run_jobs cd w data (new_jobs raws st) st"

section \<open>The passes\<close>

fun scan_pages :: "codec \<Rightarrow> backup_world \<Rightarrow> string \<Rightarrow> int \<Rightarrow> nat \<Rightarrow> backup \<Rightarrow> backup" where
  "scan_pages cd w data page 0 st = st"
| "scan_pages cd w data page (Suc n) st = (case fetch_page w page of
      Inl e \<Rightarrow> st
    | Inr clips \<Rightarrow> (let st1 = process_clips cd w data clips st
        in if clips = [] \<or> bu_stop w (RecentPage page) then st1 else scan_pages cd w data (page + 1) n st1))"

definition scan_recent :: "codec \<Rightarrow> backup_world \<Rightarrow> string \<Rightarrow> nat \<Rightarrow> backup \<Rightarrow> backup" where
  "scan_recent cd w data pages st = scan_pages cd w data 1 pages st"

fun backfill_pages :: "codec \<Rightarrow> backup_world \<Rightarrow> string \<Rightarrow> int \<Rightarrow> nat \<Rightarrow> backup \<Rightarrow> backup" where
  "backfill_pages cd w data page 0 st = st"
| "backfill_pages cd w data page (Suc n) st =
    (if bu_stop w (BeforePage page) then st
     else (case fetch_page w page of
         Inl e \<Rightarrow> st
       | Inr clips \<Rightarrow> if clips = [] then save_index cd w data (set_cursor 1 True st)
           else (let st1 = save_index cd w data (set_cursor (page + 1) False (process_clips cd w data clips st))
             in if bu_stop w (AfterPage page) then st1 else backfill_pages cd w data (page + 1) n st1)))"

definition backfill_pass :: "codec \<Rightarrow> backup_world \<Rightarrow> string \<Rightarrow> nat \<Rightarrow> backup \<Rightarrow> backup" where
  "backfill_pass cd w data step st = backfill_pages cd w data (if bk_done st then 1 else bk_page st) step st"

text \<open>The cover of one indexed clip, from its metadata on disk.\<close>

definition heal_one_image :: "codec \<Rightarrow> backup_world \<Rightarrow> string \<Rightarrow> string \<times> clip_record \<Rightarrow> backup \<Rightarrow> backup" where
  "heal_one_image cd w data p st = (case p of (i, r) \<Rightarrow>
    (let dir = clip_dir data (ci_created r) i; mark = (\<lambda>x s. save_index cd w data (add_clip x s))
     in case bk_fs st (meta_path dir) of
          None \<Rightarrow> st
        | Some body \<Rightarrow> if \<not> bu_read_ok w (meta_path dir) then st
            else (let u = large_image_url (json_value body); p = cover_path dir u
              in if u = [] then mark (r\<lparr>ci_image_sha := ''none''\<rparr>) st
                 else (case (if bu_stat_ok w p then (case bk_fs st p of Some d \<Rightarrow> Some d | None \<Rightarrow> None) else None) of
                     Some d \<Rightarrow> (case hash_file cd w p d of Inl e \<Rightarrow> st
                       | Inr (sha, n) \<Rightarrow> mark (r\<lparr>ci_image_sha := sha, ci_image_bytes := n\<rparr>) st)
                   | None \<Rightarrow> (case download cd w u p st of
                       (Inl e, st1) \<Rightarrow> if terminal_http e then mark (r\<lparr>ci_image_sha := ''none''\<rparr>) st1 else st1
                     | (Inr (sha, n), st1) \<Rightarrow> mark (r\<lparr>ci_image_sha := sha, ci_image_bytes := n\<rparr>) st1)))))"

fun heal_each :: "codec \<Rightarrow> backup_world \<Rightarrow> string \<Rightarrow> (string \<times> clip_record) list \<Rightarrow> backup \<Rightarrow> backup" where
  "heal_each cd w data [] st = st"
| "heal_each cd w data (p # ps) st =
    (if bu_stop w (BeforeImage (fst p)) then st else heal_each cd w data ps (heal_one_image cd w data p st))"

definition heal_images :: "codec \<Rightarrow> backup_world \<Rightarrow> string \<Rightarrow> backup \<Rightarrow> backup" where
  "heal_images cd w data st = heal_each cd w data (filter (\<lambda>(i, r). ci_image_sha r = []) (bk_index st)) st"

datatype backup_pass = Recent | Images | Backfill

definition one_pass :: "codec \<Rightarrow> string \<Rightarrow> nat \<Rightarrow> nat \<Rightarrow> backup_pass \<times> backup_world \<Rightarrow> backup \<Rightarrow> backup" where
  "one_pass cd data pages step pw st = (case fst pw of
      Recent \<Rightarrow> scan_recent cd (snd pw) data pages st
    | Images \<Rightarrow> heal_images cd (snd pw) data st
    | Backfill \<Rightarrow> backfill_pass cd (snd pw) data step st)"

definition idle_delay :: "backup \<Rightarrow> backup \<Rightarrow> duration" where
  "idle_delay before after = (if bk_done after \<and> count_clips before = count_clips after then hour else 5 * minute)"

end
