(* ===== verification/SunoBackupSpec.thy ===== *)
theory SunoBackupSpec
  imports SunoBackup
begin

text \<open>
  The mirror: the files that a killed daemon leaves behind, the masters that are never touched again, the
  index that is rebuilt from the files, and the page that a cancelled pass forgets.
\<close>

section \<open>The promise\<close>

definition is_wav :: "string \<Rightarrow> bool" where
  "is_wav p \<longleftrightarrow> suffix ''.wav'' p"

text \<open>Every record of an index tells the digest and the length of a master that is on disk.\<close>

definition record_true :: "codec \<Rightarrow> string \<Rightarrow> (string \<rightharpoonup> string) \<Rightarrow> clip_record \<Rightarrow> bool" where
  "record_true cd data fs r \<longleftrightarrow> (case fs (wav_path (clip_dir data (ci_created r) (ci_id r)) (ci_id r)) of
     None \<Rightarrow> False | Some d \<Rightarrow> ci_sha r = cd_sha cd d \<and> ci_bytes r = length d)"

definition index_true :: "codec \<Rightarrow> string \<Rightarrow> (string \<rightharpoonup> string) \<Rightarrow> (string \<times> clip_record) list \<Rightarrow> bool" where
  "index_true cd data fs idx \<longleftrightarrow> list_all (\<lambda>p. record_true cd data fs (snd p)) idx"

text \<open>The index on disk is absent, empty, or the text of a true one.\<close>

definition true_text :: "codec \<Rightarrow> string \<Rightarrow> (string \<rightharpoonup> string) \<Rightarrow> string \<Rightarrow> bool" where
  "true_text cd data fs body \<longleftrightarrow> (\<exists>idx c. body = cd_index cd (idx, c) \<and> index_true cd data fs idx)"

definition disk_ok :: "codec \<Rightarrow> string \<Rightarrow> (string \<rightharpoonup> string) \<Rightarrow> bool" where
  "disk_ok cd data fs \<longleftrightarrow> (case fs (index_path data) of None \<Rightarrow> True
     | Some body \<Rightarrow> body = [] \<or> true_text cd data fs body)"

definition keeps_masters :: "(string \<rightharpoonup> string) \<Rightarrow> (string \<rightharpoonup> string) \<Rightarrow> bool" where
  "keeps_masters fs fs' \<longleftrightarrow> (\<forall>p d. is_wav p \<longrightarrow> fs p = Some d \<longrightarrow> fs' p = Some d)"

lemma keeps_refl [simp]: "keeps_masters fs fs"
  by (simp add: keeps_masters_def)

lemma keeps_trans [trans]: "keeps_masters a b \<Longrightarrow> keeps_masters b c \<Longrightarrow> keeps_masters a c"
  by (simp add: keeps_masters_def)

section \<open>Paths\<close>

lemma is_wav_path [simp]: "is_wav (wav_path dir i)"
  by (simp add: is_wav_def wav_path_def suffix_def)

lemma last_v: "is_wav p \<Longrightarrow> last p = CHR ''v''"
  by (auto simp: is_wav_def suffix_def)

lemma last_digits: "code (last (nat_digits n)) < 58"
proof -
  have "48 + n mod 10 < 58" by simp
  then show ?thesis by (subst nat_digits.simps) (simp add: code_def)
qed

text \<open>Paths that may be written in place: no master and not the index.\<close>

definition scratch_path :: "string \<Rightarrow> string \<Rightarrow> bool" where
  "scratch_path data p \<longleftrightarrow> \<not> is_wav p \<and> p \<noteq> index_path data"

lemma index_not_wav [simp]: "\<not> is_wav (index_path data)"
  by (auto simp: index_path_def is_wav_def suffix_def append_eq_append_conv2 dest!: arg_cong [of _ _ last])

lemma last_index [simp]: "last (index_path data) = CHR ''n''"
  by (simp add: index_path_def)

lemma scratchD: "scratch_path data p \<Longrightarrow> \<not> is_wav p" "scratch_path data p \<Longrightarrow> p \<noteq> index_path data"
  by (simp_all add: scratch_path_def)

lemma scratch_last: "last p \<noteq> CHR ''v'' \<Longrightarrow> last p \<noteq> CHR ''n'' \<Longrightarrow> scratch_path data p"
  using last_v [of p] by (auto simp: scratch_path_def)

lemma scratch_tmp [simp]: "scratch_path data (tmp_path w dir path)"
proof -
  have "code (last (tmp_path w dir path)) < 58"
    using last_digits by (simp add: tmp_path_def)
  moreover have "code CHR ''v'' = 118" "code CHR ''n'' = 110" by code_simp+
  ultimately show ?thesis by (intro scratch_last) auto
qed

lemma scratch_part [simp]: "scratch_path data (part_path p)"
  by (rule scratch_last) (simp_all add: part_path_def)

lemma scratch_cover [simp]: "scratch_path data (cover_path dir u)"
  by (rule scratch_last) (simp_all add: cover_path_def image_ext_def)

lemma scratch_meta [simp]: "scratch_path data (meta_path dir)"
proof -
  have "last (meta_path dir) = CHR ''n''" by (simp add: meta_path_def)
  then have "\<not> is_wav (meta_path dir)" using last_v [of "meta_path dir"] by auto
  moreover have "meta_path dir \<noteq> index_path data"
  proof
    assume "meta_path dir = index_path data"
    then have "take 10 (rev (meta_path dir)) = take 10 (rev (index_path data))" by simp
    then show False by (simp add: meta_path_def index_path_def)
  qed
  ultimately show ?thesis by (simp add: scratch_path_def)
qed

lemma part_ne [simp]: "part_path p \<noteq> p" "p \<noteq> part_path p"
  by (simp_all add: part_path_def)

section \<open>Safe operations\<close>

fun op_safe :: "codec \<Rightarrow> string \<Rightarrow> (string \<rightharpoonup> string) \<Rightarrow> fs_op \<Rightarrow> bool" where
  "op_safe cd data fs (OpCreate p) = scratch_path data p"
| "op_safe cd data fs (OpAppend p d) = scratch_path data p"
| "op_safe cd data fs (OpRemove p) = scratch_path data p"
| "op_safe cd data fs (OpRename a b) = (scratch_path data a \<and> (is_wav b \<longrightarrow> fs b = None) \<and>
     (b = index_path data \<longrightarrow> (\<exists>body. fs a = Some body \<and> true_text cd data fs body)))"

fun ops_safe :: "codec \<Rightarrow> string \<Rightarrow> fs_op list \<Rightarrow> (string \<rightharpoonup> string) \<Rightarrow> bool" where
  "ops_safe cd data [] fs = True"
| "ops_safe cd data (a # ops) fs = (op_safe cd data fs a \<and> ops_safe cd data ops (do_op a fs))"

lemma ops_safe_append: "ops_safe cd data (xs @ ys) fs = (ops_safe cd data xs fs \<and> ops_safe cd data ys (fold do_op xs fs))"
  by (induction xs arbitrary: fs) auto

lemma op_keeps: "op_safe cd data fs a \<Longrightarrow> keeps_masters fs (do_op a fs)"
  by (cases a) (auto simp: keeps_masters_def scratch_path_def split: option.splits)

lemma record_mono: "record_true cd data fs r \<Longrightarrow> keeps_masters fs fs' \<Longrightarrow> record_true cd data fs' r"
  using is_wav_path by (fastforce simp: record_true_def keeps_masters_def split: option.splits)

lemma index_mono: "index_true cd data fs idx \<Longrightarrow> keeps_masters fs fs' \<Longrightarrow> index_true cd data fs' idx"
  using record_mono by (fastforce simp: index_true_def list_all_iff)

lemma text_mono: "true_text cd data fs b \<Longrightarrow> keeps_masters fs fs' \<Longrightarrow> true_text cd data fs' b"
  unfolding true_text_def using index_mono by blast

lemma op_index:
  "op_safe cd data fs a \<Longrightarrow> do_op a fs (index_path data) = fs (index_path data) \<or>
    (\<exists>body. do_op a fs (index_path data) = Some body \<and> true_text cd data fs body)"
  by (cases a) (auto simp: scratch_path_def split: option.splits)

lemma op_disk_ok:
  assumes "op_safe cd data fs a" "disk_ok cd data fs"
  shows "disk_ok cd data (do_op a fs)"
  using op_index [OF assms(1)] assms(2) text_mono [OF _ op_keeps [OF assms(1)]]
  by (auto simp: disk_ok_def split: option.splits)

lemma ops_safe_killed:
  "ops_safe cd data ops fs \<Longrightarrow> disk_ok cd data fs \<Longrightarrow>
    disk_ok cd data (killed_after k n ops fs) \<and> keeps_masters fs (killed_after k n ops fs)"
proof (induction ops arbitrary: k fs)
  case (Cons a ops)
  then have safe: "op_safe cd data fs a" and rest: "ops_safe cd data ops (do_op a fs)" by auto
  show ?case
  proof (cases k)
    case 0
    then show ?thesis
    proof (cases a)
      case (OpAppend p d)
      with safe have "op_safe cd data fs (OpAppend p (take n d))" by simp
      from op_disk_ok [OF this Cons.prems(2)] op_keeps [OF this] show ?thesis
        using 0 OpAppend by (simp add: killed_Cons)
    qed (use 0 Cons.prems in \<open>simp_all add: killed_Cons\<close>)
  next
    case (Suc j)
    from Cons.IH [OF rest op_disk_ok [OF safe Cons.prems(2)], of j] show ?thesis
      using Suc keeps_trans [OF op_keeps [OF safe]] by (auto simp: killed_Cons)
  qed
qed simp

lemma ops_safe_keeps: "ops_safe cd data ops fs \<Longrightarrow> keeps_masters fs (fold do_op ops fs)"
  by (induction ops arbitrary: fs) (auto intro: keeps_trans op_keeps)

section \<open>Steps of the daemon\<close>

text \<open>A step from a true index keeps it true and adds only safe operations to the log.\<close>

definition memory_true :: "codec \<Rightarrow> string \<Rightarrow> backup \<Rightarrow> bool" where
  "memory_true cd data st \<longleftrightarrow> index_true cd data (bk_fs st) (bk_index st)"

definition advances :: "codec \<Rightarrow> string \<Rightarrow> backup \<Rightarrow> backup \<Rightarrow> bool" where
  "advances cd data st st' \<longleftrightarrow> (memory_true cd data st \<longrightarrow> memory_true cd data st' \<and>
     (\<exists>ops. bk_log st' = bk_log st @ ops \<and> bk_fs st' = fold do_op ops (bk_fs st) \<and> ops_safe cd data ops (bk_fs st)))"

lemma advances_refl [simp]: "advances cd data st st"
  by (auto simp: advances_def intro: exI [of _ "[]"])

lemma advances_trans [trans]:
  assumes "advances cd data a b" "advances cd data b c" shows "advances cd data a c"
  unfolding advances_def
proof (intro impI)
  assume a: "memory_true cd data a"
  then obtain xs where xs: "memory_true cd data b" "bk_log b = bk_log a @ xs" "bk_fs b = fold do_op xs (bk_fs a)"
      "ops_safe cd data xs (bk_fs a)"
    using assms(1) by (auto simp: advances_def)
  then obtain ys where "memory_true cd data c" "bk_log c = bk_log b @ ys" "bk_fs c = fold do_op ys (bk_fs b)"
      "ops_safe cd data ys (bk_fs b)"
    using assms(2) by (auto simp: advances_def)
  with xs show "memory_true cd data c \<and> (\<exists>ops. bk_log c = bk_log a @ ops \<and> bk_fs c = fold do_op ops (bk_fs a) \<and>
      ops_safe cd data ops (bk_fs a))"
    by (auto simp: ops_safe_append intro!: exI [of _ "xs @ ys"])
qed

lemma advances_keeps: "advances cd data st st' \<Longrightarrow> memory_true cd data st \<Longrightarrow> keeps_masters (bk_fs st) (bk_fs st')"
  using ops_safe_keeps by (auto simp: advances_def)

lemma run_ops_fields [simp]:
  "bk_fs (run_ops ops st) = fold do_op ops (bk_fs st)" "bk_log (run_ops ops st) = bk_log st @ ops"
  "bk_index (run_ops ops st) = bk_index st" "bk_page (run_ops ops st) = bk_page st" "bk_done (run_ops ops st) = bk_done st"
  by (simp_all add: run_ops_def)

lemma run_advances:
  assumes "memory_true cd data st \<Longrightarrow> ops_safe cd data ops (bk_fs st)"
  shows "advances cd data st (run_ops ops st)"
  using assms index_mono [OF _ ops_safe_keeps] by (auto simp: advances_def memory_true_def)

lemma index_step_advances:
  assumes "bk_fs st' = bk_fs st" "bk_log st' = bk_log st" "memory_true cd data st \<Longrightarrow> memory_true cd data st'"
  shows "advances cd data st st'"
  using assms by (auto simp: advances_def intro: exI [of _ "[]"])

lemma index_true_update:
  "index_true cd data fs idx \<Longrightarrow> record_true cd data fs r \<Longrightarrow> index_true cd data fs (AList.update i r idx)"
  by (induction idx) (auto simp: index_true_def)

lemma save_index_advances: "advances cd data st (save_index cd w data st)"
  unfolding save_index_def
proof (rule run_advances)
  assume m: "memory_true cd data st"
  define body where "body = cd_index cd (bk_index st, bk_page st, bk_done st)"
  define t where "t = tmp_path w data (index_path data)"
  have t: "scratch_path data t" by (simp add: t_def)
  have k: "keeps_masters (bk_fs st) ((bk_fs st)(t \<mapsto> body))"
    using t by (auto simp: keeps_masters_def scratch_path_def)
  have "true_text cd data (bk_fs st) body"
    using m by (auto simp: true_text_def body_def memory_true_def)
  then have "true_text cd data ((bk_fs st)(t \<mapsto> body)) body" by (rule text_mono [OF _ k])
  then show "ops_safe cd data (snd (atomic_write_bytes (bu_fault w (index_path data)) (tmp_path w data (index_path data))
      (index_path data) (cd_index cd (bk_index st, bk_page st, bk_done st)))) (bk_fs st)"
    using t by (auto simp: atomic_write_bytes_def body_def t_def split: option.splits write_fault.splits)
qed

lemma write_meta_advances:
  assumes "write_meta cd w raw dir st = (ok, st')"
  shows "advances cd data st st'" "bk_index st' = bk_index st"
proof -
  define ops where "ops = snd (atomic_write_bytes (bu_fault w (meta_path dir)) (tmp_path w dir (meta_path dir)) (meta_path dir) (cd_pretty cd raw))"
  have "ops_safe cd data ops (bk_fs st)"
    using scratchD [OF scratch_meta [of data dir]]
    by (auto simp: ops_def atomic_write_bytes_def split: option.splits write_fault.splits)
  then have "advances cd data st (run_ops ops st)" by (intro run_advances)
  moreover have "st' = st \<or> st' = run_ops ops st"
    using assms by (auto simp: write_meta_def ops_def Let_def split: if_splits prod.splits)
  ultimately show "advances cd data st st'" "bk_index st' = bk_index st" by auto
qed

lemma save_body_ops:
  assumes "save_body cd fault dest whole d = (r, ops)" "(is_wav dest \<longrightarrow> fs dest = None) \<and> dest \<noteq> index_path data"
  shows "ops_safe cd data ops fs" "r = Inr (s, n) \<Longrightarrow> fold do_op ops fs dest = Some d \<and> s = cd_sha cd d \<and> n = length d"
  using assms by (auto simp: save_body_def Let_def split: option.splits write_fault.splits if_splits)

lemma download_advances:
  assumes "download cd w url dest st = (r, st')" "is_wav dest \<Longrightarrow> bk_fs st dest = None" "dest \<noteq> index_path data"
  shows "advances cd data st st'" "bk_index st' = bk_index st"
    "r = Inr (s, n) \<Longrightarrow> \<exists>d. bk_fs st' dest = Some d \<and> s = cd_sha cd d \<and> n = length d"
proof -
  have "(\<exists>e. r = Inl e) \<and> st' = st \<or>
      (\<exists>whole d ops. save_body cd (bu_fault w dest) dest whole d = (r, ops) \<and> st' = run_ops ops st)"
    using assms(1) by (auto simp: download_def split: body_reply.splits prod.splits)
  then have "advances cd data st st' \<and> bk_index st' = bk_index st \<and>
      (r = Inr (s, n) \<longrightarrow> (\<exists>d. bk_fs st' dest = Some d \<and> s = cd_sha cd d \<and> n = length d))"
    using save_body_ops(1) [where fs = "bk_fs st" and data = data and cd = cd and dest = dest]
      save_body_ops(2) [where fs = "bk_fs st" and data = data and cd = cd and dest = dest and s = s and n = n]
      assms(2,3) by (auto intro!: run_advances)
  then show "advances cd data st st'" "bk_index st' = bk_index st"
    "r = Inr (s, n) \<Longrightarrow> \<exists>d. bk_fs st' dest = Some d \<and> s = cd_sha cd d \<and> n = length d" by auto
qed

lemma ensure_wav_advances:
  assumes "ensure_wav cd w dir i st = (r, st')"
  shows "advances cd data st st'" "bk_index st' = bk_index st"
    "r = Inr (s, n) \<Longrightarrow> \<exists>d. bk_fs st' (wav_path dir i) = Some d \<and> s = cd_sha cd d \<and> n = length d"
proof -
  have ne: "wav_path dir i \<noteq> index_path data" using is_wav_path index_not_wav by metis
  have "st' = st \<and> (r = Inr (s, n) \<longrightarrow> (\<exists>d. bk_fs st' (wav_path dir i) = Some d \<and> s = cd_sha cd d \<and> n = length d)) \<or>
      bk_fs st (wav_path dir i) = None \<and> (\<exists>u. download cd w u (wav_path dir i) st = (r, st'))"
    using assms by (auto simp: ensure_wav_def hash_file_def Let_def split: if_splits option.splits sum.splits)
  then have "advances cd data st st' \<and> bk_index st' = bk_index st \<and>
      (r = Inr (s, n) \<longrightarrow> (\<exists>d. bk_fs st' (wav_path dir i) = Some d \<and> s = cd_sha cd d \<and> n = length d))"
    using download_advances(1,2) [of cd w _ "wav_path dir i" st r st' data, OF _ _ ne]
      download_advances(3) [of cd w _ "wav_path dir i" st r st' data s n, OF _ _ ne] by auto
  then show "advances cd data st st'" "bk_index st' = bk_index st"
    "r = Inr (s, n) \<Longrightarrow> \<exists>d. bk_fs st' (wav_path dir i) = Some d \<and> s = cd_sha cd d \<and> n = length d" by auto
qed

lemma cover_download:
  assumes "download cd w u (cover_path dir v) st = (r, st')"
  shows "advances cd data st st'" "bk_index st' = bk_index st"
  using download_advances(1,2) [OF assms, of data] scratchD [OF scratch_cover [of data dir v]] by auto

lemma ensure_image_advances:
  assumes "ensure_image cd w raw dir st = (r, st')"
  shows "advances cd data st st'" "bk_index st' = bk_index st"
proof -
  have "st' = st \<or> (\<exists>u r1. download cd w u (cover_path dir u) st = (r1, st'))"
    using assms by (auto simp: ensure_image_def Let_def split: if_splits option.splits sum.splits prod.splits)
  then show "advances cd data st st'" "bk_index st' = bk_index st" using cover_download by auto
qed

lemma add_clip_advances:
  "(memory_true cd data st \<Longrightarrow> record_true cd data (bk_fs st) r) \<Longrightarrow> advances cd data st (add_clip r st)"
  by (rule index_step_advances) (auto simp: add_clip_def memory_true_def intro: index_true_update)

lemma mark_advances:
  "(memory_true cd data st \<Longrightarrow> record_true cd data (bk_fs st) r) \<Longrightarrow>
    advances cd data st (save_index cd w data (add_clip r st))"
  by (rule advances_trans [OF add_clip_advances save_index_advances])

lemma backup_clip_advances:
  assumes "backup_clip cd w data raw c st = (ok, st')"
  shows "advances cd data st st'"
proof -
  define dir where "dir = clip_dir data (co_created c) (co_id c)"
  obtain b st1 where m: "write_meta cd w raw dir st = (b, st1)" by fastforce
  obtain r st2 where v: "ensure_wav cd w dir (co_id c) st1 = (r, st2)" by fastforce
  obtain q st3 where q: "ensure_image cd w raw dir st2 = (q, st3)" by fastforce
  note a1 = write_meta_advances(1) [OF m, of data]
  note a2 = advances_trans [OF a1 ensure_wav_advances(1) [OF v, of data]]
  note a3 = ensure_image_advances(1) [OF q, of data]
  have rm: "advances cd data st2 (run_ops [OpRemove (meta_path dir)] st2)"
    by (rule run_advances) simp
  show ?thesis
  proof (cases r)
    case (Inl e)
    then show ?thesis using assms m v a1 a2 advances_trans [OF a2 rm]
      by (cases b) (auto simp: backup_clip_def dir_def [symmetric] Let_def split: if_splits)
  next
    case (Inr p)
    obtain sha n where p: "p = (sha, n)" by fastforce
    define rc where "rc = \<lparr>ci_id = co_id c, ci_title = co_title c, ci_created = co_created c, ci_sha = sha, ci_bytes = n,
      ci_image_sha = fst (image_mark q), ci_image_bytes = snd (image_mark q), ci_at = bu_at w\<rparr>"
    have "record_true cd data (bk_fs st2) rc"
      using ensure_wav_advances(3) [OF v, of sha n] Inr p by (auto simp: record_true_def rc_def dir_def)
    then have t: "record_true cd data (bk_fs st3) rc" if "memory_true cd data st2"
      using record_mono advances_keeps [OF a3 that] by blast
    have "advances cd data st2 (save_index cd w data (add_clip rc st3))"
    proof (cases "memory_true cd data st2")
      case True
      from advances_trans [OF a3 mark_advances [OF t [OF True]]] show ?thesis .
    qed (simp add: advances_def)
    from advances_trans [OF a2 this] show ?thesis
      using assms m v q a1 Inr p
      by (cases b) (auto simp: backup_clip_def dir_def [symmetric] rc_def Let_def split: if_splits)
  qed
qed

lemma run_jobs_advances: "advances cd data st (run_jobs cd w data jobs st)"
proof (induction jobs arbitrary: st)
  case (Cons j jobs)
  obtain raw c where j: "j = (raw, c)" by fastforce
  obtain ok st1 where b: "backup_clip cd w data raw c st = (ok, st1)" by fastforce
  show ?case using advances_trans [OF backup_clip_advances [OF b] Cons.IH] by (simp add: j b)
qed simp

lemma process_advances: "advances cd data st (process_clips cd w data raws st)"
  by (simp add: process_clips_def run_jobs_advances)

lemma scan_advances: "advances cd data st (scan_pages cd w data page n st)"
proof (induction n arbitrary: page st)
  case (Suc n)
  show ?case
    using process_advances advances_trans [OF process_advances Suc.IH] by (auto simp: Let_def split: sum.splits)
qed simp

lemma cursor_advances: "advances cd data st (set_cursor page fin st)"
  by (rule index_step_advances) (simp_all add: set_cursor_def memory_true_def)

lemma backfill_advances: "advances cd data st (backfill_pages cd w data page n st)"
proof (induction n arbitrary: page st)
  case (Suc n)
  have e: "advances cd data st (save_index cd w data (set_cursor 1 True st))"
    by (rule advances_trans [OF cursor_advances save_index_advances])
  have s: "advances cd data st (save_index cd w data (set_cursor (page + 1) False (process_clips cd w data raws st)))" for raws
    by (rule advances_trans [OF process_advances advances_trans [OF cursor_advances save_index_advances]])
  show ?case using e s advances_trans [OF s Suc.IH] by (auto simp: Let_def split: sum.splits)
qed simp

lemma heal_one_advances:
  assumes "memory_true cd data st \<Longrightarrow> record_true cd data (bk_fs st) r"
  shows "advances cd data st (heal_one_image cd w data (i, r) st)"
proof -
  have m: "advances cd data st1 (save_index cd w data (add_clip (r\<lparr>ci_image_sha := x, ci_image_bytes := n\<rparr>) st1))"
    and m': "advances cd data st1 (save_index cd w data (add_clip (r\<lparr>ci_image_sha := x\<rparr>) st1))"
    if "memory_true cd data st1 \<Longrightarrow> record_true cd data (bk_fs st1) r" for st1 x n
    using that by (auto intro!: mark_advances simp: record_true_def split: option.splits)
  have d: "advances cd data st st1 \<and>
      advances cd data st (save_index cd w data (add_clip (r\<lparr>ci_image_sha := x, ci_image_bytes := n\<rparr>) st1)) \<and>
      advances cd data st (save_index cd w data (add_clip (r\<lparr>ci_image_sha := x\<rparr>) st1))"
    if dl: "download cd w u (cover_path dir u) st = (res, st1)" for u dir res st1 x n
  proof (cases "memory_true cd data st")
    case True
    note a = cover_download(1) [OF dl, of data]
    have t: "record_true cd data (bk_fs st1) r" using record_mono [OF assms [OF True] advances_keeps [OF a True]] .
    from a advances_trans [OF a m [OF t]] advances_trans [OF a m' [OF t]] show ?thesis by blast
  qed (simp add: advances_def)
  show ?thesis
    using d m [OF assms] m' [OF assms]
    by (auto simp: heal_one_image_def Let_def split: option.splits sum.splits prod.splits if_splits)
qed

lemma heal_each_advances:
  "(memory_true cd data st \<Longrightarrow> index_true cd data (bk_fs st) ps) \<Longrightarrow> advances cd data st (heal_each cd w data ps st)"
proof (induction ps arbitrary: st)
  case (Cons p ps)
  obtain i r where p: "p = (i, r)" by fastforce
  have a: "advances cd data st (heal_one_image cd w data p st)"
    unfolding p using Cons.prems by (intro heal_one_advances) (simp add: index_true_def p)
  show ?case
  proof (cases "memory_true cd data st")
    case True
    have "index_true cd data (bk_fs (heal_one_image cd w data p st)) ps"
      using index_mono [OF _ advances_keeps [OF a True]] Cons.prems [OF True] by (simp add: index_true_def)
    from advances_trans [OF a Cons.IH [OF this]] show ?thesis by simp
  qed (simp add: advances_def)
qed simp

lemma heal_advances: "advances cd data st (heal_images cd w data st)"
  unfolding heal_images_def
  by (rule heal_each_advances) (auto simp: memory_true_def index_true_def list_all_iff)

lemma pass_advances: "advances cd data st (one_pass cd data pages step pw st)"
  by (simp add: one_pass_def scan_recent_def backfill_pass_def scan_advances backfill_advances heal_advances
      split: backup_pass.split)

lemma passes_advance: "advances cd data st (fold (one_pass cd data pages step) ps st)"
proof (induction ps arbitrary: st)
  case (Cons p ps)
  from advances_trans [OF pass_advances Cons.IH] show ?case by simp
qed simp

text \<open>A sample: a service with one clip on its pages 0 and 1, whose master can be had.\<close>

definition sample_codec :: codec where
  "sample_codec = \<lparr>cd_sha = (\<lambda>d. d), cd_index = (\<lambda>(idx, c). concat (map fst idx) @ '';''),
     cd_load = (\<lambda>s. (([], 0, False), False)), cd_pretty = (\<lambda>v. ''{}'')\<rparr>"

definition sample_page :: string where
  "sample_page = ''{\"clips\":[{\"id\":\"a\"}]}''"

definition sample_world :: backup_world where
  "sample_world = \<lparr>bu_tmp = (\<lambda>p. 7), bu_stat_ok = (\<lambda>p. True), bu_read_ok = (\<lambda>p. True), bu_mkdir = (\<lambda>p. True),
     bu_fault = (\<lambda>p. None), bu_wav = (\<lambda>i k. Reply 200 ''{\"wav_file_url\":\"u\"}''), bu_convert = (\<lambda>i. Reply 204 []),
     bu_polls = (\<lambda>i. 3), bu_get = (\<lambda>u. Whole ''RIFF''), bu_at = ''now'',
     bu_page = (\<lambda>n. if n < 2 then Reply 200 sample_page else Reply 200 ''{}''), bu_stop = (\<lambda>x. False)\<rparr>"

definition sample_start :: backup where
  "sample_start = \<lparr>bk_fs = Map.empty, bk_log = [], bk_index = [], bk_page = 0, bk_done = False\<rparr>"



section \<open>Rebuilding the index\<close>

text \<open>No cancellation and no fault of the file system; the service may do what it likes.\<close>

definition calm :: "backup_world \<Rightarrow> bool" where
  "calm w \<longleftrightarrow> (\<forall>x. \<not> bu_stop w x) \<and> (\<forall>p. bu_stat_ok w p \<and> bu_read_ok w p \<and> bu_mkdir w p \<and> bu_fault w p = None)"

definition on_disk :: "string \<Rightarrow> (string \<rightharpoonup> string) \<Rightarrow> clip_core \<Rightarrow> bool" where
  "on_disk data fs c \<longleftrightarrow> fs (wav_path (clip_dir data (co_created c) (co_id c)) (co_id c)) \<noteq> None"

definition listed :: "json list \<Rightarrow> clip_core \<Rightarrow> bool" where
  "listed raws c \<longleftrightarrow> (\<exists>raw\<in>set raws. parse_core raw = Some c) \<and> co_id c \<noteq> []"

lemma on_disk_mono: "on_disk data fs c \<Longrightarrow> keeps_masters fs fs' \<Longrightarrow> on_disk data fs' c"
  using is_wav_path by (fastforce simp: on_disk_def keeps_masters_def)

lemma has_add [simp]: "has_clip i (add_clip r st) = (i = ci_id r \<or> has_clip i st)"
  by (auto simp: has_clip_def add_clip_def update_conv')

lemma has_save [simp]: "has_clip i (save_index cd w data st) = has_clip i st"
  by (simp add: has_clip_def save_index_def)

lemma has_cursor [simp]: "has_clip i (set_cursor page fin st) = has_clip i st"
  by (simp add: has_clip_def set_cursor_def)

lemma has_cong: "bk_index st = bk_index st' \<Longrightarrow> has_clip i st = has_clip i st'"
  by (simp add: has_clip_def)

lemma write_meta_calm: "calm w \<Longrightarrow> fst (write_meta cd w raw dir st)"
  by (simp add: write_meta_def calm_def atomic_write_bytes_def Let_def)

lemma backup_clip_calm:
  assumes "calm w" "on_disk data (bk_fs st) c" "memory_true cd data st" "backup_clip cd w data raw c st = (ok, st')"
  shows "has_clip i st' = (i = co_id c \<or> has_clip i st)"
proof -
  define dir where "dir = clip_dir data (co_created c) (co_id c)"
  obtain st1 where m: "write_meta cd w raw dir st = (True, st1)"
    using write_meta_calm [OF assms(1), of cd raw dir st] by (metis prod.collapse)
  note a = write_meta_advances(1) [OF m, of data] write_meta_advances(2) [OF m]
  have "on_disk data (bk_fs st1) c" by (rule on_disk_mono [OF assms(2) advances_keeps [OF a(1) assms(3)]])
  then obtain d where "bk_fs st1 (wav_path dir (co_id c)) = Some d" by (auto simp: on_disk_def dir_def)
  then have v: "ensure_wav cd w dir (co_id c) st1 = (Inr (cd_sha cd d, length d), st1)"
    using assms(1) by (simp add: ensure_wav_def hash_file_def calm_def Let_def)
  obtain q st3 where q: "ensure_image cd w raw dir st1 = (q, st3)" by fastforce
  have "bk_index st3 = bk_index st" using ensure_image_advances(2) [OF q] a(2) by simp
  then have "has_clip i st3 = has_clip i st" by (rule has_cong)
  then show ?thesis
    using assms(1,4) m v q by (auto simp: backup_clip_def dir_def [symmetric] calm_def Let_def)
qed

lemma run_jobs_calm:
  assumes "calm w" "\<forall>(raw, c)\<in>set jobs. on_disk data (bk_fs st) c" "memory_true cd data st"
  shows "has_clip i (run_jobs cd w data jobs st) = (i \<in> co_id ` snd ` set jobs \<or> has_clip i st)"
  using assms(2,3)
proof (induction jobs arbitrary: st)
  case (Cons j jobs)
  obtain raw c where j: "j = (raw, c)" by fastforce
  obtain ok st1 where b: "backup_clip cd w data raw c st = (ok, st1)" by fastforce
  note a = backup_clip_advances [OF b]
  have m: "memory_true cd data st1" using a Cons.prems by (simp add: advances_def)
  have "has_clip i (run_jobs cd w data jobs st1) = (i \<in> co_id ` snd ` set jobs \<or> has_clip i st1)"
    using Cons.prems(1) on_disk_mono [OF _ advances_keeps [OF a Cons.prems(2)]] m by (intro Cons.IH) auto
  then show ?case
    using backup_clip_calm [OF assms(1) _ Cons.prems(2) b, of i] Cons.prems(1) assms(1) by (auto simp: j b calm_def)
qed simp

lemma process_calm:
  assumes "calm w" "\<forall>c. listed raws c \<longrightarrow> on_disk data (bk_fs st) c" "memory_true cd data st"
  shows "has_clip i (process_clips cd w data raws st) = ((\<exists>c. listed raws c \<and> i = co_id c) \<or> has_clip i st)"
proof -
  have s: "set (new_jobs raws st) = {(raw, c). raw \<in> set raws \<and> parse_core raw = Some c \<and> co_id c \<noteq> [] \<and> \<not> has_clip (co_id c) st}"
    by (auto simp: new_jobs_def in_map_filter split: option.splits if_splits) (metis option.discI option.inject)
  have "\<forall>(raw, c)\<in>set (new_jobs raws st). on_disk data (bk_fs st) c"
    using assms(2) by (auto simp: s listed_def)
  from run_jobs_calm [OF assms(1) this assms(3)] show ?thesis
    by (force simp: process_clips_def s listed_def image_iff)
qed

lemma backfill_calm:
  assumes "calm w" "memory_true cd data st" "\<forall>raws\<in>set pages. \<forall>c. listed raws c \<longrightarrow> on_disk data (bk_fs st) c"
    "\<forall>i<length pages. fetch_page w (page + int i) = Inr (pages ! i) \<and> pages ! i \<noteq> []"
    "fetch_page w (page + int (length pages)) = Inr []" "length pages < n" "st' = backfill_pages cd w data page n st"
  shows "bk_done st' \<and> bk_page st' = 1 \<and> (\<forall>i. has_clip i st' = ((\<exists>raws\<in>set pages. \<exists>c. listed raws c \<and> i = co_id c) \<or> has_clip i st))"
  using assms(2-7)
proof (induction pages arbitrary: page n st)
  case Nil
  then obtain m where "n = Suc m" by (cases n) auto
  with Nil assms(1) show ?case by (simp add: calm_def save_index_def set_cursor_def has_clip_def)
next
  case (Cons raws pages)
  then obtain m where n: "n = Suc m" by (cases n) auto
  define st1 where "st1 = save_index cd w data (set_cursor (page + 1) False (process_clips cd w data raws st))"
  have a: "advances cd data st st1"
    unfolding st1_def by (rule advances_trans [OF process_advances advances_trans [OF cursor_advances save_index_advances]])
  have f: "fetch_page w page = Inr raws" "raws \<noteq> []" using Cons.prems(3) by (force dest: spec [of _ 0])+
  have "fetch_page w (page + 1 + int i) = Inr (pages ! i) \<and> pages ! i \<noteq> []" if "i < length pages" for i
    using Cons.prems(3) that by (auto dest!: spec [of _ "Suc i"] simp: algebra_simps)
  moreover have "\<forall>rs\<in>set pages. \<forall>c. listed rs c \<longrightarrow> on_disk data (bk_fs st1) c"
    using Cons.prems(2) on_disk_mono [OF _ advances_keeps [OF a Cons.prems(1)]] by auto
  moreover have "memory_true cd data st1" using a Cons.prems(1) by (simp add: advances_def)
  moreover have "st' = backfill_pages cd w data (page + 1) m st1"
    using Cons.prems(6) f assms(1) by (simp add: n st1_def calm_def Let_def)
  ultimately have "bk_done st' \<and> bk_page st' = 1 \<and>
      (\<forall>i. has_clip i st' = ((\<exists>raws\<in>set pages. \<exists>c. listed raws c \<and> i = co_id c) \<or> has_clip i st1))"
    using Cons.prems(4,5) by (intro Cons.IH) (auto simp: n algebra_simps)
  moreover have "has_clip i st1 = ((\<exists>c. listed raws c \<and> i = co_id c) \<or> has_clip i st)" for i
    using process_calm [OF assms(1) _ Cons.prems(1), of raws i] Cons.prems(2) by (simp add: st1_def)
  ultimately show ?case by auto
qed



text \<open>
  What a cancellation costs: the page whose clips were not looked at is behind the cursor afterwards, in memory and
  on disk.
\<close>

lemma cancelled_page_is_skipped:
  assumes "fetch_page w page = Inr clips" "clips \<noteq> []" "\<not> bu_stop w (BeforePage page)" "bu_stop w (AfterPage page)"
    "\<forall>i. bu_stop w (BeforeJob i)" "st' = backfill_pages cd w data page (Suc n) st" "bu_fault w (index_path data) = None"
  shows "bk_index st' = bk_index st \<and> bk_page st' = page + 1 \<and>
    bk_fs st' (index_path data) = Some (cd_index cd (bk_index st, page + 1, False))"
proof -
  have "process_clips cd w data clips st = st"
    using assms(5) by (cases "new_jobs clips st") (auto simp: process_clips_def)
  then show ?thesis
    using assms by (simp add: Let_def save_index_def set_cursor_def atomic_write_bytes_def)
qed

text \<open>
  A worker that loses the race for a clip removes the metadata of the winner on its way out. Nothing writes it
  again: the clip is indexed, and the repair of covers reads the file that is missing.
\<close>

lemma lost_metadata_stays_lost:
  assumes "has_clip i st"
  shows "(raw, c) \<in> set (new_jobs raws st) \<Longrightarrow> co_id c \<noteq> i"
    "bk_fs st (meta_path (clip_dir data (ci_created r) i)) = None \<Longrightarrow> heal_one_image cd w data (i, r) st = st"
  using assms by (auto simp: new_jobs_def in_map_filter heal_one_image_def split: option.splits if_splits)

end
