(* ===== verification/Spec2Isabelle.thy ===== *)
theory Spec2Isabelle
  imports RouterMain Facade ClassifySpec NomServer RosterSpec StoreSpec StoreQueries GenerateSpec ScannerSpec
    DatsSpec IgirSpec Scrape Jobs Regen DownloadsSpec SunoBackfill
    SunoBackupSpec
begin

text \<open>
  Verification of the Go programs of jupiter-os.

  The repository is a NixOS monorepo; its own Go code are the programs under pkgs/. They are
  modelled here from their sources, theory by theory in the order in which the code calls.

  pkgs/model-router, a proxy that spreads chat requests over free-tier model providers.
    \<^item> Health, HealthSpec (internal/health/state.go, events.go): the machine of blocking states per scope,
      its escalation ladder and event ring. It refines a gate with one deadline per scope and state.
    \<^item> Classify, ClassifySpec (internal/health/classify.go): what a failed response says about a key and its
      limits, with the JSON decoding of GoJson.
    \<^item> Ledger, LedgerSpec (internal/ledger/ledger.go): reservations against learned ceilings in windows.
    \<^item> Pool, PoolSpec (internal/pool): members, gates, deficit round robin, Beta scores, the failover chain.
    \<^item> Sse, Walk, WalkSpec (internal/upstream): the frame parser, one stream under its clocks, and the walk over
      the chain that must not splice two providers.
    \<^item> Discovery, DiscoverySpec (internal/discovery/loop.go): the catalogue, its polls and the pools built from it.
    \<^item> Vault (internal/vault): the key rows with sealed secrets and the master key.
    \<^item> RouterMain (cmd/router/main.go): how seed, vault and pools are put together and kept in step.
    \<^item> Facade (internal/facade/handlers.go): the HTTP handlers over a walk.

  pkgs/nom-web, the live view of a Nix build.
    \<^item> NomState, NomSpec (parser.go): the events of a build log and the state they add up to, with the invariant
      that ties the counters of a derivation to the live activities.
    \<^item> NomTree (deps.go): the edge list, the memoised walk to the nearest derivations of the run, the forest.
    \<^item> NomServer (snapshot.go, session.go, main.go): snapshots, subscribers, the polling reader, sessions and the
      two request handlers.

  pkgs/roster-writer, the writer of the shift roster.
    \<^item> Roster (roster.go): the calendar, the rows, the contract and the changes between two feeds.
    \<^item> RosterSpec (main.go): the transaction, a whole pass, and what both promise.

  pkgs/arcade-webapp, the library of the arcade cabinets (internal/).
    \<^item> FileTree: paths, directory trees and the order in which Go walks them, files that cannot be read included.
    \<^item> Catalogue (catalogue.go): the table of systems; what is written for well-formed rows is read back.
    \<^item> ArcadeStore (store.go): the tables as lists of rows with the constraints and cascades of the schema.
      StoreSpec shows that the tables stay consistent and that a scan keeps what was curated.
    \<^item> StoreQueries (store.go): search, pages, aggregates and histories.
    \<^item> Pegasus (pegasus.go): the strict parser of metadata files and their validator.
    \<^item> Generate, GenerateSpec (generate.go): rendering and the atomic write. The file is read back as what the
      rows say, it is refused only for collisions, and a kill leaves an old or an accepted file.
    \<^item> Exo (exo.go): the import of the curated collections.
    \<^item> Scanner, ScannerSpec (scanner.go): the walk with its byte accounting, hashes, the scrape cache, a whole scan.
    \<^item> Dats, DatsSpec (dats.go): fetching DATs at one commit, the lock that pins them, the ledger, the alarm.
    \<^item> Igir, IgirSpec (igir/runner.go): the report of igir, promotion and the verification of systems and batches.
    \<^item> Scrape (scrape.go): the passes of the scraper, the redaction of credentials, batches.
    \<^item> Aria2, Downloads, DownloadsSpec (aria2.go, web/downloads.go): the client of the download daemon with its
      retries, the page that joins queue and catalogue, submitting and staging; what a submission reports although
      requests and replies may be lost.
    \<^item> WebViews, VerifyWeb (web/server.go, web/verify.go, inventory.go): what the dashboard, the inventory and the
      verify page show, and what the handlers of the latter decide.
    \<^item> Regen (web/generate.go): the coordinator of automatic regenerations as interleaved steps; no edit is lost.
    \<^item> Jobs (pipeline.go and its three clients): the two locks of each heavy job as interleaved steps; never two
      at work, and the slot always comes back.

  pkgs/suno-top, the collector of a public catalogue, with pkgs/suno-backfill over the same tables.
    \<^item> SunoClip, SunoStore: a clip object, the tables and the transactions that write a clip with its sighting.
    \<^item> SunoTop, SunoLanes (main.go): the requests with the decoding of their replies; the seven lanes, startup.
    \<^item> SunoSpec: what every statement keeps every pass keeps (locale \<open>lane_invariant\<close>): the floor, complete
      curves of counts, finished rows; and a tag comes to its end.
    \<^item> SunoBackfill (pkgs/suno-backfill): the resumable visit of a list of ids; it keeps what the lanes rely on.

  pkgs/suno-backup, the mirror of an account's tracks.
    \<^item> SunoAuth: the cookie, the expiry of a token, the session and its refresh.
    \<^item> SunoBackup: the index, downloads, the backup of one clip and the passes, as a log of file operations.
    \<^item> SunoBackupSpec: what a kill leaves behind at any operation; the rebuilding of a lost index.

  Prelude, GoStrings, GoTime, GoJson, Base64 and FileOps hold what the components share: stable sorting, maps
  with a default, bounded trails, base64, file operations that a kill may cut, Go's
  string functions, instants in nanoseconds with the civil calendar, JSON values.

  Interfaces are locales: \<open>bounded_trail\<close> (a ring that keeps the newest entries), \<open>weak_order\<close> (the order
  of a sort), \<open>invariant_machine\<close> (operations that keep an invariant) and the others of Prelude and the
  component theories. Each is interpreted on the definitions of the code, and the properties use those facts.

  Conventions. A mutex makes a call atomic, so an operation is a function from state to state, and an
  interleaving is a list of operations. A Go map is a function into options where only lookups matter and an
  association list where it is ranged over; results hold for every order of that list. \<open>sort.Slice\<close> is a
  stable sort, one of the orders the code may produce. Errors are values of sums or options; the clock, random
  draws, files, sockets and the database's faults are arguments. 64-bit counters are words; amounts, scores and
  hours are rationals where the code has floats, so rounding is not modelled. Strings are lists of bytes, and
  case folding is that of ASCII letters. A duplicate key of a JSON object is decoded as the last one.

  Loops. A walk over the chain, the parser and the calendar recurse over their lists. The rejection sampling of
  the Beta scores and the roulette wheel consume a list of draws. \<open>nearest_in\<close> recurses with fuel two more than
  the number of edges; every call adds a name to the memo, and
  \<open>tree_is_built_for_every_graph\<close> shows that the fuel never runs out. The reader of nom-web is run over a list
  of reads.

  Parameters. For the arcade: the tokens of an XML text, SHA-1, the entries of a zip file, the matches of the
  full-text index, the JSON of a run's detail, the names of temporary files. The cipher of the vault (sealing and opening, with authenticity as a hypothesis), the HTTP clients
  of the providers, the Pacific offset, the digest of a feed, the file systems and links nom-web reads.

  Not modelled: listening sockets, process start and shutdown, the YAML configuration and the signature check of
  the seed, the dashboard's HTML, database migrations and SQL text, the MQTT client, structured logging, the
  templates and the remaining pages of pkgs/arcade-webapp, and the programs under scripts/.
\<close>

end
